(* ===== verification/Prelude.thy ===== *)
theory Prelude
  imports Main "HOL-Library.Char_ord"
begin

text \<open>
  Shared vocabulary of the development: the names of the model's base types, the result type of
  fallible operations with its sequencing operator, and the generic lemmas on lists, maps and
  options that several components use.  Three collections are filled by the component theories:
  \<open>result_iff\<close> (what it means for a sequenced operation to succeed), \<open>state_simps\<close> (how an operation
  changes each field of its state) and \<open>inv_intros\<close> (operations that keep an invariant).
\<close>

named_theorems result_iff \<open>when a sequenced operation returns a value\<close>
named_theorems state_simps \<open>the effect of an operation on the fields of its state\<close>
named_theorems inv_intros \<open>operations keep the invariant of their component\<close>

section \<open>Base types\<close>

text \<open>
  Identifiers that the program treats as opaque are natural numbers; \<open>uuid_nil\<close> is Go's
  \<open>uuid.Nil\<close>.  Points in time and durations are integers (nanoseconds), as in \<open>time.Time\<close> and
  \<open>time.Duration\<close>.
\<close>

type_synonym uuid = nat
type_synonym time = int
type_synonym duration = int

definition uuid_nil :: uuid where
  "uuid_nil = 0"

definition second :: duration where
  "second = 1000000000"

text \<open>Arithmetic on \<open>int64\<close> wraps around.\<close>

definition wrap64 :: "int \<Rightarrow> int" where
  "wrap64 x = (x + 2 ^ 63) mod 2 ^ 64 - 2 ^ 63"

section \<open>Results\<close>

text \<open>
  A Go function that returns \<open>(T, error)\<close> returns \<open>Inl e\<close> for the error and \<open>Inr x\<close> for the value.
\<close>

type_synonym ('e, 'a) result = "'e + 'a"

definition rbind :: "('e, 'a) result \<Rightarrow> ('a \<Rightarrow> ('e, 'b) result) \<Rightarrow> ('e, 'b) result" where
  "rbind m f = (case m of Inl e \<Rightarrow> Inl e | Inr x \<Rightarrow> f x)"

definition guard :: "bool \<Rightarrow> 'e \<Rightarrow> ('e, unit) result" where
  "guard b e = (if b then Inr () else Inl e)"

definition of_option :: "'e \<Rightarrow> 'a option \<Rightarrow> ('e, 'a) result" where
  "of_option e x = (case x of None \<Rightarrow> Inl e | Some y \<Rightarrow> Inr y)"

lemma rbind_simps [simp]:
  "rbind (Inl e) f = Inl e"
  "rbind (Inr x) f = f x"
  by (simp_all add: rbind_def)

lemma guard_simps [simp]:
  "guard True e = Inr ()"
  "guard False e = Inl e"
  by (simp_all add: guard_def)

lemma of_option_simps [simp]:
  "of_option e None = Inl e"
  "of_option e (Some y) = Inr y"
  by (simp_all add: of_option_def)

lemma rbind_Inr_iff [result_iff]: "rbind m f = Inr y \<longleftrightarrow> (\<exists>x. m = Inr x \<and> f x = Inr y)"
  by (cases m) simp_all

lemma guard_Inr_iff [result_iff]: "guard b e = Inr u \<longleftrightarrow> b"
  by (cases b) simp_all

lemma of_option_Inr_iff [result_iff]: "of_option e x = Inr y \<longleftrightarrow> x = Some y"
  by (cases x) simp_all

lemma rbind_Inl_iff: "rbind m f = Inl e \<longleftrightarrow> m = Inl e \<or> (\<exists>x. m = Inr x \<and> f x = Inl e)"
  by (cases m) simp_all

section \<open>Lists and maps\<close>

lemma dropWhile_idem [simp]: "dropWhile P (dropWhile P xs) = dropWhile P xs"
  by (induction xs) simp_all

lemma dropWhile_suffix: "\<exists>ys. xs = ys @ dropWhile P xs"
  by (metis takeWhile_dropWhile_id)

lemma dropWhile_hd_not: "dropWhile P xs \<noteq> [] \<Longrightarrow> \<not> P (hd (dropWhile P xs))"
  by (rule hd_dropWhile) (metis dropWhile_eq_Nil_conv)

lemma dropWhile_append_hd_not:
  "xs \<noteq> [] \<Longrightarrow> \<not> P (hd xs) \<Longrightarrow> dropWhile P xs = xs"
  by (cases xs) simp_all

lemma set_dropWhile_subset: "set (dropWhile P xs) \<subseteq> set xs"
  by (meson set_dropWhileD subsetI)

lemma length_dropWhile_rev_le: "length (rev (dropWhile P (rev xs))) \<le> length xs"
  by (metis length_dropWhile_le length_rev)

lemma sum_list_filter_le_nat: "sum_list (map f (filter P xs)) \<le> sum_list (map f xs)" for f :: "'a \<Rightarrow> nat"
  by (induction xs) simp_all

lemma card_dom_upd_le: "finite (dom m) \<Longrightarrow> card (dom (m(k \<mapsto> v))) \<le> Suc (card (dom m))"
  by (simp add: card_insert_if)

lemma ran_restrict_subset: "ran (m |` A) \<subseteq> ran m"
  by (auto simp: ran_def restrict_map_def split: if_splits)

end
