(* ===== verification/GoStrings.thy ===== *)
theory GoStrings
  imports Prelude
begin

text \<open>
  Go strings and the part of Go's \<open>strings\<close>, \<open>unicode/utf8\<close> and \<open>strconv\<close> packages the program
  calls.  A Go string is a sequence of bytes, and so is an Isabelle \<^typ>\<open>string\<close> (a \<^typ>\<open>char\<close>
  is a byte); \<open>length\<close> is Go's \<open>len\<close>.  Iterating over a Go string decodes UTF-8: \<open>runes\<close> gives the
  decoded code points with the bytes each was decoded from.  Go's Unicode case tables are the
  parameter \<open>U\<close> of the functions that use them, for code points beyond ASCII; ASCII case mapping,
  white space and UTF-8 are defined here in full.
\<close>

section \<open>Bytes\<close>

abbreviation byte :: "char \<Rightarrow> nat" where
  "byte c \<equiv> of_char c"

definition is_ascii :: "string \<Rightarrow> bool" where
  "is_ascii s = list_all (\<lambda>c. byte c < 128) s"

definition is_digit :: "char \<Rightarrow> bool" where
  "is_digit c = (48 \<le> byte c \<and> byte c \<le> 57)"

definition is_lower :: "char \<Rightarrow> bool" where
  "is_lower c = (97 \<le> byte c \<and> byte c \<le> 122)"

definition is_upper :: "char \<Rightarrow> bool" where
  "is_upper c = (65 \<le> byte c \<and> byte c \<le> 90)"

definition is_lower_hex :: "char \<Rightarrow> bool" where
  "is_lower_hex c = (is_digit c \<or> (97 \<le> byte c \<and> byte c \<le> 102))"

section \<open>UTF-8\<close>

text \<open>\<open>utf8.DecodeRuneInString\<close>: the code point and its width; an invalid sequence is the
  replacement character U+FFFD with width 1, the empty string has width 0.\<close>

definition rune_error :: nat where
  "rune_error = 65533"

definition cont :: "char \<Rightarrow> bool" where
  "cont c = (128 \<le> byte c \<and> byte c \<le> 191)"

definition second_ok :: "nat \<Rightarrow> char \<Rightarrow> bool" where
  "second_ok x c =
     ((if x = 224 then 160 else if x = 240 then 144 else 128) \<le> byte c \<and>
      byte c \<le> (if x = 237 then 159 else if x = 244 then 143 else 191))"

fun decode_rune :: "string \<Rightarrow> nat \<times> nat" where
  "decode_rune [] = (rune_error, 0)"
| "decode_rune (b # bs) =
     (let x = byte b in
      if x < 128 then (x, 1)
      else if 194 \<le> x \<and> x \<le> 223 then
        (case bs of
           c1 # _ \<Rightarrow> if cont c1 then ((x - 192) * 64 + (byte c1 - 128), 2) else (rune_error, 1)
         | [] \<Rightarrow> (rune_error, 1))
      else if 224 \<le> x \<and> x \<le> 239 then
        (case bs of
           c1 # c2 # _ \<Rightarrow>
             if second_ok x c1 \<and> cont c2
             then ((x - 224) * 4096 + (byte c1 - 128) * 64 + (byte c2 - 128), 3)
             else (rune_error, 1)
         | _ \<Rightarrow> (rune_error, 1))
      else if 240 \<le> x \<and> x \<le> 244 then
        (case bs of
           c1 # c2 # c3 # _ \<Rightarrow>
             if second_ok x c1 \<and> cont c2 \<and> cont c3
             then ((x - 240) * 262144 + (byte c1 - 128) * 4096 + (byte c2 - 128) * 64
                     + (byte c3 - 128), 4)
             else (rune_error, 1)
         | _ \<Rightarrow> (rune_error, 1))
      else (rune_error, 1))"

text \<open>\<open>utf8.AppendRune\<close>.  Surrogates and values beyond U+10FFFF are written as U+FFFD.\<close>

definition encode_rune :: "nat \<Rightarrow> string" where
  "encode_rune r =
     (if r < 128 then [char_of r]
      else if r < 2048 then [char_of (192 + r div 64), char_of (128 + r mod 64)]
      else if (55296 \<le> r \<and> r \<le> 57343) \<or> 1114111 < r then map char_of [239 :: nat, 191, 189]
      else if r < 65536 then
        [char_of (224 + r div 4096), char_of (128 + r div 64 mod 64), char_of (128 + r mod 64)]
      else
        [char_of (240 + r div 262144), char_of (128 + r div 4096 mod 64),
         char_of (128 + r div 64 mod 64), char_of (128 + r mod 64)])"

lemma decode_rune_width_pos: "0 < snd (decode_rune (b # bs))"
  by (auto simp: Let_def split: list.splits)

lemma decode_rune_width_le: "snd (decode_rune s) \<le> length s"
  by (cases s) (auto simp: Let_def split: list.splits)

text \<open>The loop \<open>for i, r := range s\<close>: code points with the bytes they were decoded from.\<close>

function runes :: "string \<Rightarrow> (nat \<times> string) list" where
  "runes [] = []"
| "runes (b # bs) =
     (let d = decode_rune (b # bs)
      in (fst d, take (snd d) (b # bs)) # runes (drop (snd d) (b # bs)))"
  by pat_completeness auto
termination
  by (relation "measure length") (use decode_rune_width_pos in \<open>auto simp del: decode_rune.simps\<close>)

definition unrunes :: "(nat \<times> string) list \<Rightarrow> string" where
  "unrunes cs = concat (map snd cs)"

lemma unrunes_simps [simp]:
  "unrunes [] = []"
  "unrunes (c # cs) = snd c @ unrunes cs"
  "unrunes (cs @ ds) = unrunes cs @ unrunes ds"
  by (simp_all add: unrunes_def)

declare runes.simps(2) [simp del] decode_rune.simps(2) [simp del]

lemma unrunes_runes [simp]: "unrunes (runes s) = s"
proof (induction s rule: runes.induct)
  case (2 b bs)
  then show ?case by (simp add: runes.simps(2) Let_def)
qed simp

lemma runes_Nil_iff [simp]: "runes s = [] \<longleftrightarrow> s = []"
  by (cases s) (simp_all add: runes.simps(2) Let_def)

lemma runes_chunk_nonempty: "c \<in> set (runes s) \<Longrightarrow> snd c \<noteq> []"
proof (induction s arbitrary: c rule: runes.induct)
  case (2 b bs)
  have pos: "0 < snd (decode_rune (b # bs))" by (rule decode_rune_width_pos)
  from "2.prems" consider "c = (fst (decode_rune (b # bs)), take (snd (decode_rune (b # bs))) (b # bs))"
    | "c \<in> set (runes (drop (snd (decode_rune (b # bs))) (b # bs)))"
    by (auto simp: runes.simps(2) Let_def)
  then show ?case using pos "2.IH" [OF refl] by cases auto
qed simp

text \<open>ASCII text decodes byte by byte.\<close>

lemma runes_ascii_Cons: "byte b < (128::nat) \<Longrightarrow> runes (b # bs) = (byte b, [b]) # runes bs"
  by (simp add: runes.simps(2) decode_rune.simps(2) Let_def)

lemma runes_ascii: "is_ascii s \<Longrightarrow> runes s = map (\<lambda>c. (byte c, [c])) s"
  by (induction s) (simp_all add: is_ascii_def runes_ascii_Cons)

text \<open>A decoded rune depends only on the bytes it was decoded from and on no longer context.\<close>

lemma decode_rune_append:
  assumes "snd (decode_rune (s @ t)) \<le> length s" and "s \<noteq> []"
  shows "decode_rune s = decode_rune (s @ t)"
proof -
  obtain b bs where s: "s = b # bs" using assms(2) by (cases s) auto
  show ?thesis
    using assms(1) unfolding s append_Cons decode_rune.simps(2)
    by (auto simp: Let_def split: list.splits if_splits)
qed

lemma runes_drop_first:
  assumes "runes s = c # cs"
  shows "runes (unrunes cs) = cs"
proof (cases s)
  case (Cons b bs)
  then have "cs = runes (drop (snd (decode_rune s)) s)"
    using assms by (simp add: runes.simps(2) Let_def)
  then show ?thesis by simp
qed (use assms in simp)

lemma runes_suffix: "runes s = cs @ ds \<Longrightarrow> runes (unrunes ds) = ds"
proof (induction cs arbitrary: s)
  case Nil
  then show ?case by (metis append_Nil unrunes_runes)
next
  case (Cons c cs)
  then have "runes (unrunes (cs @ ds)) = cs @ ds"
    by (metis append_Cons runes_drop_first)
  then show ?case by (rule Cons.IH)
qed

lemma runes_prefix: "runes s = cs @ ds \<Longrightarrow> runes (unrunes cs) = cs"
proof (induction cs arbitrary: s)
  case Nil
  show ?case by simp
next
  case (Cons c cs)
  obtain b bs where s: "s = b # bs" using Cons.prems by (cases s) auto
  let ?d = "decode_rune s"
  have c: "c = (fst ?d, take (snd ?d) s)" and rest: "runes (drop (snd ?d) s) = cs @ ds"
    using Cons.prems by (simp_all add: s runes.simps(2) Let_def)
  have IH: "runes (unrunes cs) = cs" using rest by (rule Cons.IH)
  have split: "s = unrunes (c # cs) @ unrunes ds"
    using Cons.prems by (metis append_Cons unrunes_runes unrunes_simps(3))
  have len: "length (snd c) = snd ?d"
    by (simp add: c decode_rune_width_le)
  have pos: "0 < snd ?d" unfolding s by (rule decode_rune_width_pos)
  have ne: "unrunes (c # cs) \<noteq> []" using len pos by auto
  have same: "decode_rune (unrunes (c # cs)) = ?d"
  proof -
    have "decode_rune (unrunes (c # cs)) = decode_rune (unrunes (c # cs) @ unrunes ds)"
      by (rule decode_rune_append) (use split ne len in \<open>simp_all only: split [symmetric], auto\<close>)
    then show ?thesis by (simp only: split [symmetric])
  qed
  obtain b' bs' where u: "unrunes (c # cs) = b' # bs'"
    using ne by (cases "unrunes (c # cs)") auto
  have "runes (unrunes (c # cs)) = (fst ?d, take (snd ?d) (unrunes (c # cs)))
          # runes (drop (snd ?d) (unrunes (c # cs)))"
    using same by (simp only: u runes.simps(2) Let_def)
  also have "\<dots> = c # cs"
    using len c IH by simp
  finally show ?case .
qed

lemma runes_infix: "runes s = cs @ ds @ es \<Longrightarrow> runes (unrunes ds) = ds"
  by (metis runes_prefix runes_suffix)

section \<open>Trimming\<close>

text \<open>\<open>unicode.IsSpace\<close>.\<close>

definition is_space :: "nat \<Rightarrow> bool" where
  "is_space r =
     ((9 \<le> r \<and> r \<le> 13) \<or> r = 32 \<or> r = 133 \<or> r = 160 \<or> r = 5760 \<or>
      (8192 \<le> r \<and> r \<le> 8202) \<or> r = 8232 \<or> r = 8233 \<or> r = 8239 \<or> r = 8287 \<or> r = 12288)"

text \<open>\<open>strings.TrimSpace\<close>: white-space runes are dropped at both ends.\<close>

definition space_chunk :: "nat \<times> string \<Rightarrow> bool" where
  "space_chunk c = is_space (fst c)"

definition trim_chunks :: "(nat \<times> string) list \<Rightarrow> (nat \<times> string) list" where
  "trim_chunks cs = rev (dropWhile space_chunk (rev (dropWhile space_chunk cs)))"

definition trim_space :: "string \<Rightarrow> string" where
  "trim_space s = unrunes (trim_chunks (runes s))"

text \<open>\<open>strings.Trim\<close>, \<open>strings.TrimLeft\<close> and \<open>strings.TrimRight\<close> with an ASCII cut set.\<close>

definition trim_left :: "string \<Rightarrow> string \<Rightarrow> string" where
  "trim_left cset s = dropWhile (\<lambda>c. c \<in> set cset) s"

definition trim_right :: "string \<Rightarrow> string \<Rightarrow> string" where
  "trim_right cset s = rev (dropWhile (\<lambda>c. c \<in> set cset) (rev s))"

definition trim_cut :: "string \<Rightarrow> string \<Rightarrow> string" where
  "trim_cut cset s = trim_right cset (trim_left cset s)"

lemma trim_chunks_infix: "\<exists>as bs. cs = as @ trim_chunks cs @ bs"
proof -
  obtain as where 1: "cs = as @ dropWhile space_chunk cs"
    using dropWhile_suffix by blast
  obtain bs where "rev (dropWhile space_chunk cs)
      = bs @ dropWhile space_chunk (rev (dropWhile space_chunk cs))"
    using dropWhile_suffix by blast
  then have "dropWhile space_chunk cs = trim_chunks cs @ rev bs"
    unfolding trim_chunks_def by (metis rev_append rev_rev_ident)
  with 1 show ?thesis by metis
qed

lemma runes_trim_space [simp]: "runes (trim_space s) = trim_chunks (runes s)"
  unfolding trim_space_def using trim_chunks_infix runes_infix by metis

lemma hd_trim_chunks: "trim_chunks cs \<noteq> [] \<Longrightarrow> \<not> space_chunk (hd (trim_chunks cs))"
proof -
  assume ne: "trim_chunks cs \<noteq> []"
  obtain bs where bs: "rev (dropWhile space_chunk cs)
      = bs @ dropWhile space_chunk (rev (dropWhile space_chunk cs))"
    using dropWhile_suffix by blast
  then have eq: "dropWhile space_chunk cs = trim_chunks cs @ rev bs"
    unfolding trim_chunks_def by (metis rev_append rev_rev_ident)
  then have "hd (trim_chunks cs) = hd (dropWhile space_chunk cs)"
    using ne by simp
  moreover have "dropWhile space_chunk cs \<noteq> []" using eq ne by auto
  ultimately show ?thesis by (metis dropWhile_hd_not)
qed

lemma last_trim_chunks: "trim_chunks cs \<noteq> [] \<Longrightarrow> \<not> space_chunk (last (trim_chunks cs))"
  unfolding trim_chunks_def by (simp add: last_rev dropWhile_hd_not)

lemma trim_chunks_id:
  "cs = [] \<or> (\<not> space_chunk (hd cs) \<and> \<not> space_chunk (last cs)) \<Longrightarrow> trim_chunks cs = cs"
  unfolding trim_chunks_def
  by (metis dropWhile_append_hd_not dropWhile.simps(1) hd_rev rev_is_Nil_conv rev_rev_ident)

lemma trim_chunks_idem [simp]: "trim_chunks (trim_chunks cs) = trim_chunks cs"
  by (rule trim_chunks_id) (use hd_trim_chunks last_trim_chunks in blast)

lemma trim_space_idem [simp]: "trim_space (trim_space s) = trim_space s"
  by (simp add: trim_space_def [of "trim_space s"]) (simp add: trim_space_def)

lemma trim_space_Nil [simp]: "trim_space [] = []"
  by (simp add: trim_space_def trim_chunks_def)

lemma trim_space_infix: "\<exists>as bs. s = as @ trim_space s @ bs"
proof -
  obtain as bs where "runes s = as @ trim_chunks (runes s) @ bs"
    using trim_chunks_infix by blast
  then have "s = unrunes as @ unrunes (trim_chunks (runes s)) @ unrunes bs"
    by (metis unrunes_runes unrunes_simps(3))
  then show ?thesis unfolding trim_space_def by blast
qed

lemma length_trim_space: "length (trim_space s) \<le> length s"
  using trim_space_infix [of s] by (metis le_add1 le_add2 length_append order_trans)

lemma set_trim_space: "set (trim_space s) \<subseteq> set s"
  using trim_space_infix [of s] by (metis Un_upper1 le_supI2 set_append)

text \<open>ASCII strings trim bytewise.\<close>

definition ascii_space :: "char \<Rightarrow> bool" where
  "ascii_space c = ((9 \<le> byte c \<and> byte c \<le> 13) \<or> byte c = (32::nat))"

lemma trim_space_ascii:
  assumes "is_ascii s"
  shows "trim_space s = rev (dropWhile ascii_space (rev (dropWhile ascii_space s)))"
proof -
  let ?f = "\<lambda>c. (byte c :: nat, [c])"
  have sp: "space_chunk (?f c) = ascii_space c" if "c \<in> set s" for c
    using assms that by (auto simp: space_chunk_def is_space_def ascii_space_def is_ascii_def list_all_iff)
  have dw: "dropWhile space_chunk (map ?f xs) = map ?f (dropWhile ascii_space xs)"
    if "set xs \<subseteq> set s" for xs
    using that by (induction xs) (simp_all add: sp)
  have un: "unrunes (map ?f xs) = xs" for xs
    by (induction xs) simp_all
  have "dropWhile space_chunk (runes s) = map ?f (dropWhile ascii_space s)"
    by (simp only: runes_ascii [OF assms] dw [OF subset_refl])
  moreover have "set (rev (dropWhile ascii_space s)) \<subseteq> set s"
    using set_dropWhile_subset by (metis set_rev)
  ultimately have "trim_chunks (runes s) = map ?f (rev (dropWhile ascii_space (rev (dropWhile ascii_space s))))"
    by (simp only: trim_chunks_def rev_map dw)
  then show ?thesis by (simp add: trim_space_def un)
qed

lemma trim_left_hd: "trim_left cset s \<noteq> [] \<Longrightarrow> hd (trim_left cset s) \<notin> set cset"
  unfolding trim_left_def by (rule dropWhile_hd_not)

lemma trim_right_last: "trim_right cset s \<noteq> [] \<Longrightarrow> last (trim_right cset s) \<notin> set cset"
  unfolding trim_right_def last_rev by (rule dropWhile_hd_not) simp

lemma trim_right_prefix: "\<exists>t. s = trim_right cset s @ t \<and> set t \<subseteq> set cset"
proof -
  have "s = rev (dropWhile (\<lambda>c. c \<in> set cset) (rev s)) @ rev (takeWhile (\<lambda>c. c \<in> set cset) (rev s))"
    by (metis rev_append rev_rev_ident takeWhile_dropWhile_id)
  moreover have "set (rev (takeWhile (\<lambda>c. c \<in> set cset) (rev s))) \<subseteq> set cset"
    using set_takeWhileD by fastforce
  ultimately show ?thesis unfolding trim_right_def by blast
qed

lemma trim_right_append_cut: "set t \<subseteq> set cset \<Longrightarrow> trim_right cset (s @ t) = trim_right cset s"
  unfolding trim_right_def by (simp add: dropWhile_append subset_code(1))

lemma dropWhile_id_hd: "xs = [] \<or> \<not> P (hd xs) \<Longrightarrow> dropWhile P xs = xs"
  by (cases xs) auto

lemma trim_right_id: "s = [] \<or> last s \<notin> set cset \<Longrightarrow> trim_right cset s = s"
  unfolding trim_right_def by (subst dropWhile_id_hd) (auto simp: hd_rev)

lemma trim_cut_hd:
  assumes "trim_cut cset s \<noteq> []" shows "hd (trim_cut cset s) \<notin> set cset"
proof -
  let ?l = "trim_left cset s"
  obtain t where t: "?l = trim_cut cset s @ t"
    using trim_right_prefix [of ?l cset] unfolding trim_cut_def by blast
  then have "?l \<noteq> []" "hd ?l = hd (trim_cut cset s)" using assms by (auto simp: hd_append)
  then show ?thesis using trim_left_hd by metis
qed

lemma trim_cut_last: "trim_cut cset s \<noteq> [] \<Longrightarrow> last (trim_cut cset s) \<notin> set cset"
  unfolding trim_cut_def by (rule trim_right_last)

lemma trim_cut_id: "s = [] \<or> (hd s \<notin> set cset \<and> last s \<notin> set cset) \<Longrightarrow> trim_cut cset s = s"
  unfolding trim_cut_def trim_left_def by (subst dropWhile_id_hd) (auto intro: trim_right_id)

lemma trim_cut_idem [simp]: "trim_cut cset (trim_cut cset s) = trim_cut cset s"
  by (rule trim_cut_id) (use trim_cut_hd trim_cut_last in blast)

lemma set_trim_cut: "set (trim_cut cset s) \<subseteq> set s"
proof -
  have "set (trim_cut cset s) \<subseteq> set (rev (trim_left cset s))"
    unfolding trim_cut_def trim_right_def set_rev [of "dropWhile _ _"] by (rule set_dropWhile_subset)
  also have "\<dots> \<subseteq> set s"
    unfolding set_rev trim_left_def by (rule set_dropWhile_subset)
  finally show ?thesis .
qed

text \<open>An ASCII character is never part of a longer sequence, so decoding splits before it.\<close>

lemma cont_ascii: "byte c < (128::nat) \<Longrightarrow> \<not> cont c"
  by (simp add: cont_def)

lemma second_ascii: "byte c < (128::nat) \<Longrightarrow> \<not> second_ok x c"
  by (auto simp: second_ok_def)

lemma decode_rune_append_ascii:
  assumes "byte c < (128::nat)"
  shows "decode_rune ((x # a) @ c # b) = decode_rune (x # a)"
proof -
  note [simp] = cont_ascii [OF assms] second_ascii [OF assms]
  show ?thesis
  proof (cases a)
    case Nil then show ?thesis by (auto simp: Let_def decode_rune.simps(2) split: list.splits)
  next
    case (Cons a1 a') note a = Cons
    show ?thesis
    proof (cases a')
      case Nil then show ?thesis using a by (auto simp: Let_def decode_rune.simps(2) split: list.splits)
    next
      case (Cons a2 a'')
      then show ?thesis using a by (cases a'') (simp_all add: Let_def decode_rune.simps(2))
    qed
  qed
qed

lemma runes_append_ascii:
  "byte c < (128::nat) \<Longrightarrow> runes (a @ c # b) = runes a @ (byte c, [c]) # runes b"
proof (induction a rule: runes.induct)
  case 1
  then show ?case by (simp add: runes_ascii_Cons)
next
  case (2 x a)
  have d: "decode_rune (x # a @ c # b) = decode_rune (x # a)"
    using decode_rune_append_ascii [OF 2(2), of x a b] by simp
  have "snd (decode_rune (x # a)) \<le> length (x # a)" by (rule decode_rune_width_le)
  then have t: "take (snd (decode_rune (x # a))) (x # a @ c # b) = take (snd (decode_rune (x # a))) (x # a)"
    and dr: "drop (snd (decode_rune (x # a))) (x # a @ c # b) = drop (snd (decode_rune (x # a))) (x # a) @ c # b"
    using take_append [of "snd (decode_rune (x # a))" "x # a" "c # b"]
      drop_append [of "snd (decode_rune (x # a))" "x # a" "c # b"] by simp_all
  have "runes (drop (snd (decode_rune (x # a))) (x # a) @ c # b) =
      runes (drop (snd (decode_rune (x # a))) (x # a)) @ (byte c, [c]) # runes b"
    using 2 by simp
  then show ?case unfolding append_Cons runes.simps(2) Let_def d t dr by simp
qed

lemma trim_chunks_enclosed:
  "\<not> space_chunk (hd xs) \<Longrightarrow> xs \<noteq> [] \<Longrightarrow> \<not> space_chunk k \<Longrightarrow>
   trim_chunks (xs @ k # ys) = xs @ k # rev (dropWhile space_chunk (rev ys))"
  by (cases xs) (simp_all add: trim_chunks_def dropWhile_append)

lemma trim_space_enclosed:
  assumes "byte h < (128::nat)" "byte c < (128::nat)" "\<not> ascii_space h" "\<not> ascii_space c"
  shows "\<exists>b'. trim_space (h # a @ c # b) = h # a @ c # b'"
proof -
  have sp: "\<not> space_chunk (byte x, [x])" if "byte x < (128::nat)" "\<not> ascii_space x" for x
    using that by (auto simp: space_chunk_def is_space_def ascii_space_def)
  have hd: "hd (runes (h # a)) = (byte h, [h])" using assms(1) by (simp add: runes_ascii_Cons)
  have "runes (h # a @ c # b) = runes (h # a) @ (byte c, [c]) # runes b"
    using runes_append_ascii [OF assms(2), of "h # a" b] by simp
  then have "trim_chunks (runes (h # a @ c # b)) =
      runes (h # a) @ (byte c, [c]) # rev (dropWhile space_chunk (rev (runes b)))"
    using trim_chunks_enclosed [of "runes (h # a)"] sp assms hd by simp
  then have "trim_space (h # a @ c # b) = (h # a) @ c # unrunes (rev (dropWhile space_chunk (rev (runes b))))"
    by (simp add: trim_space_def)
  then show ?thesis by auto
qed

end
