(* ===== verification/GoText.thy ===== *)
theory GoText
  imports GoStrings
begin

text \<open>
  The rest of the \<open>strings\<close> and \<open>strconv\<close> functions the program calls: prefixes and suffixes,
  searching, splitting and joining, case mapping, case-insensitive comparison with an ASCII
  pattern, \<open>Fields\<close>, \<open>Atoi\<close>, \<open>ToValidUTF8\<close> and hexadecimal encoding.
\<close>

section \<open>Prefixes and suffixes\<close>

definition has_prefix :: "string \<Rightarrow> string \<Rightarrow> bool" where
  "has_prefix s p = (take (length p) s = p)"

definition has_suffix :: "string \<Rightarrow> string \<Rightarrow> bool" where
  "has_suffix s p = (length p \<le> length s \<and> drop (length s - length p) s = p)"

definition trim_prefix :: "string \<Rightarrow> string \<Rightarrow> string" where
  "trim_prefix s p = (if has_prefix s p then drop (length p) s else s)"

definition trim_suffix :: "string \<Rightarrow> string \<Rightarrow> string" where
  "trim_suffix s p = (if has_suffix s p then take (length s - length p) s else s)"

lemma has_prefix_iff: "has_prefix s p \<longleftrightarrow> (\<exists>t. s = p @ t)"
  unfolding has_prefix_def by (metis append_eq_conv_conj append_take_drop_id)

lemma has_suffix_iff: "has_suffix s p \<longleftrightarrow> (\<exists>t. s = t @ p)"
proof
  assume "has_suffix s p"
  then show "\<exists>t. s = t @ p" unfolding has_suffix_def by (metis append_take_drop_id)
qed (auto simp: has_suffix_def)

lemma has_prefix_append [simp]: "has_prefix (p @ t) p"
  by (simp add: has_prefix_def)

lemma has_suffix_append [simp]: "has_suffix (t @ p) p"
  by (simp add: has_suffix_def)

lemma trim_prefix_append [simp]: "trim_prefix (p @ t) p = t"
  by (simp add: trim_prefix_def)

lemma trim_suffix_append [simp]: "trim_suffix (t @ p) p = t"
  by (simp add: trim_suffix_def)

section \<open>Searching\<close>

fun index_byte :: "string \<Rightarrow> char \<Rightarrow> nat option" where
  "index_byte [] c = None"
| "index_byte (x # xs) c = (if x = c then Some 0 else map_option Suc (index_byte xs c))"

fun index_sub :: "string \<Rightarrow> string \<Rightarrow> nat option" where
  "index_sub [] p = (if p = [] then Some 0 else None)"
| "index_sub (x # xs) p = (if has_prefix (x # xs) p then Some 0 else map_option Suc (index_sub xs p))"

definition contains_sub :: "string \<Rightarrow> string \<Rightarrow> bool" where
  "contains_sub s p = (index_sub s p \<noteq> None)"

definition last_index_byte :: "string \<Rightarrow> char \<Rightarrow> nat option" where
  "last_index_byte s c = map_option (\<lambda>i. length s - Suc i) (index_byte (rev s) c)"

definition contains_any :: "string \<Rightarrow> string \<Rightarrow> bool" where
  "contains_any s cs = list_ex (\<lambda>c. c \<in> set cs) s"

lemma index_byte_SomeD: "index_byte s c = Some i \<Longrightarrow> \<exists>a b. s = a @ c # b \<and> length a = i \<and> c \<notin> set a"
proof (induction s arbitrary: i)
  case (Cons x xs)
  show ?case
  proof (cases "x = c")
    case True
    then show ?thesis using Cons.prems by (intro exI [of _ "[]"] exI [of _ xs]) simp
  next
    case False
    then obtain j where j: "index_byte xs c = Some j" "i = Suc j" using Cons.prems by auto
    then obtain a b where "xs = a @ c # b \<and> length a = j \<and> c \<notin> set a" using Cons.IH by blast
    then show ?thesis using False j by (intro exI [of _ "x # a"] exI [of _ b]) auto
  qed
qed simp

lemma index_byte_append: "c \<notin> set a \<Longrightarrow> index_byte (a @ c # b) c = Some (length a)"
  by (induction a) auto

lemma index_byte_Some_iff:
  "index_byte s c = Some i \<longleftrightarrow> (\<exists>a b. s = a @ c # b \<and> length a = i \<and> c \<notin> set a)"
  using index_byte_SomeD index_byte_append by fastforce

lemma index_byte_None_iff: "index_byte s c = None \<longleftrightarrow> c \<notin> set s"
  by (induction s) auto

lemma last_index_byte_Some_iff:
  "last_index_byte s c = Some i \<longleftrightarrow> (\<exists>a b. s = a @ c # b \<and> length a = i \<and> c \<notin> set b)"
proof
  assume "last_index_byte s c = Some i"
  then obtain j where j: "index_byte (rev s) c = Some j" and i: "i = length s - Suc j"
    by (auto simp: last_index_byte_def)
  then obtain a b where ab: "rev s = a @ c # b" "length a = j" "c \<notin> set a"
    by (auto simp: index_byte_Some_iff)
  then have s: "s = rev b @ c # rev a" by (metis append.assoc append_Cons append_Nil rev.simps(2) rev_append rev_rev_ident)
  then show "\<exists>a b. s = a @ c # b \<and> length a = i \<and> c \<notin> set b"
    using ab i by (intro exI [of _ "rev b"] exI [of _ "rev a"]) auto
next
  assume "\<exists>a b. s = a @ c # b \<and> length a = i \<and> c \<notin> set b"
  then obtain a b where ab: "s = a @ c # b" "length a = i" "c \<notin> set b" by blast
  then have "index_byte (rev s) c = Some (length b)"
    unfolding index_byte_Some_iff by (intro exI [of _ "rev b"] exI [of _ "rev a"]) auto
  then show "last_index_byte s c = Some i" using ab by (simp add: last_index_byte_def)
qed

lemma last_index_byte_None_iff: "last_index_byte s c = None \<longleftrightarrow> c \<notin> set s"
  by (simp add: last_index_byte_def index_byte_None_iff)

lemma index_sub_le: "index_sub s p = Some i \<Longrightarrow> i + length p \<le> length s"
proof (induction s arbitrary: i)
  case (Cons x xs)
  show ?case
  proof (cases "has_prefix (x # xs) p")
    case True
    then have "length p \<le> length (x # xs)" unfolding has_prefix_iff by (metis le_add1 length_append)
    then show ?thesis using Cons.prems True by simp
  qed (use Cons in auto)
qed (auto split: if_splits)

lemma contains_sub_iff: "contains_sub s p \<longleftrightarrow> (\<exists>a b. s = a @ p @ b)"
proof (induction s)
  case (Cons x xs)
  have "contains_sub (x # xs) p \<longleftrightarrow> has_prefix (x # xs) p \<or> contains_sub xs p"
    by (simp add: contains_sub_def)
  then show ?case
    by (simp add: Cons.IH has_prefix_iff) (metis append_Cons append_Nil append_eq_Cons_conv list.sel(3))
qed (auto simp: contains_sub_def)

lemma contains_any_iff: "contains_any s cs \<longleftrightarrow> set s \<inter> set cs \<noteq> {}"
  by (auto simp: contains_any_def list_ex_iff)

section \<open>Splitting and joining\<close>

text \<open>\<open>strings.Split\<close> with a one-byte separator, \<open>strings.Cut\<close> with one, and \<open>strings.Join\<close>.\<close>

fun split_byte :: "string \<Rightarrow> char \<Rightarrow> string list" where
  "split_byte [] c = [[]]"
| "split_byte (x # xs) c =
     (if x = c then [] # split_byte xs c
      else case split_byte xs c of [] \<Rightarrow> [[x]] | y # ys \<Rightarrow> (x # y) # ys)"

definition cut_byte :: "string \<Rightarrow> char \<Rightarrow> (string \<times> string) option" where
  "cut_byte s c = map_option (\<lambda>i. (take i s, drop (Suc i) s)) (index_byte s c)"

fun join_with :: "string \<Rightarrow> string list \<Rightarrow> string" where
  "join_with sep [] = []"
| "join_with sep [x] = x"
| "join_with sep (x # y # ys) = x @ sep @ join_with sep (y # ys)"

lemma split_byte_not_Nil [simp]: "split_byte s c \<noteq> []"
  by (induction s) (auto split: list.splits)

lemma join_split: "join_with [c] (split_byte s c) = s"
proof (induction s)
  case (Cons x xs)
  then show ?case
    by (cases "split_byte xs c"; cases "tl (split_byte xs c)") auto
qed simp

lemma split_byte_no_sep: "w \<in> set (split_byte s c) \<Longrightarrow> c \<notin> set w"
  by (induction s arbitrary: w) (auto split: if_splits list.splits)

lemma join_with_append:
  "xs \<noteq> [] \<Longrightarrow> ys \<noteq> [] \<Longrightarrow> join_with sep (xs @ ys) = join_with sep xs @ sep @ join_with sep ys"
proof (induction xs)
  case (Cons x xs)
  then show ?case by (cases xs; cases ys) auto
qed simp

text \<open>A string has an empty label only at an end or at two separators in a row.\<close>

lemma split_byte_empty_label:
  assumes "[] \<in> set (split_byte s c)" "s \<noteq> []" "hd s \<noteq> c" "last s \<noteq> c"
  shows "contains_sub s [c, c]"
proof -
  obtain xs ys where w: "split_byte s c = xs @ [] # ys" using assms(1) by (meson split_list)
  then have s: "s = join_with [c] (xs @ [] # ys)" by (metis join_split)
  have xs: "xs \<noteq> []"
  proof
    assume "xs = []"
    then show False using s assms by (cases ys) auto
  qed
  then have s1: "s = join_with [c] xs @ [c] @ join_with [c] ([] # ys)"
    using s by (simp add: join_with_append)
  have "ys \<noteq> []" using s1 assms(4) by (cases ys) auto
  then have "join_with [c] ([] # ys) = [c] @ join_with [c] ys" by (cases ys) auto
  then have "s = join_with [c] xs @ [c, c] @ join_with [c] ys" using s1 by simp
  then show ?thesis unfolding contains_sub_iff by blast
qed

section \<open>Case\<close>

text \<open>\<open>strings.ToLower\<close>, \<open>ToUpper\<close>: ASCII letters are mapped here; \<open>U\<close> is the Unicode table for the
  code points from 128 on.  A byte that is not valid UTF-8 is written back as U+FFFD.\<close>

definition lower_rune :: "(nat \<Rightarrow> nat) \<Rightarrow> nat \<Rightarrow> nat" where
  "lower_rune U r = (if r < 128 then (if 65 \<le> r \<and> r \<le> 90 then r + 32 else r) else U r)"

definition upper_rune :: "(nat \<Rightarrow> nat) \<Rightarrow> nat \<Rightarrow> nat" where
  "upper_rune U r = (if r < 128 then (if 97 \<le> r \<and> r \<le> 122 then r - 32 else r) else U r)"

definition map_runes :: "(nat \<Rightarrow> nat) \<Rightarrow> string \<Rightarrow> string" where
  "map_runes f s = concat (map (\<lambda>(r, _). encode_rune (f r)) (runes s))"

definition to_lower :: "(nat \<Rightarrow> nat) \<Rightarrow> string \<Rightarrow> string" where
  "to_lower U s = map_runes (lower_rune U) s"

definition to_upper :: "(nat \<Rightarrow> nat) \<Rightarrow> string \<Rightarrow> string" where
  "to_upper U s = map_runes (upper_rune U) s"

definition lower_char :: "char \<Rightarrow> char" where
  "lower_char c = (if is_upper c then char_of (byte c + (32::nat)) else c)"

definition upper_char :: "char \<Rightarrow> char" where
  "upper_char c = (if is_lower c then char_of (byte c - (32::nat)) else c)"

lemma encode_rune_ascii: "r < 128 \<Longrightarrow> encode_rune r = [char_of r]"
  by (simp add: encode_rune_def)

lemma to_lower_ascii: "is_ascii s \<Longrightarrow> to_lower U s = map lower_char s"
  unfolding to_lower_def map_runes_def
  by (induction s) (auto simp: is_ascii_def runes_ascii_Cons lower_rune_def lower_char_def is_upper_def
      encode_rune_ascii)

lemma to_upper_ascii: "is_ascii s \<Longrightarrow> to_upper U s = map upper_char s"
  unfolding to_upper_def map_runes_def
  by (induction s) (auto simp: is_ascii_def runes_ascii_Cons upper_rune_def upper_char_def is_lower_def
      encode_rune_ascii)

lemma lower_char_id: "\<not> is_upper c \<Longrightarrow> lower_char c = c"
  by (simp add: lower_char_def)

lemma to_lower_id: "is_ascii s \<Longrightarrow> list_all (\<lambda>c. \<not> is_upper c) s \<Longrightarrow> to_lower U s = s"
  by (simp add: to_lower_ascii list_all_iff lower_char_id map_idI)

lemma to_lower_Nil [simp]: "to_lower U [] = []"
  by (simp add: to_lower_def map_runes_def)

lemma to_upper_Nil [simp]: "to_upper U [] = []"
  by (simp add: to_upper_def map_runes_def)

text \<open>\<open>strings.EqualFold\<close> with a pattern of ASCII characters other than k, K, s and S: no code point
  outside ASCII folds to one of those, so the comparison is bytewise.\<close>

definition equal_fold_ascii :: "string \<Rightarrow> string \<Rightarrow> bool" where
  "equal_fold_ascii s p = (map lower_char s = map lower_char p)"

section \<open>Fields\<close>

text \<open>\<open>strings.Fields\<close>: the maximal runs of non-space code points.\<close>

fun field_runs :: "(nat \<times> string) list \<Rightarrow> string \<Rightarrow> string list" where
  "field_runs [] w = (if w = [] then [] else [w])"
| "field_runs (c # cs) w =
     (if space_chunk c then (if w = [] then field_runs cs [] else w # field_runs cs [])
      else field_runs cs (w @ snd c))"

definition fields :: "string \<Rightarrow> string list" where
  "fields s = field_runs (runes s) []"

section \<open>Numbers\<close>

text \<open>\<open>strconv.Atoi\<close> on a 64-bit machine: an optional sign, then decimal digits; out of the range of
  \<open>int64\<close> is an error.\<close>

fun digits_value :: "nat \<Rightarrow> string \<Rightarrow> nat option" where
  "digits_value a [] = Some a"
| "digits_value a (c # cs) =
     (if is_digit c then digits_value (a * 10 + (byte c - 48)) cs else None)"

definition atoi :: "string \<Rightarrow> int option" where
  "atoi s =
     (let neg = has_prefix s ''-'';
          body = (if neg \<or> has_prefix s ''+'' then tl s else s) in
      if body = [] then None
      else case digits_value 0 body of
        None \<Rightarrow> None
      | Some n \<Rightarrow>
          let v = (if neg then - int n else int n) in
          if - (2 ^ 63) \<le> v \<and> v < 2 ^ 63 then Some v else None)"

lemma atoi_range: "atoi s = Some v \<Longrightarrow> - (2 ^ 63) \<le> v \<and> v < 2 ^ 63"
  by (auto simp: atoi_def Let_def split: if_splits option.splits)

fun itoa_nat :: "nat \<Rightarrow> string" where
  "itoa_nat n = (if n < 10 then [char_of (48 + n)] else itoa_nat (n div 10) @ [char_of (48 + n mod 10)])"

declare itoa_nat.simps [simp del]

definition itoa :: "int \<Rightarrow> string" where
  "itoa i = (if i < 0 then CHR ''-'' # itoa_nat (nat (- i)) else itoa_nat (nat i))"

lemma itoa_nat_digits: "list_all is_digit (itoa_nat n)"
proof (induction n rule: itoa_nat.induct)
  case (1 n)
  have "is_digit (char_of (48 + n mod 10))" by (auto simp: is_digit_def)
  moreover have "n < 10 \<Longrightarrow> is_digit (char_of (48 + n))" by (auto simp: is_digit_def)
  ultimately show ?case using 1 by (subst itoa_nat.simps) auto
qed

lemma digits_value_append:
  "digits_value a (xs @ ys) = (case digits_value a xs of None \<Rightarrow> None | Some b \<Rightarrow> digits_value b ys)"
  by (induction a xs rule: digits_value.induct) auto

lemma digits_value_itoa_nat: "digits_value 0 (itoa_nat n) = Some n"
proof (induction n rule: itoa_nat.induct)
  case (1 n)
  show ?case
  proof (cases "n < 10")
    case True
    then show ?thesis by (subst itoa_nat.simps) (simp add: is_digit_def)
  next
    case False
    then show ?thesis
      by (subst itoa_nat.simps) (simp add: digits_value_append 1 [OF False] is_digit_def)
  qed
qed

lemma itoa_nat_not_Nil [simp]: "itoa_nat n \<noteq> []"
  by (subst itoa_nat.simps) simp

section \<open>Valid UTF-8\<close>

text \<open>\<open>strings.ToValidUTF8(s, "")\<close> drops the bytes that are not part of a valid sequence.  The
  chunk of an invalid byte is the one that decodes to U+FFFD with width 1.\<close>

definition invalid_chunk :: "nat \<times> string \<Rightarrow> bool" where
  "invalid_chunk c = (fst c = rune_error \<and> length (snd c) = 1)"

definition to_valid_utf8 :: "string \<Rightarrow> string" where
  "to_valid_utf8 s = unrunes (filter (\<lambda>c. \<not> invalid_chunk c) (runes s))"

definition valid_utf8 :: "string \<Rightarrow> bool" where
  "valid_utf8 s = list_all (\<lambda>c. \<not> invalid_chunk c) (runes s)"

text \<open>A valid sequence decodes the same whatever follows it, so dropping the invalid bytes leaves a
  valid string, and validity splits over concatenation.\<close>

lemma decode_rune_take:
  assumes "\<not> (fst (decode_rune x) = rune_error \<and> snd (decode_rune x) = 1)" "x \<noteq> []"
  shows "decode_rune (take (snd (decode_rune x)) x @ t) = decode_rune x"
proof -
  obtain b bs where x: "x = b # bs" using assms(2) by (cases x) auto
  consider "bs = []" | c1 where "bs = [c1]" | c1 c2 where "bs = [c1, c2]"
    | c1 c2 c3 r where "bs = c1 # c2 # c3 # r"
    by (metis neq_Nil_conv)
  then show ?thesis
  proof cases
    case 1
    then show ?thesis using assms(1) unfolding x by (simp add: decode_rune.simps(2) Let_def split: if_splits)
  next
    case 2
    then show ?thesis using assms(1) unfolding x by (simp add: decode_rune.simps(2) Let_def split: if_splits)
  next
    case 3
    then show ?thesis using assms(1) unfolding x by (simp add: decode_rune.simps(2) Let_def split: if_splits)
  next
    case 4
    then show ?thesis using assms(1) unfolding x by (simp add: decode_rune.simps(2) Let_def split: if_splits)
  qed
qed

lemma runes_valid_chunks:
  assumes "\<forall>c \<in> set cs. \<not> invalid_chunk c \<and> (\<exists>x. x \<noteq> [] \<and> c = (fst (decode_rune x), take (snd (decode_rune x)) x))"
  shows "runes (unrunes cs @ t) = cs @ runes t"
  using assms
proof (induction cs)
  case (Cons c cs)
  then obtain x where x: "x \<noteq> []" "c = (fst (decode_rune x), take (snd (decode_rune x)) x)" and nv: "\<not> invalid_chunk c"
    by auto
  have w: "length (snd c) = snd (decode_rune x)"
    using x decode_rune_width_le [of x] by simp
  have ne: "snd c \<noteq> []" using x w by (metis decode_rune_width_pos length_0_conv less_irrefl neq_Nil_conv)
  have d: "decode_rune (snd c @ u) = (fst c, length (snd c))" for u
    using decode_rune_take [of x u] x nv w by (simp add: invalid_chunk_def prod_eq_iff)
  obtain b bs where c: "snd c = b # bs" using ne by (cases "snd c") auto
  have IH: "runes (unrunes cs @ t) = cs @ runes t" using Cons by simp
  have "runes (snd c @ (unrunes cs @ t)) =
     (fst c, take (length (snd c)) (snd c @ (unrunes cs @ t))) # runes (drop (length (snd c)) (snd c @ (unrunes cs @ t)))"
    using d [of "unrunes cs @ t"] by (simp add: c runes.simps(2) Let_def)
  also have "\<dots> = c # (cs @ runes t)" using IH by simp
  finally show ?case by simp
qed simp

lemma runes_chunk_decoded: "c \<in> set (runes s) \<Longrightarrow> \<exists>x. x \<noteq> [] \<and> c = (fst (decode_rune x), take (snd (decode_rune x)) x)"
proof (induction s rule: runes.induct)
  case (2 b bs)
  then show ?case by (simp add: runes.simps(2) Let_def) blast
qed simp

lemma runes_to_valid: "runes (to_valid_utf8 s) = filter (\<lambda>c. \<not> invalid_chunk c) (runes s)"
proof -
  have "runes (unrunes (filter (\<lambda>c. \<not> invalid_chunk c) (runes s)) @ []) =
      filter (\<lambda>c. \<not> invalid_chunk c) (runes s) @ runes []"
    by (rule runes_valid_chunks) (use runes_chunk_decoded in auto)
  then show ?thesis by (simp add: to_valid_utf8_def)
qed

lemma valid_to_valid [simp]: "valid_utf8 (to_valid_utf8 s)"
  by (simp add: valid_utf8_def runes_to_valid list_all_iff)

lemma valid_append: "valid_utf8 a \<Longrightarrow> runes (a @ b) = runes a @ runes b"
  using runes_valid_chunks [of "runes a" b] runes_chunk_decoded [of _ a] by (simp add: valid_utf8_def list_all_iff)

lemma valid_append_iff: "valid_utf8 a \<Longrightarrow> valid_utf8 (a @ b) \<longleftrightarrow> valid_utf8 b"
  by (simp add: valid_append valid_utf8_def [of "a @ b"]) (simp add: valid_utf8_def)

lemma valid_Nil [simp]: "valid_utf8 []"
  by (simp add: valid_utf8_def)

lemma valid_ascii_Cons: "byte c < (128::nat) \<Longrightarrow> valid_utf8 (c # b) \<longleftrightarrow> valid_utf8 b"
  by (simp add: valid_utf8_def runes_ascii_Cons invalid_chunk_def rune_error_def)

section \<open>Hexadecimal\<close>

definition hex_digit :: "nat \<Rightarrow> char" where
  "hex_digit n = (if n < 10 then char_of (48 + n) else char_of (87 + n))"

definition hex_encode :: "string \<Rightarrow> string" where
  "hex_encode s = concat (map (\<lambda>c. [hex_digit (byte c div 16), hex_digit (byte c mod 16)]) s)"

lemma length_hex_encode [simp]: "length (hex_encode s) = 2 * length s"
  by (induction s) (auto simp: hex_encode_def)

lemma hex_digit_hex: "n < 16 \<Longrightarrow> is_lower_hex (hex_digit n)"
  by (auto simp: hex_digit_def is_lower_hex_def is_digit_def)

lemma byte_lt: "byte c < (256::nat)"
  by (rule nat_of_char_less_256)

lemma hex_encode_hex: "list_all is_lower_hex (hex_encode s)"
proof (induction s)
  case (Cons c s)
  have "byte c div 16 < (16::nat)" using byte_lt [of c] by (intro less_mult_imp_div_less) simp
  then show ?case using Cons by (simp add: hex_encode_def hex_digit_hex)
qed (simp add: hex_encode_def)

end
