(* ===== verification/Mime.thy ===== *)
theory Mime
  imports GoText
begin

text \<open>
  Message parsing of the ingress (\<open>src/api/ingress/mime.go\<close>): sender and subject, the text and HTML
  bodies collected from the MIME tree, and the clamps that bound them.  Go's \<open>net/mail\<close>, \<open>mime\<close>,
  \<open>mime/multipart\<close>, \<open>encoding/base64\<close> and \<open>mime/quotedprintable\<close> parsers are the fields of the record
  \<open>mime_lib\<close>, a parameter; what the program does with their results is defined here.
\<close>

record parsedMessage =
  pm_sender :: string
  pm_subject :: string
  pm_body_text :: string
  pm_body_html :: string
  pm_has_attachments :: bool

record message_part =
  part_header :: "string \<Rightarrow> string"
  part_content :: string

text \<open>\<open>read_message\<close>: header lookup and body, or an error.  \<open>media_type\<close>: no error, the type and its
  parameters.  \<open>parts\<close>: the parts of a body with a boundary, up to the first error.  \<open>base64_dec\<close>
  and \<open>quoted_dec\<close>: the bytes decoded up to the end or the first error, and whether there was one.\<close>

record mime_lib =
  read_message :: "string \<Rightarrow> ((string \<Rightarrow> string) \<times> string) option"
  decode_header :: "string \<Rightarrow> string option"
  parse_addresses :: "string \<Rightarrow> string list option"
  media_type :: "string \<Rightarrow> bool \<times> string \<times> (string \<Rightarrow> string)"
  parts :: "string \<Rightarrow> string \<Rightarrow> message_part list"
  base64_dec :: "string \<Rightarrow> string \<times> bool"
  quoted_dec :: "string \<Rightarrow> string \<times> bool"
  lower_table :: "nat \<Rightarrow> nat"

section \<open>Clamps\<close>

definition clampStringBytes :: "string \<Rightarrow> int \<Rightarrow> string" where
  "clampStringBytes value max_bytes =
     to_valid_utf8 (if max_bytes > 0 \<and> int (length value) > max_bytes then take (nat max_bytes) value else value)"

definition clampBytesToString :: "string \<Rightarrow> int \<Rightarrow> string" where
  "clampBytesToString value max_bytes =
     to_valid_utf8 (if max_bytes > 0 \<and> int (length value) > max_bytes then take (nat max_bytes) value else value)"

definition clampRunes :: "string \<Rightarrow> int \<Rightarrow> string" where
  "clampRunes value0 max_runes =
     (let value = trim_space value0 in
      if max_runes \<le> 0 then value
      else unrunes (take (nat max_runes) (runes value)))"

text \<open>\<open>io.Copy\<close> from a limited reader over bytes that end in an error or in EOF.\<close>

definition readLimited :: "string \<times> bool \<Rightarrow> int \<Rightarrow> string \<times> bool" where
  "readLimited r limit =
     (if limit \<le> 0 then ([], False)
      else if int (length (fst r)) \<ge> limit then (take (nat limit) (fst r), False)
      else r)"

definition appendBody :: "string \<Rightarrow> string \<Rightarrow> int \<Rightarrow> string" where
  "appendBody target value0 max_bytes =
     (let value = trim_space value0 in
      if value = [] \<or> int (length target) \<ge> max_bytes then target
      else if target = [] then clampStringBytes value max_bytes
      else
        (let target' = target @ [CHR 0x0A];
             remaining = max_bytes - int (length target') in
         if remaining \<le> 0 then target'
         else target' @ clampStringBytes value remaining))"

definition decodeTransfer :: "mime_lib \<Rightarrow> string \<Rightarrow> string \<Rightarrow> int \<Rightarrow> string" where
  "decodeTransfer L body encoding max_bytes =
     (let enc = to_lower (lower_table L) (trim_space encoding) in
      if enc = ''base64'' \<or> enc = ''quoted-printable'' then
        (let (decoded, err) =
               readLimited (if enc = ''base64'' then base64_dec L body else quoted_dec L body) (max_bytes + 1) in
         clampBytesToString (if err then body else decoded) max_bytes)
      else clampBytesToString body max_bytes)"

section \<open>The MIME tree\<close>

definition media_of :: "mime_lib \<Rightarrow> string \<Rightarrow> string" where
  "media_of L content_type =
     (let (ok, mt, _) = media_type L content_type in
      to_lower (lower_table L) (if \<not> ok \<or> mt = [] then ''text/plain'' else mt))"

definition is_attachment :: "mime_lib \<Rightarrow> message_part \<Rightarrow> bool" where
  "is_attachment L p =
     (let disposition = to_lower (lower_table L) (trim_space (part_header p ''Content-Disposition''));
          (_, _, params) = media_type L (part_header p ''Content-Type'') in
      has_prefix disposition ''attachment'' \<or> trim_space (params ''name'') \<noteq> []
      \<or> contains_sub disposition ''filename='')"

definition append_leaf :: "string \<Rightarrow> string \<Rightarrow> int \<Rightarrow> parsedMessage \<Rightarrow> parsedMessage" where
  "append_leaf mt decoded max_bytes r =
     (if mt = ''text/plain'' then r\<lparr>pm_body_text := appendBody (pm_body_text r) decoded max_bytes\<rparr>
      else if mt = ''text/html'' then r\<lparr>pm_body_html := appendBody (pm_body_html r) decoded max_bytes\<rparr>
      else if pm_body_text r = [] \<and> \<not> has_prefix mt ''application/'' \<and> \<not> has_prefix mt ''image/''
        then r\<lparr>pm_body_text := appendBody (pm_body_text r) decoded max_bytes\<rparr>
      else r)"

definition bodies_full :: "int \<Rightarrow> parsedMessage \<Rightarrow> bool" where
  "bodies_full max_bytes r =
     (int (length (pm_body_text r)) \<ge> max_bytes \<and> int (length (pm_body_html r)) \<ge> max_bytes)"

text \<open>\<open>collectBodyParts\<close> recurses into parts; \<open>fuel\<close> bounds the depth of the recursion, and \<open>None\<close> is
  a depth that was not enough.\<close>

fun collectBodyParts :: "nat \<Rightarrow> mime_lib \<Rightarrow> string \<Rightarrow> string \<Rightarrow> string \<Rightarrow> int \<Rightarrow> parsedMessage \<Rightarrow> parsedMessage option"
and collectParts :: "nat \<Rightarrow> mime_lib \<Rightarrow> message_part list \<Rightarrow> int \<Rightarrow> parsedMessage \<Rightarrow> parsedMessage option" where
  "collectBodyParts 0 L content_type encoding body max_bytes r = None"
| "collectBodyParts (Suc fuel) L content_type encoding body max_bytes r =
     (let mt = media_of L content_type in
      if has_prefix mt ''multipart/'' then
        (let (_, _, params) = media_type L content_type;
             boundary = params ''boundary'' in
         if boundary = [] then Some r
         else collectParts fuel L (parts L boundary body) max_bytes r)
      else Some (append_leaf mt (decodeTransfer L body encoding max_bytes) max_bytes r))"
| "collectParts fuel L [] max_bytes r = Some r"
| "collectParts fuel L (p # ps) max_bytes r =
     (let r1 = (if is_attachment L p then r\<lparr>pm_has_attachments := True\<rparr> else r);
          body = fst (readLimited (part_content p, False) (max_bytes + 1)) in
      case collectBodyParts fuel L (part_header p ''Content-Type'')
             (part_header p ''Content-Transfer-Encoding'') body max_bytes r1 of
        None \<Rightarrow> None
      | Some r2 \<Rightarrow> if bodies_full max_bytes r2 then Some r2 else collectParts fuel L ps max_bytes r2)"

definition header_subject :: "mime_lib \<Rightarrow> string \<Rightarrow> string" where
  "header_subject L raw =
     (let subject = trim_space raw in
      if subject = [] then []
      else case decode_header L subject of
        Some d \<Rightarrow> clampRunes (trim_space d) 998
      | None \<Rightarrow> clampRunes subject 998)"

definition header_sender :: "mime_lib \<Rightarrow> string \<Rightarrow> string \<Rightarrow> string" where
  "header_sender L raw current =
     (let from0 = trim_space raw in
      if from0 = [] then current
      else
        (let from = (case decode_header L from0 of Some d \<Rightarrow> d | None \<Rightarrow> from0) in
         case parse_addresses L from of
           Some (a # _) \<Rightarrow> clampRunes (trim_space a) 320
         | _ \<Rightarrow> clampRunes from 320))"

definition body_limit :: "int \<Rightarrow> int" where
  "body_limit max_body = (if max_body \<le> 0 then 262144 else max_body)"

definition message_headers :: "mime_lib \<Rightarrow> (string \<Rightarrow> string) \<Rightarrow> string \<Rightarrow> parsedMessage" where
  "message_headers L header envelope_sender =
     (let sender = header_sender L (header ''From'') (clampRunes envelope_sender 320) in
      \<lparr>pm_sender = (if sender = [] then clampRunes envelope_sender 320 else sender),
       pm_subject = header_subject L (header ''Subject''),
       pm_body_text = [], pm_body_html = [], pm_has_attachments = False\<rparr>)"

definition parseMessage :: "nat \<Rightarrow> mime_lib \<Rightarrow> string \<Rightarrow> string \<Rightarrow> int \<Rightarrow> parsedMessage option" where
  "parseMessage fuel L raw envelope_sender max_body0 =
     (let max_body = body_limit max_body0 in
      case read_message L raw of
        None \<Rightarrow>
          Some \<lparr>pm_sender = clampRunes envelope_sender 320, pm_subject = [],
                pm_body_text = clampBytesToString raw max_body, pm_body_html = [], pm_has_attachments = False\<rparr>
      | Some (header, msg_body) \<Rightarrow>
          (let body = fst (readLimited (msg_body, False) (max_body + 1)) in
           collectBodyParts fuel L (header ''Content-Type'') (header ''Content-Transfer-Encoding'')
             body max_body (message_headers L header envelope_sender)))"

section \<open>Bounds\<close>

lemma length_unrunes_filter: "length (unrunes (filter P cs)) \<le> length (unrunes cs)"
  by (induction cs) auto

lemma length_to_valid: "length (to_valid_utf8 s) \<le> length s"
  using length_unrunes_filter [of _ "runes s"] by (simp add: to_valid_utf8_def)

lemma length_clampStringBytes: "0 < m \<Longrightarrow> int (length (clampStringBytes v m)) \<le> m"
  unfolding clampStringBytes_def by (rule order_trans [OF of_nat_mono [OF length_to_valid]]) auto

lemma length_clampBytesToString: "0 < m \<Longrightarrow> int (length (clampBytesToString v m)) \<le> m"
  unfolding clampBytesToString_def by (rule order_trans [OF of_nat_mono [OF length_to_valid]]) auto

lemma appendBody_bound:
  assumes "0 < m" "int (length t) \<le> m"
  shows "int (length (appendBody t v m)) \<le> m"
proof -
  have "int (length (clampStringBytes (trim_space v) (m - (int (length t) + 1)))) \<le> m - (int (length t) + 1)"
    if "m - (int (length t) + 1) > 0"
    using that by (rule length_clampStringBytes)
  then show ?thesis
    using assms length_clampStringBytes [of m "trim_space v"]
    by (auto simp: appendBody_def Let_def algebra_simps)
qed

lemma clampRunes_count: "0 < n \<Longrightarrow> length (runes (clampRunes v n)) \<le> nat n"
proof -
  assume n: "0 < n"
  let ?cs = "runes (trim_space v)"
  have "runes (unrunes (take (nat n) ?cs)) = take (nat n) ?cs"
    by (rule runes_prefix [where ds = "drop (nat n) ?cs" and s = "trim_space v"]) simp
  then show ?thesis using n by (simp add: clampRunes_def Let_def del: runes_trim_space)
qed

definition bodies_within :: "int \<Rightarrow> parsedMessage \<Rightarrow> bool" where
  "bodies_within m r = (int (length (pm_body_text r)) \<le> m \<and> int (length (pm_body_html r)) \<le> m)"

lemma append_leaf_within: "0 < m \<Longrightarrow> bodies_within m r \<Longrightarrow> bodies_within m (append_leaf mt d m r)"
  by (auto simp: append_leaf_def bodies_within_def appendBody_bound)

lemma append_leaf_headers:
  "pm_sender (append_leaf mt d m r) = pm_sender r \<and> pm_subject (append_leaf mt d m r) = pm_subject r"
  by (simp add: append_leaf_def)

lemma collect_within:
  "collectBodyParts fuel L ct enc body m r = Some r' \<Longrightarrow> 0 < m \<Longrightarrow> bodies_within m r \<Longrightarrow>
     bodies_within m r' \<and> pm_sender r' = pm_sender r \<and> pm_subject r' = pm_subject r"
  "collectParts fuel L ps m r = Some r' \<Longrightarrow> 0 < m \<Longrightarrow> bodies_within m r \<Longrightarrow>
     bodies_within m r' \<and> pm_sender r' = pm_sender r \<and> pm_subject r' = pm_subject r"
proof (induction fuel L ct enc body m r and fuel L ps m r arbitrary: r' and r' rule: collectBodyParts_collectParts.induct)
  case (2 fuel L ct enc body m r)
  show ?case
  proof (cases "has_prefix (media_of L ct) ''multipart/''")
    case False
    then have "r' = append_leaf (media_of L ct) (decodeTransfer L body enc m) m r"
      using "2.prems"(1) by (simp add: Let_def)
    then show ?thesis using append_leaf_within append_leaf_headers "2.prems" by simp
  next
    case True
    obtain ok mt ps where m: "media_type L ct = (ok, mt, ps)" by (cases "media_type L ct") auto
    show ?thesis
    proof (cases "ps ''boundary'' = []")
      case True': True
      then show ?thesis using "2.prems" True m by (simp add: Let_def)
    next
      case False
      then have c: "collectParts fuel L (parts L (ps ''boundary'') body) m r = Some r'"
        using "2.prems"(1) True m by (simp add: Let_def)
      show ?thesis
        using "2.IH" [OF refl [of "media_of L ct"] True refl [of "media_type L ct"] m [symmetric] refl [of "(mt, ps)"] refl [of "ps ''boundary''"] False c] "2.prems"(2,3) by simp
    qed
  qed
next
  case (4 fuel L p ps m r)
  define r1 where "r1 = (if is_attachment L p then r\<lparr>pm_has_attachments := True\<rparr> else r)"
  define body where "body = fst (readLimited (part_content p, False) (m + 1))"
  have r1: "bodies_within m r1" "pm_sender r1 = pm_sender r" "pm_subject r1 = pm_subject r"
    using "4.prems" by (simp_all add: r1_def bodies_within_def)
  obtain r2 where r2: "collectBodyParts fuel L (part_header p ''Content-Type'')
      (part_header p ''Content-Transfer-Encoding'') body m r1 = Some r2"
    using "4.prems"(1) by (auto simp: Let_def r1_def body_def split: option.splits)
  have h2: "bodies_within m r2 \<and> pm_sender r2 = pm_sender r1 \<and> pm_subject r2 = pm_subject r1"
    by (rule "4.IH"(1) [OF r1_def body_def r2 "4.prems"(2) r1(1)])
  have step: "collectParts fuel L (p # ps) m r =
      (if bodies_full m r2 then Some r2 else collectParts fuel L ps m r2)"
    using r2 by (simp add: Let_def r1_def body_def)
  show ?case
  proof (cases "bodies_full m r2")
    case True
    then show ?thesis using step "4.prems"(1) h2 r1 by simp
  next
    case False
    then have "collectParts fuel L ps m r2 = Some r'" using step "4.prems"(1) by simp
    then have "bodies_within m r' \<and> pm_sender r' = pm_sender r2 \<and> pm_subject r' = pm_subject r2"
      using "4.IH"(2) [OF r1_def body_def r2 False] "4.prems"(2) h2 by simp
    then show ?thesis using h2 r1 by simp
  qed
qed simp_all

text \<open>Bodies are valid UTF-8, whatever the message holds.\<close>

lemma valid_clamp [simp]: "valid_utf8 (clampStringBytes v m)" "valid_utf8 (clampBytesToString v m)"
  by (simp_all add: clampStringBytes_def clampBytesToString_def)

lemma valid_appendBody: "valid_utf8 t \<Longrightarrow> valid_utf8 (appendBody t v m)"
  by (simp add: appendBody_def Let_def valid_append_iff valid_ascii_Cons)

definition bodies_valid :: "parsedMessage \<Rightarrow> bool" where
  "bodies_valid r = (valid_utf8 (pm_body_text r) \<and> valid_utf8 (pm_body_html r))"

lemma append_leaf_valid: "bodies_valid r \<Longrightarrow> bodies_valid (append_leaf mt d m r)"
  by (auto simp: append_leaf_def bodies_valid_def valid_appendBody)

section \<open>Termination\<close>

text \<open>What the recursion relies on: a part is shorter than the body it was cut from (the boundary
  lines are not part of it), and a message's body is not longer than the message.\<close>

definition mime_lib_ok :: "mime_lib \<Rightarrow> bool" where
  "mime_lib_ok L =
     ((\<forall>b body. \<forall>p \<in> set (parts L b body). length (part_content p) < length body)
      \<and> (\<forall>raw h body. read_message L raw = Some (h, body) \<longrightarrow> length body \<le> length raw))"

lemma length_readLimited: "length (fst (readLimited (s, e) n)) \<le> length s"
  by (auto simp: readLimited_def)

lemma collect_enough:
  "mime_lib_ok L \<Longrightarrow> length body < fuel \<Longrightarrow> collectBodyParts fuel L ct enc body m r \<noteq> None"
  "mime_lib_ok L \<Longrightarrow> (\<forall>p \<in> set ps. length (part_content p) < fuel) \<Longrightarrow> collectParts fuel L ps m r \<noteq> None"
proof (induction fuel L ct enc body m r and fuel L ps m r rule: collectBodyParts_collectParts.induct)
  case (2 fuel L ct enc body m r)
  show ?case
  proof (cases "has_prefix (media_of L ct) ''multipart/''")
    case False
    then show ?thesis by (simp add: Let_def)
  next
    case True
    obtain ok mt ps where m: "media_type L ct = (ok, mt, ps)" by (cases "media_type L ct") auto
    show ?thesis
    proof (cases "ps ''boundary'' = []")
      case True': True
      then show ?thesis using True m by (simp add: Let_def)
    next
      case False
      have "\<forall>p \<in> set (parts L (ps ''boundary'') body). length (part_content p) < fuel"
        using "2.prems" by (meson mime_lib_ok_def less_Suc_eq_le less_le_trans)
      then have "collectParts fuel L (parts L (ps ''boundary'') body) m r \<noteq> None"
        using "2.IH" [OF refl [of "media_of L ct"] True refl [of "media_type L ct"] m [symmetric]
            refl [of "(mt, ps)"] refl [of "ps ''boundary''"] False "2.prems"(1)] by blast
      then show ?thesis using True m by (simp add: Let_def)
    qed
  qed
next
  case (4 fuel L p ps m r)
  define r1 where "r1 = (if is_attachment L p then r\<lparr>pm_has_attachments := True\<rparr> else r)"
  define body where "body = fst (readLimited (part_content p, False) (m + 1))"
  have "length body < fuel"
    using "4.prems"(2) length_readLimited [of "part_content p" False "m + 1"] by (simp add: body_def)
  then obtain r2 where r2: "collectBodyParts fuel L (part_header p ''Content-Type'')
      (part_header p ''Content-Transfer-Encoding'') body m r1 = Some r2"
    using "4.IH"(1) [OF r1_def body_def "4.prems"(1)] by blast
  then show ?case
    using "4.IH"(2) [OF r1_def body_def r2 _ "4.prems"(1)] "4.prems"(2)
    by (simp add: Let_def r1_def body_def)
qed simp_all

lemma collect_valid:
  "collectBodyParts fuel L ct enc body m r = Some r' \<Longrightarrow> bodies_valid r \<Longrightarrow> bodies_valid r'"
  "collectParts fuel L ps m r = Some r' \<Longrightarrow> bodies_valid r \<Longrightarrow> bodies_valid r'"
proof (induction fuel L ct enc body m r and fuel L ps m r arbitrary: r' and r' rule: collectBodyParts_collectParts.induct)
  case (2 fuel L ct enc body m r)
  show ?case
  proof (cases "has_prefix (media_of L ct) ''multipart/''")
    case False
    then show ?thesis using "2.prems" by (auto simp: Let_def append_leaf_valid)
  next
    case True
    obtain ok mt ps where m: "media_type L ct = (ok, mt, ps)" by (cases "media_type L ct") auto
    show ?thesis
    proof (cases "ps ''boundary'' = []")
      case True': True
      then show ?thesis using True m "2.prems" by (simp add: Let_def)
    next
      case False
      then have c: "collectParts fuel L (parts L (ps ''boundary'') body) m r = Some r'"
        using "2.prems"(1) True m by (simp add: Let_def)
      show ?thesis
        using "2.IH" [OF refl [of "media_of L ct"] True refl [of "media_type L ct"] m [symmetric]
            refl [of "(mt, ps)"] refl [of "ps ''boundary''"] False c "2.prems"(2)] .
    qed
  qed
next
  case (4 fuel L p ps m r)
  define r1 where "r1 = (if is_attachment L p then r\<lparr>pm_has_attachments := True\<rparr> else r)"
  define body where "body = fst (readLimited (part_content p, False) (m + 1))"
  obtain r2 where r2: "collectBodyParts fuel L (part_header p ''Content-Type'')
      (part_header p ''Content-Transfer-Encoding'') body m r1 = Some r2"
    using "4.prems"(1) by (auto simp: Let_def r1_def body_def split: option.splits)
  have h2: "bodies_valid r2"
    using "4.IH"(1) [OF r1_def body_def r2] "4.prems"(2) by (simp add: r1_def bodies_valid_def)
  have "collectParts fuel L (p # ps) m r = (if bodies_full m r2 then Some r2 else collectParts fuel L ps m r2)"
    using r2 by (simp add: Let_def r1_def body_def)
  then show ?case
    using "4.prems"(1) "4.IH"(2) [OF r1_def body_def r2 _ _ h2] h2 by (cases "bodies_full m r2") auto
qed simp_all

lemma parse_enough:
  assumes "mime_lib_ok L" "length raw < fuel"
  shows "\<exists>r. parseMessage fuel L raw env m = Some r"
proof (cases "read_message L raw")
  case None
  then show ?thesis by (simp add: parseMessage_def Let_def)
next
  case (Some hb)
  obtain h b where hb: "hb = (h, b)" by (cases hb)
  have "length b \<le> length raw" using assms(1) Some hb by (simp add: mime_lib_ok_def)
  then have "length (fst (readLimited (b, False) n)) < fuel" for n
    using assms(2) length_readLimited [of b False n] by simp
  then show ?thesis
    using collect_enough(1) [OF assms(1)] Some hb by (simp add: parseMessage_def Let_def)
qed

section \<open>Properties\<close>

lemma clampRunes_Nil [simp]: "clampRunes [] n = []"
  by (simp add: clampRunes_def Let_def unrunes_def)

lemma header_subject_count: "length (runes (header_subject L raw)) \<le> 998"
  using clampRunes_count [of 998] by (auto simp: header_subject_def Let_def split: option.split)

lemma header_sender_count:
  "length (runes current) \<le> 320 \<Longrightarrow> length (runes (header_sender L raw current)) \<le> 320"
  using clampRunes_count [of 320] by (auto simp: header_sender_def Let_def split: option.split list.split)

text \<open>A header line that is not valid UTF-8 (8-bit bytes in a raw header) passes into the subject
  unchanged, unlike the bodies.\<close>

lemma header_subject_invalid:
  "decode_header L [CHR 0xE9] = Some [CHR 0xE9] \<Longrightarrow> \<not> valid_utf8 (header_subject L [CHR 0xE9])"
proof -
  have r: "runes [CHR 0xE9] = [(rune_error, [CHR 0xE9])]"
    by (simp add: runes.simps(2) decode_rune.simps(2) Let_def)
  then have t: "trim_space [CHR 0xE9] = [CHR 0xE9]"
    by (simp add: trim_space_def trim_chunks_def space_chunk_def is_space_def rune_error_def)
  assume "decode_header L [CHR 0xE9] = Some [CHR 0xE9]"
  then show ?thesis
    using r by (simp add: header_subject_def t clampRunes_def Let_def valid_utf8_def invalid_chunk_def del: runes_trim_space)
qed

text \<open>C8: Whatever the message, the parsed bodies are within the configured size and are valid UTF-8, the
  sender has at most 320 code points and the subject at most 998.\<close>

theorem parseMessage_bounded:
  assumes "parseMessage fuel L raw env m = Some r"
  shows "bodies_within (body_limit m) r \<and> bodies_valid r
       \<and> length (runes (pm_sender r)) \<le> 320 \<and> length (runes (pm_subject r)) \<le> 998"
proof -
  have mb: "0 < body_limit m" by (simp add: body_limit_def)
  have s0: "length (runes (clampRunes env 320)) \<le> 320" using clampRunes_count [of 320 env] by simp
  show ?thesis
  proof (cases "read_message L raw")
    case None
    then have "r = \<lparr>pm_sender = clampRunes env 320, pm_subject = [],
                pm_body_text = clampBytesToString raw (body_limit m), pm_body_html = [], pm_has_attachments = False\<rparr>"
      using assms by (simp add: parseMessage_def Let_def)
    then show ?thesis
      using length_clampBytesToString [OF mb, of raw] mb s0
      by (simp add: bodies_within_def bodies_valid_def)
  next
    case (Some hb)
    obtain h b where hb: "hb = (h, b)" by (cases hb)
    let ?r1 = "message_headers L h env"
    have c: "collectBodyParts fuel L (h ''Content-Type'') (h ''Content-Transfer-Encoding'')
        (fst (readLimited (b, False) (body_limit m + 1))) (body_limit m) ?r1 = Some r"
      using assms Some hb by (simp add: parseMessage_def Let_def)
    have w: "bodies_within (body_limit m) ?r1" "bodies_valid ?r1"
      using mb by (simp_all add: message_headers_def Let_def bodies_within_def bodies_valid_def)
    have "length (runes (pm_sender ?r1)) \<le> 320" "length (runes (pm_subject ?r1)) \<le> 998"
      using s0 header_sender_count [OF s0, of L "h ''From''"] header_subject_count
      by (simp_all add: message_headers_def Let_def)
    then show ?thesis
      using collect_within(1) [OF c mb w(1)] collect_valid(1) [OF c w(2)] by simp
  qed
qed

definition plain_lib :: mime_lib where
  "plain_lib =
     \<lparr>read_message = (\<lambda>raw. Some ((\<lambda>_. []), raw)), decode_header = Some, parse_addresses = (\<lambda>a. Some [a]),
      media_type = (\<lambda>_. (False, [], (\<lambda>_. []))), parts = (\<lambda>_ _. []), base64_dec = (\<lambda>s. (s, False)),
      quoted_dec = (\<lambda>s. (s, False)), lower_table = (\<lambda>r. r)\<rparr>"

lemma plain_lib_ok: "mime_lib_ok plain_lib"
  by (simp add: mime_lib_ok_def plain_lib_def)

text \<open>C9: Parsing always ends with a result.  The recursion into MIME parts is no deeper than the message
  is long, since a part is shorter than the body it comes from; so a depth beyond the message's length
  is enough, for every message and every size limit.\<close>

theorem parseMessage_total:
  assumes "mime_lib_ok L" "length raw < fuel"
  shows "\<exists>r. parseMessage fuel L raw env m = Some r"
  by (rule parse_enough [OF assms])

lemma parseMessage_total_witness: "\<exists>r. parseMessage 3 plain_lib ''hi'' ''s'' 10 = Some r"
  using parseMessage_total [OF plain_lib_ok, of "''hi''" 3] by simp

lemma parseMessage_bounded_witness:
  "\<exists>r. parseMessage 3 plain_lib ''hi'' ''s'' 10 = Some r \<and> bodies_within 10 r"
proof -
  obtain r where "parseMessage 3 plain_lib ''hi'' ''s'' 10 = Some r"
    using parse_enough [OF plain_lib_ok, of "''hi''" 3] by auto
  then show ?thesis using parseMessage_bounded [of 3 plain_lib "''hi''" "''s''" 10 r] by (auto simp: body_limit_def)
qed

end
