(* ===== verification/Lmtp.thy ===== *)
theory Lmtp
  imports GoText
begin

text \<open>
  The text layer of the LMTP ingress (\<open>src/api/ingress/server.go\<close>): command lines, MAIL and RCPT
  arguments, addresses, and the DATA phase with dot-unstuffing and the size limit.  The client's
  bytes are one string; the connection error that ends them (EOF, deadline) is reading past its end.
\<close>

abbreviation CR :: char where "CR \<equiv> CHR 0x0D"
abbreviation LF :: char where "LF \<equiv> CHR 0x0A"
abbreviation HT :: char where "HT \<equiv> CHR 0x09"
abbreviation CRLF :: string where "CRLF \<equiv> [CR, LF]"

section \<open>Reading lines\<close>

text \<open>\<open>bufio.Reader.ReadString('\n')\<close>: the line with its line feed and the bytes left, or the
  connection's error when no line feed comes.\<close>

definition read_string :: "string \<Rightarrow> (string \<times> string) option" where
  "read_string inp = map_option (\<lambda>i. (take (Suc i) inp, drop (Suc i) inp)) (index_byte inp LF)"

lemma read_string_Some_iff:
  "read_string inp = Some (line, rest) \<longleftrightarrow> (\<exists>a. LF \<notin> set a \<and> line = a @ [LF] \<and> inp = line @ rest)"
proof
  assume "read_string inp = Some (line, rest)"
  then obtain i where i: "index_byte inp LF = Some i" "line = take (Suc i) inp" "rest = drop (Suc i) inp"
    by (auto simp: read_string_def)
  then obtain a b where "inp = a @ LF # b" "length a = i" "LF \<notin> set a"
    using index_byte_SomeD by blast
  then show "\<exists>a. LF \<notin> set a \<and> line = a @ [LF] \<and> inp = line @ rest"
    using i by (intro exI [of _ a]) simp
next
  assume "\<exists>a. LF \<notin> set a \<and> line = a @ [LF] \<and> inp = line @ rest"
  then obtain a where "LF \<notin> set a" "line = a @ [LF]" "inp = line @ rest" by blast
  then show "read_string inp = Some (line, rest)"
    by (simp add: read_string_def index_byte_append)
qed

lemma read_string_append: "LF \<notin> set a \<Longrightarrow> read_string (a @ LF # rest) = Some (a @ [LF], rest)"
  by (simp add: read_string_Some_iff)

lemma read_string_shorter: "read_string inp = Some (line, rest) \<Longrightarrow> length rest < length inp"
  by (auto simp: read_string_Some_iff)

datatype line_result = LineErr | TooLong | Line string

definition readCommandLine :: "nat \<Rightarrow> string \<Rightarrow> line_result \<times> string" where
  "readCommandLine command_max inp =
     (case read_string inp of
        None \<Rightarrow> (LineErr, [])
      | Some (line, rest) \<Rightarrow>
          if length line > command_max then (TooLong, rest)
          else (Line (trim_right CRLF line), rest))"

lemma readCommandLine_shorter: "readCommandLine m inp = (Line l, rest) \<Longrightarrow> length rest < length inp"
  by (auto simp: readCommandLine_def read_string_shorter split: option.splits if_splits)

section \<open>The DATA phase\<close>

text \<open>\<open>readData\<close>: lines are unstuffed and appended while they fit; a line that does not fit sets the
  oversized flag, and reading goes on to the terminator.  \<open>None\<close> is a connection error.\<close>

function readData :: "nat \<Rightarrow> string \<Rightarrow> bool \<Rightarrow> string \<Rightarrow> (string \<times> bool) option \<times> string" where
  "readData max_bytes raw oversized inp =
     (case read_string inp of
        None \<Rightarrow> (None, [])
      | Some (line, rest) \<Rightarrow>
          if trim_right CRLF line = ''.'' then (Some (raw, oversized), rest)
          else
            (let line' = (if has_prefix line ''..'' then tl line else line) in
             if length raw + length line' > max_bytes then readData max_bytes raw True rest
             else readData max_bytes (raw @ line') oversized rest))"
  by pat_completeness auto
termination
  by (relation "measure (\<lambda>(_, _, _, inp). length inp)") (auto dest: read_string_shorter)

declare readData.simps [simp del]

text \<open>What a sending client writes (RFC 5321, 4.5.2): a line that begins with a dot gets another
  one, each line ends in CRLF, and a lone dot ends the message.\<close>

definition stuff :: "string \<Rightarrow> string" where
  "stuff l = (if has_prefix l ''.'' then CHR ''.'' # l else l) @ CRLF"

definition wire :: "string list \<Rightarrow> string" where
  "wire ls = concat (map stuff ls) @ ''.'' @ CRLF"

definition text_of :: "string list \<Rightarrow> string" where
  "text_of ls = concat (map (\<lambda>l. l @ CRLF) ls)"

lemma trim_right_CRLF: "trim_right CRLF (l @ CRLF) = trim_right CRLF l"
  by (rule trim_right_append_cut) simp

lemma trim_right_shorter: "length (trim_right cs s) \<le> length s"
  using trim_right_prefix [of s cs] by (metis le_add1 length_append)

lemma stuff_not_end: "trim_right CRLF (stuff l) \<noteq> ''.''"
proof (cases "has_prefix l ''.''")
  case True
  then obtain t where l: "l = CHR ''.'' # t" by (auto simp: has_prefix_iff)
  have "trim_right CRLF (''..'' @ t) = ''..'' @ trim_right CRLF t"
    unfolding trim_right_def by (simp add: dropWhile_append)
  then show ?thesis using True l by (simp add: stuff_def trim_right_CRLF [of "_ # _ # t", simplified])
next
  case False
  then have "trim_right CRLF l \<noteq> ''.''"
    using trim_right_prefix [of l CRLF] by (metis has_prefix_iff)
  then show ?thesis using False by (simp add: stuff_def trim_right_CRLF)
qed

lemma unstuff_stuff: "(if has_prefix (stuff l) ''..'' then tl (stuff l) else stuff l) = l @ CRLF"
proof (cases l)
  case (Cons c t)
  then show ?thesis by (cases t) (auto simp: stuff_def has_prefix_def)
qed (simp add: stuff_def has_prefix_def)

lemma read_stuffed: "LF \<notin> set l \<Longrightarrow> read_string (stuff l @ rest) = Some (stuff l, rest)"
  by (auto simp: stuff_def read_string_Some_iff)

lemma readData_stuffed:
  "LF \<notin> set l \<Longrightarrow>
   readData m raw ov (stuff l @ rest) =
     (if length raw + length l + 2 > m then readData m raw True rest
      else readData m (raw @ l @ CRLF) ov rest)"
  by (subst readData.simps) (simp add: read_stuffed stuff_not_end unstuff_stuff Let_def)

lemma readData_end: "readData m raw ov (''.'' @ CRLF @ rest) = (Some (raw, ov), rest)"
proof -
  have "read_string (''.'' @ CRLF @ rest) = Some (''.'' @ CRLF, rest)"
    by (simp add: read_string_def)
  moreover have "trim_right CRLF (''.'' @ CRLF) = ''.''" by (simp add: trim_right_def)
  ultimately show ?thesis by (subst readData.simps) simp
qed

lemma readData_wire_fits:
  "list_all (\<lambda>l. LF \<notin> set l) ls \<Longrightarrow> length raw + length (text_of ls) \<le> m \<Longrightarrow>
   readData m raw ov (wire ls @ rest) = (Some (raw @ text_of ls, ov), rest)"
proof (induction ls arbitrary: raw)
  case Nil
  then show ?case using readData_end by (simp add: wire_def text_of_def)
next
  case (Cons l ls)
  have w: "wire (l # ls) @ rest = stuff l @ wire ls @ rest" by (simp add: wire_def)
  have t: "text_of (l # ls) = (l @ CRLF) @ text_of ls" by (simp add: text_of_def)
  from Cons.prems t have fits: "length raw + length l + 2 \<le> m" by simp
  have "readData m raw ov (wire (l # ls) @ rest) = readData m (raw @ l @ CRLF) ov (wire ls @ rest)"
    unfolding w using Cons.prems fits by (subst readData_stuffed) auto
  also have "\<dots> = (Some ((raw @ l @ CRLF) @ text_of ls, ov), rest)"
    using Cons.IH [of "raw @ l @ CRLF"] Cons.prems t by simp
  finally show ?case using t by simp
qed

lemma readData_wire_over:
  "list_all (\<lambda>l. LF \<notin> set l) ls \<Longrightarrow>
   \<exists>raw'. readData m raw True (wire ls @ rest) = (Some (raw', True), rest)"
proof (induction ls arbitrary: raw)
  case Nil
  then show ?case using readData_end by (auto simp: wire_def)
next
  case (Cons l ls)
  have w: "wire (l # ls) @ rest = stuff l @ wire ls @ rest" by (simp add: wire_def)
  show ?case unfolding w using Cons by (subst readData_stuffed) auto
qed

lemma readData_wire_exceeds:
  "list_all (\<lambda>l. LF \<notin> set l) ls \<Longrightarrow> length raw + length (text_of ls) > m \<Longrightarrow> length raw \<le> m \<Longrightarrow>
   \<exists>raw'. readData m raw ov (wire ls @ rest) = (Some (raw', True), rest)"
proof (induction ls arbitrary: raw)
  case Nil
  then show ?case by (simp add: text_of_def)
next
  case (Cons l ls)
  have w: "wire (l # ls) @ rest = stuff l @ wire ls @ rest" by (simp add: wire_def)
  have t: "text_of (l # ls) = (l @ CRLF) @ text_of ls" by (simp add: text_of_def)
  show ?case
  proof (cases "length raw + length l + 2 > m")
    case True
    then show ?thesis unfolding w using Cons.prems readData_wire_over [of ls m raw rest]
      by (subst readData_stuffed) auto
  next
    case False
    then show ?thesis unfolding w using Cons.prems t Cons.IH [of "raw @ l @ CRLF"]
      by (subst readData_stuffed) auto
  qed
qed

lemma readData_bounded:
  "readData m raw ov inp = (Some (body, over), rest) \<Longrightarrow> length raw \<le> m \<Longrightarrow> length body \<le> m"
proof (induction m raw ov inp arbitrary: body over rest rule: readData.induct)
  case (1 m raw ov inp)
  from 1(3) obtain line r where l: "read_string inp = Some (line, r)"
    by (subst (asm) readData.simps) (auto split: option.splits)
  show ?case
  proof (cases "trim_right CRLF line = ''.''")
    case True
    then show ?thesis using 1(3,4) l by (subst (asm) readData.simps) simp
  next
    case False
    define line' where "line' = (if has_prefix line ''..'' then tl line else line)"
    have step: "readData m raw ov inp =
        (if length raw + length line' > m then readData m raw True r else readData m (raw @ line') ov r)"
      using l False by (subst readData.simps) (simp add: line'_def Let_def)
    show ?thesis
    proof (cases "length raw + length line' > m")
      case True
      then show ?thesis using 1(1) [OF l refl False line'_def True] 1(3,4) step by simp
    next
      case False': False
      then show ?thesis using 1(2) [OF l refl False line'_def False'] 1(3,4) step by simp
    qed
  qed
qed

section \<open>Commands and arguments\<close>

text \<open>\<open>lo\<close> and \<open>up\<close> are Go's Unicode case tables.  \<open>splitCommand\<close> walks the code points of the line to
  the first blank or tab.\<close>

definition command_sep :: "nat \<times> string \<Rightarrow> bool" where
  "command_sep c = (fst c = 32 \<or> fst c = 9)"

definition splitCommand :: "(nat \<Rightarrow> nat) \<Rightarrow> string \<Rightarrow> string \<times> string" where
  "splitCommand up line0 =
     (let line = trim_space line0 in
      if line = [] then ([], [])
      else
        (let cs = runes line in
         case dropWhile (\<lambda>c. \<not> command_sep c) cs of
           [] \<Rightarrow> (to_upper up line, [])
         | _ # after \<Rightarrow>
             (to_upper up (unrunes (takeWhile (\<lambda>c. \<not> command_sep c) cs)), trim_space (unrunes after))))"

definition extractPathArg :: "string \<Rightarrow> string \<Rightarrow> bool \<Rightarrow> string option" where
  "extractPathArg arg0 prefix allow_empty =
     (let arg = trim_space arg0 in
      if length arg < length prefix \<or> \<not> equal_fold_ascii (take (length prefix) arg) prefix then None
      else
        (let rest = trim_space (drop (length prefix) arg) in
         case (if has_prefix rest ''<''
               then (case index_byte rest (CHR ''>'') of
                       None \<Rightarrow> None
                     | Some e \<Rightarrow> Some (take (e - 1) (tl rest)))
               else (case fields rest of
                       [] \<Rightarrow> None
                     | f # _ \<Rightarrow> Some (trim_cut ''<>'' f))) of
           None \<Rightarrow> None
         | Some path0 \<Rightarrow>
             (let path = trim_space path0 in
              if path = [] \<and> \<not> allow_empty then None else Some path)))"

definition splitAddress :: "(nat \<Rightarrow> nat) \<Rightarrow> string \<Rightarrow> (string \<times> string) option" where
  "splitAddress lo address0 =
     (let address = trim_cut ''<>'' (to_lower lo (trim_space address0)) in
      case last_index_byte address (CHR ''@'') of
        None \<Rightarrow> None
      | Some at \<Rightarrow>
          if at = 0 \<or> at = length address - 1 then None
          else
            (let localp = trim_space (take at address);
                 domain = trim_cut ''.'' (trim_space (drop (Suc at) address)) in
             if localp = [] \<or> domain = [] \<or> contains_sub domain ''..''
                \<or> contains_any domain [CHR '' '', HT, CR, LF]
             then None
             else Some (localp, domain)))"

lemma extractPathArg_nonempty: "extractPathArg arg p False = Some path \<Longrightarrow> path \<noteq> []"
  by (auto simp: extractPathArg_def Let_def split: if_splits option.splits list.splits)

lemma extractPathArg_trimmed: "extractPathArg arg p e = Some path \<Longrightarrow> trim_space path = path"
  by (auto simp: extractPathArg_def Let_def split: if_splits option.splits list.splits)

lemma extractPathArg_prefix:
  "extractPathArg arg p e = Some path \<Longrightarrow> equal_fold_ascii (take (length p) (trim_space arg)) p"
  by (auto simp: extractPathArg_def Let_def split: if_splits)

lemma splitAddress_cases:
  assumes "splitAddress lo s = Some (l, d)"
  obtains a at where "a = trim_cut ''<>'' (to_lower lo (trim_space s))"
    "last_index_byte a (CHR ''@'') = Some at" "l = trim_space (take at a)"
    "d = trim_cut ''.'' (trim_space (drop (Suc at) a))" "l \<noteq> []" "d \<noteq> []"
    "\<not> contains_sub d ''..''" "\<not> contains_any d [CHR '' '', HT, CR, LF]" "at \<noteq> 0"
  using assms by (auto simp: splitAddress_def Let_def split: option.splits if_splits)

text \<open>An accepted address has a trimmed, nonempty local part, and a domain of nonempty labels
  without white space and without another at-sign.\<close>

lemma splitAddress_good:
  assumes "splitAddress lo s = Some (l, d)"
  shows "l \<noteq> [] \<and> trim_space l = l \<and> d \<noteq> [] \<and> hd d \<noteq> CHR ''.'' \<and> last d \<noteq> CHR ''.''
       \<and> [] \<notin> set (split_byte d (CHR ''.'')) \<and> set d \<inter> {CHR '' '', HT, CR, LF, CHR ''@''} = {}"
proof -
  obtain a at where h: "a = trim_cut ''<>'' (to_lower lo (trim_space s))"
    "last_index_byte a (CHR ''@'') = Some at" "l = trim_space (take at a)"
    "d = trim_cut ''.'' (trim_space (drop (Suc at) a))" "l \<noteq> []" "d \<noteq> []"
    "\<not> contains_sub d ''..''" "\<not> contains_any d [CHR '' '', HT, CR, LF]"
    using splitAddress_cases [OF assms] by metis
  from h(2) obtain x y where xy: "a = x @ CHR ''@'' # y" "length x = at" "CHR ''@'' \<notin> set y"
    by (auto simp: last_index_byte_Some_iff)
  then have "drop (Suc at) a = y" by simp
  then have "set d \<subseteq> set y" using h(4) set_trim_cut set_trim_space by (metis order_trans)
  then have noat: "CHR ''@'' \<notin> set d" using xy(3) by blast
  have hd: "hd d \<noteq> CHR ''.''" and last: "last d \<noteq> CHR ''.''"
    using h(4,6) trim_cut_hd trim_cut_last by (metis list.set_intros(1))+
  have nonempty: "[] \<notin> set (split_byte d (CHR ''.''))"
    using split_byte_empty_label [OF _ h(6) hd last] h(7) by blast
  show ?thesis using h noat hd last nonempty by (auto simp: contains_any_iff)
qed

text \<open>A bracketed path: the keyword in any case, the path up to the first closing bracket, and
  parameters after it that are ignored.\<close>

lemma extractPathArg_bracketed:
  assumes kw: "map lower_char k = map lower_char kw" "k \<noteq> []" "byte (hd k) < (128::nat)" "\<not> ascii_space (hd k)"
    and path: "CHR ''>'' \<notin> set path"
  shows "extractPathArg (k @ ''<'' @ path @ ''>'' @ params) kw True = Some (trim_space path)"
proof -
  obtain h t where k: "k = h # t" using kw(2) by (cases k) auto
  have len: "length kw = length k" using kw(1) by (metis length_map)
  have gt: "\<not> ascii_space (CHR ''>'')" "\<not> ascii_space (CHR ''<'')"
    by (auto simp: ascii_space_def)
  obtain b where b: "trim_space (h # (t @ ''<'' @ path) @ CHR ''>'' # params) = h # (t @ ''<'' @ path) @ CHR ''>'' # b"
    using trim_space_enclosed [of h "CHR ''>''" "t @ ''<'' @ path" params] kw k gt by auto
  then have arg: "trim_space (k @ ''<'' @ path @ ''>'' @ params) = k @ ''<'' @ path @ ''>'' @ b"
    using k by simp
  obtain b2 where b2: "trim_space (CHR ''<'' # path @ CHR ''>'' # b) = CHR ''<'' # path @ CHR ''>'' # b2"
    using trim_space_enclosed [of "CHR ''<''" "CHR ''>''" path b] gt by auto
  have idx: "index_byte (CHR ''<'' # path @ CHR ''>'' # b2) (CHR ''>'') = Some (Suc (length path))"
    using index_byte_append [OF path, of b2] by simp
  show ?thesis
    unfolding extractPathArg_def arg Let_def
    using kw(1) len b2 idx by (simp add: equal_fold_ascii_def has_prefix_def)
qed

section \<open>Properties\<close>

text \<open>The terminator is recognised without its carriage return, and with more than one.\<close>

lemma bare_line_feed_ends_data:
  "readData m raw ov (''.'' @ [LF] @ rest) = (Some (raw, ov), rest)"
proof -
  have "read_string (''.'' @ [LF] @ rest) = Some (''.'' @ [LF], rest)" by (simp add: read_string_def)
  moreover have "trim_right CRLF (''.'' @ [LF]) = ''.''" by (simp add: trim_right_def)
  ultimately show ?thesis by (subst readData.simps) simp
qed

text \<open>C10: Reading DATA is the inverse of dot-stuffing, up to the size limit.  For every message of lines
  without line feeds, written in wire form and followed by any bytes, the reader stops exactly
  behind the terminator, flags the message as oversized exactly when its text is longer than the
  limit, and otherwise returns the text as it was before stuffing.\<close>

theorem readData_inverts_stuffing:
  assumes "list_all (\<lambda>l. LF \<notin> set l) ls"
  shows "\<exists>raw. readData m [] False (wire ls @ rest) = (Some (raw, m < length (text_of ls)), rest)
      \<and> (length (text_of ls) \<le> m \<longrightarrow> raw = text_of ls)"
  using readData_wire_fits [OF assms, of "[]" m False rest] readData_wire_exceeds [OF assms, of m "[]" False rest]
  by (cases "length (text_of ls) \<le> m") auto

lemma readData_inverts_stuffing_witness:
  "readData 99 [] False (wire [''.'', ''..a'', []] @ ''QUIT'') = (Some (text_of [''.'', ''..a'', []], False), ''QUIT'')"
  using readData_inverts_stuffing [of "[''.'', ''..a'', []]" 99 "''QUIT''"] by (auto simp: text_of_def)

text \<open>A bracketed path is extracted whatever the case of the keyword and whatever parameters
  follow it (such as SIZE or BODY): the result is the trimmed text between the opening bracket and
  the first closing one.\<close>

theorem path_between_brackets:
  assumes "map lower_char k = map lower_char kw" "k \<noteq> []" "byte (hd k) < (128::nat)" "\<not> ascii_space (hd k)"
    and "CHR ''>'' \<notin> set path"
  shows "extractPathArg (k @ ''<'' @ path @ ''>'' @ params) kw True = Some (trim_space path)"
  by (rule extractPathArg_bracketed [OF assms])

lemma path_between_brackets_witness:
  "extractPathArg (''from:'' @ ''<'' @ ''a@b'' @ ''>'' @ '' SIZE=10'') ''FROM:'' True = Some (trim_space ''a@b'')"
proof (rule path_between_brackets)
  show "map lower_char ''from:'' = map lower_char ''FROM:''" by code_simp
qed (simp_all add: ascii_space_def)

text \<open>An address is accepted only with a nonempty trimmed local part and a domain that has no
  empty label, no leading or trailing dot, no white space and no further at-sign; the domain is what
  follows the last at-sign, so a local part may itself contain one.\<close>

theorem accepted_address_well_formed:
  assumes "splitAddress lo s = Some (l, d)"
  shows "l \<noteq> [] \<and> trim_space l = l \<and> d \<noteq> [] \<and> hd d \<noteq> CHR ''.'' \<and> last d \<noteq> CHR ''.''
       \<and> [] \<notin> set (split_byte d (CHR ''.'')) \<and> set d \<inter> {CHR '' '', HT, CR, LF, CHR ''@''} = {}"
  by (rule splitAddress_good [OF assms])

lemma splitAddress_example: "splitAddress (\<lambda>r. r) '' <Bob@Mail.Example.> '' = Some (''bob'', ''mail.example'')"
proof -
  have 1: "trim_space '' <Bob@Mail.Example.> '' = ''<Bob@Mail.Example.>''"
    by (simp add: trim_space_ascii is_ascii_def ascii_space_def)
  have "map lower_char ''<Bob@Mail.Example.>'' = ''<bob@mail.example.>''" by code_simp
  then have 2: "to_lower (\<lambda>r. r) ''<Bob@Mail.Example.>'' = ''<bob@mail.example.>''"
    using to_lower_ascii [of "''<Bob@Mail.Example.>''" "\<lambda>r. r"] by (simp add: is_ascii_def)
  have 3: "trim_cut ''<>'' ''<bob@mail.example.>'' = ''bob@mail.example.''"
    by (simp add: trim_cut_def trim_left_def trim_right_def)
  have 4: "trim_space ''bob'' = ''bob''" "trim_space ''mail.example.'' = ''mail.example.''"
    by (simp_all add: trim_space_ascii is_ascii_def ascii_space_def)
  show ?thesis
    by (simp add: splitAddress_def 1 2 3 4 Let_def last_index_byte_def trim_cut_def trim_left_def trim_right_def
        contains_sub_def has_prefix_def contains_any_def)
qed

lemma accepted_address_well_formed_witness:
  "[] \<notin> set (split_byte ''mail.example'' (CHR ''.''))"
  using accepted_address_well_formed [OF splitAddress_example] by blast

end
