(* ===== verification/Snapshot.thy ===== *)
theory Snapshot
  imports Lmtp "HOL-Library.List_Lexorder" "HOL-Library.Product_Lexorder"
begin

text \<open>
  The routing snapshot of the ingress server (\<open>src/api/ingress/server.go\<close>, \<open>refreshSnapshot\<close> and
  \<open>resolveRecipient\<close>; \<open>src/api/store/ingress.go\<close>, \<open>LoadIngressSnapshot\<close>): how it is built from the
  domains the store loaded, and how a recipient address is resolved against it.  A domain id is the
  \<open>int\<close> of the \<open>domains\<close> table; a UUID is a number with \<^const>\<open>uuid_nil\<close> for the zero UUID.
\<close>

record snapshotDomain =
  sd_id :: int
  sd_domain :: string

record snapshot =
  domains :: "snapshotDomain list"
  domainsByName :: "string \<rightharpoonup> snapshotDomain"
  defaultAccountID :: uuid
  mailboxTTLMinutes :: int
  loadedAt :: time
  fingerprint :: string

record resolvedRecipient =
  rr_address :: string
  rr_localPart :: string
  rr_domainName :: string
  rr_domainID :: int
  rr_accountID :: uuid
  rr_mailboxTTLMinutes :: int

text \<open>\<open>store.IngressSnapshot\<close>: the active domains, in the order of the query.\<close>

record ingressSnapshot =
  is_domains :: "(int \<times> string) list"
  is_defaultAccountID :: uuid
  is_mailboxTTLMinutes :: int

section \<open>Building\<close>

definition normal_domain :: "(nat \<Rightarrow> nat) \<Rightarrow> string \<Rightarrow> string" where
  "normal_domain lo d = to_lower lo (trim_cut ''.'' (trim_space d))"

text \<open>The order of \<open>sort.Slice\<close>: longer domains first, then bytewise.  Two entries that compare
  equal have the same name, so the order among them, which Go leaves open, only shows in ids.\<close>

definition snapshot_key :: "snapshotDomain \<Rightarrow> int \<times> nat list" where
  "snapshot_key i = (- int (length (sd_domain i)), map byte (sd_domain i))"

definition snapshot_items :: "(nat \<Rightarrow> nat) \<Rightarrow> (int \<times> string) list \<Rightarrow> snapshotDomain list" where
  "snapshot_items lo ds =
     map (\<lambda>(i, d). \<lparr>sd_id = i, sd_domain = normal_domain lo d\<rparr>)
       (filter (\<lambda>(i, d). \<not> (i \<le> 0 \<or> normal_domain lo d = [])) ds)"

definition index_items :: "snapshotDomain list \<Rightarrow> string \<rightharpoonup> snapshotDomain" where
  "index_items items = foldl (\<lambda>m i. m(sd_domain i \<mapsto> i)) Map.empty items"

definition fingerprint_of :: "(uuid \<Rightarrow> string) \<Rightarrow> uuid \<Rightarrow> int \<Rightarrow> snapshotDomain list \<Rightarrow> string" where
  "fingerprint_of uuid_string acc ttl items =
     uuid_string acc @ ''|'' @ itoa ttl
     @ concat (map (\<lambda>i. ''|'' @ itoa (sd_id i) @ '':'' @ sd_domain i) items)"

definition build_snapshot ::
    "(nat \<Rightarrow> nat) \<Rightarrow> (uuid \<Rightarrow> string) \<Rightarrow> time \<Rightarrow> ingressSnapshot \<Rightarrow> snapshot" where
  "build_snapshot lo uuid_string now loaded =
     (let items = snapshot_items lo (is_domains loaded);
          sorted_items = sort_key snapshot_key items in
      \<lparr>domains = sorted_items,
       domainsByName = index_items items,
       defaultAccountID = is_defaultAccountID loaded,
       mailboxTTLMinutes = is_mailboxTTLMinutes loaded,
       loadedAt = now,
       fingerprint = fingerprint_of uuid_string (is_defaultAccountID loaded)
                       (is_mailboxTTLMinutes loaded) sorted_items\<rparr>)"

text \<open>\<open>refreshSnapshot\<close>: a failed load keeps the snapshot in use.\<close>

definition refreshSnapshot ::
    "(nat \<Rightarrow> nat) \<Rightarrow> (uuid \<Rightarrow> string) \<Rightarrow> time \<Rightarrow> (string, ingressSnapshot) result
     \<Rightarrow> snapshot option \<Rightarrow> (string, unit) result \<times> snapshot option" where
  "refreshSnapshot lo uuid_string now load current =
     (case load of
        Inl e \<Rightarrow> (Inl e, current)
      | Inr loaded \<Rightarrow> (Inr (), Some (build_snapshot lo uuid_string now loaded)))"

section \<open>Resolving a recipient\<close>

text \<open>The label walk: while the candidate is not a known domain, drop its first label.\<close>

function walk_labels :: "(string \<rightharpoonup> 'a) \<Rightarrow> string \<Rightarrow> 'a option" where
  "walk_labels m candidate =
     (case m candidate of
        Some d \<Rightarrow> Some d
      | None \<Rightarrow>
          (case index_byte candidate (CHR ''.'') of
             None \<Rightarrow> None
           | Some dot \<Rightarrow>
               if dot = length candidate - 1 then None
               else walk_labels m (drop (Suc dot) candidate)))"
  by pat_completeness auto
termination
  by (relation "measure (\<lambda>(m, c). length c)") (auto simp: index_byte_Some_iff)

declare walk_labels.simps [simp del]

definition resolveRecipient :: "(nat \<Rightarrow> nat) \<Rightarrow> snapshot \<Rightarrow> string \<Rightarrow> resolvedRecipient option" where
  "resolveRecipient lo snap address =
     (case splitAddress lo address of
        None \<Rightarrow> None
      | Some (localp, domain) \<Rightarrow>
          (case walk_labels (domainsByName snap) domain of
             None \<Rightarrow> None
           | Some matched \<Rightarrow>
               Some \<lparr>rr_address = localp @ ''@'' @ domain, rr_localPart = localp, rr_domainName = domain,
                     rr_domainID = sd_id matched, rr_accountID = defaultAccountID snap,
                     rr_mailboxTTLMinutes = mailboxTTLMinutes snap\<rparr>))"

section \<open>Longest suffix\<close>

text \<open>The specification: \<open>s\<close> is a suffix of the domain made of whole labels.\<close>

definition label_suffix :: "string \<Rightarrow> string \<Rightarrow> bool" where
  "label_suffix s d = (s \<noteq> [] \<and> (s = d \<or> has_suffix d (CHR ''.'' # s)))"

definition longest_match :: "(string \<rightharpoonup> 'a) \<Rightarrow> string \<Rightarrow> string \<Rightarrow> bool" where
  "longest_match m d s =
     (label_suffix s d \<and> s \<in> dom m \<and> (\<forall>s'. label_suffix s' d \<and> s' \<in> dom m \<longrightarrow> length s' \<le> length s))"

lemma first_sep_split:
  "a @ c # b = t @ c # s \<Longrightarrow> c \<notin> set a \<Longrightarrow> (t = a \<and> s = b) \<or> (\<exists>u. t = a @ c # u \<and> b = u @ c # s)"
proof (induction a arbitrary: t)
  case Nil
  then show ?case by (cases t) auto
next
  case (Cons x a)
  then show ?case by (cases t) auto
qed

lemma label_suffix_step:
  assumes "index_byte d (CHR ''.'') = Some i" "i \<noteq> length d - 1"
  shows "label_suffix s d \<longleftrightarrow> s = d \<or> label_suffix s (drop (Suc i) d)"
proof -
  obtain a b where ab: "d = a @ CHR ''.'' # b" "length a = i" "CHR ''.'' \<notin> set a"
    using assms(1) index_byte_SomeD by blast
  have b: "b \<noteq> []" using ab assms(2) by auto
  have dr: "drop (Suc i) d = b" using ab by simp
  show ?thesis
  proof
    assume l: "label_suffix s d"
    show "s = d \<or> label_suffix s (drop (Suc i) d)"
    proof (cases "s = d")
      case False
      then obtain t where t: "a @ CHR ''.'' # b = t @ CHR ''.'' # s"
        using l ab by (auto simp: label_suffix_def has_suffix_iff)
      then show ?thesis using first_sep_split [OF t ab(3)] l dr
        by (auto simp: label_suffix_def has_suffix_iff)
    qed simp
  next
    assume "s = d \<or> label_suffix s (drop (Suc i) d)"
    then show "label_suffix s d"
      using ab b dr by (auto simp: label_suffix_def has_suffix_iff)
  qed
qed

lemma label_suffix_length: "label_suffix s d \<Longrightarrow> length s \<le> length d"
  by (auto simp: label_suffix_def has_suffix_iff)

lemma label_suffix_last:
  assumes "index_byte d (CHR ''.'') = None \<or> index_byte d (CHR ''.'') = Some (length d - 1)"
  shows "label_suffix s d \<longleftrightarrow> s = d \<and> d \<noteq> []"
proof -
  have "\<not> has_suffix d (CHR ''.'' # s)" if "s \<noteq> []"
    using assms
  proof
    assume "index_byte d (CHR ''.'') = None"
    then show ?thesis by (auto simp: index_byte_None_iff has_suffix_iff)
  next
    assume "index_byte d (CHR ''.'') = Some (length d - 1)"
    then obtain a b where "d = a @ CHR ''.'' # b" "length a = length d - 1" "CHR ''.'' \<notin> set a"
      using index_byte_SomeD by blast
    then have "d = a @ [CHR ''.'']" by (cases b) auto
    then show ?thesis using that \<open>CHR ''.'' \<notin> set a\<close> first_sep_split [of a "CHR ''.''" "[]" _ s]
      by (auto simp: has_suffix_iff)
  qed
  then show ?thesis by (auto simp: label_suffix_def)
qed

lemma walk_labels_longest:
  "d \<noteq> [] \<Longrightarrow> walk_labels m d = Some x \<longleftrightarrow> (\<exists>s. longest_match m d s \<and> m s = Some x)"
proof (induction m d rule: walk_labels.induct)
  case (1 m d)
  show ?case
  proof (cases "m d")
    case (Some y)
    then have w: "walk_labels m d = Some y" by (subst walk_labels.simps) simp
    have "longest_match m d d" using Some "1.prems" label_suffix_length
      by (auto simp: longest_match_def label_suffix_def)
    moreover have "s = d" if lm: "longest_match m d s" for s
    proof -
      have "length d \<le> length s"
        using lm Some "1.prems" by (auto simp: longest_match_def label_suffix_def)
      then show ?thesis using lm by (auto simp: longest_match_def label_suffix_def has_suffix_iff)
    qed
    ultimately have "(\<exists>s. longest_match m d s \<and> m s = Some x) \<longleftrightarrow> m d = Some x" by blast
    then show ?thesis using w Some by simp
  next
    case None
    show ?thesis
    proof (cases "index_byte d (CHR ''.'') = None \<or> index_byte d (CHR ''.'') = Some (length d - 1)")
      case True
      then have "walk_labels m d = None" using None by (subst walk_labels.simps) auto
      moreover have "\<not> longest_match m d s" for s
      proof
        assume lm: "longest_match m d s"
        then have "s = d" unfolding longest_match_def using label_suffix_last [OF True] by blast
        then show False using lm None unfolding longest_match_def by (simp add: domIff)
      qed
      ultimately show ?thesis by simp
    next
      case False
      then obtain i where i: "index_byte d (CHR ''.'') = Some i" "i \<noteq> length d - 1" by auto
      then have w: "walk_labels m d = walk_labels m (drop (Suc i) d)"
        using None by (subst walk_labels.simps) simp
      have ne: "drop (Suc i) d \<noteq> []" using i by (auto simp: index_byte_Some_iff)
      have "longest_match m d s = longest_match m (drop (Suc i) d) s" for s
        unfolding longest_match_def label_suffix_step [OF i] using None by (auto simp: domIff)
      then show ?thesis using w "1.IH" [OF None i(1,2) ne] by simp
    qed
  qed
qed

section \<open>What the snapshot holds\<close>

lemma index_items_dom_gen:
  "dom (foldl (\<lambda>m i. m(sd_domain i \<mapsto> i)) m0 items) = dom m0 \<union> sd_domain ` set items"
  by (induction items arbitrary: m0) auto

lemma index_items_Some_gen:
  "foldl (\<lambda>m i. m(sd_domain i \<mapsto> i)) m0 items d = Some x \<Longrightarrow>
   (x \<in> set items \<and> sd_domain x = d) \<or> m0 d = Some x"
proof (induction items arbitrary: m0)
  case (Cons a items)
  then show ?case using Cons.IH [of "m0(sd_domain a \<mapsto> a)"] by (auto split: if_splits)
qed simp

lemma index_items_Some: "index_items items d = Some x \<Longrightarrow> x \<in> set items \<and> sd_domain x = d"
  unfolding index_items_def using index_items_Some_gen by fastforce

lemma snapshot_items_good: "x \<in> set (snapshot_items lo ds) \<Longrightarrow> 0 < sd_id x \<and> sd_domain x \<noteq> []"
  by (auto simp: snapshot_items_def)

definition snapshot_ok :: "snapshot \<Rightarrow> bool" where
  "snapshot_ok snap =
     (sorted (map snapshot_key (domains snap))
      \<and> (\<forall>x \<in> set (domains snap). 0 < sd_id x \<and> sd_domain x \<noteq> [])
      \<and> dom (domainsByName snap) = sd_domain ` set (domains snap)
      \<and> (\<forall>x \<in> ran (domainsByName snap). x \<in> set (domains snap))
      \<and> (\<forall>d x. domainsByName snap d = Some x \<longrightarrow> sd_domain x = d))"

lemma build_snapshot_ok: "snapshot_ok (build_snapshot lo us now loaded)"
proof -
  let ?items = "snapshot_items lo (is_domains loaded)"
  have "dom (index_items ?items) = sd_domain ` set ?items"
    unfolding index_items_def using index_items_dom_gen [of Map.empty] by simp
  then show ?thesis
    by (auto simp: snapshot_ok_def build_snapshot_def Let_def ran_def
        dest: index_items_Some snapshot_items_good)
qed

text \<open>What the rest of the ingress relies on in a resolved recipient.\<close>

definition recipient_ok :: "resolvedRecipient \<Rightarrow> bool" where
  "recipient_ok r =
     (rr_address r = rr_localPart r @ ''@'' @ rr_domainName r
      \<and> rr_localPart r \<noteq> [] \<and> trim_space (rr_localPart r) = rr_localPart r
      \<and> rr_domainName r \<noteq> [] \<and> hd (rr_domainName r) \<noteq> CHR ''.'' \<and> last (rr_domainName r) \<noteq> CHR ''.''
      \<and> set (rr_domainName r) \<inter> {CHR '' '', HT, CR, LF, CHR ''@''} = {}
      \<and> 0 < rr_domainID r \<and> rr_accountID r \<noteq> uuid_nil)"

definition snapshot_usable :: "snapshot option \<Rightarrow> bool" where
  "snapshot_usable so = (case so of None \<Rightarrow> True | Some snap \<Rightarrow> snapshot_ok snap)"

lemma walk_labels_in: "walk_labels m d = Some x \<Longrightarrow> x \<in> ran m"
proof (induction m d rule: walk_labels.induct)
  case (1 m d)
  from 1(2) show ?case
    by (subst (asm) walk_labels.simps) (auto split: option.splits if_splits intro: "1.IH" ranI)
qed

lemma resolveRecipient_ok:
  assumes "snapshot_ok snap" "defaultAccountID snap \<noteq> uuid_nil" "resolveRecipient lo snap a = Some r"
  shows "recipient_ok r"
proof -
  obtain l d x where h: "splitAddress lo a = Some (l, d)" "walk_labels (domainsByName snap) d = Some x"
    and r: "r = \<lparr>rr_address = l @ ''@'' @ d, rr_localPart = l, rr_domainName = d, rr_domainID = sd_id x,
                rr_accountID = defaultAccountID snap, rr_mailboxTTLMinutes = mailboxTTLMinutes snap\<rparr>"
    using assms(3) by (auto simp: resolveRecipient_def split: option.splits)
  have "0 < sd_id x" using walk_labels_in [OF h(2)] assms(1) by (auto simp: snapshot_ok_def)
  then show ?thesis using splitAddress_good [OF h(1)] assms(2) by (simp add: recipient_ok_def r)
qed

section \<open>Properties\<close>

text \<open>C11: A recipient resolves to the longest active domain that is a whole-label suffix of its
  domain, and to nothing when there is none: the walk over the labels computes exactly that
  specification, for every snapshot and every address.\<close>

theorem resolves_to_longest_suffix:
  assumes "splitAddress lo address = Some (l, d)"
  shows "resolveRecipient lo snap address = Some r \<longleftrightarrow>
    (\<exists>s x. longest_match (domainsByName snap) d s \<and> domainsByName snap s = Some x
       \<and> r = \<lparr>rr_address = l @ ''@'' @ d, rr_localPart = l, rr_domainName = d, rr_domainID = sd_id x,
             rr_accountID = defaultAccountID snap, rr_mailboxTTLMinutes = mailboxTTLMinutes snap\<rparr>)"
proof -
  have d: "d \<noteq> []" using splitAddress_good [OF assms] by blast
  have "resolveRecipient lo snap address = Some r \<longleftrightarrow>
    (\<exists>x. walk_labels (domainsByName snap) d = Some x
       \<and> r = \<lparr>rr_address = l @ ''@'' @ d, rr_localPart = l, rr_domainName = d, rr_domainID = sd_id x,
             rr_accountID = defaultAccountID snap, rr_mailboxTTLMinutes = mailboxTTLMinutes snap\<rparr>)"
    by (auto simp: resolveRecipient_def assms split: option.splits)
  then show ?thesis by (auto simp: walk_labels_longest [OF d])
qed

definition two_domains :: snapshot where
  "two_domains = build_snapshot (\<lambda>r. r) (\<lambda>_. ''u'') 0
     \<lparr>is_domains = [(1, ''example''), (2, ''mail.example'')], is_defaultAccountID = 7, is_mailboxTTLMinutes = 30\<rparr>"

lemma two_domains_names:
  "domainsByName two_domains =
     [''example'' \<mapsto> \<lparr>sd_id = 1, sd_domain = ''example''\<rparr>, ''mail.example'' \<mapsto> \<lparr>sd_id = 2, sd_domain = ''mail.example''\<rparr>]"
proof -
  have "normal_domain (\<lambda>r. r) ''example'' = ''example''" "normal_domain (\<lambda>r. r) ''mail.example'' = ''mail.example''"
    by (simp_all add: normal_domain_def trim_space_ascii is_ascii_def to_lower_id is_upper_def
        ascii_space_def trim_cut_def trim_left_def trim_right_def)
  then show ?thesis
    by (simp add: two_domains_def build_snapshot_def Let_def snapshot_items_def index_items_def)
qed

lemma resolves_to_longest_suffix_witness:
  "\<exists>s x. longest_match (domainsByName two_domains) ''mail.example'' s \<and> domainsByName two_domains s = Some x \<and> sd_id x = 2"
proof -
  have "walk_labels (domainsByName two_domains) ''mail.example'' = Some \<lparr>sd_id = 2, sd_domain = ''mail.example''\<rparr>"
    by (subst walk_labels.simps) (simp add: two_domains_names)
  then have "resolveRecipient (\<lambda>r. r) two_domains '' <Bob@Mail.Example.> '' = Some
     \<lparr>rr_address = ''bob'' @ ''@'' @ ''mail.example'', rr_localPart = ''bob'', rr_domainName = ''mail.example'',
      rr_domainID = 2, rr_accountID = defaultAccountID two_domains, rr_mailboxTTLMinutes = mailboxTTLMinutes two_domains\<rparr>"
    by (simp add: resolveRecipient_def splitAddress_example)
  then show ?thesis
    unfolding resolves_to_longest_suffix [OF splitAddress_example] by auto
qed

text \<open>A refresh publishes a well-formed snapshot or keeps the one in use: the domain list is sorted
  longest first, every entry has a positive id and a nonempty name, and the name index covers exactly
  the names of the list; a load that fails changes nothing.\<close>

theorem refresh_publishes_ok_snapshot:
  assumes "snapshot_usable current"
  shows "snapshot_usable (snd (refreshSnapshot lo us now load current))
       \<and> (\<forall>e. load = Inl e \<longrightarrow> refreshSnapshot lo us now load current = (Inl e, current))"
  using assms build_snapshot_ok by (auto simp: refreshSnapshot_def snapshot_usable_def split: sum.splits)

lemma refresh_publishes_ok_snapshot_witness:
  "snapshot_usable (snd (refreshSnapshot (\<lambda>r. r) (\<lambda>_. ''u'') 0
     (Inr \<lparr>is_domains = [(1, ''A.'')], is_defaultAccountID = 7, is_mailboxTTLMinutes = 30\<rparr>) (Some two_domains)))"
  using refresh_publishes_ok_snapshot [of "Some two_domains"] build_snapshot_ok
  by (simp add: snapshot_usable_def two_domains_def)

end
