(* ===== verification/Models.thy ===== *)
theory Models
  imports Prelude
begin

text \<open>
  The data model (\<open>src/api/model/models.go\<close>): the rows of the store's tables and the values that
  travel between the components.  A nullable column is an option; Go's \<open>int\<close> and \<open>int64\<close> are
  \<^typ>\<open>int\<close>, with the width of the database column checked where a statement writes it.
\<close>

record account =
  acc_id :: uuid
  acc_username :: string
  acc_api_key :: string
  acc_is_admin :: bool
  acc_is_active :: bool
  acc_created_at :: time
  acc_updated_at :: time

record account_token =
  tok_id :: uuid
  tok_account_id :: uuid
  tok_name :: string
  tok_prefix :: string
  tok_scope :: string
  tok_is_primary :: bool
  tok_kind :: string
  tok_rate_limit_per_minute :: int
  tok_daily_request_limit :: int
  tok_total_request_limit :: int
  tok_request_count_total :: int
  tok_last_used_at :: "time option"
  tok_expires_at :: "time option"
  tok_revoked_at :: "time option"
  tok_created_at :: time
  tok_updated_at :: time

record mail_domain =
  dom_id :: int
  dom_domain :: string
  dom_is_active :: bool
  dom_status :: string
  dom_visibility :: string
  dom_source_type :: string
  dom_verified_at :: "time option"
  dom_created_at :: time
  dom_mx_checked_at :: "time option"

record domain_donation =
  don_id :: uuid
  don_domain_id :: int
  don_token_id :: uuid
  don_include_subdomains :: bool
  don_challenge_token :: string
  don_status :: string
  don_reward_active :: bool
  don_reward_rpm :: int
  don_reward_daily :: int
  don_reward_total :: int
  don_failure_count :: int
  don_last_error :: string
  don_last_checked_at :: "time option"
  don_activated_at :: "time option"
  don_reward_revoked_at :: "time option"
  don_created_at :: time
  don_updated_at :: time

record mailbox =
  mb_id :: uuid
  mb_account_id :: uuid
  mb_address :: string
  mb_domain_id :: int
  mb_full_address :: string
  mb_created_at :: time
  mb_expires_at :: "time option"
  mb_keep_forever :: bool
  mb_creator_token_id :: "uuid option"

record mailbox_state =
  ms_mailbox_id :: uuid
  ms_account_id :: uuid
  ms_domain_id :: int
  ms_domain_name :: string
  ms_full_address :: string
  ms_latest_email_id :: "uuid option"
  ms_latest_sender :: string
  ms_latest_subject :: string
  ms_latest_code :: string
  ms_latest_code_source :: string
  ms_latest_link :: string
  ms_latest_link_source :: string
  ms_latest_received_at :: "time option"
  ms_email_count :: int
  ms_expires_at :: "time option"
  ms_keep_forever :: bool
  ms_created_at :: time
  ms_updated_at :: time

record email =
  em_id :: uuid
  em_mailbox_id :: uuid
  em_sender :: string
  em_subject :: string
  em_body_text :: string
  em_body_html :: string
  em_raw_message :: string
  em_has_attachments :: bool
  em_raw_path :: string
  em_raw_retention_until :: "time option"
  em_parsed_code :: string
  em_parsed_code_source :: string
  em_parsed_link :: string
  em_parsed_link_source :: string
  em_size_bytes :: int
  em_received_at :: time

record email_summary =
  es_id :: uuid
  es_sender :: string
  es_subject :: string
  es_has_attachments :: bool
  es_parsed_code :: string
  es_parsed_code_source :: string
  es_parsed_link :: string
  es_parsed_link_source :: string
  es_size_bytes :: int
  es_received_at :: time

record mailbox_email_event =
  ev_mailbox_id :: uuid
  ev_full_address :: string
  ev_email :: email_summary

text \<open>\<open>store.IngressDelivery\<close>: what the ingress hands to the store for one message.\<close>

record ingress_delivery =
  dl_recipient :: string
  dl_local_part :: string
  dl_domain_name :: string
  dl_account_id :: uuid
  dl_domain_id :: int
  dl_mailbox_ttl_minutes :: int
  dl_sender :: string
  dl_subject :: string
  dl_body_text :: string
  dl_body_html :: string
  dl_has_attachments :: bool
  dl_raw :: string
  dl_size_bytes :: int

end
