(* ===== verification/GoChan.thy ===== *)
theory GoChan
  imports Prelude
begin

text \<open>
  Go's buffered channels, as the ingress server uses them (delivery queue, slot pool, result and
  event channels) and as the usage recorder does.  \<open>buf\<close> holds the queued values oldest first.  A send on
  a closed channel panics; a receive on a closed, drained channel returns the zero value at once.
  The locale \<open>bounded_fifo\<close> is the contract the clients rely on.
\<close>

record 'a chan =
  buf :: "'a list"
  cap :: nat
  closed :: bool

datatype 'c sent = Sent 'c | Full | Panics

datatype ('a, 'c) received = Got 'a 'c | Empty | ClosedEmpty

definition chan_make :: "nat \<Rightarrow> 'a chan" where
  "chan_make n = \<lparr>buf = [], cap = n, closed = False\<rparr>"

text \<open>\<open>select { case c <- x: ... default: ... }\<close>: \<open>Full\<close> is the default branch.\<close>

definition try_send :: "'a \<Rightarrow> 'a chan \<Rightarrow> 'a chan sent" where
  "try_send x c =
     (if closed c then Panics
      else if length (buf c) < cap c then Sent (c\<lparr>buf := buf c @ [x]\<rparr>)
      else Full)"

definition try_recv :: "'a chan \<Rightarrow> ('a, 'a chan) received" where
  "try_recv c =
     (case buf c of
        x # xs \<Rightarrow> Got x (c\<lparr>buf := xs\<rparr>)
      | [] \<Rightarrow> if closed c then ClosedEmpty else Empty)"

definition chan_close :: "'a chan \<Rightarrow> 'a chan" where
  "chan_close c = c\<lparr>closed := True\<rparr>"

definition chan_wf :: "'a chan \<Rightarrow> bool" where
  "chan_wf c = (length (buf c) \<le> cap c)"

definition chan_room :: "'a chan \<Rightarrow> nat" where
  "chan_room c = cap c - length (buf c)"

definition chan_open :: "'a chan \<Rightarrow> bool" where
  "chan_open c = (\<not> closed c \<and> chan_wf c)"

section \<open>The contract\<close>

locale bounded_fifo =
  fixes send :: "'a \<Rightarrow> 'c \<Rightarrow> 'c sent"
    and recv :: "'c \<Rightarrow> ('a, 'c) received"
    and contents :: "'c \<Rightarrow> 'a list"
    and room :: "'c \<Rightarrow> nat"
    and good :: "'c \<Rightarrow> bool"
  assumes send_room: "good c \<Longrightarrow> 0 < room c \<Longrightarrow>
      \<exists>c'. send x c = Sent c' \<and> good c' \<and> contents c' = contents c @ [x] \<and> Suc (room c') = room c"
    and send_full: "good c \<Longrightarrow> room c = 0 \<Longrightarrow> send x c = Full"
    and recv_some: "good c \<Longrightarrow> contents c = x # xs \<Longrightarrow>
      \<exists>c'. recv c = Got x c' \<and> good c' \<and> contents c' = xs \<and> room c' = Suc (room c)"
    and recv_none: "good c \<Longrightarrow> contents c = [] \<Longrightarrow> recv c = Empty"
begin

text \<open>A non-blocking producer that drops what does not fit, counting the drops.\<close>

fun offer_all :: "'a list \<Rightarrow> 'c \<Rightarrow> 'c \<times> nat" where
  "offer_all [] c = (c, 0)"
| "offer_all (x # xs) c =
     (case send x c of
        Sent c' \<Rightarrow> offer_all xs c'
      | _ \<Rightarrow> (let (c', d) = offer_all xs c in (c', Suc d)))"

lemma no_panic: "good c \<Longrightarrow> send x c \<noteq> Panics"
  using send_room [of c x] send_full [of c x] by (cases "room c = 0") auto

lemma send_SentD:
  assumes "good c" "send x c = Sent c'"
  shows "good c' \<and> contents c' = contents c @ [x] \<and> Suc (room c') = room c"
proof (cases "room c = 0")
  case True
  then show ?thesis using send_full [OF assms(1), of x] assms(2) by simp
next
  case False
  then show ?thesis using send_room [OF assms(1), of x] assms(2) by auto
qed

lemma offer_all_full: "good c \<Longrightarrow> room c = 0 \<Longrightarrow> offer_all xs c = (c, length xs)"
  by (induction xs) (simp_all add: send_full)

lemma offer_all_spec:
  assumes "good c"
  shows "good (fst (offer_all xs c)) \<and> contents (fst (offer_all xs c)) = contents c @ take (room c) xs
       \<and> snd (offer_all xs c) = length xs - room c"
  using assms
proof (induction xs arbitrary: c)
  case (Cons x xs)
  show ?case
  proof (cases "room c = 0")
    case True
    then show ?thesis using Cons.prems by (simp only: offer_all_full fst_conv snd_conv) simp
  next
    case False
    then obtain c' where c': "send x c = Sent c'" "good c'" "contents c' = contents c @ [x]"
        "room c = Suc (room c')"
      using send_room [OF Cons.prems, of x] by auto
    then show ?thesis using Cons.IH [OF c'(2)] by simp
  qed
qed simp

text \<open>A consumer that receives until the channel is empty; the fuel is the number of receives.\<close>

fun drain :: "nat \<Rightarrow> 'c \<Rightarrow> 'a list \<times> 'c" where
  "drain 0 c = ([], c)"
| "drain (Suc n) c = (case recv c of Got x c' \<Rightarrow> (let (xs, d) = drain n c' in (x # xs, d)) | _ \<Rightarrow> ([], c))"

lemma drain_all:
  "good c \<Longrightarrow> length (contents c) \<le> n \<Longrightarrow>
   fst (drain n c) = contents c \<and> good (snd (drain n c)) \<and> contents (snd (drain n c)) = []
   \<and> room (snd (drain n c)) = room c + length (contents c)"
proof (induction n arbitrary: c)
  case (Suc n)
  show ?case
  proof (cases "contents c")
    case Nil
    then show ?thesis using Suc.prems by (simp add: recv_none)
  next
    case (Cons x xs)
    obtain c' where "recv c = Got x c'" "good c'" "contents c' = xs" "room c' = Suc (room c)"
      using recv_some [OF Suc.prems(1) Cons] by blast
    then show ?thesis using Suc.IH [of c'] Suc.prems Cons by (simp add: case_prod_beta)
  qed
qed simp

end

interpretation gc: bounded_fifo try_send try_recv buf chan_room chan_open
  by unfold_locales (auto simp: try_send_def try_recv_def chan_room_def chan_open_def chan_wf_def split: list.splits)

lemma chan_open_make [simp]: "chan_open (chan_make n)"
  by (simp add: chan_open_def chan_make_def chan_wf_def)

lemma chan_make_simps [simp]:
  "buf (chan_make n) = []" "cap (chan_make n) = n" "\<not> closed (chan_make n)" "chan_room (chan_make n) = n"
  by (simp_all add: chan_make_def chan_room_def)

lemma try_send_open_iff:
  "\<not> closed c \<Longrightarrow> try_send x c = Sent c' \<longleftrightarrow> length (buf c) < cap c \<and> c' = c\<lparr>buf := buf c @ [x]\<rparr>"
  "\<not> closed c \<Longrightarrow> try_send x c = Full \<longleftrightarrow> cap c \<le> length (buf c)"
  by (auto simp: try_send_def)

end
