(* ===== verification/Events.thy ===== *)
theory Events
  imports Models GoChan
begin

text \<open>
  Event subscriptions of the ingress server (\<open>src/api/ingress/events.go\<close>).  The mutex makes each
  operation one step.  A subscription is an event channel of capacity 16; a publisher never blocks: an
  event that does not fit is dropped and counted.  The channels live in a heap \<open>hub_chans\<close>, since a
  reader keeps its channel after the subscription is gone from the map.
\<close>

record subscription =
  sub_mailbox :: uuid
  sub_events :: nat

record hub =
  hub_subs :: "nat \<rightharpoonup> subscription"
  hub_next :: nat
  hub_dropped :: nat
  hub_chans :: "nat \<Rightarrow> mailbox_email_event chan"

definition hub_init :: hub where
  "hub_init = \<lparr>hub_subs = Map.empty, hub_next = 0, hub_dropped = 0, hub_chans = (\<lambda>_. chan_make 0)\<rparr>"

text \<open>\<open>Subscribe\<close> returns the channel, named by the subscription's id, and the cancel function, which is
  \<open>unsubscribe\<close> at that id (its \<open>sync.Once\<close> makes later calls do nothing, as does the test here).\<close>

definition subscribe :: "uuid \<Rightarrow> hub \<Rightarrow> nat \<times> hub" where
  "subscribe mailbox_id h =
     (let i = Suc (hub_next h) in
      (i, h\<lparr>hub_next := i,
            hub_chans := (hub_chans h)(i := chan_make 16),
            hub_subs := (hub_subs h)(i \<mapsto> \<lparr>sub_mailbox = mailbox_id, sub_events = i\<rparr>)\<rparr>))"

definition unsubscribe :: "nat \<Rightarrow> hub \<Rightarrow> hub" where
  "unsubscribe i h =
     (case hub_subs h i of
        None \<Rightarrow> h
      | Some s \<Rightarrow>
          h\<lparr>hub_subs := (hub_subs h)(i := None),
            hub_chans := (hub_chans h)(sub_events s := chan_close (hub_chans h (sub_events s)))\<rparr>)"

definition wants :: "mailbox_email_event \<Rightarrow> subscription \<Rightarrow> bool" where
  "wants e s = (sub_mailbox s = uuid_nil \<or> sub_mailbox s = ev_mailbox_id e)"

text \<open>One turn of the loop of \<open>publishEmailEvent\<close>; a send on a closed channel would panic.\<close>

definition publish_one :: "mailbox_email_event \<Rightarrow> nat \<Rightarrow> hub \<Rightarrow> hub option" where
  "publish_one e i h =
     (case hub_subs h i of
        None \<Rightarrow> Some h
      | Some s \<Rightarrow>
          if \<not> wants e s then Some h
          else (case try_send e (hub_chans h (sub_events s)) of
                  Sent c \<Rightarrow> Some (h\<lparr>hub_chans := (hub_chans h)(sub_events s := c)\<rparr>)
                | Full \<Rightarrow> Some (h\<lparr>hub_dropped := Suc (hub_dropped h)\<rparr>)
                | Panics \<Rightarrow> None))"

text \<open>The loop ranges over the map in an order Go leaves open: the list gives the keys in that order.
  \<open>None\<close> is a panic.\<close>

fun publish_each :: "mailbox_email_event \<Rightarrow> nat list \<Rightarrow> hub \<Rightarrow> hub option" where
  "publish_each e [] h = Some h"
| "publish_each e (i # ks) h = Option.bind (publish_one e i h) (publish_each e ks)"

definition publishEmailEvent :: "nat list \<Rightarrow> mailbox_email_event \<Rightarrow> hub \<Rightarrow> hub option" where
  "publishEmailEvent order e h = publish_each e order h"

definition eventSubscriberCount :: "hub \<Rightarrow> nat" where
  "eventSubscriberCount h = card (dom (hub_subs h))"

text \<open>A reader takes an event from the channel it was given.\<close>

definition take_event :: "nat \<Rightarrow> hub \<Rightarrow> hub" where
  "take_event i h =
     (case try_recv (hub_chans h i) of
        Got _ c \<Rightarrow> h\<lparr>hub_chans := (hub_chans h)(i := c)\<rparr>
      | _ \<Rightarrow> h)"

section \<open>Invariant\<close>

definition hub_ok :: "hub \<Rightarrow> bool" where
  "hub_ok h =
     (\<forall>i s. hub_subs h i = Some s \<longrightarrow>
        0 < i \<and> i \<le> hub_next h \<and> sub_events s = i \<and> chan_open (hub_chans h i) \<and> cap (hub_chans h i) = 16)"

lemma hub_okI [inv_intros]:
  "(\<And>i s. hub_subs h i = Some s \<Longrightarrow>
     0 < i \<and> i \<le> hub_next h \<and> sub_events s = i \<and> chan_open (hub_chans h i) \<and> cap (hub_chans h i) = 16)
   \<Longrightarrow> hub_ok h"
  by (auto simp: hub_ok_def)

lemma hub_okD:
  "hub_ok h \<Longrightarrow> hub_subs h i = Some s \<Longrightarrow>
   0 < i \<and> i \<le> hub_next h \<and> sub_events s = i \<and> chan_open (hub_chans h i) \<and> cap (hub_chans h i) = 16"
  by (auto simp: hub_ok_def)

lemma hub_init_ok: "hub_ok hub_init"
  by (rule hub_okI) (simp add: hub_init_def)

lemma subscribe_ok: "hub_ok h \<Longrightarrow> hub_ok (snd (subscribe m h))"
  by (rule hub_okI) (auto simp: subscribe_def Let_def dest: hub_okD split: if_splits)

lemma subscribe_fresh: "hub_ok h \<Longrightarrow> hub_subs h (fst (subscribe m h)) = None"
  by (cases "hub_subs h (fst (subscribe m h))") (auto simp: subscribe_def Let_def dest: hub_okD)

lemma unsubscribe_ok: "hub_ok h \<Longrightarrow> hub_ok (unsubscribe i h)"
  by (rule hub_okI) (auto simp: unsubscribe_def dest: hub_okD split: option.splits if_splits)

lemma unsubscribe_idem: "unsubscribe i (unsubscribe i h) = unsubscribe i h"
  by (auto simp: unsubscribe_def split: option.splits)

lemma chan_open_sent: "chan_open c \<Longrightarrow> try_send x c = Sent d \<Longrightarrow> chan_open d \<and> cap d = cap c \<and> buf d = buf c @ [x]"
  by (auto simp: chan_open_def try_send_open_iff chan_wf_def)

lemma publish_one_ok:
  assumes "hub_ok h"
  shows "\<exists>h'. publish_one e i h = Some h' \<and> hub_ok h' \<and> hub_subs h' = hub_subs h \<and> hub_next h' = hub_next h"
proof (cases "hub_subs h i")
  case None
  then show ?thesis using assms by (simp add: publish_one_def)
next
  case (Some s)
  note i = hub_okD [OF assms Some]
  show ?thesis
  proof (cases "try_send e (hub_chans h i)")
    case (Sent c)
    let ?h = "h\<lparr>hub_chans := (hub_chans h)(i := c)\<rparr>"
    have "chan_open c" "cap c = 16" using chan_open_sent [OF _ Sent] i by auto
    then have "hub_ok ?h"
      by (intro hub_okI) (auto dest: hub_okD [OF assms])
    then show ?thesis using Some Sent i assms by (simp add: publish_one_def)
  next
    case Full
    have "hub_ok (h\<lparr>hub_dropped := Suc (hub_dropped h)\<rparr>)"
      by (intro hub_okI) (auto dest: hub_okD [OF assms])
    then show ?thesis using Some Full i assms by (simp add: publish_one_def)
  next
    case Panics
    then show ?thesis using gc.no_panic [of "hub_chans h i" e] i by simp
  qed
qed

text \<open>Publishing never panics: a channel in the map is open, since it is closed only as its entry goes.\<close>

lemma publish_each_ok:
  "hub_ok h \<Longrightarrow>
   \<exists>h'. publish_each e ks h = Some h' \<and> hub_ok h' \<and> hub_subs h' = hub_subs h \<and> hub_next h' = hub_next h"
proof (induction ks arbitrary: h)
  case (Cons i ks)
  then show ?case using publish_one_ok [OF Cons.prems, of e i] by fastforce
qed simp

lemma take_event_ok: "hub_ok h \<Longrightarrow> hub_ok (take_event i h)"
  by (rule hub_okI)
    (auto simp: take_event_def try_recv_def chan_open_def chan_wf_def split: list.splits if_splits received.splits
      dest: hub_okD)

section \<open>What a publish does\<close>

text \<open>The effect of a publish on the channels and on the drop counter, whatever the order of the
  map: an interested subscriber with room gets the event at the end, one without room is counted.\<close>

definition after_publish :: "mailbox_email_event \<Rightarrow> hub \<Rightarrow> nat \<Rightarrow> mailbox_email_event list" where
  "after_publish e h i =
     (case hub_subs h i of
        Some s \<Rightarrow> if wants e s \<and> 0 < chan_room (hub_chans h i) then buf (hub_chans h i) @ [e] else buf (hub_chans h i)
      | None \<Rightarrow> buf (hub_chans h i))"

definition overflowing :: "mailbox_email_event \<Rightarrow> hub \<Rightarrow> nat set" where
  "overflowing e h = {i. \<exists>s. hub_subs h i = Some s \<and> wants e s \<and> chan_room (hub_chans h i) = 0}"

lemma publish_one_effect:
  assumes "hub_ok h" "publish_one e i h = Some h'"
  shows "buf (hub_chans h' i) = after_publish e h i \<and> (\<forall>j. j \<noteq> i \<longrightarrow> hub_chans h' j = hub_chans h j)
       \<and> hub_dropped h' = hub_dropped h + (if i \<in> overflowing e h then 1 else 0) \<and> hub_subs h' = hub_subs h"
proof (cases "hub_subs h i")
  case None
  then show ?thesis using assms by (auto simp: publish_one_def after_publish_def overflowing_def)
next
  case (Some s)
  note i = hub_okD [OF assms(1) Some]
  then show ?thesis
    using assms(2) Some gc.send_full [of "hub_chans h i" e] gc.send_room [of "hub_chans h i" e]
    by (cases "try_send e (hub_chans h i)")
      (auto simp: publish_one_def after_publish_def overflowing_def dest: gc.send_SentD split: if_splits)
qed

lemma publish_each_effect:
  "hub_ok h \<Longrightarrow> distinct ks \<Longrightarrow> publish_each e ks h = Some h' \<Longrightarrow>
   (\<forall>i. buf (hub_chans h' i) = (if i \<in> set ks then after_publish e h i else buf (hub_chans h i)))
   \<and> hub_dropped h' = hub_dropped h + card (overflowing e h \<inter> set ks)"
proof (induction ks arbitrary: h)
  case (Cons i ks)
  obtain h1 where h1: "publish_one e i h = Some h1" "hub_ok h1" "hub_subs h1 = hub_subs h"
    using publish_one_ok [OF Cons.prems(1), of e i] by blast
  note one = publish_one_effect [OF Cons.prems(1) h1(1)]
  have rest: "publish_each e ks h1 = Some h'" using Cons.prems(3) h1 by simp
  have IH: "(\<forall>j. buf (hub_chans h' j) = (if j \<in> set ks then after_publish e h1 j else buf (hub_chans h1 j)))"
    "hub_dropped h' = hub_dropped h1 + card (overflowing e h1 \<inter> set ks)"
    using Cons.IH [OF h1(2) _ rest] Cons.prems(2) by auto
  have same: "after_publish e h1 j = after_publish e h j" "(j \<in> overflowing e h1) = (j \<in> overflowing e h)"
    if "j \<noteq> i" for j
  proof -
    have "hub_chans h1 j = hub_chans h j" using one that by blast
    then show "after_publish e h1 j = after_publish e h j" "(j \<in> overflowing e h1) = (j \<in> overflowing e h)"
      by (simp_all add: after_publish_def overflowing_def h1(3) split: option.split)
  qed
  have ov: "overflowing e h1 \<inter> set ks = overflowing e h \<inter> set ks"
  proof (rule set_eqI)
    fix j
    show "j \<in> overflowing e h1 \<inter> set ks \<longleftrightarrow> j \<in> overflowing e h \<inter> set ks"
      using same(2) [of j] Cons.prems(2) by (cases "j = i") simp_all
  qed
  have "card (overflowing e h \<inter> set (i # ks)) = card (overflowing e h \<inter> set ks) + (if i \<in> overflowing e h then 1 else 0)"
    using Cons.prems(2) by (auto simp: Int_insert_right)
  moreover have "buf (hub_chans h' j) = (if j \<in> set (i # ks) then after_publish e h j else buf (hub_chans h j))" for j
    using IH(1) same(1) one Cons.prems(2) by (cases "j = i") auto
  ultimately show ?case using IH(2) ov one by simp
qed simp

end
