(* ===== verification/Delivery.thy ===== *)
theory Delivery
  imports Mime Snapshot Events
begin

text \<open>
  The delivery pipeline of the ingress server (\<open>src/api/ingress/server.go\<close>): its configuration, the
  slot pool that bounds the messages in flight, the job queue, the workers and the shutdown drain.
  \<open>QueueSize\<close> tokens circulate: a session holds one from before it reads DATA until it submits the
  job, the job holds it in the queue and in a worker, and the worker (or the drain) puts it back.
  The section on the interleaving makes every access to the shared server one step.
\<close>

section \<open>Configuration\<close>

record config =
  cf_addr :: string
  cf_hostname :: string
  cf_body_max :: int
  cf_store_body_max :: int
  cf_workers :: int
  cf_queue_size :: int
  cf_delivery_timeout :: duration
  cf_cache_refresh :: duration
  cf_session_timeout :: duration
  cf_command_max :: int

definition envString :: "(string \<Rightarrow> string) \<Rightarrow> string \<Rightarrow> string \<Rightarrow> string" where
  "envString env name fallback =
     (let value = trim_space (env name) in if value \<noteq> [] then value else fallback)"

definition envInt :: "(string \<Rightarrow> string) \<Rightarrow> string \<Rightarrow> int \<Rightarrow> int" where
  "envInt env name fallback =
     (let value = trim_space (env name) in
      if value = [] then fallback
      else case atoi value of None \<Rightarrow> fallback | Some v \<Rightarrow> v)"

fun firstNonEmpty :: "string list \<Rightarrow> string" where
  "firstNonEmpty [] = []"
| "firstNonEmpty (v # vs) = (if trim_space v \<noteq> [] then v else firstNonEmpty vs)"

definition ConfigFromEnv :: "(string \<Rightarrow> string) \<Rightarrow> string \<Rightarrow> config" where
  "ConfigFromEnv env hostname =
     \<lparr>cf_addr = envString env ''LMTP_ADDR'' ''0.0.0.0:2527'',
      cf_hostname = firstNonEmpty [hostname, envString env ''SMTP_HOSTNAME'' ''far-mail.local''],
      cf_body_max = envInt env ''INGRESS_BODY_MAX_BYTES'' 262144,
      cf_store_body_max = envInt env ''INGRESS_STORE_BODY_MAX_BYTES'' 65536,
      cf_workers = envInt env ''INGRESS_WORKERS'' 48,
      cf_queue_size = envInt env ''INGRESS_QUEUE_SIZE'' 2048,
      cf_delivery_timeout = wrap64 (envInt env ''INGRESS_DELIVERY_TIMEOUT_SECONDS'' 8 * second),
      cf_cache_refresh = wrap64 (envInt env ''INGRESS_CACHE_REFRESH_SECONDS'' 30 * second),
      cf_session_timeout = 300 * second,
      cf_command_max = 8192\<rparr>"

text \<open>The defaults \<open>NewServer\<close> puts in place of values that are missing or not positive.\<close>

definition normal_config :: "config \<Rightarrow> config" where
  "normal_config c =
     (let body_max = (if cf_body_max c \<le> 0 then 262144 else cf_body_max c);
          store_max = (if cf_store_body_max c \<le> 0 then 65536 else cf_store_body_max c) in
      \<lparr>cf_addr = (if cf_addr c = [] then ''0.0.0.0:2527'' else cf_addr c),
       cf_hostname = (if cf_hostname c = [] then ''far-mail.local'' else cf_hostname c),
       cf_body_max = body_max,
       cf_store_body_max = (if store_max > body_max then body_max else store_max),
       cf_workers = (if cf_workers c \<le> 0 then 48 else cf_workers c),
       cf_queue_size = (if cf_queue_size c \<le> 0 then 2048 else cf_queue_size c),
       cf_delivery_timeout = (if cf_delivery_timeout c \<le> 0 then 8 * second else cf_delivery_timeout c),
       cf_cache_refresh = (if cf_cache_refresh c \<le> 0 then 30 * second else cf_cache_refresh c),
       cf_session_timeout = (if cf_session_timeout c \<le> 0 then 300 * second else cf_session_timeout c),
       cf_command_max = (if cf_command_max c \<le> 0 then 8192 else cf_command_max c)\<rparr>)"

definition config_ok :: "config \<Rightarrow> bool" where
  "config_ok c =
     (cf_addr c \<noteq> [] \<and> cf_hostname c \<noteq> [] \<and> 0 < cf_store_body_max c \<and> cf_store_body_max c \<le> cf_body_max c
      \<and> 0 < cf_workers c \<and> 0 < cf_queue_size c \<and> 0 < cf_delivery_timeout c \<and> 0 < cf_cache_refresh c
      \<and> 0 < cf_session_timeout c \<and> 0 < cf_command_max c)"

lemma normal_config_ok: "config_ok (normal_config c)"
  by (simp add: config_ok_def normal_config_def Let_def second_def)

lemma normal_config_id: "config_ok c \<Longrightarrow> normal_config c = c"
  by (simp add: config_ok_def normal_config_def Let_def)

section \<open>The server\<close>

text \<open>A job's result channel is named by the job's id, and \<open>sv_results\<close> holds the channels.  The
  counters are the server's atomics, except the ones that only sum up durations.\<close>

datatype deliveryStatus = DeliveryOK | DeliveryTempFail | DeliveryPermFail

record job =
  j_id :: nat
  j_resolved :: resolvedRecipient
  j_sender :: string
  j_raw :: string

record server =
  sv_cfg :: config
  sv_jobs :: "job chan"
  sv_slots :: "unit chan"
  sv_snap :: "snapshot option"
  sv_hub :: hub
  sv_results :: "nat \<Rightarrow> deliveryStatus chan"
  connectionsAccepted :: nat
  activeConnections :: nat
  jobsSubmitted :: nat
  jobsDelivered :: nat
  jobsTempFailed :: nat
  jobsPermFailed :: nat
  queueFull :: nat
  queueHighWater :: nat
  inFlightHighWater :: nat
  oversizedMessages :: nat
  deliveryTimeouts :: nat
  jobsCancelled :: nat
  dataBytes :: nat
  activeWorkers :: nat
  parseOps :: nat
  dbOps :: nat

definition queue_size :: "server \<Rightarrow> nat" where
  "queue_size sv = nat (cf_queue_size (sv_cfg sv))"

definition NewServer :: "config \<Rightarrow> server" where
  "NewServer c =
     (let cfg = normal_config c; n = nat (cf_queue_size cfg) in
      \<lparr>sv_cfg = cfg,
       sv_jobs = chan_make n,
       sv_slots = (chan_make n)\<lparr>buf := replicate n ()\<rparr>,
       sv_snap = None, sv_hub = hub_init, sv_results = (\<lambda>_. chan_make 1),
       connectionsAccepted = 0, activeConnections = 0, jobsSubmitted = 0, jobsDelivered = 0,
       jobsTempFailed = 0, jobsPermFailed = 0, queueFull = 0, queueHighWater = 0,
       inFlightHighWater = 0, oversizedMessages = 0, deliveryTimeouts = 0, jobsCancelled = 0,
       dataBytes = 0, activeWorkers = 0, parseOps = 0, dbOps = 0\<rparr>)"

definition recordHighWater :: "nat \<Rightarrow> nat \<Rightarrow> nat" where
  "recordHighWater previous value = (if value > previous then value else previous)"

definition acquireSlot :: "server \<Rightarrow> bool \<times> server" where
  "acquireSlot sv =
     (case try_recv (sv_slots sv) of
        Got _ c \<Rightarrow>
          (True, sv\<lparr>sv_slots := c,
                    inFlightHighWater := recordHighWater (inFlightHighWater sv) (queue_size sv - length (buf c))\<rparr>)
      | _ \<Rightarrow> (False, sv))"

text \<open>\<open>s.slots <- struct{}{}\<close>; \<open>None\<close> is a send that blocks.\<close>

definition releaseSlot :: "server \<Rightarrow> server option" where
  "releaseSlot sv =
     (case try_send () (sv_slots sv) of
        Sent c \<Rightarrow> Some (sv\<lparr>sv_slots := c\<rparr>)
      | _ \<Rightarrow> None)"

text \<open>\<open>submitJob\<close> selects between the send and the end of the job's context.  When both are ready Go
  picks either; \<open>prefer_send\<close> is its pick.\<close>

datatype submitted = Submitted server | Refused | SubmitWaits

definition submitJob :: "bool \<Rightarrow> bool \<Rightarrow> job \<Rightarrow> server \<Rightarrow> submitted" where
  "submitJob ctx_done prefer_send job sv =
     (case try_send job (sv_jobs sv) of
        Sent c \<Rightarrow>
          if ctx_done \<and> \<not> prefer_send then Refused
          else Submitted (sv\<lparr>sv_jobs := c, queueHighWater := recordHighWater (queueHighWater sv) (length (buf c))\<rparr>)
      | _ \<Rightarrow> if ctx_done then Refused else SubmitWaits)"

definition sendJobResult :: "job \<Rightarrow> deliveryStatus \<Rightarrow> server \<Rightarrow> server" where
  "sendJobResult job r sv =
     (case try_send r (sv_results sv (j_id job)) of
        Sent c \<Rightarrow> sv\<lparr>sv_results := (sv_results sv)(j_id job := c)\<rparr>
      | _ \<Rightarrow> sv)"

section \<open>A worker\<close>

text \<open>The middle of \<open>handleJob\<close>: the context check, the parse and the insert.  \<open>parse\<close> is
  \<open>parseMessage\<close>, \<open>store\<close> the store's \<open>InsertEmailResolved\<close> over its state.\<close>

datatype attempt = Expired | StoreFailed | Undeliverable | Stored "mailbox_email_event option"

definition delivery_of :: "job \<Rightarrow> parsedMessage \<Rightarrow> ingress_delivery" where
  "delivery_of job parsed =
     \<lparr>dl_recipient = rr_address (j_resolved job), dl_local_part = rr_localPart (j_resolved job),
      dl_domain_name = rr_domainName (j_resolved job), dl_account_id = rr_accountID (j_resolved job),
      dl_domain_id = rr_domainID (j_resolved job),
      dl_mailbox_ttl_minutes = rr_mailboxTTLMinutes (j_resolved job),
      dl_sender = pm_sender parsed, dl_subject = pm_subject parsed,
      dl_body_text = pm_body_text parsed, dl_body_html = pm_body_html parsed,
      dl_has_attachments = pm_has_attachments parsed, dl_raw = [],
      dl_size_bytes = int (length (j_raw job))\<rparr>"

definition attempt_job ::
    "bool \<Rightarrow> (string \<Rightarrow> string \<Rightarrow> int \<Rightarrow> parsedMessage)
     \<Rightarrow> (ingress_delivery \<Rightarrow> 'd \<Rightarrow> (string, mailbox_email_event option \<times> bool) result \<times> 'd)
     \<Rightarrow> config \<Rightarrow> job \<Rightarrow> 'd \<Rightarrow> attempt \<times> 'd" where
  "attempt_job ctx_err parse store cfg job db =
     (if ctx_err then (Expired, db)
      else
        (let parsed = parse (j_raw job) (j_sender job) (cf_store_body_max cfg);
             (res, db') = store (delivery_of job parsed) db in
         (case res of
            Inl _ \<Rightarrow> StoreFailed
          | Inr (event, delivered) \<Rightarrow> if \<not> delivered then Undeliverable else Stored event, db')))"

definition begin_job :: "server \<Rightarrow> server" where
  "begin_job sv = sv\<lparr>activeWorkers := Suc (activeWorkers sv)\<rparr>"

text \<open>The parse and the insert are counted when they are done.\<close>

definition note_parse :: "server \<Rightarrow> server" where
  "note_parse sv = sv\<lparr>parseOps := Suc (parseOps sv)\<rparr>"

definition note_insert :: "server \<Rightarrow> server" where
  "note_insert sv = sv\<lparr>dbOps := Suc (dbOps sv)\<rparr>"

text \<open>What \<open>handleJob\<close> does with the outcome: its counter, the event of a stored mail, and the result for the session.\<close>

fun count_outcome :: "attempt \<Rightarrow> server \<Rightarrow> server" where
  "count_outcome Expired sv = sv\<lparr>jobsTempFailed := Suc (jobsTempFailed sv)\<rparr>"
| "count_outcome StoreFailed sv = sv\<lparr>jobsTempFailed := Suc (jobsTempFailed sv)\<rparr>"
| "count_outcome Undeliverable sv = sv\<lparr>jobsPermFailed := Suc (jobsPermFailed sv)\<rparr>"
| "count_outcome (Stored event) sv = sv\<lparr>jobsDelivered := Suc (jobsDelivered sv)\<rparr>"

fun outcome_event :: "attempt \<Rightarrow> mailbox_email_event option" where
  "outcome_event (Stored event) = event"
| "outcome_event _ = None"

fun outcome_status :: "attempt \<Rightarrow> deliveryStatus" where
  "outcome_status Expired = DeliveryTempFail"
| "outcome_status StoreFailed = DeliveryTempFail"
| "outcome_status Undeliverable = DeliveryPermFail"
| "outcome_status (Stored event) = DeliveryOK"

text \<open>Its deferred calls: the worker count goes down, then the slot goes back.\<close>

definition end_job :: "server \<Rightarrow> server" where
  "end_job sv = sv\<lparr>activeWorkers := activeWorkers sv - 1\<rparr>"

text \<open>The whole of it, run without interruption.  \<open>None\<close> is a panic in the publish or a blocked send to the slots.\<close>

definition settle_job :: "nat list \<Rightarrow> attempt \<Rightarrow> job \<Rightarrow> server \<Rightarrow> server option" where
  "settle_job order a job sv0 =
     (let sv = count_outcome a (if a = Expired then sv0 else note_insert (note_parse sv0)) in
      case outcome_event a of
        None \<Rightarrow> Some (sendJobResult job (outcome_status a) sv)
      | Some e \<Rightarrow>
          (case publishEmailEvent order e (sv_hub sv) of
             None \<Rightarrow> None
           | Some h \<Rightarrow> Some (sendJobResult job (outcome_status a) (sv\<lparr>sv_hub := h\<rparr>))))"

definition finish_job :: "nat list \<Rightarrow> attempt \<Rightarrow> job \<Rightarrow> server \<Rightarrow> server option" where
  "finish_job order a job sv =
     (case settle_job order a job sv of
        None \<Rightarrow> None
      | Some sv' \<Rightarrow> releaseSlot (end_job sv'))"

definition handleJob ::
    "bool \<Rightarrow> (string \<Rightarrow> string \<Rightarrow> int \<Rightarrow> parsedMessage)
     \<Rightarrow> (ingress_delivery \<Rightarrow> 'd \<Rightarrow> (string, mailbox_email_event option \<times> bool) result \<times> 'd)
     \<Rightarrow> nat list \<Rightarrow> job \<Rightarrow> server \<Rightarrow> 'd \<Rightarrow> (server \<times> 'd) option" where
  "handleJob ctx_err parse store order job sv db =
     (let (a, db') = attempt_job ctx_err parse store (sv_cfg sv) job db in
      map_option (\<lambda>sv'. (sv', db')) (finish_job order a job (begin_job sv)))"

section \<open>Shutdown\<close>

text \<open>One turn of \<open>drainQueuedJobs\<close> on a job, and the loop until the queue is empty.\<close>

definition cancel_job :: "job \<Rightarrow> server \<Rightarrow> server option" where
  "cancel_job job sv =
     releaseSlot (sendJobResult job DeliveryTempFail
       (sv\<lparr>jobsCancelled := Suc (jobsCancelled sv), jobsTempFailed := Suc (jobsTempFailed sv)\<rparr>))"

fun drain_jobs :: "nat \<Rightarrow> server \<Rightarrow> server option" where
  "drain_jobs 0 sv = Some sv"
| "drain_jobs (Suc n) sv =
     (case try_recv (sv_jobs sv) of
        Got job c \<Rightarrow> Option.bind (cancel_job job (sv\<lparr>sv_jobs := c\<rparr>)) (drain_jobs n)
      | _ \<Rightarrow> Some sv)"

text \<open>Nobody sends to the queue any more when the drain runs, so as many turns as there are jobs
  are the whole loop.\<close>

definition drainQueuedJobs :: "server \<Rightarrow> server option" where
  "drainQueuedJobs sv = drain_jobs (length (buf (sv_jobs sv))) sv"

section \<open>Statistics\<close>

record stats =
  st_queue_depth :: nat
  st_in_flight :: nat
  st_queue_high_water :: nat
  st_in_flight_high_water :: nat
  st_active_workers :: nat
  st_jobs_submitted :: nat
  st_jobs_delivered :: nat
  st_jobs_temp_failed :: nat
  st_jobs_perm_failed :: nat
  st_queue_full :: nat
  st_jobs_cancelled :: nat
  st_snapshot_domains :: nat
  st_event_subscribers :: nat
  st_events_dropped :: nat

definition Stats :: "server \<Rightarrow> stats" where
  "Stats sv =
     \<lparr>st_queue_depth = length (buf (sv_jobs sv)),
      st_in_flight = queue_size sv - length (buf (sv_slots sv)),
      st_queue_high_water = queueHighWater sv, st_in_flight_high_water = inFlightHighWater sv,
      st_active_workers = activeWorkers sv, st_jobs_submitted = jobsSubmitted sv,
      st_jobs_delivered = jobsDelivered sv, st_jobs_temp_failed = jobsTempFailed sv,
      st_jobs_perm_failed = jobsPermFailed sv, st_queue_full = queueFull sv,
      st_jobs_cancelled = jobsCancelled sv,
      st_snapshot_domains = (case sv_snap sv of None \<Rightarrow> 0 | Some s \<Rightarrow> length (domains s)),
      st_event_subscribers = eventSubscriberCount (sv_hub sv),
      st_events_dropped = hub_dropped (sv_hub sv)\<rparr>"

section \<open>Effects of the server operations\<close>

lemma acquireSlot_True:
  assumes "acquireSlot sv = (True, sv')"
  shows "\<exists>c. buf (sv_slots sv) = () # buf c \<and> c = (sv_slots sv)\<lparr>buf := tl (buf (sv_slots sv))\<rparr>
    \<and> sv' = sv\<lparr>sv_slots := c, inFlightHighWater := recordHighWater (inFlightHighWater sv) (queue_size sv - length (buf c))\<rparr>"
  using assms by (auto simp: acquireSlot_def try_recv_def split: list.splits if_splits)

lemma acquireSlot_False: "acquireSlot sv = (False, sv') \<Longrightarrow> sv' = sv"
  by (auto simp: acquireSlot_def split: received.splits)

lemma releaseSlot_Some:
  "releaseSlot sv = Some sv' \<Longrightarrow> \<exists>c. try_send () (sv_slots sv) = Sent c \<and> sv' = sv\<lparr>sv_slots := c\<rparr>"
  by (auto simp: releaseSlot_def split: sent.splits)

lemma submitJob_Submitted:
  "submitJob d p job sv = Submitted sv' \<Longrightarrow>
   \<exists>c. try_send job (sv_jobs sv) = Sent c \<and>
     sv' = sv\<lparr>sv_jobs := c, queueHighWater := recordHighWater (queueHighWater sv) (length (buf c))\<rparr>"
  by (auto simp: submitJob_def split: sent.splits if_splits)

lemma try_recv_Got: "try_recv c = Got x d \<longleftrightarrow> buf c = x # buf d \<and> d = c\<lparr>buf := tl (buf c)\<rparr>"
  by (auto simp: try_recv_def split: list.splits)

text \<open>A small configuration and a recipient, for the witnesses.\<close>

definition tiny_config :: config where
  "tiny_config =
     \<lparr>cf_addr = ''a'', cf_hostname = ''h'', cf_body_max = 10, cf_store_body_max = 10, cf_workers = 1,
      cf_queue_size = 1, cf_delivery_timeout = 1, cf_cache_refresh = 1, cf_session_timeout = 1, cf_command_max = 10\<rparr>"

definition tiny_recipient :: resolvedRecipient where
  "tiny_recipient =
     \<lparr>rr_address = ''a@b'', rr_localPart = ''a'', rr_domainName = ''b'', rr_domainID = 1, rr_accountID = 1,
      rr_mailboxTTLMinutes = 30\<rparr>"

end
