(* ===== verification/Pipeline.thy ===== *)
theory Pipeline
  imports Delivery
begin

text \<open>
  The delivery pipeline as a transition system: the connections of the ingress server, its workers, the
  subscribers to its events and its shutdown, interleaved at their accesses to the shared server
  (\<open>src/api/ingress/server.go\<close>, \<open>handleDATA\<close>, \<open>worker\<close>, \<open>handleJob\<close>, \<open>Shutdown\<close>; \<open>events.go\<close>).  The invariants say where
  each slot is, where each job is, and that no send to the slot pool, the queue, a result channel or a subscriber ever
  blocks, panics or loses a result.  A counter that only one step touches is raised in that step; the drain runs when
  every connection and worker has returned, so a turn of it is one step.
\<close>

text \<open>Where a connection is in \<open>handleDATA\<close>: outside it, holding a slot, having pushed its job but not
  yet counted it, waiting for the result; or its goroutine has returned.\<close>

datatype phase = Idle | Reserved | Pushed nat | Waiting nat | Gone

text \<open>Where a worker is in \<open>handleJob\<close>: without a job, just received it, counted as active, message parsed, attempt done, outcome
  counted, event published, result sent, and no longer counted as active but with the slot still to give back.\<close>

datatype work =
  Free | Taken job | Running job | Parsed job | Attempted job attempt | Counted job attempt | Published job attempt
| Replied job | Releasing job

record sys =
  sy_sv :: server
  sy_conns :: "phase list"
  sy_workers :: "work list"
  sy_next :: nat
  sy_down :: bool

definition init_sys :: "config \<Rightarrow> sys" where
  "init_sys c =
     \<lparr>sy_sv = NewServer c, sy_conns = [],
      sy_workers = replicate (nat (cf_workers (normal_config c))) Free, sy_next = 0, sy_down = False\<rparr>"

definition cnt :: "('a \<Rightarrow> bool) \<Rightarrow> 'a list \<Rightarrow> nat" where
  "cnt P xs = length (filter P xs)"

text \<open>The job whose result is still to be sent, the job whose outcome is still to be counted, and the active workers.\<close>

fun owes :: "work \<Rightarrow> job option" where
  "owes (Taken j) = Some j"
| "owes (Running j) = Some j"
| "owes (Parsed j) = Some j"
| "owes (Attempted j a) = Some j"
| "owes (Counted j a) = Some j"
| "owes (Published j a) = Some j"
| "owes _ = None"

definition runs :: "nat \<Rightarrow> work \<Rightarrow> bool" where
  "runs i w = (case owes w of None \<Rightarrow> False | Some j \<Rightarrow> j_id j = i)"

fun uncounted :: "work \<Rightarrow> bool" where
  "uncounted (Taken j) = True"
| "uncounted (Running j) = True"
| "uncounted (Parsed j) = True"
| "uncounted (Attempted j a) = True"
| "uncounted _ = False"

fun active :: "work \<Rightarrow> bool" where
  "active Free = False"
| "active (Taken j) = False"
| "active (Releasing j) = False"
| "active _ = True"

text \<open>The outcome whose result a worker may send next: at once, or after the event of a stored mail is published.\<close>

fun to_reply :: "work \<Rightarrow> (job \<times> attempt) option" where
  "to_reply (Counted j a) = (if outcome_event a = None then Some (j, a) else None)"
| "to_reply (Published j a) = Some (j, a)"
| "to_reply _ = None"

text \<open>What may follow once a reserved slot is given back without a job: an oversized message, a
  refused submission at shutdown, or a broken connection.\<close>

datatype give_back = Broken | Oversized | ShuttingDown

definition note_give_back :: "give_back \<Rightarrow> server \<Rightarrow> server" where
  "note_give_back g sv =
     (case g of
        Broken \<Rightarrow> sv
      | Oversized \<Rightarrow> sv\<lparr>oversizedMessages := Suc (oversizedMessages sv)\<rparr>
      | ShuttingDown \<Rightarrow> sv\<lparr>jobsCancelled := Suc (jobsCancelled sv)\<rparr>)"

definition fresh_job :: "sys \<Rightarrow> resolvedRecipient \<Rightarrow> string \<Rightarrow> string \<Rightarrow> job" where
  "fresh_job s r sender raw = \<lparr>j_id = sy_next s, j_resolved = r, j_sender = sender, j_raw = raw\<rparr>"

inductive step :: "sys \<Rightarrow> sys \<Rightarrow> bool" where
  accept: "step s (s\<lparr>sy_conns := sy_conns s @ [Idle]\<rparr>)"
| acquire: "i < length (sy_conns s) \<Longrightarrow> sy_conns s ! i = Idle \<Longrightarrow> acquireSlot (sy_sv s) = (True, sv) \<Longrightarrow>
    step s (s\<lparr>sy_sv := sv, sy_conns := (sy_conns s)[i := Reserved]\<rparr>)"
| full: "i < length (sy_conns s) \<Longrightarrow> sy_conns s ! i = Idle \<Longrightarrow> acquireSlot (sy_sv s) = (False, sv) \<Longrightarrow>
    step s (s\<lparr>sy_sv := sv\<lparr>queueFull := Suc (queueFull sv)\<rparr>\<rparr>)"
| give_back: "i < length (sy_conns s) \<Longrightarrow> sy_conns s ! i = Reserved \<Longrightarrow>
    releaseSlot (note_give_back g (sy_sv s)) = Some sv \<Longrightarrow> p \<in> {Idle, Gone} \<Longrightarrow>
    step s (s\<lparr>sy_sv := sv, sy_conns := (sy_conns s)[i := p]\<rparr>)"
| submit: "i < length (sy_conns s) \<Longrightarrow> sy_conns s ! i = Reserved \<Longrightarrow>
    submitJob ctx_done pick (fresh_job s r sender raw) (sy_sv s) = Submitted sv \<Longrightarrow>
    step s (s\<lparr>sy_sv := sv, sy_conns := (sy_conns s)[i := Pushed (sy_next s)], sy_next := Suc (sy_next s)\<rparr>)"
| counted: "i < length (sy_conns s) \<Longrightarrow> sy_conns s ! i = Pushed j \<Longrightarrow>
    step s (s\<lparr>sy_sv := (sy_sv s)\<lparr>jobsSubmitted := Suc (jobsSubmitted (sy_sv s))\<rparr>,
              sy_conns := (sy_conns s)[i := Waiting j]\<rparr>)"
| take_job: "w < length (sy_workers s) \<Longrightarrow> sy_workers s ! w = Free \<Longrightarrow>
    try_recv (sv_jobs (sy_sv s)) = Got job c \<Longrightarrow>
    step s (s\<lparr>sy_sv := (sy_sv s)\<lparr>sv_jobs := c\<rparr>, sy_workers := (sy_workers s)[w := Taken job]\<rparr>)"
| begin_work: "w < length (sy_workers s) \<Longrightarrow> sy_workers s ! w = Taken job \<Longrightarrow>
    step s (s\<lparr>sy_sv := begin_job (sy_sv s), sy_workers := (sy_workers s)[w := Running job]\<rparr>)"
| expire: "w < length (sy_workers s) \<Longrightarrow> sy_workers s ! w = Running job \<Longrightarrow>
    step s (s\<lparr>sy_workers := (sy_workers s)[w := Attempted job Expired]\<rparr>)"
| parse: "w < length (sy_workers s) \<Longrightarrow> sy_workers s ! w = Running job \<Longrightarrow>
    step s (s\<lparr>sy_sv := note_parse (sy_sv s), sy_workers := (sy_workers s)[w := Parsed job]\<rparr>)"
| insert_mail: "w < length (sy_workers s) \<Longrightarrow> sy_workers s ! w = Parsed job \<Longrightarrow> a \<noteq> Expired \<Longrightarrow>
    step s (s\<lparr>sy_sv := note_insert (sy_sv s), sy_workers := (sy_workers s)[w := Attempted job a]\<rparr>)"
| count_job: "w < length (sy_workers s) \<Longrightarrow> sy_workers s ! w = Attempted job a \<Longrightarrow>
    step s (s\<lparr>sy_sv := count_outcome a (sy_sv s), sy_workers := (sy_workers s)[w := Counted job a]\<rparr>)"
| publish: "w < length (sy_workers s) \<Longrightarrow> sy_workers s ! w = Counted job a \<Longrightarrow> outcome_event a = Some e \<Longrightarrow>
    distinct order \<Longrightarrow> set order = dom (hub_subs (sv_hub (sy_sv s))) \<Longrightarrow>
    publishEmailEvent order e (sv_hub (sy_sv s)) = Some h \<Longrightarrow>
    step s (s\<lparr>sy_sv := (sy_sv s)\<lparr>sv_hub := h\<rparr>, sy_workers := (sy_workers s)[w := Published job a]\<rparr>)"
| reply: "w < length (sy_workers s) \<Longrightarrow> to_reply (sy_workers s ! w) = Some (job, a) \<Longrightarrow>
    step s (s\<lparr>sy_sv := sendJobResult job (outcome_status a) (sy_sv s), sy_workers := (sy_workers s)[w := Replied job]\<rparr>)"
| end_work: "w < length (sy_workers s) \<Longrightarrow> sy_workers s ! w = Replied job \<Longrightarrow>
    step s (s\<lparr>sy_sv := end_job (sy_sv s), sy_workers := (sy_workers s)[w := Releasing job]\<rparr>)"
| put_back: "w < length (sy_workers s) \<Longrightarrow> sy_workers s ! w = Releasing job \<Longrightarrow> releaseSlot (sy_sv s) = Some sv \<Longrightarrow>
    step s (s\<lparr>sy_sv := sv, sy_workers := (sy_workers s)[w := Free]\<rparr>)"
| subscribe_hub: "step s (s\<lparr>sy_sv := (sy_sv s)\<lparr>sv_hub := snd (subscribe m (sv_hub (sy_sv s)))\<rparr>\<rparr>)"
| unsubscribe_hub: "step s (s\<lparr>sy_sv := (sy_sv s)\<lparr>sv_hub := unsubscribe k (sv_hub (sy_sv s))\<rparr>\<rparr>)"
| read_event: "step s (s\<lparr>sy_sv := (sy_sv s)\<lparr>sv_hub := take_event k (sv_hub (sy_sv s))\<rparr>\<rparr>)"
| receive: "i < length (sy_conns s) \<Longrightarrow> sy_conns s ! i = Waiting j \<Longrightarrow>
    try_recv (sv_results (sy_sv s) j) = Got r c \<Longrightarrow>
    step s (s\<lparr>sy_sv := (sy_sv s)\<lparr>sv_results := (sv_results (sy_sv s))(j := c)\<rparr>,
              sy_conns := (sy_conns s)[i := Idle]\<rparr>)"
| timed_out: "i < length (sy_conns s) \<Longrightarrow> sy_conns s ! i = Waiting j \<Longrightarrow>
    step s (s\<lparr>sy_sv := (sy_sv s)\<lparr>deliveryTimeouts := Suc (deliveryTimeouts (sy_sv s))\<rparr>,
              sy_conns := (sy_conns s)[i := Idle]\<rparr>)"
| hang_up: "i < length (sy_conns s) \<Longrightarrow> sy_conns s ! i = Idle \<Longrightarrow>
    step s (s\<lparr>sy_conns := (sy_conns s)[i := Gone]\<rparr>)"
| shutdown: "step s (s\<lparr>sy_down := True\<rparr>)"
| drain: "sy_down s \<Longrightarrow> list_all (\<lambda>p. p = Gone) (sy_conns s) \<Longrightarrow> list_all (\<lambda>w. w = Free) (sy_workers s) \<Longrightarrow>
    try_recv (sv_jobs (sy_sv s)) = Got job c \<Longrightarrow>
    cancel_job job ((sy_sv s)\<lparr>sv_jobs := c\<rparr>) = Some sv \<Longrightarrow>
    step s (s\<lparr>sy_sv := sv\<rparr>)"

inductive reachable :: "config \<Rightarrow> sys \<Rightarrow> bool" for c where
  init: "reachable c (init_sys c)"
| step: "reachable c s \<Longrightarrow> step s s' \<Longrightarrow> reachable c s'"

section \<open>Counting\<close>

lemma cnt_simps [simp]:
  "cnt P [] = 0" "cnt P (x # xs) = (if P x then Suc (cnt P xs) else cnt P xs)"
  "cnt P (xs @ ys) = cnt P xs + cnt P ys"
  by (simp_all add: cnt_def)

lemma cnt_update:
  "i < length xs \<Longrightarrow> cnt P (xs[i := y]) + (if P (xs ! i) then 1 else 0) = cnt P xs + (if P y then 1 else 0)"
proof (induction xs arbitrary: i)
  case (Cons x xs)
  then show ?case by (cases i) auto
qed simp

lemma cnt_replicate [simp]: "cnt P (replicate n x) = (if P x then n else 0)"
  by (induction n) auto

lemma cnt_pos: "i < length xs \<Longrightarrow> P (xs ! i) \<Longrightarrow> 0 < cnt P xs"
  by (induction xs arbitrary: i) (auto simp: nth_Cons split: nat.splits)

lemma cnt_zero: "list_all (\<lambda>x. \<not> P x) xs \<Longrightarrow> cnt P xs = 0"
  by (induction xs) auto

section \<open>The invariant\<close>

abbreviation slots_free :: "sys \<Rightarrow> nat" where
  "slots_free s \<equiv> length (buf (sv_slots (sy_sv s)))"

abbreviation queued :: "sys \<Rightarrow> nat" where
  "queued s \<equiv> length (buf (sv_jobs (sy_sv s)))"

abbreviation busy :: "sys \<Rightarrow> nat" where
  "busy s \<equiv> cnt (\<lambda>w. w \<noteq> Free) (sy_workers s)"

abbreviation reserved :: "sys \<Rightarrow> nat" where
  "reserved s \<equiv> cnt (\<lambda>p. p = Reserved) (sy_conns s)"

abbreviation pushed :: "sys \<Rightarrow> nat" where
  "pushed s \<equiv> cnt (\<lambda>p. \<exists>j. p = Pushed j) (sy_conns s)"

definition in_flight :: "sys \<Rightarrow> nat \<Rightarrow> nat" where
  "in_flight s i = cnt (\<lambda>j. j_id j = i) (buf (sv_jobs (sy_sv s))) + cnt (runs i) (sy_workers s)"

definition chans_ok :: "sys \<Rightarrow> bool" where
  "chans_ok s =
     (cap (sv_slots (sy_sv s)) = queue_size (sy_sv s) \<and> \<not> closed (sv_slots (sy_sv s))
      \<and> cap (sv_jobs (sy_sv s)) = queue_size (sy_sv s) \<and> \<not> closed (sv_jobs (sy_sv s))
      \<and> (\<forall>i. cap (sv_results (sy_sv s) i) = 1 \<and> \<not> closed (sv_results (sy_sv s) i))
      \<and> hub_ok (sv_hub (sy_sv s)))"

definition slots_ok :: "sys \<Rightarrow> bool" where
  "slots_ok s = (slots_free s + reserved s + queued s + busy s = queue_size (sy_sv s))"

definition ids_ok :: "sys \<Rightarrow> bool" where
  "ids_ok s =
     (\<forall>i. in_flight s i + length (buf (sv_results (sy_sv s) i)) \<le> (if i < sy_next s then 1 else 0))"

definition counters_ok :: "sys \<Rightarrow> bool" where
  "counters_ok s =
     (let sv = sy_sv s in
      activeWorkers sv = cnt active (sy_workers s)
      \<and> jobsSubmitted sv + pushed s =
          jobsDelivered sv + jobsTempFailed sv + jobsPermFailed sv + queued s + cnt uncounted (sy_workers s))"

definition pipeline_ok :: "sys \<Rightarrow> bool" where
  "pipeline_ok s = (chans_ok s \<and> slots_ok s \<and> ids_ok s \<and> counters_ok s)"

lemmas pipeline_defs = pipeline_ok_def chans_ok_def slots_ok_def ids_ok_def counters_ok_def in_flight_def

lemma init_ok: "pipeline_ok (init_sys c)"
  by (simp add: pipeline_defs init_sys_def NewServer_def Let_def queue_size_def runs_def hub_init_ok)

section \<open>Slots and results\<close>

definition with_slot :: "unit chan \<Rightarrow> unit chan" where
  "with_slot c = c\<lparr>buf := buf c @ [()]\<rparr>"

lemma with_slot_simps [simp]:
  "length (buf (with_slot c)) = Suc (length (buf c))" "cap (with_slot c) = cap c" "closed (with_slot c) = closed c"
  by (simp_all add: with_slot_def)

lemma releaseSlot_effect:
  "\<not> closed (sv_slots sv) \<Longrightarrow> releaseSlot sv = Some sv' \<longleftrightarrow>
     length (buf (sv_slots sv)) < cap (sv_slots sv) \<and> sv' = sv\<lparr>sv_slots := with_slot (sv_slots sv)\<rparr>"
  by (auto simp: releaseSlot_def try_send_def with_slot_def)

lemma sendJobResult_simps [simp]:
  "sv_jobs (sendJobResult j r sv) = sv_jobs sv" "sv_slots (sendJobResult j r sv) = sv_slots sv"
  "sv_cfg (sendJobResult j r sv) = sv_cfg sv" "sv_hub (sendJobResult j r sv) = sv_hub sv"
  "queue_size (sendJobResult j r sv) = queue_size sv"
  "jobsSubmitted (sendJobResult j r sv) = jobsSubmitted sv"
  "jobsDelivered (sendJobResult j r sv) = jobsDelivered sv"
  "jobsTempFailed (sendJobResult j r sv) = jobsTempFailed sv"
  "jobsPermFailed (sendJobResult j r sv) = jobsPermFailed sv"
  "activeWorkers (sendJobResult j r sv) = activeWorkers sv"
  by (simp_all add: sendJobResult_def queue_size_def split: sent.split)

lemma sendJobResult_results:
  "sv_results (sendJobResult j r sv) =
     (case try_send r (sv_results sv (j_id j)) of Sent c \<Rightarrow> (sv_results sv)(j_id j := c) | _ \<Rightarrow> sv_results sv)"
  by (simp add: sendJobResult_def split: sent.split)

section \<open>Preservation\<close>

text \<open>A result channel gets a result only for a job in flight, so it is empty then.\<close>

lemma result_room:
  assumes "cap (rs (j_id j)) = 1" "\<not> closed (rs (j_id j))" "buf (rs (j_id j)) = []" "sv_results sv = rs"
  shows "buf (sv_results (sendJobResult j r sv) i) = (if i = j_id j then [r] else buf (rs i))"
    "cap (sv_results (sendJobResult j r sv) i) = cap (rs i)"
    "closed (sv_results (sendJobResult j r sv) i) = closed (rs i)"
  using assms by (simp_all add: sendJobResult_results try_send_def)

lemma in_flight_empty:
  assumes "ids_ok s" "0 < in_flight s i" shows "buf (sv_results (sy_sv s) i) = []"
proof -
  have "in_flight s i + length (buf (sv_results (sy_sv s) i)) \<le> (if i < sy_next s then 1 else 0)"
    using assms(1) by (simp add: ids_ok_def)
  also have "\<dots> \<le> 1" by simp
  finally have "length (buf (sv_results (sy_sv s) i)) = 0" using assms(2) by linarith
  then show ?thesis by simp
qed

lemma queue_size_simps [simp]:
  "queue_size (sv\<lparr>sv_slots := a\<rparr>) = queue_size sv" "queue_size (sv\<lparr>sv_jobs := b\<rparr>) = queue_size sv"
  "queue_size (sv\<lparr>sv_results := c\<rparr>) = queue_size sv" "queue_size (sv\<lparr>inFlightHighWater := n\<rparr>) = queue_size sv"
  "queue_size (sv\<lparr>queueHighWater := n\<rparr>) = queue_size sv" "queue_size (sv\<lparr>queueFull := n\<rparr>) = queue_size sv"
  "queue_size (sv\<lparr>jobsSubmitted := n\<rparr>) = queue_size sv" "queue_size (sv\<lparr>deliveryTimeouts := n\<rparr>) = queue_size sv"
  "queue_size (sv\<lparr>jobsCancelled := n\<rparr>) = queue_size sv" "queue_size (sv\<lparr>jobsTempFailed := n\<rparr>) = queue_size sv"
  "queue_size (sv\<lparr>oversizedMessages := n\<rparr>) = queue_size sv" "queue_size (sv\<lparr>activeWorkers := n\<rparr>) = queue_size sv"
  "queue_size (sv\<lparr>dataBytes := n\<rparr>) = queue_size sv"
  by (simp_all add: queue_size_def)

lemma acquire_ok:
  assumes "pipeline_ok s" "i < length (sy_conns s)" "sy_conns s ! i = Idle" "acquireSlot (sy_sv s) = (True, sv)"
  shows "pipeline_ok (s\<lparr>sy_sv := sv, sy_conns := (sy_conns s)[i := Reserved]\<rparr>)"
proof -
  obtain c where c: "buf (sv_slots (sy_sv s)) = () # buf c" "c = (sv_slots (sy_sv s))\<lparr>buf := tl (buf (sv_slots (sy_sv s)))\<rparr>"
    and sv: "sv = (sy_sv s)\<lparr>sv_slots := c, inFlightHighWater := recordHighWater (inFlightHighWater (sy_sv s)) (queue_size (sy_sv s) - length (buf c))\<rparr>"
    using acquireSlot_True [OF assms(4)] by blast
  have "cap c = cap (sv_slots (sy_sv s))" "closed c = closed (sv_slots (sy_sv s))"
    by (simp_all add: c(2))
  moreover have "slots_free s = Suc (length (buf c))" by (simp only: c(1) list.size)
  ultimately show ?thesis
    using assms(1) cnt_update [OF assms(2), of "\<lambda>p. p = Reserved" Reserved]
      cnt_update [OF assms(2), of "\<lambda>p. \<exists>j. p = Pushed j" Reserved] assms(3)
    by (simp add: pipeline_defs sv Let_def)
qed

lemma give_back_ok:
  assumes "pipeline_ok s" "i < length (sy_conns s)" "sy_conns s ! i = Reserved"
    "releaseSlot (note_give_back g (sy_sv s)) = Some sv" "p \<in> {Idle, Gone}"
  shows "pipeline_ok (s\<lparr>sy_sv := sv, sy_conns := (sy_conns s)[i := p]\<rparr>)"
proof -
  have "\<not> closed (sv_slots (note_give_back g (sy_sv s)))"
    using assms(1) by (cases g) (simp_all add: pipeline_defs note_give_back_def)
  then have sv: "sv = (note_give_back g (sy_sv s))\<lparr>sv_slots := with_slot (sv_slots (sy_sv s))\<rparr>"
    using assms(4) by (cases g) (simp_all add: releaseSlot_effect note_give_back_def)
  have p: "p \<noteq> Reserved" "\<not> (\<exists>j. p = Pushed j)" using assms(5) by auto
  show ?thesis
    using assms(1) cnt_update [OF assms(2), of "\<lambda>p. p = Reserved" p]
      cnt_update [OF assms(2), of "\<lambda>p. \<exists>j. p = Pushed j" p] assms(3) p
    by (cases g) (simp_all add: pipeline_defs sv Let_def note_give_back_def)
qed

lemma submit_ok:
  assumes "pipeline_ok s" "i < length (sy_conns s)" "sy_conns s ! i = Reserved"
    "submitJob d pick (fresh_job s r sender raw) (sy_sv s) = Submitted sv"
  shows "pipeline_ok (s\<lparr>sy_sv := sv, sy_conns := (sy_conns s)[i := Pushed (sy_next s)], sy_next := Suc (sy_next s)\<rparr>)"
proof -
  let ?j = "fresh_job s r sender raw"
  obtain c where c: "try_send ?j (sv_jobs (sy_sv s)) = Sent c"
    and sv: "sv = (sy_sv s)\<lparr>sv_jobs := c, queueHighWater := recordHighWater (queueHighWater (sy_sv s)) (length (buf c))\<rparr>"
    using submitJob_Submitted [OF assms(4)] by blast
  have "\<not> closed (sv_jobs (sy_sv s))" using assms(1) by (simp add: pipeline_defs)
  then have c': "c = (sv_jobs (sy_sv s))\<lparr>buf := buf (sv_jobs (sy_sv s)) @ [?j]\<rparr>"
    using c by (simp add: try_send_open_iff)
  have "ids_ok s" using assms(1) by (simp add: pipeline_ok_def)
  then have ids: "in_flight s k + length (buf (sv_results (sy_sv s) k)) \<le> (if k < sy_next s then 1 else 0)" for k
    by (simp add: ids_ok_def)
  have "ids_ok (s\<lparr>sy_sv := sv, sy_conns := (sy_conns s)[i := Pushed (sy_next s)], sy_next := Suc (sy_next s)\<rparr>)"
    unfolding ids_ok_def
  proof
    fix k
    show "in_flight (s\<lparr>sy_sv := sv, sy_conns := (sy_conns s)[i := Pushed (sy_next s)], sy_next := Suc (sy_next s)\<rparr>) k
        + length (buf (sv_results (sy_sv (s\<lparr>sy_sv := sv, sy_conns := (sy_conns s)[i := Pushed (sy_next s)], sy_next := Suc (sy_next s)\<rparr>)) k))
        \<le> (if k < sy_next (s\<lparr>sy_sv := sv, sy_conns := (sy_conns s)[i := Pushed (sy_next s)], sy_next := Suc (sy_next s)\<rparr>) then 1 else 0)"
      using ids [of k] by (auto simp: in_flight_def sv c' fresh_job_def split: if_splits)
  qed
  then show ?thesis
    using assms(1) cnt_update [OF assms(2), of "\<lambda>p. p = Reserved" "Pushed (sy_next s)"]
      cnt_update [OF assms(2), of "\<lambda>p. \<exists>j. p = Pushed j" "Pushed (sy_next s)"] assms(3)
    by (simp add: pipeline_ok_def chans_ok_def slots_ok_def counters_ok_def sv c' Let_def)
qed

lemma counted_ok:
  assumes "pipeline_ok s" "i < length (sy_conns s)" "sy_conns s ! i = Pushed j"
  shows "pipeline_ok (s\<lparr>sy_sv := (sy_sv s)\<lparr>jobsSubmitted := Suc (jobsSubmitted (sy_sv s))\<rparr>,
           sy_conns := (sy_conns s)[i := Waiting j]\<rparr>)"
  using assms(1) cnt_update [OF assms(2), of "\<lambda>p. p = Reserved" "Waiting j"]
    cnt_update [OF assms(2), of "\<lambda>p. \<exists>j. p = Pushed j" "Waiting j"] assms(3)
  by (simp add: pipeline_defs Let_def)

text \<open>A worker that goes from one phase to the next.\<close>

lemma work_update:
  assumes "w < length ws" "ws ! w = x"
  shows "cnt P (ws[w := y]) + (if P x then 1 else 0) = cnt P ws + (if P y then 1 else 0)"
  using cnt_update [OF assms(1), of P y] assms(2) by simp

lemma same_work:
  assumes "w < length ws" "ws ! w = x" "P y = P x"
  shows "cnt P (ws[w := y]) = cnt P ws"
  using work_update [OF assms(1,2), of P y] assms(3) by (simp split: if_splits)

lemma take_job_ok:
  assumes "pipeline_ok s" "w < length (sy_workers s)" "sy_workers s ! w = Free"
    "try_recv (sv_jobs (sy_sv s)) = Got job c"
  shows "pipeline_ok (s\<lparr>sy_sv := (sy_sv s)\<lparr>sv_jobs := c\<rparr>, sy_workers := (sy_workers s)[w := Taken job]\<rparr>)"
proof -
  have b: "buf (sv_jobs (sy_sv s)) = job # buf c" and c: "c = (sv_jobs (sy_sv s))\<lparr>buf := tl (buf (sv_jobs (sy_sv s)))\<rparr>"
    using assms(4) unfolding try_recv_Got by blast+
  have cc: "cap c = cap (sv_jobs (sy_sv s))" "closed c = closed (sv_jobs (sy_sv s))" by (simp_all add: c)
  note u = work_update [OF assms(2,3), of _ "Taken job"]
  have u: "cnt (runs k) ((sy_workers s)[w := Taken job]) = cnt (runs k) (sy_workers s) + (if j_id job = k then 1 else 0)"
    "cnt (\<lambda>w. w \<noteq> Free) ((sy_workers s)[w := Taken job]) = Suc (busy s)"
    "cnt uncounted ((sy_workers s)[w := Taken job]) = Suc (cnt uncounted (sy_workers s))"
    "cnt active ((sy_workers s)[w := Taken job]) = cnt active (sy_workers s)" for k
    using u [of "runs k"] u [of "\<lambda>w. w \<noteq> Free"] u [of uncounted] u [of active] by (simp_all add: runs_def)
  let ?s = "s\<lparr>sy_sv := (sy_sv s)\<lparr>sv_jobs := c\<rparr>, sy_workers := (sy_workers s)[w := Taken job]\<rparr>"
  have "ids_ok s" using assms(1) by (simp add: pipeline_ok_def)
  moreover have "in_flight ?s k = in_flight s k" for k by (simp add: in_flight_def b u)
  ultimately have "ids_ok ?s" by (simp add: ids_ok_def)
  then show ?thesis using assms(1) by (simp add: pipeline_ok_def chans_ok_def slots_ok_def counters_ok_def Let_def b cc u)
qed

text \<open>The steps of a worker that leave queue, slots and results alone.\<close>

lemma quiet_work_ok:
  assumes "pipeline_ok s" "w < length (sy_workers s)" "sy_workers s ! w = x"
    and "sv_jobs sv = sv_jobs (sy_sv s)" "sv_slots sv = sv_slots (sy_sv s)" "sv_results sv = sv_results (sy_sv s)"
    and "sv_cfg sv = sv_cfg (sy_sv s)" "hub_ok (sv_hub sv)" "jobsSubmitted sv = jobsSubmitted (sy_sv s)"
    and "owes y = owes x" "x \<noteq> Free" "y \<noteq> Free"
    and "activeWorkers sv + (if active x then 1 else 0) = activeWorkers (sy_sv s) + (if active y then 1 else 0)"
    and "jobsDelivered sv + jobsTempFailed sv + jobsPermFailed sv + (if uncounted y then 1 else 0) =
         jobsDelivered (sy_sv s) + jobsTempFailed (sy_sv s) + jobsPermFailed (sy_sv s) + (if uncounted x then 1 else 0)"
  shows "pipeline_ok (s\<lparr>sy_sv := sv, sy_workers := (sy_workers s)[w := y]\<rparr>)"
proof -
  have q: "queue_size sv = queue_size (sy_sv s)" by (simp add: queue_size_def assms(7))
  have r: "cnt (runs k) ((sy_workers s)[w := y]) = cnt (runs k) (sy_workers s)" for k
    by (rule same_work [OF assms(2,3)]) (simp add: runs_def assms(10))
  have b: "cnt (\<lambda>w. w \<noteq> Free) ((sy_workers s)[w := y]) = busy s"
    by (rule same_work [OF assms(2,3)]) (simp add: assms(11,12))
  have "cnt active (sy_workers s) = activeWorkers (sy_sv s)" using assms(1) by (simp add: pipeline_ok_def counters_ok_def Let_def)
  then have a: "cnt active ((sy_workers s)[w := y]) = activeWorkers sv"
    using work_update [OF assms(2,3), of active y] assms(13) by linarith
  have "jobsSubmitted (sy_sv s) + pushed s = jobsDelivered (sy_sv s) + jobsTempFailed (sy_sv s) + jobsPermFailed (sy_sv s)
      + queued s + cnt uncounted (sy_workers s)" using assms(1) by (simp add: pipeline_ok_def counters_ok_def Let_def)
  then have u: "jobsSubmitted (sy_sv s) + pushed s = jobsDelivered sv + jobsTempFailed sv + jobsPermFailed sv
      + queued s + cnt uncounted ((sy_workers s)[w := y])"
    using work_update [OF assms(2,3), of uncounted y] assms(14) by linarith
  show ?thesis using assms(1) by (simp add: pipeline_defs Let_def q r b a u [symmetric] assms(4-9))
qed

lemma note_simps [simp]:
  "sv_jobs (note_parse sv) = sv_jobs sv" "sv_slots (note_parse sv) = sv_slots sv" "sv_results (note_parse sv) = sv_results sv"
  "sv_cfg (note_parse sv) = sv_cfg sv" "sv_hub (note_parse sv) = sv_hub sv" "jobsSubmitted (note_parse sv) = jobsSubmitted sv"
  "sv_jobs (note_insert sv) = sv_jobs sv" "sv_slots (note_insert sv) = sv_slots sv" "sv_results (note_insert sv) = sv_results sv"
  "sv_cfg (note_insert sv) = sv_cfg sv" "sv_hub (note_insert sv) = sv_hub sv" "jobsSubmitted (note_insert sv) = jobsSubmitted sv"
  "sv_jobs (count_outcome a sv) = sv_jobs sv" "sv_slots (count_outcome a sv) = sv_slots sv"
  "sv_results (count_outcome a sv) = sv_results sv" "sv_cfg (count_outcome a sv) = sv_cfg sv"
  "sv_hub (count_outcome a sv) = sv_hub sv" "jobsSubmitted (count_outcome a sv) = jobsSubmitted sv"
  "activeWorkers (count_outcome a sv) = activeWorkers sv"
  by (cases a; simp add: note_parse_def note_insert_def)+

lemma count_outcome_one:
  "jobsDelivered (count_outcome a sv) + jobsTempFailed (count_outcome a sv) + jobsPermFailed (count_outcome a sv) =
   Suc (jobsDelivered sv + jobsTempFailed sv + jobsPermFailed sv)"
  by (cases a) simp_all

lemma publish_some:
  "hub_ok h \<Longrightarrow> publishEmailEvent order e h = Some h' \<Longrightarrow> hub_ok h' \<and> hub_subs h' = hub_subs h"
  using publish_each_ok [of h e order] by (auto simp: publishEmailEvent_def)

text \<open>A complete publish, whatever the order of the map.\<close>

lemma publish_complete:
  assumes "hub_ok h0" "distinct order" "set order = dom (hub_subs h0)"
  shows "\<exists>h. publishEmailEvent order e h0 = Some h
     \<and> (\<forall>i sub. hub_subs h0 i = Some sub \<longrightarrow>
          buf (hub_chans h i) = buf (hub_chans h0 i)
            @ (if (sub_mailbox sub = uuid_nil \<or> sub_mailbox sub = ev_mailbox_id e) \<and> length (buf (hub_chans h0 i)) < 16 then [e] else []))
     \<and> hub_dropped h = hub_dropped h0 + card {i. \<exists>sub. hub_subs h0 i = Some sub
          \<and> (sub_mailbox sub = uuid_nil \<or> sub_mailbox sub = ev_mailbox_id e) \<and> length (buf (hub_chans h0 i)) = 16}"
proof -
  obtain h where h: "publishEmailEvent order e h0 = Some h" using publish_each_ok [OF assms(1)] unfolding publishEmailEvent_def by blast
  note eff = publish_each_effect [OF assms(1,2) h [unfolded publishEmailEvent_def]]
  have room: "chan_room (hub_chans h0 i) = 16 - length (buf (hub_chans h0 i)) \<and> length (buf (hub_chans h0 i)) \<le> 16"
    if "hub_subs h0 i = Some sub" for i sub
    using hub_okD [OF assms(1) that] by (auto simp: chan_room_def chan_open_def chan_wf_def)
  have "overflowing e h0 \<inter> set order = {i. \<exists>sub. hub_subs h0 i = Some sub
          \<and> (sub_mailbox sub = uuid_nil \<or> sub_mailbox sub = ev_mailbox_id e) \<and> length (buf (hub_chans h0 i)) = 16}"
    using room unfolding overflowing_def assms(3) wants_def by fastforce
  moreover have "buf (hub_chans h i) = buf (hub_chans h0 i)
      @ (if (sub_mailbox sub = uuid_nil \<or> sub_mailbox sub = ev_mailbox_id e) \<and> length (buf (hub_chans h0 i)) < 16 then [e] else [])"
    if "hub_subs h0 i = Some sub" for i sub
    using eff that room [OF that] assms(3) by (auto simp: after_publish_def wants_def)
  ultimately show ?thesis using h eff by auto
qed

lemma to_reply_owes: "to_reply x = Some (job, a) \<Longrightarrow> owes x = Some job \<and> \<not> uncounted x \<and> active x \<and> x \<noteq> Free"
  by (cases x) (auto split: if_splits)

lemma owed_empty:
  assumes "pipeline_ok s" "w < length (sy_workers s)" "owes (sy_workers s ! w) = Some job"
  shows "buf (sv_results (sy_sv s) (j_id job)) = []"
proof -
  have "runs (j_id job) (sy_workers s ! w)" using assms(3) by (simp add: runs_def)
  then have "0 < in_flight s (j_id job)"
    using cnt_pos [OF assms(2), of "runs (j_id job)"] by (simp add: in_flight_def)
  then show ?thesis using assms(1) by (intro in_flight_empty) (simp_all add: pipeline_ok_def)
qed

lemma reply_ok:
  assumes "pipeline_ok s" "w < length (sy_workers s)" "to_reply (sy_workers s ! w) = Some (job, a)"
  shows "pipeline_ok (s\<lparr>sy_sv := sendJobResult job r (sy_sv s), sy_workers := (sy_workers s)[w := Replied job]\<rparr>)"
proof -
  note x = to_reply_owes [OF assms(3)]
  note empty = owed_empty [OF assms(1,2) x [THEN conjunct1]]
  have ch: "cap (sv_results (sy_sv s) k) = 1" "\<not> closed (sv_results (sy_sv s) k)" for k
    using assms(1) by (simp_all add: pipeline_defs)
  note room = result_room [OF ch empty refl]
  note u = work_update [OF assms(2) refl, of _ "Replied job"]
  have u: "cnt (runs k) ((sy_workers s)[w := Replied job]) + (if j_id job = k then 1 else 0) = cnt (runs k) (sy_workers s)"
    "cnt (\<lambda>w. w \<noteq> Free) ((sy_workers s)[w := Replied job]) = busy s"
    "cnt uncounted ((sy_workers s)[w := Replied job]) = cnt uncounted (sy_workers s)"
    "cnt active ((sy_workers s)[w := Replied job]) = cnt active (sy_workers s)" for k
    using u [of "runs k"] u [of "\<lambda>w. w \<noteq> Free"] u [of uncounted] u [of active] x by (simp_all add: runs_def)
  let ?t = "s\<lparr>sy_sv := sendJobResult job r (sy_sv s), sy_workers := (sy_workers s)[w := Replied job]\<rparr>"
  have "ids_ok ?t"
    unfolding ids_ok_def
  proof
    fix k
    have "in_flight s k + length (buf (sv_results (sy_sv s) k)) \<le> (if k < sy_next s then 1 else 0)"
      using assms(1) by (simp add: pipeline_ok_def ids_ok_def)
    then show "in_flight ?t k + length (buf (sv_results (sy_sv ?t) k)) \<le> (if k < sy_next ?t then 1 else 0)"
      using u(1) [of k] empty by (auto simp: in_flight_def room split: if_splits)
  qed
  then show ?thesis
    using assms(1) by (simp add: pipeline_ok_def chans_ok_def slots_ok_def counters_ok_def Let_def room u)
qed

lemma put_back_ok:
  assumes "pipeline_ok s" "w < length (sy_workers s)" "sy_workers s ! w = Releasing job" "releaseSlot (sy_sv s) = Some sv"
  shows "pipeline_ok (s\<lparr>sy_sv := sv, sy_workers := (sy_workers s)[w := Free]\<rparr>)"
proof -
  have sv: "sv = (sy_sv s)\<lparr>sv_slots := with_slot (sv_slots (sy_sv s))\<rparr>"
    using assms(1,4) by (simp add: pipeline_defs releaseSlot_effect)
  note u = work_update [OF assms(2,3), of _ Free]
  have u: "cnt (runs k) ((sy_workers s)[w := Free]) = cnt (runs k) (sy_workers s)"
    "busy s = Suc (cnt (\<lambda>w. w \<noteq> Free) ((sy_workers s)[w := Free]))"
    "cnt uncounted ((sy_workers s)[w := Free]) = cnt uncounted (sy_workers s)"
    "cnt active ((sy_workers s)[w := Free]) = cnt active (sy_workers s)" for k
    using u [of "runs k"] u [of "\<lambda>w. w \<noteq> Free"] u [of uncounted] u [of active] by (simp_all add: runs_def)
  show ?thesis using assms(1) u by (simp add: pipeline_defs Let_def sv)
qed

lemma hub_step_ok: "pipeline_ok s \<Longrightarrow> hub_ok h \<Longrightarrow> pipeline_ok (s\<lparr>sy_sv := (sy_sv s)\<lparr>sv_hub := h\<rparr>\<rparr>)"
  by (simp add: pipeline_defs Let_def queue_size_def)

lemma hub_of_ok: "pipeline_ok s \<Longrightarrow> hub_ok (sv_hub (sy_sv s))"
  by (simp add: pipeline_defs)

lemma receive_ok:
  assumes "pipeline_ok s" "i < length (sy_conns s)" "sy_conns s ! i = Waiting j"
    "try_recv (sv_results (sy_sv s) j) = Got r c"
  shows "pipeline_ok (s\<lparr>sy_sv := (sy_sv s)\<lparr>sv_results := (sv_results (sy_sv s))(j := c)\<rparr>,
              sy_conns := (sy_conns s)[i := Idle]\<rparr>)"
proof -
  have b: "buf (sv_results (sy_sv s) j) = r # buf c" and c: "c = (sv_results (sy_sv s) j)\<lparr>buf := tl (buf (sv_results (sy_sv s) j))\<rparr>"
    using assms(4) unfolding try_recv_Got by blast+
  have cc: "cap c = cap (sv_results (sy_sv s) j)" "closed c = closed (sv_results (sy_sv s) j)" by (simp_all add: c)
  have ids: "ids_ok s" using assms(1) by (simp add: pipeline_ok_def)
  have "ids_ok (s\<lparr>sy_sv := (sy_sv s)\<lparr>sv_results := (sv_results (sy_sv s))(j := c)\<rparr>, sy_conns := (sy_conns s)[i := Idle]\<rparr>)"
    unfolding ids_ok_def
  proof
    fix k
    show "in_flight (s\<lparr>sy_sv := (sy_sv s)\<lparr>sv_results := (sv_results (sy_sv s))(j := c)\<rparr>, sy_conns := (sy_conns s)[i := Idle]\<rparr>) k
        + length (buf (sv_results (sy_sv (s\<lparr>sy_sv := (sy_sv s)\<lparr>sv_results := (sv_results (sy_sv s))(j := c)\<rparr>, sy_conns := (sy_conns s)[i := Idle]\<rparr>)) k))
        \<le> (if k < sy_next (s\<lparr>sy_sv := (sy_sv s)\<lparr>sv_results := (sv_results (sy_sv s))(j := c)\<rparr>, sy_conns := (sy_conns s)[i := Idle]\<rparr>) then 1 else 0)"
      using ids [unfolded ids_ok_def, rule_format, of k] b by (cases "k = j") (auto simp: in_flight_def split: if_splits)
  qed
  then show ?thesis
    using assms(1) cnt_update [OF assms(2), of "\<lambda>p. p = Reserved" Idle]
      cnt_update [OF assms(2), of "\<lambda>p. \<exists>j. p = Pushed j" Idle] assms(3)
    by (simp add: pipeline_ok_def chans_ok_def slots_ok_def counters_ok_def cc Let_def)
qed

lemma cancel_job_Some:
  assumes "cancel_job job sv = Some sv'" "\<not> closed (sv_slots sv)"
  shows "sv' = sendJobResult job DeliveryTempFail
       (sv\<lparr>jobsCancelled := Suc (jobsCancelled sv), jobsTempFailed := Suc (jobsTempFailed sv)\<rparr>)
     \<lparr>sv_slots := with_slot (sv_slots sv)\<rparr> \<and> length (buf (sv_slots sv)) < cap (sv_slots sv)"
  using assms by (simp add: cancel_job_def releaseSlot_effect)

lemma drain_ok:
  assumes "pipeline_ok s" "try_recv (sv_jobs (sy_sv s)) = Got job c"
    "cancel_job job ((sy_sv s)\<lparr>sv_jobs := c\<rparr>) = Some sv"
  shows "pipeline_ok (s\<lparr>sy_sv := sv\<rparr>)"
proof -
  have b: "buf (sv_jobs (sy_sv s)) = job # buf c" and c: "c = (sv_jobs (sy_sv s))\<lparr>buf := tl (buf (sv_jobs (sy_sv s)))\<rparr>"
    using assms(2) unfolding try_recv_Got by blast+
  have cc: "cap c = cap (sv_jobs (sy_sv s))" "closed c = closed (sv_jobs (sy_sv s))" by (simp_all add: c)
  have "\<not> closed (sv_slots ((sy_sv s)\<lparr>sv_jobs := c\<rparr>))" using assms(1) by (simp add: pipeline_defs)
  note sv = cancel_job_Some [OF assms(3) this, THEN conjunct1]
  have ids: "ids_ok s" using assms(1) by (simp add: pipeline_ok_def)
  have fl: "0 < in_flight s (j_id job)" by (simp add: in_flight_def b)
  note empty = in_flight_empty [OF ids fl]
  have ch: "cap (sv_results (sy_sv s) k) = 1" "\<not> closed (sv_results (sy_sv s) k)" for k
    using assms(1) by (simp_all add: pipeline_defs)
  note room = result_room [of "sv_results (sy_sv s)" job
      "(sy_sv s)\<lparr>sv_jobs := c, jobsCancelled := Suc (jobsCancelled (sy_sv s)), jobsTempFailed := Suc (jobsTempFailed (sy_sv s))\<rparr>", OF ch empty, simplified]
  have "ids_ok (s\<lparr>sy_sv := sv\<rparr>)"
    unfolding ids_ok_def
  proof
    fix k
    show "in_flight (s\<lparr>sy_sv := sv\<rparr>) k + length (buf (sv_results (sy_sv (s\<lparr>sy_sv := sv\<rparr>)) k))
        \<le> (if k < sy_next (s\<lparr>sy_sv := sv\<rparr>) then 1 else 0)"
      using ids [unfolded ids_ok_def, rule_format, of k] empty
      by (auto simp: in_flight_def b sv room split: if_splits)
  qed
  then show ?thesis
    using assms(1) by (simp add: pipeline_ok_def chans_ok_def slots_ok_def counters_ok_def Let_def b cc sv room)
qed

lemma step_ok: "step s s' \<Longrightarrow> pipeline_ok s \<Longrightarrow> pipeline_ok s'"
proof (induction rule: step.induct)
  case (accept s)
  then show ?case by (simp add: pipeline_defs Let_def)
next
  case (full i s sv)
  then have "sv = sy_sv s" by (simp add: acquireSlot_False)
  then show ?case using full.prems by (simp add: pipeline_defs Let_def)
next
  case (timed_out i s j)
  then show ?case
    using cnt_update [OF timed_out.hyps(1), of "\<lambda>p. p = Reserved" Idle]
      cnt_update [OF timed_out.hyps(1), of "\<lambda>p. \<exists>j. p = Pushed j" Idle]
    by (simp add: pipeline_defs Let_def)
next
  case (hang_up i s)
  then show ?case
    using cnt_update [OF hang_up.hyps(1), of "\<lambda>p. p = Reserved" Gone]
      cnt_update [OF hang_up.hyps(1), of "\<lambda>p. \<exists>j. p = Pushed j" Gone]
    by (simp add: pipeline_defs Let_def)
next
  case (shutdown s)
  then show ?case by (simp add: pipeline_defs Let_def)
next
  case (begin_work w s job)
  then show ?case by (intro quiet_work_ok [OF begin_work.prems begin_work.hyps]) (simp_all add: begin_job_def hub_of_ok)
next
  case (expire w s job)
  show ?case using quiet_work_ok [OF expire.prems expire.hyps, of "sy_sv s" "Attempted job Expired"] hub_of_ok [OF expire.prems] by simp
next
  case (parse w s job)
  then show ?case by (intro quiet_work_ok [OF parse.prems parse.hyps]) (auto simp: hub_of_ok note_parse_def)
next
  case (insert_mail w s job a)
  then show ?case by (intro quiet_work_ok [OF insert_mail.prems insert_mail.hyps(1,2)]) (cases a; auto simp: hub_of_ok note_insert_def)+
next
  case (count_job w s job a)
  then show ?case by (intro quiet_work_ok [OF count_job.prems count_job.hyps]) (simp_all add: hub_of_ok count_outcome_one)
next
  case (publish w s job a e order h)
  then show ?case using publish_some [OF hub_of_ok publish.hyps(6)]
    by (intro quiet_work_ok [OF publish.prems publish.hyps(1,2)]) simp_all
next
  case (end_work w s job)
  then have "0 < cnt active (sy_workers s)" using cnt_pos [of w "sy_workers s" active] by simp
  then have "0 < activeWorkers (sy_sv s)" using end_work.prems by (simp add: pipeline_ok_def counters_ok_def Let_def)
  then show ?case by (intro quiet_work_ok [OF end_work.prems end_work.hyps]) (simp_all add: end_job_def hub_of_ok [OF end_work.prems])
next
  case (subscribe_hub s m)
  then show ?case by (intro hub_step_ok subscribe_ok hub_of_ok)
next
  case (unsubscribe_hub s k)
  then show ?case by (intro hub_step_ok unsubscribe_ok hub_of_ok)
next
  case (read_event s k)
  then show ?case by (intro hub_step_ok take_event_ok hub_of_ok)
qed (fact acquire_ok give_back_ok submit_ok counted_ok take_job_ok reply_ok put_back_ok receive_ok drain_ok
    | blast intro: acquire_ok give_back_ok submit_ok counted_ok take_job_ok reply_ok put_back_ok receive_ok drain_ok)+

lemma reachable_ok: "reachable c s \<Longrightarrow> pipeline_ok s"
  by (induction rule: reachable.induct) (auto intro: init_ok step_ok)

lemma step_cfg: "step s s' \<Longrightarrow> pipeline_ok s \<Longrightarrow> sv_cfg (sy_sv s') = sv_cfg (sy_sv s)"
proof (induction rule: step.induct)
  case (acquire i s sv)
  then show ?case using acquireSlot_True [of "sy_sv s" sv] by auto
next
  case (full i s sv)
  then show ?case by (auto dest: acquireSlot_False)
next
  case (give_back i s g sv p)
  then show ?case using releaseSlot_Some [of "note_give_back g (sy_sv s)" sv]
    by (cases g) (auto simp: note_give_back_def)
next
  case (submit i s d pick r sender raw sv)
  then show ?case using submitJob_Submitted [of d pick _ "sy_sv s" sv] by fastforce
next
  case (put_back w s job sv)
  then show ?case using releaseSlot_Some [of "sy_sv s" sv] by auto
next
  case (drain s job c sv)
  have "\<not> closed (sv_slots ((sy_sv s)\<lparr>sv_jobs := c\<rparr>))" using drain.prems by (simp add: pipeline_defs)
  from cancel_job_Some [OF drain.hyps(5) this] show ?case by simp
qed (simp_all add: begin_job_def end_job_def)

lemma reachable_queue_size: "reachable c s \<Longrightarrow> queue_size (sy_sv s) = nat (cf_queue_size (normal_config c))"
proof (induction rule: reachable.induct)
  case init
  then show ?case by (simp add: init_sys_def NewServer_def Let_def queue_size_def)
next
  case (step s s')
  then show ?case using step_cfg [OF step.hyps(2) reachable_ok [OF step.hyps(1)]]
    by (simp add: queue_size_def)
qed

section \<open>What the invariant gives\<close>

text \<open>A connection that holds a slot finds room in the queue and in the slot pool.\<close>

lemma reserved_room:
  assumes "pipeline_ok s" "i < length (sy_conns s)" "sy_conns s ! i = Reserved"
  shows "queued s < cap (sv_jobs (sy_sv s)) \<and> slots_free s < cap (sv_slots (sy_sv s))"
  using assms(1) cnt_pos [OF assms(2), of "\<lambda>p. p = Reserved"] assms(3)
  by (simp add: pipeline_ok_def chans_ok_def slots_ok_def)

lemma busy_room:
  assumes "pipeline_ok s" "w < length (sy_workers s)" "sy_workers s ! w \<noteq> Free"
  shows "slots_free s < cap (sv_slots (sy_sv s))"
  using assms(1) cnt_pos [OF assms(2), of "\<lambda>w. w \<noteq> Free"] assms(3)
  by (simp add: pipeline_ok_def chans_ok_def slots_ok_def)

lemma release_total:
  assumes "pipeline_ok s" "w < length (sy_workers s)" "sy_workers s ! w \<noteq> Free"
  shows "releaseSlot (sy_sv s) \<noteq> None"
  using busy_room [OF assms] assms(1) by (simp add: pipeline_defs releaseSlot_def try_send_def)

lemma drain_jobs_all:
  "pipeline_ok s \<Longrightarrow> queued s = n \<Longrightarrow>
   \<exists>sv. drain_jobs n (sy_sv s) = Some sv \<and> pipeline_ok (s\<lparr>sy_sv := sv\<rparr>) \<and> buf (sv_jobs sv) = []
      \<and> queue_size sv = queue_size (sy_sv s)"
proof (induction n arbitrary: s)
  case 0
  then show ?case by simp
next
  case (Suc n)
  obtain job js where js: "buf (sv_jobs (sy_sv s)) = job # js" using Suc.prems(2) by (cases "buf (sv_jobs (sy_sv s))") auto
  define c where "c = (sv_jobs (sy_sv s))\<lparr>buf := js\<rparr>"
  have r: "try_recv (sv_jobs (sy_sv s)) = Got job c" by (simp add: try_recv_def js c_def)
  have "\<not> closed (sv_slots (sy_sv s))" "slots_free s < cap (sv_slots (sy_sv s))"
    using Suc.prems by (simp_all add: pipeline_ok_def chans_ok_def slots_ok_def)
  then obtain sv where sv: "cancel_job job ((sy_sv s)\<lparr>sv_jobs := c\<rparr>) = Some sv"
    by (simp add: cancel_job_def releaseSlot_def try_send_def)
  have "\<not> closed (sv_slots ((sy_sv s)\<lparr>sv_jobs := c\<rparr>))" using \<open>\<not> closed (sv_slots (sy_sv s))\<close> by simp
  note e = cancel_job_Some [OF sv this, THEN conjunct1]
  have ok: "pipeline_ok (s\<lparr>sy_sv := sv\<rparr>)" by (rule drain_ok [OF Suc.prems(1) r sv])
  have "length (buf (sv_jobs sv)) = n" "queue_size sv = queue_size (sy_sv s)"
    using Suc.prems(2) js by (simp_all add: e c_def)
  then show ?case using Suc.IH [OF ok] r sv by simp
qed

section \<open>A result and its channel\<close>

lemma reply_buf:
  assumes "pipeline_ok s" "w < length (sy_workers s)" "owes (sy_workers s ! w) = Some job"
  shows "buf (sv_results (sendJobResult job r (sy_sv s)) i) = (if i = j_id job then [r] else buf (sv_results (sy_sv s) i))"
proof -
  have "cap (sv_results (sy_sv s) (j_id job)) = 1" "\<not> closed (sv_results (sy_sv s) (j_id job))"
    using assms(1) by (simp_all add: pipeline_defs)
  from result_room(1) [OF this owed_empty [OF assms] refl] show ?thesis .
qed

lemma cancel_buf:
  assumes "pipeline_ok s" "try_recv (sv_jobs (sy_sv s)) = Got job c" "cancel_job job ((sy_sv s)\<lparr>sv_jobs := c\<rparr>) = Some sv"
  shows "buf (sv_results sv i) = (if i = j_id job then [DeliveryTempFail] else buf (sv_results (sy_sv s) i))"
    and "buf (sv_results (sy_sv s) (j_id job)) = []"
proof -
  have "buf (sv_jobs (sy_sv s)) = job # buf c" using assms(2) unfolding try_recv_Got by blast
  then have "0 < in_flight s (j_id job)" by (simp add: in_flight_def)
  then show e: "buf (sv_results (sy_sv s) (j_id job)) = []" using assms(1) by (intro in_flight_empty) (simp_all add: pipeline_ok_def)
  have ch: "cap (sv_results (sy_sv s) (j_id job)) = 1" "\<not> closed (sv_results (sy_sv s) (j_id job))"
    and sl: "\<not> closed (sv_slots ((sy_sv s)\<lparr>sv_jobs := c\<rparr>))" using assms(1) by (simp_all add: pipeline_defs)
  show "buf (sv_results sv i) = (if i = j_id job then [DeliveryTempFail] else buf (sv_results (sy_sv s) i))"
    unfolding cancel_job_Some [OF assms(3) sl, THEN conjunct1] by (simp add: result_room(1) [where rs = "sv_results (sy_sv s)", OF ch e])
qed

lemma reply_step:
  assumes "step s t" "w < length (sy_workers s)" "sy_workers t ! w = Replied job" "sy_workers s ! w \<noteq> Replied job"
  shows "\<exists>a. to_reply (sy_workers s ! w) = Some (job, a) \<and> t = s\<lparr>sy_sv := sendJobResult job (outcome_status a) (sy_sv s),
    sy_workers := (sy_workers s)[w := Replied job]\<rparr>"
  using assms
proof (induction rule: step.induct)
  case (reply v s j a)
  then show ?case by (cases "v = w") auto
qed (auto simp: nth_list_update split: if_splits)

text \<open>Only the session that waits for it takes a result away.\<close>

lemma kept_result:
  assumes "step s t" "pipeline_ok s" "buf (sv_results (sy_sv s) i) = [r]"
  shows "buf (sv_results (sy_sv t) i) = [r] \<or>
    (\<exists>k < length (sy_conns s). sy_conns s ! k = Waiting i \<and> sy_conns t = (sy_conns s)[k := Idle]
       \<and> try_recv (sv_results (sy_sv s) i) = Got r (sv_results (sy_sv t) i))"
  using assms
proof (induction rule: step.induct)
  case (acquire k s sv)
  then show ?case using acquireSlot_True [of "sy_sv s" sv] by auto
next
  case (full k s sv)
  then show ?case by (auto dest: acquireSlot_False)
next
  case (give_back k s g sv p)
  then show ?case using releaseSlot_Some [of "note_give_back g (sy_sv s)" sv] by (cases g) (auto simp: note_give_back_def)
next
  case (submit k s d pick q sender raw sv)
  then show ?case using submitJob_Submitted [of d pick _ "sy_sv s" sv] by fastforce
next
  case (reply w s job a)
  note o = to_reply_owes [OF reply.hyps(2), THEN conjunct1]
  show ?case using reply.prems(2) reply_buf [OF reply.prems(1) reply.hyps(1) o] owed_empty [OF reply.prems(1) reply.hyps(1) o] by auto
next
  case (put_back w s job sv)
  then show ?case using releaseSlot_Some [of "sy_sv s" sv] by auto
next
  case (receive k s j q c)
  then show ?case by (cases "i = j") (auto simp: try_recv_def)
next
  case (drain s job c sv)
  then show ?case using cancel_buf [OF drain.prems(1) drain.hyps(4,5)] by auto
qed (simp_all add: begin_job_def end_job_def)

section \<open>A worker alone\<close>

text \<open>The steps of one worker, with no other step between them, are \<open>handleJob\<close>.\<close>

lemma worker_alone:
  assumes w: "w < length (sy_workers s)" "sy_workers s ! w = Taken job"
    and f: "finish_job order a job (begin_job (sy_sv s)) = Some sv"
    and ord: "distinct order" "set order = dom (hub_subs (sv_hub (sy_sv s)))"
  shows "step\<^sup>*\<^sup>* s (s\<lparr>sy_sv := sv, sy_workers := (sy_workers s)[w := Free]\<rparr>)"
proof -
  let ?at = "\<lambda>v x. s\<lparr>sy_sv := v, sy_workers := (sy_workers s)[w := x]\<rparr>"
  define v1 where "v1 = (if a = Expired then begin_job (sy_sv s) else note_insert (note_parse (begin_job (sy_sv s))))"
  define v2 where "v2 = count_outcome a v1"
  obtain v3 where v3: "settle_job order a job (begin_job (sy_sv s)) = Some v3" "releaseSlot (end_job v3) = Some sv"
    using f by (auto simp: finish_job_def split: option.splits)
  have 1: "step s (?at (begin_job (sy_sv s)) (Running job))" using begin_work [OF w] .
  have 2: "step\<^sup>*\<^sup>* (?at (begin_job (sy_sv s)) (Running job)) (?at v1 (Attempted job a))"
  proof (cases "a = Expired")
    case True
    then show ?thesis using expire [of w "?at (begin_job (sy_sv s)) (Running job)" job] w by (auto simp: v1_def)
  next
    case False
    have "step (?at (begin_job (sy_sv s)) (Running job)) (?at (note_parse (begin_job (sy_sv s))) (Parsed job))"
      using parse [of w "?at (begin_job (sy_sv s)) (Running job)" job] w by simp
    moreover have "step (?at (note_parse (begin_job (sy_sv s))) (Parsed job)) (?at v1 (Attempted job a))"
      using insert_mail [of w "?at (note_parse (begin_job (sy_sv s))) (Parsed job)" job a] w False by (simp add: v1_def)
    ultimately show ?thesis by (meson r_into_rtranclp rtranclp_trans)
  qed
  have 3: "step (?at v1 (Attempted job a)) (?at v2 (Counted job a))"
    using count_job [of w "?at v1 (Attempted job a)" job a] w by (simp add: v2_def)
  have 4: "step\<^sup>*\<^sup>* (?at v2 (Counted job a)) (?at v3 (Replied job))"
  proof (cases "outcome_event a")
    case None
    then have "v3 = sendJobResult job (outcome_status a) v2" using v3(1) by (simp add: settle_job_def Let_def v1_def v2_def)
    then show ?thesis using reply [of w "?at v2 (Counted job a)" job a] w None by auto
  next
    case (Some e)
    then obtain h where h: "publishEmailEvent order e (sv_hub v2) = Some h" "v3 = sendJobResult job (outcome_status a) (v2\<lparr>sv_hub := h\<rparr>)"
      using v3(1) by (auto simp: settle_job_def Let_def v1_def v2_def split: option.splits)
    have "sv_hub v2 = sv_hub (sy_sv s)" by (simp add: v2_def v1_def begin_job_def)
    then have "step (?at v2 (Counted job a)) (?at (v2\<lparr>sv_hub := h\<rparr>) (Published job a))"
      using publish [of w "?at v2 (Counted job a)" job a e order h] w Some h(1) ord by simp
    moreover have "step (?at (v2\<lparr>sv_hub := h\<rparr>) (Published job a)) (?at v3 (Replied job))"
      using reply [of w "?at (v2\<lparr>sv_hub := h\<rparr>) (Published job a)" job a] w h(2) by simp
    ultimately show ?thesis by (meson r_into_rtranclp rtranclp_trans)
  qed
  have 5: "step (?at v3 (Replied job)) (?at (end_job v3) (Releasing job))"
    using end_work [of w "?at v3 (Replied job)" job] w by simp
  have 6: "step (?at (end_job v3) (Releasing job)) (?at sv Free)"
    using put_back [of w "?at (end_job v3) (Releasing job)" job sv] w v3(2) by simp
  from 1 2 3 4 5 6 show ?thesis by (meson r_into_rtranclp rtranclp_trans)
qed

section \<open>Properties\<close>

text \<open>A small run for the witnesses: one slot, one worker, one connection that sends a message, one subscriber.\<close>

definition tiny_job :: job where
  "tiny_job = \<lparr>j_id = 0, j_resolved = tiny_recipient, j_sender = [], j_raw = ''x''\<rparr>"

definition tiny_event :: mailbox_email_event where
  "tiny_event =
     \<lparr>ev_mailbox_id = 5, ev_full_address = ''a@b'',
      ev_email = \<lparr>es_id = 1, es_sender = [], es_subject = [], es_has_attachments = False, es_parsed_code = [],
        es_parsed_code_source = [], es_parsed_link = [], es_parsed_link_source = [], es_size_bytes = 1, es_received_at = 0\<rparr>\<rparr>"

definition tiny_hub :: hub where
  "tiny_hub = snd (subscribe uuid_nil hub_init)"

definition tiny_reserved :: sys where
  "tiny_reserved =
     (init_sys tiny_config)\<lparr>sy_sv := (NewServer tiny_config)\<lparr>sv_slots := (chan_make 1), inFlightHighWater := 1\<rparr>,
        sy_conns := [Reserved]\<rparr>"

definition tiny_queued :: sys where
  "tiny_queued =
     tiny_reserved\<lparr>sy_sv := (sy_sv tiny_reserved)\<lparr>sv_jobs := (chan_make 1)\<lparr>buf := [tiny_job]\<rparr>, queueHighWater := 1\<rparr>,
        sy_conns := [Pushed 0], sy_next := 1\<rparr>"

definition tiny_running :: sys where
  "tiny_running =
     tiny_queued\<lparr>sy_sv := (sy_sv tiny_queued)\<lparr>sv_jobs := chan_make 1, activeWorkers := 1\<rparr>,
        sy_workers := [Running tiny_job]\<rparr>"

text \<open>A subscriber to all mailboxes has come, and the mail is stored and counted.\<close>

definition tiny_counted :: sys where
  "tiny_counted =
     tiny_running\<lparr>sy_sv := (sy_sv tiny_running)\<lparr>sv_hub := tiny_hub, parseOps := 1, dbOps := 1, jobsDelivered := 1\<rparr>,
        sy_workers := [Counted tiny_job (Stored (Some tiny_event))]\<rparr>"

text \<open>The connection counts its job, times out and hangs up while the job is still queued.\<close>

definition tiny_left :: sys where
  "tiny_left =
     tiny_queued\<lparr>sy_sv := (sy_sv tiny_queued)\<lparr>jobsSubmitted := 1, deliveryTimeouts := 1\<rparr>, sy_conns := [Gone]\<rparr>"

lemmas tiny_defs = tiny_config_def tiny_reserved_def tiny_queued_def tiny_running_def init_sys_def NewServer_def
  normal_config_def Let_def queue_size_def

lemma tiny_reserved_reachable: "reachable tiny_config tiny_reserved"
proof -
  let ?s = "(init_sys tiny_config)\<lparr>sy_conns := [Idle]\<rparr>"
  have "reachable tiny_config ?s"
    using reachable.step [OF reachable.init accept, of tiny_config] by (simp add: tiny_defs)
  moreover have "step ?s tiny_reserved"
    using acquire [of 0 ?s "sy_sv tiny_reserved"]
    by (simp add: tiny_defs acquireSlot_def try_recv_def chan_make_def recordHighWater_def)
  ultimately show ?thesis by (rule reachable.step)
qed

lemma tiny_queued_reachable: "reachable tiny_config tiny_queued"
proof -
  have "step tiny_reserved tiny_queued"
    using submit [of 0 tiny_reserved False True tiny_recipient "[]" "''x''" "sy_sv tiny_queued"]
    by (simp add: tiny_defs submitJob_def try_send_def fresh_job_def tiny_job_def chan_make_def recordHighWater_def)
  then show ?thesis by (rule reachable.step [OF tiny_reserved_reachable])
qed

lemma tiny_running_reachable: "reachable tiny_config tiny_running"
proof -
  let ?s = "tiny_queued\<lparr>sy_sv := (sy_sv tiny_queued)\<lparr>sv_jobs := chan_make 1\<rparr>, sy_workers := [Taken tiny_job]\<rparr>"
  have "step tiny_queued ?s"
    using take_job [of 0 tiny_queued tiny_job "chan_make 1"] by (simp add: tiny_defs try_recv_def chan_make_def)
  moreover have "step ?s tiny_running"
    using begin_work [of 0 ?s tiny_job] by (simp add: tiny_defs begin_job_def)
  ultimately show ?thesis by (meson reachable.step tiny_queued_reachable)
qed

lemma tiny_counted_reachable: "reachable tiny_config tiny_counted"
proof -
  let ?a = "Stored (Some tiny_event)"
  let ?sv = "(sy_sv tiny_running)\<lparr>sv_hub := tiny_hub\<rparr>"
  let ?s1 = "tiny_running\<lparr>sy_sv := ?sv\<rparr>"
  let ?s2 = "tiny_running\<lparr>sy_sv := note_parse ?sv, sy_workers := [Parsed tiny_job]\<rparr>"
  let ?s3 = "tiny_running\<lparr>sy_sv := note_insert (note_parse ?sv), sy_workers := [Attempted tiny_job ?a]\<rparr>"
  have "step tiny_running ?s1" using subscribe_hub [of tiny_running uuid_nil] by (simp add: tiny_defs tiny_hub_def)
  moreover have "step ?s1 ?s2" using parse [of 0 ?s1 tiny_job] by (simp add: tiny_running_def)
  moreover have "step ?s2 ?s3" using insert_mail [of 0 ?s2 tiny_job ?a] by (simp add: tiny_running_def)
  moreover have "step ?s3 tiny_counted"
    using count_job [of 0 ?s3 tiny_job ?a] by (simp add: tiny_counted_def tiny_defs note_insert_def note_parse_def)
  ultimately show ?thesis by (meson reachable.step tiny_running_reachable)
qed

lemma tiny_left_reachable: "reachable tiny_config tiny_left"
proof -
  let ?sv = "sy_sv tiny_queued"
  let ?s1 = "tiny_queued\<lparr>sy_sv := ?sv\<lparr>jobsSubmitted := 1\<rparr>, sy_conns := [Waiting 0]\<rparr>"
  let ?s2 = "tiny_queued\<lparr>sy_sv := ?sv\<lparr>jobsSubmitted := 1, deliveryTimeouts := 1\<rparr>, sy_conns := [Idle]\<rparr>"
  have "step tiny_queued ?s1" using counted [of 0 tiny_queued 0] by (simp add: tiny_defs)
  then have 1: "reachable tiny_config ?s1" by (rule reachable.step [OF tiny_queued_reachable])
  have "step ?s1 ?s2" using timed_out [of 0 ?s1 0] by (simp add: tiny_defs)
  then have 2: "reachable tiny_config ?s2" by (rule reachable.step [OF 1])
  have "step ?s2 tiny_left" using hang_up [of 0 ?s2] by (simp add: tiny_defs tiny_left_def)
  then show ?thesis by (rule reachable.step [OF 2])
qed

text \<open>C1: In every reachable state each of the \<open>QueueSize\<close> slots is in exactly one place: free in the
  pool, held by a connection reading a message, with a job in the queue, or with a job in a worker.
  So at most \<open>QueueSize\<close> messages are in memory between DATA and delivery, whatever the interleaving.\<close>

theorem slots_conserved:
  assumes "reachable c s"
  shows "slots_free s + reserved s + queued s + busy s = nat (cf_queue_size (normal_config c))"
  using reachable_ok [OF assms] reachable_queue_size [OF assms] by (simp add: pipeline_ok_def slots_ok_def)

lemma slots_conserved_witness:
  "slots_free tiny_running + reserved tiny_running + queued tiny_running + busy tiny_running = 1"
  using slots_conserved [OF tiny_running_reachable] by (simp add: tiny_config_def normal_config_def Let_def)

text \<open>C2: No send of the pipeline ever blocks or panics in a reachable state, whoever subscribes, leaves or reads: a
  connection that reserved a slot finds room in the queue for its job (and submits it unless its context is done) and can
  always give its slot back; a worker that publishes the event of a stored mail completes the publish, in whatever order the
  map is walked, with the event at the end of the channel of every interested subscriber that has room and a drop counted
  for every one that is full; and a worker can give back the slot of its job.\<close>

theorem pipeline_never_blocks:
  assumes "reachable c s"
  shows "(\<forall>i < length (sy_conns s). sy_conns s ! i = Reserved \<longrightarrow>
            (\<exists>sv. submitJob False pick job (sy_sv s) = Submitted sv) \<and> releaseSlot (sy_sv s) \<noteq> None)
       \<and> (\<forall>order e. distinct order \<longrightarrow> set order = dom (hub_subs (sv_hub (sy_sv s))) \<longrightarrow>
            (\<exists>h. publishEmailEvent order e (sv_hub (sy_sv s)) = Some h
               \<and> (\<forall>i sub. hub_subs (sv_hub (sy_sv s)) i = Some sub \<longrightarrow>
                    buf (hub_chans h i) = buf (hub_chans (sv_hub (sy_sv s)) i)
                      @ (if (sub_mailbox sub = uuid_nil \<or> sub_mailbox sub = ev_mailbox_id e)
                           \<and> length (buf (hub_chans (sv_hub (sy_sv s)) i)) < 16 then [e] else []))
               \<and> hub_dropped h = hub_dropped (sv_hub (sy_sv s))
                   + card {i. \<exists>sub. hub_subs (sv_hub (sy_sv s)) i = Some sub
                        \<and> (sub_mailbox sub = uuid_nil \<or> sub_mailbox sub = ev_mailbox_id e)
                        \<and> length (buf (hub_chans (sv_hub (sy_sv s)) i)) = 16}))
       \<and> (\<forall>w < length (sy_workers s). sy_workers s ! w \<noteq> Free \<longrightarrow> releaseSlot (sy_sv s) \<noteq> None)"
proof (intro conjI allI impI)
  fix i
  assume i: "i < length (sy_conns s)" "sy_conns s ! i = Reserved"
  have cl: "\<not> closed (sv_jobs (sy_sv s))" "\<not> closed (sv_slots (sy_sv s))"
    using reachable_ok [OF assms] by (simp_all add: pipeline_defs)
  note room = reserved_room [OF reachable_ok [OF assms] i]
  show "\<exists>sv. submitJob False pick job (sy_sv s) = Submitted sv" "releaseSlot (sy_sv s) \<noteq> None"
    using cl room by (simp_all add: submitJob_def releaseSlot_def try_send_def)
next
  fix order e
  assume "distinct order" "set order = dom (hub_subs (sv_hub (sy_sv s)))"
  from publish_complete [OF hub_of_ok [OF reachable_ok [OF assms]] this]
  show "\<exists>h. publishEmailEvent order e (sv_hub (sy_sv s)) = Some h
               \<and> (\<forall>i sub. hub_subs (sv_hub (sy_sv s)) i = Some sub \<longrightarrow>
                    buf (hub_chans h i) = buf (hub_chans (sv_hub (sy_sv s)) i)
                      @ (if (sub_mailbox sub = uuid_nil \<or> sub_mailbox sub = ev_mailbox_id e)
                           \<and> length (buf (hub_chans (sv_hub (sy_sv s)) i)) < 16 then [e] else []))
               \<and> hub_dropped h = hub_dropped (sv_hub (sy_sv s))
                   + card {i. \<exists>sub. hub_subs (sv_hub (sy_sv s)) i = Some sub
                        \<and> (sub_mailbox sub = uuid_nil \<or> sub_mailbox sub = ev_mailbox_id e)
                        \<and> length (buf (hub_chans (sv_hub (sy_sv s)) i)) = 16}" .
qed (rule release_total [OF reachable_ok [OF assms]])

lemma pipeline_never_blocks_witness:
  "(\<exists>sv. submitJob False True tiny_job (sy_sv tiny_reserved) = Submitted sv)
   \<and> (\<exists>h. publishEmailEvent [1] tiny_event (sv_hub (sy_sv tiny_counted)) = Some h \<and> buf (hub_chans h 1) = [tiny_event] \<and> hub_dropped h = 0)
   \<and> releaseSlot (sy_sv tiny_counted) \<noteq> None"
proof -
  have h: "hub_subs (sv_hub (sy_sv tiny_counted)) = [1 \<mapsto> \<lparr>sub_mailbox = uuid_nil, sub_events = 1\<rparr>]"
    "buf (hub_chans (sv_hub (sy_sv tiny_counted)) 1) = []" "hub_dropped (sv_hub (sy_sv tiny_counted)) = 0"
    by (simp_all add: tiny_counted_def tiny_hub_def subscribe_def hub_init_def Let_def chan_make_def)
  show ?thesis
    using pipeline_never_blocks [OF tiny_reserved_reachable, of True tiny_job]
      pipeline_never_blocks [OF tiny_counted_reachable, THEN conjunct2, THEN conjunct1, rule_format, of "[1]" tiny_event]
      pipeline_never_blocks [OF tiny_counted_reachable, THEN conjunct2, THEN conjunct2, rule_format, of 0] h
    by (auto simp: tiny_reserved_def) (auto simp: tiny_counted_def)
qed

text \<open>C3: The result of a job is neither lost, nor stale, nor another job's: the step in which a worker sends the result of a
  job leaves in that job's channel exactly the result of the attempt the worker has made (delivered when the mail is stored,
  a permanent failure when it is undeliverable, a temporary one when the context was done or the store failed), in spite of
  the send that would drop it if the channel were full; and a result stays in its channel, alone, until the session that
  waits for this job takes it out.\<close>

theorem result_never_lost:
  assumes "reachable c s" "step s t"
  shows "(\<forall>w < length (sy_workers s). \<forall>job. sy_workers s ! w \<noteq> Replied job \<longrightarrow> sy_workers t ! w = Replied job \<longrightarrow>
            (\<exists>a. (sy_workers s ! w = Counted job a \<or> sy_workers s ! w = Published job a)
               \<and> buf (sv_results (sy_sv s) (j_id job)) = []
               \<and> buf (sv_results (sy_sv t) (j_id job)) =
                   [case a of Stored event \<Rightarrow> DeliveryOK | Undeliverable \<Rightarrow> DeliveryPermFail
                      | StoreFailed \<Rightarrow> DeliveryTempFail | Expired \<Rightarrow> DeliveryTempFail]))
       \<and> (\<forall>i r. buf (sv_results (sy_sv s) i) = [r] \<longrightarrow>
            buf (sv_results (sy_sv t) i) = [r] \<or>
            (\<exists>k < length (sy_conns s). sy_conns s ! k = Waiting i \<and> sy_conns t = (sy_conns s)[k := Idle]
               \<and> try_recv (sv_results (sy_sv s) i) = Got r (sv_results (sy_sv t) i)))"
proof (intro conjI allI impI)
  note ok = reachable_ok [OF assms(1)]
  fix w job
  assume w: "w < length (sy_workers s)" "sy_workers s ! w \<noteq> Replied job" "sy_workers t ! w = Replied job"
  obtain a where a: "to_reply (sy_workers s ! w) = Some (job, a)" "t = s\<lparr>sy_sv := sendJobResult job (outcome_status a) (sy_sv s),
    sy_workers := (sy_workers s)[w := Replied job]\<rparr>" using reply_step [OF assms(2) w(1,3,2)] by blast
  note o = to_reply_owes [OF a(1), THEN conjunct1]
  have "sy_workers s ! w = Counted job a \<or> sy_workers s ! w = Published job a"
    using a(1) by (cases "sy_workers s ! w") (auto split: if_splits)
  moreover have "outcome_status a = (case a of Stored event \<Rightarrow> DeliveryOK | Undeliverable \<Rightarrow> DeliveryPermFail
      | StoreFailed \<Rightarrow> DeliveryTempFail | Expired \<Rightarrow> DeliveryTempFail)" by (cases a) simp_all
  ultimately show "\<exists>a. (sy_workers s ! w = Counted job a \<or> sy_workers s ! w = Published job a)
      \<and> buf (sv_results (sy_sv s) (j_id job)) = []
      \<and> buf (sv_results (sy_sv t) (j_id job)) =
          [case a of Stored event \<Rightarrow> DeliveryOK | Undeliverable \<Rightarrow> DeliveryPermFail
             | StoreFailed \<Rightarrow> DeliveryTempFail | Expired \<Rightarrow> DeliveryTempFail]"
    using owed_empty [OF ok w(1) o] reply_buf [OF ok w(1) o, of "outcome_status a" "j_id job"] unfolding a(2)
    by (intro exI [of _ a]) simp
qed (rule kept_result [OF assms(2) reachable_ok [OF assms(1)]])

lemma result_never_lost_witness:
  "\<exists>s t. reachable tiny_config s \<and> step s t \<and> sy_workers s ! 0 = Published tiny_job (Stored (Some tiny_event))
     \<and> buf (sv_results (sy_sv t) 0) = [DeliveryOK]"
proof -
  let ?a = "Stored (Some tiny_event)"
  have "hub_ok (sv_hub (sy_sv tiny_counted))" by (rule hub_of_ok [OF reachable_ok [OF tiny_counted_reachable]])
  then obtain h where h: "publishEmailEvent [1] tiny_event (sv_hub (sy_sv tiny_counted)) = Some h"
    using publish_each_ok unfolding publishEmailEvent_def by blast
  let ?s = "tiny_counted\<lparr>sy_sv := (sy_sv tiny_counted)\<lparr>sv_hub := h\<rparr>, sy_workers := [Published tiny_job ?a]\<rparr>"
  have d: "dom (hub_subs (sv_hub (sy_sv tiny_counted))) = {1}"
    by (simp add: tiny_counted_def tiny_hub_def subscribe_def hub_init_def Let_def)
  have "step tiny_counted ?s"
    using publish [of 0 tiny_counted tiny_job ?a tiny_event "[1]" h] h d by (simp add: tiny_counted_def)
  then have s: "reachable tiny_config ?s" by (rule reachable.step [OF tiny_counted_reachable])
  let ?t = "?s\<lparr>sy_sv := sendJobResult tiny_job DeliveryOK (sy_sv ?s), sy_workers := [Replied tiny_job]\<rparr>"
  have t: "step ?s ?t" using reply [of 0 ?s tiny_job ?a] by simp
  show ?thesis
    using result_never_lost [OF s t, THEN conjunct1, rule_format, of 0 tiny_job] s t
    by (intro exI [of _ ?s] exI [of _ ?t]) (auto simp: tiny_job_def)
qed

text \<open>The job counters balance in every reachable state: what was submitted (counted, or pushed and
  about to be counted) is delivered, temporarily failed, permanently failed, queued or with a worker that has not counted
  it yet; and the active-worker gauge is the number of workers between their two updates of it.\<close>

theorem job_counters_balance:
  assumes "reachable c s"
  shows "jobsSubmitted (sy_sv s) + pushed s =
           jobsDelivered (sy_sv s) + jobsTempFailed (sy_sv s) + jobsPermFailed (sy_sv s) + queued s + cnt uncounted (sy_workers s)
       \<and> activeWorkers (sy_sv s) = cnt active (sy_workers s)"
  using reachable_ok [OF assms] by (simp add: pipeline_ok_def counters_ok_def Let_def)

lemma job_counters_balance_witness:
  "jobsSubmitted (sy_sv tiny_running) + pushed tiny_running = 1 \<and> activeWorkers (sy_sv tiny_running) = 1"
  using job_counters_balance [OF tiny_running_reachable] by (simp add: tiny_defs)

text \<open>C4: The drain of a shutdown completes: once every connection and every worker has returned, the
  drain cancels all queued jobs without blocking, leaves the queue empty with every slot back in
  the pool, and then each submitted job has been counted under exactly one outcome.\<close>

theorem shutdown_drains:
  assumes "reachable c s" "list_all (\<lambda>p. p = Gone) (sy_conns s)" "list_all (\<lambda>w. w = Free) (sy_workers s)"
  shows "\<exists>sv. drainQueuedJobs (sy_sv s) = Some sv \<and> buf (sv_jobs sv) = []
       \<and> length (buf (sv_slots sv)) = nat (cf_queue_size (normal_config c))
       \<and> jobsSubmitted sv = jobsDelivered sv + jobsTempFailed sv + jobsPermFailed sv"
proof -
  obtain sv where sv: "drain_jobs (queued s) (sy_sv s) = Some sv" "pipeline_ok (s\<lparr>sy_sv := sv\<rparr>)"
    "buf (sv_jobs sv) = []" "queue_size sv = queue_size (sy_sv s)"
    using drain_jobs_all [OF reachable_ok [OF assms(1)] refl] by blast
  have "\<not> uncounted w" if "w \<in> set (sy_workers s)" for w using that assms(3) unfolding list_all_iff by fastforce
  then have z: "reserved s = 0" "pushed s = 0" "busy s = 0" "cnt uncounted (sy_workers s) = 0"
    using assms(2,3) by (auto intro!: cnt_zero simp: list_all_iff)
  show ?thesis
    using sv z reachable_queue_size [OF assms(1)]
    by (intro exI [of _ sv]) (simp add: drainQueuedJobs_def pipeline_ok_def slots_ok_def counters_ok_def Let_def)
qed

lemma shutdown_drains_witness:
  "\<exists>sv. drainQueuedJobs (sy_sv tiny_left) = Some sv \<and> buf (sv_jobs sv) = [] \<and> length (buf (sv_slots sv)) = 1"
  using shutdown_drains [OF tiny_left_reachable] by (auto simp: tiny_defs tiny_left_def)

end
