(* ===== verification/Lmtp_Session.thy ===== *)
theory Lmtp_Session
  imports Delivery
begin

text \<open>
  An LMTP connection (\<open>src/api/ingress/server.go\<close>, \<open>lmtpSession\<close>): the command loop and the handlers of
  MAIL, RCPT and DATA.  The client's bytes are \<open>ss_in\<close>; what was written is \<open>ss_out\<close>, a list of lines;
  \<open>ss_budget\<close> counts the writes that still succeed before the connection breaks (a broken connection
  stays broken).  \<open>environ\<close> holds what the rest of the system decides: what happened to the server
  since the last command, whether the job's context is done, and the result the session waits for.
\<close>

record transaction =
  txn_has_mail :: bool
  txn_mail_from :: string
  txn_recipient :: "resolvedRecipient option"

definition no_transaction :: transaction where
  "no_transaction = \<lparr>txn_has_mail = False, txn_mail_from = [], txn_recipient = None\<rparr>"

record session =
  ss_in :: string
  ss_out :: "string list"
  ss_budget :: nat
  ss_helo :: string
  ss_txn :: transaction

record environ =
  en_lower :: "nat \<Rightarrow> nat"
  en_upper :: "nat \<Rightarrow> nat"
  en_between :: "server \<Rightarrow> server"
  en_job_id :: "server \<Rightarrow> nat"
  en_ctx_done :: "server \<Rightarrow> bool"
  en_pick_send :: bool
  en_wait :: "job \<Rightarrow> server \<Rightarrow> deliveryStatus option \<times> server"

datatype next_step = Continue | Return | Hang

section \<open>Replies\<close>

definition writeLine :: "string \<Rightarrow> session \<Rightarrow> bool \<times> session" where
  "writeLine line s =
     (if ss_budget s = 0 then (False, s)
      else (True, s\<lparr>ss_out := ss_out s @ [line], ss_budget := ss_budget s - 1\<rparr>))"

fun writeLines :: "string list \<Rightarrow> session \<Rightarrow> bool \<times> session" where
  "writeLines [] s = (True, s)"
| "writeLines (l # ls) s =
     (let (ok, s') = writeLine l s in if ok then writeLines ls s' else (False, s'))"

definition writeCapabilities :: "config \<Rightarrow> session \<Rightarrow> bool \<times> session" where
  "writeCapabilities cfg s =
     writeLines [''250-'' @ cf_hostname cfg, ''250-8BITMIME'', ''250-SIZE '' @ itoa (cf_body_max cfg),
                 ''250 PIPELINING''] s"

definition reply :: "string \<Rightarrow> session \<Rightarrow> session" where
  "reply line s = snd (writeLine line s)"

definition reply_next :: "string \<Rightarrow> session \<Rightarrow> next_step \<times> session" where
  "reply_next line s = (let (ok, s') = writeLine line s in (if ok then Continue else Return, s'))"

section \<open>MAIL and RCPT\<close>

definition handleMAIL :: "environ \<Rightarrow> string \<Rightarrow> session \<Rightarrow> session" where
  "handleMAIL e arg s =
     (case extractPathArg arg ''FROM:'' True of
        None \<Rightarrow> reply ''501 5.5.4 bad sender syntax'' s
      | Some path \<Rightarrow>
          reply ''250 2.1.0 OK''
            (s\<lparr>ss_txn := \<lparr>txn_has_mail = True, txn_mail_from = to_lower (en_lower e) (trim_space path),
                        txn_recipient = None\<rparr>\<rparr>))"

definition handleRCPT :: "environ \<Rightarrow> string \<Rightarrow> server \<Rightarrow> session \<Rightarrow> session" where
  "handleRCPT e arg sv s =
     (if \<not> txn_has_mail (ss_txn s) then reply ''503 5.5.1 need MAIL command'' s
      else if txn_recipient (ss_txn s) \<noteq> None then reply ''452 4.5.3 too many recipients'' s
      else case extractPathArg arg ''TO:'' False of
        None \<Rightarrow> reply ''501 5.5.4 bad recipient syntax'' s
      | Some path \<Rightarrow>
          (case sv_snap sv of
             None \<Rightarrow> reply ''451 4.3.0 ingress cache unavailable'' s
           | Some snap \<Rightarrow>
               if defaultAccountID snap = uuid_nil then reply ''451 4.3.0 ingress cache unavailable'' s
               else case resolveRecipient (en_lower e) snap path of
                 None \<Rightarrow> reply ''550 5.1.1 unknown recipient domain'' s
               | Some r \<Rightarrow>
                   reply ''250 2.1.5 OK'' (s\<lparr>ss_txn := (ss_txn s)\<lparr>txn_recipient := Some r\<rparr>\<rparr>)))"

section \<open>DATA\<close>

text \<open>The deferred release of a slot that no job took over.\<close>

definition release_and :: "next_step \<Rightarrow> server \<Rightarrow> session \<Rightarrow> next_step \<times> server \<times> session" where
  "release_and n sv s =
     (case releaseSlot sv of None \<Rightarrow> (Hang, sv, s) | Some sv' \<Rightarrow> (n, sv', s))"

definition status_line :: "deliveryStatus \<Rightarrow> string" where
  "status_line st =
     (case st of
        DeliveryOK \<Rightarrow> ''250 2.0.0 delivered''
      | DeliveryPermFail \<Rightarrow> ''550 5.1.1 recipient not deliverable''
      | DeliveryTempFail \<Rightarrow> ''451 4.3.0 temporary delivery failure'')"

text \<open>After the job is submitted: the select between its result and the end of its context.\<close>

definition await_result :: "environ \<Rightarrow> job \<Rightarrow> server \<Rightarrow> session \<Rightarrow> next_step \<times> server \<times> session" where
  "await_result e job sv s =
     (case en_wait e job sv of
        (Some st, sv') \<Rightarrow>
          (let (n, s') = reply_next (status_line st) (s\<lparr>ss_txn := no_transaction\<rparr>) in (n, sv', s'))
      | (None, sv') \<Rightarrow>
          (let (n, s') = reply_next ''451 4.3.0 delivery timeout'' s in
           (n, sv'\<lparr>deliveryTimeouts := Suc (deliveryTimeouts sv')\<rparr>, s')))"

definition submit_message ::
    "environ \<Rightarrow> resolvedRecipient \<Rightarrow> string \<Rightarrow> server \<Rightarrow> session \<Rightarrow> next_step \<times> server \<times> session" where
  "submit_message e rcpt raw sv0 s =
     (let sv = sv0\<lparr>dataBytes := dataBytes sv0 + length raw\<rparr>;
          job = \<lparr>j_id = en_job_id e sv, j_resolved = rcpt, j_sender = txn_mail_from (ss_txn s), j_raw = raw\<rparr> in
      case submitJob (en_ctx_done e sv) (en_pick_send e) job sv of
        SubmitWaits \<Rightarrow> (Hang, sv, s)
      | Refused \<Rightarrow>
          (let (n, s') = reply_next ''451 4.3.0 ingress shutting down'' s in
           release_and n (sv\<lparr>jobsCancelled := Suc (jobsCancelled sv)\<rparr>) s')
      | Submitted sv' \<Rightarrow> await_result e job (sv'\<lparr>jobsSubmitted := Suc (jobsSubmitted sv')\<rparr>) s)"

definition handleDATA :: "environ \<Rightarrow> server \<Rightarrow> session \<Rightarrow> next_step \<times> server \<times> session" where
  "handleDATA e sv s =
     (case txn_recipient (ss_txn s) of
        None \<Rightarrow> (let (n, s') = reply_next ''503 5.5.1 need RCPT command'' s in (n, sv, s'))
      | Some rcpt \<Rightarrow>
          (case acquireSlot sv of
             (False, sv1) \<Rightarrow>
               (let (n, s') = reply_next ''451 4.3.2 ingress queue full'' s in
                (n, sv1\<lparr>queueFull := Suc (queueFull sv1)\<rparr>, s'))
           | (True, sv1) \<Rightarrow>
               (case writeLine ''354 End data with <CR><LF>.<CR><LF>'' s of
                  (False, s1) \<Rightarrow> release_and Return sv1 s1
                | (True, s1) \<Rightarrow>
                    (case readData (nat (cf_body_max (sv_cfg sv1))) [] False (ss_in s1) of
                       (None, rest) \<Rightarrow> release_and Return sv1 (s1\<lparr>ss_in := rest\<rparr>)
                     | (Some (raw, oversized), rest) \<Rightarrow>
                         (let s2 = s1\<lparr>ss_in := rest\<rparr> in
                          if oversized then
                            (let (n, s3) = reply_next ''552 5.3.4 message exceeds ingress limit'' s2 in
                             release_and n (sv1\<lparr>oversizedMessages := Suc (oversizedMessages sv1)\<rparr>) s3)
                          else submit_message e rcpt raw sv1 s2)))))"

section \<open>The command loop\<close>

definition handle_command ::
    "environ \<Rightarrow> string \<Rightarrow> string \<Rightarrow> server \<Rightarrow> session \<Rightarrow> next_step \<times> server \<times> session" where
  "handle_command e cmd arg sv s =
     (if cmd \<in> {''LHLO'', ''EHLO'', ''HELO''} then
        (let (ok, s') = writeCapabilities (sv_cfg sv)
               (s\<lparr>ss_helo := trim_space arg, ss_txn := no_transaction\<rparr>) in
         (if ok then Continue else Return, sv, s'))
      else if cmd = ''MAIL'' then (Continue, sv, handleMAIL e arg s)
      else if cmd = ''RCPT'' then (Continue, sv, handleRCPT e arg sv s)
      else if cmd = ''DATA'' then handleDATA e sv s
      else if cmd = ''RSET'' then (Continue, sv, reply ''250 2.0.0 OK'' (s\<lparr>ss_txn := no_transaction\<rparr>))
      else if cmd = ''NOOP'' then (Continue, sv, reply ''250 2.0.0 OK'' s)
      else if cmd = ''QUIT'' then (Return, sv, reply ''221 2.0.0 Bye'' s)
      else (Continue, sv, reply ''500 5.5.1 command unrecognized'' s))"

definition handle_line :: "environ \<Rightarrow> string \<Rightarrow> server \<Rightarrow> session \<Rightarrow> next_step \<times> server \<times> session" where
  "handle_line e line sv s =
     (if line = [] then (Continue, sv, reply ''500 5.5.2 empty command'' s)
      else (let (cmd, arg) = splitCommand (en_upper e) line in handle_command e cmd arg sv s))"

section \<open>The input only shrinks\<close>

lemma writeLine_in [simp]: "ss_in (snd (writeLine l s)) = ss_in s"
  by (simp add: writeLine_def)

lemma reply_in [simp]: "ss_in (reply l s) = ss_in s"
  by (simp add: reply_def)

lemma reply_next_in [simp]: "ss_in (snd (reply_next l s)) = ss_in s"
  by (simp add: reply_next_def writeLine_def)

lemma writeLines_in [simp]: "ss_in (snd (writeLines ls s)) = ss_in s"
  by (induction ls arbitrary: s) (simp_all add: writeLine_def)

lemma release_and_in [simp]: "ss_in (snd (snd (release_and n sv s))) = ss_in s"
  by (simp add: release_and_def split: option.split)

lemma await_result_in [simp]: "ss_in (snd (snd (await_result e j sv s))) = ss_in s"
  by (simp add: await_result_def reply_next_def writeLine_def split: option.split prod.split)

lemma submit_message_in [simp]: "ss_in (snd (snd (submit_message e r raw sv s))) = ss_in s"
  by (simp add: submit_message_def Let_def case_prod_beta split: submitted.split)

lemma readData_shorter: "length (snd (readData m raw ov inp)) \<le> length inp"
proof (induction m raw ov inp rule: readData.induct)
  case (1 m raw ov inp)
  show ?case
  proof (cases "read_string inp")
    case None
    then show ?thesis by (subst readData.simps) simp
  next
    case (Some lr)
    then obtain line r where l: "read_string inp = Some (line, r)" by (cases lr) auto
    note short = read_string_shorter [OF l]
    show ?thesis
    proof (cases "trim_right CRLF line = ''.''")
      case True
      then show ?thesis using l short by (subst readData.simps) simp
    next
      case False
      show ?thesis
        using "1.IH"(1) [OF l refl False refl] "1.IH"(2) [OF l refl False refl] l False short
        by (subst readData.simps) (auto simp: Let_def intro: order_trans)
    qed
  qed
qed

lemma handleDATA_in: "length (ss_in (snd (snd (handleDATA e sv s)))) \<le> length (ss_in s)"
proof -
  have "length rest \<le> length (ss_in s)" if "readData m [] False (ss_in s) = (x, rest)" for m x rest
    using readData_shorter [of m "[]" False "ss_in s"] that by simp
  then show ?thesis
    by (auto simp: handleDATA_def Let_def case_prod_beta writeLine_def split: option.split prod.split bool.split)
qed

lemma handle_line_in: "length (ss_in (snd (snd (handle_line e line sv s)))) \<le> length (ss_in s)"
proof -
  have "ss_in (handleMAIL e arg s) = ss_in s" "ss_in (handleRCPT e arg sv s) = ss_in s" for arg
    by (simp_all add: handleMAIL_def handleRCPT_def split: option.split)
  then show ?thesis
    by (auto simp: handle_line_def handle_command_def Let_def case_prod_beta writeCapabilities_def
        handleDATA_in split: prod.split)
qed

text \<open>The loop of \<open>run\<close>: each turn reads a line, so the bytes left decrease.  The flag of the result
  says whether the session got stuck on a blocking send.\<close>

function run_loop :: "environ \<Rightarrow> server \<Rightarrow> session \<Rightarrow> bool \<times> server \<times> session" where
  "run_loop e sv0 s =
     (let sv = en_between e sv0 in
      case readCommandLine (nat (cf_command_max (sv_cfg sv))) (ss_in s) of
        (Line line, rest) \<Rightarrow>
          (case handle_line e line sv (s\<lparr>ss_in := rest\<rparr>) of
             (Continue, sv', s') \<Rightarrow> run_loop e sv' s'
           | (Return, sv', s') \<Rightarrow> (False, sv', s')
           | (Hang, sv', s') \<Rightarrow> (True, sv', s'))
      | (_, rest) \<Rightarrow> (False, sv, s\<lparr>ss_in := rest\<rparr>))"
  by pat_completeness auto
termination
proof (relation "measure (\<lambda>(e, sv, s). length (ss_in s))")
  fix e sv0 s sv lr rest line n r sv' s'
  assume l: "(lr, rest) = readCommandLine (nat (cf_command_max (sv_cfg sv))) (ss_in s)" "lr = Line line"
    and h: "(n, r) = handle_line e line sv (s\<lparr>ss_in := rest\<rparr>)" "(sv', s') = r"
  have "length rest < length (ss_in s)"
    using l(1) [symmetric] unfolding l(2) by (rule readCommandLine_shorter)
  moreover have "snd (snd (handle_line e line sv (s\<lparr>ss_in := rest\<rparr>))) = s'"
    unfolding h(1) [symmetric] h(2) [symmetric] by simp
  then have "length (ss_in s') \<le> length rest"
    using handle_line_in [of e line sv "s\<lparr>ss_in := rest\<rparr>"] by simp
  ultimately show "((e, sv', s'), e, sv0, s) \<in> measure (\<lambda>(e, sv, s). length (ss_in s))" by simp
qed simp_all

declare run_loop.simps [simp del]

definition run :: "environ \<Rightarrow> server \<Rightarrow> session \<Rightarrow> bool \<times> server \<times> session" where
  "run e sv s =
     (case writeLine (''220 '' @ cf_hostname (sv_cfg sv) @ '' LMTP ready'') s of
        (False, s') \<Rightarrow> (False, sv, s')
      | (True, s') \<Rightarrow> run_loop e sv s')"

definition handleConn :: "environ \<Rightarrow> server \<Rightarrow> string \<Rightarrow> nat \<Rightarrow> bool \<times> server \<times> session" where
  "handleConn e sv inp budget =
     (let (stuck, sv', s') = run e (sv\<lparr>activeConnections := Suc (activeConnections sv)\<rparr>)
            \<lparr>ss_in = inp, ss_out = [], ss_budget = budget, ss_helo = [], ss_txn = no_transaction\<rparr> in
      (stuck, sv'\<lparr>activeConnections := activeConnections sv' - 1\<rparr>, s'))"

section \<open>Transactions\<close>

definition txn_ok :: "transaction \<Rightarrow> bool" where
  "txn_ok t = (\<forall>r. txn_recipient t = Some r \<longrightarrow> txn_has_mail t \<and> recipient_ok r)"

lemma no_transaction_ok [simp]: "txn_ok no_transaction"
  by (simp add: txn_ok_def no_transaction_def)

lemma txn_simps [simp]:
  "ss_txn (snd (writeLine l s)) = ss_txn s" "ss_txn (reply l s) = ss_txn s"
  "ss_txn (snd (reply_next l s)) = ss_txn s" "ss_txn (snd (snd (release_and n sv s))) = ss_txn s"
  by (simp_all add: reply_def reply_next_def writeLine_def release_and_def split: option.split)

lemma writeLines_txn [simp]: "ss_txn (snd (writeLines ls s)) = ss_txn s"
  by (induction ls arbitrary: s) (simp_all add: writeLine_def)

lemma await_result_txn: "ss_txn (snd (snd (await_result e j sv s))) \<in> {ss_txn s, no_transaction}"
  by (simp add: await_result_def case_prod_beta split: option.split)

lemma submit_message_txn: "ss_txn (snd (snd (submit_message e r raw sv s))) \<in> {ss_txn s, no_transaction}"
  using await_result_txn [of e _ _ s] by (simp add: submit_message_def Let_def case_prod_beta split: submitted.split)

lemma handleDATA_txn: "ss_txn (snd (snd (handleDATA e sv s))) \<in> {ss_txn s, no_transaction}"
proof (cases "txn_recipient (ss_txn s)")
  case None
  then show ?thesis by (simp add: handleDATA_def case_prod_beta)
next
  case (Some rcpt)
  obtain got sv1 where a: "acquireSlot sv = (got, sv1)" by (cases "acquireSlot sv")
  obtain ok s1 where w: "writeLine ''354 End data with <CR><LF>.<CR><LF>'' s = (ok, s1)"
    by (cases "writeLine ''354 End data with <CR><LF>.<CR><LF>'' s")
  have s1: "ss_txn s1 = ss_txn s" using txn_simps(1) [of "''354 End data with <CR><LF>.<CR><LF>''" s] unfolding w by simp
  show ?thesis
  proof (cases "got \<and> ok")
    case False
    then show ?thesis using Some s1 by (cases got; cases ok) (simp_all add: handleDATA_def a w case_prod_beta)
  next
    case True
    obtain x rest where r: "readData (nat (cf_body_max (sv_cfg sv1))) [] False (ss_in s1) = (x, rest)"
      by (cases "readData (nat (cf_body_max (sv_cfg sv1))) [] False (ss_in s1)")
    show ?thesis
    proof (cases x)
      case None
      then show ?thesis using Some s1 True by (simp add: handleDATA_def a w r)
    next
      case (Some y)
      then show ?thesis
        using \<open>txn_recipient (ss_txn s) = Some rcpt\<close> s1 True
          submit_message_txn [of e rcpt "fst y" sv1 "s1\<lparr>ss_in := rest\<rparr>"]
        by (cases y) (simp add: handleDATA_def a w r case_prod_beta Let_def)
    qed
  qed
qed

lemma handleMAIL_txn: "txn_ok (ss_txn s) \<Longrightarrow> txn_ok (ss_txn (handleMAIL e arg s))"
  by (simp add: handleMAIL_def txn_ok_def split: option.split)

lemma handleRCPT_txn:
  assumes "snapshot_usable (sv_snap sv)" "txn_ok (ss_txn s)"
  shows "txn_ok (ss_txn (handleRCPT e arg sv s))"
proof -
  have "recipient_ok r"
    if "sv_snap sv = Some snap" "defaultAccountID snap \<noteq> uuid_nil" "resolveRecipient lo snap p = Some r" for snap lo p r
    using resolveRecipient_ok [OF _ that(2,3)] assms(1) that(1) by (simp add: snapshot_usable_def)
  then show ?thesis using assms(2) by (auto simp: handleRCPT_def txn_ok_def split: option.split)
qed

lemma handle_line_txn:
  assumes "snapshot_usable (sv_snap sv)" "txn_ok (ss_txn s)"
  shows "txn_ok (ss_txn (snd (snd (handle_line e line sv s))))"
proof -
  have "txn_ok (ss_txn (snd (snd (handleDATA e sv s))))"
    using handleDATA_txn [of e sv s] assms(2) by auto
  then show ?thesis
    using handleMAIL_txn [OF assms(2)] handleRCPT_txn [OF assms] assms(2)
    by (simp add: handle_line_def handle_command_def case_prod_beta writeCapabilities_def)
qed

section \<open>Replies\<close>

text \<open>A reply line is final unless its code is followed by a hyphen or it is the intermediate 354.\<close>

definition final_reply :: "string \<Rightarrow> bool" where
  "final_reply l = (take 1 (drop 3 l) = '' '' \<and> take 3 l \<noteq> ''354'')"

definition finals :: "session \<Rightarrow> nat" where
  "finals s = length (filter final_reply (ss_out s))"

lemma writeLine_ok: "0 < ss_budget s \<Longrightarrow>
  writeLine l s = (True, s\<lparr>ss_out := ss_out s @ [l], ss_budget := ss_budget s - 1\<rparr>)"
  by (simp add: writeLine_def)

lemma finals_reply: "0 < ss_budget s \<Longrightarrow> finals (reply l s) = finals s + (if final_reply l then 1 else 0)"
  by (simp add: reply_def writeLine_ok finals_def)

lemma finals_reply_next: "0 < ss_budget s \<Longrightarrow> finals (snd (reply_next l s)) = finals s + (if final_reply l then 1 else 0)"
  by (simp add: reply_next_def writeLine_ok finals_def)

lemma finals_simps [simp]:
  "finals (s\<lparr>ss_in := a\<rparr>) = finals s" "finals (s\<lparr>ss_txn := t\<rparr>) = finals s" "finals (s\<lparr>ss_helo := h\<rparr>) = finals s"
  "finals (snd (snd (release_and n sv s))) = finals s"
  by (simp_all add: finals_def release_and_def split: option.split)

lemma final_lines [simp]:
  "final_reply ''503 5.5.1 need MAIL command''" "final_reply ''452 4.5.3 too many recipients''"
  "final_reply ''501 5.5.4 bad recipient syntax''" "final_reply ''451 4.3.0 ingress cache unavailable''"
  "final_reply ''550 5.1.1 unknown recipient domain''" "final_reply ''250 2.1.5 OK''"
  "final_reply ''501 5.5.4 bad sender syntax''" "final_reply ''250 2.1.0 OK''"
  "final_reply ''503 5.5.1 need RCPT command''" "final_reply ''451 4.3.2 ingress queue full''"
  "final_reply ''552 5.3.4 message exceeds ingress limit''" "final_reply ''451 4.3.0 ingress shutting down''"
  "final_reply ''451 4.3.0 delivery timeout''" "final_reply ''250 2.0.0 OK''" "final_reply ''221 2.0.0 Bye''"
  "final_reply ''500 5.5.1 command unrecognized''" "final_reply ''500 5.5.2 empty command''"
  "\<not> final_reply ''354 End data with <CR><LF>.<CR><LF>''"
  by (simp_all add: final_reply_def)

lemma final_status [simp]: "final_reply (status_line st)"
  by (cases st) (simp_all add: status_line_def final_reply_def)

lemma finals_await:
  "0 < ss_budget s \<Longrightarrow> finals (snd (snd (await_result e j sv s))) = Suc (finals s)"
  by (simp add: await_result_def case_prod_beta finals_reply_next split: option.split)

lemma finals_submit:
  "0 < ss_budget s \<Longrightarrow> fst (submit_message e r raw sv s) \<noteq> Hang \<Longrightarrow>
   finals (snd (snd (submit_message e r raw sv s))) = Suc (finals s)"
  by (simp add: submit_message_def Let_def case_prod_beta finals_await finals_reply_next split: submitted.splits)

lemma finals_capabilities:
  "5 \<le> ss_budget s \<Longrightarrow> finals (snd (writeCapabilities cfg s)) = Suc (finals s)"
  by (simp add: writeCapabilities_def writeLine_ok finals_def final_reply_def)

text \<open>\<open>handleDATA\<close> once the message has been read.\<close>

lemma handleDATA_read:
  assumes "txn_recipient (ss_txn s) = Some rcpt" "acquireSlot sv = (True, sv1)" "0 < ss_budget s"
    "readData (nat (cf_body_max (sv_cfg sv1))) [] False (ss_in s) = (Some (raw, over), rest)"
  shows "handleDATA e sv s =
    (let s2 = s\<lparr>ss_out := ss_out s @ [''354 End data with <CR><LF>.<CR><LF>''], ss_budget := ss_budget s - 1, ss_in := rest\<rparr> in
     if over then
       (let (n, s3) = reply_next ''552 5.3.4 message exceeds ingress limit'' s2 in
        release_and n (sv1\<lparr>oversizedMessages := Suc (oversizedMessages sv1)\<rparr>) s3)
     else submit_message e rcpt raw sv1 s2)"
  using assms by (simp add: handleDATA_def writeLine_ok)

lemma handleDATA_broken:
  assumes "txn_recipient (ss_txn s) = Some rcpt" "acquireSlot sv = (True, sv1)" "0 < ss_budget s"
    "readData (nat (cf_body_max (sv_cfg sv1))) [] False (ss_in s) = (None, rest)"
  shows "fst (handleDATA e sv s) \<noteq> Continue"
  using assms by (simp add: handleDATA_def writeLine_ok release_and_def split: option.split)

lemma finals_handleDATA:
  assumes "2 \<le> ss_budget s" "fst (handleDATA e sv s) = Continue"
  shows "finals (snd (snd (handleDATA e sv s))) = Suc (finals s)"
proof (cases "txn_recipient (ss_txn s)")
  case None
  then show ?thesis using assms by (simp add: handleDATA_def case_prod_beta finals_reply_next)
next
  case (Some rcpt)
  obtain got sv1 where a: "acquireSlot sv = (got, sv1)" by (cases "acquireSlot sv")
  show ?thesis
  proof (cases got)
    case False
    then show ?thesis using Some assms a
      by (simp add: handleDATA_def case_prod_beta finals_reply_next)
  next
    case True
    obtain x rest where r: "readData (nat (cf_body_max (sv_cfg sv1))) [] False (ss_in s) = (x, rest)"
      by (cases "readData (nat (cf_body_max (sv_cfg sv1))) [] False (ss_in s)")
    have b: "0 < ss_budget s" using assms(1) by simp
    obtain raw over where x: "x = Some (raw, over)"
      using handleDATA_broken [of s rcpt sv sv1 rest e] assms(2) Some a True r b by (cases x) auto
    let ?s2 = "s\<lparr>ss_out := ss_out s @ [''354 End data with <CR><LF>.<CR><LF>''], ss_budget := ss_budget s - 1, ss_in := rest\<rparr>"
    have a': "acquireSlot sv = (True, sv1)" using a True by simp
    note h = handleDATA_read [OF Some a' b r [unfolded x], of e]
    have f: "finals ?s2 = finals s" by (simp add: finals_def final_reply_def)
    have b2: "0 < ss_budget ?s2" using assms(1) by simp
    show ?thesis
    proof (cases over)
      case True
      then show ?thesis using h f finals_reply_next [OF b2, of "''552 5.3.4 message exceeds ingress limit''"]
        by (simp add: case_prod_beta Let_def final_reply_def)
    next
      case False
      then show ?thesis using h f assms(2) finals_submit [OF b2, of e rcpt raw sv1] by (simp add: Let_def)
    qed
  qed
qed

lemma finals_MAIL: "0 < ss_budget s \<Longrightarrow> finals (handleMAIL e arg s) = Suc (finals s)"
  by (simp add: handleMAIL_def finals_reply split: option.split)

lemma finals_RCPT: "0 < ss_budget s \<Longrightarrow> finals (handleRCPT e arg sv s) = Suc (finals s)"
  by (simp add: handleRCPT_def finals_reply split: option.split)

section \<open>Properties\<close>

text \<open>A small environment for the witnesses: the job is delivered at once.\<close>

definition tiny_env :: environ where
  "tiny_env =
     \<lparr>en_lower = (\<lambda>r. r), en_upper = (\<lambda>r. r), en_between = (\<lambda>sv. sv), en_job_id = (\<lambda>_. 0),
      en_ctx_done = (\<lambda>_. False), en_pick_send = True, en_wait = (\<lambda>j sv. (Some DeliveryOK, sv))\<rparr>"

definition tiny_session :: "string \<Rightarrow> session" where
  "tiny_session inp =
     \<lparr>ss_in = inp, ss_out = [], ss_budget = 9, ss_helo = [],
      ss_txn = \<lparr>txn_has_mail = True, txn_mail_from = ''s@t'', txn_recipient = Some tiny_recipient\<rparr>\<rparr>"

lemma tiny_acquire:
  "acquireSlot (NewServer tiny_config) =
     (True, (NewServer tiny_config)\<lparr>sv_slots := chan_make 1, inFlightHighWater := 1\<rparr>)"
  by (simp add: acquireSlot_def try_recv_def NewServer_def tiny_config_def normal_config_def Let_def
      chan_make_def recordHighWater_def queue_size_def)

lemma tiny_body_max: "cf_body_max (sv_cfg (NewServer tiny_config)) = 10"
  by (simp add: NewServer_def tiny_config_def normal_config_def Let_def)

text \<open>Between commands the transaction is well formed whatever the client sends: a recipient is
  only there after MAIL, and it is one that the routing snapshot accepted (an address of a known
  domain with a trimmed, nonempty local part, for a real account), as long as the snapshots the server
  publishes are well formed.\<close>

theorem command_keeps_transaction_ok:
  assumes "snapshot_usable (sv_snap sv)" "txn_ok (ss_txn s)" "handle_line e line sv s = (n, sv', s')"
  shows "txn_ok (ss_txn s')"
  using handle_line_txn [OF assms(1,2), of e line] assms(3) by simp

lemma command_keeps_transaction_ok_witness:
  "txn_ok (ss_txn (snd (snd (handle_line tiny_env ''RCPT TO:<a@b>'' (NewServer tiny_config)
      ((tiny_session [])\<lparr>ss_txn := no_transaction\<rparr>)))))"
proof -
  let ?r = "handle_line tiny_env ''RCPT TO:<a@b>'' (NewServer tiny_config) ((tiny_session [])\<lparr>ss_txn := no_transaction\<rparr>)"
  have "snapshot_usable (sv_snap (NewServer tiny_config))" "txn_ok (ss_txn ((tiny_session [])\<lparr>ss_txn := no_transaction\<rparr>))"
    by (simp_all add: snapshot_usable_def NewServer_def Let_def)
  moreover have "?r = (fst ?r, fst (snd ?r), snd (snd ?r))" by simp
  ultimately show ?thesis by (rule command_keeps_transaction_ok)
qed

text \<open>C5: Each command that leaves the session running is answered by exactly one final reply (LHLO's
  continuation lines and DATA's 354 are not final), whatever branch it takes, so replies and
  commands stay in step.\<close>

theorem one_reply_per_command:
  assumes "5 \<le> ss_budget s" "handle_line e line sv s = (Continue, sv', s')"
  shows "finals s' = Suc (finals s)"
proof -
  have b: "0 < ss_budget s" "2 \<le> ss_budget s" using assms(1) by simp_all
  obtain cmd arg where c: "splitCommand (en_upper e) line = (cmd, arg)" by (cases "splitCommand (en_upper e) line")
  have "finals (snd (snd (handle_line e line sv s))) = Suc (finals s)"
  proof (cases "line = []")
    case True
    then show ?thesis using b by (simp add: handle_line_def finals_reply)
  next
    case False
    then have h: "handle_line e line sv s = handle_command e cmd arg sv s" by (simp add: handle_line_def c)
    have d: "cmd = ''DATA'' \<Longrightarrow> finals (snd (snd (handleDATA e sv s))) = Suc (finals s)"
      using finals_handleDATA [OF b(2), of e sv] assms(2) h by (simp add: handle_command_def)
    have w: "finals (snd (writeCapabilities (sv_cfg sv) (s\<lparr>ss_helo := trim_space arg, ss_txn := no_transaction\<rparr>))) = Suc (finals s)"
      using assms(1) by (subst finals_capabilities) simp_all
    show ?thesis unfolding h
      using d w b by (simp add: handle_command_def case_prod_beta finals_MAIL finals_RCPT finals_reply)
  qed
  then show ?thesis using assms(2) by simp
qed

lemma one_reply_per_command_witness:
  "finals (reply ''500 5.5.2 empty command'' (tiny_session [])) = Suc (finals (tiny_session []))"
  using one_reply_per_command [of "tiny_session []" tiny_env "[]" "NewServer tiny_config"]
  by (simp add: handle_line_def tiny_session_def)

text \<open>C6: A message that fits is delivered as it was written.  When the client has a recipient, a slot is
  free, and it sends a message of lines in the dot-stuffed wire form, the job that is submitted
  carries exactly those lines with their CRLFs, the reply is the one for the job's result, the
  transaction is reset, and the bytes after the final dot are left for the next command.\<close>

theorem DATA_delivers_message:
  assumes "txn_recipient (ss_txn s) = Some rcpt" "2 \<le> ss_budget s"
    and "acquireSlot sv = (True, sv1)" "list_all (\<lambda>l. LF \<notin> set l) ls"
    and "ss_in s = wire ls @ rest" "length (text_of ls) \<le> nat (cf_body_max (sv_cfg sv1))"
    and "sv2 = sv1\<lparr>dataBytes := dataBytes sv1 + length (text_of ls)\<rparr>"
    and "job = \<lparr>j_id = en_job_id e sv2, j_resolved = rcpt, j_sender = txn_mail_from (ss_txn s), j_raw = text_of ls\<rparr>"
    and "submitJob (en_ctx_done e sv2) (en_pick_send e) job sv2 = Submitted sv3"
    and "en_wait e job (sv3\<lparr>jobsSubmitted := Suc (jobsSubmitted sv3)\<rparr>) = (Some st, sv4)"
  shows "handleDATA e sv s = (Continue, sv4,
      s\<lparr>ss_in := rest, ss_out := ss_out s @ [''354 End data with <CR><LF>.<CR><LF>'', status_line st],
        ss_budget := ss_budget s - 2, ss_txn := no_transaction\<rparr>)"
proof -
  have b: "0 < ss_budget s" using assms(2) by simp
  have r: "readData (nat (cf_body_max (sv_cfg sv1))) [] False (ss_in s) = (Some (text_of ls, False), rest)"
    using readData_wire_fits [OF assms(4), of "[]"] assms(5,6) by simp
  show ?thesis
    using assms(2,7-10)
    by (simp add: handleDATA_read [OF assms(1,3) b r] submit_message_def Let_def await_result_def reply_next_def
        writeLine_def)
qed

lemma DATA_delivers_message_witness:
  "\<exists>sv. handleDATA tiny_env (NewServer tiny_config) (tiny_session (wire [''.a''] @ ''QUIT'')) =
     (Continue, sv, (tiny_session (wire [''.a''] @ ''QUIT''))\<lparr>ss_in := ''QUIT'',
        ss_out := [''354 End data with <CR><LF>.<CR><LF>'', ''250 2.0.0 delivered''], ss_budget := 7,
        ss_txn := no_transaction\<rparr>)"
proof -
  let ?s = "tiny_session (wire [''.a''] @ ''QUIT'')"
  let ?sv1 = "(NewServer tiny_config)\<lparr>sv_slots := chan_make 1, inFlightHighWater := 1\<rparr>"
  let ?sv2 = "?sv1\<lparr>dataBytes := dataBytes ?sv1 + length (text_of [''.a''])\<rparr>"
  let ?job = "\<lparr>j_id = en_job_id tiny_env ?sv2, j_resolved = tiny_recipient, j_sender = txn_mail_from (ss_txn ?s),
               j_raw = text_of [''.a'']\<rparr>"
  have 1: "txn_recipient (ss_txn ?s) = Some tiny_recipient" "2 \<le> ss_budget ?s" "ss_in ?s = wire [''.a''] @ ''QUIT''"
    by (simp_all add: tiny_session_def)
  have 2: "list_all (\<lambda>l. LF \<notin> set l) [''.a'']" "length (text_of [''.a'']) \<le> nat (cf_body_max (sv_cfg ?sv1))"
    using tiny_body_max by (simp_all add: text_of_def)
  obtain sv3 where 3: "submitJob (en_ctx_done tiny_env ?sv2) (en_pick_send tiny_env) ?job ?sv2 = Submitted sv3"
    by (simp add: submitJob_def try_send_def tiny_env_def NewServer_def Let_def tiny_config_def normal_config_def)
  have 4: "en_wait tiny_env ?job (sv3\<lparr>jobsSubmitted := Suc (jobsSubmitted sv3)\<rparr>) =
      (Some DeliveryOK, sv3\<lparr>jobsSubmitted := Suc (jobsSubmitted sv3)\<rparr>)"
    by (simp add: tiny_env_def)
  from DATA_delivers_message [OF 1(1,2) tiny_acquire 2(1) 1(3) 2(2) refl refl 3 4]
  show ?thesis by (auto simp: status_line_def tiny_session_def)
qed

text \<open>C7: A message whose unstuffed text is longer than the limit is refused with 552 after it has been
  read to its end, and the slot goes back to the pool; the transaction stays as it was, so the
  recipient is still set when the next command comes.\<close>

theorem DATA_refuses_oversized:
  assumes "txn_recipient (ss_txn s) = Some rcpt" "2 \<le> ss_budget s"
    and "acquireSlot sv = (True, sv1)" "list_all (\<lambda>l. LF \<notin> set l) ls"
    and "ss_in s = wire ls @ rest" "nat (cf_body_max (sv_cfg sv1)) < length (text_of ls)"
    and "\<not> closed (sv_slots sv)" "length (buf (sv_slots sv)) \<le> cap (sv_slots sv)"
  shows "\<exists>sv2. handleDATA e sv s = (Continue, sv2,
      s\<lparr>ss_in := rest, ss_out := ss_out s @ [''354 End data with <CR><LF>.<CR><LF>'', ''552 5.3.4 message exceeds ingress limit''],
        ss_budget := ss_budget s - 2\<rparr>) \<and> buf (sv_slots sv2) = buf (sv_slots sv) \<and> sv_jobs sv2 = sv_jobs sv
      \<and> oversizedMessages sv2 = Suc (oversizedMessages sv)"
proof -
  have b: "0 < ss_budget s" using assms(2) by simp
  obtain raw where r: "readData (nat (cf_body_max (sv_cfg sv1))) [] False (ss_in s) = (Some (raw, True), rest)"
    using readData_wire_exceeds [OF assms(4), of _ "[]"] assms(5,6) by fastforce
  obtain c where c: "buf (sv_slots sv) = () # buf c" "c = (sv_slots sv)\<lparr>buf := tl (buf (sv_slots sv))\<rparr>"
    and sv1: "sv1 = sv\<lparr>sv_slots := c, inFlightHighWater := recordHighWater (inFlightHighWater sv) (queue_size sv - length (buf c))\<rparr>"
    using acquireSlot_True [OF assms(3)] by blast
  have rep: "xs @ [()] = () # xs" for xs by (induction xs) auto
  have "cap c = cap (sv_slots sv)" "closed c = closed (sv_slots sv)" by (subst c(2), simp)+
  moreover have "length (buf (sv_slots sv)) = Suc (length (buf c))" by (simp only: c(1) list.size)
  ultimately have "length (buf c) < cap c" "\<not> closed c" using assms(7,8) by simp_all
  then have "releaseSlot (sv1\<lparr>oversizedMessages := Suc (oversizedMessages sv1)\<rparr>) =
      Some (sv1\<lparr>oversizedMessages := Suc (oversizedMessages sv1), sv_slots := c\<lparr>buf := buf c @ [()]\<rparr>\<rparr>)"
    by (simp add: releaseSlot_def try_send_def sv1)
  then show ?thesis
    using assms(2) c(1) rep
    by (simp add: handleDATA_read [OF assms(1,3) b r] Let_def reply_next_def writeLine_def release_and_def sv1)
qed

lemma DATA_refuses_oversized_witness:
  "\<exists>sv. handleDATA tiny_env (NewServer tiny_config) (tiny_session (wire [''0123456789''] @ ''QUIT'')) =
     (Continue, sv, (tiny_session (wire [''0123456789''] @ ''QUIT''))\<lparr>ss_in := ''QUIT'',
        ss_out := [''354 End data with <CR><LF>.<CR><LF>'', ''552 5.3.4 message exceeds ingress limit''],
        ss_budget := 7\<rparr>)"
proof -
  let ?s = "tiny_session (wire [''0123456789''] @ ''QUIT'')"
  let ?sv1 = "(NewServer tiny_config)\<lparr>sv_slots := chan_make 1, inFlightHighWater := 1\<rparr>"
  have 1: "txn_recipient (ss_txn ?s) = Some tiny_recipient" "2 \<le> ss_budget ?s" "ss_in ?s = wire [''0123456789''] @ ''QUIT''"
    by (simp_all add: tiny_session_def)
  have 2: "list_all (\<lambda>l. LF \<notin> set l) [''0123456789'']"
    "nat (cf_body_max (sv_cfg ?sv1)) < length (text_of [''0123456789''])"
    using tiny_body_max by (simp_all add: text_of_def)
  have 3: "\<not> closed (sv_slots (NewServer tiny_config))"
    "length (buf (sv_slots (NewServer tiny_config))) \<le> cap (sv_slots (NewServer tiny_config))"
    by (simp_all add: NewServer_def Let_def)
  from DATA_refuses_oversized [OF 1(1,2) tiny_acquire 2(1) 1(3) 2(2) 3, of tiny_env]
  show ?thesis by (auto simp: tiny_session_def)
qed

end
