(* ===== verification/Tables.thy ===== *)
theory Tables
  imports Prelude
begin

text \<open>
  Database tables as the store uses them: a table is a list of rows, found, updated and deleted by
  a key; a transaction either commits its changes or leaves the database as it was.  The locale
  \<open>keyed_table\<close> is what the clients rely on: an update of one row touches no other, keeps the keys, and
  changes a sum over the table by exactly the change of that row.
\<close>

definition find_row :: "('r \<Rightarrow> 'k) \<Rightarrow> 'k \<Rightarrow> 'r list \<Rightarrow> 'r option" where
  "find_row key k rows = find (\<lambda>r. key r = k) rows"

definition update_row :: "('r \<Rightarrow> 'k) \<Rightarrow> 'k \<Rightarrow> ('r \<Rightarrow> 'r) \<Rightarrow> 'r list \<Rightarrow> 'r list" where
  "update_row key k f rows = map (\<lambda>r. if key r = k then f r else r) rows"

definition delete_row :: "('r \<Rightarrow> 'k) \<Rightarrow> 'k \<Rightarrow> 'r list \<Rightarrow> 'r list" where
  "delete_row key k rows = filter (\<lambda>r. key r \<noteq> k) rows"

definition keys_distinct :: "('r \<Rightarrow> 'k) \<Rightarrow> 'r list \<Rightarrow> bool" where
  "keys_distinct key rows = distinct (map key rows)"

definition sum_rows :: "('r \<Rightarrow> int) \<Rightarrow> 'r list \<Rightarrow> int" where
  "sum_rows f rows = sum_list (map f rows)"

definition count_rows :: "('r \<Rightarrow> bool) \<Rightarrow> 'r list \<Rightarrow> int" where
  "count_rows P rows = int (length (filter P rows))"

lemma sum_rows_simps [simp]:
  "sum_rows f [] = 0" "sum_rows f (r # rs) = f r + sum_rows f rs" "sum_rows f (rs @ ts) = sum_rows f rs + sum_rows f ts"
  by (simp_all add: sum_rows_def)

lemma find_row_Some: "find_row key k rows = Some r \<Longrightarrow> r \<in> set rows \<and> key r = k"
  by (auto simp: find_row_def find_Some_iff)

lemma find_row_None: "find_row key k rows = None \<longleftrightarrow> k \<notin> key ` set rows"
  by (auto simp: find_row_def find_None_iff)

lemma find_row_Cons: "find_row key k (r # rs) = (if key r = k then Some r else find_row key k rs)"
  by (simp add: find_row_def)

lemma find_row_unique: "keys_distinct key rows \<Longrightarrow> r \<in> set rows \<Longrightarrow> find_row key (key r) rows = Some r"
  by (induction rows) (auto simp: keys_distinct_def find_row_def)

lemma set_update_row_subset: "r \<in> set (update_row key k f rows) \<Longrightarrow> r \<in> set rows \<or> (\<exists>q \<in> set rows. key q = k \<and> r = f q)"
  by (auto simp: update_row_def)

lemma map_key_update_row:
  "(\<And>r. key (f r) = key r) \<Longrightarrow> map key (update_row key k f rows) = map key rows"
  by (simp add: update_row_def)

lemma find_row_update_row:
  "(\<And>r. key (f r) = key r) \<Longrightarrow>
   find_row key j (update_row key k f rows) = (if j = k then map_option f (find_row key j rows) else find_row key j rows)"
  by (induction rows) (auto simp: update_row_def find_row_def)

lemma update_row_absent: "k \<notin> key ` set rows \<Longrightarrow> update_row key k f rows = rows"
  by (induction rows) (auto simp: update_row_def)

lemma sum_rows_update:
  "keys_distinct key rows \<Longrightarrow> find_row key k rows = Some r \<Longrightarrow>
   sum_rows g (update_row key k f rows) = sum_rows g rows - g r + g (f r)"
proof (induction rows)
  case (Cons q rows)
  show ?case
  proof (cases "key q = k")
    case True
    then have "update_row key k f rows = rows"
      using Cons.prems by (intro update_row_absent) (auto simp: keys_distinct_def)
    then show ?thesis using True Cons.prems by (simp add: update_row_def find_row_Cons)
  next
    case False
    then show ?thesis using Cons by (simp add: update_row_def find_row_Cons keys_distinct_def)
  qed
qed (simp add: find_row_def)

lemma sum_rows_update_same:
  "(\<And>r. key r = k \<Longrightarrow> g (f r) = g r) \<Longrightarrow> sum_rows g (update_row key k f rows) = sum_rows g rows"
  by (induction rows) (auto simp: update_row_def)

lemma sum_rows_cong: "(\<And>r. r \<in> set rows \<Longrightarrow> f r = g r) \<Longrightarrow> sum_rows f rows = sum_rows g rows"
  by (induction rows) auto

lemma sum_rows_nonneg: "(\<And>r. r \<in> set rows \<Longrightarrow> 0 \<le> f r) \<Longrightarrow> 0 \<le> sum_rows f rows"
  by (induction rows) auto

lemma delete_row_distinct: "keys_distinct key rows \<Longrightarrow> keys_distinct key (delete_row key k rows)"
  by (simp add: keys_distinct_def delete_row_def distinct_map inj_on_def)

section \<open>The contract\<close>

locale keyed_table =
  fixes find :: "'k \<Rightarrow> 't \<Rightarrow> 'r option"
    and upd :: "'k \<Rightarrow> ('r \<Rightarrow> 'r) \<Rightarrow> 't \<Rightarrow> 't"
    and total :: "('r \<Rightarrow> int) \<Rightarrow> 't \<Rightarrow> int"
    and keeps :: "('r \<Rightarrow> 'r) \<Rightarrow> bool"
    and good :: "'t \<Rightarrow> bool"
  assumes find_upd: "keeps f \<Longrightarrow> find j (upd k f t) = (if j = k then map_option f (find j t) else find j t)"
    and upd_good: "keeps f \<Longrightarrow> good t \<Longrightarrow> good (upd k f t)"
    and total_upd: "good t \<Longrightarrow> find k t = Some r \<Longrightarrow> total g (upd k f t) = total g t - g r + g (f r)"
begin

lemma find_upd_same: "keeps f \<Longrightarrow> find k t = Some r \<Longrightarrow> find k (upd k f t) = Some (f r)"
  by (simp add: find_upd)

lemma find_upd_other: "keeps f \<Longrightarrow> j \<noteq> k \<Longrightarrow> find j (upd k f t) = find j t"
  by (simp add: find_upd)

lemma total_upd_keep: "good t \<Longrightarrow> find k t = Some r \<Longrightarrow> g (f r) = g r \<Longrightarrow> total g (upd k f t) = total g t"
  by (simp add: total_upd)

text \<open>Two updates of one row are one update.\<close>

lemma total_upd_twice:
  "good t \<Longrightarrow> keeps f \<Longrightarrow> find k t = Some r \<Longrightarrow>
   total g (upd k h (upd k f t)) = total g t - g r + g (h (f r))"
  using total_upd [OF upd_good [of f t k] find_upd_same [of f k t r]] total_upd [of t k r] by simp

end

section \<open>Transactions\<close>

datatype db_error = NoRows | Conflict | TokenLimit | OutOfRange | Rejected string | Fault

type_synonym ('d, 'a) tx = "'d \<Rightarrow> (db_error, 'a \<times> 'd) result"

text \<open>\<open>tx.Begin\<close> ... \<open>tx.Commit\<close> with the deferred rollback.  \<open>fault\<close> is a failure of the connection at
  any of the statements or at the commit.\<close>

definition run_tx :: "bool \<Rightarrow> ('d, 'a) tx \<Rightarrow> 'd \<Rightarrow> (db_error, 'a) result \<times> 'd" where
  "run_tx fault m d =
     (if fault then (Inl Fault, d)
      else case m d of Inl e \<Rightarrow> (Inl e, d) | Inr (x, d') \<Rightarrow> (Inr x, d'))"

lemma run_tx_error: "fst (run_tx fault m d) = Inl e \<Longrightarrow> snd (run_tx fault m d) = d"
  by (auto simp: run_tx_def split: sum.splits prod.splits if_splits)

lemma run_tx_ok: "run_tx fault m d = (Inr x, d') \<longleftrightarrow> \<not> fault \<and> m d = Inr (x, d')"
  by (auto simp: run_tx_def split: sum.splits)

text \<open>A loop of statements that stops at the first error.\<close>

fun each :: "('x \<Rightarrow> 'd \<Rightarrow> ('e, 'd) result) \<Rightarrow> 'x list \<Rightarrow> 'd \<Rightarrow> ('e, 'd) result" where
  "each f [] d = Inr d"
| "each f (x # xs) d = rbind (f x d) (each f xs)"

lemma each_invariant:
  "each f xs d = Inr d' \<Longrightarrow> P d \<Longrightarrow> (\<And>x a b. x \<in> set xs \<Longrightarrow> P a \<Longrightarrow> f x a = Inr b \<Longrightarrow> P b) \<Longrightarrow> P d'"
  by (induction xs arbitrary: d) (auto simp: rbind_Inr_iff)

text \<open>The columns' integer ranges: a statement that writes a value out of range fails.\<close>

definition int4 :: "int \<Rightarrow> bool" where
  "int4 x = (- (2 ^ 31) \<le> x \<and> x < 2 ^ 31)"

definition int8 :: "int \<Rightarrow> bool" where
  "int8 x = (- (2 ^ 63) \<le> x \<and> x < 2 ^ 63)"

end
