(* ===== verification/Database.thy ===== *)
theory Database
  imports Models Tables GoText
begin

text \<open>
  The database of the store (\<open>src/api/store/auxiliary_schema.go\<close>): one list of rows per table, and the
  reads of \<open>app_settings\<close> (\<open>settings.go\<close>, \<open>tokens.go\<close>).  Rows the statements select by id are found by
  key; a row's extra columns that never leave the store (hashes) extend the model's record.
\<close>

record token_row = account_token +
  tr_hash :: string

record donation_row = domain_donation +
  dr_claim_hash :: string

record reward_event =
  re_id :: int
  re_token :: uuid
  re_donation :: "uuid option"
  re_type :: string
  re_total :: int
  re_daily :: int
  re_rpm :: int
  re_note :: string
  re_at :: time

text \<open>\<open>db_usage\<close> is \<open>api_request_daily\<close>, keyed by day and token.\<close>

record usage_row =
  us_day :: int
  us_token :: uuid
  us_account :: uuid
  us_count :: int

record db =
  db_accounts :: "account list"
  db_tokens :: "token_row list"
  db_domains :: "mail_domain list"
  db_donations :: "donation_row list"
  db_events :: "reward_event list"
  db_settings :: "string \<rightharpoonup> string"
  db_usage :: "usage_row list"

definition empty_db :: db where
  "empty_db =
     \<lparr>db_accounts = [], db_tokens = [], db_domains = [], db_donations = [], db_events = [],
      db_settings = Map.empty, db_usage = []\<rparr>"

interpretation tokens: keyed_table "find_row tok_id" "update_row tok_id" sum_rows
    "\<lambda>f :: token_row \<Rightarrow> token_row. \<forall>r. tok_id (f r) = tok_id r" "keys_distinct tok_id"
  by unfold_locales (auto simp: find_row_update_row keys_distinct_def map_key_update_row sum_rows_update)

interpretation donations: keyed_table "find_row don_id" "update_row don_id" sum_rows
    "\<lambda>f :: donation_row \<Rightarrow> donation_row. \<forall>r. don_id (f r) = don_id r" "keys_distinct don_id"
  by unfold_locales (auto simp: find_row_update_row keys_distinct_def map_key_update_row sum_rows_update)

interpretation domains: keyed_table "find_row dom_id" "update_row dom_id" sum_rows
    "\<lambda>f :: mail_domain \<Rightarrow> mail_domain. \<forall>r. dom_id (f r) = dom_id r" "keys_distinct dom_id"
  by unfold_locales (auto simp: find_row_update_row keys_distinct_def map_key_update_row sum_rows_update)

section \<open>Settings\<close>

text \<open>\<open>fmt.Sscanf(v, "%d", &n)\<close> on a trimmed string: an optional sign and at least one digit; what
  follows the digits is ignored.\<close>

definition scan_int :: "string \<Rightarrow> int option" where
  "scan_int v =
     (let neg = has_prefix v ''-'';
          body = (if neg \<or> has_prefix v ''+'' then tl v else v);
          ds = takeWhile is_digit body in
      if ds = [] then None
      else case digits_value 0 ds of
        None \<Rightarrow> None
      | Some n \<Rightarrow> (let x = (if neg then - int n else int n) in if int8 x then Some x else None))"

definition intSetting :: "(string \<rightharpoonup> string) \<Rightarrow> string \<Rightarrow> int \<Rightarrow> int" where
  "intSetting settings key fallback =
     (case settings key of
        None \<Rightarrow> fallback
      | Some raw \<Rightarrow>
          (let v = trim_space raw in
           if v = [] then fallback
           else case scan_int v of None \<Rightarrow> fallback | Some n \<Rightarrow> n))"

definition settingOr :: "(string \<rightharpoonup> string) \<Rightarrow> string \<Rightarrow> string \<Rightarrow> string" where
  "settingOr settings key fallback =
     (case settings key of
        None \<Rightarrow> fallback
      | Some v \<Rightarrow> if trim_space v = [] then fallback else trim_space v)"

definition GetSetting :: "db \<Rightarrow> string \<Rightarrow> (db_error, string) result" where
  "GetSetting d key = of_option NoRows (db_settings d key)"

definition SetSetting :: "string \<Rightarrow> string \<Rightarrow> db \<Rightarrow> db" where
  "SetSetting key value d = d\<lparr>db_settings := (db_settings d)(key \<mapsto> value)\<rparr>"

text \<open>\<open>SetSettings\<close>: all pairs in one transaction; \<open>fault_at\<close> is the statement that fails.\<close>

fun set_all :: "nat option \<Rightarrow> (string \<times> string) list \<Rightarrow> db \<Rightarrow> db option" where
  "set_all fault_at [] d = (if fault_at = Some 0 then None else Some d)"
| "set_all fault_at ((k, v) # kvs) d =
     (if fault_at = Some 0 then None
      else set_all (map_option (\<lambda>n. n - 1) fault_at) kvs (SetSetting k v d))"

definition SetSettings :: "nat option \<Rightarrow> (string \<times> string) list \<Rightarrow> db \<Rightarrow> (db_error, unit) result \<times> db" where
  "SetSettings fault_at kvs d =
     (case set_all fault_at kvs d of None \<Rightarrow> (Inl Fault, d) | Some d' \<Rightarrow> (Inr (), d'))"

section \<open>The owner account\<close>

text \<open>\<open>SELECT id FROM accounts WHERE is_admin AND is_active ORDER BY created_at, id LIMIT 1\<close>.\<close>

definition earlier :: "account \<Rightarrow> account \<Rightarrow> bool" where
  "earlier a b = (acc_created_at a < acc_created_at b \<or> (acc_created_at a = acc_created_at b \<and> acc_id a \<le> acc_id b))"

fun first_account :: "account list \<Rightarrow> account option" where
  "first_account [] = None"
| "first_account (a # as) =
     (case first_account as of None \<Rightarrow> Some a | Some b \<Rightarrow> if earlier a b then Some a else Some b)"

definition owner_account :: "db \<Rightarrow> account option" where
  "owner_account d = first_account (filter (\<lambda>a. acc_is_admin a \<and> acc_is_active a) (db_accounts d))"

lemma first_account_in: "first_account as = Some a \<Longrightarrow> a \<in> set as"
  by (induction as arbitrary: a) (auto split: option.splits if_splits)

lemma first_account_least: "first_account as = Some a \<Longrightarrow> b \<in> set as \<Longrightarrow> earlier a b"
proof (induction as arbitrary: a)
  case (Cons c as)
  show ?case
  proof (cases "first_account as")
    case None
    then have "as = []" by (cases as) (auto split: option.splits if_splits)
    then show ?thesis using Cons.prems by (auto simp: earlier_def)
  next
    case (Some d)
    have "earlier d b" if "b \<in> set as" using Cons.IH [OF Some that] .
    then show ?thesis using Cons.prems Some by (auto simp: earlier_def split: if_splits)
  qed
qed simp

lemma owner_account_admin: "owner_account d = Some a \<Longrightarrow> acc_is_admin a \<and> acc_is_active a \<and> a \<in> set (db_accounts d)"
  using first_account_in by (fastforce simp: owner_account_def)

end
