(* ===== verification/Credentials.thy ===== *)
theory Credentials
  imports GoText
begin

text \<open>
  The credentials of the program (\<open>src/api/store/tokens.go\<close>): API tokens (32 lower-case hex digits) and
  admin keys (\<open>sk-<prefix>-<16 or 32 hex>\<close>), how they are generated from random bytes, sanitised,
  recognised and hashed.  SHA-256 is the parameter \<open>sha\<close>; random bytes are arguments.
\<close>

definition hashToken :: "(string \<Rightarrow> string) \<Rightarrow> string \<Rightarrow> string" where
  "hashToken sha raw = hex_encode (sha (trim_space raw))"

definition tokenPrefix :: "string \<Rightarrow> string" where
  "tokenPrefix raw0 = (let raw = trim_space raw0 in if length raw \<le> 16 then raw else take 16 raw)"

definition prefix_rune :: "nat \<Rightarrow> bool" where
  "prefix_rune r = ((97 \<le> r \<and> r \<le> 122) \<or> (48 \<le> r \<and> r \<le> 57) \<or> r = 95 \<or> r = 45)"

definition hex_rune :: "nat \<Rightarrow> bool" where
  "hex_rune r = ((48 \<le> r \<and> r \<le> 57) \<or> (97 \<le> r \<and> r \<le> 102))"

text \<open>The loop of \<open>sanitizeTokenSecretPrefix\<close>: code points left, bytes written, whether the last one
  was a dash.\<close>

fun sanitize_loop :: "nat list \<Rightarrow> string \<Rightarrow> bool \<Rightarrow> string" where
  "sanitize_loop [] b last_dash = b"
| "sanitize_loop (r # rs) b last_dash =
     (if \<not> prefix_rune r then
        (if \<not> last_dash \<and> b \<noteq> [] then sanitize_loop rs (b @ ''-'') True else sanitize_loop rs b last_dash)
      else if r = 45 \<and> (b = [] \<or> last_dash) then sanitize_loop rs b last_dash
      else
        (let b' = b @ [char_of r] in
         if 24 \<le> length b' then b' else sanitize_loop rs b' (r = 45)))"

definition sanitizeTokenSecretPrefix :: "(nat \<Rightarrow> nat) \<Rightarrow> string \<Rightarrow> string" where
  "sanitizeTokenSecretPrefix lo raw =
     (let out = trim_cut ''-_'' (sanitize_loop (map fst (runes (to_lower lo (trim_space raw)))) [] False) in
      if out = [] then ''mail'' else out)"

definition generateAccessToken :: "string \<Rightarrow> string" where
  "generateAccessToken random = hex_encode random"

text \<open>\<open>random\<close> are the 8 or 16 bytes drawn.\<close>

definition admin_key_bytes :: "int \<Rightarrow> nat" where
  "admin_key_bytes hex_length = (if hex_length = 16 then 8 else 16)"

definition generateAdminAuthKey :: "(nat \<Rightarrow> nat) \<Rightarrow> string \<Rightarrow> string \<Rightarrow> string" where
  "generateAdminAuthKey lo prefix random =
     ''sk-'' @ sanitizeTokenSecretPrefix lo prefix @ ''-'' @ hex_encode random"

definition isAccessTokenFormat :: "string \<Rightarrow> bool" where
  "isAccessTokenFormat raw0 =
     (let raw = trim_space raw0 in length raw = 32 \<and> list_all hex_rune (map fst (runes raw)))"

definition isNamedSecretFormat :: "string \<Rightarrow> bool \<Rightarrow> bool" where
  "isNamedSecretFormat raw0 allow_short =
     (let raw = trim_space raw0 in
      if \<not> has_prefix raw ''sk-'' then False
      else case last_index_byte raw (CHR ''-'') of
        None \<Rightarrow> False
      | Some last_dash \<Rightarrow>
          (let secret_length = length raw - last_dash - 1;
               prefix = take (last_dash - 3) (drop 3 raw) in
           if last_dash \<le> 3 \<or> (secret_length \<noteq> 32 \<and> \<not> (allow_short \<and> secret_length = 16)) then False
           else if prefix = [] \<or> length prefix > 24 then False
           else list_all prefix_rune (map fst (runes prefix))
                \<and> list_all hex_rune (map fst (runes (drop (Suc last_dash) raw)))))"

definition isAdminAuthKeyFormat :: "string \<Rightarrow> bool" where
  "isAdminAuthKeyFormat raw = isNamedSecretFormat raw True"

definition normalizeScope :: "(nat \<Rightarrow> nat) \<Rightarrow> string \<Rightarrow> string" where
  "normalizeScope lo scope0 =
     (let scope = to_lower lo (trim_space scope0) in
      if scope = ''cleanup'' \<or> scope = ''owner'' then scope
      else if scope = ''read'' then scope
      else ''read'')"

section \<open>Sanitising\<close>

definition prefix_char :: "char \<Rightarrow> bool" where
  "prefix_char c = prefix_rune (byte c)"

lemma prefix_rune_char: "prefix_rune r \<Longrightarrow> prefix_char (char_of r) \<and> byte (char_of r :: char) = r"
  by (auto simp: prefix_char_def prefix_rune_def)

lemma dash_prefix_char: "prefix_char (CHR ''-'')"
  by (simp add: prefix_char_def prefix_rune_def)

lemma sanitize_loop_chars:
  "list_all prefix_char b \<Longrightarrow> list_all prefix_char (sanitize_loop rs b d)"
  by (induction rs b d rule: sanitize_loop.induct) (auto simp: Let_def prefix_rune_char dash_prefix_char)

lemma sanitize_loop_short: "length (sanitize_loop rs b d) \<le> length b + length rs"
  by (induction rs b d rule: sanitize_loop.induct) (auto simp: Let_def intro: order_trans)

text \<open>Without disallowed characters the bound of 24 is exact; with them a dash may come on top.\<close>

lemma sanitize_loop_allowed:
  "list_all prefix_rune rs \<Longrightarrow> length b < 24 \<Longrightarrow> length (sanitize_loop rs b d) \<le> 24"
  by (induction rs b d rule: sanitize_loop.induct) (auto simp: Let_def)

lemma length_trim_cut: "length (trim_cut cs s) \<le> length s"
proof -
  have "length (trim_left cs s) \<le> length s" unfolding trim_left_def by (rule length_dropWhile_le)
  moreover have "length (trim_cut cs s) \<le> length (trim_left cs s)"
    unfolding trim_cut_def trim_right_def by (metis length_dropWhile_le length_rev)
  ultimately show ?thesis by simp
qed

lemma sanitize_chars: "list_all prefix_char (sanitizeTokenSecretPrefix lo raw)"
proof -
  have "list_all prefix_char (sanitize_loop rs [] False)" for rs by (rule sanitize_loop_chars) simp
  then have "list_all prefix_char (trim_cut ''-_'' (sanitize_loop rs [] False))" for rs
    using set_trim_cut [of "''-_''" "sanitize_loop rs [] False"] unfolding list_all_iff by blast
  moreover have "list_all prefix_char ''mail''" by (simp add: prefix_char_def prefix_rune_def)
  ultimately show ?thesis by (simp add: sanitizeTokenSecretPrefix_def Let_def)
qed

lemma sanitize_nonempty: "sanitizeTokenSecretPrefix lo raw \<noteq> []"
  by (simp add: sanitizeTokenSecretPrefix_def Let_def)

definition short_or_allowed :: "(nat \<Rightarrow> nat) \<Rightarrow> string \<Rightarrow> bool" where
  "short_or_allowed lo raw =
     (let rs = map fst (runes (to_lower lo (trim_space raw))) in length rs \<le> 24 \<or> list_all prefix_rune rs)"

lemma sanitize_length:
  assumes "short_or_allowed lo raw" shows "length (sanitizeTokenSecretPrefix lo raw) \<le> 24"
proof -
  let ?rs = "map fst (runes (to_lower lo (trim_space raw)))"
  have "length (sanitize_loop ?rs [] False) \<le> 24"
    using assms sanitize_loop_short [of ?rs "[]" False] sanitize_loop_allowed [of ?rs "[]" False]
    by (auto simp: short_or_allowed_def Let_def)
  then have "length (trim_cut ''-_'' (sanitize_loop ?rs [] False)) \<le> 24"
    using length_trim_cut order_trans by blast
  then show ?thesis by (simp add: sanitizeTokenSecretPrefix_def Let_def)
qed

section \<open>Formats\<close>

lemma prefix_char_ascii: "list_all prefix_char s \<Longrightarrow> is_ascii s"
  by (auto simp: list_all_iff prefix_char_def prefix_rune_def is_ascii_def)

lemma lower_hex_ascii: "list_all is_lower_hex s \<Longrightarrow> is_ascii s"
  by (auto simp: list_all_iff is_lower_hex_def is_digit_def is_ascii_def)

lemma hex_encode_ascii: "is_ascii (hex_encode s)"
  by (rule lower_hex_ascii [OF hex_encode_hex])

lemma hex_runes: "list_all is_lower_hex s \<Longrightarrow> list_all hex_rune (map fst (runes s))"
  by (simp add: runes_ascii [OF lower_hex_ascii]) (auto simp: list_all_iff hex_rune_def is_lower_hex_def is_digit_def)

lemma prefix_runes: "list_all prefix_char s \<Longrightarrow> list_all prefix_rune (map fst (runes s))"
  by (simp add: runes_ascii [OF prefix_char_ascii]) (auto simp: list_all_iff prefix_char_def)

lemma trim_space_id_ascii:
  assumes "is_ascii s" "s = [] \<or> (\<not> ascii_space (hd s) \<and> \<not> ascii_space (last s))"
  shows "trim_space s = s"
proof -
  have "dropWhile ascii_space s = s" using assms(2) by (auto intro: dropWhile_id_hd)
  moreover have "dropWhile ascii_space (rev s) = rev s" using assms(2) by (intro dropWhile_id_hd) (auto simp: hd_rev)
  ultimately show ?thesis by (simp add: trim_space_ascii [OF assms(1)])
qed

lemma hex_not_space: "is_lower_hex c \<Longrightarrow> \<not> ascii_space c"
  by (auto simp: is_lower_hex_def is_digit_def ascii_space_def)

lemma hex_not_dash: "is_lower_hex c \<Longrightarrow> c \<noteq> CHR ''-''"
  by (auto simp: is_lower_hex_def is_digit_def)

lemma trim_space_hex: "list_all is_lower_hex s \<Longrightarrow> trim_space s = s"
  by (rule trim_space_id_ascii) (auto simp: lower_hex_ascii list_all_iff hex_not_space)

lemma drop_exact: "drop (length xs) (xs @ ys) = ys"
  by simp

lemma is_ascii_append [simp]: "is_ascii (a @ b) \<longleftrightarrow> is_ascii a \<and> is_ascii b"
  by (simp add: is_ascii_def)

section \<open>Properties\<close>

text \<open>Every generated API token has the format the authenticator accepts, and its hash is computed
  from exactly the token's bytes.\<close>

theorem generated_token_accepted:
  assumes "length random = 16"
  shows "isAccessTokenFormat (generateAccessToken random)
       \<and> hashToken sha (generateAccessToken random) = hex_encode (sha (generateAccessToken random))"
  using assms trim_space_hex [OF hex_encode_hex, of random] hex_runes [OF hex_encode_hex, of random]
  by (simp add: isAccessTokenFormat_def hashToken_def generateAccessToken_def Let_def)

lemma generated_token_accepted_witness: "isAccessTokenFormat (generateAccessToken (replicate 16 CHR ''x''))"
  using generated_token_accepted [of "replicate 16 CHR ''x''"] by simp

text \<open>Every admin key generated from a prefix that has at most 24 code points, or only allowed
  characters, has the admin-key format, whatever else the prefix contains; so rotating the key
  cannot produce one that the console rejects.\<close>

theorem generated_admin_key_accepted:
  assumes "length random = admin_key_bytes hex_length" "short_or_allowed lo prefix"
  shows "isAdminAuthKeyFormat (generateAdminAuthKey lo prefix random)"
proof -
  let ?p = "sanitizeTokenSecretPrefix lo prefix"
  let ?h = "hex_encode random"
  let ?k = "(''sk-'' @ ?p) @ CHR ''-'' # ?h"
  have h: "list_all is_lower_hex ?h" "length ?h = 16 \<or> length ?h = 32"
    using assms(1) by (auto simp: hex_encode_hex admin_key_bytes_def)
  have hne: "?h \<noteq> []"
    using assms(1) by (cases random) (auto simp: admin_key_bytes_def hex_encode_def split: if_splits)
  have p: "?p \<noteq> []" "length ?p \<le> 24" "list_all prefix_char ?p"
    using sanitize_nonempty sanitize_length [OF assms(2)] sanitize_chars by auto
  have "\<not> ascii_space (last ?h)" using h(1) hne by (simp add: list_all_iff hex_not_space)
  moreover have "is_ascii ?k" using prefix_char_ascii [OF p(3)] lower_hex_ascii [OF h(1)] by (simp add: is_ascii_def)
  ultimately have t: "trim_space ?k = ?k"
    using hne by (intro trim_space_id_ascii) (auto simp: ascii_space_def)
  have "CHR ''-'' \<notin> set ?h" using h(1) hex_not_dash by (auto simp: list_all_iff)
  then have i: "last_index_byte ?k (CHR ''-'') = Some (3 + length ?p)"
    unfolding last_index_byte_Some_iff by (intro exI [of _ "''sk-'' @ ?p"] exI [of _ ?h]) simp
  have "drop (length (''sk-'' @ ?p @ ''-'')) ((''sk-'' @ ?p @ ''-'') @ ?h) = ?h" by (rule drop_exact)
  then have d: "drop (Suc (3 + length ?p)) ?k = ?h" "take (3 + length ?p - 3) (drop 3 ?k) = ?p"
    by (simp_all add: numeral_eq_Suc)
  have "isNamedSecretFormat ?k True"
    unfolding isNamedSecretFormat_def Let_def t i option.case d
    using p h(2) prefix_runes [OF p(3)] hex_runes [OF h(1)] by (auto simp: has_prefix_def)
  then show ?thesis by (simp add: isAdminAuthKeyFormat_def generateAdminAuthKey_def)
qed

lemma generated_admin_key_accepted_witness:
  "isAdminAuthKeyFormat (generateAdminAuthKey (\<lambda>r. r) [] (replicate 8 CHR ''x''))"
  using generated_admin_key_accepted [of "replicate 8 CHR ''x''" 16 "\<lambda>r. r" "[]"]
  by (simp add: admin_key_bytes_def short_or_allowed_def)

text \<open>No string is both an API token and an admin key.\<close>

lemma credential_kinds_disjoint:
  assumes "isAccessTokenFormat raw" shows "\<not> isAdminAuthKeyFormat raw"
proof
  assume "isAdminAuthKeyFormat raw"
  then have "has_prefix (trim_space raw) ''sk-''"
    by (simp add: isAdminAuthKeyFormat_def isNamedSecretFormat_def Let_def split: if_splits)
  then obtain t where t: "trim_space raw = CHR ''s'' # t" by (auto simp: has_prefix_iff)
  have "list_all hex_rune (map fst (runes (trim_space raw)))"
    using assms by (simp add: isAccessTokenFormat_def Let_def)
  then have "hex_rune (byte (CHR ''s''))" unfolding t by (simp add: runes_ascii_Cons)
  then show False by (simp add: hex_rune_def)
qed

text \<open>A prefix with a disallowed character in place 24 gives 25 characters, one more than the format
  allows.\<close>

lemma sanitize_may_exceed:
  "length (sanitize_loop (replicate 23 97 @ [33, 97]) [] False) = 25"
  by (simp add: prefix_rune_def numeral_eq_Suc)

end
