(* ===== verification/Donations.thy ===== *)
theory Donations
  imports Database Credentials "HOL-Library.List_Lexorder"
begin

text \<open>
  Domain donations and their rewards (\<open>src/api/store/donations.go\<close>).  A donation of a domain grants its
  token requests per minute, per day and in total while the domain's DNS records hold; every grant,
  loss and manual adjustment is an event of the reward ledger, and the token's limits are recomputed
  from the active donations and the manual adjustments.  The transactions are modelled up to their commit;
  the row that some of them read again afterwards, to return it, is the one in the database they leave.
  The invalidations of the token and domain caches after a commit are in the theory \<open>Token_Cache\<close>.
\<close>

record donation_policy =
  pol_rpm :: int
  pol_daily :: int
  pol_total :: int
  pol_max_domains :: int

record verification =
  ver_valid :: bool
  ver_transient :: bool
  ver_status :: string

definition DonationPolicy :: "(string \<rightharpoonup> string) \<Rightarrow> donation_policy" where
  "DonationPolicy settings =
     (let rpm = intSetting settings ''donation_reward_rate_limit_per_minute'' 30;
          daily = intSetting settings ''donation_reward_daily_request_limit'' 5000;
          tot_req = intSetting settings ''donation_reward_total_request_limit'' 100000;
          most = intSetting settings ''donation_max_domains_per_token'' 10 in
      \<lparr>pol_rpm = (if rpm < 1 then 1 else rpm), pol_daily = (if daily < 0 then 0 else daily),
       pol_total = (if tot_req < 1 then 1 else tot_req), pol_max_domains = (if most < 1 then 1 else most)\<rparr>)"

section \<open>Ledger and limits\<close>

definition next_event_id :: "db \<Rightarrow> int" where
  "next_event_id d = foldl max 0 (map re_id (db_events d)) + 1"

text \<open>\<open>INSERT INTO donation_reward_events\<close>.\<close>

definition insert_event ::
    "time \<Rightarrow> uuid \<Rightarrow> uuid option \<Rightarrow> string \<Rightarrow> int \<Rightarrow> int \<Rightarrow> int \<Rightarrow> string \<Rightarrow> db \<Rightarrow> (db_error, db) result" where
  "insert_event now token donation kind tot_req daily rpm note d =
     (if int8 tot_req \<and> int4 daily \<and> int4 rpm then
        Inr (d\<lparr>db_events := db_events d @
          [\<lparr>re_id = next_event_id d, re_token = token, re_donation = donation, re_type = kind,
            re_total = tot_req, re_daily = daily, re_rpm = rpm, re_note = note, re_at = now\<rparr>]\<rparr>)
      else Inl OutOfRange)"

definition active_sum :: "(donation_row \<Rightarrow> int) \<Rightarrow> uuid \<Rightarrow> db \<Rightarrow> int" where
  "active_sum f t d =
     sum_rows (\<lambda>r. if don_token_id r = t \<and> don_reward_active r then f r else 0) (db_donations d)"

definition manual_sum :: "(reward_event \<Rightarrow> int) \<Rightarrow> uuid \<Rightarrow> db \<Rightarrow> int" where
  "manual_sum f t d =
     sum_rows (\<lambda>e. if re_token e = t \<and> re_type e = ''manual_adjust'' then f e else 0) (db_events d)"

definition nonneg :: "int \<Rightarrow> int" where
  "nonneg x = (if x < 0 then 0 else x)"

definition is_donation_token :: "token_row \<Rightarrow> bool" where
  "is_donation_token t = (tok_kind t = ''donation'')"

text \<open>\<open>SELECT ... WHERE id = $1 AND token_kind = 'donation' FOR UPDATE\<close>.\<close>

definition lockDonationToken :: "uuid \<Rightarrow> db \<Rightarrow> (db_error, token_row) result" where
  "lockDonationToken t d =
     (case find_row tok_id t (db_tokens d) of
        Some r \<Rightarrow> if is_donation_token r then Inr r else Inl NoRows
      | None \<Rightarrow> Inl NoRows)"

definition set_limits :: "time \<Rightarrow> int \<Rightarrow> int \<Rightarrow> int \<Rightarrow> token_row \<Rightarrow> token_row" where
  "set_limits now rpm daily tot_req r =
     (if is_donation_token r
      then r\<lparr>tok_rate_limit_per_minute := rpm, tok_daily_request_limit := daily,
             tok_total_request_limit := tot_req, tok_updated_at := now\<rparr>
      else r)"

text \<open>\<open>recalculateDonationTokenLockedTx\<close>.  The sums of \<open>INT\<close> columns fit \<open>int64\<close>; the sums of the
  \<open>BIGINT\<close> ones are scanned into it and fail when they do not.\<close>

definition capped_rpm :: "(string \<rightharpoonup> string) \<Rightarrow> int \<Rightarrow> int" where
  "capped_rpm settings rpm =
     (let c = intSetting settings ''donation_token_rate_limit_cap'' 180 in
      if c > 0 \<and> rpm > c then c else rpm)"

definition recalculateLocked :: "time \<Rightarrow> uuid \<Rightarrow> db \<Rightarrow> (db_error, db) result" where
  "recalculateLocked now t d =
     (let tot_req = active_sum don_reward_total t d; adj_total = manual_sum re_total t d in
      if \<not> int8 tot_req \<or> \<not> int8 adj_total then Inl OutOfRange
      else
        (let rpm = capped_rpm (db_settings d)
                     (nonneg (active_sum don_reward_rpm t d + manual_sum re_rpm t d));
             daily = nonneg (active_sum don_reward_daily t d + manual_sum re_daily t d);
             tot = nonneg ((tot_req + adj_total + 2 ^ 63) mod 2 ^ 64 - 2 ^ 63) in
         if int4 rpm \<and> int4 daily then
           Inr (d\<lparr>db_tokens := update_row tok_id t (set_limits now rpm daily tot) (db_tokens d)\<rparr>)
         else Inl OutOfRange))"

definition recalculateDonationToken :: "time \<Rightarrow> uuid \<Rightarrow> db \<Rightarrow> (db_error, db) result" where
  "recalculateDonationToken now t d =
     rbind (lockDonationToken t d) (\<lambda>_. recalculateLocked now t d)"

definition update_donation :: "uuid \<Rightarrow> (donation_row \<Rightarrow> donation_row) \<Rightarrow> db \<Rightarrow> db" where
  "update_donation i f d = d\<lparr>db_donations := update_row don_id i f (db_donations d)\<rparr>"

definition update_domain :: "int \<Rightarrow> (mail_domain \<Rightarrow> mail_domain) \<Rightarrow> db \<Rightarrow> db" where
  "update_domain i f d = d\<lparr>db_domains := update_row dom_id i f (db_domains d)\<rparr>"

section \<open>Applying a DNS verification\<close>

definition or_now :: "time \<Rightarrow> time option \<Rightarrow> time option" where
  "or_now now t = (case t of None \<Rightarrow> Some now | Some x \<Rightarrow> Some x)"

definition mark_valid :: "time \<Rightarrow> donation_row \<Rightarrow> donation_row" where
  "mark_valid now r =
     r\<lparr>don_status := ''active'', don_reward_active := True, don_failure_count := 0, don_last_error := [],
       don_last_checked_at := Some now, don_activated_at := or_now now (don_activated_at r),
       don_reward_revoked_at := None, don_updated_at := now\<rparr>"

definition mark_inactive :: "time \<Rightarrow> int \<Rightarrow> string \<Rightarrow> donation_row \<Rightarrow> donation_row" where
  "mark_inactive now failures err r =
     r\<lparr>don_status := ''inactive'', don_reward_active := False, don_failure_count := failures,
       don_last_error := err, don_last_checked_at := Some now, don_reward_revoked_at := Some now,
       don_updated_at := now\<rparr>"

definition mark_failed :: "time \<Rightarrow> int \<Rightarrow> string \<Rightarrow> donation_row \<Rightarrow> donation_row" where
  "mark_failed now failures err r =
     r\<lparr>don_failure_count := failures, don_last_error := err, don_last_checked_at := Some now,
       don_updated_at := now\<rparr>"

definition activate_domain :: "time \<Rightarrow> mail_domain \<Rightarrow> mail_domain" where
  "activate_domain now m =
     m\<lparr>dom_is_active := True, dom_status := ''active'', dom_verified_at := or_now now (dom_verified_at m),
       dom_mx_checked_at := Some now\<rparr>"

definition disable_domain :: "time \<Rightarrow> mail_domain \<Rightarrow> mail_domain" where
  "disable_domain now m =
     m\<lparr>dom_is_active := False, dom_status := ''disabled'', dom_mx_checked_at := Some now\<rparr>"

definition failure_tolerance :: "(string \<rightharpoonup> string) \<Rightarrow> int" where
  "failure_tolerance settings =
     (let n = intSetting settings ''donation_dns_failure_tolerance'' 3 in if n < 1 then 1 else n)"

text \<open>The changes before the limits are recomputed, for a donation row \<open>r\<close> of a locked token.\<close>

definition verify_row :: "time \<Rightarrow> verification \<Rightarrow> donation_row \<Rightarrow> db \<Rightarrow> (db_error, db) result" where
  "verify_row now v r d =
     (let i = don_id r; failures = don_failure_count r + 1 in
      if ver_valid v then
        (let d1 = update_domain (don_domain_id r) (activate_domain now) (update_donation i (mark_valid now) d) in
         if \<not> don_reward_active r then
           insert_event now (don_token_id r) (Some i) ''grant''
             (don_reward_total r) (don_reward_daily r) (don_reward_rpm r) (ver_status v) d1
         else Inr d1)
      else if \<not> int4 failures then Inl OutOfRange
      else if don_reward_active r then
        (if \<not> ver_transient v \<or> failures \<ge> failure_tolerance (db_settings d) then
           insert_event now (don_token_id r) (Some i) ''revoke''
             (- don_reward_total r) (- don_reward_daily r) (- don_reward_rpm r) (ver_status v)
             (update_domain (don_domain_id r) (disable_domain now)
               (update_donation i (mark_inactive now failures (ver_status v)) d))
         else Inr (update_donation i (mark_failed now failures (ver_status v)) d))
      else Inr (update_donation i (mark_failed now failures (ver_status v)) d))"

definition find_donation :: "uuid \<Rightarrow> db \<Rightarrow> (db_error, donation_row) result" where
  "find_donation i d = of_option NoRows (find_row don_id i (db_donations d))"

definition verification_tx :: "time \<Rightarrow> uuid \<Rightarrow> verification \<Rightarrow> (db, uuid) tx" where
  "verification_tx now i v d =
     rbind (find_donation i d) (\<lambda>r.
       rbind (guard (don_status r \<noteq> ''revoked'') (Rejected ''donation reward is revoked'')) (\<lambda>_.
         rbind (lockDonationToken (don_token_id r) d) (\<lambda>_.
           rbind (verify_row now v r d) (\<lambda>d1.
             rbind (recalculateLocked now (don_token_id r) d1) (\<lambda>d2. Inr (don_token_id r, d2))))))"

definition ApplyDonationVerification ::
    "bool \<Rightarrow> time \<Rightarrow> uuid \<Rightarrow> verification \<Rightarrow> db \<Rightarrow> (db_error, uuid) result \<times> db" where
  "ApplyDonationVerification fault now i v d = run_tx fault (verification_tx now i v) d"

section \<open>Revoking and restoring\<close>

definition mark_revoked :: "time \<Rightarrow> string \<Rightarrow> donation_row \<Rightarrow> donation_row" where
  "mark_revoked now note r =
     r\<lparr>don_status := ''revoked'', don_reward_active := False, don_reward_revoked_at := Some now,
       don_last_error := note, don_updated_at := now\<rparr>"

definition mark_restored :: "time \<Rightarrow> donation_row \<Rightarrow> donation_row" where
  "mark_restored now r =
     r\<lparr>don_status := ''inactive'', don_reward_active := False, don_failure_count := 0,
       don_last_error := [], don_last_checked_at := None, don_updated_at := now\<rparr>"

definition restore_tx :: "time \<Rightarrow> uuid \<Rightarrow> (db, uuid) tx" where
  "restore_tx now i d =
     rbind (find_donation i d) (\<lambda>r.
       rbind (lockDonationToken (don_token_id r) d) (\<lambda>_.
         rbind (recalculateLocked now (don_token_id r)
                  (update_domain (don_domain_id r) (disable_domain now) (update_donation i (mark_restored now) d)))
           (\<lambda>d2. Inr (don_token_id r, d2))))"

definition revoke_tx :: "time \<Rightarrow> uuid \<Rightarrow> string \<Rightarrow> (db, uuid) tx" where
  "revoke_tx now i note d =
     rbind (find_donation i d) (\<lambda>r.
       rbind (lockDonationToken (don_token_id r) d) (\<lambda>_.
         (let d1 = update_domain (don_domain_id r) (disable_domain now)
                     (update_donation i (mark_revoked now (trim_space note)) d) in
          rbind (if don_reward_active r then
                   insert_event now (don_token_id r) (Some i) ''revoke''
                     (- don_reward_total r) (- don_reward_daily r) (- don_reward_rpm r) note d1
                 else Inr d1) (\<lambda>d2.
            rbind (recalculateLocked now (don_token_id r) d2) (\<lambda>d3. Inr (don_token_id r, d3))))))"

definition SetDonationRevoked ::
    "bool \<Rightarrow> time \<Rightarrow> uuid \<Rightarrow> bool \<Rightarrow> string \<Rightarrow> db \<Rightarrow> (db_error, uuid) result \<times> db" where
  "SetDonationRevoked fault now i revoked note d =
     run_tx fault (if \<not> revoked then restore_tx now i else revoke_tx now i note) d"

section \<open>Manual adjustment\<close>

definition max_adjustment :: int where
  "max_adjustment = 1000000000"

definition adjust_tx :: "time \<Rightarrow> uuid \<Rightarrow> int \<Rightarrow> int \<Rightarrow> int \<Rightarrow> string \<Rightarrow> (db, uuid) tx" where
  "adjust_tx now t tot_req daily rpm note d =
     rbind (lockDonationToken t d) (\<lambda>_.
       rbind (insert_event now t None ''manual_adjust'' tot_req daily rpm (trim_space note) d) (\<lambda>d1.
         rbind (recalculateLocked now t d1) (\<lambda>d2. Inr (t, d2))))"

definition AdjustDonationToken ::
    "bool \<Rightarrow> time \<Rightarrow> uuid \<Rightarrow> int \<Rightarrow> int \<Rightarrow> int \<Rightarrow> string \<Rightarrow> db \<Rightarrow> (db_error, uuid) result \<times> db" where
  "AdjustDonationToken fault now t tot_req daily rpm note d =
     (if tot_req < - max_adjustment \<or> tot_req > max_adjustment \<or> daily < - max_adjustment \<or> daily > max_adjustment
         \<or> rpm < - max_adjustment \<or> rpm > max_adjustment
      then (Inl (Rejected ''donation adjustment exceeds allowed range''), d)
      else run_tx fault (adjust_tx now t tot_req daily rpm note) d)"

section \<open>Applying the policy to existing donations\<close>

definition mark_policy :: "time \<Rightarrow> donation_policy \<Rightarrow> donation_row \<Rightarrow> donation_row" where
  "mark_policy now pol r =
     r\<lparr>don_reward_rpm := pol_rpm pol, don_reward_daily := pol_daily pol, don_reward_total := pol_total pol,
       don_updated_at := now\<rparr>"

text \<open>One grant of the loop; \<open>note\<close> is the fixed remark of the event.  The deltas of an active grant are the
  differences to the row read before.\<close>

definition policy_row :: "time \<Rightarrow> string \<Rightarrow> donation_policy \<Rightarrow> donation_row \<Rightarrow> db \<Rightarrow> (db_error, db) result" where
  "policy_row now note pol r d =
     (if \<not> int4 (pol_rpm pol) \<or> \<not> int4 (pol_daily pol) then Inl OutOfRange
      else
        insert_event now (don_token_id r) (Some (don_id r)) ''policy_update''
          (if don_reward_active r then pol_total pol - don_reward_total r else 0)
          (if don_reward_active r then pol_daily pol - don_reward_daily r else 0)
          (if don_reward_active r then pol_rpm pol - don_reward_rpm r else 0) note
          (update_donation (don_id r) (mark_policy now pol) d))"

definition lock_each :: "uuid \<Rightarrow> db \<Rightarrow> (db_error, db) result" where
  "lock_each t d = rbind (lockDonationToken t d) (\<lambda>_. Inr d)"

definition policy_tx :: "(uuid \<Rightarrow> string) \<Rightarrow> time \<Rightarrow> string \<Rightarrow> (db, uuid list) tx" where
  "policy_tx uuid_string now note d =
     (let pol = DonationPolicy (db_settings d);
          grants = filter (\<lambda>r. don_status r \<noteq> ''revoked'') (db_donations d);
          token_ids = sort_key uuid_string (remdups (map don_token_id grants)) in
      rbind (each lock_each token_ids d) (\<lambda>d0.
        rbind (each (policy_row now note pol) grants d0) (\<lambda>d1.
          rbind (each (recalculateLocked now) token_ids d1) (\<lambda>d2. Inr (token_ids, d2)))))"

definition ApplyDonationPolicyToExisting ::
    "bool \<Rightarrow> (uuid \<Rightarrow> string) \<Rightarrow> time \<Rightarrow> string \<Rightarrow> db \<Rightarrow> (db_error, uuid list) result \<times> db" where
  "ApplyDonationPolicyToExisting fault uuid_string now note d = run_tx fault (policy_tx uuid_string now note) d"

section \<open>Creating a donation\<close>

text \<open>What the statements draw: ids the database generates and bytes from the random source.\<close>

record fresh =
  fr_token :: uuid
  fr_donation :: uuid
  fr_domain :: int
  fr_token_bytes :: string
  fr_claim_bytes :: string
  fr_challenge_bytes :: string

definition reward_token :: "(string \<Rightarrow> string) \<Rightarrow> time \<Rightarrow> uuid \<Rightarrow> uuid \<Rightarrow> string \<Rightarrow> token_row" where
  "reward_token sha now i acc raw =
     \<lparr>tok_id = i, tok_account_id = acc, tok_name = ''Donation rewards'', tok_prefix = tokenPrefix raw,
      tok_scope = ''cleanup'', tok_is_primary = False, tok_kind = ''donation'', tok_rate_limit_per_minute = 0,
      tok_daily_request_limit = 0, tok_total_request_limit = 0, tok_request_count_total = 0,
      tok_last_used_at = None, tok_expires_at = None, tok_revoked_at = None, tok_created_at = now,
      tok_updated_at = now, tr_hash = hashToken sha raw\<rparr>"

text \<open>The token of the request: an existing reward token of the owner, or a new one.  The result is its
  id, the secret to hand out (empty for an existing one), and the database.\<close>

definition donation_token ::
    "(string \<Rightarrow> string) \<Rightarrow> time \<Rightarrow> fresh \<Rightarrow> string \<Rightarrow> db \<Rightarrow> (db_error, uuid \<times> string \<times> db) result" where
  "donation_token sha now fr existing0 d =
     (case owner_account d of
        None \<Rightarrow> Inl NoRows
      | Some acc \<Rightarrow>
          (let existing = trim_space existing0 in
           if existing \<noteq> [] then
             (if \<not> isAccessTokenFormat existing then Inl NoRows
              else case List.find (\<lambda>t. tok_account_id t = acc_id acc \<and> tr_hash t = hashToken sha existing
                                 \<and> is_donation_token t) (db_tokens d) of
                None \<Rightarrow> Inl NoRows
              | Some t \<Rightarrow> Inr (tok_id t, [], d))
           else
             (let raw = generateAccessToken (fr_token_bytes fr) in
              if list_ex (\<lambda>t. tr_hash t = hashToken sha raw) (db_tokens d) then Inl Conflict
              else Inr (fr_token fr, raw,
                     d\<lparr>db_tokens := db_tokens d @ [reward_token sha now (fr_token fr) (acc_id acc) raw]\<rparr>))))"

definition donated_domain :: "time \<Rightarrow> int \<Rightarrow> string \<Rightarrow> mail_domain" where
  "donated_domain now i name =
     \<lparr>dom_id = i, dom_domain = name, dom_is_active = False, dom_status = ''pending'', dom_visibility = ''public'',
      dom_source_type = ''donated'', dom_verified_at = None, dom_created_at = now, dom_mx_checked_at = None\<rparr>"

text \<open>The domain of the request: a new row, or an existing donated one that has no claim.\<close>

definition donation_domain :: "time \<Rightarrow> fresh \<Rightarrow> string \<Rightarrow> db \<Rightarrow> (db_error, int \<times> db) result" where
  "donation_domain now fr name d =
     (case List.find (\<lambda>m. dom_domain m = name) (db_domains d) of
        None \<Rightarrow>
          if 255 < length (runes name) then Inl OutOfRange
          else Inr (fr_domain fr, d\<lparr>db_domains := db_domains d @ [donated_domain now (fr_domain fr) name]\<rparr>)
      | Some m \<Rightarrow>
          if list_ex (\<lambda>r. don_domain_id r = dom_id m) (db_donations d) \<or> dom_source_type m \<noteq> ''donated''
          then Inl Conflict
          else Inr (dom_id m, d))"

definition new_donation ::
    "(string \<Rightarrow> string) \<Rightarrow> time \<Rightarrow> donation_policy \<Rightarrow> fresh \<Rightarrow> uuid \<Rightarrow> int \<Rightarrow> bool \<Rightarrow> donation_row" where
  "new_donation sha now pol fr token domain_id subdomains =
     \<lparr>don_id = fr_donation fr, don_domain_id = domain_id, don_token_id = token,
      don_include_subdomains = subdomains, don_challenge_token = hex_encode (fr_challenge_bytes fr),
      don_status = ''pending'', don_reward_active = False, don_reward_rpm = pol_rpm pol,
      don_reward_daily = pol_daily pol, don_reward_total = pol_total pol, don_failure_count = 0,
      don_last_error = [], don_last_checked_at = None, don_activated_at = None, don_reward_revoked_at = None,
      don_created_at = now, don_updated_at = now, dr_claim_hash = hashToken sha (hex_encode (fr_claim_bytes fr))\<rparr>"

definition insert_donation :: "donation_row \<Rightarrow> db \<Rightarrow> (db_error, db) result" where
  "insert_donation r d =
     (if \<not> int4 (don_reward_rpm r) \<or> \<not> int4 (don_reward_daily r) then Inl OutOfRange
      else if list_ex (\<lambda>q. don_domain_id q = don_domain_id r \<or> dr_claim_hash q = dr_claim_hash r) (db_donations d)
      then Inl Conflict
      else Inr (d\<lparr>db_donations := db_donations d @ [r]\<rparr>))"

definition mark_donated :: "mail_domain \<Rightarrow> mail_domain" where
  "mark_donated m = m\<lparr>dom_source_type := ''donated'', dom_visibility := ''public''\<rparr>"

definition create_tx ::
    "(string \<Rightarrow> string) \<Rightarrow> time \<Rightarrow> fresh \<Rightarrow> donation_policy \<Rightarrow> string \<Rightarrow> bool \<Rightarrow> string \<Rightarrow> (db, uuid \<times> string \<times> string) tx" where
  "create_tx sha now fr pol name subdomains existing d =
     rbind (donation_token sha now fr existing d) (\<lambda>(token, raw, d1).
       rbind (guard (count_rows (\<lambda>r. don_token_id r = token \<and> don_status r \<noteq> ''revoked'') (db_donations d1)
                       < pol_max_domains pol) TokenLimit) (\<lambda>_.
         rbind (donation_domain now fr name d1) (\<lambda>(domain_id, d2).
           rbind (insert_donation (new_donation sha now pol fr token domain_id subdomains) d2) (\<lambda>d3.
             Inr ((fr_donation fr, hex_encode (fr_claim_bytes fr), raw),
                  update_domain domain_id mark_donated d3)))))"

definition CreateDonationRequest ::
    "bool \<Rightarrow> (nat \<Rightarrow> nat) \<Rightarrow> (string \<Rightarrow> string) \<Rightarrow> time \<Rightarrow> fresh \<Rightarrow> string \<Rightarrow> bool \<Rightarrow> string \<Rightarrow> db
     \<Rightarrow> (db_error, uuid \<times> string \<times> string) result \<times> db" where
  "CreateDonationRequest fault lo sha now fr domain0 subdomains existing d =
     (let name = to_lower lo (trim_cut ''.'' (trim_space domain0)) in
      if name = [] then (Inl (Rejected ''domain is required''), d)
      else run_tx fault (create_tx sha now fr (DonationPolicy (db_settings d)) name subdomains existing) d)"

section \<open>Reading\<close>

definition GetDonationByClaim :: "(string \<Rightarrow> string) \<Rightarrow> uuid \<Rightarrow> string \<Rightarrow> db \<Rightarrow> (db_error, donation_row) result" where
  "GetDonationByClaim sha i secret d =
     rbind (find_donation i d) (\<lambda>r.
       rbind (guard (dr_claim_hash r = hashToken sha secret) NoRows) (\<lambda>_. Inr r))"

text \<open>\<open>ListDueDonations\<close>: the rows due for a check; \<open>due_order\<close> is its order, never-checked rows first.\<close>

definition is_due :: "time \<Rightarrow> int \<Rightarrow> donation_row \<Rightarrow> bool" where
  "is_due now recheck_minutes r =
     (don_status r \<noteq> ''revoked''
      \<and> ((don_status r = ''pending''
            \<and> (case don_last_checked_at r of None \<Rightarrow> True | Some t \<Rightarrow> t < now - 30 * second))
         \<or> (don_status r \<in> {''active'', ''inactive''}
            \<and> (case don_last_checked_at r of None \<Rightarrow> True | Some t \<Rightarrow> t < now - recheck_minutes * 60 * second))))"

definition due_order :: "donation_row \<Rightarrow> int list" where
  "due_order r = (case don_last_checked_at r of None \<Rightarrow> [] | Some t \<Rightarrow> [t])"

definition ListDueDonations :: "time \<Rightarrow> db \<Rightarrow> donation_row list" where
  "ListDueDonations now d =
     (let minutes = intSetting (db_settings d) ''donation_recheck_minutes'' 30;
          m = (if minutes < 1 then 1 else minutes) in
      take 100 (sort_key due_order (filter (is_due now m) (db_donations d))))"

record donation_summary =
  ds_total :: int
  ds_active :: int
  ds_pending :: int
  ds_inactive :: int
  ds_tokens :: int
  ds_quota :: int
  ds_consumed :: int

definition DonationSummary :: "db \<Rightarrow> donation_summary" where
  "DonationSummary d =
     (let rows = db_donations d; toks = filter is_donation_token (db_tokens d) in
      \<lparr>ds_total = count_rows (\<lambda>_. True) rows,
       ds_active = count_rows (\<lambda>r. don_status r = ''active'' \<and> don_reward_active r) rows,
       ds_pending = count_rows (\<lambda>r. don_status r = ''pending'') rows,
       ds_inactive = count_rows (\<lambda>r. don_status r = ''inactive'' \<or> don_status r = ''revoked'') rows,
       ds_tokens = int (length (remdups (map don_token_id rows))),
       ds_quota = sum_rows tok_total_request_limit toks,
       ds_consumed = sum_rows tok_request_count_total toks\<rparr>)"

text \<open>The status column of \<open>ListDonationRewardTokens\<close>.\<close>

definition reward_token_status :: "time \<Rightarrow> token_row \<Rightarrow> db \<Rightarrow> string" where
  "reward_token_status now t d =
     (if tok_revoked_at t \<noteq> None then ''revoked''
      else if (case tok_expires_at t of None \<Rightarrow> False | Some e \<Rightarrow> e \<le> now) then ''expired''
      else if 0 < count_rows (\<lambda>r. don_token_id r = tok_id t \<and> don_status r = ''active'' \<and> don_reward_active r) (db_donations d)
              \<and> tok_request_count_total t < tok_total_request_limit t
      then ''active'' else ''inactive'')"

definition ListDonations :: "db \<Rightarrow> donation_row list" where
  "ListDonations d = sort_key (\<lambda>r. - don_created_at r) (db_donations d)"

record reward_token_item =
  rt_id :: uuid
  rt_prefix :: string
  rt_domains :: int
  rt_active :: int
  rt_pending :: int
  rt_inactive :: int
  rt_rpm :: int
  rt_daily :: int
  rt_total :: int
  rt_consumed :: int
  rt_remaining :: int
  rt_status :: string

definition reward_token_item :: "time \<Rightarrow> db \<Rightarrow> token_row \<Rightarrow> reward_token_item" where
  "reward_token_item now d t =
     (let own = filter (\<lambda>r. don_token_id r = tok_id t) (db_donations d) in
      \<lparr>rt_id = tok_id t, rt_prefix = tok_prefix t, rt_domains = count_rows (\<lambda>_. True) own,
       rt_active = count_rows (\<lambda>r. don_status r = ''active'' \<and> don_reward_active r) own,
       rt_pending = count_rows (\<lambda>r. don_status r = ''pending'') own,
       rt_inactive = count_rows (\<lambda>r. don_status r = ''inactive'' \<or> don_status r = ''revoked'') own,
       rt_rpm = tok_rate_limit_per_minute t, rt_daily = tok_daily_request_limit t,
       rt_total = tok_total_request_limit t, rt_consumed = tok_request_count_total t,
       rt_remaining = max (tok_total_request_limit t - tok_request_count_total t) 0,
       rt_status = reward_token_status now t d\<rparr>)"

definition ListDonationRewardTokens :: "time \<Rightarrow> db \<Rightarrow> reward_token_item list" where
  "ListDonationRewardTokens now d =
     map (reward_token_item now d) (sort_key (\<lambda>t. - tok_created_at t) (filter is_donation_token (db_tokens d)))"

text \<open>The newest events of donation tokens: by time and then by id, both descending.\<close>

definition event_order :: "reward_event \<Rightarrow> int list" where
  "event_order e = [- re_at e, - re_id e]"

definition ListDonationRewardEvents :: "int \<Rightarrow> db \<Rightarrow> reward_event list" where
  "ListDonationRewardEvents limit0 d =
     (let limit = (if limit0 < 1 \<or> limit0 > 500 then 200 else limit0);
          of_token = (\<lambda>e. list_ex (\<lambda>t. tok_id t = re_token e \<and> is_donation_token t) (db_tokens d)) in
      take (nat limit) (sort_key event_order (filter of_token (db_events d))))"

definition DonationEnabled :: "(nat \<Rightarrow> nat) \<Rightarrow> (string \<rightharpoonup> string) \<Rightarrow> bool" where
  "DonationEnabled lo settings =
     (let v = to_lower lo (trim_space (settingOr settings ''donation_enabled'' ''true'')) in
      v \<noteq> ''false'' \<and> v \<noteq> ''0'' \<and> v \<noteq> ''off'')"

definition DonationTXTValue :: "donation_row \<Rightarrow> string" where
  "DonationTXTValue r = ''far-mail-site-verification='' @ don_challenge_token r"

end
