(* ===== verification/Donation_Ledger.thy ===== *)
theory Donation_Ledger
  imports Donations
begin

text \<open>
  What the donation operations of \<open>src/api/store/donations.go\<close> keep: the reward ledger of a donation sums
  to what the donation currently grants, and a reward token's limits are what its active donations and
  the manual adjustments add up to.
\<close>

section \<open>The invariant\<close>

definition ledger_sum :: "(reward_event \<Rightarrow> int) \<Rightarrow> uuid \<Rightarrow> db \<Rightarrow> int" where
  "ledger_sum f i d = sum_rows (\<lambda>e. if re_donation e = Some i then f e else 0) (db_events d)"

definition granted :: "(donation_row \<Rightarrow> int) \<Rightarrow> donation_row \<Rightarrow> int" where
  "granted f r = (if don_reward_active r then f r else 0)"

definition ledger_row :: "db \<Rightarrow> donation_row \<Rightarrow> bool" where
  "ledger_row d r =
     (ledger_sum re_total (don_id r) d = granted don_reward_total r
      \<and> ledger_sum re_daily (don_id r) d = granted don_reward_daily r
      \<and> ledger_sum re_rpm (don_id r) d = granted don_reward_rpm r)"

definition status_row :: "donation_row \<Rightarrow> bool" where
  "status_row r =
     (don_status r \<in> {''pending'', ''active'', ''inactive'', ''revoked''}
      \<and> (don_reward_active r \<longleftrightarrow> don_status r = ''active''))"

definition donation_token_exists :: "db \<Rightarrow> uuid \<Rightarrow> bool" where
  "donation_token_exists d t = (\<exists>r. find_row tok_id t (db_tokens d) = Some r \<and> is_donation_token r)"

definition total_limit :: "uuid \<Rightarrow> db \<Rightarrow> int" where
  "total_limit t d =
     nonneg ((active_sum don_reward_total t d + manual_sum re_total t d + 2 ^ 63) mod 2 ^ 64 - 2 ^ 63)"

definition daily_limit :: "uuid \<Rightarrow> db \<Rightarrow> int" where
  "daily_limit t d = nonneg (active_sum don_reward_daily t d + manual_sum re_daily t d)"

definition rpm_limit :: "uuid \<Rightarrow> db \<Rightarrow> int" where
  "rpm_limit t d = nonneg (active_sum don_reward_rpm t d + manual_sum re_rpm t d)"

definition limits_row :: "db \<Rightarrow> token_row \<Rightarrow> bool" where
  "limits_row d r =
     (is_donation_token r \<longrightarrow>
        tok_total_request_limit r = total_limit (tok_id r) d
        \<and> tok_daily_request_limit r = daily_limit (tok_id r) d
        \<and> tok_rate_limit_per_minute r \<le> rpm_limit (tok_id r) d
        \<and> 0 \<le> tok_rate_limit_per_minute r)"

definition tables_ok :: "db \<Rightarrow> bool" where
  "tables_ok d =
     (keys_distinct tok_id (db_tokens d) \<and> keys_distinct don_id (db_donations d)
      \<and> (\<forall>r \<in> set (db_donations d). status_row r \<and> donation_token_exists d (don_token_id r))
      \<and> (\<forall>e \<in> set (db_events d). donation_token_exists d (re_token e)
           \<and> (\<forall>i. re_donation e = Some i \<longrightarrow> i \<in> don_id ` set (db_donations d))))"

definition ledger_ok :: "db \<Rightarrow> bool" where
  "ledger_ok d = (\<forall>r \<in> set (db_donations d). ledger_row d r)"

definition limits_ok :: "db \<Rightarrow> bool" where
  "limits_ok d = (\<forall>r \<in> set (db_tokens d). limits_row d r)"

definition donations_ok :: "db \<Rightarrow> bool" where
  "donations_ok d = (tables_ok d \<and> ledger_ok d \<and> limits_ok d)"

section \<open>The changes the operations are made of\<close>

text \<open>\<open>changed i g es d d'\<close>: donation \<open>i\<close> updated by \<open>g\<close> and \<open>es\<close> appended to the ledger; the tokens and the
  settings as before.\<close>

definition changed :: "uuid \<Rightarrow> (donation_row \<Rightarrow> donation_row) \<Rightarrow> reward_event list \<Rightarrow> db \<Rightarrow> db \<Rightarrow> bool" where
  "changed i g es d d' =
     (db_donations d' = update_row don_id i g (db_donations d) \<and> db_events d' = db_events d @ es
      \<and> db_tokens d' = db_tokens d \<and> db_settings d' = db_settings d)"

definition keeps_refs :: "(donation_row \<Rightarrow> donation_row) \<Rightarrow> bool" where
  "keeps_refs g = (\<forall>r. don_id (g r) = don_id r \<and> don_token_id (g r) = don_token_id r)"

text \<open>The events of one change: of the donation's own token, no manual adjustment among them, worth the
  difference the update makes to what the donation grants.\<close>

definition balanced :: "uuid \<Rightarrow> (donation_row \<Rightarrow> donation_row) \<Rightarrow> reward_event list \<Rightarrow> donation_row \<Rightarrow> bool" where
  "balanced i g es r =
     ((\<forall>e \<in> set es. re_token e = don_token_id r \<and> re_donation e = Some i \<and> re_type e \<noteq> ''manual_adjust'')
      \<and> sum_rows re_total es = granted don_reward_total (g r) - granted don_reward_total r
      \<and> sum_rows re_daily es = granted don_reward_daily (g r) - granted don_reward_daily r
      \<and> sum_rows re_rpm es = granted don_reward_rpm (g r) - granted don_reward_rpm r)"

lemma changed_exists: "changed i g es d d' \<Longrightarrow> donation_token_exists d' t = donation_token_exists d t"
  by (simp add: changed_def donation_token_exists_def)

lemma changed_tables:
  assumes ch: "changed i g es d d'" and ok: "tables_ok d" and r: "find_row don_id i (db_donations d) = Some r"
    and k: "keeps_refs g" and st: "status_row (g r)" and b: "balanced i g es r"
  shows "tables_ok d'"
proof -
  have rd: "r \<in> set (db_donations d)" "don_id r = i" using find_row_Some [OF r] by auto
  have ids: "don_id ` set (db_donations d') = don_id ` set (db_donations d)"
    using ch k map_key_update_row [of don_id g i "db_donations d"]
    unfolding changed_def keeps_refs_def by (metis list.set_map)
  have rows: "status_row q \<and> donation_token_exists d (don_token_id q)" if "q \<in> set (db_donations d')" for q
  proof -
    from that ch have "q \<in> set (db_donations d) \<or> (\<exists>p \<in> set (db_donations d). don_id p = i \<and> q = g p)"
      using set_update_row_subset by (fastforce simp: changed_def)
    then show ?thesis
    proof
      assume "\<exists>p \<in> set (db_donations d). don_id p = i \<and> q = g p"
      then obtain p where p: "p \<in> set (db_donations d)" "don_id p = i" "q = g p" by blast
      then have "p = r" using find_row_unique [of don_id "db_donations d" p] ok r by (simp add: tables_ok_def)
      then show ?thesis using p st ok k by (simp add: tables_ok_def keeps_refs_def)
    qed (use ok in \<open>simp add: tables_ok_def\<close>)
  qed
  have ev: "donation_token_exists d (re_token e) \<and> (\<forall>j. re_donation e = Some j \<longrightarrow> j \<in> don_id ` set (db_donations d))"
    if "e \<in> set (db_events d')" for e
    using that ch b ok rd unfolding changed_def balanced_def tables_ok_def by auto
  have kd: "keys_distinct don_id (db_donations d')"
    using ch ok k by (simp add: changed_def tables_ok_def keeps_refs_def keys_distinct_def map_key_update_row)
  have kt: "keys_distinct tok_id (db_tokens d')" using ch ok by (simp add: changed_def tables_ok_def)
  show ?thesis unfolding tables_ok_def changed_exists [OF ch] ids using rows ev kd kt by blast
qed

lemma ledger_sum_append: "db_events d' = db_events d @ es \<Longrightarrow>
   ledger_sum f j d' = ledger_sum f j d + sum_rows (\<lambda>e. if re_donation e = Some j then f e else 0) es"
  by (simp add: ledger_sum_def)

lemma sum_rows_zero: "(\<And>e. e \<in> set es \<Longrightarrow> f e = 0) \<Longrightarrow> sum_rows f es = 0"
  by (induction es) auto

lemma sum_own: "\<forall>e \<in> set es. re_donation e = Some i \<Longrightarrow>
   sum_rows (\<lambda>e. if re_donation e = Some j then f e else 0) es = (if j = i then sum_rows f es else 0)"
  by (auto intro: sum_rows_cong sum_rows_zero)

lemma changed_ledger:
  assumes ch: "changed i g es d d'" and ok: "tables_ok d" "ledger_ok d"
    and r: "find_row don_id i (db_donations d) = Some r" and k: "keeps_refs g" and b: "balanced i g es r"
  shows "ledger_ok d'"
  unfolding ledger_ok_def
proof
  fix q assume q: "q \<in> set (db_donations d')"
  have rd: "r \<in> set (db_donations d)" "don_id r = i" using find_row_Some [OF r] by auto
  have ev: "db_events d' = db_events d @ es" using ch by (simp add: changed_def)
  have own: "\<forall>e \<in> set es. re_donation e = Some i" using b by (simp add: balanced_def)
  have "q \<in> set (db_donations d) \<and> don_id q \<noteq> i \<or> (\<exists>p \<in> set (db_donations d). don_id p = i \<and> q = g p)"
    using q ch k by (auto simp: changed_def update_row_def keeps_refs_def split: if_splits)
  then show "ledger_row d' q"
  proof
    assume a: "q \<in> set (db_donations d) \<and> don_id q \<noteq> i"
    then have "ledger_row d q" using ok by (simp add: ledger_ok_def)
    then show ?thesis using a unfolding ledger_row_def ledger_sum_append [OF ev] sum_own [OF own] by simp
  next
    assume "\<exists>p \<in> set (db_donations d). don_id p = i \<and> q = g p"
    then obtain p where p: "p \<in> set (db_donations d)" "don_id p = i" "q = g p" by blast
    then have pr: "p = r" using find_row_unique [of don_id "db_donations d" p] ok r by (simp add: tables_ok_def)
    have "ledger_row d r" using ok rd by (simp add: ledger_ok_def)
    then show ?thesis using p pr b k rd
      unfolding ledger_row_def ledger_sum_append [OF ev] sum_own [OF own] balanced_def keeps_refs_def by simp
  qed
qed

lemma changed_active_sum:
  assumes ch: "changed i g es d d'" and ok: "tables_ok d" and r: "find_row don_id i (db_donations d) = Some r"
    and k: "keeps_refs g" and t: "t \<noteq> don_token_id r"
  shows "active_sum f t d' = active_sum f t d"
  using sum_rows_update [of don_id "db_donations d" i r "\<lambda>q. if don_token_id q = t \<and> don_reward_active q then f q else 0" g]
    ch ok r k t by (simp add: active_sum_def changed_def tables_ok_def keeps_refs_def)

lemma manual_sum_append: "db_events d' = db_events d @ es \<Longrightarrow>
   \<forall>e \<in> set es. re_token e \<noteq> t \<or> re_type e \<noteq> ''manual_adjust'' \<Longrightarrow> manual_sum f t d' = manual_sum f t d"
  unfolding manual_sum_def by (simp, rule sum_rows_zero) auto

lemma limits_row_frame:
  "(\<And>f. active_sum f (tok_id r) d' = active_sum f (tok_id r) d) \<Longrightarrow>
   (\<And>f. manual_sum f (tok_id r) d' = manual_sum f (tok_id r) d) \<Longrightarrow> limits_row d' r = limits_row d r"
  by (simp add: limits_row_def total_limit_def daily_limit_def rpm_limit_def)

definition limits_except :: "uuid set \<Rightarrow> db \<Rightarrow> bool" where
  "limits_except T d = (\<forall>r \<in> set (db_tokens d). tok_id r \<notin> T \<longrightarrow> limits_row d r)"

lemma limits_ok_except: "limits_ok d = limits_except {} d"
  by (simp add: limits_ok_def limits_except_def)

lemma changed_limits:
  assumes ch: "changed i g es d d'" and ok: "tables_ok d" "limits_except T d"
    and r: "find_row don_id i (db_donations d) = Some r" and k: "keeps_refs g" and b: "balanced i g es r"
  shows "limits_except (insert (don_token_id r) T) d'"
  unfolding limits_except_def
proof (intro ballI impI)
  fix q assume q: "q \<in> set (db_tokens d')" "tok_id q \<notin> insert (don_token_id r) T"
  have a: "active_sum f (tok_id q) d' = active_sum f (tok_id q) d" for f
    using changed_active_sum [OF ch ok(1) r k] q(2) by simp
  have m: "manual_sum f (tok_id q) d' = manual_sum f (tok_id q) d" for f
    using manual_sum_append [of d' d es "tok_id q"] ch b q(2) by (auto simp: changed_def balanced_def)
  have "limits_row d q" using ok(2) q ch by (simp add: limits_except_def changed_def)
  then show "limits_row d' q" using limits_row_frame [of q d' d] a m by blast
qed

section \<open>Recomputing the limits\<close>

lemma recalculateLocked_frame:
  "recalculateLocked now t d = Inr d' \<Longrightarrow>
     db_donations d' = db_donations d \<and> db_events d' = db_events d \<and> db_settings d' = db_settings d
     \<and> db_accounts d' = db_accounts d \<and> db_domains d' = db_domains d
     \<and> map tok_id (db_tokens d') = map tok_id (db_tokens d)"
  by (auto simp: recalculateLocked_def Let_def set_limits_def map_key_update_row split: if_splits)

lemma set_limits_kind [simp]: "is_donation_token (set_limits now a b c r) = is_donation_token r" "tok_id (set_limits now a b c r) = tok_id r"
  by (simp_all add: set_limits_def is_donation_token_def)

lemma recalculateLocked_exists:
  "recalculateLocked now t d = Inr d' \<Longrightarrow> donation_token_exists d' u = donation_token_exists d u"
  by (auto simp: recalculateLocked_def Let_def donation_token_exists_def find_row_update_row split: if_splits)

lemma sums_frame:
  "db_donations d' = db_donations d \<Longrightarrow> active_sum f t d' = active_sum f t d"
  "db_events d' = db_events d \<Longrightarrow> manual_sum g t d' = manual_sum g t d"
  by (simp_all add: active_sum_def manual_sum_def)

lemma capped_rpm_bounds: "0 \<le> x \<Longrightarrow> 0 \<le> capped_rpm settings x \<and> capped_rpm settings x \<le> x"
  by (simp add: capped_rpm_def Let_def)

lemma nonneg_ge: "0 \<le> nonneg x"
  by (simp add: nonneg_def)

lemma recalculateLocked_tokens:
  assumes rc: "recalculateLocked now t d = Inr d'" and q: "q \<in> set (db_tokens d')"
  shows "q \<in> set (db_tokens d) \<and> tok_id q \<noteq> t \<or> (tok_id q = t \<and> limits_row d q)"
proof -
  obtain rpm where rpm: "db_tokens d' = update_row tok_id t (set_limits now rpm (daily_limit t d) (total_limit t d)) (db_tokens d)"
      "0 \<le> rpm" "rpm \<le> rpm_limit t d"
    using rc capped_rpm_bounds [OF nonneg_ge]
    by (auto simp: recalculateLocked_def Let_def daily_limit_def total_limit_def rpm_limit_def split: if_splits)
  then obtain p where p: "p \<in> set (db_tokens d)" "q = (if tok_id p = t then set_limits now rpm (daily_limit t d) (total_limit t d) p else p)"
    using q by (auto simp: update_row_def)
  show ?thesis
  proof (cases "tok_id p = t")
    case True
    then show ?thesis using p rpm(2,3) by (simp add: limits_row_def) (simp add: set_limits_def)
  qed (use p in simp)
qed

lemma recalculateLocked_limits:
  assumes rc: "recalculateLocked now t d = Inr d'" and ok: "limits_except T d"
  shows "limits_except (T - {t}) d'"
  unfolding limits_except_def
proof (intro ballI impI)
  fix q assume q: "q \<in> set (db_tokens d')" "tok_id q \<notin> T - {t}"
  have "limits_row d q"
    using recalculateLocked_tokens [OF rc q(1)] q(2) ok by (auto simp: limits_except_def)
  then show "limits_row d' q"
    using limits_row_frame [of q d' d] sums_frame [of d' d] recalculateLocked_frame [OF rc] by simp
qed

lemma recalculateLocked_tables:
  assumes rc: "recalculateLocked now t d = Inr d'" and ok: "tables_ok d"
  shows "tables_ok d'"
proof -
  have f: "db_donations d' = db_donations d" "db_events d' = db_events d" "map tok_id (db_tokens d') = map tok_id (db_tokens d)"
    using recalculateLocked_frame [OF rc] by blast+
  show ?thesis using ok unfolding tables_ok_def keys_distinct_def f recalculateLocked_exists [OF rc] .
qed

lemma recalculateLocked_ledger:
  assumes rc: "recalculateLocked now t d = Inr d'" and ok: "ledger_ok d"
  shows "ledger_ok d'"
proof -
  have f: "db_donations d' = db_donations d" "db_events d' = db_events d"
    using recalculateLocked_frame [OF rc] by blast+
  show ?thesis using ok unfolding ledger_ok_def ledger_row_def ledger_sum_def f .
qed

text \<open>A balanced change followed by the recomputation of its token keeps the invariant.\<close>

lemma change_then_recalculate:
  assumes ch: "changed i g es d d1" and rc: "recalculateLocked now (don_token_id r) d1 = Inr d2"
    and ok: "donations_ok d" and r: "find_row don_id i (db_donations d) = Some r"
    and k: "keeps_refs g" and st: "status_row (g r)" and b: "balanced i g es r"
  shows "donations_ok d2"
proof -
  have t: "tables_ok d1" using changed_tables [OF ch _ r k st b] ok by (simp add: donations_ok_def)
  have l: "ledger_ok d1" using changed_ledger [OF ch _ _ r k b] ok by (simp add: donations_ok_def)
  have "limits_except {don_token_id r} d1"
    using changed_limits [OF ch _ _ r k b, of "{}"] ok by (simp add: donations_ok_def limits_ok_except)
  then have "limits_ok d2" using recalculateLocked_limits [OF rc, of "{don_token_id r}"] by (simp add: limits_ok_except)
  then show ?thesis using recalculateLocked_tables [OF rc t] recalculateLocked_ledger [OF rc l] by (simp add: donations_ok_def)
qed

section \<open>The operations\<close>

lemma insert_event_Inr:
  "insert_event now t i kind a b c note d = Inr d' \<longleftrightarrow>
     int8 a \<and> int4 b \<and> int4 c \<and>
     d' = d\<lparr>db_events := db_events d @ [\<lparr>re_id = next_event_id d, re_token = t, re_donation = i, re_type = kind,
            re_total = a, re_daily = b, re_rpm = c, re_note = note, re_at = now\<rparr>]\<rparr>"
  by (auto simp: insert_event_def)

lemmas marks = mark_valid_def mark_inactive_def mark_failed_def mark_revoked_def mark_restored_def mark_policy_def

lemma marks_keep_refs:
  "keeps_refs (mark_valid now)" "keeps_refs (mark_inactive now n e)" "keeps_refs (mark_failed now n e)"
  "keeps_refs (mark_revoked now e)" "keeps_refs (mark_restored now)" "keeps_refs (mark_policy now pol)"
  by (simp_all add: keeps_refs_def marks)

definition good_change :: "donation_row \<Rightarrow> db \<Rightarrow> db \<Rightarrow> bool" where
  "good_change r d d' =
     (\<exists>g es. changed (don_id r) g es d d' \<and> keeps_refs g \<and> status_row (g r) \<and> balanced (don_id r) g es r)"

lemma good_change_no_event:
  "keeps_refs g \<Longrightarrow> status_row (g r) \<Longrightarrow> \<forall>f \<in> {don_reward_total, don_reward_daily, don_reward_rpm}. granted f (g r) = granted f r \<Longrightarrow>
   d' = update_domain k h (update_donation (don_id r) g d) \<or> d' = update_donation (don_id r) g d \<Longrightarrow> good_change r d d'"
  unfolding good_change_def by (rule exI [of _ g], rule exI [of _ "[]"])
    (auto simp: changed_def update_domain_def update_donation_def balanced_def)

lemma good_change_event:
  "keeps_refs g \<Longrightarrow> status_row (g r) \<Longrightarrow> kind \<noteq> ''manual_adjust'' \<Longrightarrow>
   a = granted don_reward_total (g r) - granted don_reward_total r \<Longrightarrow>
   b = granted don_reward_daily (g r) - granted don_reward_daily r \<Longrightarrow>
   c = granted don_reward_rpm (g r) - granted don_reward_rpm r \<Longrightarrow>
   insert_event now (don_token_id r) (Some (don_id r)) kind a b c note d1 = Inr d' \<Longrightarrow>
   d1 = update_domain k h (update_donation (don_id r) g d) \<or> d1 = update_donation (don_id r) g d \<Longrightarrow> good_change r d d'"
  unfolding good_change_def insert_event_Inr
  by (rule exI [of _ g], rule exI [of _ "[\<lparr>re_id = next_event_id d1, re_token = don_token_id r, re_donation = Some (don_id r),
        re_type = kind, re_total = a, re_daily = b, re_rpm = c, re_note = note, re_at = now\<rparr>]"])
    (auto simp: changed_def update_domain_def update_donation_def balanced_def)

lemma good_change_then_recalculate:
  "good_change r d d1 \<Longrightarrow> recalculateLocked now (don_token_id r) d1 = Inr d2 \<Longrightarrow> donations_ok d \<Longrightarrow>
   find_row don_id (don_id r) (db_donations d) = Some r \<Longrightarrow> donations_ok d2"
  unfolding good_change_def using change_then_recalculate by blast

lemma kinds_not_manual [simp]:
  "''grant'' \<noteq> ''manual_adjust''" "''revoke'' \<noteq> ''manual_adjust''" "''policy_update'' \<noteq> ''manual_adjust''"
  by simp_all

lemma status_row_marks:
  "status_row (mark_valid now r)" "status_row (mark_inactive now n e r)" "status_row (mark_revoked now e r)"
  "status_row (mark_restored now r)" "status_row r \<Longrightarrow> status_row (mark_failed now n e r)"
  "status_row r \<Longrightarrow> status_row (mark_policy now pol r)"
  by (simp_all add: status_row_def marks)

lemma granted_marks:
  "granted don_reward_total (mark_valid now r) = don_reward_total r"
  "granted don_reward_daily (mark_valid now r) = don_reward_daily r"
  "granted don_reward_rpm (mark_valid now r) = don_reward_rpm r"
  "granted f (mark_inactive now n e r) = 0" "granted f (mark_revoked now e r) = 0" "granted f (mark_restored now r) = 0"
  "granted don_reward_total (mark_failed now n e r) = granted don_reward_total r"
  "granted don_reward_daily (mark_failed now n e r) = granted don_reward_daily r"
  "granted don_reward_rpm (mark_failed now n e r) = granted don_reward_rpm r"
  by (simp_all add: granted_def marks)

lemmas marks_ok = marks_keep_refs status_row_marks granted_marks

lemma verify_row_good:
  assumes v: "verify_row now v r d = Inr d'" and st: "status_row r"
  shows "good_change r d d'"
proof (cases "ver_valid v")
  case True
  show ?thesis
  proof (cases "don_reward_active r")
    case a: True
    show ?thesis
      by (rule good_change_no_event [of "mark_valid now" _ _ "don_domain_id r" "activate_domain now"])
        (use v True a in \<open>auto simp: verify_row_def Let_def marks_ok granted_def [of _ r]\<close>)
  next
    case a: False
    show ?thesis
      by (rule good_change_event [of "mark_valid now" _ "''grant''" "don_reward_total r" "don_reward_daily r" "don_reward_rpm r" now "ver_status v" _ _ "don_domain_id r" "activate_domain now"])
        (use v True a in \<open>auto simp: verify_row_def Let_def marks_ok granted_def [of _ r]\<close>)
  qed
next
  case False
  let ?n = "don_failure_count r + 1"
  show ?thesis
  proof (cases "don_reward_active r \<and> (\<not> ver_transient v \<or> ?n \<ge> failure_tolerance (db_settings d))")
    case True
    show ?thesis
      by (rule good_change_event [of "mark_inactive now ?n (ver_status v)" _ "''revoke''" "- don_reward_total r" "- don_reward_daily r" "- don_reward_rpm r" now "ver_status v" _ _ "don_domain_id r" "disable_domain now"])
        (use v False True in \<open>auto simp: verify_row_def Let_def marks_ok granted_def [of _ r] split: if_splits\<close>)
  next
    case n: False
    have d': "d' = update_donation (don_id r) (mark_failed now ?n (ver_status v)) d"
      using v False n by (auto simp: verify_row_def Let_def split: if_splits)
    show ?thesis
      by (rule good_change_no_event [of "mark_failed now ?n (ver_status v)"])
        (use d' st in \<open>auto simp: marks_ok\<close>)
  qed
qed

lemma find_donation_Inr: "find_donation i d = Inr r \<longleftrightarrow> find_row don_id i (db_donations d) = Some r"
  by (simp add: find_donation_def of_option_Inr_iff)

lemma found_donation: "find_row don_id i (db_donations d) = Some r \<Longrightarrow> r \<in> set (db_donations d) \<and> don_id r = i"
  by (rule find_row_Some)

lemma found_status: "donations_ok d \<Longrightarrow> find_row don_id i (db_donations d) = Some r \<Longrightarrow> status_row r"
  using found_donation by (simp add: donations_ok_def tables_ok_def) blast

lemma verification_tx_ok: "verification_tx now i v d = Inr (t, d') \<Longrightarrow> donations_ok d \<Longrightarrow> donations_ok d'"
  using verify_row_good good_change_then_recalculate found_status found_donation
  by (fastforce simp: verification_tx_def rbind_Inr_iff find_donation_Inr)

lemma revoke_tx_ok:
  assumes rv: "revoke_tx now i note d = Inr (t, d')" and ok: "donations_ok d"
  shows "donations_ok d'"
proof -
  obtain r d2 where r: "find_row don_id i (db_donations d) = Some r"
    and d2: "(if don_reward_active r then
                   insert_event now (don_token_id r) (Some i) ''revoke''
                     (- don_reward_total r) (- don_reward_daily r) (- don_reward_rpm r) note
                       (update_domain (don_domain_id r) (disable_domain now)
                         (update_donation i (mark_revoked now (trim_space note)) d))
                 else Inr (update_domain (don_domain_id r) (disable_domain now)
                         (update_donation i (mark_revoked now (trim_space note)) d))) = Inr d2"
    and rc: "recalculateLocked now (don_token_id r) d2 = Inr d'"
    using rv by (auto simp: revoke_tx_def rbind_Inr_iff find_donation_Inr Let_def simp del: split_paired_Ex)
  have i: "don_id r = i" using found_donation [OF r] by simp
  have "good_change r d d2"
  proof (cases "don_reward_active r")
    case True
    show ?thesis
      by (rule good_change_event [of "mark_revoked now (trim_space note)" _ "''revoke''" "- don_reward_total r" "- don_reward_daily r" "- don_reward_rpm r" now "note" _ _ "don_domain_id r" "disable_domain now"])
        (use d2 i True in \<open>auto simp: marks_ok granted_def [of _ r]\<close>)
  next
    case False
    show ?thesis
      by (rule good_change_no_event [of "mark_revoked now (trim_space note)" _ _ "don_domain_id r" "disable_domain now"])
        (use d2 i False in \<open>simp_all add: marks_ok granted_def [of _ r]\<close>)
  qed
  then show ?thesis using good_change_then_recalculate [OF _ rc ok] r i by simp
qed

lemma restore_tx_ok:
  assumes rs: "restore_tx now i d = Inr (t, d')" and ok: "donations_ok d"
    and off: "\<And>r. find_row don_id i (db_donations d) = Some r \<Longrightarrow> \<not> don_reward_active r"
  shows "donations_ok d'"
proof -
  obtain r where r: "find_row don_id i (db_donations d) = Some r"
    and rc: "recalculateLocked now (don_token_id r) (update_domain (don_domain_id r) (disable_domain now)
               (update_donation i (mark_restored now) d)) = Inr d'"
    using rs by (auto simp: restore_tx_def rbind_Inr_iff find_donation_Inr Let_def simp del: split_paired_Ex)
  have i: "don_id r = i" using found_donation [OF r] by simp
  have "good_change r d (update_domain (don_domain_id r) (disable_domain now) (update_donation i (mark_restored now) d))"
    by (rule good_change_no_event [of "mark_restored now" _ _ "don_domain_id r" "disable_domain now"])
      (use i off [OF r] in \<open>simp_all add: marks_ok granted_def [of _ r]\<close>)
  then show ?thesis using good_change_then_recalculate [OF _ rc ok] r i by simp
qed

lemma adjust_tx_ok:
  assumes ad: "adjust_tx now t a b c note d = Inr (u, d')" and ok: "donations_ok d"
  shows "donations_ok d'"
proof -
  obtain d1 where t: "donation_token_exists d t"
    and ie: "insert_event now t None ''manual_adjust'' a b c (trim_space note) d = Inr d1"
    and rc: "recalculateLocked now t d1 = Inr d'"
    using ad by (auto simp: adjust_tx_def rbind_Inr_iff lockDonationToken_def donation_token_exists_def split: option.splits if_splits)
  obtain e where d1: "d1 = d\<lparr>db_events := db_events d @ [e]\<rparr>" "re_token e = t" "re_donation e = None"
    using ie by (auto simp: insert_event_Inr)
  have tb: "tables_ok d1" using ok t d1 by (auto simp: donations_ok_def tables_ok_def donation_token_exists_def)
  have lg: "ledger_ok d1" using ok d1 by (simp add: donations_ok_def ledger_ok_def ledger_row_def ledger_sum_def)
  have "limits_except {t} d1"
    unfolding limits_except_def
  proof (intro ballI impI)
    fix q assume q: "q \<in> set (db_tokens d1)" "tok_id q \<notin> {t}"
    have "limits_row d q" using q d1 ok by (simp add: donations_ok_def limits_ok_def)
    then show "limits_row d1 q"
      using limits_row_frame [of q d1 d] d1 q(2) by (simp add: active_sum_def manual_sum_def)
  qed
  then have "limits_ok d'" using recalculateLocked_limits [OF rc, of "{t}"] by (simp add: limits_ok_except)
  then show ?thesis using recalculateLocked_tables [OF rc tb] recalculateLocked_ledger [OF rc lg] by (simp add: donations_ok_def)
qed

section \<open>The policy loop\<close>

definition loop_ok :: "uuid set \<Rightarrow> db \<Rightarrow> bool" where
  "loop_ok T d = (tables_ok d \<and> ledger_ok d \<and> limits_except T d)"

lemma loop_ok_empty: "donations_ok d = loop_ok {} d"
  by (simp add: donations_ok_def loop_ok_def limits_ok_except)

lemma limits_except_mono: "limits_except S d \<Longrightarrow> S \<subseteq> T \<Longrightarrow> limits_except T d"
  by (auto simp: limits_except_def)

lemma good_change_loop:
  assumes gc: "good_change r d d1" and ok: "loop_ok T d" and r: "find_row don_id (don_id r) (db_donations d) = Some r"
    and t: "don_token_id r \<in> T"
  shows "loop_ok T d1"
proof -
  obtain g es where ch: "changed (don_id r) g es d d1" and k: "keeps_refs g" and st: "status_row (g r)" and b: "balanced (don_id r) g es r"
    using gc by (auto simp: good_change_def)
  have tb: "tables_ok d" and lg: "ledger_ok d" and lm: "limits_except T d" using ok by (simp_all add: loop_ok_def)
  show ?thesis
    using changed_tables [OF ch tb r k st b] changed_ledger [OF ch tb lg r k b] changed_limits [OF ch tb lm r k b] t
    by (simp add: loop_ok_def insert_absorb)
qed

lemma good_change_other:
  "good_change r d d1 \<Longrightarrow> j \<noteq> don_id r \<Longrightarrow> find_row don_id j (db_donations d1) = find_row don_id j (db_donations d)"
  by (auto simp: good_change_def changed_def keeps_refs_def find_row_update_row)

lemma policy_row_good: "policy_row now n pol r d = Inr d' \<Longrightarrow> status_row r \<Longrightarrow> good_change r d d'"
  by (rule good_change_event [of "mark_policy now pol" r "''policy_update''" _ _ _ now n _ _ undefined undefined])
    (auto simp: policy_row_def marks_ok granted_def marks status_row_def split: if_splits)

lemma policy_rows_ok:
  "each (policy_row now n pol) rs d = Inr d' \<Longrightarrow> loop_ok T d \<Longrightarrow> distinct (map don_id rs) \<Longrightarrow>
   \<forall>r \<in> set rs. status_row r \<and> don_token_id r \<in> T \<and> find_row don_id (don_id r) (db_donations d) = Some r \<Longrightarrow> loop_ok T d'"
proof (induction rs arbitrary: d)
  case (Cons r rs)
  then obtain d1 where d1: "policy_row now n pol r d = Inr d1" "each (policy_row now n pol) rs d1 = Inr d'"
    by (auto simp: rbind_Inr_iff)
  have gc: "good_change r d d1" using policy_row_good [OF d1(1)] Cons.prems by simp
  have "loop_ok T d1" using good_change_loop [OF gc Cons.prems(2)] Cons.prems by simp
  moreover have "\<forall>q \<in> set rs. find_row don_id (don_id q) (db_donations d1) = Some q"
    using Cons.prems good_change_other [OF gc] by (metis distinct.simps(2) list.set_intros(2) list.simps(9) image_eqI list.set_map)
  ultimately show ?case using Cons.IH [OF d1(2)] Cons.prems by simp
qed simp

lemma recalculate_each_ok:
  "each (recalculateLocked now) ts d = Inr d' \<Longrightarrow> loop_ok T d \<Longrightarrow> loop_ok (T - set ts) d'"
proof (induction ts arbitrary: d T)
  case (Cons t ts)
  then obtain d1 where d1: "recalculateLocked now t d = Inr d1" "each (recalculateLocked now) ts d1 = Inr d'"
    by (auto simp: rbind_Inr_iff)
  have "loop_ok (T - {t}) d1"
    using Cons.prems recalculateLocked_tables [OF d1(1)] recalculateLocked_ledger [OF d1(1)] recalculateLocked_limits [OF d1(1)]
    by (simp add: loop_ok_def)
  moreover have "T - {t} - set ts = T - set (t # ts)" by auto
  ultimately show ?case using Cons.IH [OF d1(2), of "T - {t}"] by simp
qed simp

lemma lock_each_same: "each lock_each ts d = Inr d' \<Longrightarrow> d' = d"
  by (induction ts arbitrary: d) (auto simp: rbind_Inr_iff lock_each_def)

lemma policy_tx_ok:
  assumes px: "policy_tx us now n d = Inr (ts, d')" and ok: "donations_ok d"
  shows "donations_ok d'"
proof -
  define grants where "grants = filter (\<lambda>r. don_status r \<noteq> ''revoked'') (db_donations d)"
  have ts: "ts = sort_key us (remdups (map don_token_id grants))"
    using px by (auto simp: policy_tx_def Let_def rbind_Inr_iff grants_def)
  obtain d0 d1 where d0: "each lock_each ts d = Inr d0"
    and d1: "each (policy_row now n (DonationPolicy (db_settings d))) grants d0 = Inr d1"
    and d2: "each (recalculateLocked now) ts d1 = Inr d'"
    using px unfolding ts by (auto simp: policy_tx_def Let_def rbind_Inr_iff grants_def)
  have tb: "tables_ok d" using ok by (simp add: donations_ok_def)
  have dist: "distinct (map don_id grants)"
    using tb by (simp add: tables_ok_def keys_distinct_def grants_def distinct_map_filter)
  have rows: "\<forall>r \<in> set grants. status_row r \<and> don_token_id r \<in> set ts \<and> find_row don_id (don_id r) (db_donations d) = Some r"
    using tb find_row_unique by (fastforce simp: tables_ok_def grants_def ts)
  have "loop_ok (set ts) d"
    using ok limits_except_mono [of "{}" d "set ts"] by (simp add: loop_ok_empty loop_ok_def)
  then have "loop_ok (set ts) d1" using policy_rows_ok [OF d1 _ dist] rows lock_each_same [OF d0] by simp
  then show ?thesis using recalculate_each_ok [OF d2, of "set ts"] by (simp add: loop_ok_empty)
qed

section \<open>Creating\<close>

definition fresh_ok :: "fresh \<Rightarrow> db \<Rightarrow> bool" where
  "fresh_ok fr d = (fr_token fr \<notin> tok_id ` set (db_tokens d) \<and> fr_donation fr \<notin> don_id ` set (db_donations d))"

lemma find_row_append: "find_row key k (rows @ [r]) = (case find_row key k rows of Some q \<Rightarrow> Some q | None \<Rightarrow> if key r = k then Some r else None)"
  by (induction rows) (auto simp: find_row_def)

lemma exists_mem: "tables_ok d \<Longrightarrow> t \<in> set (db_tokens d) \<Longrightarrow> is_donation_token t \<Longrightarrow> donation_token_exists d (tok_id t)"
  using find_row_unique [of tok_id "db_tokens d" t] by (simp add: tables_ok_def donation_token_exists_def)

lemma exists_key: "donation_token_exists d t \<Longrightarrow> t \<in> tok_id ` set (db_tokens d)"
  using find_row_Some by (fastforce simp: donation_token_exists_def)

lemma zero_limits:
  assumes "tables_ok d" "t \<notin> tok_id ` set (db_tokens d)"
  shows "active_sum f t d = 0" "manual_sum g t d = 0"
proof -
  have "donation_token_exists d (don_token_id r)" if "r \<in> set (db_donations d)" for r
    using that assms(1) by (simp add: tables_ok_def)
  then show "active_sum f t d = 0" using assms(2) exists_key unfolding active_sum_def by (intro sum_rows_zero) auto
  have "donation_token_exists d (re_token e)" if "e \<in> set (db_events d)" for e
    using that assms(1) by (simp add: tables_ok_def)
  then show "manual_sum g t d = 0" using assms(2) exists_key unfolding manual_sum_def by (intro sum_rows_zero) auto
qed

lemma token_appended: "d\<lparr>db_tokens := db_tokens d @ [x]\<rparr> \<noteq> d"
proof
  assume "d\<lparr>db_tokens := db_tokens d @ [x]\<rparr> = d"
  then have "db_tokens d @ [x] = db_tokens d" by (metis db.ext_inject db.surjective db.update_convs(2))
  then show False by simp
qed

lemma donation_token_cases:
  assumes dt: "donation_token sha now fr ex d = Inr (t, raw, d1)"
  shows "(d1 = d \<and> (\<exists>q \<in> set (db_tokens d). is_donation_token q \<and> t = tok_id q))
         \<or> (\<exists>acc :: account. d1 = d\<lparr>db_tokens := db_tokens d @ [reward_token sha now (fr_token fr) (acc_id acc) raw]\<rparr> \<and> t = fr_token fr)"
proof (cases "owner_account d")
  case (Some acc)
  show ?thesis
  proof (cases "trim_space ex = []")
    case True
    then show ?thesis
      using dt Some by (intro disjI2 exI [of _ acc]) (auto simp: donation_token_def Let_def split: if_splits)
  next
    case False
    then obtain q where q: "List.find (\<lambda>t. tok_account_id t = acc_id acc \<and> tr_hash t = hashToken sha (trim_space ex)
        \<and> is_donation_token t) (db_tokens d) = Some q" "t = tok_id q" "d1 = d"
      using dt Some by (simp add: donation_token_def Let_def split: option.splits if_splits)
    then show ?thesis by (auto simp: find_Some_iff)
  qed
qed (use dt in \<open>simp add: donation_token_def\<close>)

lemma donation_token_ok:
  assumes dt: "donation_token sha now fr ex d = Inr (t, raw, d1)" and ok: "donations_ok d" and fr: "fresh_ok fr d"
  shows "donations_ok d1 \<and> donation_token_exists d1 t \<and> db_donations d1 = db_donations d \<and> db_events d1 = db_events d"
proof (cases "d1 = d")
  case True
  have "\<exists>q \<in> set (db_tokens d). is_donation_token q \<and> t = tok_id q"
    using donation_token_cases [OF dt] token_appended [of d] True by blast
  then show ?thesis using ok exists_mem True by (auto simp: donations_ok_def)
next
  case False
  then obtain acc :: account where d1: "d1 = d\<lparr>db_tokens := db_tokens d @ [reward_token sha now (fr_token fr) (acc_id acc) raw]\<rparr>"
    and t: "t = fr_token fr"
    using donation_token_cases [OF dt] by blast
  have new: "fr_token fr \<notin> tok_id ` set (db_tokens d)" using fr by (simp add: fresh_ok_def)
  have tb: "tables_ok d" using ok by (simp add: donations_ok_def)
  let ?n = "reward_token sha now (fr_token fr) (acc_id acc) raw"
  have n: "is_donation_token ?n" "tok_id ?n = fr_token fr" by (simp_all add: reward_token_def is_donation_token_def)
  have ex: "donation_token_exists d u \<Longrightarrow> donation_token_exists d1 u" for u
    using d1 by (auto simp: donation_token_exists_def find_row_append)
  have ext: "donation_token_exists d1 t" using d1 t n new find_row_None [of tok_id "fr_token fr" "db_tokens d"]
    by (simp add: donation_token_exists_def find_row_append)
  have tb1: "tables_ok d1" using tb ex d1 new n unfolding tables_ok_def keys_distinct_def by simp
  have lg: "ledger_ok d1" using ok d1 by (simp add: donations_ok_def ledger_ok_def ledger_row_def ledger_sum_def)
  have z: "active_sum f (fr_token fr) d1 = 0" "manual_sum g (fr_token fr) d1 = 0" for f g
    using zero_limits [OF tb new] d1 by (simp_all add: active_sum_def manual_sum_def)
  have nl: "limits_row d1 ?n"
    unfolding limits_row_def total_limit_def daily_limit_def rpm_limit_def n z by (simp add: reward_token_def nonneg_def)
  have "limits_row d1 q" if "q \<in> set (db_tokens d)" for q
    using that ok limits_row_frame [of q d1 d] d1 by (simp add: donations_ok_def limits_ok_def active_sum_def manual_sum_def)
  then have "limits_ok d1" using nl d1 by (simp add: limits_ok_def)
  then show ?thesis using tb1 lg ext d1 by (simp add: donations_ok_def)
qed

lemma donation_domain_frame:
  "donation_domain now fr name d = Inr (k, d') \<Longrightarrow>
     db_tokens d' = db_tokens d \<and> db_donations d' = db_donations d \<and> db_events d' = db_events d"
  by (auto simp: donation_domain_def split: option.splits if_splits)

lemma donations_ok_frame:
  assumes "db_tokens d' = db_tokens d" "db_donations d' = db_donations d" "db_events d' = db_events d" and ok: "donations_ok d"
  shows "donations_ok d'"
proof -
  have "limits_row d' r = limits_row d r" for r by (rule limits_row_frame) (simp_all add: assms active_sum_def manual_sum_def)
  then show ?thesis
    using ok unfolding donations_ok_def tables_ok_def ledger_ok_def limits_ok_def ledger_row_def ledger_sum_def
      donation_token_exists_def assms(1-3) by simp
qed

lemma insert_donation_ok:
  assumes ins: "insert_donation r d = Inr d'" and ok: "donations_ok d" and new: "don_id r \<notin> don_id ` set (db_donations d)"
    and st: "status_row r" and off: "\<not> don_reward_active r" and t: "donation_token_exists d (don_token_id r)"
  shows "donations_ok d'"
proof -
  have d': "d' = d\<lparr>db_donations := db_donations d @ [r]\<rparr>" using ins by (auto simp: insert_donation_def split: if_splits)
  have tb: "tables_ok d" using ok by (simp add: donations_ok_def)
  have tb': "tables_ok d'"
    using tb new st t unfolding tables_ok_def d' keys_distinct_def donation_token_exists_def by auto
  have "ledger_sum f (don_id r) d = 0" for f
    unfolding ledger_sum_def by (rule sum_rows_zero) (use tb new in \<open>auto simp: tables_ok_def\<close>)
  then have lg: "ledger_ok d'"
    using ok off by (auto simp: d' donations_ok_def ledger_ok_def ledger_row_def ledger_sum_def granted_def)
  have "limits_row d' q = limits_row d q" for q
    by (rule limits_row_frame) (simp_all add: d' off active_sum_def manual_sum_def)
  then have "limits_ok d'" using ok by (simp add: d' donations_ok_def limits_ok_def)
  then show ?thesis using tb' lg by (simp add: donations_ok_def)
qed

lemma create_tx_ok:
  assumes cr: "create_tx sha now fr pol name sub ex d = Inr (x, d')" and ok: "donations_ok d" and fr: "fresh_ok fr d"
  shows "donations_ok d'"
proof -
  obtain t raw d1 k d2 d3 where d1: "donation_token sha now fr ex d = Inr (t, raw, d1)"
    and d2: "donation_domain now fr name d1 = Inr (k, d2)"
    and d3: "insert_donation (new_donation sha now pol fr t k sub) d2 = Inr d3" and d': "d' = update_domain k mark_donated d3"
    using cr by (auto simp: create_tx_def rbind_Inr_iff)
  have a: "donations_ok d1" "donation_token_exists d1 t" "db_donations d1 = db_donations d"
    using donation_token_ok [OF d1 ok fr] by auto
  have f2: "db_tokens d2 = db_tokens d1" "db_donations d2 = db_donations d1" "db_events d2 = db_events d1"
    using donation_domain_frame [OF d2] by auto
  have b: "donations_ok d2" by (rule donations_ok_frame [OF f2 a(1)])
  have "donations_ok d3"
    by (rule insert_donation_ok [OF d3 b])
      (use a f2 fr in \<open>simp_all add: new_donation_def status_row_def fresh_ok_def donation_token_exists_def\<close>)
  then show ?thesis by (rule donations_ok_frame [rotated 3]) (simp_all add: d' update_domain_def)
qed

section \<open>Any sequence of operations\<close>

datatype donation_op =
    Create fresh string bool string
  | Verify uuid verification
  | Revoke uuid string
  | Restore uuid
  | Adjust uuid int int int string
  | Policy string

text \<open>The libraries an operation calls: lower case, SHA-256, the text of a UUID.\<close>

record libs =
  lib_lower :: "nat \<Rightarrow> nat"
  lib_sha :: "string \<Rightarrow> string"
  lib_uuid :: "uuid \<Rightarrow> string"

fun perform :: "libs \<Rightarrow> bool \<Rightarrow> time \<Rightarrow> donation_op \<Rightarrow> db \<Rightarrow> (db_error, unit) result \<times> db" where
  "perform l fault now (Create fr name sub ex) d =
     map_prod (map_sum id (\<lambda>_. ())) id (CreateDonationRequest fault (lib_lower l) (lib_sha l) now fr name sub ex d)"
| "perform l fault now (Verify i v) d = map_prod (map_sum id (\<lambda>_. ())) id (ApplyDonationVerification fault now i v d)"
| "perform l fault now (Revoke i n) d = map_prod (map_sum id (\<lambda>_. ())) id (SetDonationRevoked fault now i True n d)"
| "perform l fault now (Restore i) d = map_prod (map_sum id (\<lambda>_. ())) id (SetDonationRevoked fault now i False [] d)"
| "perform l fault now (Adjust t a b c n) d = map_prod (map_sum id (\<lambda>_. ())) id (AdjustDonationToken fault now t a b c n d)"
| "perform l fault now (Policy n) d = map_prod (map_sum id (\<lambda>_. ())) id (ApplyDonationPolicyToExisting fault (lib_uuid l) now n d)"

text \<open>Ids the database generates are new; a restore is for a donation without its reward.\<close>

definition allowed :: "donation_op \<Rightarrow> db \<Rightarrow> bool" where
  "allowed op d =
     (case op of
        Create fr _ _ _ \<Rightarrow> fresh_ok fr d
      | Restore i \<Rightarrow> (case find_row don_id i (db_donations d) of None \<Rightarrow> True | Some r \<Rightarrow> \<not> don_reward_active r)
      | _ \<Rightarrow> True)"

lemma run_tx_keeps:
  "(\<And>x d'. m d = Inr (x, d') \<Longrightarrow> P d') \<Longrightarrow> P d \<Longrightarrow> P (snd (run_tx fault m d))"
  by (auto simp: run_tx_def split: sum.splits)

lemmas tx_keeps_ok = run_tx_keeps [where P = donations_ok]

lemma snd_result: "snd (map_prod f id p) = snd p"
  by (cases p) simp

lemma CreateDonationRequest_ok:
  assumes "donations_ok d" "fresh_ok fr d"
  shows "donations_ok (snd (CreateDonationRequest fault lo sha now fr name sub ex d))"
proof (cases "to_lower lo (trim_cut ''.'' (trim_space name)) = []")
  case False
  show ?thesis
    unfolding CreateDonationRequest_def Let_def if_not_P [OF False]
    by (rule tx_keeps_ok [OF create_tx_ok [OF _ assms] assms(1)])
qed (simp add: CreateDonationRequest_def assms)

lemma AdjustDonationToken_ok: "donations_ok d \<Longrightarrow> donations_ok (snd (AdjustDonationToken fault now t a b c n d))"
  using run_tx_keeps [of "adjust_tx now t a b c n" d donations_ok fault] adjust_tx_ok
  by (simp add: AdjustDonationToken_def)

lemma SetDonationRevoked_ok:
  assumes ok: "donations_ok d"
    and off: "\<And>r. \<not> revoked \<Longrightarrow> find_row don_id i (db_donations d) = Some r \<Longrightarrow> \<not> don_reward_active r"
  shows "donations_ok (snd (SetDonationRevoked fault now i revoked n d))"
proof (cases revoked)
  case True
  show ?thesis unfolding SetDonationRevoked_def by (rule tx_keeps_ok [OF _ ok]) (use True revoke_tx_ok ok in simp)
next
  case False
  show ?thesis unfolding SetDonationRevoked_def
    by (rule tx_keeps_ok [OF _ ok]) (use False restore_tx_ok [of now i d, OF _ ok off [OF False]] in simp)
qed

lemma ApplyDonationVerification_ok: "donations_ok d \<Longrightarrow> donations_ok (snd (ApplyDonationVerification fault now i v d))"
  unfolding ApplyDonationVerification_def by (rule tx_keeps_ok [OF verification_tx_ok])

lemma ApplyDonationPolicyToExisting_ok: "donations_ok d \<Longrightarrow> donations_ok (snd (ApplyDonationPolicyToExisting fault us now n d))"
  unfolding ApplyDonationPolicyToExisting_def by (rule tx_keeps_ok [OF policy_tx_ok])

lemma perform_ok:
  assumes "donations_ok d" "allowed op d"
  shows "donations_ok (snd (perform l fault now op d))"
proof (cases op)
  case (Restore i)
  then have "\<And>r. find_row don_id i (db_donations d) = Some r \<Longrightarrow> \<not> don_reward_active r"
    using assms(2) by (simp add: allowed_def)
  then show ?thesis using SetDonationRevoked_ok [OF assms(1), of False i] Restore by (simp add: snd_result)
next
  case (Revoke i n)
  then show ?thesis using SetDonationRevoked_ok [OF assms(1), of True i] by (simp add: snd_result)
qed (use assms in \<open>simp_all add: snd_result allowed_def CreateDonationRequest_ok ApplyDonationVerification_ok
      SetDonationRevoked_ok AdjustDonationToken_ok ApplyDonationPolicyToExisting_ok\<close>)

end
