(* ===== verification/Donation_Promises.thy ===== *)
theory Donation_Promises
  imports Donation_Ledger
begin

text \<open>
  What a client of the donation operations is promised: the effect of a verification, the failures a
  grant survives, the reward a policy change leaves, the number of domains a token may carry, and the
  list of donations that are due.
\<close>

section \<open>One verification\<close>

definition loses_reward :: "int \<Rightarrow> verification \<Rightarrow> donation_row \<Rightarrow> bool" where
  "loses_reward tol v r =
     (\<not> ver_valid v \<and> don_reward_active r \<and> (\<not> ver_transient v \<or> don_failure_count r + 1 \<ge> tol))"

definition verified_row :: "time \<Rightarrow> int \<Rightarrow> verification \<Rightarrow> donation_row \<Rightarrow> donation_row" where
  "verified_row now tol v r =
     (if ver_valid v then mark_valid now r
      else if loses_reward tol v r then mark_inactive now (don_failure_count r + 1) (ver_status v) r
      else mark_failed now (don_failure_count r + 1) (ver_status v) r)"

definition verified_domain :: "time \<Rightarrow> int \<Rightarrow> verification \<Rightarrow> donation_row \<Rightarrow> mail_domain \<Rightarrow> mail_domain" where
  "verified_domain now tol v r m =
     (if ver_valid v then activate_domain now m else if loses_reward tol v r then disable_domain now m else m)"

lemma verified_domain_fun:
  "verified_domain now tol v r = (if ver_valid v then activate_domain now else if loses_reward tol v r then disable_domain now else (\<lambda>m. m))"
  by (rule ext) (simp add: verified_domain_def)

lemma update_simps [simp]:
  "db_donations (update_donation i f d) = update_row don_id i f (db_donations d)"
  "db_donations (update_domain k g d) = db_donations d"
  "db_domains (update_domain k g d) = update_row dom_id k g (db_domains d)"
  "db_domains (update_donation i f d) = db_domains d"
  "db_events (update_donation i f d) = db_events d" "db_events (update_domain k g d) = db_events d"
  "db_settings (update_donation i f d) = db_settings d" "db_settings (update_domain k g d) = db_settings d"
  "db_tokens (update_donation i f d) = db_tokens d" "db_tokens (update_domain k g d) = db_tokens d"
  by (simp_all add: update_donation_def update_domain_def)

lemma insert_event_frame:
  "insert_event now t i kind a b c n d = Inr d' \<Longrightarrow>
     db_donations d' = db_donations d \<and> db_domains d' = db_domains d \<and> db_settings d' = db_settings d
     \<and> db_tokens d' = db_tokens d \<and> length (db_events d') = length (db_events d) + 1"
  by (simp add: insert_event_Inr)

definition flips :: "time \<Rightarrow> int \<Rightarrow> verification \<Rightarrow> donation_row \<Rightarrow> nat" where
  "flips now tol v r = (if don_reward_active (verified_row now tol v r) = don_reward_active r then 0 else 1)"

lemma verify_row_effect:
  assumes "verify_row now v r d = Inr d1"
  shows "db_donations d1 = update_row don_id (don_id r)
             (if ver_valid v then mark_valid now
              else if loses_reward (failure_tolerance (db_settings d)) v r then mark_inactive now (don_failure_count r + 1) (ver_status v)
              else mark_failed now (don_failure_count r + 1) (ver_status v)) (db_donations d)"
    and "db_domains d1 = update_row dom_id (don_domain_id r) (verified_domain now (failure_tolerance (db_settings d)) v r) (db_domains d)"
    and "db_settings d1 = db_settings d"
    and "length (db_events d1) = length (db_events d) + flips now (failure_tolerance (db_settings d)) v r"
proof -
  have same: "update_row dom_id k (\<lambda>m. m) ms = ms" for k and ms :: "mail_domain list" by (simp add: update_row_def)
  show "db_donations d1 = update_row don_id (don_id r)
             (if ver_valid v then mark_valid now
              else if loses_reward (failure_tolerance (db_settings d)) v r then mark_inactive now (don_failure_count r + 1) (ver_status v)
              else mark_failed now (don_failure_count r + 1) (ver_status v)) (db_donations d)"
    using assms by (auto simp: verify_row_def Let_def loses_reward_def dest!: insert_event_frame split: if_splits)
  show "db_domains d1 = update_row dom_id (don_domain_id r) (verified_domain now (failure_tolerance (db_settings d)) v r) (db_domains d)"
    using assms by (auto simp: verify_row_def Let_def loses_reward_def verified_domain_fun same dest!: insert_event_frame split: if_splits)
  show "db_settings d1 = db_settings d"
    using assms by (auto simp: verify_row_def Let_def dest!: insert_event_frame split: if_splits)
  show "length (db_events d1) = length (db_events d) + flips now (failure_tolerance (db_settings d)) v r"
    using assms by (auto simp: verify_row_def Let_def loses_reward_def flips_def verified_row_def marks dest!: insert_event_frame split: if_splits)
qed

lemma verification_tx_steps:
  assumes "ApplyDonationVerification fault now i v d = (Inr t, d')"
  shows "\<exists>r d1. find_row don_id i (db_donations d) = Some r \<and> t = don_token_id r \<and> don_status r \<noteq> ''revoked''
           \<and> verify_row now v r d = Inr d1 \<and> recalculateLocked now t d1 = Inr d'"
  using assms by (auto simp: ApplyDonationVerification_def run_tx_ok verification_tx_def rbind_Inr_iff find_donation_Inr guard_Inr_iff)

lemma verification_effect_core:
  assumes ap: "ApplyDonationVerification fault now i v d = (Inr t, d')" and r: "find_row don_id i (db_donations d) = Some r"
  shows "don_status r \<noteq> ''revoked''"
    and "find_row don_id j (db_donations d') =
           (if j = i then Some (verified_row now (failure_tolerance (db_settings d)) v r) else find_row don_id j (db_donations d))"
    and "find_row dom_id k (db_domains d') =
           (if k = don_domain_id r then map_option (verified_domain now (failure_tolerance (db_settings d)) v r) (find_row dom_id k (db_domains d))
            else find_row dom_id k (db_domains d))"
    and "length (db_events d') = length (db_events d) + flips now (failure_tolerance (db_settings d)) v r"
    and "db_settings d' = db_settings d"
proof -
  obtain d1 where s: "don_status r \<noteq> ''revoked''" and v: "verify_row now v r d = Inr d1" and rc: "recalculateLocked now t d1 = Inr d'"
    using verification_tx_steps [OF ap] r by auto
  have i: "don_id r = i" using found_donation [OF r] by simp
  have f: "db_donations d' = db_donations d1" "db_domains d' = db_domains d1" "db_settings d' = db_settings d1" "db_events d' = db_events d1"
    using recalculateLocked_frame [OF rc] by blast+
  show "don_status r \<noteq> ''revoked''" by (rule s)
  show "find_row don_id j (db_donations d') =
           (if j = i then Some (verified_row now (failure_tolerance (db_settings d)) v r) else find_row don_id j (db_donations d))"
    unfolding f verify_row_effect(1) [OF v] i using r by (simp add: find_row_update_row marks verified_row_def)
  show "find_row dom_id k (db_domains d') =
           (if k = don_domain_id r then map_option (verified_domain now (failure_tolerance (db_settings d)) v r) (find_row dom_id k (db_domains d))
            else find_row dom_id k (db_domains d))"
    unfolding f verify_row_effect(2) [OF v]
    by (rule find_row_update_row) (simp add: verified_domain_def activate_domain_def disable_domain_def)
  show "length (db_events d') = length (db_events d) + flips now (failure_tolerance (db_settings d)) v r"
    unfolding f using verify_row_effect(4) [OF v] .
  show "db_settings d' = db_settings d" unfolding f using verify_row_effect(3) [OF v] .
qed

text \<open>The ledger entry a verification writes, if any.\<close>

definition verification_entry :: "time \<Rightarrow> int \<Rightarrow> verification \<Rightarrow> donation_row \<Rightarrow> db \<Rightarrow> reward_event list" where
  "verification_entry now tol v r d =
     (if ver_valid v \<and> \<not> don_reward_active r then
        [\<lparr>re_id = next_event_id d, re_token = don_token_id r, re_donation = Some (don_id r), re_type = ''grant'', re_total = don_reward_total r,
          re_daily = don_reward_daily r, re_rpm = don_reward_rpm r, re_note = ver_status v, re_at = now\<rparr>]
      else if \<not> ver_valid v \<and> loses_reward tol v r then
        [\<lparr>re_id = next_event_id d, re_token = don_token_id r, re_donation = Some (don_id r), re_type = ''revoke'', re_total = - don_reward_total r,
          re_daily = - don_reward_daily r, re_rpm = - don_reward_rpm r, re_note = ver_status v, re_at = now\<rparr>]
      else [])"

lemma verify_row_entry:
  assumes "verify_row now v r d = Inr d1"
  shows "db_events d1 = db_events d @ verification_entry now (failure_tolerance (db_settings d)) v r d"
proof -
  have n: "next_event_id (update_domain k g d') = next_event_id d'" "next_event_id (update_donation i f d') = next_event_id d'" for k g i f d'
    by (simp_all add: next_event_id_def)
  show ?thesis using assms
    by (auto simp: verify_row_def Let_def verification_entry_def loses_reward_def insert_event_def n split: if_splits)
qed

lemma verification_ledger:
  assumes "ApplyDonationVerification fault now i v d = (Inr t, d')" "find_row don_id i (db_donations d) = Some r"
  shows "db_events d' = db_events d @ verification_entry now (failure_tolerance (db_settings d)) v r d"
proof -
  obtain d1 where v: "verify_row now v r d = Inr d1" and rc: "recalculateLocked now t d1 = Inr d'"
    using verification_tx_steps [OF assms(1)] assms(2) by auto
  show ?thesis using recalculateLocked_frame [OF rc] verify_row_entry [OF v] by simp
qed

section \<open>Repeated failures\<close>

text \<open>The same outcome \<open>v\<close> applied at each of the times, all of them successfully.\<close>

fun verify_times :: "time list \<Rightarrow> uuid \<Rightarrow> verification \<Rightarrow> db \<Rightarrow> db option" where
  "verify_times [] i v d = Some d"
| "verify_times (now # ts) i v d =
     (case ApplyDonationVerification False now i v d of
        (Inl _, _) \<Rightarrow> None
      | (Inr _, d') \<Rightarrow> verify_times ts i v d')"

lemma transient_failures:
  "verify_times ts i v d = Some d' \<Longrightarrow> find_row don_id i (db_donations d) = Some r \<Longrightarrow> don_reward_active r \<Longrightarrow>
   \<not> ver_valid v \<Longrightarrow> ver_transient v \<Longrightarrow> don_failure_count r \<ge> 0 \<Longrightarrow>
   don_failure_count r < failure_tolerance (db_settings d) \<Longrightarrow>
   don_failure_count r + int (length ts) \<le> failure_tolerance (db_settings d) \<Longrightarrow>
   \<exists>r'. find_row don_id i (db_donations d') = Some r'
      \<and> don_failure_count r' = don_failure_count r + int (length ts)
      \<and> (don_reward_active r' \<longleftrightarrow> don_failure_count r + int (length ts) < failure_tolerance (db_settings d))
      \<and> int (length (db_events d')) = int (length (db_events d)) + (if don_reward_active r' then 0 else 1)"
proof (induction ts arbitrary: d r)
  case (Cons now ts)
  obtain t d1 where ap: "ApplyDonationVerification False now i v d = (Inr t, d1)" and rest: "verify_times ts i v d1 = Some d'"
    using Cons.prems(1) by (auto split: prod.splits sum.splits)
  let ?tol = "failure_tolerance (db_settings d)"
  let ?r1 = "verified_row now ?tol v r"
  note eff = verification_effect_core [OF ap Cons.prems(2)]
  have r1: "find_row don_id i (db_donations d1) = Some ?r1" using eff(2) [of i] by simp
  have fc: "don_failure_count ?r1 = don_failure_count r + 1" using Cons.prems by (simp add: verified_row_def marks)
  have act: "don_reward_active ?r1 \<longleftrightarrow> don_failure_count r + 1 < ?tol"
    using Cons.prems by (simp add: verified_row_def loses_reward_def marks not_less)
  show ?case
  proof (cases "don_failure_count r + 1 < ?tol")
    case True
    have "length (db_events d1) = length (db_events d)"
      using eff(4) act True Cons.prems by (simp add: flips_def)
    then show ?thesis
      using Cons.IH [OF rest r1] act True fc eff(5) Cons.prems by (auto simp: algebra_simps)
  next
    case False
    then have "int (length ts) \<le> 0" using Cons.prems(8) unfolding list.size by linarith
    then have "ts = []" by simp
    then show ?thesis using rest r1 fc act False eff(4) Cons.prems by (simp add: flips_def)
  qed
qed simp

section \<open>The limit on domains\<close>

lemma count_rows_append [simp]: "count_rows P (rs @ [r]) = count_rows P rs + (if P r then 1 else 0)"
  by (simp add: count_rows_def)

definition live_donations :: "uuid \<Rightarrow> db \<Rightarrow> int" where
  "live_donations t d = count_rows (\<lambda>r. don_token_id r = t \<and> don_status r \<noteq> ''revoked'') (db_donations d)"

lemma create_tx_steps:
  assumes "create_tx sha now fr pol name sub ex d = Inr (x, d')"
  shows "\<exists>t raw d1 k d2 d3. donation_token sha now fr ex d = Inr (t, raw, d1) \<and> live_donations t d1 < pol_max_domains pol
     \<and> donation_domain now fr name d1 = Inr (k, d2) \<and> insert_donation (new_donation sha now pol fr t k sub) d2 = Inr d3
     \<and> d' = update_domain k mark_donated d3 \<and> x = (fr_donation fr, hex_encode (fr_claim_bytes fr), raw)"
  using assms by (auto simp: create_tx_def rbind_Inr_iff live_donations_def guard_Inr_iff)

lemma insert_donation_rows: "insert_donation r d = Inr d' \<Longrightarrow> db_donations d' = db_donations d @ [r]"
  by (auto simp: insert_donation_def split: if_splits)

section \<open>The policy loop\<close>

lemma policy_row_rows: "policy_row now n pol r d = Inr d' \<Longrightarrow> db_donations d' = update_row don_id (don_id r) (mark_policy now pol) (db_donations d)"
  by (auto simp: policy_row_def dest!: insert_event_frame split: if_splits)

lemma policy_rows_rows:
  "each (policy_row now n pol) rs d = Inr d' \<Longrightarrow>
   db_donations d' = map (\<lambda>q. if don_id q \<in> don_id ` set rs then mark_policy now pol q else q) (db_donations d)"
proof (induction rs arbitrary: d)
  case (Cons r rs)
  then obtain d1 where "policy_row now n pol r d = Inr d1" and "each (policy_row now n pol) rs d1 = Inr d'"
    by (auto simp: rbind_Inr_iff)
  then show ?case
    using Cons.IH policy_row_rows by (fastforce simp: update_row_def mark_policy_def)
qed simp

lemma recalculate_each_rows: "each (recalculateLocked now) ts d = Inr d' \<Longrightarrow> db_donations d' = db_donations d"
proof (induction ts arbitrary: d)
  case (Cons t ts)
  then obtain d1 where "recalculateLocked now t d = Inr d1" and "each (recalculateLocked now) ts d1 = Inr d'"
    by (auto simp: rbind_Inr_iff)
  then show ?case using Cons.IH recalculateLocked_frame by metis
qed simp

section \<open>The order of the due list\<close>

definition checked_before :: "donation_row \<Rightarrow> donation_row \<Rightarrow> bool" where
  "checked_before a b =
     (case don_last_checked_at a of
        None \<Rightarrow> True
      | Some s \<Rightarrow> (case don_last_checked_at b of None \<Rightarrow> False | Some t \<Rightarrow> s \<le> t))"

lemma due_order_le: "due_order a \<le> due_order b \<longleftrightarrow> checked_before a b"
  by (auto simp: due_order_def checked_before_def list_less_def list_le_def split: option.splits)

lemma sorted_due: "sorted_wrt checked_before (ListDueDonations now d)"
proof -
  have "sorted (map due_order (sort_key due_order xs))" for xs by simp
  then have "sorted_wrt checked_before (sort_key due_order xs)" for xs
    by (simp add: sorted_map due_order_le)
  then show ?thesis by (simp add: ListDueDonations_def Let_def sorted_wrt_take)
qed

section \<open>An example database\<close>

definition sample_policy_row :: "string \<Rightarrow> bool \<Rightarrow> donation_row" where
  "sample_policy_row st active =
     \<lparr>don_id = 7, don_domain_id = 3, don_token_id = 5, don_include_subdomains = True, don_challenge_token = ''c'',
      don_status = st, don_reward_active = active, don_reward_rpm = 30, don_reward_daily = 5000,
      don_reward_total = 100000, don_failure_count = 0, don_last_error = [], don_last_checked_at = None,
      don_activated_at = None, don_reward_revoked_at = None, don_created_at = 0, don_updated_at = 0, dr_claim_hash = ''h''\<rparr>"

definition sample_token :: "int \<Rightarrow> int \<Rightarrow> int \<Rightarrow> token_row" where
  "sample_token rpm daily tot_req =
     \<lparr>tok_id = 5, tok_account_id = 1, tok_name = ''Donation rewards'', tok_prefix = ''p'', tok_scope = ''cleanup'',
      tok_is_primary = False, tok_kind = ''donation'', tok_rate_limit_per_minute = rpm,
      tok_daily_request_limit = daily, tok_total_request_limit = tot_req, tok_request_count_total = 0,
      tok_last_used_at = None, tok_expires_at = None, tok_revoked_at = None, tok_created_at = 0,
      tok_updated_at = 0, tr_hash = ''t''\<rparr>"

definition sample_grant :: reward_event where
  "sample_grant =
     \<lparr>re_id = 1, re_token = 5, re_donation = Some 7, re_type = ''grant'', re_total = 100000, re_daily = 5000,
      re_rpm = 30, re_note = ''ok'', re_at = 0\<rparr>"

definition pending_db :: db where
  "pending_db = empty_db\<lparr>db_tokens := [sample_token 0 0 0], db_donations := [sample_policy_row ''pending'' False]\<rparr>"

definition active_db :: db where
  "active_db = empty_db\<lparr>db_tokens := [sample_token 30 5000 100000], db_donations := [sample_policy_row ''active'' True],
     db_events := [sample_grant]\<rparr>"

lemmas sample_defs = sample_policy_row_def sample_token_def sample_grant_def empty_db_def

lemma pending_db_ok: "donations_ok pending_db"
  by (simp add: pending_db_def sample_defs donations_ok_def tables_ok_def ledger_ok_def limits_ok_def ledger_row_def
      ledger_sum_def limits_row_def total_limit_def daily_limit_def rpm_limit_def active_sum_def manual_sum_def granted_def
      keys_distinct_def status_row_def donation_token_exists_def find_row_def is_donation_token_def nonneg_def)

lemma active_db_ok: "donations_ok active_db"
  by (simp add: active_db_def sample_defs donations_ok_def tables_ok_def ledger_ok_def limits_ok_def ledger_row_def
      ledger_sum_def limits_row_def total_limit_def daily_limit_def rpm_limit_def active_sum_def manual_sum_def granted_def
      keys_distinct_def status_row_def donation_token_exists_def find_row_def is_donation_token_def nonneg_def)

section \<open>Histories\<close>

fun history :: "libs \<Rightarrow> (bool \<times> time \<times> donation_op) list \<Rightarrow> db \<Rightarrow> db" where
  "history l [] d = d"
| "history l ((fault, now, op) # ops) d = history l ops (snd (perform l fault now op d))"

fun allowed_history :: "libs \<Rightarrow> (bool \<times> time \<times> donation_op) list \<Rightarrow> db \<Rightarrow> bool" where
  "allowed_history l [] d = True"
| "allowed_history l ((fault, now, op) # ops) d = (allowed op d \<and> allowed_history l ops (snd (perform l fault now op d)))"

definition no_donations :: "db \<Rightarrow> bool" where
  "no_donations d = (db_donations d = [] \<and> db_events d = [] \<and> keys_distinct tok_id (db_tokens d)
     \<and> list_all (\<lambda>t. \<not> is_donation_token t) (db_tokens d))"

lemma no_donations_ok: "no_donations d \<Longrightarrow> donations_ok d"
  by (simp add: no_donations_def donations_ok_def tables_ok_def ledger_ok_def limits_ok_def limits_row_def keys_distinct_def list_all_iff)

lemma history_ok: "donations_ok d \<Longrightarrow> allowed_history l ops d \<Longrightarrow> donations_ok (history l ops d)"
  by (induction ops arbitrary: d rule: list.induct) (auto simp: perform_ok)

definition sample_libs :: libs where
  "sample_libs = \<lparr>lib_lower = (\<lambda>c. c), lib_sha = (\<lambda>s. s), lib_uuid = (\<lambda>_. [])\<rparr>"

definition sample_fresh :: fresh where
  "sample_fresh = \<lparr>fr_token = 5, fr_donation = 7, fr_domain = 3, fr_token_bytes = ''t'', fr_claim_bytes = ''c'', fr_challenge_bytes = ''d''\<rparr>"

definition valid_check :: verification where
  "valid_check = \<lparr>ver_valid = True, ver_transient = False, ver_status = ''ok''\<rparr>"

definition dns_timeout :: verification where
  "dns_timeout = \<lparr>ver_valid = False, ver_transient = True, ver_status = ''timeout''\<rparr>"

section \<open>The properties\<close>

text \<open>C12. Every operation of the donation store keeps the reward ledger and the limits: whatever donations,
  verifications, revocations, restores, manual adjustments and policy changes follow each other from a
  database without donations (restores only of donations without their reward), each donation's ledger
  entries add up to what it currently grants, and each reward token's daily and total limits are what its
  active donations and its manual adjustments add up to; operations that fail are included.\<close>

theorem donation_history_balances:
  assumes "no_donations d" "allowed_history l ops d"
  shows "let d' = history l ops d in
     (\<forall>r \<in> set (db_donations d').
        ledger_sum re_total (don_id r) d' = (if don_reward_active r then don_reward_total r else 0)
        \<and> ledger_sum re_daily (don_id r) d' = (if don_reward_active r then don_reward_daily r else 0)
        \<and> ledger_sum re_rpm (don_id r) d' = (if don_reward_active r then don_reward_rpm r else 0))
     \<and> (\<forall>t \<in> set (db_tokens d'). is_donation_token t \<longrightarrow>
           tok_daily_request_limit t =
             nonneg (active_sum don_reward_daily (tok_id t) d' + manual_sum re_daily (tok_id t) d')
           \<and> tok_total_request_limit t = total_limit (tok_id t) d')"
proof -
  have ok: "donations_ok (history l ops d)" by (rule history_ok [OF no_donations_ok [OF assms(1)] assms(2)])
  have "ledger_row (history l ops d) r" if "r \<in> set (db_donations (history l ops d))" for r
    using ok that by (simp add: donations_ok_def ledger_ok_def)
  moreover have "limits_row (history l ops d) t" if "t \<in> set (db_tokens (history l ops d))" for t
    using ok that by (simp add: donations_ok_def limits_ok_def)
  ultimately show ?thesis by (simp add: Let_def ledger_row_def granted_def limits_row_def daily_limit_def)
qed

definition sample_history :: "(bool \<times> time \<times> donation_op) list" where
  "sample_history =
     [(False, 100, Create sample_fresh ''a.b'' True []), (False, 200, Verify 7 valid_check),
      (False, 250, Adjust 5 10 10 10 ''n''), (False, 300, Revoke 7 ''abuse'')]"

theorem donation_history_balances_witness:
  "list_all (\<lambda>r. ledger_sum re_total (don_id r) (history sample_libs sample_history empty_db)
       = (if don_reward_active r then don_reward_total r else 0)) (db_donations (history sample_libs sample_history empty_db))"
proof -
  have n: "no_donations empty_db" by (simp add: no_donations_def empty_db_def keys_distinct_def)
  have a: "allowed_history sample_libs sample_history empty_db"
    by (simp add: sample_history_def allowed_def fresh_ok_def empty_db_def)
  show ?thesis using donation_history_balances [OF n a] by (simp add: Let_def list_all_iff)
qed

text \<open>C13. A DNS verification that is stored has exactly the effect the state machine of a donation
  prescribes: a valid one makes the donation active, clears its failures, its error and the time its reward was lost, and keeps the
  time of the first activation; a conclusive failure or the last tolerated transient one makes an active donation inactive, any other
  failure is only counted and noted.  The donation's domain is switched on with its reward and off when the reward is lost; no other
  donation and no other domain changes.  The ledger gets one entry, of the amounts of the reward, when the reward is granted or lost and
  none otherwise, so a repeated valid check never grants twice.  A revoked donation is never verified.\<close>

theorem verification_effect:
  assumes "fst (ApplyDonationVerification fault now i v d) = Inr t" "find_row don_id i (db_donations d) = Some r"
  shows "let d' = snd (ApplyDonationVerification fault now i v d); failures = don_failure_count r + 1;
             lost = (\<not> ver_valid v \<and> don_reward_active r \<and> (\<not> ver_transient v \<or> failure_tolerance (db_settings d) \<le> failures));
             first = (\<lambda>x. case x of None \<Rightarrow> Some now | Some y \<Rightarrow> Some y) in
         don_status r \<noteq> ''revoked'' \<and> t = don_token_id r
         \<and> (\<forall>j. find_row don_id j (db_donations d') =
               (if j \<noteq> i then find_row don_id j (db_donations d)
                else Some (if ver_valid v then
                             r\<lparr>don_status := ''active'', don_reward_active := True, don_failure_count := 0, don_last_error := [],
                               don_last_checked_at := Some now, don_activated_at := first (don_activated_at r),
                               don_reward_revoked_at := None, don_updated_at := now\<rparr>
                           else if lost then
                             r\<lparr>don_status := ''inactive'', don_reward_active := False, don_failure_count := failures,
                               don_last_error := ver_status v, don_last_checked_at := Some now, don_reward_revoked_at := Some now,
                               don_updated_at := now\<rparr>
                           else r\<lparr>don_failure_count := failures, don_last_error := ver_status v, don_last_checked_at := Some now,
                                  don_updated_at := now\<rparr>)))
         \<and> (\<forall>k. find_row dom_id k (db_domains d') = map_option (\<lambda>m.
                 if k \<noteq> don_domain_id r then m
                 else if ver_valid v then
                   m\<lparr>dom_is_active := True, dom_status := ''active'', dom_verified_at := first (dom_verified_at m), dom_mx_checked_at := Some now\<rparr>
                 else if lost then m\<lparr>dom_is_active := False, dom_status := ''disabled'', dom_mx_checked_at := Some now\<rparr>
                 else m) (find_row dom_id k (db_domains d)))
         \<and> db_events d' = db_events d @
             (if ver_valid v \<and> \<not> don_reward_active r then
                [\<lparr>re_id = next_event_id d, re_token = t, re_donation = Some (don_id r), re_type = ''grant'', re_total = don_reward_total r,
                  re_daily = don_reward_daily r, re_rpm = don_reward_rpm r, re_note = ver_status v, re_at = now\<rparr>]
              else if lost then
                [\<lparr>re_id = next_event_id d, re_token = t, re_donation = Some (don_id r), re_type = ''revoke'', re_total = - don_reward_total r,
                  re_daily = - don_reward_daily r, re_rpm = - don_reward_rpm r, re_note = ver_status v, re_at = now\<rparr>]
              else [])"
proof -
  have ap: "ApplyDonationVerification fault now i v d = (Inr t, snd (ApplyDonationVerification fault now i v d))"
    using assms(1) by (metis prod.collapse)
  have t: "t = don_token_id r" using verification_tx_steps [OF ap] assms(2) by auto
  note core = verification_effect_core [OF ap assms(2)] and ledger = verification_ledger [OF ap assms(2)]
  show ?thesis
    unfolding Let_def ledger core(2,3) using core(1) t
    by (auto simp: verified_row_def verified_domain_def loses_reward_def verification_entry_def mark_valid_def mark_inactive_def
        mark_failed_def activate_domain_def disable_domain_def or_now_def option.map_ident intro!: map_option_cong split: option.splits)
qed

lemma sample_valid: "fst (ApplyDonationVerification False 100 7 valid_check pending_db) = Inr 5"
  by code_simp

theorem verification_effect_witness:
  "don_reward_active (the (find_row don_id 7 (db_donations (snd (ApplyDonationVerification False 100 7 valid_check pending_db)))))"
  using verification_effect [OF sample_valid, of "sample_policy_row ''pending'' False"]
  by (simp add: Let_def pending_db_def find_row_def sample_policy_row_def verified_row_def valid_check_def mark_valid_def)

text \<open>An active donation with no failures survives transient DNS failures as long as there are fewer
  of them than the tolerance, without a change of the ledger, and loses its reward, with one ledger entry,
  exactly at the failure that reaches it.\<close>

theorem grant_survives_transient_failures:
  assumes "verify_times ts i v d = Some d'" "find_row don_id i (db_donations d) = Some r" "don_reward_active r"
    "don_failure_count r = 0" "\<not> ver_valid v" "ver_transient v" "int (length ts) \<le> failure_tolerance (db_settings d)"
  shows "\<exists>r'. find_row don_id i (db_donations d') = Some r'
      \<and> don_failure_count r' = int (length ts)
      \<and> (don_reward_active r' \<longleftrightarrow> int (length ts) < failure_tolerance (db_settings d))
      \<and> int (length (db_events d')) = int (length (db_events d)) + (if don_reward_active r' then 0 else 1)"
proof -
  have "0 < failure_tolerance (db_settings d)" by (simp add: failure_tolerance_def Let_def)
  then show ?thesis using transient_failures [OF assms(1-3,5,6)] assms(4,7) by simp
qed

theorem grant_survives_transient_failures_witness:
  "\<exists>d' r'. verify_times [10, 20, 30] 7 dns_timeout active_db = Some d'
      \<and> find_row don_id 7 (db_donations d') = Some r' \<and> don_failure_count r' = 3 \<and> \<not> don_reward_active r'"
proof -
  have "verify_times [10, 20, 30] 7 dns_timeout active_db \<noteq> None" by code_simp
  then obtain d' where d': "verify_times [10, 20, 30] 7 dns_timeout active_db = Some d'" by blast
  have r: "find_row don_id 7 (db_donations active_db) = Some (sample_policy_row ''active'' True)"
    by (simp add: active_db_def find_row_def sample_policy_row_def)
  have tol: "failure_tolerance (db_settings active_db) = 3"
    by (simp add: active_db_def empty_db_def failure_tolerance_def intSetting_def)
  show ?thesis
    using grant_survives_transient_failures [OF d' r] d' tol by (auto simp: sample_policy_row_def dns_timeout_def)
qed

text \<open>A donation request that succeeds adds exactly one donation, pending and without a reward (it grants
  nothing until a check of its DNS records holds), on a domain marked as donated; after it the token it is on carries at most the
  allowed number of donations that are not revoked.\<close>

theorem create_adds_pending_donation:
  assumes "fst (CreateDonationRequest fault lo sha now fr name sub ex d) = Inr (i, claim, raw)"
  shows "\<exists>r. db_donations (snd (CreateDonationRequest fault lo sha now fr name sub ex d)) = db_donations d @ [r]
     \<and> don_id r = i \<and> don_status r = ''pending'' \<and> \<not> don_reward_active r
     \<and> dr_claim_hash r = hashToken sha claim
     \<and> db_events (snd (CreateDonationRequest fault lo sha now fr name sub ex d)) = db_events d
     \<and> live_donations (don_token_id r) (snd (CreateDonationRequest fault lo sha now fr name sub ex d))
           \<le> pol_max_domains (DonationPolicy (db_settings d))"
proof -
  let ?n = "to_lower lo (trim_cut ''.'' (trim_space name))"
  have "?n \<noteq> []" using assms by (auto simp: CreateDonationRequest_def)
  then have cr: "CreateDonationRequest fault lo sha now fr name sub ex d
      = run_tx fault (create_tx sha now fr (DonationPolicy (db_settings d)) ?n sub ex) d"
    by (simp add: CreateDonationRequest_def)
  then obtain d' where tx: "create_tx sha now fr (DonationPolicy (db_settings d)) ?n sub ex d = Inr ((i, claim, raw), d')"
    and d': "snd (CreateDonationRequest fault lo sha now fr name sub ex d) = d'"
    using assms by (metis prod.collapse run_tx_ok)
  obtain t raw' d1 k d2 d3 where st: "donation_token sha now fr ex d = Inr (t, raw', d1)"
      "live_donations t d1 < pol_max_domains (DonationPolicy (db_settings d))"
      "donation_domain now fr ?n d1 = Inr (k, d2)"
      "insert_donation (new_donation sha now (DonationPolicy (db_settings d)) fr t k sub) d2 = Inr d3"
      "d' = update_domain k mark_donated d3" "(i, claim, raw) = (fr_donation fr, hex_encode (fr_claim_bytes fr), raw')"
    using create_tx_steps [OF tx] by blast
  let ?r = "new_donation sha now (DonationPolicy (db_settings d)) fr t k sub"
  have rows: "db_donations d' = db_donations d1 @ [?r]" "db_events d' = db_events d1"
    using donation_domain_frame [OF st(3)] st(4,5) by (auto simp: insert_donation_def split: if_splits)
  have d1: "db_donations d1 = db_donations d" "db_events d1 = db_events d"
    using donation_token_cases [OF st(1)] by auto
  show ?thesis
    unfolding d' by (rule exI [of _ ?r]) (use rows d1 st(2,6) in \<open>simp add: live_donations_def new_donation_def\<close>)
qed

definition account_db :: db where
  "account_db = empty_db\<lparr>db_accounts := [\<lparr>acc_id = 1, acc_username = ''o'', acc_api_key = [],
     acc_is_admin = True, acc_is_active = True, acc_created_at = 0, acc_updated_at = 0\<rparr>]\<rparr>"

lemma sample_name: "to_lower (\<lambda>c. c) (trim_cut ''.'' (trim_space ''a.b'')) = ''a.b''"
proof -
  have a: "is_ascii ''a.b''" by (simp add: is_ascii_def)
  have t: "trim_space ''a.b'' = ''a.b''" by (simp add: trim_space_ascii [OF a] ascii_space_def)
  have c: "trim_cut ''.'' ''a.b'' = ''a.b''" by (rule trim_cut_id) simp
  show ?thesis unfolding t c by (rule to_lower_id [OF a]) (simp add: is_upper_def)
qed

lemma sample_policy: "DonationPolicy (db_settings account_db) = \<lparr>pol_rpm = 30, pol_daily = 5000, pol_total = 100000, pol_max_domains = 10\<rparr>"
  by (simp add: DonationPolicy_def intSetting_def account_db_def empty_db_def)

lemma sample_create:
  "fst (CreateDonationRequest False (\<lambda>c. c) (\<lambda>s. s) 100 sample_fresh ''a.b'' True [] account_db)
     = Inr (7, hex_encode ''c'', generateAccessToken ''t'')"
proof -
  have r: "length (runes ''a.b'') = 3" by code_simp
  show ?thesis
    unfolding CreateDonationRequest_def sample_name sample_policy
    by (simp add: Let_def run_tx_def create_tx_def donation_token_def donation_domain_def insert_donation_def new_donation_def
        sample_fresh_def account_db_def empty_db_def owner_account_def r int4_def count_rows_def guard_def)
qed

theorem create_adds_pending_donation_witness:
  "length (db_donations (snd (CreateDonationRequest False (\<lambda>c. c) (\<lambda>s. s) 100 sample_fresh ''a.b'' True [] account_db))) = 1"
proof -
  have "db_donations account_db = []" by (simp add: account_db_def empty_db_def)
  then show ?thesis using create_adds_pending_donation [OF sample_create] by auto
qed

text \<open>Saving a new reward policy reaches every donation that is not revoked, active or not, and no
  other: after the transaction those rows carry the policy's rewards and are otherwise as before (their
  status, failures and history included), the revoked ones are untouched.\<close>

theorem policy_reaches_every_grant:
  assumes "fst (ApplyDonationPolicyToExisting fault us now n d) = Inr ts" "donations_ok d"
  shows "db_donations (snd (ApplyDonationPolicyToExisting fault us now n d)) =
     map (\<lambda>r. if don_status r = ''revoked'' then r else mark_policy now (DonationPolicy (db_settings d)) r) (db_donations d)"
proof -
  let ?pol = "DonationPolicy (db_settings d)"
  let ?grants = "filter (\<lambda>r. don_status r \<noteq> ''revoked'') (db_donations d)"
  obtain d' where ap: "ApplyDonationPolicyToExisting fault us now n d = (Inr ts, d')" using assms(1) by (metis prod.collapse)
  then have px: "policy_tx us now n d = Inr (ts, d')" by (simp add: ApplyDonationPolicyToExisting_def run_tx_ok)
  have d': "snd (ApplyDonationPolicyToExisting fault us now n d) = d'" using ap by simp
  obtain tids d0 d1 where "each lock_each tids d = Inr d0" "each (policy_row now n ?pol) ?grants d0 = Inr d1"
      "each (recalculateLocked now) tids d1 = Inr d'"
    using px by (auto simp: policy_tx_def Let_def rbind_Inr_iff)
  then have rows: "db_donations d' = map (\<lambda>q. if don_id q \<in> don_id ` set ?grants then mark_policy now ?pol q else q) (db_donations d)"
    using policy_rows_rows [of now n ?pol ?grants d d1] lock_each_same [of tids d d0] recalculate_each_rows [of now tids d1 d'] by simp
  have inj: "inj_on don_id (set (db_donations d))"
    using assms(2) by (simp add: donations_ok_def tables_ok_def keys_distinct_def distinct_map)
  have "don_id q \<in> don_id ` set ?grants \<longleftrightarrow> don_status q \<noteq> ''revoked''" if "q \<in> set (db_donations d)" for q
    using that inj_onD [OF inj] by (auto simp: image_iff)
  then show ?thesis unfolding d' rows by auto
qed

lemma sample_policy_applied: "\<exists>ts. fst (ApplyDonationPolicyToExisting False (\<lambda>_. []) 50 ''p'' active_db) = Inr ts"
proof -
  have "isl (fst (ApplyDonationPolicyToExisting False (\<lambda>_. []) 50 ''p'' active_db)) = False" by code_simp
  then show ?thesis by (metis sum.collapse(2))
qed

theorem policy_reaches_every_grant_witness:
  "map don_status (db_donations (snd (ApplyDonationPolicyToExisting False (\<lambda>_. []) 50 ''p'' active_db))) = [''active'']"
proof -
  obtain ts where "fst (ApplyDonationPolicyToExisting False (\<lambda>_. []) 50 ''p'' active_db) = Inr ts"
    using sample_policy_applied by blast
  from policy_reaches_every_grant [OF this active_db_ok] show ?thesis
    by (simp add: active_db_def sample_policy_row_def mark_policy_def)
qed

text \<open>The list of due donations holds at most 100 rows, every one of them due (in particular none that
  is revoked), the donations never checked first and the others by the time of their last check; and
  no due donation is left out while one checked later is listed.\<close>

theorem due_donations_ordered:
  "length (ListDueDonations now d) \<le> 100
   \<and> sorted_wrt checked_before (ListDueDonations now d)
   \<and> (\<exists>rest. set (ListDueDonations now d) \<union> set rest
          = {r \<in> set (db_donations d). is_due now (max 1 (intSetting (db_settings d) ''donation_recheck_minutes'' 30)) r}
        \<and> sorted_wrt checked_before (ListDueDonations now d @ rest))"
proof -
  define m where "m = max 1 (intSetting (db_settings d) ''donation_recheck_minutes'' 30)"
  define xs where "xs = sort_key due_order (filter (is_due now m) (db_donations d))"
  have l: "ListDueDonations now d = take 100 xs"
    unfolding xs_def m_def ListDueDonations_def Let_def max_def by (simp add: not_less split: if_splits)
  have s: "sorted_wrt checked_before xs"
    using sorted_sort_key [of due_order "filter (is_due now m) (db_donations d)"] by (simp add: xs_def sorted_map due_order_le)
  have u: "set (take 100 xs) \<union> set (drop 100 xs) = {r \<in> set (db_donations d). is_due now m r}"
    unfolding set_append [symmetric] by (auto simp: xs_def)
  have "set (ListDueDonations now d) \<union> set (drop 100 xs)
          = {r \<in> set (db_donations d). is_due now m r} \<and> sorted_wrt checked_before (ListDueDonations now d @ drop 100 xs)"
    unfolding l using u s by simp
  then show ?thesis unfolding m_def [symmetric] using sorted_due [of now d] by (auto simp: l)
qed

text \<open>A restore of a donation that still has its reward, which the handler reaches when a verification wins
  the race, takes the reward back without a ledger entry.\<close>

lemma restore_of_active_unbalances:
  "\<not> ledger_ok (snd (SetDonationRevoked False 50 7 False [] active_db))"
proof -
  let ?d = "snd (SetDonationRevoked False 50 7 False [] active_db)"
  have "list_all (\<lambda>r. ledger_sum re_total (don_id r) ?d \<noteq> granted don_reward_total r) (db_donations ?d) \<and> db_donations ?d \<noteq> []"
    by code_simp
  then show ?thesis by (cases "db_donations ?d") (auto simp: ledger_ok_def ledger_row_def)
qed

end
