(* ===== verification/Donation_DNS.thy ===== *)
theory Donation_DNS
  imports Donation_Promises
begin

text \<open>
  The DNS check of a donated domain (\<open>src/api/store/donation_dns.go\<close>).  What the resolver answers is an
  argument: for each name the records, or an error that is temporary or not.  The properties say when
  a check is valid and which failures it calls transient, and connect them with the donation's state.
\<close>

type_synonym 'a answer = "(bool, 'a) result"

record resolver =
  dns_txt :: "string \<Rightarrow> string list answer"
  dns_mx :: "string \<Rightarrow> string list answer"
  dns_host :: "string \<Rightarrow> string list answer"

definition donationTXTNames :: "string \<Rightarrow> string list" where
  "donationTXTNames domain = [''_far-mail-donate'' @ ''.'' @ domain]"

definition donationExpectedTXTValues :: "string \<Rightarrow> string \<Rightarrow> bool" where
  "donationExpectedTXTValues expected v = (v = trim_space expected)"

fun donation_firstNonEmpty :: "string list \<Rightarrow> string" where
  "donation_firstNonEmpty [] = ''the site mail server''"
| "donation_firstNonEmpty (v # vs) = (if trim_space v \<noteq> [] then trim_space v else donation_firstNonEmpty vs)"

record txt_state =
  txt_ok :: bool
  txt_resolved :: bool
  txt_transient :: bool

fun check_txt :: "resolver \<Rightarrow> (string \<Rightarrow> bool) \<Rightarrow> string list \<Rightarrow> txt_state \<Rightarrow> txt_state" where
  "check_txt dns wanted [] s = s"
| "check_txt dns wanted (name # names) s =
     (case dns_txt dns name of
        Inl temporary \<Rightarrow> check_txt dns wanted names (s\<lparr>txt_transient := txt_transient s \<or> temporary\<rparr>)
      | Inr values \<Rightarrow>
          if list_ex (\<lambda>v. wanted (trim_space v)) values then s\<lparr>txt_resolved := True, txt_ok := True\<rparr>
          else check_txt dns wanted names (s\<lparr>txt_resolved := True\<rparr>))"

definition dns_outcome :: "bool \<Rightarrow> bool \<Rightarrow> string \<Rightarrow> verification" where
  "dns_outcome valid transient st = \<lparr>ver_valid = valid, ver_transient = transient, ver_status = st\<rparr>"

text \<open>The loop over the MX records: \<open>None\<close> when none matches, with whether a target's lookup failed
  temporarily.\<close>

fun check_mx :: "(nat \<Rightarrow> nat) \<Rightarrow> resolver \<Rightarrow> string \<Rightarrow> string \<Rightarrow> string list \<Rightarrow> bool \<Rightarrow> bool \<times> bool" where
  "check_mx lo dns ip hostname [] failed = (False, failed)"
| "check_mx lo dns ip hostname (mx # mxs) failed =
     (let host = trim_suffix (to_lower lo mx) ''.'' in
      if hostname \<noteq> [] \<and> host = hostname then (True, failed)
      else if ip = [] then check_mx lo dns ip hostname mxs failed
      else case dns_host dns host of
        Inl temporary \<Rightarrow> check_mx lo dns ip hostname mxs (failed \<or> temporary)
      | Inr addrs \<Rightarrow> if ip \<in> set addrs then (True, failed) else check_mx lo dns ip hostname mxs failed)"

definition normal_host :: "(nat \<Rightarrow> nat) \<Rightarrow> string \<Rightarrow> string" where
  "normal_host lo s = trim_suffix (to_lower lo (trim_space s)) ''.''"

definition CheckDonationRecords ::
    "(nat \<Rightarrow> nat) \<Rightarrow> resolver \<Rightarrow> string \<Rightarrow> string \<Rightarrow> string \<Rightarrow> string \<Rightarrow> verification" where
  "CheckDonationRecords lo dns domain0 ip0 hostname0 expected =
     (let domain = normal_host lo domain0; ip = trim_space ip0; hostname = normal_host lo hostname0;
          t = check_txt dns (donationExpectedTXTValues expected) (donationTXTNames domain)
                \<lparr>txt_ok = False, txt_resolved = False, txt_transient = False\<rparr> in
      if \<not> txt_ok t then
        (if \<not> txt_resolved t then dns_outcome False (txt_transient t) ''TXT verification record is not ready''
         else dns_outcome False False ''TXT verification record does not match'')
      else case dns_mx dns domain of
        Inl temporary \<Rightarrow> dns_outcome False temporary ''MX lookup is temporarily unavailable''
      | Inr mxs \<Rightarrow>
          if mxs = [] then dns_outcome False False ''No MX record found''
          else if ip = [] \<and> hostname = [] then dns_outcome False True ''The site mail server is not configured''
          else (case check_mx lo dns ip hostname mxs False of
                  (True, _) \<Rightarrow> dns_outcome True False ''MX and TXT verification passed''
                | (False, True) \<Rightarrow> dns_outcome False True ''MX target resolution is temporarily unavailable''
                | (False, False) \<Rightarrow>
                    dns_outcome False False (''MX does not point to '' @ donation_firstNonEmpty [hostname, ip])))"

lemma dns_outcome_simps [simp]:
  "ver_valid (dns_outcome a b c) = a" "ver_transient (dns_outcome a b c) = b" "ver_status (dns_outcome a b c) = c"
  by (simp_all add: dns_outcome_def)

section \<open>The loops\<close>

definition points_to :: "(nat \<Rightarrow> nat) \<Rightarrow> resolver \<Rightarrow> string \<Rightarrow> string \<Rightarrow> string \<Rightarrow> bool" where
  "points_to lo dns ip hostname mx =
     (let host = trim_suffix (to_lower lo mx) ''.'' in
      (hostname \<noteq> [] \<and> host = hostname)
      \<or> (ip \<noteq> [] \<and> (case dns_host dns host of Inl _ \<Rightarrow> False | Inr addrs \<Rightarrow> ip \<in> set addrs)))"

definition target_down :: "(nat \<Rightarrow> nat) \<Rightarrow> resolver \<Rightarrow> string \<Rightarrow> string \<Rightarrow> bool" where
  "target_down lo dns ip mx = (ip \<noteq> [] \<and> dns_host dns (trim_suffix (to_lower lo mx) ''.'') = Inl True)"

lemma check_mx_found: "fst (check_mx lo dns ip hostname mxs failed) = list_ex (points_to lo dns ip hostname) mxs"
  by (induction mxs arbitrary: failed) (auto simp: points_to_def Let_def split: sum.splits)

lemma check_mx_failed:
  "\<not> list_ex (points_to lo dns ip hostname) mxs \<Longrightarrow>
   snd (check_mx lo dns ip hostname mxs failed) = (failed \<or> list_ex (target_down lo dns ip) mxs)"
  by (induction mxs arbitrary: failed) (auto simp: points_to_def target_down_def Let_def split: sum.splits)

definition txt_proof :: "(nat \<Rightarrow> nat) \<Rightarrow> resolver \<Rightarrow> string \<Rightarrow> string \<Rightarrow> bool" where
  "txt_proof lo dns domain expected =
     (case dns_txt dns (''_far-mail-donate.'' @ normal_host lo domain) of
        Inl _ \<Rightarrow> False
      | Inr values \<Rightarrow> list_ex (\<lambda>v. trim_space v = trim_space expected) values)"

lemma check_txt_one:
  "check_txt dns wanted [name] \<lparr>txt_ok = False, txt_resolved = False, txt_transient = False\<rparr> =
     (case dns_txt dns name of
        Inl temporary \<Rightarrow> \<lparr>txt_ok = False, txt_resolved = False, txt_transient = temporary\<rparr>
      | Inr values \<Rightarrow> \<lparr>txt_ok = list_ex (\<lambda>v. wanted (trim_space v)) values, txt_resolved = True, txt_transient = False\<rparr>)"
  by (simp split: sum.splits)

lemma txt_names: "donationTXTNames d = [''_far-mail-donate.'' @ d]"
  by (simp add: donationTXTNames_def)

lemma check_mx_cases:
  "(case check_mx lo dns ip hostname mxs False of (True, _) \<Rightarrow> a | (False, True) \<Rightarrow> b | (False, False) \<Rightarrow> c) =
   (if list_ex (points_to lo dns ip hostname) mxs then a else if list_ex (target_down lo dns ip) mxs then b else c)"
proof (cases "check_mx lo dns ip hostname mxs False")
  case (Pair found failed)
  then have "found = list_ex (points_to lo dns ip hostname) mxs"
      "\<not> found \<Longrightarrow> failed = list_ex (target_down lo dns ip) mxs"
    using check_mx_found [of lo dns ip hostname mxs False] check_mx_failed [of lo dns ip hostname mxs False] by simp_all
  then show ?thesis using Pair by (cases found; cases failed) simp_all
qed

lemma check_cases:
  "CheckDonationRecords lo dns domain ip hostname expected =
     (case dns_txt dns (''_far-mail-donate.'' @ normal_host lo domain) of
        Inl temporary \<Rightarrow> dns_outcome False temporary ''TXT verification record is not ready''
      | Inr _ \<Rightarrow>
          if \<not> txt_proof lo dns domain expected then dns_outcome False False ''TXT verification record does not match''
          else case dns_mx dns (normal_host lo domain) of
            Inl temporary \<Rightarrow> dns_outcome False temporary ''MX lookup is temporarily unavailable''
          | Inr mxs \<Rightarrow>
              if mxs = [] then dns_outcome False False ''No MX record found''
              else if trim_space ip = [] \<and> normal_host lo hostname = [] then dns_outcome False True ''The site mail server is not configured''
              else if list_ex (points_to lo dns (trim_space ip) (normal_host lo hostname)) mxs
              then dns_outcome True False ''MX and TXT verification passed''
              else if list_ex (target_down lo dns (trim_space ip)) mxs
              then dns_outcome False True ''MX target resolution is temporarily unavailable''
              else dns_outcome False False (''MX does not point to '' @ donation_firstNonEmpty [normal_host lo hostname, trim_space ip]))"
proof (cases "dns_txt dns (''_far-mail-donate.'' @ normal_host lo domain)")
  case (Inr vals)
  have p: "txt_proof lo dns domain expected = list_ex (\<lambda>v. donationExpectedTXTValues expected (trim_space v)) vals"
    using Inr by (simp add: txt_proof_def donationExpectedTXTValues_def)
  show ?thesis
    unfolding CheckDonationRecords_def Let_def txt_names check_txt_one Inr sum.case txt_state.simps p check_mx_cases
    by simp
qed (simp add: CheckDonationRecords_def Let_def txt_names check_txt_one)

lemma valid_iff:
  "ver_valid (CheckDonationRecords lo dns domain ip hostname expected) \<longleftrightarrow>
     txt_proof lo dns domain expected
     \<and> (case dns_mx dns (normal_host lo domain) of
          Inl _ \<Rightarrow> False
        | Inr mxs \<Rightarrow> list_ex (points_to lo dns (trim_space ip) (normal_host lo hostname)) mxs)"
proof -
  have n: "\<not> list_ex (points_to lo dns [] []) mxs" for mxs by (simp add: points_to_def Let_def list_ex_iff)
  show ?thesis unfolding check_cases using n by (auto simp: txt_proof_def split: sum.splits)
qed

section \<open>The properties\<close>

text \<open>C14. A check of a donated domain is valid exactly when the claim's TXT record is published under the
  donation label of the normalised domain and one of the domain's MX targets is the site's mail host, or
  resolves to its address; one without the other never is, nor is any domain when the site has neither.\<close>

theorem valid_iff_proof_and_target:
  "ver_valid (CheckDonationRecords lo dns domain ip hostname expected) \<longleftrightarrow>
     txt_proof lo dns domain expected
     \<and> (case dns_mx dns (normal_host lo domain) of
          Inl _ \<Rightarrow> False
        | Inr mxs \<Rightarrow> list_ex (points_to lo dns (trim_space ip) (normal_host lo hostname)) mxs)"
  by (rule valid_iff)

text \<open>\<open>interrupted dns dns'\<close>: every answer of \<open>dns'\<close> is the one of \<open>dns\<close> or a temporary error.\<close>

definition interrupted :: "resolver \<Rightarrow> resolver \<Rightarrow> bool" where
  "interrupted dns dns' =
     (\<forall>n. dns_txt dns' n \<in> {dns_txt dns n, Inl True} \<and> dns_mx dns' n \<in> {dns_mx dns n, Inl True}
          \<and> dns_host dns' n \<in> {dns_host dns n, Inl True})"

lemma interrupted_points:
  assumes i: "interrupted dns dns'" and p: "points_to lo dns ip hostname mx" and n: "\<not> points_to lo dns' ip hostname mx"
  shows "target_down lo dns' ip mx"
proof -
  let ?h = "trim_suffix (to_lower lo mx) ''.''"
  have "dns_host dns' ?h \<noteq> dns_host dns ?h" using p n by (auto simp: points_to_def Let_def)
  then have "dns_host dns' ?h = Inl True" using i unfolding interrupted_def by blast
  moreover have "ip \<noteq> []" using p n by (auto simp: points_to_def Let_def)
  ultimately show ?thesis by (simp add: target_down_def)
qed

lemma interrupted_check:
  assumes i: "interrupted dns dns'" and v: "ver_valid (CheckDonationRecords lo dns domain ip hostname expected)"
  shows "ver_valid (CheckDonationRecords lo dns' domain ip hostname expected)
         \<or> ver_transient (CheckDonationRecords lo dns' domain ip hostname expected)"
proof -
  let ?n = "normal_host lo domain"
  let ?l = "''_far-mail-donate.'' @ ?n"
  obtain vals where t: "dns_txt dns ?l = Inr vals" "list_ex (\<lambda>v. trim_space v = trim_space expected) vals"
    using v by (auto simp: valid_iff txt_proof_def split: sum.splits)
  obtain mxs where m: "dns_mx dns ?n = Inr mxs" "list_ex (points_to lo dns (trim_space ip) (normal_host lo hostname)) mxs"
    using v by (auto simp: valid_iff split: sum.splits)
  have "dns_txt dns' ?l \<in> {Inr vals, Inl True}" "dns_mx dns' ?n \<in> {Inr mxs, Inl True}"
    using i t(1) m(1) unfolding interrupted_def by metis+
  moreover have "list_ex (points_to lo dns' (trim_space ip) (normal_host lo hostname)) mxs
        \<or> list_ex (target_down lo dns' (trim_space ip)) mxs"
    using m(2) interrupted_points [OF i] by (fastforce simp: list_ex_iff)
  moreover have "mxs \<noteq> []" using m(2) by auto
  ultimately show ?thesis using t(2) by (auto simp: check_cases txt_proof_def split: if_splits)
qed

text \<open>An outage of the resolver cannot cost a donor the reward early: when the records are right, and
  any of the lookups instead fails with a temporary error, applying the check to an active donation keeps
  its reward as long as its failures stay below the tolerance.\<close>

theorem resolver_outage_keeps_reward:
  assumes "interrupted dns dns'" "ver_valid (CheckDonationRecords lo dns domain ip hostname expected)"
    "find_row don_id i (db_donations d) = Some r" "don_reward_active r"
    "don_failure_count r + 1 < failure_tolerance (db_settings d)"
    "fst (ApplyDonationVerification fault now i (CheckDonationRecords lo dns' domain ip hostname expected) d) = Inr t"
  shows "\<exists>r'. find_row don_id i (db_donations (snd
            (ApplyDonationVerification fault now i (CheckDonationRecords lo dns' domain ip hostname expected) d))) = Some r'
          \<and> don_reward_active r'"
proof -
  let ?v = "CheckDonationRecords lo dns' domain ip hostname expected"
  have ap: "ApplyDonationVerification fault now i ?v d = (Inr t, snd (ApplyDonationVerification fault now i ?v d))"
    using assms(6) by (metis prod.collapse)
  have "\<not> loses_reward (failure_tolerance (db_settings d)) ?v r"
    using interrupted_check [OF assms(1,2)] assms(5) by (auto simp: loses_reward_def)
  then have "don_reward_active (verified_row now (failure_tolerance (db_settings d)) ?v r)"
    using assms(4) by (simp add: verified_row_def marks)
  then show ?thesis using verification_effect_core(2) [OF ap assms(3), of i] by simp
qed

definition good_dns :: resolver where
  "good_dns = \<lparr>dns_txt = (\<lambda>_. Inr [''x'']), dns_mx = (\<lambda>_. Inr [''h'']), dns_host = (\<lambda>_. Inr [''9''])\<rparr>"

definition broken_dns :: resolver where
  "broken_dns = \<lparr>dns_txt = (\<lambda>_. Inr [''x'']), dns_mx = (\<lambda>_. Inl True), dns_host = (\<lambda>_. Inl True)\<rparr>"

theorem resolver_outage_keeps_reward_witness:
  "\<exists>r. find_row don_id 7 (db_donations (snd (ApplyDonationVerification False 50 7
        (CheckDonationRecords (\<lambda>c. c) broken_dns ''d'' ''9'' [] ''x'') active_db))) = Some r \<and> don_reward_active r"
proof (rule resolver_outage_keeps_reward)
  show "interrupted good_dns broken_dns" by (simp add: interrupted_def good_dns_def broken_dns_def)
  have n: "trim_space ''9'' = ''9''" by (simp add: trim_space_ascii is_ascii_def ascii_space_def)
  show "ver_valid (CheckDonationRecords (\<lambda>c. c) good_dns ''d'' ''9'' [] ''x'')"
    by (simp add: valid_iff good_dns_def txt_proof_def points_to_def n Let_def)
  show "find_row don_id 7 (db_donations active_db) = Some (sample_policy_row ''active'' True)"
    by (simp add: active_db_def find_row_def sample_policy_row_def)
  show "don_reward_active (sample_policy_row ''active'' True)" by (simp add: sample_policy_row_def)
  show "don_failure_count (sample_policy_row ''active'' True) + 1 < failure_tolerance (db_settings active_db)"
    by (simp add: active_db_def empty_db_def failure_tolerance_def intSetting_def sample_policy_row_def)
  have v: "CheckDonationRecords (\<lambda>c. c) broken_dns ''d'' ''9'' [] ''x'' = dns_outcome False True ''MX lookup is temporarily unavailable''"
    by (simp add: check_cases broken_dns_def txt_proof_def)
  show "fst (ApplyDonationVerification False 50 7 (CheckDonationRecords (\<lambda>c. c) broken_dns ''d'' ''9'' [] ''x'') active_db) = Inr 5"
    unfolding v by code_simp
qed

end
