(* ===== verification/Tokens.thy ===== *)
theory Tokens
  imports Database Credentials "HOL-Library.List_Lexorder"
begin

text \<open>
  API tokens in the store (\<open>src/api/store/tokens.go\<close>): who a secret belongs to, the console key, the
  counting of requests against a token's limits, and the owner's management of the standard tokens.
  Each operation is one statement of the database, or a read followed by one; \<open>fault\<close> stands for a
  statement that fails for a reason outside the model (the connection, the encoding of a text).
\<close>

section \<open>Authentication\<close>

definition loadAccountByTokenHash :: "string \<Rightarrow> db \<Rightarrow> (db_error, account \<times> account_token) result" where
  "loadAccountByTokenHash h d =
     (case List.find (\<lambda>t. tr_hash t = h) (db_tokens d) of
        None \<Rightarrow> Inl NoRows
      | Some t \<Rightarrow>
          (case owner_account d of
             None \<Rightarrow> Inl NoRows
           | Some a \<Rightarrow> if tok_account_id t = acc_id a then Inr (a, account_token.truncate t) else Inl NoRows))"

definition admin_token :: "string \<Rightarrow> account \<Rightarrow> account_token" where
  "admin_token raw a =
     \<lparr>tok_id = uuid_nil, tok_account_id = acc_id a, tok_name = ''Admin console key'', tok_prefix = tokenPrefix raw,
      tok_scope = ''owner'', tok_is_primary = True, tok_kind = ''admin'', tok_rate_limit_per_minute = 0,
      tok_daily_request_limit = 0, tok_total_request_limit = 0, tok_request_count_total = 0,
      tok_last_used_at = None, tok_expires_at = None, tok_revoked_at = None,
      tok_created_at = acc_created_at a, tok_updated_at = acc_updated_at a\<rparr>"

definition GetAccountByAdminAuthKey :: "bool \<Rightarrow> string \<Rightarrow> db \<Rightarrow> (db_error, account \<times> account_token) result" where
  "GetAccountByAdminAuthKey fault raw d =
     (if \<not> isAdminAuthKeyFormat raw then Inl NoRows
      else if fault then Inl Fault
      else case owner_account d of
        None \<Rightarrow> Inl NoRows
      | Some a \<Rightarrow> if acc_api_key a = trim_space raw then Inr (a, admin_token raw a) else Inl NoRows)"

definition set_api_key :: "time \<Rightarrow> string \<Rightarrow> account \<Rightarrow> account" where
  "set_api_key now key a = a\<lparr>acc_api_key := key, acc_updated_at := now\<rparr>"

text \<open>\<open>UPDATE accounts SET api_key ... WHERE id = $2 AND is_admin AND is_active\<close>: the affected row must
  exist, and another account must not have the key (\<open>api_key\<close> is unique).\<close>

definition store_api_key :: "time \<Rightarrow> uuid \<Rightarrow> string \<Rightarrow> db \<Rightarrow> (db_error, db) result" where
  "store_api_key now acc key d =
     (case find_row acc_id acc (db_accounts d) of
        None \<Rightarrow> Inl NoRows
      | Some a \<Rightarrow>
          if \<not> (acc_is_admin a \<and> acc_is_active a) then Inl NoRows
          else if list_ex (\<lambda>b. acc_id b \<noteq> acc \<and> acc_api_key b = key) (db_accounts d) then Inl Conflict
          else Inr (d\<lparr>db_accounts := update_row acc_id acc (set_api_key now key) (db_accounts d)\<rparr>))"

definition RotateAdminAuthKey ::
    "bool \<Rightarrow> (nat \<Rightarrow> nat) \<Rightarrow> time \<Rightarrow> string \<Rightarrow> uuid \<Rightarrow> db \<Rightarrow> (db_error, string) result \<times> db" where
  "RotateAdminAuthKey fault lo now random acc d =
     (let pre = settingOr (db_settings d) ''admin_key_prefix'' ''mail'';
          hex_length0 = intSetting (db_settings d) ''admin_key_hex_length'' 32;
          hex_length = (if hex_length0 \<noteq> 16 then 32 else hex_length0);
          key = generateAdminAuthKey lo pre (take (admin_key_bytes hex_length) random) in
      run_tx fault (\<lambda>d. rbind (store_api_key now acc key d) (\<lambda>d'. Inr (key, d'))) d)"

definition SetAdminAuthKey ::
    "bool \<Rightarrow> (string \<Rightarrow> string) \<Rightarrow> time \<Rightarrow> uuid \<Rightarrow> string \<Rightarrow> db \<Rightarrow> (db_error, unit) result \<times> db" where
  "SetAdminAuthKey fault sha now acc key d =
     (if \<not> isAdminAuthKeyFormat key then (Inl (Rejected ''admin auth key must match sk-<custom>-<16 or 32 hex>''), d)
      else if fault then (Inl Fault, d)
      else if list_ex (\<lambda>t. tr_hash t = hashToken sha key) (db_tokens d)
      then (Inl (Rejected ''admin auth key must not reuse an API token''), d)
      else run_tx False (\<lambda>d. rbind (store_api_key now acc (trim_space key) d) (\<lambda>d'. Inr ((), d'))) d)"

section \<open>Counting requests\<close>

text \<open>The day of the statistics is the date in Asia/Shanghai (UTC+8).\<close>

definition usage_day :: "time \<Rightarrow> int" where
  "usage_day now = (now + 8 * 3600 * second) div (86400 * second)"

definition add_usage :: "int \<Rightarrow> uuid \<Rightarrow> uuid \<Rightarrow> usage_row list \<Rightarrow> usage_row list" where
  "add_usage day tok acc us =
     (if list_ex (\<lambda>u. us_day u = day \<and> us_token u = tok) us
      then map (\<lambda>u. if us_day u = day \<and> us_token u = tok then u\<lparr>us_count := us_count u + 1\<rparr> else u) us
      else us @ [\<lparr>us_day = day, us_token = tok, us_account = acc, us_count = 1\<rparr>])"

definition count_request :: "time \<Rightarrow> token_row \<Rightarrow> token_row" where
  "count_request now r =
     r\<lparr>tok_request_count_total := tok_request_count_total r + 1, tok_last_used_at := Some now, tok_updated_at := now\<rparr>"

definition live_token :: "time \<Rightarrow> token_row \<Rightarrow> bool" where
  "live_token now r =
     (tok_revoked_at r = None \<and> (case tok_expires_at r of None \<Rightarrow> True | Some e \<Rightarrow> e > now))"

definition within_total :: "token_row \<Rightarrow> bool" where
  "within_total r =
     (tok_total_request_limit r \<le> 0 \<or> tok_request_count_total r < tok_total_request_limit r)"

text \<open>The two counters of one counted request.\<close>

definition record_request :: "time \<Rightarrow> token_row \<Rightarrow> db \<Rightarrow> db" where
  "record_request now r d =
     d\<lparr>db_tokens := update_row tok_id (tok_id r) (count_request now) (db_tokens d),
       db_usage := add_usage (usage_day now) (tok_id r) (tok_account_id r) (db_usage d)\<rparr>"

definition IncrementTokenUsageIfAllowed :: "bool \<Rightarrow> time \<Rightarrow> uuid \<Rightarrow> db \<Rightarrow> (db_error, int \<times> int) result \<times> db" where
  "IncrementTokenUsageIfAllowed fault now i d =
     run_tx fault (\<lambda>d. case find_row tok_id i (db_tokens d) of
         None \<Rightarrow> Inl TokenLimit
       | Some r \<Rightarrow>
           if \<not> (live_token now r \<and> within_total r) then Inl TokenLimit
           else if \<not> int8 (tok_request_count_total r + 1) then Inl OutOfRange
           else Inr ((tok_request_count_total r + 1, tok_total_request_limit r), record_request now r d)) d"

definition RecordTokenUsage :: "bool \<Rightarrow> time \<Rightarrow> uuid \<Rightarrow> db \<Rightarrow> (db_error, unit) result \<times> db" where
  "RecordTokenUsage fault now i d =
     run_tx fault (\<lambda>d. case find_row tok_id i (db_tokens d) of
         None \<Rightarrow> Inr ((), d)
       | Some r \<Rightarrow>
           if tok_revoked_at r \<noteq> None then Inr ((), d)
           else if \<not> int8 (tok_request_count_total r + 1) then Inl OutOfRange
           else Inr ((), record_request now r d)) d"

section \<open>Management\<close>

definition is_standard :: "token_row \<Rightarrow> bool" where
  "is_standard r = (tok_kind r = ''standard'')"

definition listing_order :: "token_row \<Rightarrow> int list" where
  "listing_order r = [if tok_revoked_at r = None then 0 else 1, - tok_created_at r]"

definition ListTokensByAccount :: "uuid \<Rightarrow> db \<Rightarrow> token_row list" where
  "ListTokensByAccount acc d =
     sort_key listing_order (filter (\<lambda>r. tok_account_id r = acc \<and> is_standard r) (db_tokens d))"

text \<open>The row of an owner's standard token.\<close>

definition GetTokenByID :: "uuid \<Rightarrow> uuid \<Rightarrow> db \<Rightarrow> (db_error, token_row) result" where
  "GetTokenByID i acc d =
     (case find_row tok_id i (db_tokens d) of
        None \<Rightarrow> Inl NoRows
      | Some r \<Rightarrow> if tok_account_id r = acc \<and> is_standard r then Inr r else Inl NoRows)"

definition normal_limits :: "int \<Rightarrow> int" where
  "normal_limits x = (if x < 0 then 0 else x)"

record token_request =
  tq_name :: string
  tq_scope :: string
  tq_rpm :: int
  tq_daily :: int
  tq_total :: int
  tq_expires :: "time option"

text \<open>The settings that fill the unset fields of a request (\<open>0\<close> is unset).\<close>

definition with_defaults :: "(nat \<Rightarrow> nat) \<Rightarrow> (string \<rightharpoonup> string) \<Rightarrow> time \<Rightarrow> bool \<Rightarrow> token_request \<Rightarrow> token_request" where
  "with_defaults lo settings now use_expiry q =
     (let scope = (if trim_space (tq_scope q) = []
                   then trim_space (to_lower lo (settingOr settings ''token_default_scope'' ''read''))
                   else tq_scope q);
          rpm = (if tq_rpm q = 0 then intSetting settings ''token_default_rate_limit_per_minute'' 0 else tq_rpm q);
          daily = (if tq_daily q = 0 then intSetting settings ''token_default_daily_request_limit'' 0 else tq_daily q);
          tot = (if tq_total q = 0 then intSetting settings ''token_default_total_request_limit'' 0 else tq_total q);
          days = intSetting settings ''token_default_expires_days'' 30;
          expires = (if tq_expires q = None \<and> use_expiry \<and> days > 0
                     then Some (now + wrap64 (days * 24 * 3600 * second)) else tq_expires q) in
      \<lparr>tq_name = (if trim_space (tq_name q) = [] then ''Untitled token'' else trim_space (tq_name q)),
       tq_scope = normalizeScope lo scope, tq_rpm = normal_limits rpm, tq_daily = normal_limits daily,
       tq_total = normal_limits tot, tq_expires = expires\<rparr>)"

definition request_fits :: "token_request \<Rightarrow> bool" where
  "request_fits q = (length (runes (tq_name q)) \<le> 128 \<and> int4 (tq_rpm q) \<and> int4 (tq_daily q) \<and> int8 (tq_total q))"

definition standard_token :: "(string \<Rightarrow> string) \<Rightarrow> time \<Rightarrow> uuid \<Rightarrow> uuid \<Rightarrow> string \<Rightarrow> token_request \<Rightarrow> token_row" where
  "standard_token sha now i acc raw q =
     \<lparr>tok_id = i, tok_account_id = acc, tok_name = tq_name q, tok_prefix = tokenPrefix raw, tok_scope = tq_scope q,
      tok_is_primary = False, tok_kind = ''standard'', tok_rate_limit_per_minute = tq_rpm q,
      tok_daily_request_limit = tq_daily q, tok_total_request_limit = tq_total q, tok_request_count_total = 0,
      tok_last_used_at = None, tok_expires_at = tq_expires q, tok_revoked_at = None, tok_created_at = now,
      tok_updated_at = now, tr_hash = hashToken sha raw\<rparr>"

definition hash_taken :: "string \<Rightarrow> db \<Rightarrow> bool" where
  "hash_taken h d = list_ex (\<lambda>t. tr_hash t = h) (db_tokens d)"

definition CreateToken ::
    "bool \<Rightarrow> (nat \<Rightarrow> nat) \<Rightarrow> (string \<Rightarrow> string) \<Rightarrow> time \<Rightarrow> uuid \<Rightarrow> string \<Rightarrow> uuid \<Rightarrow> token_request \<Rightarrow> bool \<Rightarrow> db
     \<Rightarrow> (db_error, token_row \<times> string) result \<times> db" where
  "CreateToken fault lo sha now i random acc q0 use_expiry d =
     (let q = with_defaults lo (db_settings d) now use_expiry q0; raw = generateAccessToken random;
          t = standard_token sha now i acc raw q in
      run_tx fault (\<lambda>d.
        if acc \<notin> acc_id ` set (db_accounts d) then Inl Conflict
        else if \<not> request_fits q then Inl OutOfRange
        else if hash_taken (hashToken sha raw) d then Inl Conflict
        else Inr ((t, raw), d\<lparr>db_tokens := db_tokens d @ [t]\<rparr>)) d)"

definition edit_token :: "time \<Rightarrow> token_request \<Rightarrow> token_row \<Rightarrow> token_row" where
  "edit_token now q r =
     r\<lparr>tok_name := tq_name q, tok_scope := tq_scope q, tok_rate_limit_per_minute := tq_rpm q,
       tok_daily_request_limit := tq_daily q, tok_total_request_limit := tq_total q,
       tok_expires_at := tq_expires q, tok_updated_at := now\<rparr>"

definition UpdateToken ::
    "bool \<Rightarrow> (nat \<Rightarrow> nat) \<Rightarrow> time \<Rightarrow> uuid \<Rightarrow> uuid \<Rightarrow> token_request \<Rightarrow> db \<Rightarrow> (db_error, unit) result \<times> db" where
  "UpdateToken fault lo now i acc q0 d =
     run_tx fault (\<lambda>d. rbind (GetTokenByID i acc d) (\<lambda>r.
       let q = \<lparr>tq_name = (if trim_space (tq_name q0) = [] then tok_name r else trim_space (tq_name q0)),
                tq_scope = normalizeScope lo (tq_scope q0), tq_rpm = normal_limits (tq_rpm q0),
                tq_daily = normal_limits (tq_daily q0), tq_total = normal_limits (tq_total q0),
                tq_expires = tq_expires q0\<rparr> in
       if \<not> request_fits q then Inl OutOfRange
       else Inr ((), d\<lparr>db_tokens := update_row tok_id i (edit_token now q) (db_tokens d)\<rparr>))) d"

definition replace_secret :: "(string \<Rightarrow> string) \<Rightarrow> time \<Rightarrow> string \<Rightarrow> token_row \<Rightarrow> token_row" where
  "replace_secret sha now raw r =
     r\<lparr>tr_hash := hashToken sha raw, tok_prefix := tokenPrefix raw, tok_updated_at := now, tok_revoked_at := None\<rparr>"

definition RotateToken ::
    "bool \<Rightarrow> (string \<Rightarrow> string) \<Rightarrow> time \<Rightarrow> string \<Rightarrow> uuid \<Rightarrow> uuid \<Rightarrow> db \<Rightarrow> (db_error, string) result \<times> db" where
  "RotateToken fault sha now random i acc d =
     (let raw = generateAccessToken random in
      run_tx fault (\<lambda>d. rbind (GetTokenByID i acc d) (\<lambda>_.
        if list_ex (\<lambda>t. tok_id t \<noteq> i \<and> tr_hash t = hashToken sha raw) (db_tokens d) then Inl Conflict
        else Inr (raw, d\<lparr>db_tokens := update_row tok_id i (replace_secret sha now raw) (db_tokens d)\<rparr>))) d)"

definition set_revoked :: "time \<Rightarrow> time option \<Rightarrow> token_row \<Rightarrow> token_row" where
  "set_revoked now v r = r\<lparr>tok_revoked_at := v, tok_updated_at := now\<rparr>"

definition DisableToken :: "bool \<Rightarrow> time \<Rightarrow> uuid \<Rightarrow> uuid \<Rightarrow> db \<Rightarrow> (db_error, unit) result \<times> db" where
  "DisableToken fault now i acc d =
     run_tx fault (\<lambda>d. rbind (GetTokenByID i acc d) (\<lambda>r.
       if tok_revoked_at r \<noteq> None then Inl NoRows
       else Inr ((), d\<lparr>db_tokens := update_row tok_id i (set_revoked now (Some now)) (db_tokens d)\<rparr>))) d"

definition EnableToken :: "bool \<Rightarrow> time \<Rightarrow> uuid \<Rightarrow> uuid \<Rightarrow> db \<Rightarrow> (db_error, unit) result \<times> db" where
  "EnableToken fault now i acc d =
     run_tx fault (\<lambda>d. rbind (GetTokenByID i acc d) (\<lambda>r.
       Inr ((), d\<lparr>db_tokens := update_row tok_id i (set_revoked now None) (db_tokens d)\<rparr>))) d"

text \<open>Deleting a token deletes its statistics and its ledger entries with it; a token a donation refers to
  cannot be deleted.\<close>

definition DeleteToken :: "bool \<Rightarrow> uuid \<Rightarrow> uuid \<Rightarrow> db \<Rightarrow> (db_error, unit) result \<times> db" where
  "DeleteToken fault i acc d =
     run_tx fault (\<lambda>d. rbind (GetTokenByID i acc d) (\<lambda>r.
       if list_ex (\<lambda>q. don_token_id q = i) (db_donations d) then Inl Conflict
       else Inr ((), d\<lparr>db_tokens := delete_row tok_id i (db_tokens d),
                       db_usage := filter (\<lambda>u. us_token u \<noteq> i) (db_usage d),
                       db_events := filter (\<lambda>e. re_token e \<noteq> i) (db_events d)\<rparr>))) d"

end
