(* ===== verification/Token_Ledger.thy ===== *)
theory Token_Ledger
  imports Tokens Donation_Ledger
begin

text \<open>
  What the token operations of \<open>src/api/store/tokens.go\<close> keep.  The statistics of a token add up to the
  requests it is charged for, secrets are unique, and nothing the owner does with standard tokens or a
  client does with its quota disturbs the donations: their ledger and the limits of reward tokens.
\<close>

section \<open>The statistics\<close>

definition usage_sum :: "uuid \<Rightarrow> db \<Rightarrow> int" where
  "usage_sum t d = sum_rows (\<lambda>u. if us_token u = t then us_count u else 0) (db_usage d)"

definition usage_key :: "usage_row \<Rightarrow> int \<times> uuid" where
  "usage_key u = (us_day u, us_token u)"

definition usage_ok :: "db \<Rightarrow> bool" where
  "usage_ok d =
     (distinct (map usage_key (db_usage d))
      \<and> (\<forall>u \<in> set (db_usage d). us_token u \<in> tok_id ` set (db_tokens d))
      \<and> (\<forall>r \<in> set (db_tokens d). usage_sum (tok_id r) d = tok_request_count_total r))"

definition hashes_ok :: "db \<Rightarrow> bool" where
  "hashes_ok d = keys_distinct tr_hash (db_tokens d)"

definition store_ok :: "db \<Rightarrow> bool" where
  "store_ok d = (donations_ok d \<and> usage_ok d \<and> hashes_ok d)"

lemma add_usage_absent: "\<not> list_ex (\<lambda>u. us_day u = day \<and> us_token u = t) us \<Longrightarrow>
   add_usage day t acc us = us @ [\<lparr>us_day = day, us_token = t, us_account = acc, us_count = 1\<rparr>]"
  by (simp add: add_usage_def)

lemma usage_map_sum:
  "distinct (map usage_key us) \<Longrightarrow> list_ex (\<lambda>u. us_day u = day \<and> us_token u = t) us \<Longrightarrow>
   sum_rows (\<lambda>u. if us_token u = t' then us_count u else 0)
     (map (\<lambda>u. if us_day u = day \<and> us_token u = t then u\<lparr>us_count := us_count u + 1\<rparr> else u) us)
   = sum_rows (\<lambda>u. if us_token u = t' then us_count u else 0) us + (if t' = t then 1 else 0)"
proof (induction us)
  case (Cons u us)
  show ?case
  proof (cases "us_day u = day \<and> us_token u = t")
    case True
    then have "map (\<lambda>u. if us_day u = day \<and> us_token u = t then u\<lparr>us_count := us_count u + 1\<rparr> else u) us = us"
      using Cons.prems(1) by (intro map_idI) (auto simp: usage_key_def image_iff)
    then show ?thesis using True by simp
  next
    case False
    then show ?thesis using Cons by auto
  qed
qed simp

lemma add_usage_sum:
  "distinct (map usage_key us) \<Longrightarrow>
   sum_rows (\<lambda>u. if us_token u = t' then us_count u else 0) (add_usage day t acc us)
   = sum_rows (\<lambda>u. if us_token u = t' then us_count u else 0) us + (if t' = t then 1 else 0)"
  using usage_map_sum [of us day t t'] by (cases "list_ex (\<lambda>u. us_day u = day \<and> us_token u = t) us") (simp_all add: add_usage_def)

lemma add_usage_distinct: "distinct (map usage_key us) \<Longrightarrow> distinct (map usage_key (add_usage day t acc us))"
proof (cases "list_ex (\<lambda>u. us_day u = day \<and> us_token u = t) us")
  case True
  have "map usage_key (map (\<lambda>u. if us_day u = day \<and> us_token u = t then u\<lparr>us_count := us_count u + 1\<rparr> else u) us) = map usage_key us"
    by (simp add: usage_key_def)
  moreover assume "distinct (map usage_key us)"
  ultimately show ?thesis unfolding add_usage_def if_P [OF True] by metis
next
  case False
  assume "distinct (map usage_key us)"
  then show ?thesis using False by (auto simp: add_usage_def usage_key_def list_ex_iff)
qed

lemma add_usage_tokens: "u \<in> set (add_usage day t acc us) \<Longrightarrow> us_token u = t \<or> us_token u \<in> us_token ` set us"
  by (auto simp: add_usage_def split: if_splits)

section \<open>Changes of one token\<close>

text \<open>\<open>harmless f\<close>: an update that keeps what donations depend on.\<close>

definition harmless :: "(token_row \<Rightarrow> token_row) \<Rightarrow> token_row \<Rightarrow> bool" where
  "harmless f r =
     (tok_kind (f r) = tok_kind r \<and>
      (is_donation_token r \<longrightarrow> tok_total_request_limit (f r) = tok_total_request_limit r
         \<and> tok_daily_request_limit (f r) = tok_daily_request_limit r
         \<and> tok_rate_limit_per_minute (f r) = tok_rate_limit_per_minute r))"

definition token_changed :: "uuid \<Rightarrow> (token_row \<Rightarrow> token_row) \<Rightarrow> db \<Rightarrow> db \<Rightarrow> bool" where
  "token_changed i f d d' =
     (db_tokens d' = update_row tok_id i f (db_tokens d) \<and> db_donations d' = db_donations d \<and> db_events d' = db_events d)"

lemma token_changed_ok:
  assumes ch: "token_changed i f d d'" and ok: "donations_ok d" and k: "\<And>r. tok_id (f r) = tok_id r"
    and r: "find_row tok_id i (db_tokens d) = Some r" and h: "harmless f r"
  shows "donations_ok d'"
proof -
  have ts: "db_tokens d' = update_row tok_id i f (db_tokens d)" and ds: "db_donations d' = db_donations d"
    and es: "db_events d' = db_events d" using ch by (simp_all add: token_changed_def)
  have tb: "tables_ok d" using ok by (simp add: donations_ok_def)
  have ex: "donation_token_exists d' t = donation_token_exists d t" for t
    using r h by (auto simp: donation_token_exists_def ts find_row_update_row [where key = tok_id, OF k] harmless_def is_donation_token_def)
  have tb': "tables_ok d'"
    using tb unfolding tables_ok_def ds es ex keys_distinct_def ts map_key_update_row [where key = tok_id, OF k] .
  have lg: "ledger_ok d'"
    using ok unfolding donations_ok_def ledger_ok_def ledger_row_def ledger_sum_def ds es by blast
  have fr: "limits_row d' q = limits_row d q" for q
    by (rule limits_row_frame) (simp_all add: active_sum_def manual_sum_def ds es)
  have "limits_row d q" if q: "q \<in> set (db_tokens d')" for q
  proof -
    have lm: "limits_row d p" if "p \<in> set (db_tokens d)" for p using ok that by (simp add: donations_ok_def limits_ok_def)
    from q ts consider "q \<in> set (db_tokens d)" | p where "p \<in> set (db_tokens d)" "tok_id p = i" "q = f p"
      using set_update_row_subset by fastforce
    then show ?thesis
    proof cases
      case 2
      then have "p = r" using find_row_unique [of tok_id "db_tokens d" p] tb r by (simp add: tables_ok_def)
      then show ?thesis using lm [OF 2(1)] 2 h k by (simp add: limits_row_def harmless_def is_donation_token_def)
    qed (rule lm)
  qed
  then have "limits_ok d'" unfolding limits_ok_def fr by blast
  then show ?thesis using tb' lg by (simp add: donations_ok_def)
qed

lemma token_changed_usage:
  assumes ch: "db_tokens d' = update_row tok_id i f (db_tokens d)" "db_usage d' = db_usage d" and ok: "usage_ok d"
    and k: "\<And>r. tok_id (f r) = tok_id r" "\<And>r. tok_request_count_total (f r) = tok_request_count_total r"
  shows "usage_ok d'"
proof -
  have ids: "tok_id ` set (db_tokens d') = tok_id ` set (db_tokens d)"
    unfolding ch(1) using map_key_update_row [where key = tok_id and f = f, OF k(1)] by (metis list.set_map)
  have "usage_sum (tok_id q) d' = tok_request_count_total q" if "q \<in> set (db_tokens d')" for q
    using that ok set_update_row_subset [of q tok_id i f "db_tokens d"] k unfolding ch(1) usage_ok_def usage_sum_def ch(2) by auto
  then show ?thesis using ok unfolding usage_ok_def ids ch(2) by blast
qed

lemma map_column_update_row: "(\<And>r. g (f r) = g r) \<Longrightarrow> map g (update_row key k f rows) = map g rows"
  by (simp add: update_row_def)

lemma update_hashes:
  assumes "hashes_ok d" "db_tokens d' = update_row tok_id i f (db_tokens d)" "\<And>r. tr_hash (f r) = tr_hash r"
  shows "hashes_ok d'"
  using assms(1,2) by (simp add: hashes_ok_def keys_distinct_def map_column_update_row assms(3))

section \<open>A counted request\<close>

lemma count_request_simps [simp]:
  "tok_id (count_request now r) = tok_id r" "tr_hash (count_request now r) = tr_hash r"
  "tok_request_count_total (count_request now r) = tok_request_count_total r + 1"
  "tok_total_request_limit (count_request now r) = tok_total_request_limit r"
  "tok_revoked_at (count_request now r) = tok_revoked_at r" "tok_expires_at (count_request now r) = tok_expires_at r"
  by (simp_all add: count_request_def)

lemma record_request_ok:
  assumes ok: "store_ok d" and r: "find_row tok_id i (db_tokens d) = Some r"
  shows "store_ok (record_request now r d)"
proof -
  let ?d = "record_request now r d"
  have ri: "r \<in> set (db_tokens d)" "tok_id r = i" using find_row_Some [OF r] by auto
  have ch: "token_changed i (count_request now) d ?d" using ri by (simp add: token_changed_def record_request_def)
  have dn: "donations_ok ?d"
    by (rule token_changed_ok [OF ch _ _ r]) (use ok in \<open>simp_all add: store_ok_def harmless_def count_request_def\<close>)
  have ts: "db_tokens ?d = update_row tok_id i (count_request now) (db_tokens d)" using ri by (simp add: record_request_def)
  have hs: "hashes_ok ?d" by (rule update_hashes [OF _ ts]) (use ok in \<open>simp_all add: store_ok_def\<close>)
  have us: "db_usage ?d = add_usage (usage_day now) i (tok_account_id r) (db_usage d)" using ri by (simp add: record_request_def)
  have u: "usage_ok d" "keys_distinct tok_id (db_tokens d)" using ok by (simp_all add: store_ok_def donations_ok_def tables_ok_def)
  have ids: "tok_id ` set (db_tokens ?d) = tok_id ` set (db_tokens d)"
    unfolding ts using map_key_update_row [where key = tok_id and f = "count_request now", OF count_request_simps(1)] by (metis list.set_map)
  have sums: "usage_sum t ?d = usage_sum t d + (if t = i then 1 else 0)" for t
    using add_usage_sum u(1) by (simp add: usage_sum_def us usage_ok_def)
  have counts: "usage_sum (tok_id q) ?d = tok_request_count_total q" if q: "q \<in> set (db_tokens ?d)" for q
  proof -
    obtain p where p: "p \<in> set (db_tokens d)" "q = (if tok_id p = i then count_request now p else p)"
      using q unfolding ts by (auto simp: update_row_def)
    moreover have "usage_sum (tok_id p) d = tok_request_count_total p" using u(1) p(1) by (simp add: usage_ok_def)
    moreover have "tok_id q = tok_id p" "tok_request_count_total q = tok_request_count_total p + (if tok_id p = i then 1 else 0)"
      using p(2) by simp_all
    ultimately show ?thesis unfolding sums by simp
  qed
  have refs: "us_token w \<in> tok_id ` set (db_tokens d)" if "w \<in> set (db_usage ?d)" for w
  proof -
    have sub: "us_token ` set (db_usage d) \<subseteq> tok_id ` set (db_tokens d)" using u(1) by (auto simp: usage_ok_def)
    have "i \<in> tok_id ` set (db_tokens d)" using ri by auto
    then show ?thesis using add_usage_tokens [OF that [unfolded us]] sub by auto
  qed
  have "distinct (map usage_key (db_usage ?d))" unfolding us using add_usage_distinct u(1) unfolding usage_ok_def by blast
  then have "usage_ok ?d" unfolding usage_ok_def ids using counts refs by simp
  then show ?thesis using dn hs by (simp add: store_ok_def)
qed

lemma run_tx_store:
  "(\<And>x d'. m d = Inr (x, d') \<Longrightarrow> store_ok d') \<Longrightarrow> store_ok d \<Longrightarrow> store_ok (snd (run_tx fault m d))"
  by (rule run_tx_keeps)

lemma Increment_ok: "store_ok d \<Longrightarrow> store_ok (snd (IncrementTokenUsageIfAllowed fault now i d))"
  unfolding IncrementTokenUsageIfAllowed_def
  by (rule run_tx_store) (auto split: option.splits if_splits intro: record_request_ok)

lemma Record_ok: "store_ok d \<Longrightarrow> store_ok (snd (RecordTokenUsage fault now i d))"
  unfolding RecordTokenUsage_def
  by (rule run_tx_store) (auto split: option.splits if_splits intro: record_request_ok)

section \<open>Management\<close>

lemma GetTokenByID_Inr: "GetTokenByID i acc d = Inr r \<longleftrightarrow> find_row tok_id i (db_tokens d) = Some r \<and> tok_account_id r = acc \<and> is_standard r"
  by (auto simp: GetTokenByID_def split: option.splits if_splits)

lemma standard_not_donation: "is_standard r \<Longrightarrow> \<not> is_donation_token r"
  by (simp add: is_standard_def is_donation_token_def)

text \<open>An edit of a standard token that keeps id, kind, charge and secret.\<close>

lemma standard_edit_ok:
  assumes ok: "store_ok d" and r: "GetTokenByID i acc d = Inr r"
    and k: "\<And>q. tok_id (f q) = tok_id q" "\<And>q. tok_kind (f q) = tok_kind q" "\<And>q. tok_request_count_total (f q) = tok_request_count_total q"
    and h: "hashes_ok (d\<lparr>db_tokens := update_row tok_id i f (db_tokens d)\<rparr>)"
  shows "store_ok (d\<lparr>db_tokens := update_row tok_id i f (db_tokens d)\<rparr>)"
proof -
  let ?d = "d\<lparr>db_tokens := update_row tok_id i f (db_tokens d)\<rparr>"
  have r': "find_row tok_id i (db_tokens d) = Some r" "\<not> is_donation_token r"
    using r standard_not_donation by (auto simp: GetTokenByID_Inr)
  have "donations_ok ?d"
    by (rule token_changed_ok [of i f d, OF _ _ k(1) r'(1)]) (use ok r'(2) k(2) in \<open>simp_all add: store_ok_def token_changed_def harmless_def\<close>)
  moreover have "usage_ok ?d"
    by (rule token_changed_usage [of _ i f d, OF _ _ _ k(1,3)]) (use ok in \<open>simp_all add: store_ok_def\<close>)
  ultimately show ?thesis using h by (simp add: store_ok_def)
qed

lemma same_hash_edit:
  "store_ok d \<Longrightarrow> (\<And>q. tr_hash (f q) = tr_hash q) \<Longrightarrow> hashes_ok (d\<lparr>db_tokens := update_row tok_id i f (db_tokens d)\<rparr>)"
  by (rule update_hashes [of d _ i f]) (simp_all add: store_ok_def)

lemma new_hash_edit:
  assumes ok: "store_ok d" and k: "\<And>q. tr_hash (f q) = h"
    and n: "\<not> list_ex (\<lambda>t. tok_id t \<noteq> i \<and> tr_hash t = h) (db_tokens d)"
  shows "hashes_ok (d\<lparr>db_tokens := update_row tok_id i f (db_tokens d)\<rparr>)"
proof -
  have "keys_distinct tr_hash ts \<Longrightarrow> keys_distinct tok_id ts \<Longrightarrow> \<not> list_ex (\<lambda>t. tok_id t \<noteq> i \<and> tr_hash t = h) ts \<Longrightarrow>
      keys_distinct tr_hash (update_row tok_id i f ts)" for ts
  proof (induction ts)
    case (Cons t ts)
    have rest: "keys_distinct tr_hash (update_row tok_id i f ts)" using Cons by (simp add: keys_distinct_def)
    have cons: "update_row tok_id i f (t # ts) = (if tok_id t = i then f t else t) # update_row tok_id i f ts"
      by (simp add: update_row_def)
    have "tr_hash (if tok_id t = i then f t else t) \<notin> tr_hash ` set (update_row tok_id i f ts)"
    proof (cases "tok_id t = i")
      case True
      then have "update_row tok_id i f ts = ts" using Cons.prems by (intro update_row_absent) (auto simp: keys_distinct_def)
      moreover have "tr_hash q \<noteq> h" if "q \<in> set ts" for q
      proof -
        have "tok_id q \<noteq> i" using that Cons.prems(2) True unfolding keys_distinct_def by (metis distinct.simps(2) image_eqI list.set_map list.simps(9))
        then show ?thesis using that Cons.prems(3) by (auto simp: list_ex_iff)
      qed
      ultimately show ?thesis using True k by auto
    next
      case False
      then have "tr_hash t \<noteq> h" using Cons.prems by simp
      moreover have "tr_hash t \<notin> tr_hash ` set ts" using Cons.prems by (simp add: keys_distinct_def)
      ultimately show ?thesis using False k set_update_row_subset [of _ tok_id i f ts] by fastforce
    qed
    then show ?case using rest by (simp add: cons keys_distinct_def)
  qed (simp add: update_row_def keys_distinct_def)
  then show ?thesis using ok n by (simp add: hashes_ok_def store_ok_def donations_ok_def tables_ok_def)
qed

lemma insert_token_ok:
  assumes ok: "store_ok d" and new: "tok_id t \<notin> tok_id ` set (db_tokens d)" and h: "\<not> hash_taken (tr_hash t) d"
    and st: "is_standard t" and z: "tok_request_count_total t = 0"
  shows "store_ok (d\<lparr>db_tokens := db_tokens d @ [t]\<rparr>)"
proof -
  let ?d = "d\<lparr>db_tokens := db_tokens d @ [t]\<rparr>"
  have o: "tables_ok d" "ledger_ok d" "limits_ok d" "usage_ok d" "hashes_ok d"
    using ok by (simp_all add: store_ok_def donations_ok_def)
  have nd: "\<not> is_donation_token t" using standard_not_donation [OF st] .
  have ex: "donation_token_exists d u \<Longrightarrow> donation_token_exists ?d u" for u
    by (auto simp: donation_token_exists_def find_row_append)
  have tb: "tables_ok ?d" using o(1) ex new unfolding tables_ok_def keys_distinct_def by simp
  have lg: "ledger_ok ?d" using o(2) by (simp add: ledger_ok_def ledger_row_def ledger_sum_def)
  have "limits_row ?d q = limits_row d q" for q by (rule limits_row_frame) (simp_all add: active_sum_def manual_sum_def)
  then have lm: "limits_ok ?d" using o(3) nd by (simp add: limits_ok_def limits_row_def)
  have zero: "usage_sum (tok_id t) d = 0"
    unfolding usage_sum_def
  proof (rule sum_rows_zero)
    fix u assume "u \<in> set (db_usage d)"
    then have "us_token u \<in> tok_id ` set (db_tokens d)" using o(4) by (simp add: usage_ok_def)
    then show "(if us_token u = tok_id t then us_count u else 0) = 0" using new by auto
  qed
  have us: "usage_ok ?d" using o(4) zero z by (auto simp: usage_ok_def usage_sum_def)
  have "hashes_ok ?d" using o(5) h by (auto simp: hashes_ok_def keys_distinct_def hash_taken_def list_ex_iff)
  then show ?thesis using tb lg lm us by (simp add: store_ok_def donations_ok_def)
qed

lemma find_row_delete: "find_row key j (delete_row key i rows) = (if j = i then None else find_row key j rows)"
  by (induction rows) (auto simp: find_row_def delete_row_def)

lemma delete_token_ok:
  assumes ok: "store_ok d" and r: "find_row tok_id i (db_tokens d) = Some r" and nd: "\<not> is_donation_token r"
  shows "store_ok (d\<lparr>db_tokens := delete_row tok_id i (db_tokens d), db_usage := filter (\<lambda>u. us_token u \<noteq> i) (db_usage d),
            db_events := filter (\<lambda>e. re_token e \<noteq> i) (db_events d)\<rparr>)" (is "store_ok ?d")
proof -
  have o: "tables_ok d" "ledger_ok d" "limits_ok d" "usage_ok d" "hashes_ok d"
    using ok by (simp_all add: store_ok_def donations_ok_def)
  have no: "\<not> donation_token_exists d i" using r nd by (simp add: donation_token_exists_def)
  have es: "filter (\<lambda>e. re_token e \<noteq> i) (db_events d) = db_events d"
    using o(1) no by (auto simp: tables_ok_def filter_id_conv)
  have ex: "donation_token_exists ?d u = donation_token_exists d u" for u
    using no by (simp add: donation_token_exists_def find_row_delete)
  have "keys_distinct tok_id (delete_row tok_id i (db_tokens d))"
    using o(1) by (simp add: tables_ok_def delete_row_distinct)
  then have tb: "tables_ok ?d" using o(1) unfolding tables_ok_def ex by (simp add: es)
  have lg: "ledger_ok ?d" using o(2) by (simp add: ledger_ok_def ledger_row_def ledger_sum_def es)
  have "limits_row ?d q = limits_row d q" for q by (rule limits_row_frame) (simp_all add: active_sum_def manual_sum_def es)
  then have lm: "limits_ok ?d" using o(3) by (simp add: limits_ok_def delete_row_def)
  have dis: "distinct (map usage_key (filter (\<lambda>u. us_token u \<noteq> i) (db_usage d)))"
    using o(4) by (simp add: usage_ok_def distinct_map_filter)
  have sums: "usage_sum t ?d = usage_sum t d" if "t \<noteq> i" for t
  proof -
    have "sum_rows f (filter P us) = sum_rows (\<lambda>u. if P u then f u else 0) us" for f :: "usage_row \<Rightarrow> int" and P us
      by (induction us) auto
    then show ?thesis using that by (auto simp: usage_sum_def intro: sum_rows_cong)
  qed
  have "us_token u \<in> tok_id ` set (delete_row tok_id i (db_tokens d))" if "u \<in> set (db_usage d)" "us_token u \<noteq> i" for u
    using o(4) that by (fastforce simp: usage_ok_def delete_row_def)
  moreover have "usage_sum (tok_id q) ?d = tok_request_count_total q" if "q \<in> set (delete_row tok_id i (db_tokens d))" for q
    using that o(4) sums [of "tok_id q"] by (auto simp: usage_ok_def delete_row_def)
  ultimately have us: "usage_ok ?d" using dis unfolding usage_ok_def by simp
  have "hashes_ok ?d"
    using o(5) by (simp add: hashes_ok_def keys_distinct_def delete_row_def distinct_map_filter)
  then show ?thesis using tb lg lm us by (simp add: store_ok_def donations_ok_def)
qed

section \<open>Every operation\<close>

datatype token_op =
    Rotate_Admin_Key string uuid
  | Set_Admin_Key uuid string
  | Use_Token uuid
  | Record_Use uuid
  | Create_Token uuid string uuid token_request bool
  | Update_Token uuid uuid token_request
  | Rotate_Token string uuid uuid
  | Disable_Token uuid uuid
  | Enable_Token uuid uuid
  | Delete_Token uuid uuid

fun perform_token :: "libs \<Rightarrow> bool \<Rightarrow> time \<Rightarrow> token_op \<Rightarrow> db \<Rightarrow> db" where
  "perform_token l fault now (Rotate_Admin_Key random acc) d = snd (RotateAdminAuthKey fault (lib_lower l) now random acc d)"
| "perform_token l fault now (Set_Admin_Key acc key) d = snd (SetAdminAuthKey fault (lib_sha l) now acc key d)"
| "perform_token l fault now (Use_Token i) d = snd (IncrementTokenUsageIfAllowed fault now i d)"
| "perform_token l fault now (Record_Use i) d = snd (RecordTokenUsage fault now i d)"
| "perform_token l fault now (Create_Token i random acc q e) d =
     snd (CreateToken fault (lib_lower l) (lib_sha l) now i random acc q e d)"
| "perform_token l fault now (Update_Token i acc q) d = snd (UpdateToken fault (lib_lower l) now i acc q d)"
| "perform_token l fault now (Rotate_Token random i acc) d = snd (RotateToken fault (lib_sha l) now random i acc d)"
| "perform_token l fault now (Disable_Token i acc) d = snd (DisableToken fault now i acc d)"
| "perform_token l fault now (Enable_Token i acc) d = snd (EnableToken fault now i acc d)"
| "perform_token l fault now (Delete_Token i acc) d = snd (DeleteToken fault i acc d)"

definition token_op_fresh :: "token_op \<Rightarrow> db \<Rightarrow> bool" where
  "token_op_fresh op d = (case op of Create_Token i _ _ _ _ \<Rightarrow> i \<notin> tok_id ` set (db_tokens d) | _ \<Rightarrow> True)"

lemma store_api_key_ok: "store_api_key now acc key d = Inr d' \<Longrightarrow> store_ok d \<Longrightarrow> store_ok d'"
proof -
  assume "store_api_key now acc key d = Inr d'" and ok: "store_ok d"
  then have f: "db_tokens d' = db_tokens d" "db_donations d' = db_donations d" "db_events d' = db_events d" "db_usage d' = db_usage d"
    by (auto simp: store_api_key_def split: option.splits if_splits)
  have "donations_ok d'" by (rule donations_ok_frame [OF f(1-3)]) (use ok in \<open>simp add: store_ok_def\<close>)
  then show ?thesis using ok by (simp add: store_ok_def usage_ok_def hashes_ok_def usage_sum_def f)
qed

lemma RotateAdminAuthKey_ok: "store_ok d \<Longrightarrow> store_ok (snd (RotateAdminAuthKey fault lo now random acc d))"
  unfolding RotateAdminAuthKey_def Let_def
  by (rule run_tx_store) (auto simp: rbind_Inr_iff intro: store_api_key_ok)

lemma SetAdminAuthKey_ok: "store_ok d \<Longrightarrow> store_ok (snd (SetAdminAuthKey fault sha now acc key d))"
  unfolding SetAdminAuthKey_def
  by (auto simp: rbind_Inr_iff intro!: run_tx_store intro: store_api_key_ok)

lemma CreateToken_ok:
  assumes ok: "store_ok d" and new: "i \<notin> tok_id ` set (db_tokens d)"
  shows "store_ok (snd (CreateToken fault lo sha now i random acc q e d))"
  unfolding CreateToken_def Let_def
proof (rule run_tx_store [OF _ ok])
  fix x d'
  let ?t = "standard_token sha now i acc (generateAccessToken random) (with_defaults lo (db_settings d) now e q)"
  assume "(if acc \<notin> acc_id ` set (db_accounts d) then Inl Conflict
      else if \<not> request_fits (with_defaults lo (db_settings d) now e q) then Inl OutOfRange
      else if hash_taken (hashToken sha (generateAccessToken random)) d then Inl Conflict
      else Inr ((?t, generateAccessToken random), d\<lparr>db_tokens := db_tokens d @ [?t]\<rparr>)) = Inr (x, d')"
  then have d': "d' = d\<lparr>db_tokens := db_tokens d @ [?t]\<rparr>" and h: "\<not> hash_taken (tr_hash ?t) d"
    by (auto simp: standard_token_def split: if_splits)
  show "store_ok d'"
    unfolding d' by (rule insert_token_ok [OF ok _ h]) (use new in \<open>simp_all add: standard_token_def is_standard_def\<close>)
qed

lemma UpdateToken_ok: "store_ok d \<Longrightarrow> store_ok (snd (UpdateToken fault lo now i acc q d))"
  unfolding UpdateToken_def Let_def
  by (rule run_tx_store)
    (auto simp: rbind_Inr_iff edit_token_def split: if_splits intro!: standard_edit_ok same_hash_edit)

lemma RotateToken_ok: "store_ok d \<Longrightarrow> store_ok (snd (RotateToken fault sha now random i acc d))"
  unfolding RotateToken_def Let_def
  by (rule run_tx_store)
    (auto simp: rbind_Inr_iff replace_secret_def split: if_splits intro!: standard_edit_ok new_hash_edit)

lemma DisableToken_ok: "store_ok d \<Longrightarrow> store_ok (snd (DisableToken fault now i acc d))"
  unfolding DisableToken_def
  by (rule run_tx_store)
    (auto simp: rbind_Inr_iff set_revoked_def split: if_splits intro!: standard_edit_ok same_hash_edit)

lemma EnableToken_ok: "store_ok d \<Longrightarrow> store_ok (snd (EnableToken fault now i acc d))"
  unfolding EnableToken_def
  by (rule run_tx_store)
    (auto simp: rbind_Inr_iff set_revoked_def split: if_splits intro!: standard_edit_ok same_hash_edit)

lemma DeleteToken_ok: "store_ok d \<Longrightarrow> store_ok (snd (DeleteToken fault i acc d))"
  unfolding DeleteToken_def
  by (rule run_tx_store)
    (auto simp: rbind_Inr_iff GetTokenByID_Inr split: if_splits intro!: delete_token_ok dest: standard_not_donation)

lemmas token_ops_ok = RotateAdminAuthKey_ok SetAdminAuthKey_ok Increment_ok Record_ok CreateToken_ok UpdateToken_ok
  RotateToken_ok DisableToken_ok EnableToken_ok DeleteToken_ok

lemma perform_token_ok: "store_ok d \<Longrightarrow> token_op_fresh op d \<Longrightarrow> store_ok (perform_token l fault now op d)"
  by (cases op) (simp_all add: token_ops_ok token_op_fresh_def)

end
