(* ===== verification/Store_History.thy ===== *)
theory Store_History
  imports Token_Ledger Donation_Promises
begin

text \<open>
  The donation and the token operations of the store together: any sequence of them keeps one invariant
  (the statistics, the secrets, the reward ledger and the limits), a token is charged exactly up to its
  limit, and a rotated secret is the only one that works.
\<close>

section \<open>Donation operations charge no token\<close>

definition charges :: "db \<Rightarrow> (uuid \<times> int \<times> string) list \<times> usage_row list" where
  "charges d = (map (\<lambda>r. (tok_id r, tok_request_count_total r, tr_hash r)) (db_tokens d), db_usage d)"

lemma charges_update:
  "charges (update_donation i f d) = charges d" "charges (update_domain k g d) = charges d"
  by (simp_all add: charges_def update_donation_def update_domain_def)

lemma charges_event: "insert_event now t i kind a b c n d = Inr d' \<Longrightarrow> charges d' = charges d"
  by (simp add: insert_event_Inr charges_def)

lemma charges_recalculate: "recalculateLocked now t d = Inr d' \<Longrightarrow> charges d' = charges d"
  by (auto simp: recalculateLocked_def Let_def charges_def update_row_def set_limits_def split: if_splits)

lemma charges_verify: "verify_row now v r d = Inr d' \<Longrightarrow> charges d' = charges d"
  by (auto simp: verify_row_def Let_def charges_update dest!: charges_event split: if_splits)

lemma charges_each:
  assumes "each f xs d = Inr d'" "\<And>x a b. f x a = Inr b \<Longrightarrow> charges b = charges a"
  shows "charges d' = charges d"
  by (rule each_invariant [where P = "\<lambda>a. charges a = charges d", OF assms(1)]) (use assms(2) in auto)

lemma charges_policy_row: "policy_row now n pol r d = Inr d' \<Longrightarrow> charges d' = charges d"
  by (auto simp: policy_row_def charges_update dest!: charges_event split: if_splits)

lemma charges_verification: "verification_tx now i v d = Inr (t, d') \<Longrightarrow> charges d' = charges d"
  by (auto simp: verification_tx_def rbind_Inr_iff dest!: charges_verify charges_recalculate)

lemma charges_restore: "restore_tx now i d = Inr (t, d') \<Longrightarrow> charges d' = charges d"
  by (auto simp: restore_tx_def rbind_Inr_iff charges_update dest!: charges_recalculate)

lemma charges_revoke: "revoke_tx now i n d = Inr (t, d') \<Longrightarrow> charges d' = charges d"
  by (auto simp: revoke_tx_def Let_def rbind_Inr_iff charges_update dest!: charges_recalculate charges_event split: if_splits)

lemma charges_adjust: "adjust_tx now t a b c n d = Inr (u, d') \<Longrightarrow> charges d' = charges d"
  by (auto simp: adjust_tx_def rbind_Inr_iff dest!: charges_recalculate charges_event)

lemma charges_policy:
  assumes "policy_tx us now n d = Inr (ts, d')" shows "charges d' = charges d"
proof -
  obtain tids d0 pol grants d1 where "each lock_each tids d = Inr d0" "each (policy_row now n pol) grants d0 = Inr d1"
      "each (recalculateLocked now) tids d1 = Inr d'"
    using assms by (auto simp: policy_tx_def Let_def rbind_Inr_iff)
  then show ?thesis
    using lock_each_same charges_each [of _ _ d0 d1] charges_each [of _ _ d1 d'] charges_policy_row charges_recalculate by metis
qed

lemma charges_ok:
  assumes c: "charges d' = charges d" and ok: "usage_ok d \<and> hashes_ok d"
  shows "usage_ok d' \<and> hashes_ok d'"
proof -
  have m: "map (\<lambda>r. (tok_id r, tok_request_count_total r, tr_hash r)) (db_tokens d') = map (\<lambda>r. (tok_id r, tok_request_count_total r, tr_hash r)) (db_tokens d)"
    and us: "db_usage d' = db_usage d" using c by (simp_all add: charges_def)
  have ids: "map tok_id (db_tokens d') = map tok_id (db_tokens d)" and hs: "map tr_hash (db_tokens d') = map tr_hash (db_tokens d)"
    using arg_cong [OF m, of "map fst"] arg_cong [OF m, of "map (snd \<circ> snd)"] by (simp_all add: comp_def)
  have idset: "tok_id ` set (db_tokens d') = tok_id ` set (db_tokens d)" using arg_cong [OF ids, of set] by simp
  have pairs: "(\<lambda>r. (tok_id r, tok_request_count_total r)) ` set (db_tokens d') = (\<lambda>r. (tok_id r, tok_request_count_total r)) ` set (db_tokens d)"
    using arg_cong [OF m, of "\<lambda>l. set (map (\<lambda>(a, b, _). (a, b)) l)"] by (simp add: image_image)
  have "usage_sum (tok_id q) d' = tok_request_count_total q" if q: "q \<in> set (db_tokens d')" for q
  proof -
    obtain p where p: "p \<in> set (db_tokens d)" "tok_id p = tok_id q" "tok_request_count_total p = tok_request_count_total q"
    proof -
      have "(tok_id q, tok_request_count_total q) \<in> (\<lambda>r. (tok_id r, tok_request_count_total r)) ` set (db_tokens d)"
        unfolding pairs [symmetric] using q by blast
      then show ?thesis using that by auto
    qed
    have "usage_sum (tok_id p) d = tok_request_count_total p" using ok p(1) by (simp add: usage_ok_def)
    then show ?thesis using p by (simp add: usage_sum_def us)
  qed
  then show ?thesis using ok by (simp add: usage_ok_def hashes_ok_def keys_distinct_def hs us idset)
qed

lemma run_tx_charges:
  "(\<And>x d'. m d = Inr (x, d') \<Longrightarrow> charges d' = charges d) \<Longrightarrow> charges (snd (run_tx fault m d)) = charges d"
  by (auto simp: run_tx_def split: sum.splits)

section \<open>A new reward token\<close>

lemma charges_domain: "donation_domain now fr name d = Inr (k, d') \<Longrightarrow> charges d' = charges d"
  by (auto simp: donation_domain_def charges_def split: option.splits if_splits)

lemma charges_insert: "insert_donation r d = Inr d' \<Longrightarrow> charges d' = charges d"
  by (auto simp: insert_donation_def charges_def split: if_splits)

lemma donation_token_new_hash:
  assumes dt: "donation_token sha now fr ex d = Inr (t, raw, d1)" and new: "d1 \<noteq> d"
  shows "\<not> list_ex (\<lambda>q. tr_hash q = hashToken sha raw) (db_tokens d)"
proof (cases "owner_account d")
  case (Some acc)
  show ?thesis
  proof (cases "trim_space ex = []")
    case True
    then show ?thesis using dt Some by (simp add: donation_token_def Let_def split: if_splits)
  next
    case False
    then show ?thesis using dt Some new by (simp add: donation_token_def Let_def split: option.splits if_splits)
  qed
qed (use dt in \<open>simp add: donation_token_def\<close>)

lemma create_tx_charges:
  assumes cr: "create_tx sha now fr pol name sub ex d = Inr (x, d')" and ok: "usage_ok d \<and> hashes_ok d" and fr: "fresh_ok fr d"
  shows "usage_ok d' \<and> hashes_ok d'"
proof -
  obtain t raw d1 k d2 d3 where st: "donation_token sha now fr ex d = Inr (t, raw, d1)"
      "donation_domain now fr name d1 = Inr (k, d2)" "insert_donation (new_donation sha now pol fr t k sub) d2 = Inr d3"
      "d' = update_domain k mark_donated d3"
    using create_tx_steps [OF cr] by blast
  have d1: "usage_ok d1 \<and> hashes_ok d1"
  proof (cases "d1 = d")
    case False
    then obtain acc :: account where e: "d1 = d\<lparr>db_tokens := db_tokens d @ [reward_token sha now (fr_token fr) (acc_id acc) raw]\<rparr>"
      using donation_token_cases [OF st(1)] by blast
    have "\<not> list_ex (\<lambda>q. tr_hash q = hashToken sha raw) (db_tokens d)"
      by (rule donation_token_new_hash [OF st(1) False])
    then have h: "hashes_ok d1" using ok by (auto simp: e hashes_ok_def keys_distinct_def list_ex_iff reward_token_def)
    have new: "fr_token fr \<notin> tok_id ` set (db_tokens d)" using fr by (simp add: fresh_ok_def)
    have "usage_sum (fr_token fr) d = 0"
      unfolding usage_sum_def
    proof (rule sum_rows_zero)
      fix u assume "u \<in> set (db_usage d)"
      then have "us_token u \<in> tok_id ` set (db_tokens d)" using ok by (simp add: usage_ok_def)
      then show "(if us_token u = fr_token fr then us_count u else 0) = 0" using new by auto
    qed
    then have "usage_ok d1" using ok by (auto simp: e usage_ok_def usage_sum_def reward_token_def)
    then show ?thesis using h by simp
  qed (use ok in simp)
  have "charges d' = charges d1"
    using charges_domain [OF st(2)] charges_insert [OF st(3)] unfolding st(4) charges_update by simp
  then show ?thesis using charges_ok d1 by blast
qed

lemma perform_charges_ok:
  assumes ok: "usage_ok d \<and> hashes_ok d" and al: "allowed op d"
  shows "usage_ok (snd (perform l fault now op d)) \<and> hashes_ok (snd (perform l fault now op d))"
proof (cases op)
  case (Create fr name sub ex)
  let ?n = "to_lower (lib_lower l) (trim_cut ''.'' (trim_space name))"
  show ?thesis
  proof (cases "?n = []")
    case False
    have "usage_ok (snd (run_tx fault (create_tx (lib_sha l) now fr (DonationPolicy (db_settings d)) ?n sub ex) d))
        \<and> hashes_ok (snd (run_tx fault (create_tx (lib_sha l) now fr (DonationPolicy (db_settings d)) ?n sub ex) d))"
      by (rule run_tx_keeps [where P = "\<lambda>d. usage_ok d \<and> hashes_ok d"])
        (use ok al Create create_tx_charges in \<open>auto simp: allowed_def\<close>)
    then show ?thesis using False Create by (simp add: snd_result CreateDonationRequest_def)
  qed (use ok Create in \<open>simp add: snd_result CreateDonationRequest_def\<close>)
next
  case (Verify i v)
  have "charges (snd (perform l fault now op d)) = charges d"
    unfolding Verify perform.simps snd_result ApplyDonationVerification_def by (rule run_tx_charges [OF charges_verification])
  then show ?thesis using charges_ok ok by blast
next
  case (Revoke i n)
  have "charges (snd (perform l fault now op d)) = charges d"
    unfolding Revoke perform.simps snd_result SetDonationRevoked_def by (rule run_tx_charges) (use charges_revoke in auto)
  then show ?thesis using charges_ok ok by blast
next
  case (Restore i)
  have "charges (snd (perform l fault now op d)) = charges d"
    unfolding Restore perform.simps snd_result SetDonationRevoked_def by (rule run_tx_charges) (use charges_restore in auto)
  then show ?thesis using charges_ok ok by blast
next
  case (Adjust t a b c n)
  have "charges (snd (run_tx fault (adjust_tx now t a b c n) d)) = charges d" by (rule run_tx_charges [OF charges_adjust])
  then have "charges (snd (perform l fault now op d)) = charges d"
    unfolding Adjust perform.simps snd_result AdjustDonationToken_def by simp
  then show ?thesis using charges_ok ok by blast
next
  case (Policy n)
  have "charges (snd (perform l fault now op d)) = charges d"
    unfolding Policy perform.simps snd_result ApplyDonationPolicyToExisting_def by (rule run_tx_charges [OF charges_policy])
  then show ?thesis using charges_ok ok by blast
qed

section \<open>Histories of the whole store\<close>

datatype store_op = Donation donation_op | Token token_op

fun perform_store :: "libs \<Rightarrow> bool \<Rightarrow> time \<Rightarrow> store_op \<Rightarrow> db \<Rightarrow> db" where
  "perform_store l fault now (Donation op) d = snd (perform l fault now op d)"
| "perform_store l fault now (Token op) d = perform_token l fault now op d"

fun store_allowed :: "store_op \<Rightarrow> db \<Rightarrow> bool" where
  "store_allowed (Donation op) d = allowed op d"
| "store_allowed (Token op) d = token_op_fresh op d"

fun store_history :: "libs \<Rightarrow> (bool \<times> time \<times> store_op) list \<Rightarrow> db \<Rightarrow> db" where
  "store_history l [] d = d"
| "store_history l ((fault, now, op) # ops) d = store_history l ops (perform_store l fault now op d)"

fun store_history_allowed :: "libs \<Rightarrow> (bool \<times> time \<times> store_op) list \<Rightarrow> db \<Rightarrow> bool" where
  "store_history_allowed l [] d = True"
| "store_history_allowed l ((fault, now, op) # ops) d =
     (store_allowed op d \<and> store_history_allowed l ops (perform_store l fault now op d))"

lemma perform_store_ok: "store_ok d \<Longrightarrow> store_allowed op d \<Longrightarrow> store_ok (perform_store l fault now op d)"
  using perform_ok perform_charges_ok perform_token_ok by (cases op) (auto simp: store_ok_def)

lemma store_history_keeps: "store_ok d \<Longrightarrow> store_history_allowed l ops d \<Longrightarrow> store_ok (store_history l ops d)"
  by (induction ops arbitrary: d rule: list.induct) (auto simp: perform_store_ok)

section \<open>The quota\<close>

text \<open>The requests of one token at the given times: how many are let through, and the database after.\<close>

fun use_times :: "time list \<Rightarrow> uuid \<Rightarrow> db \<Rightarrow> nat \<times> db" where
  "use_times [] i d = (0, d)"
| "use_times (now # ts) i d =
     (case IncrementTokenUsageIfAllowed False now i d of
        (Inl _, d') \<Rightarrow> use_times ts i d'
      | (Inr _, d') \<Rightarrow> (let (n, d'') = use_times ts i d' in (Suc n, d'')))"

lemma Increment_cases:
  assumes "find_row tok_id i (db_tokens d) = Some r"
  shows "IncrementTokenUsageIfAllowed False now i d =
     (if \<not> (live_token now r \<and> within_total r) then (Inl TokenLimit, d)
      else if \<not> int8 (tok_request_count_total r + 1) then (Inl OutOfRange, d)
      else (Inr (tok_request_count_total r + 1, tok_total_request_limit r), record_request now r d))"
  using assms by (simp add: IncrementTokenUsageIfAllowed_def run_tx_def)

lemma record_request_row:
  "find_row tok_id i (db_tokens d) = Some r \<Longrightarrow> find_row tok_id i (db_tokens (record_request now r d)) = Some (count_request now r)"
  using find_row_Some [of tok_id i "db_tokens d" r]
  by (simp add: record_request_def find_row_update_row [where key = tok_id, OF count_request_simps(1)])

lemma use_times_exact:
  "store_ok d \<Longrightarrow> find_row tok_id i (db_tokens d) = Some r \<Longrightarrow> \<forall>now \<in> set ts. live_token now r \<Longrightarrow>
   0 \<le> tok_request_count_total r \<Longrightarrow> tok_request_count_total r \<le> tok_total_request_limit r \<Longrightarrow>
   0 < tok_total_request_limit r \<Longrightarrow> int8 (tok_total_request_limit r) \<Longrightarrow>
   use_times ts i d = (n, d') \<Longrightarrow>
   int n = min (int (length ts)) (tok_total_request_limit r - tok_request_count_total r)
   \<and> usage_sum i d' = tok_request_count_total r + int n"
proof (induction ts arbitrary: d r n)
  case Nil
  then have "usage_sum i d = tok_request_count_total r"
    using find_row_Some [OF Nil.prems(2)] by (auto simp: store_ok_def usage_ok_def)
  then show ?case using Nil.prems by simp
next
  case (Cons now ts)
  let ?r = "count_request now r"
  show ?case
  proof (cases "tok_request_count_total r < tok_total_request_limit r")
    case True
    have fits: "int8 (tok_request_count_total r + 1)" using True Cons.prems(4,7) by (simp add: int8_def)
    have inc: "IncrementTokenUsageIfAllowed False now i d =
        (Inr (tok_request_count_total r + 1, tok_total_request_limit r), record_request now r d)"
      using Increment_cases [OF Cons.prems(2), of now] True fits Cons.prems(3) by (simp add: within_total_def)
    obtain m where m: "use_times ts i (record_request now r d) = (m, d')" "n = Suc m"
      using Cons.prems(8) inc by (auto split: prod.splits)
    have lv: "\<forall>t \<in> set ts. live_token t ?r" using Cons.prems(3) by (simp add: live_token_def)
    have "int m = min (int (length ts)) (tok_total_request_limit ?r - tok_request_count_total ?r)
        \<and> usage_sum i d' = tok_request_count_total ?r + int m"
      by (rule Cons.IH [OF record_request_ok [OF Cons.prems(1,2)] record_request_row [OF Cons.prems(2)] lv _ _ _ _ m(1)])
        (use Cons.prems True in simp_all)
    then show ?thesis using m(2) by simp
  next
    case False
    have inc: "IncrementTokenUsageIfAllowed False now i d = (Inl TokenLimit, d)"
      using Increment_cases [OF Cons.prems(2), of now] False Cons.prems(6) by (simp add: within_total_def)
    have rest: "use_times ts i d = (n, d')" using Cons.prems(8) inc by simp
    have lv: "\<forall>t \<in> set ts. live_token t r" using Cons.prems(3) by simp
    have "int n = min (int (length ts)) (tok_total_request_limit r - tok_request_count_total r)
        \<and> usage_sum i d' = tok_request_count_total r + int n"
      by (rule Cons.IH [OF Cons.prems(1,2) lv Cons.prems(4-7) rest])
    then show ?thesis using False Cons.prems(5) by simp
  qed
qed

section \<open>Rotation\<close>

lemma find_hash: "List.find (\<lambda>t. tr_hash t = h) ts = find_row tr_hash h ts"
  by (simp add: find_row_def)

lemma mem_update_row: "q \<in> set (update_row key k f rows) \<longleftrightarrow> (q \<in> set rows \<and> key q \<noteq> k) \<or> (\<exists>p \<in> set rows. key p = k \<and> q = f p)"
  by (auto simp: update_row_def)

lemma hash_row_unique: "hashes_ok d \<Longrightarrow> q \<in> set (db_tokens d) \<Longrightarrow> find_row tr_hash (tr_hash q) (db_tokens d) = Some q"
  using find_row_unique [of tr_hash "db_tokens d" q] by (simp add: hashes_ok_def)

lemma rotated_rows:
  assumes ok: "store_ok d" "store_ok d'" and r: "find_row tok_id i (db_tokens d) = Some r"
    and d': "db_tokens d' = update_row tok_id i (replace_secret sha now raw) (db_tokens d)"
  shows "find_row tr_hash (hashToken sha raw) (db_tokens d') = Some (replace_secret sha now raw r)"
    and "tr_hash r \<noteq> hashToken sha raw \<Longrightarrow> find_row tr_hash (tr_hash r) (db_tokens d') = None"
    and "h \<noteq> hashToken sha raw \<Longrightarrow> h \<noteq> tr_hash r \<Longrightarrow> find_row tr_hash h (db_tokens d') = find_row tr_hash h (db_tokens d)"
proof -
  have ri: "r \<in> set (db_tokens d)" "tok_id r = i" using find_row_Some [OF r] by auto
  have h: "hashes_ok d" "hashes_ok d'" "keys_distinct tok_id (db_tokens d)"
    using ok by (simp_all add: store_ok_def donations_ok_def tables_ok_def)
  have only: "p = r" if "p \<in> set (db_tokens d)" "tok_id p = i" for p
    using find_row_unique [OF h(3) that(1)] that(2) r by simp
  have hn: "tr_hash (replace_secret sha now raw q) = hashToken sha raw" for q by (simp add: replace_secret_def)
  have mem: "replace_secret sha now raw r \<in> set (db_tokens d')" unfolding d' mem_update_row using ri by blast
  show "find_row tr_hash (hashToken sha raw) (db_tokens d') = Some (replace_secret sha now raw r)"
    using hash_row_unique [OF h(2) mem] hn by simp
  have other: "tr_hash q \<noteq> tr_hash r" if "q \<in> set (db_tokens d)" "tok_id q \<noteq> i" for q
  proof
    assume "tr_hash q = tr_hash r"
    then have "q = r" using hash_row_unique [OF h(1) that(1)] hash_row_unique [OF h(1) ri(1)] by (metis option.inject)
    then show False using that(2) ri(2) by simp
  qed
  show "find_row tr_hash (tr_hash r) (db_tokens d') = None" if "tr_hash r \<noteq> hashToken sha raw"
    unfolding find_row_None
  proof
    assume "tr_hash r \<in> tr_hash ` set (db_tokens d')"
    then obtain q where q: "q \<in> set (db_tokens d')" "tr_hash q = tr_hash r" by auto
    from q(1) consider "q \<in> set (db_tokens d)" "tok_id q \<noteq> i" | p where "q = replace_secret sha now raw p"
      unfolding d' mem_update_row by blast
    then show False by cases (use other q(2) that hn in auto)
  qed
  show "find_row tr_hash h (db_tokens d') = find_row tr_hash h (db_tokens d)" if n: "h \<noteq> hashToken sha raw" "h \<noteq> tr_hash r"
  proof (cases "find_row tr_hash h (db_tokens d)")
    case None
    then have "h \<notin> tr_hash ` set (db_tokens d')" using n hn unfolding find_row_None d' by (auto simp: mem_update_row)
    then show ?thesis using None by (simp add: find_row_None [symmetric])
  next
    case (Some q)
    then have q: "q \<in> set (db_tokens d)" "tr_hash q = h" using find_row_Some by fastforce+
    then have "tok_id q \<noteq> i" using n only by auto
    then have "q \<in> set (db_tokens d')" unfolding d' mem_update_row using q by blast
    then show ?thesis using hash_row_unique [OF h(2)] q Some by auto
  qed
qed

section \<open>The properties\<close>


definition sample_store_history :: "(bool \<times> time \<times> store_op) list" where
  "sample_store_history =
     [(False, 50, Token (Create_Token 9 ''r'' 1 \<lparr>tq_name = ''n'', tq_scope = [], tq_rpm = 0, tq_daily = 0, tq_total = 5, tq_expires = None\<rparr> True)),
      (False, 60, Token (Use_Token 9)), (False, 100, Donation (Create sample_fresh ''a.b'' True [])),
      (True, 150, Token (Disable_Token 9 1)), (False, 200, Donation (Verify 7 valid_check))]"

lemma perform_store_other_ids:
  "tok_id ` set (db_tokens (perform_token l False now (Create_Token i random acc q e) d)) \<subseteq> insert i (tok_id ` set (db_tokens d))
   \<and> db_donations (perform_token l False now (Create_Token i random acc q e) d) = db_donations d"
  by (auto simp: CreateToken_def run_tx_def Let_def standard_token_def split: if_splits sum.splits)

lemma use_token_ids:
  "tok_id ` set (db_tokens (perform_token l False now (Use_Token i) d)) = tok_id ` set (db_tokens d)
   \<and> db_donations (perform_token l False now (Use_Token i) d) = db_donations d"
proof -
  have "tok_id ` set (update_row tok_id k (count_request now) ts) = tok_id ` set ts" for k ts
    using map_key_update_row [where key = tok_id and f = "count_request now", OF count_request_simps(1)] by (metis list.set_map)
  then show ?thesis
    by (auto simp: IncrementTokenUsageIfAllowed_def run_tx_def record_request_def split: option.splits if_splits sum.splits)
qed


text \<open>C16. A token is charged exactly: of any number of requests made while it is live, as many are let
  through as its limit has left and not one more, and its statistics grow by just that number.\<close>

theorem quota_is_exact:
  assumes "store_ok d" "find_row tok_id i (db_tokens d) = Some r" "\<forall>now \<in> set ts. live_token now r"
    "0 \<le> tok_request_count_total r" "tok_request_count_total r \<le> tok_total_request_limit r"
    "0 < tok_total_request_limit r" "int8 (tok_total_request_limit r)"
  shows "int (fst (use_times ts i d)) = min (int (length ts)) (tok_total_request_limit r - tok_request_count_total r)
     \<and> usage_sum i (snd (use_times ts i d)) = usage_sum i d + int (fst (use_times ts i d))"
proof -
  have "usage_sum i d = tok_request_count_total r"
    using find_row_Some [OF assms(2)] assms(1) by (auto simp: store_ok_def usage_ok_def)
  then show ?thesis using use_times_exact [OF assms, of _ "snd (use_times ts i d)"] by (metis prod.collapse)
qed

definition quota_db :: db where
  "quota_db = empty_db\<lparr>db_tokens := [(sample_token 0 0 2)\<lparr>tok_kind := ''standard''\<rparr>]\<rparr>"

theorem quota_is_exact_witness: "fst (use_times [10, 20, 30] 5 quota_db) = 2"
proof -
  have ok: "store_ok quota_db"
    by (simp add: quota_db_def sample_defs store_ok_def donations_ok_def tables_ok_def ledger_ok_def limits_ok_def limits_row_def
        is_donation_token_def usage_ok_def usage_sum_def hashes_ok_def keys_distinct_def)
  have r: "find_row tok_id 5 (db_tokens quota_db) = Some ((sample_token 0 0 2)\<lparr>tok_kind := ''standard''\<rparr>)"
    by (simp add: quota_db_def find_row_def sample_token_def)
  have "int (fst (use_times [10, 20, 30] 5 quota_db)) = min 3 2"
    using quota_is_exact [OF ok r, of "[10, 20, 30]"] by (simp add: sample_token_def live_token_def int8_def)
  then show ?thesis by simp
qed

text \<open>Rotating a token replaces its secret: the new one authenticates the owner's token, with its limits
  and charges unchanged, the old one authenticates nothing from the commit on, and every other secret is
  worth what it was.\<close>

theorem rotate_replaces_secret:
  assumes "store_ok d" "fst (RotateToken fault sha now random i (acc_id a) d) = Inr raw" "owner_account d = Some a"
  shows "\<exists>r. find_row tok_id i (db_tokens d) = Some r
     \<and> loadAccountByTokenHash (hashToken sha raw) (snd (RotateToken fault sha now random i (acc_id a) d))
         = Inr (a, account_token.truncate (replace_secret sha now raw r))
     \<and> (tr_hash r = hashToken sha raw
        \<or> loadAccountByTokenHash (tr_hash r) (snd (RotateToken fault sha now random i (acc_id a) d)) = Inl NoRows)
     \<and> (\<forall>h. h = hashToken sha raw \<or> h = tr_hash r
          \<or> loadAccountByTokenHash h (snd (RotateToken fault sha now random i (acc_id a) d)) = loadAccountByTokenHash h d)"
proof -
  obtain d' where rt: "RotateToken fault sha now random i (acc_id a) d = (Inr raw, d')" using assms(2) by (metis prod.collapse)
  then obtain r where r: "find_row tok_id i (db_tokens d) = Some r" "tok_account_id r = acc_id a"
    and d': "d' = d\<lparr>db_tokens := update_row tok_id i (replace_secret sha now raw) (db_tokens d)\<rparr>"
    by (auto simp: RotateToken_def Let_def run_tx_ok rbind_Inr_iff GetTokenByID_Inr split: if_splits)
  have ok': "store_ok d'" using RotateToken_ok [OF assms(1), of fault sha now random i "acc_id a"] rt by simp
  have own: "owner_account d' = Some a" using assms(3) by (simp add: d' owner_account_def)
  note rows = rotated_rows [OF assms(1) ok' r(1), of sha now raw]
  have ts: "db_tokens d' = update_row tok_id i (replace_secret sha now raw) (db_tokens d)" by (simp add: d')
  have ld: "loadAccountByTokenHash h d' = (case find_row tr_hash h (db_tokens d') of None \<Rightarrow> Inl NoRows
       | Some t \<Rightarrow> if tok_account_id t = acc_id a then Inr (a, account_token.truncate t) else Inl NoRows)" for h
    unfolding loadAccountByTokenHash_def find_hash own by (simp split: option.split)
  have new: "loadAccountByTokenHash (hashToken sha raw) d' = Inr (a, account_token.truncate (replace_secret sha now raw r))"
    unfolding ld rows(1) [OF ts] using r(2) by (simp add: replace_secret_def)
  have old: "loadAccountByTokenHash (tr_hash r) d' = Inl NoRows" if "tr_hash r \<noteq> hashToken sha raw"
    unfolding ld rows(2) [OF ts that] by simp
  have rest: "loadAccountByTokenHash h d' = loadAccountByTokenHash h d" if "h \<noteq> hashToken sha raw" "h \<noteq> tr_hash r" for h
    unfolding loadAccountByTokenHash_def find_hash rows(3) [OF ts that] own assms(3) ..
  show ?thesis unfolding rt snd_conv using r(1) new old rest by blast
qed

lemma sample_rotate: "\<exists>raw. fst (RotateToken False (\<lambda>s. s) 50 ''zz'' 5 1 (quota_db\<lparr>db_accounts := db_accounts account_db\<rparr>)) = Inr raw"
proof -
  have "hashToken (\<lambda>s. s) (generateAccessToken ''zz'') = h \<Longrightarrow> \<exists>raw. fst (RotateToken False (\<lambda>s. s) 50 ''zz'' 5 1 (quota_db\<lparr>db_accounts := db_accounts account_db\<rparr>)) = Inr raw" for h
    by (simp add: RotateToken_def Let_def run_tx_def GetTokenByID_def quota_db_def find_row_def sample_token_def is_standard_def)
  then show ?thesis by blast
qed

theorem rotate_replaces_secret_witness:
  "\<exists>raw. fst (RotateToken False (\<lambda>s. s) 50 ''zz'' 5 1 (quota_db\<lparr>db_accounts := db_accounts account_db\<rparr>)) = Inr raw
     \<and> (\<exists>t. loadAccountByTokenHash (hashToken (\<lambda>s. s) raw)
          (snd (RotateToken False (\<lambda>s. s) 50 ''zz'' 5 1 (quota_db\<lparr>db_accounts := db_accounts account_db\<rparr>))) = Inr (hd (db_accounts account_db), t))"
proof -
  let ?d = "quota_db\<lparr>db_accounts := db_accounts account_db\<rparr>"
  have ok: "store_ok ?d"
    by (simp add: quota_db_def sample_defs store_ok_def donations_ok_def tables_ok_def ledger_ok_def limits_ok_def limits_row_def
        is_donation_token_def usage_ok_def usage_sum_def hashes_ok_def keys_distinct_def)
  have own: "owner_account ?d = Some (hd (db_accounts account_db))" by (simp add: owner_account_def account_db_def)
  have one: "acc_id (hd (db_accounts account_db)) = 1" by (simp add: account_db_def)
  obtain raw where raw: "fst (RotateToken False (\<lambda>s. s) 50 ''zz'' 5 1 ?d) = Inr raw" using sample_rotate by blast
  show ?thesis using rotate_replaces_secret [OF ok _ own, of False "\<lambda>s. s" 50 "''zz''" 5 raw] raw unfolding one by blast
qed

end
