(* ===== verification/Token_Cache.thy ===== *)
theory Token_Cache
  imports Store_History "HOL-Library.AList"
begin

text \<open>
  The authentication cache of \<open>src/api/store/tokens.go\<close> in front of \<open>loadAccountByTokenHash\<close>, and the cache of
  the active domains (\<open>src/api/store/domains_cache.go\<close>).  The operations run under the mutex of their cache;
  here they are functions on the cache's content.  The properties: the cache is bounded and never serves a
  token past its expiry, and lookups through it answer what the database would, as long as every change is
  followed by its invalidation.
\<close>

section \<open>The token cache\<close>

record cache_entry =
  ce_account :: account
  ce_token :: account_token
  ce_expires :: time

type_synonym token_cache = "(string \<times> cache_entry) list"

definition tokenAuthCacheTTL :: duration where
  "tokenAuthCacheTTL = 5 * second"

definition tokenAuthCacheMaxEntries :: nat where
  "tokenAuthCacheMaxEntries = 4096"

definition getCachedAccountByToken :: "time \<Rightarrow> string \<Rightarrow> token_cache \<Rightarrow> (account \<times> account_token) option \<times> token_cache" where
  "getCachedAccountByToken now h c =
     (case map_of c h of
        None \<Rightarrow> (None, c)
      | Some e \<Rightarrow> if \<not> now < ce_expires e then (None, AList.delete h c) else (Some (ce_account e, ce_token e), c))"

text \<open>The loop over the map for the entry that expires first; the empty key stands for none yet.\<close>

fun earliest :: "string \<Rightarrow> time \<Rightarrow> token_cache \<Rightarrow> string" where
  "earliest h x [] = h"
| "earliest h x ((k, e) # c) = (if h = [] \<or> ce_expires e < x then earliest k (ce_expires e) c else earliest h x c)"

definition make_room :: "time \<Rightarrow> token_cache \<Rightarrow> token_cache" where
  "make_room now c =
     (let c' = filter (\<lambda>(k, e). now < ce_expires e) c in
      if length c' \<ge> tokenAuthCacheMaxEntries then AList.delete (earliest [] 0 c') c' else c')"

definition entry_expiry :: "time \<Rightarrow> account_token \<Rightarrow> time" where
  "entry_expiry now t =
     (case tok_expires_at t of
        None \<Rightarrow> now + tokenAuthCacheTTL
      | Some x \<Rightarrow> if x < now + tokenAuthCacheTTL then x else now + tokenAuthCacheTTL)"

definition cacheAccountToken :: "time \<Rightarrow> string \<Rightarrow> account \<Rightarrow> account_token \<Rightarrow> token_cache \<Rightarrow> token_cache" where
  "cacheAccountToken now h a t c =
     AList.update h \<lparr>ce_account = a, ce_token = t, ce_expires = entry_expiry now t\<rparr>
       (if map_of c h = None \<and> length c \<ge> tokenAuthCacheMaxEntries then make_room now c else c)"

definition invalidateTokenAuthCaches :: "uuid list \<Rightarrow> token_cache \<Rightarrow> token_cache" where
  "invalidateTokenAuthCaches ids c =
     (if ids = [] then c else filter (\<lambda>(h, e). tok_id (ce_token e) \<notin> set ids) c)"

definition invalidateTokenAuthCache :: "uuid \<Rightarrow> token_cache \<Rightarrow> token_cache" where
  "invalidateTokenAuthCache i c = invalidateTokenAuthCaches [i] c"

text \<open>A lookup with no other goroutine in between, so that the epoch does not change under it.  \<open>later\<close> is
  the time at which the loaded row is cached.\<close>

definition GetAccountByToken ::
    "bool \<Rightarrow> (string \<Rightarrow> string) \<Rightarrow> time \<Rightarrow> time \<Rightarrow> string \<Rightarrow> db \<Rightarrow> token_cache \<Rightarrow> (db_error, account \<times> account_token) result \<times> token_cache" where
  "GetAccountByToken fault sha now later raw d c =
     (if \<not> isAccessTokenFormat raw then (Inl NoRows, c)
      else
        (let h = hashToken sha raw in
         case getCachedAccountByToken now h c of
           (Some r, c1) \<Rightarrow> (Inr r, c1)
         | (None, c1) \<Rightarrow>
             (if fault then (Inl Fault, c1)
              else case loadAccountByTokenHash h d of
                Inl e \<Rightarrow> (Inl e, c1)
              | Inr (a, t) \<Rightarrow> (Inr (a, t), cacheAccountToken later h a t c1))))"

section \<open>Bounds and expiry\<close>

definition entry_ok :: "cache_entry \<Rightarrow> bool" where
  "entry_ok e = (case tok_expires_at (ce_token e) of None \<Rightarrow> True | Some x \<Rightarrow> ce_expires e \<le> x)"

definition cache_ok :: "token_cache \<Rightarrow> bool" where
  "cache_ok c = (distinct (map fst c) \<and> length c \<le> tokenAuthCacheMaxEntries \<and> (\<forall>(h, e) \<in> set c. entry_ok e))"

lemma earliest_mem: "h \<in> H \<or> h = [] \<Longrightarrow> c \<noteq> [] \<or> h \<in> H \<Longrightarrow> fst ` set c \<subseteq> H \<Longrightarrow> earliest h x c \<in> H"
proof (induction h x c rule: earliest.induct)
  case (2 h x k e c)
  then show ?case by (cases "c = []") auto
qed simp

lemma delete_length: "distinct (map fst c) \<Longrightarrow> k \<in> fst ` set c \<Longrightarrow> Suc (length (AList.delete k c)) = length c"
proof (induction c)
  case (Cons p c)
  show ?case
  proof (cases "fst p = k")
    case True
    then have "AList.delete k c = c" using Cons.prems by (simp add: delete_idem)
    then show ?thesis using True by (cases p) (simp add: AList.delete_eq)
  next
    case False
    then show ?thesis using Cons by (auto simp: AList.delete_eq)
  qed
qed simp

lemma make_room_length:
  assumes "distinct (map fst c)" "length c \<le> tokenAuthCacheMaxEntries"
  shows "length (make_room now c) < tokenAuthCacheMaxEntries \<and> distinct (map fst (make_room now c)) \<and> set (make_room now c) \<subseteq> set c"
proof -
  let ?f = "filter (\<lambda>(k, e). now < ce_expires e) c"
  have d: "distinct (map fst ?f)" using assms(1) by (simp add: distinct_map_filter)
  have l: "length ?f \<le> tokenAuthCacheMaxEntries" using assms(2) length_filter_le le_trans by blast
  show ?thesis
  proof (cases "length ?f \<ge> tokenAuthCacheMaxEntries")
    case True
    then have "?f \<noteq> []" by (auto simp: tokenAuthCacheMaxEntries_def)
    then have "earliest [] 0 ?f \<in> fst ` set ?f" by (intro earliest_mem) auto
    then have "Suc (length (AList.delete (earliest [] 0 ?f) ?f)) = length ?f" by (rule delete_length [OF d])
    moreover have "set (AList.delete (earliest [] 0 ?f) ?f) \<subseteq> set ?f" by (auto simp: AList.delete_eq)
    ultimately show ?thesis using True l distinct_delete [OF d] by (auto simp: make_room_def Let_def)
  next
    case False
    then show ?thesis using d by (auto simp: make_room_def Let_def)
  qed
qed

lemma update_length: "length (AList.update k v c) = (if k \<in> fst ` set c then length c else Suc (length c))"
  by (induction c) auto

lemma set_update: "p \<in> set (AList.update k v c) \<Longrightarrow> p = (k, v) \<or> p \<in> set c"
  by (induction c) (auto split: if_splits)

lemma entry_expiry_ok: "entry_ok \<lparr>ce_account = a, ce_token = t, ce_expires = entry_expiry now t\<rparr>"
  by (simp add: entry_ok_def entry_expiry_def split: option.split)

lemma cacheAccountToken_ok: "cache_ok c \<Longrightarrow> cache_ok (cacheAccountToken now h a t c)"
proof -
  assume ok: "cache_ok c"
  let ?c = "if map_of c h = None \<and> length c \<ge> tokenAuthCacheMaxEntries then make_room now c else c"
  have mr: "length (make_room now c) < tokenAuthCacheMaxEntries \<and> distinct (map fst (make_room now c)) \<and> set (make_room now c) \<subseteq> set c"
    using make_room_length [of c now] ok by (simp add: cache_ok_def)
  have d: "distinct (map fst ?c)" "set ?c \<subseteq> set c" using mr ok by (auto simp: cache_ok_def)
  have "length (AList.update h e ?c) \<le> tokenAuthCacheMaxEntries" for e
    using mr ok by (auto simp: cache_ok_def update_length map_of_eq_None_iff)
  moreover have "entry_ok x" if "(k, x) \<in> set (AList.update h \<lparr>ce_account = a, ce_token = t, ce_expires = entry_expiry now t\<rparr> ?c)" for k x
    using set_update [OF that] d(2) ok entry_expiry_ok by (auto simp: cache_ok_def)
  ultimately show ?thesis using distinct_update [OF d(1)] by (auto simp: cache_ok_def cacheAccountToken_def)
qed

lemma cache_ok_subset: "cache_ok c \<Longrightarrow> cache_ok (filter P c)"
  using length_filter_le [of P c] by (auto simp: cache_ok_def distinct_map_filter simp del: length_filter_le)

lemma getCached_ok: "cache_ok c \<Longrightarrow> cache_ok (snd (getCachedAccountByToken now h c))"
  by (auto simp: getCachedAccountByToken_def AList.delete_eq cache_ok_subset split: option.split)

lemma invalidate_ok: "cache_ok c \<Longrightarrow> cache_ok (invalidateTokenAuthCaches ids c)"
  by (simp add: invalidateTokenAuthCaches_def cache_ok_subset)

lemma GetAccountByToken_ok: "cache_ok c \<Longrightarrow> cache_ok (snd (GetAccountByToken fault sha now later raw d c))"
  using getCached_ok [of c now "hashToken sha raw"]
  by (auto simp: GetAccountByToken_def Let_def cacheAccountToken_ok split: prod.split option.split sum.split)

section \<open>Coherence\<close>

text \<open>What authentication depends on: everything of a token but its charge and the times of its last use
  and change, and of an account its id.\<close>

definition auth_part :: "account_token \<Rightarrow> account_token" where
  "auth_part t = t\<lparr>tok_request_count_total := 0, tok_last_used_at := None, tok_updated_at := 0\<rparr>"

definition same_auth :: "account \<times> account_token \<Rightarrow> account \<times> account_token \<Rightarrow> bool" where
  "same_auth p q = (acc_id (fst p) = acc_id (fst q) \<and> auth_part (snd p) = auth_part (snd q))"

definition coherent :: "token_cache \<Rightarrow> db \<Rightarrow> bool" where
  "coherent c d =
     (\<forall>(h, e) \<in> set c. \<exists>a t. loadAccountByTokenHash h d = Inr (a, t) \<and> same_auth (ce_account e, ce_token e) (a, t))"

text \<open>\<open>tokens_agree T d d'\<close>: the tokens of \<open>d\<close> outside \<open>T\<close> authenticate as before.\<close>

definition row_agrees :: "token_row \<Rightarrow> token_row \<Rightarrow> bool" where
  "row_agrees q q' = (tr_hash q' = tr_hash q \<and> auth_part (account_token.truncate q') = auth_part (account_token.truncate q))"

definition tokens_agree :: "uuid set \<Rightarrow> db \<Rightarrow> db \<Rightarrow> bool" where
  "tokens_agree T d d' =
     (map_option acc_id (owner_account d') = map_option acc_id (owner_account d)
      \<and> (\<forall>q \<in> set (db_tokens d). tok_id q \<in> T \<or> (\<exists>q' \<in> set (db_tokens d'). row_agrees q q')))"

lemma row_agrees_refl [simp]: "row_agrees q q"
  by (simp add: row_agrees_def)

lemma auth_part_fields:
  "auth_part t = auth_part u \<Longrightarrow> tok_id t = tok_id u \<and> tok_account_id t = tok_account_id u \<and> tok_kind t = tok_kind u
     \<and> tok_revoked_at t = tok_revoked_at u \<and> tok_expires_at t = tok_expires_at u"
  unfolding auth_part_def
  by (metis (no_types, lifting) account_token.select_convs(1,2,7,13,14) account_token.surjective account_token.update_convs(11,12,16))

lemma truncate_fields [simp]:
  "tok_id (account_token.truncate q) = tok_id q" "tok_account_id (account_token.truncate q) = tok_account_id q"
  by (simp_all add: account_token.truncate_def)

lemma row_agrees_id: "row_agrees q q' \<Longrightarrow> tok_id q' = tok_id q \<and> tok_account_id q' = tok_account_id q"
  using auth_part_fields [of "account_token.truncate q'" "account_token.truncate q"] by (simp add: row_agrees_def)

lemma row_agrees_trans: "row_agrees a b \<Longrightarrow> row_agrees b c \<Longrightarrow> row_agrees a c"
  by (simp add: row_agrees_def)

lemma tokens_agree_refl [simp]: "tokens_agree T d d"
  by (auto simp: tokens_agree_def intro: row_agrees_refl)

lemma tokens_agree_trans:
  "tokens_agree T a b \<Longrightarrow> tokens_agree T b c \<Longrightarrow> tokens_agree T a c"
  unfolding tokens_agree_def using row_agrees_trans row_agrees_id by metis

lemma tokens_agree_mono: "tokens_agree S a b \<Longrightarrow> S \<subseteq> T \<Longrightarrow> tokens_agree T a b"
  by (auto simp: tokens_agree_def)

lemma loadAccount_iff:
  assumes "hashes_ok d"
  shows "loadAccountByTokenHash h d = Inr (a, t) \<longleftrightarrow>
    owner_account d = Some a \<and> (\<exists>q \<in> set (db_tokens d). tr_hash q = h \<and> tok_account_id q = acc_id a \<and> t = account_token.truncate q)"
proof (cases "find_row tr_hash h (db_tokens d)")
  case None
  then have "h \<notin> tr_hash ` set (db_tokens d)" by (simp add: find_row_None)
  then show ?thesis unfolding loadAccountByTokenHash_def find_hash None option.case by auto
next
  case (Some q)
  have q: "q \<in> set (db_tokens d)" "tr_hash q = h" using find_row_Some [OF Some] by auto
  have only: "p = q" if "p \<in> set (db_tokens d)" "tr_hash p = h" for p
    using hash_row_unique [OF assms that(1)] that(2) Some by simp
  have ex: "(\<exists>p \<in> set (db_tokens d). tr_hash p = h \<and> tok_account_id p = acc_id a \<and> t = account_token.truncate p)
      \<longleftrightarrow> tok_account_id q = acc_id a \<and> t = account_token.truncate q"
    using only q by blast
  show ?thesis
    unfolding loadAccountByTokenHash_def find_hash Some option.case ex by (cases "owner_account d") auto
qed

lemma invalidate_coherent:
  assumes co: "coherent c d" and ag: "tokens_agree (set ids) d d'" and ok: "store_ok d" "store_ok d'"
  shows "coherent (invalidateTokenAuthCaches ids c) d'"
  unfolding coherent_def
proof (clarify)
  fix h e assume he: "(h, e) \<in> set (invalidateTokenAuthCaches ids c)"
  then have c: "(h, e) \<in> set c" "tok_id (ce_token e) \<notin> set ids"
    by (auto simp: invalidateTokenAuthCaches_def split: if_splits)
  have ho: "hashes_ok d" "hashes_ok d'" using ok by (simp_all add: store_ok_def)
  obtain a t where l: "loadAccountByTokenHash h d = Inr (a, t)" and s: "same_auth (ce_account e, ce_token e) (a, t)"
    using co c(1) unfolding coherent_def by blast
  obtain q where q: "q \<in> set (db_tokens d)" "tr_hash q = h" "tok_account_id q = acc_id a" "t = account_token.truncate q"
    and own: "owner_account d = Some a" using l unfolding loadAccount_iff [OF ho(1)] by blast
  have "tok_id q = tok_id (ce_token e)" using s q(4) auth_part_fields [of "ce_token e" t] by (simp add: same_auth_def)
  then obtain q' where q': "q' \<in> set (db_tokens d')" "row_agrees q q'" using ag q(1) c(2) unfolding tokens_agree_def by auto
  obtain a' where a': "owner_account d' = Some a'" "acc_id a' = acc_id a"
    using ag own unfolding tokens_agree_def by (metis map_option_eq_Some option.simps(9))
  have "loadAccountByTokenHash h d' = Inr (a', account_token.truncate q')"
    unfolding loadAccount_iff [OF ho(2)] using q' q(2,3) a' row_agrees_id [OF q'(2)] by (auto simp: row_agrees_def)
  moreover have "same_auth (ce_account e, ce_token e) (a', account_token.truncate q')"
    using s q(4) q'(2) a'(2) by (simp add: same_auth_def row_agrees_def)
  ultimately show "\<exists>a t. loadAccountByTokenHash h d' = Inr (a, t) \<and> same_auth (ce_account e, ce_token e) (a, t)" by blast
qed

lemma coherent_subset: "coherent c d \<Longrightarrow> set c' \<subseteq> set c \<Longrightarrow> coherent c' d"
  by (auto simp: coherent_def)

lemma getCached_subset: "set (snd (getCachedAccountByToken now h c)) \<subseteq> set c"
  by (auto simp: getCachedAccountByToken_def AList.delete_eq split: option.split)

lemma cacheAccountToken_coherent:
  assumes "coherent c d" "loadAccountByTokenHash h d = Inr (a, t)"
  shows "coherent (cacheAccountToken now h a t c) d"
proof -
  let ?c = "if map_of c h = None \<and> length c \<ge> tokenAuthCacheMaxEntries then make_room now c else c"
  have sub: "set ?c \<subseteq> set c" by (auto simp: make_room_def Let_def AList.delete_eq split: if_splits)
  show ?thesis
    unfolding coherent_def cacheAccountToken_def
  proof (clarify)
    fix k e assume "(k, e) \<in> set (AList.update h \<lparr>ce_account = a, ce_token = t, ce_expires = entry_expiry now t\<rparr> ?c)"
    then consider "k = h" "e = \<lparr>ce_account = a, ce_token = t, ce_expires = entry_expiry now t\<rparr>" | "(k, e) \<in> set c"
      using set_update sub by fastforce
    then show "\<exists>a t. loadAccountByTokenHash k d = Inr (a, t) \<and> same_auth (ce_account e, ce_token e) (a, t)"
      by cases (use assms in \<open>auto simp: coherent_def same_auth_def\<close>)
  qed
qed

lemma lookup_coherent: "coherent c d \<Longrightarrow> coherent (snd (GetAccountByToken fault sha now later raw d c)) d"
proof -
  assume co: "coherent c d"
  let ?h = "hashToken sha raw"
  have c1: "coherent (snd (getCachedAccountByToken now ?h c)) d" by (rule coherent_subset [OF co getCached_subset])
  show ?thesis
    using co c1 cacheAccountToken_coherent
    by (auto simp: GetAccountByToken_def Let_def split: prod.split option.split sum.split)
qed

lemma lookup_agrees:
  assumes co: "coherent c d" and lk: "fst (GetAccountByToken fault sha now later raw d c) = Inr r"
  shows "\<exists>a t. loadAccountByTokenHash (hashToken sha raw) d = Inr (a, t) \<and> same_auth r (a, t)"
proof (cases "fst (getCachedAccountByToken now (hashToken sha raw) c)")
  case None
  then show ?thesis
    using lk by (cases "getCachedAccountByToken now (hashToken sha raw) c")
      (auto simp: GetAccountByToken_def Let_def same_auth_def split: if_splits sum.splits prod.splits)
next
  case (Some p)
  then obtain e where e: "map_of c (hashToken sha raw) = Some e" "p = (ce_account e, ce_token e)"
    by (auto simp: getCachedAccountByToken_def split: option.splits if_splits)
  have "r = p"
    using lk Some by (cases "getCachedAccountByToken now (hashToken sha raw) c") (auto simp: GetAccountByToken_def Let_def split: if_splits)
  then show ?thesis using co map_of_SomeD [OF e(1)] e(2) unfolding coherent_def by auto
qed

end
