(* ===== verification/Access.thy ===== *)
theory Access
  imports Token_Cache
begin

text \<open>
  Who may call the API, and how often (\<open>src/api/middleware/auth.go\<close>, \<open>redis_counter.go\<close>, \<open>ratelimit.go\<close>).
  Redis is a map from keys to a counter and the time it expires at; each script runs atomically.  The
  clock is read once per request.  Response headers are a list in which a later value of a name replaces
  an earlier one.  The text of a UUID and of a date are library functions and parameters.
\<close>

section \<open>Counters\<close>

type_synonym redis = "string \<rightharpoonup> int \<times> time"

definition millisecond :: duration where
  "millisecond = 1000000"

text \<open>\<open>INCR\<close>, and \<open>PEXPIRE\<close> when the counter is new; \<open>ttl\<close> in milliseconds.\<close>

definition redis_incr :: "time \<Rightarrow> string \<Rightarrow> int \<Rightarrow> redis \<Rightarrow> int \<times> redis" where
  "redis_incr now key ttl r =
     (case r key of
        Some (n, e) \<Rightarrow> if now < e then (n + 1, r(key \<mapsto> (n + 1, e))) else (1, r(key \<mapsto> (1, now + ttl * millisecond)))
      | None \<Rightarrow> (1, r(key \<mapsto> (1, now + ttl * millisecond))))"

definition at_least_second :: "duration \<Rightarrow> duration" where
  "at_least_second ttl = (if ttl < second then second else ttl)"

definition incrementWithTTL :: "bool \<Rightarrow> time \<Rightarrow> string \<Rightarrow> duration \<Rightarrow> redis \<Rightarrow> int option \<times> redis" where
  "incrementWithTTL fault now key ttl r =
     (if fault then (None, r)
      else let (n, r') = redis_incr now key (at_least_second ttl div millisecond) r in (Some n, r'))"

record quota_counters =
  qc_minute :: int
  qc_daily :: int
  qc_rejected :: int

text \<open>The script of the two quota counters.\<close>

definition quota_script ::
    "time \<Rightarrow> bool \<Rightarrow> string \<Rightarrow> int \<Rightarrow> int \<Rightarrow> bool \<Rightarrow> string \<Rightarrow> int \<Rightarrow> int \<Rightarrow> redis \<Rightarrow> quota_counters \<times> redis" where
  "quota_script now minute_on minute_key minute_ttl per_minute daily_on daily_key daily_ttl per_day r =
     (let (m, r1) = (if minute_on then redis_incr now minute_key minute_ttl r else (-1, r)) in
      if minute_on \<and> m > per_minute then (\<lparr>qc_minute = m, qc_daily = -1, qc_rejected = 1\<rparr>, r1)
      else
        (let (n, r2) = (if daily_on then redis_incr now daily_key daily_ttl r1 else (-1, r1)) in
         if daily_on \<and> n > per_day then (\<lparr>qc_minute = m, qc_daily = n, qc_rejected = 2\<rparr>, r2)
         else (\<lparr>qc_minute = m, qc_daily = n, qc_rejected = 0\<rparr>, r2)))"

definition incrementQuotaCounters ::
    "bool \<Rightarrow> time \<Rightarrow> string \<Rightarrow> duration \<Rightarrow> int \<Rightarrow> string \<Rightarrow> duration \<Rightarrow> int \<Rightarrow> redis \<Rightarrow> quota_counters option \<times> redis" where
  "incrementQuotaCounters fault now minute_key minute_ttl per_minute daily_key daily_ttl per_day r =
     (let minute_on = (per_minute > 0 \<and> minute_key \<noteq> []); daily_on = (per_day > 0 \<and> daily_key \<noteq> []) in
      if \<not> minute_on \<and> \<not> daily_on then (Some \<lparr>qc_minute = -1, qc_daily = -1, qc_rejected = 0\<rparr>, r)
      else if fault then (None, r)
      else
        (let (q, r') = quota_script now minute_on minute_key (at_least_second minute_ttl div millisecond) per_minute
                         daily_on daily_key (at_least_second daily_ttl div millisecond) per_day r in
         (Some q, r')))"

section \<open>Headers\<close>

record quota_state =
  qs_minute_remaining :: int
  qs_minute_reset :: time
  qs_daily_remaining :: int
  qs_daily_reset :: time
  qs_total_remaining :: int

type_synonym headers = "(string \<times> string) list"

definition set_header :: "string \<Rightarrow> string \<Rightarrow> headers \<Rightarrow> headers" where
  "set_header name value hs = AList.update name value hs"

text \<open>\<open>int64(d.Seconds() + 0.999)\<close> and \<open>time.Unix()\<close>.\<close>

definition ceil_seconds :: "duration \<Rightarrow> int" where
  "ceil_seconds d = (d + 999 * millisecond) div second"

definition unix :: "time \<Rightarrow> int" where
  "unix t = t div second"

definition minute_headers :: "account_token \<Rightarrow> quota_state \<Rightarrow> time \<Rightarrow> headers \<Rightarrow> headers" where
  "minute_headers tok s now hs =
     (if tok_rate_limit_per_minute tok > 0 then
        (let limit = itoa (tok_rate_limit_per_minute tok); left = itoa (max 0 (qs_minute_remaining s));
             reset = itoa (unix (qs_minute_reset s)) in
         set_header ''X-RateLimit-Reset'' reset
           (set_header ''X-RateLimit-Remaining'' left
             (set_header ''X-RateLimit-Limit'' limit
               (set_header ''X-RateLimit-Minute-Reset'' reset
                 (set_header ''X-RateLimit-Minute-Remaining'' left
                   (set_header ''X-RateLimit-Minute-Limit'' limit
                     (set_header ''RateLimit-Reset'' (itoa (max 1 (ceil_seconds (qs_minute_reset s - now))))
                       (set_header ''RateLimit-Remaining'' left (set_header ''RateLimit-Limit'' limit hs)))))))))
      else hs)"

definition daily_headers :: "account_token \<Rightarrow> quota_state \<Rightarrow> headers \<Rightarrow> headers" where
  "daily_headers tok s hs =
     (if tok_daily_request_limit tok > 0 then
        (let left = itoa (max 0 (qs_daily_remaining s)) in
         set_header ''X-Token-Daily-Remaining'' left
           (set_header ''X-RateLimit-Daily-Reset'' (itoa (unix (qs_daily_reset s)))
             (set_header ''X-RateLimit-Daily-Remaining'' left
               (set_header ''X-RateLimit-Daily-Limit'' (itoa (tok_daily_request_limit tok)) hs))))
      else hs)"

definition total_headers :: "account_token \<Rightarrow> quota_state \<Rightarrow> headers \<Rightarrow> headers" where
  "total_headers tok s hs =
     (if tok_total_request_limit tok > 0 then
        (let left = itoa (max 0 (qs_total_remaining s)) in
         set_header ''X-Token-Total-Remaining'' left
           (set_header ''X-RateLimit-Total-Remaining'' left
             (set_header ''X-RateLimit-Total-Limit'' (itoa (tok_total_request_limit tok)) hs)))
      else hs)"

definition rate_policy :: "account_token \<Rightarrow> quota_state \<Rightarrow> time \<Rightarrow> string list" where
  "rate_policy tok s now =
     (if tok_rate_limit_per_minute tok > 0 then [itoa (tok_rate_limit_per_minute tok) @ '';w=60''] else [])
     @ (if tok_daily_request_limit tok > 0
        then [itoa (tok_daily_request_limit tok) @ '';w='' @ itoa (max 1 (ceil_seconds (qs_daily_reset s - now)))] else [])"

definition setTokenQuotaHeaders :: "account_token \<Rightarrow> quota_state \<Rightarrow> time \<Rightarrow> headers \<Rightarrow> headers" where
  "setTokenQuotaHeaders tok s now hs =
     (let hs' = total_headers tok s (daily_headers tok s (minute_headers tok s now hs)); policy = rate_policy tok s now in
      if policy \<noteq> [] then set_header ''RateLimit-Policy'' (join_with '', '' policy) hs' else hs')"

section \<open>Authentication\<close>

record request_context =
  cx_account :: account
  cx_token :: account_token
  cx_mode :: string
  cx_deferred :: bool

text \<open>A middleware either aborts with a status and an error text, or calls the next handler with a
  context.\<close>

datatype verdict = Abort int string | Next request_context

definition AdminAuth :: "bool \<Rightarrow> string \<Rightarrow> db \<Rightarrow> verdict \<times> headers" where
  "AdminAuth fault header d =
     (let raw = trim_space header in
      if raw = [] then (Abort 401 ''missing admin console key'', [])
      else case GetAccountByAdminAuthKey fault raw d of
        Inl _ \<Rightarrow> (Abort 401 ''invalid admin console key'', [])
      | Inr (a, t) \<Rightarrow>
          (Next \<lparr>cx_account = a, cx_token = t, cx_mode = ''admin_console'', cx_deferred = False\<rparr>,
           set_header ''X-Auth-Mode'' ''admin_console'' []))"

definition bearer :: "string \<Rightarrow> string option" where
  "bearer header =
     (let raw = trim_space header in
      if length raw < 7 \<or> \<not> equal_fold_ascii (take 7 raw) ''Bearer '' then None else Some (trim_space (drop 7 raw)))"

record world =
  w_db :: db
  w_cache :: token_cache
  w_redis :: redis

record access_libs =
  al_sha :: "string \<Rightarrow> string"
  al_uuid :: "uuid \<Rightarrow> string"
  al_date :: "int \<Rightarrow> string"

text \<open>What may fail: the two statements of the database and the script of Redis.\<close>

record faults =
  ft_load :: bool
  ft_redis :: bool
  ft_count :: bool

definition minute :: duration where
  "minute = 60 * second"

definition day :: duration where
  "day = 24 * 60 * minute"

definition shanghai :: duration where
  "shanghai = 8 * 60 * minute"

definition next_minute :: "time \<Rightarrow> time" where
  "next_minute now = (now div minute) * minute + minute"

definition local_day :: "time \<Rightarrow> int" where
  "local_day now = (now + shanghai) div day"

definition next_midnight :: "time \<Rightarrow> time" where
  "next_midnight now = (local_day now + 1) * day - shanghai"

definition minute_key :: "access_libs \<Rightarrow> account_token \<Rightarrow> time \<Rightarrow> string" where
  "minute_key l tok now =
     (if tok_rate_limit_per_minute tok > 0
      then ''tok:min:'' @ al_uuid l (tok_id tok) @ '':'' @ itoa (unix now div 60) else [])"

definition daily_key :: "access_libs \<Rightarrow> account_token \<Rightarrow> time \<Rightarrow> string" where
  "daily_key l tok now =
     (if tok_daily_request_limit tok > 0
      then ''tok:day:'' @ al_uuid l (tok_id tok) @ '':'' @ al_date l (local_day now) else [])"

text \<open>The checks of the token before any counter is touched.\<close>

definition token_refused :: "time \<Rightarrow> account_token \<Rightarrow> (int \<times> string) option" where
  "token_refused now tok =
     (if tok_revoked_at tok \<noteq> None then Some (401, ''API access token revoked'')
      else if (case tok_expires_at tok of None \<Rightarrow> False | Some e \<Rightarrow> e < now) then Some (401, ''API access token expired'')
      else if tok_kind tok = ''donation'' \<and> (tok_total_request_limit tok \<le> 0 \<or> tok_rate_limit_per_minute tok \<le> 0)
      then Some (429, ''donation reward is not active'')
      else None)"

definition first_quota :: "time \<Rightarrow> account_token \<Rightarrow> quota_state" where
  "first_quota now tok =
     \<lparr>qs_minute_remaining = tok_rate_limit_per_minute tok, qs_minute_reset = next_minute now,
      qs_daily_remaining = tok_daily_request_limit tok, qs_daily_reset = next_midnight now,
      qs_total_remaining = max 0 (wrap64 (tok_total_request_limit tok - tok_request_count_total tok))\<rparr>"

definition counted_quota :: "account_token \<Rightarrow> quota_counters \<Rightarrow> quota_state \<Rightarrow> quota_state" where
  "counted_quota tok q s =
     s\<lparr>qs_minute_remaining := (if qc_minute q \<ge> 0 then tok_rate_limit_per_minute tok - qc_minute q else qs_minute_remaining s),
       qs_daily_remaining := (if qc_daily q \<ge> 0 then tok_daily_request_limit tok - qc_daily q else qs_daily_remaining s)\<rparr>"

definition api_headers :: "account_token \<Rightarrow> headers \<Rightarrow> headers" where
  "api_headers tok hs = set_header ''X-Auth-Mode'' ''api_token'' (set_header ''X-Token-Scope'' (tok_scope tok) hs)"

definition retry_after :: "time \<Rightarrow> time \<Rightarrow> headers \<Rightarrow> headers" where
  "retry_after reset now hs = set_header ''Retry-After'' (itoa (max 1 (ceil_seconds (reset - now)))) hs"

text \<open>The charge against the total limit, and the context of the next handler.\<close>

definition charge_total ::
    "faults \<Rightarrow> time \<Rightarrow> account \<Rightarrow> account_token \<Rightarrow> quota_state \<Rightarrow> headers \<Rightarrow> world \<Rightarrow> verdict \<times> headers \<times> world" where
  "charge_total f now a tok s hs w =
     (if tok_total_request_limit tok > 0 then
        (case IncrementTokenUsageIfAllowed (ft_count f) now (tok_id tok) (w_db w) of
           (Inl TokenLimit, d) \<Rightarrow>
             (Abort 429 ''total request limit exceeded'', setTokenQuotaHeaders tok (s\<lparr>qs_total_remaining := 0\<rparr>) now hs, w\<lparr>w_db := d\<rparr>)
         | (Inl _, d) \<Rightarrow> (Abort 500 [], hs, w\<lparr>w_db := d\<rparr>)
         | (Inr (used, limit), d) \<Rightarrow>
             (let tok' = tok\<lparr>tok_request_count_total := used, tok_last_used_at := Some now\<rparr> in
              (Next \<lparr>cx_account = a, cx_token = tok', cx_mode = ''api_token'', cx_deferred = False\<rparr>,
               api_headers tok' (setTokenQuotaHeaders tok' (s\<lparr>qs_total_remaining := max 0 (wrap64 (limit - used))\<rparr>) now hs),
               w\<lparr>w_db := d\<rparr>)))
      else
        (let used = tok_request_count_total tok; limit = tok_total_request_limit tok;
             tok' = tok\<lparr>tok_request_count_total := wrap64 (used + 1), tok_last_used_at := Some now\<rparr> in
         (Next \<lparr>cx_account = a, cx_token = tok', cx_mode = ''api_token'', cx_deferred = True\<rparr>,
          api_headers tok' (setTokenQuotaHeaders tok' (s\<lparr>qs_total_remaining := max 0 (wrap64 (limit - used))\<rparr>) now hs), w)))"

definition check_quota ::
    "access_libs \<Rightarrow> faults \<Rightarrow> time \<Rightarrow> account \<Rightarrow> account_token \<Rightarrow> world \<Rightarrow> verdict \<times> headers \<times> world" where
  "check_quota l f now a tok w =
     (let s0 = first_quota now tok; hs0 = setTokenQuotaHeaders tok s0 now [] in
      case incrementQuotaCounters (ft_redis f) now
             (minute_key l tok now) (2 * minute) (tok_rate_limit_per_minute tok)
             (daily_key l tok now) (next_midnight now + 5 * minute - now) (tok_daily_request_limit tok) (w_redis w) of
        (None, r) \<Rightarrow> (Abort 503 ''rate limiter unavailable'', hs0, w\<lparr>w_redis := r\<rparr>)
      | (Some q, r) \<Rightarrow>
          (let s = counted_quota tok q s0; hs = setTokenQuotaHeaders tok s now hs0; w' = w\<lparr>w_redis := r\<rparr> in
           if qc_rejected q = 1 then (Abort 429 ''rate limit exceeded'', retry_after (next_minute now) now hs, w')
           else if qc_rejected q = 2 then (Abort 429 ''daily request limit exceeded'', retry_after (next_midnight now) now hs, w')
           else charge_total f now a tok s hs w'))"

definition APIAuth :: "access_libs \<Rightarrow> faults \<Rightarrow> time \<Rightarrow> string \<Rightarrow> world \<Rightarrow> verdict \<times> headers \<times> world" where
  "APIAuth l f now header w =
     (let raw = (case bearer header of None \<Rightarrow> [] | Some s \<Rightarrow> s) in
      if raw = [] then (Abort 401 ''missing API access token'', [], w)
      else case GetAccountByToken (ft_load f) (al_sha l) now now raw (w_db w) (w_cache w) of
        (Inl _, c) \<Rightarrow> (Abort 401 ''invalid API access token'', [], w\<lparr>w_cache := c\<rparr>)
      | (Inr (a, tok), c) \<Rightarrow>
          (case token_refused now tok of
             Some (status, text) \<Rightarrow> (Abort status text, [], w\<lparr>w_cache := c\<rparr>)
           | None \<Rightarrow> check_quota l f now a tok (w\<lparr>w_cache := c\<rparr>)))"

definition DonationAuth :: "access_libs \<Rightarrow> faults \<Rightarrow> time \<Rightarrow> string \<Rightarrow> world \<Rightarrow> verdict \<times> world" where
  "DonationAuth l f now header w =
     (case bearer header of
        None \<Rightarrow> (Abort 401 ''missing donation API token'', w)
      | Some raw \<Rightarrow>
          (case GetAccountByToken (ft_load f) (al_sha l) now now raw (w_db w) (w_cache w) of
             (Inl _, c) \<Rightarrow> (Abort 401 ''invalid donation API token'', w\<lparr>w_cache := c\<rparr>)
           | (Inr (a, tok), c) \<Rightarrow>
               (if tok_kind tok \<noteq> ''donation'' \<or> tok_revoked_at tok \<noteq> None
                then Abort 401 ''invalid donation API token''
                else if (case tok_expires_at tok of None \<Rightarrow> False | Some e \<Rightarrow> \<not> e > now)
                then Abort 401 ''donation API token expired''
                else Next \<lparr>cx_account = a, cx_token = tok, cx_mode = ''donation_token'', cx_deferred = False\<rparr>,
                w\<lparr>w_cache := c\<rparr>)))"

definition AdminOnly :: "request_context option \<Rightarrow> verdict option" where
  "AdminOnly cx =
     (case cx of
        None \<Rightarrow> Some (Abort 403 ''admin console auth key required'')
      | Some x \<Rightarrow>
          if \<not> acc_is_admin (cx_account x) \<or> tok_scope (cx_token x) \<noteq> ''owner'' \<or> cx_mode x \<noteq> ''admin_console''
          then Some (Abort 403 ''admin console auth key required'') else None)"

definition RequireAnyScope :: "(nat \<Rightarrow> nat) \<Rightarrow> string list \<Rightarrow> request_context option \<Rightarrow> verdict option" where
  "RequireAnyScope lo scopes cx =
     (case cx of
        None \<Rightarrow> Some (Abort 401 ''missing token context'')
      | Some x \<Rightarrow>
          if tok_scope (cx_token x) \<notin> set (map (\<lambda>s. to_lower lo (trim_space s)) scopes)
          then Some (Abort 403 ''insufficient token scope'') else None)"

section \<open>The limiter of the public endpoints\<close>

definition fixedWindowKey :: "access_libs \<Rightarrow> string \<Rightarrow> string \<Rightarrow> time \<Rightarrow> int \<Rightarrow> string" where
  "fixedWindowKey l path identity now window =
     ''rl:'' @ path @ '':'' @ hex_encode (al_sha l identity) @ '':'' @ itoa (unix now div window)"

definition limit_headers :: "int \<Rightarrow> int \<Rightarrow> time \<Rightarrow> headers" where
  "limit_headers limit count reset =
     set_header ''X-RateLimit-Reset'' (itoa (unix reset))
       (set_header ''X-RateLimit-Remaining'' (itoa (max 0 (limit - count))) (set_header ''X-RateLimit-Limit'' (itoa limit) []))"

definition RateLimit ::
    "access_libs \<Rightarrow> bool \<Rightarrow> int \<Rightarrow> int \<Rightarrow> time \<Rightarrow> string \<Rightarrow> string \<Rightarrow> string \<Rightarrow> redis \<Rightarrow> (int \<times> string) option \<times> headers \<times> redis" where
  "RateLimit l fault limit window now path authorization ip r =
     (let identity = (if authorization = [] then ip else authorization) in
      case incrementWithTTL fault now (fixedWindowKey l path identity now window) (window * second * 2) r of
        (None, r') \<Rightarrow> (Some (503, ''rate limiter unavailable''), [], r')
      | (Some count, r') \<Rightarrow>
          (if count > limit then Some (429, ''rate limit exceeded'') else None,
           limit_headers limit count (now + window * second), r'))"

end
