(* ===== verification/Cache_Refinement.thy ===== *)
theory Cache_Refinement
  imports Token_Cache
begin

text \<open>
  The store with its authentication cache.  Every operation on donations and tokens is followed by the
  invalidation the code makes (\<open>touched\<close> are the tokens it names); the cached lookup then refines the
  direct one: whatever operations and lookups follow each other, a lookup answers what the database says
  about the secret, up to the counters of the token.
\<close>

section \<open>What the operations invalidate\<close>

definition on_success :: "('e, 'a) result \<Rightarrow> ('a \<Rightarrow> uuid list) \<Rightarrow> uuid list" where
  "on_success r ids = (case r of Inl _ \<Rightarrow> [] | Inr x \<Rightarrow> ids x)"

fun touched_donation :: "libs \<Rightarrow> bool \<Rightarrow> time \<Rightarrow> donation_op \<Rightarrow> db \<Rightarrow> uuid list" where
  "touched_donation l fault now (Create fr name sub ex) d = []"
| "touched_donation l fault now (Verify i v) d = on_success (fst (ApplyDonationVerification fault now i v d)) (\<lambda>t. [t])"
| "touched_donation l fault now (Revoke i n) d = on_success (fst (SetDonationRevoked fault now i True n d)) (\<lambda>t. [t])"
| "touched_donation l fault now (Restore i) d = on_success (fst (SetDonationRevoked fault now i False [] d)) (\<lambda>t. [t])"
| "touched_donation l fault now (Adjust t a b c n) d = on_success (fst (AdjustDonationToken fault now t a b c n d)) (\<lambda>t. [t])"
| "touched_donation l fault now (Policy n) d = on_success (fst (ApplyDonationPolicyToExisting fault (lib_uuid l) now n d)) (\<lambda>ts. ts)"

fun touched_token :: "libs \<Rightarrow> bool \<Rightarrow> time \<Rightarrow> token_op \<Rightarrow> db \<Rightarrow> uuid list" where
  "touched_token l fault now (Update_Token i acc q) d = on_success (fst (UpdateToken fault (lib_lower l) now i acc q d)) (\<lambda>_. [i])"
| "touched_token l fault now (Rotate_Token random i acc) d = on_success (fst (RotateToken fault (lib_sha l) now random i acc d)) (\<lambda>_. [i])"
| "touched_token l fault now (Disable_Token i acc) d = on_success (fst (DisableToken fault now i acc d)) (\<lambda>_. [i])"
| "touched_token l fault now (Enable_Token i acc) d = on_success (fst (EnableToken fault now i acc d)) (\<lambda>_. [i])"
| "touched_token l fault now (Delete_Token i acc) d = on_success (fst (DeleteToken fault i acc d)) (\<lambda>_. [i])"
| "touched_token l fault now op d = []"

fun touched :: "libs \<Rightarrow> bool \<Rightarrow> time \<Rightarrow> store_op \<Rightarrow> db \<Rightarrow> uuid list" where
  "touched l fault now (Donation op) d = touched_donation l fault now op d"
| "touched l fault now (Token op) d = touched_token l fault now op d"

section \<open>They name enough\<close>

lemma same_tokens_agree: "db_tokens d' = db_tokens d \<Longrightarrow> db_accounts d' = db_accounts d \<Longrightarrow> tokens_agree T d d'"
  by (auto simp: tokens_agree_def owner_account_def intro: row_agrees_refl)

lemma owner_same: "db_accounts d' = db_accounts d \<Longrightarrow> owner_account d' = owner_account d"
  by (simp add: owner_account_def)

lemma agree_update:
  assumes "db_tokens d' = update_row tok_id i f (db_tokens d)" "db_accounts d' = db_accounts d"
    "i \<in> T \<or> (\<forall>q. row_agrees q (f q))"
  shows "tokens_agree T d d'"
  unfolding tokens_agree_def owner_same [OF assms(2)] assms(1)
proof (intro conjI ballI)
  fix q assume q: "q \<in> set (db_tokens d)"
  show "tok_id q \<in> T \<or> (\<exists>q' \<in> set (update_row tok_id i f (db_tokens d)). row_agrees q q')"
  proof (cases "tok_id q = i")
    case True
    then have "f q \<in> set (update_row tok_id i f (db_tokens d))" using q by (auto simp: mem_update_row)
    then show ?thesis using assms(3) True by blast
  next
    case False
    then have "q \<in> set (update_row tok_id i f (db_tokens d))" using q by (simp add: mem_update_row)
    then show ?thesis using row_agrees_refl by blast
  qed
qed simp

lemma agree_subset:
  assumes "\<And>q. q \<in> set (db_tokens d) \<Longrightarrow> tok_id q \<in> T \<or> q \<in> set (db_tokens d')" "db_accounts d' = db_accounts d"
  shows "tokens_agree T d d'"
  unfolding tokens_agree_def owner_same [OF assms(2)] using assms(1) row_agrees_refl by blast

lemma agree_append: "db_tokens d' = db_tokens d @ [t] \<Longrightarrow> db_accounts d' = db_accounts d \<Longrightarrow> tokens_agree T d d'"
  by (rule agree_subset) simp_all

lemma agree_delete: "db_tokens d' = delete_row tok_id i (db_tokens d) \<Longrightarrow> db_accounts d' = db_accounts d \<Longrightarrow> tokens_agree {i} d d'"
  by (rule agree_subset) (auto simp: delete_row_def)

lemma recalc_agree: "recalculateLocked now t d = Inr d' \<Longrightarrow> t \<in> T \<Longrightarrow> tokens_agree T d d'"
  by (auto simp: recalculateLocked_def Let_def split: if_splits intro!: agree_update)

lemma event_agree: "insert_event now t i kind a b c n d = Inr d' \<Longrightarrow> tokens_agree T d d'"
  by (rule same_tokens_agree) (auto simp: insert_event_Inr)

lemma update_accounts [simp]:
  "db_accounts (update_donation i f d) = db_accounts d" "db_accounts (update_domain k g d) = db_accounts d"
  by (simp_all add: update_donation_def update_domain_def)

lemma insert_event_tokens: "insert_event now t i kind a b c n d = Inr d' \<Longrightarrow> db_tokens d' = db_tokens d \<and> db_accounts d' = db_accounts d"
  by (auto simp: insert_event_Inr)

lemma verify_agree: "verify_row now v r d = Inr d' \<Longrightarrow> tokens_agree T d d'"
  by (rule same_tokens_agree) (auto simp: verify_row_def Let_def dest!: insert_event_tokens split: if_splits)

lemma verification_agree: "verification_tx now i v d = Inr (t, d') \<Longrightarrow> tokens_agree {t} d d'"
proof -
  assume "verification_tx now i v d = Inr (t, d')"
  then have "\<exists>r d1. verify_row now v r d = Inr d1 \<and> recalculateLocked now t d1 = Inr d'"
    by (auto simp: verification_tx_def rbind_Inr_iff)
  then obtain r d1 where d1: "verify_row now v r d = Inr d1" and rc: "recalculateLocked now t d1 = Inr d'" by blast
  show ?thesis by (rule tokens_agree_trans [OF verify_agree [OF d1] recalc_agree [OF rc]]) simp
qed

lemma restore_agree: "restore_tx now i d = Inr (t, d') \<Longrightarrow> tokens_agree {t} d d'"
proof -
  assume "restore_tx now i d = Inr (t, d')"
  then have "\<exists>r :: donation_row. recalculateLocked now t (update_domain (don_domain_id r) (disable_domain now) (update_donation i (mark_restored now) d)) = Inr d'"
    by (auto simp: restore_tx_def rbind_Inr_iff)
  then obtain r :: donation_row where rc: "recalculateLocked now t (update_domain (don_domain_id r) (disable_domain now) (update_donation i (mark_restored now) d)) = Inr d'"
    by blast
  show ?thesis
    by (rule tokens_agree_trans [OF same_tokens_agree recalc_agree [OF rc]]) simp_all
qed

lemma revoke_agree: "revoke_tx now i n d = Inr (t, d') \<Longrightarrow> tokens_agree {t} d d'"
proof -
  assume "revoke_tx now i n d = Inr (t, d')"
  then have "\<exists>d2. db_tokens d2 = db_tokens d \<and> db_accounts d2 = db_accounts d \<and> recalculateLocked now t d2 = Inr d'"
    by (auto simp: revoke_tx_def Let_def rbind_Inr_iff dest!: insert_event_tokens split: if_splits)
      (rule exI, rule conjI [OF _ conjI], auto)+
  then obtain d2 where d2: "db_tokens d2 = db_tokens d" "db_accounts d2 = db_accounts d" and rc: "recalculateLocked now t d2 = Inr d'"
    by blast
  show ?thesis by (rule tokens_agree_trans [OF same_tokens_agree [OF d2] recalc_agree [OF rc]]) simp
qed

lemma adjust_agree: "adjust_tx now u a b c n d = Inr (t, d') \<Longrightarrow> tokens_agree {t} d d'"
proof -
  assume "adjust_tx now u a b c n d = Inr (t, d')"
  then obtain d1 where d1: "insert_event now u None ''manual_adjust'' a b c (trim_space n) d = Inr d1"
    and rc: "recalculateLocked now u d1 = Inr d'" and t: "t = u"
    by (auto simp: adjust_tx_def rbind_Inr_iff)
  show ?thesis unfolding t by (rule tokens_agree_trans [OF event_agree [OF d1] recalc_agree [OF rc]]) simp
qed

lemma each_agree:
  assumes "each f xs d = Inr d'" "\<And>x a b. x \<in> set xs \<Longrightarrow> f x a = Inr b \<Longrightarrow> tokens_agree T a b"
  shows "tokens_agree T d d'"
  by (rule each_invariant [where P = "tokens_agree T d", OF assms(1) tokens_agree_refl]) (rule tokens_agree_trans, use assms(2) in auto)

lemma policy_row_agree: "policy_row now n pol r d = Inr d' \<Longrightarrow> tokens_agree T d d'"
  by (rule same_tokens_agree) (auto simp: policy_row_def dest!: insert_event_tokens split: if_splits)

lemma policy_agree: "policy_tx us now n d = Inr (ts, d') \<Longrightarrow> tokens_agree (set ts) d d'"
proof -
  assume px: "policy_tx us now n d = Inr (ts, d')"
  obtain d0 pol grants d1 where s: "each lock_each ts d = Inr d0" "each (policy_row now n pol) grants d0 = Inr d1"
      "each (recalculateLocked now) ts d1 = Inr d'"
    using px by (auto simp: policy_tx_def Let_def rbind_Inr_iff)
  have "d0 = d" by (rule lock_each_same [OF s(1)])
  moreover have "tokens_agree (set ts) d0 d1" by (rule each_agree [OF s(2)]) (rule policy_row_agree)
  moreover have "tokens_agree (set ts) d1 d'" by (rule each_agree [OF s(3)]) (rule recalc_agree)
  ultimately show ?thesis using tokens_agree_trans by blast
qed

lemma create_agree:
  assumes "create_tx sha now fr pol name sub ex d = Inr (x, d')" shows "tokens_agree {} d d'"
proof -
  obtain t raw d1 k d2 d3 where st: "donation_token sha now fr ex d = Inr (t, raw, d1)"
      "donation_domain now fr name d1 = Inr (k, d2)" "insert_donation (new_donation sha now pol fr t k sub) d2 = Inr d3"
      "d' = update_domain k mark_donated d3"
    using create_tx_steps [OF assms] by blast
  have "tokens_agree {} d d1" using donation_token_cases [OF st(1)]
    by (elim disjE exE conjE) (simp, rule agree_append, simp_all)
  moreover have "db_tokens d' = db_tokens d1" "db_accounts d' = db_accounts d1"
    using st(2-4) by (auto simp: donation_domain_def insert_donation_def split: option.splits if_splits)
  ultimately show ?thesis using tokens_agree_trans same_tokens_agree by blast
qed

lemma run_tx_agree:
  "(\<And>x d'. m d = Inr (x, d') \<Longrightarrow> tokens_agree (set (ids x)) d d') \<Longrightarrow>
   tokens_agree (set (on_success (fst (run_tx fault m d)) ids)) d (snd (run_tx fault m d))"
  by (auto simp: run_tx_def on_success_def split: sum.splits)

lemma run_tx_agree_all:
  "(\<And>x d'. m d = Inr (x, d') \<Longrightarrow> tokens_agree T d d') \<Longrightarrow> tokens_agree T d (snd (run_tx fault m d))"
  by (auto simp: run_tx_def split: sum.splits)

lemma donation_agree:
  "tokens_agree (set (touched_donation l fault now op d)) d (snd (perform l fault now op d))"
proof (cases op)
  case (Create fr name sub ex)
  have "tokens_agree {} d (snd (CreateDonationRequest fault (lib_lower l) (lib_sha l) now fr name sub ex d))"
  proof (cases "to_lower (lib_lower l) (trim_cut ''.'' (trim_space name)) = []")
    case False
    show ?thesis
      unfolding CreateDonationRequest_def Let_def if_not_P [OF False] by (rule run_tx_agree_all) (rule create_agree)
  qed (simp add: CreateDonationRequest_def)
  then show ?thesis by (simp add: Create snd_result)
next
  case (Adjust t a b c n)
  have "tokens_agree (set (on_success (fst (run_tx fault (adjust_tx now t a b c n) d)) (\<lambda>t. [t]))) d (snd (run_tx fault (adjust_tx now t a b c n) d))"
    by (rule run_tx_agree) (simp add: adjust_agree)
  then show ?thesis by (simp add: Adjust snd_result AdjustDonationToken_def on_success_def)
next
  case (Verify i v)
  show ?thesis unfolding Verify perform.simps touched_donation.simps snd_result ApplyDonationVerification_def
    by (rule run_tx_agree) (simp add: verification_agree)
next
  case (Revoke i n)
  show ?thesis unfolding Revoke perform.simps touched_donation.simps snd_result SetDonationRevoked_def
    by (rule run_tx_agree) (simp add: revoke_agree)
next
  case (Restore i)
  show ?thesis unfolding Restore perform.simps touched_donation.simps snd_result SetDonationRevoked_def
    by (rule run_tx_agree) (simp add: restore_agree)
next
  case (Policy n)
  show ?thesis unfolding Policy perform.simps touched_donation.simps snd_result ApplyDonationPolicyToExisting_def
    by (rule run_tx_agree) (simp add: policy_agree)
qed

section \<open>Token operations\<close>

lemma count_request_agrees: "row_agrees q (count_request now q)"
  by (simp add: row_agrees_def auth_part_def account_token.truncate_def count_request_def)

lemma record_agree: "tokens_agree T d (record_request now r d)"
  by (rule agree_update [of _ "tok_id r" "count_request now"]) (simp_all add: record_request_def count_request_agrees)

lemma first_account_map:
  "(\<And>a. acc_created_at (f a) = acc_created_at a \<and> acc_id (f a) = acc_id a) \<Longrightarrow>
   first_account (map f as) = map_option f (first_account as)"
  by (induction as) (auto simp: earlier_def split: option.split)

lemma store_api_key_agree: "store_api_key now acc key d = Inr d' \<Longrightarrow> tokens_agree T d d'"
proof -
  assume s: "store_api_key now acc key d = Inr d'"
  let ?f = "\<lambda>a. if acc_id a = acc then set_api_key now key a else a"
  have ac: "db_accounts d' = map ?f (db_accounts d)" and ts: "db_tokens d' = db_tokens d"
    using s by (auto simp: store_api_key_def update_row_def split: option.splits if_splits)
  have fl: "filter (\<lambda>a. acc_is_admin a \<and> acc_is_active a) (map ?f as) = map ?f (filter (\<lambda>a. acc_is_admin a \<and> acc_is_active a) as)" for as
    by (induction as) (auto simp: set_api_key_def)
  have "owner_account d' = map_option ?f (owner_account d)"
    unfolding owner_account_def ac fl by (rule first_account_map) (simp add: set_api_key_def)
  then have "map_option acc_id (owner_account d') = map_option acc_id (owner_account d)"
    by (cases "owner_account d") (simp_all add: set_api_key_def)
  then show ?thesis unfolding tokens_agree_def ts using row_agrees_refl by blast
qed

lemma one_token_agree:
  assumes "\<And>x d'. m d = Inr (x, d') \<Longrightarrow> db_accounts d' = db_accounts d \<and>
      ((\<exists>f. db_tokens d' = update_row tok_id i f (db_tokens d)) \<or> db_tokens d' = delete_row tok_id i (db_tokens d))"
  shows "tokens_agree (set (on_success (fst (run_tx fault m d)) (\<lambda>_. [i]))) d (snd (run_tx fault m d))"
proof (rule run_tx_agree)
  fix x d' assume "m d = Inr (x, d')"
  from assms [OF this] show "tokens_agree (set [i]) d d'"
    using agree_delete agree_update [of d' i _ d "{i}"] by auto
qed

lemma token_agree:
  "tokens_agree (set (touched_token l fault now op d)) d (perform_token l fault now op d)"
proof (cases op)
  case (Rotate_Admin_Key random acc)
  show ?thesis unfolding Rotate_Admin_Key perform_token.simps RotateAdminAuthKey_def Let_def
    by (rule run_tx_agree_all) (auto simp: rbind_Inr_iff intro: store_api_key_agree)
next
  case (Set_Admin_Key acc key)
  have "tokens_agree {} d (snd (run_tx False (\<lambda>d. rbind (store_api_key now acc (trim_space key) d) (\<lambda>d'. Inr ((), d'))) d))"
    by (rule run_tx_agree_all) (auto simp: rbind_Inr_iff intro: store_api_key_agree)
  then show ?thesis by (simp add: Set_Admin_Key SetAdminAuthKey_def)
next
  case (Use_Token i)
  show ?thesis unfolding Use_Token perform_token.simps IncrementTokenUsageIfAllowed_def
    by (rule run_tx_agree_all) (auto split: option.splits if_splits intro: record_agree)
next
  case (Record_Use i)
  show ?thesis unfolding Record_Use perform_token.simps RecordTokenUsage_def
    by (rule run_tx_agree_all) (auto split: option.splits if_splits intro: record_agree)
next
  case (Create_Token i random acc q e)
  show ?thesis unfolding Create_Token perform_token.simps CreateToken_def Let_def
    by (rule run_tx_agree_all) (auto split: if_splits intro!: agree_append)
next
  case (Update_Token i acc q)
  show ?thesis unfolding Update_Token perform_token.simps touched_token.simps UpdateToken_def Let_def
    by (rule one_token_agree) (auto simp: rbind_Inr_iff split: if_splits)
next
  case (Rotate_Token random i acc)
  show ?thesis unfolding Rotate_Token perform_token.simps touched_token.simps RotateToken_def Let_def
    by (rule one_token_agree) (auto simp: rbind_Inr_iff split: if_splits)
next
  case (Disable_Token i acc)
  show ?thesis unfolding Disable_Token perform_token.simps touched_token.simps DisableToken_def
    by (rule one_token_agree) (auto simp: rbind_Inr_iff split: if_splits)
next
  case (Enable_Token i acc)
  show ?thesis unfolding Enable_Token perform_token.simps touched_token.simps EnableToken_def
    by (rule one_token_agree) (auto simp: rbind_Inr_iff split: if_splits)
next
  case (Delete_Token i acc)
  show ?thesis unfolding Delete_Token perform_token.simps touched_token.simps DeleteToken_def
    by (rule one_token_agree) (auto simp: rbind_Inr_iff split: if_splits)
qed

section \<open>The cached store\<close>

datatype client_step =
    Change bool time store_op
  | Lookup bool time time string

fun client :: "libs \<Rightarrow> client_step list \<Rightarrow> token_cache \<times> db \<Rightarrow> token_cache \<times> db" where
  "client l [] s = s"
| "client l (Change fault now op # ss) (c, d) =
     client l ss (invalidateTokenAuthCaches (touched l fault now op d) c, perform_store l fault now op d)"
| "client l (Lookup fault now later raw # ss) (c, d) =
     client l ss (snd (GetAccountByToken fault (lib_sha l) now later raw d c), d)"

fun client_allowed :: "libs \<Rightarrow> client_step list \<Rightarrow> db \<Rightarrow> bool" where
  "client_allowed l [] d = True"
| "client_allowed l (Change fault now op # ss) d = (store_allowed op d \<and> client_allowed l ss (perform_store l fault now op d))"
| "client_allowed l (Lookup fault now later raw # ss) d = client_allowed l ss d"

lemma store_agree: "tokens_agree (set (touched l fault now op d)) d (perform_store l fault now op d)"
  by (cases op) (simp_all add: donation_agree token_agree)

lemma client_invariant:
  "coherent c d \<Longrightarrow> cache_ok c \<Longrightarrow> store_ok d \<Longrightarrow> client_allowed l ss d \<Longrightarrow> client l ss (c, d) = (c', d') \<Longrightarrow>
   coherent c' d' \<and> cache_ok c' \<and> store_ok d'"
proof (induction l ss "(c, d)" arbitrary: c d rule: client.induct)
  case (2 l fault now op ss c d)
  have "store_ok (perform_store l fault now op d)" using 2 perform_store_ok by simp
  moreover have "coherent (invalidateTokenAuthCaches (touched l fault now op d) c) (perform_store l fault now op d)"
    by (rule invalidate_coherent [OF 2(2) store_agree 2(4)]) (rule calculation)
  moreover have "cache_ok (invalidateTokenAuthCaches (touched l fault now op d) c)" by (rule invalidate_ok [OF 2(3)])
  ultimately show ?case using 2(1) 2(5,6) by simp
next
  case (3 l fault now later raw ss c d)
  then show ?case using lookup_coherent GetAccountByToken_ok by simp
qed simp_all

lemma empty_cache: "coherent [] d" "cache_ok []"
  by (simp_all add: coherent_def cache_ok_def)

lemma served_entry:
  "fst (getCachedAccountByToken now h c) = Some (a, t) \<Longrightarrow> \<exists>e. (h, e) \<in> set c \<and> t = ce_token e \<and> now < ce_expires e"
  by (auto simp: getCachedAccountByToken_def dest: map_of_SomeD split: option.splits if_splits)

section \<open>The properties\<close>

text \<open>C20. The cached lookup of a secret refines the direct one: after any sequence of operations on tokens and
  donations, each followed by its invalidation, and of lookups that fill the cache, a lookup that succeeds
  returns the account and the token the database has for the secret, with the same limits, scope, expiry
  and revocation; only the counters and the time of the last use may be older.  So a secret that was
  rotated away or deleted is refused at once, and one that was disabled is seen as disabled.\<close>

theorem cached_lookup_refines_database:
  assumes "store_ok d" "client_allowed l ss d" "client l ss ([], d) = (c', d')"
    "fst (GetAccountByToken fault (lib_sha l) now later raw d' c') = Inr r"
  shows "\<exists>a t. loadAccountByTokenHash (hashToken (lib_sha l) raw) d' = Inr (a, t) \<and> same_auth r (a, t)"
  using client_invariant [OF empty_cache assms(1-3)] lookup_agrees [OF _ assms(4)] by blast

definition served_db :: db where
  "served_db = quota_db\<lparr>db_accounts := db_accounts account_db,
     db_tokens := [(sample_token 0 0 2)\<lparr>tok_kind := ''standard'', tr_hash := hashToken (\<lambda>s. s) (generateAccessToken (replicate 16 CHR ''x''))\<rparr>]\<rparr>"

lemma served_db_ok: "store_ok served_db"
  by (simp add: served_db_def quota_db_def sample_token_def empty_db_def store_ok_def donations_ok_def tables_ok_def ledger_ok_def limits_ok_def
      limits_row_def is_donation_token_def usage_ok_def usage_sum_def hashes_ok_def keys_distinct_def)

lemma served_format: "isAccessTokenFormat (generateAccessToken (replicate 16 CHR ''x''))"
  using trim_space_hex [OF hex_encode_hex, of "replicate 16 CHR ''x''"] hex_runes [OF hex_encode_hex, of "replicate 16 CHR ''x''"]
  by (simp add: isAccessTokenFormat_def generateAccessToken_def Let_def)

lemma served_load: "\<exists>a t. loadAccountByTokenHash (hashToken (\<lambda>s. s) (generateAccessToken (replicate 16 CHR ''x''))) served_db = Inr (a, t)"
proof -
  have "owner_account served_db = Some (hd (db_accounts account_db))" by (simp add: owner_account_def served_db_def account_db_def)
  then show ?thesis
    by (simp add: loadAccountByTokenHash_def served_db_def sample_token_def account_db_def)
qed

lemma served_cache:
  "\<exists>c a t. client sample_libs [Lookup False 10 10 (generateAccessToken (replicate 16 CHR ''x''))] ([], served_db) = (c, served_db)
     \<and> fst (getCachedAccountByToken 20 (hashToken (\<lambda>s. s) (generateAccessToken (replicate 16 CHR ''x''))) c) = Some (a, t)"
proof -
  let ?raw = "generateAccessToken (replicate 16 CHR ''x'')"
  have sha: "lib_sha sample_libs = (\<lambda>s. s)" by (simp add: sample_libs_def)
  obtain a t where l: "loadAccountByTokenHash (hashToken (\<lambda>s. s) ?raw) served_db = Inr (a, t)" using served_load by blast
  define c where "c = cacheAccountToken 10 (hashToken (\<lambda>s. s) ?raw) a t []"
  have cl: "client sample_libs [Lookup False 10 10 ?raw] ([], served_db) = (c, served_db)"
    by (simp add: sha GetAccountByToken_def served_format getCachedAccountByToken_def Let_def l c_def)
  have t: "tok_expires_at t = None"
    using l by (auto simp: loadAccountByTokenHash_def served_db_def sample_token_def account_token.truncate_def split: option.splits if_splits)
  have "fst (getCachedAccountByToken 20 (hashToken (\<lambda>s. s) ?raw) c) = Some (a, t)"
    by (simp add: c_def cacheAccountToken_def getCachedAccountByToken_def entry_expiry_def t tokenAuthCacheTTL_def second_def tokenAuthCacheMaxEntries_def)
  then show ?thesis using cl by blast
qed

theorem cached_lookup_refines_database_witness:
  "\<exists>c r a t. fst (GetAccountByToken False (\<lambda>s. s) 20 20 (generateAccessToken (replicate 16 CHR ''x'')) served_db c) = Inr r
     \<and> loadAccountByTokenHash (hashToken (\<lambda>s. s) (generateAccessToken (replicate 16 CHR ''x''))) served_db = Inr (a, t)
     \<and> same_auth r (a, t)"
proof -
  let ?raw = "generateAccessToken (replicate 16 CHR ''x'')"
  have sha: "lib_sha sample_libs = (\<lambda>s. s)" by (simp add: sample_libs_def)
  obtain c a t where cl: "client sample_libs [Lookup False 10 10 ?raw] ([], served_db) = (c, served_db)"
    and hit: "fst (getCachedAccountByToken 20 (hashToken (\<lambda>s. s) ?raw) c) = Some (a, t)" using served_cache by blast
  have r: "fst (GetAccountByToken False (lib_sha sample_libs) 20 20 ?raw served_db c) = Inr (a, t)"
    unfolding sha using hit by (cases "getCachedAccountByToken 20 (hashToken (\<lambda>s. s) ?raw) c") (simp add: GetAccountByToken_def served_format Let_def)
  have al: "client_allowed sample_libs [Lookup False 10 10 ?raw] served_db" by simp
  show ?thesis using cached_lookup_refines_database [OF served_db_ok al cl r] r unfolding sha by blast
qed

text \<open>C21. The authentication cache never holds more than 4096 entries, and what it serves without asking the
  database is never a token past its expiry, whatever was cached, invalidated and looked up before.\<close>

theorem cache_bounded_and_unexpired:
  assumes "store_ok d" "client_allowed l ss d" "client l ss ([], d) = (c', d')"
    "fst (getCachedAccountByToken now h c') = Some (a, t)"
  shows "length c' \<le> 4096 \<and> (case tok_expires_at t of None \<Rightarrow> True | Some x \<Rightarrow> now < x)"
proof -
  have ok: "cache_ok c'" using client_invariant [OF empty_cache assms(1-3)] by blast
  obtain e where e: "(h, e) \<in> set c'" "t = ce_token e" "now < ce_expires e" using served_entry [OF assms(4)] by blast
  have "entry_ok e" using ok e(1) by (auto simp: cache_ok_def)
  then show ?thesis using ok e(2,3) by (auto simp: cache_ok_def tokenAuthCacheMaxEntries_def entry_ok_def split: option.splits)
qed

theorem cache_bounded_and_unexpired_witness:
  "\<exists>c. client sample_libs [Lookup False 10 10 (generateAccessToken (replicate 16 CHR ''x''))] ([], served_db) = (c, served_db) \<and> length c \<le> 4096"
proof -
  let ?raw = "generateAccessToken (replicate 16 CHR ''x'')"
  obtain c a t where cl: "client sample_libs [Lookup False 10 10 ?raw] ([], served_db) = (c, served_db)"
    and hit: "fst (getCachedAccountByToken 20 (hashToken (\<lambda>s. s) ?raw) c) = Some (a, t)" using served_cache by blast
  have al: "client_allowed sample_libs [Lookup False 10 10 ?raw] served_db" by simp
  show ?thesis using cache_bounded_and_unexpired [OF served_db_ok al cl hit] cl by blast
qed

end
