(* ===== verification/Access_Promises.thy ===== *)
theory Access_Promises
  imports Access Cache_Refinement
begin

text \<open>
  What the API middleware promises: a request that gets through had a live token and was counted within
  each of its limits, the credentials of the console and of the API do not stand in for each other, and
  within one window a limit lets through as many requests as it says.
\<close>

section \<open>The quota script over a window\<close>

definition live_count :: "time \<Rightarrow> string \<Rightarrow> redis \<Rightarrow> int" where
  "live_count now key r = (case r key of None \<Rightarrow> 0 | Some (n, e) \<Rightarrow> if now < e then n else 0)"

lemma redis_incr_count: "fst (redis_incr now key ttl r) = live_count now key r + 1"
  by (simp add: redis_incr_def live_count_def split: option.split)

lemma redis_incr_entry:
  "\<exists>e. snd (redis_incr now key ttl r) key = Some (live_count now key r + 1, e)"
  by (auto simp: redis_incr_def live_count_def split: option.split)

lemma redis_incr_other: "k \<noteq> key \<Longrightarrow> snd (redis_incr now key ttl r) k = r k"
  by (auto simp: redis_incr_def split: option.split)

text \<open>\<open>holds until\<close>: the counter, if there is one, lives at least until then, and a new one will.\<close>

definition holds :: "time \<Rightarrow> string \<Rightarrow> redis \<Rightarrow> int \<Rightarrow> bool" where
  "holds until key r n = ((n = 0 \<and> r key = None) \<or> (\<exists>e. r key = Some (n, e) \<and> until < e))"

lemma holds_incr:
  "holds until key r n \<Longrightarrow> now \<le> until \<Longrightarrow> until < now + ttl * millisecond \<Longrightarrow>
   fst (redis_incr now key ttl r) = n + 1 \<and> holds until key (snd (redis_incr now key ttl r)) (n + 1)"
  by (auto simp: holds_def redis_incr_def split: option.split)

lemma holds_other: "k \<noteq> key \<Longrightarrow> holds until k (snd (redis_incr now key ttl r)) n = holds until k r n"
  by (simp add: holds_def redis_incr_other)

text \<open>The requests of one token at the given times: how many the counters let through.\<close>

definition count_quota :: "access_libs \<Rightarrow> account_token \<Rightarrow> time \<Rightarrow> redis \<Rightarrow> quota_counters option \<times> redis" where
  "count_quota l tok now r =
     incrementQuotaCounters False now (minute_key l tok now) (2 * minute) (tok_rate_limit_per_minute tok)
       (daily_key l tok now) (next_midnight now + 5 * minute - now) (tok_daily_request_limit tok) r"

fun let_through :: "access_libs \<Rightarrow> account_token \<Rightarrow> time list \<Rightarrow> redis \<Rightarrow> nat" where
  "let_through l tok [] r = 0"
| "let_through l tok (now # ts) r =
     (case count_quota l tok now r of
        (None, r') \<Rightarrow> let_through l tok ts r'
      | (Some q, r') \<Rightarrow> (if qc_rejected q = 0 then Suc (let_through l tok ts r') else let_through l tok ts r'))"

lemma ttl_milliseconds: "second \<le> t \<Longrightarrow> t - millisecond < at_least_second t div millisecond * millisecond"
  by (simp add: at_least_second_def second_def millisecond_def)

lemma script_step:
  assumes on: "0 < per_minute" "0 < per_day" and keys: "mk \<noteq> []" "dk \<noteq> []" "mk \<noteq> dk"
    and m: "holds until mk r m" and n: "holds until dk r n" and t: "now \<le> until" "until < now + minute" "second \<le> day_ttl" "until < now + day_ttl - millisecond"
  shows "\<exists>q r'. incrementQuotaCounters False now mk (2 * minute) per_minute dk day_ttl per_day r = (Some q, r')
     \<and> holds until mk r' (m + 1)
     \<and> (if m + 1 > per_minute then qc_rejected q = 1 \<and> holds until dk r' n
        else holds until dk r' (n + 1) \<and> qc_rejected q = (if n + 1 > per_day then 2 else 0))"
proof -
  let ?mt = "at_least_second (2 * minute) div millisecond" and ?dt = "at_least_second day_ttl div millisecond"
  have mt: "until < now + ?mt * millisecond"
    using t(2) by (simp add: at_least_second_def minute_def second_def millisecond_def)
  have dt: "until < now + ?dt * millisecond" using ttl_milliseconds [OF t(3)] t(4) by simp
  obtain m' r1 where i1: "redis_incr now mk ?mt r = (m', r1)" by fastforce
  have m1: "m' = m + 1" "holds until mk r1 (m + 1)" "holds until dk r1 n"
    using holds_incr [OF m t(1) mt] holds_other [OF keys(3) [symmetric], of until now ?mt r n] n i1 by simp_all
  obtain n' r2 where i2: "redis_incr now dk ?dt r1 = (n', r2)" by fastforce
  have n1: "n' = n + 1" "holds until dk r2 (n + 1)" "holds until mk r2 (m + 1)"
    using holds_incr [OF m1(3) t(1) dt] holds_other [OF keys(3), of until now ?dt r1 "m + 1"] m1(2) i2 by simp_all
  show ?thesis
    using on keys m1 n1 by (simp add: incrementQuotaCounters_def quota_script_def i1 i2)
qed

text \<open>The requests of minute \<open>b\<close> (counted from the epoch).\<close>

definition end_of_minute :: "int \<Rightarrow> time" where
  "end_of_minute b = (b + 1) * minute - 1"

lemma same_minute:
  assumes "now div minute = b"
  shows "now \<le> end_of_minute b" "end_of_minute b < now + minute" "unix now div 60 = b" "local_day now = (b + 480) div 1440"
    "second \<le> next_midnight now + 5 * minute - now" "end_of_minute b < next_midnight now + 5 * minute - millisecond"
proof -
  have m: "minute = 60000000000" "day = 86400000000000" "shanghai = 28800000000000" "second = 1000000000" "millisecond = 1000000"
    by (simp_all add: minute_def day_def shanghai_def second_def millisecond_def)
  have b: "b * 60000000000 \<le> now" "now < (b + 1) * 60000000000" 
    using assms div_mult_mod_eq [of now 60000000000] pos_mod_bound [of 60000000000 now] pos_mod_sign [of 60000000000 now]
    unfolding m by (simp_all add: algebra_simps)
  show "now \<le> end_of_minute b" "end_of_minute b < now + minute" using b by (simp_all add: end_of_minute_def m)
  show "unix now div 60 = b" using assms by (simp add: unix_def m zdiv_zmult2_eq [symmetric])
  show d: "local_day now = (b + 480) div 1440"
  proof -
    have "(now + 28800000000000) div 86400000000000 = ((now + 480 * 60000000000) div 60000000000) div 1440"
      by (simp add: zdiv_zmult2_eq [symmetric])
    also have "(now + 480 * 60000000000) div 60000000000 = b + 480" using assms unfolding m by simp
    finally show ?thesis by (simp add: local_day_def m)
  qed
  have "b + 481 \<le> ((b + 480) div 1440 + 1) * 1440"
    using div_mult_mod_eq [of "b + 480" 1440] pos_mod_bound [of 1440 "b + 480"] by (simp add: algebra_simps)
  moreover have "(b + 1) * 60000000000 \<le> (q + 1) * 86400000000000 - 28800000000000" if "b + 481 \<le> (q + 1) * 1440" for q :: int
    using that by simp
  ultimately have "(b + 1) * 60000000000 \<le> next_midnight now" unfolding next_midnight_def d m by blast
  then show "second \<le> next_midnight now + 5 * minute - now" "end_of_minute b < next_midnight now + 5 * minute - millisecond"
    using b by (simp_all add: end_of_minute_def m)
qed

definition minute_counter :: "access_libs \<Rightarrow> account_token \<Rightarrow> int \<Rightarrow> string" where
  "minute_counter l tok b = ''tok:min:'' @ al_uuid l (tok_id tok) @ '':'' @ itoa b"

definition day_counter :: "access_libs \<Rightarrow> account_token \<Rightarrow> int \<Rightarrow> string" where
  "day_counter l tok b = ''tok:day:'' @ al_uuid l (tok_id tok) @ '':'' @ al_date l ((b + 480) div 1440)"

lemma counters_differ: "minute_counter l tok b \<noteq> day_counter l tok b'" "minute_counter l tok b \<noteq> []" "day_counter l tok b \<noteq> []"
  by (simp_all add: minute_counter_def day_counter_def)

lemma count_quota_step:
  assumes on: "0 < tok_rate_limit_per_minute tok" "0 < tok_daily_request_limit tok" and b: "now div minute = b"
    and m: "holds (end_of_minute b) (minute_counter l tok b) r m" and n: "holds (end_of_minute b) (day_counter l tok b) r n"
  shows "\<exists>q r'. count_quota l tok now r = (Some q, r')
     \<and> holds (end_of_minute b) (minute_counter l tok b) r' (m + 1)
     \<and> (if m + 1 > tok_rate_limit_per_minute tok then qc_rejected q = 1 \<and> holds (end_of_minute b) (day_counter l tok b) r' n
        else holds (end_of_minute b) (day_counter l tok b) r' (n + 1)
             \<and> qc_rejected q = (if n + 1 > tok_daily_request_limit tok then 2 else 0))"
proof -
  note w = same_minute [OF b]
  have mk: "minute_key l tok now = minute_counter l tok b" using on by (simp add: minute_key_def minute_counter_def w(3))
  have dk: "daily_key l tok now = day_counter l tok b" using on by (simp add: daily_key_def day_counter_def w(4))
  have "end_of_minute b < now + (next_midnight now + 5 * minute - now) - millisecond" using w(6) by simp
  then show ?thesis
    unfolding count_quota_def mk dk
    using script_step [OF on counters_differ(2,3,1) m n w(1,2) w(5)] by blast
qed

lemma let_through_count:
  assumes on: "0 < tok_rate_limit_per_minute tok" "0 < tok_daily_request_limit tok"
  shows "holds (end_of_minute b) (minute_counter l tok b) r m \<Longrightarrow> holds (end_of_minute b) (day_counter l tok b) r n \<Longrightarrow>
    list_all (\<lambda>now. now div minute = b) ts \<Longrightarrow>
    int (let_through l tok ts r)
      = max 0 (min (int (length ts)) (min (tok_rate_limit_per_minute tok - m) (tok_daily_request_limit tok - n)))"
proof (induction ts arbitrary: r m n)
  case (Cons now ts)
  obtain q r' where q: "count_quota l tok now r = (Some q, r')"
    and m: "holds (end_of_minute b) (minute_counter l tok b) r' (m + 1)"
    and c: "if m + 1 > tok_rate_limit_per_minute tok then qc_rejected q = 1 \<and> holds (end_of_minute b) (day_counter l tok b) r' n
        else holds (end_of_minute b) (day_counter l tok b) r' (n + 1) \<and> qc_rejected q = (if n + 1 > tok_daily_request_limit tok then 2 else 0)"
    using count_quota_step [OF on _ Cons.prems(1,2), of now] Cons.prems(3) by auto
  show ?case
  proof (cases "m + 1 > tok_rate_limit_per_minute tok")
    case True
    then have "holds (end_of_minute b) (day_counter l tok b) r' n" "qc_rejected q = 1" using c by simp_all
    then show ?thesis using Cons.IH [OF m, of n] Cons.prems(3) True q by simp
  next
    case False
    then have "holds (end_of_minute b) (day_counter l tok b) r' (n + 1)" "qc_rejected q = (if n + 1 > tok_daily_request_limit tok then 2 else 0)"
      using c by simp_all
    then show ?thesis using Cons.IH [OF m, of "n + 1"] Cons.prems(3) False q by (auto simp: max_def min_def)
  qed
qed (simp add: max_def)

section \<open>What a passed request had\<close>

lemma quota_counts:
  assumes q: "incrementQuotaCounters fault now mk ttl per_minute dk day_ttl per_day r = (Some q, r')" and ok: "qc_rejected q = 0"
    and keys: "mk \<noteq> dk"
  shows "per_minute \<le> 0 \<or> mk = [] \<or> (\<exists>n e. r' mk = Some (n, e) \<and> n \<le> per_minute)"
    and "per_day \<le> 0 \<or> dk = [] \<or> (\<exists>n e. r' dk = Some (n, e) \<and> n \<le> per_day)"
proof -
  let ?m = "per_minute > 0 \<and> mk \<noteq> []" and ?d = "per_day > 0 \<and> dk \<noteq> []"
  let ?mt = "at_least_second ttl div millisecond" and ?dt = "at_least_second day_ttl div millisecond"
  obtain m r1 where i1: "(if ?m then redis_incr now mk ?mt r else (-1, r)) = (m, r1)" by fastforce
  obtain n r2 where i2: "(if ?d then redis_incr now dk ?dt r1 else (-1, r1)) = (n, r2)" by fastforce
  have e1: "?m \<Longrightarrow> \<exists>e. r1 mk = Some (m, e)"
    using i1 redis_incr_entry [of now mk ?mt r] redis_incr_count [of now mk ?mt r] by auto
  have e2: "?d \<Longrightarrow> \<exists>e. r2 dk = Some (n, e)"
    using i2 redis_incr_entry [of now dk ?dt r1] redis_incr_count [of now dk ?dt r1] by auto
  have k: "r2 mk = r1 mk" using i2 redis_incr_other [OF keys, of now ?dt r1] by (auto split: if_splits)
  have res: "?m \<or> ?d \<Longrightarrow> \<not> (?m \<and> m > per_minute) \<and> \<not> (?d \<and> n > per_day) \<and> r' = r2"
    using q ok i1 i2 by (auto simp: incrementQuotaCounters_def quota_script_def split: if_splits)
  show "per_minute \<le> 0 \<or> mk = [] \<or> (\<exists>n e. r' mk = Some (n, e) \<and> n \<le> per_minute)"
    using e1 k res by (cases ?m) auto
  show "per_day \<le> 0 \<or> dk = [] \<or> (\<exists>n e. r' dk = Some (n, e) \<and> n \<le> per_day)"
    using e2 res by (cases ?d) auto
qed

lemma key_kinds: "minute_key l tok now = [] \<or> minute_key l tok now \<noteq> daily_key l tok now"
  by (simp add: minute_key_def daily_key_def)

lemma minute_key_nonempty: "0 < tok_rate_limit_per_minute tok \<Longrightarrow> minute_key l tok now \<noteq> []"
  and daily_key_nonempty: "0 < tok_daily_request_limit tok \<Longrightarrow> daily_key l tok now \<noteq> []"
  by (simp_all add: minute_key_def daily_key_def)

lemma Increment_allowed:
  assumes "fst (IncrementTokenUsageIfAllowed fault now i d) = Inr (used, limit)"
  shows "\<exists>q. find_row tok_id i (db_tokens d) = Some q \<and> live_token now q \<and> within_total q
     \<and> used = tok_request_count_total q + 1 \<and> limit = tok_total_request_limit q
     \<and> snd (IncrementTokenUsageIfAllowed fault now i d) = record_request now q d"
  using assms by (auto simp: IncrementTokenUsageIfAllowed_def run_tx_def split: if_splits option.splits)

lemma charge_total_next:
  assumes "charge_total f now a tok s hs w = (Next cx, hs', w')"
  shows "cx_account cx = a \<and> tok_id (cx_token cx) = tok_id tok \<and> w_redis w' = w_redis w \<and>
    (if tok_total_request_limit tok > 0
     then \<exists>q. find_row tok_id (tok_id tok) (db_tokens (w_db w)) = Some q \<and> live_token now q \<and> within_total q
            \<and> w_db w' = record_request now q (w_db w)
     else w_db w' = w_db w)"
proof (cases "tok_total_request_limit tok > 0")
  case True
  then obtain used limit d where inc: "IncrementTokenUsageIfAllowed (ft_count f) now (tok_id tok) (w_db w) = (Inr (used, limit), d)"
    and cx: "cx_account cx = a" "tok_id (cx_token cx) = tok_id tok" "w' = w\<lparr>w_db := d\<rparr>"
    using assms by (auto simp: charge_total_def Let_def split: prod.splits sum.splits db_error.splits)
  then show ?thesis using True Increment_allowed [of "ft_count f" now "tok_id tok" "w_db w" used limit] by auto
next
  case False
  then show ?thesis using assms by (auto simp: charge_total_def Let_def)
qed

lemma check_quota_next:
  assumes "check_quota l f now a tok w = (Next cx, hs, w')"
  shows "\<exists>q r s hs0. incrementQuotaCounters (ft_redis f) now (minute_key l tok now) (2 * minute) (tok_rate_limit_per_minute tok)
             (daily_key l tok now) (next_midnight now + 5 * minute - now) (tok_daily_request_limit tok) (w_redis w) = (Some q, r)
     \<and> qc_rejected q \<noteq> 1 \<and> qc_rejected q \<noteq> 2 \<and> charge_total f now a tok s hs0 (w\<lparr>w_redis := r\<rparr>) = (Next cx, hs, w')"
  using assms by (auto simp: check_quota_def Let_def split: prod.splits option.splits if_splits)

lemma rejected_range: "incrementQuotaCounters fault now mk ttl pm dk dt pd r = (Some q, r') \<Longrightarrow> qc_rejected q \<in> {0, 1, 2}"
  by (auto simp: incrementQuotaCounters_def quota_script_def Let_def split: prod.splits if_splits)

lemma APIAuth_next:
  assumes "APIAuth l f now header w = (Next cx, hs, w')"
  shows "\<exists>raw a tok c. bearer header = Some raw
     \<and> GetAccountByToken (ft_load f) (al_sha l) now now raw (w_db w) (w_cache w) = (Inr (a, tok), c)
     \<and> token_refused now tok = None \<and> check_quota l f now a tok (w\<lparr>w_cache := c\<rparr>) = (Next cx, hs, w')"
  using assms by (auto simp: APIAuth_def Let_def split: option.splits if_splits sum.splits prod.splits)


lemma counted_within:
  assumes "incrementQuotaCounters fault now (minute_key l tok now) ttl (tok_rate_limit_per_minute tok)
             (daily_key l tok now) day_ttl (tok_daily_request_limit tok) r = (Some q, r')" and "qc_rejected q = 0"
  shows "tok_rate_limit_per_minute tok \<le> 0 \<or> (\<exists>n e. r' (minute_key l tok now) = Some (n, e) \<and> n \<le> tok_rate_limit_per_minute tok)"
    and "tok_daily_request_limit tok \<le> 0 \<or> (\<exists>n e. r' (daily_key l tok now) = Some (n, e) \<and> n \<le> tok_daily_request_limit tok)"
proof -
  show "tok_rate_limit_per_minute tok \<le> 0 \<or> (\<exists>n e. r' (minute_key l tok now) = Some (n, e) \<and> n \<le> tok_rate_limit_per_minute tok)"
    using quota_counts(1) [OF assms] key_kinds [of l tok now] minute_key_nonempty [of tok l now] by fastforce
  show "tok_daily_request_limit tok \<le> 0 \<or> (\<exists>n e. r' (daily_key l tok now) = Some (n, e) \<and> n \<le> tok_daily_request_limit tok)"
    using quota_counts(2) [OF assms] key_kinds [of l tok now] daily_key_nonempty [of tok l now] by fastforce
qed

lemma auth_part_limits:
  "auth_part t = auth_part u \<Longrightarrow> tok_rate_limit_per_minute t = tok_rate_limit_per_minute u
     \<and> tok_daily_request_limit t = tok_daily_request_limit u \<and> tok_total_request_limit t = tok_total_request_limit u"
  unfolding auth_part_def
  by (metis (no_types, lifting) account_token.select_convs(8,9,10) account_token.surjective account_token.update_convs(11,12,16))

lemma minute_key_cong:
  "tok_id t = tok_id u \<Longrightarrow> tok_rate_limit_per_minute t = tok_rate_limit_per_minute u \<Longrightarrow> minute_key l t now = minute_key l u now"
  and daily_key_cong:
  "tok_id t = tok_id u \<Longrightarrow> tok_daily_request_limit t = tok_daily_request_limit u \<Longrightarrow> daily_key l t now = daily_key l u now"
  by (simp_all add: minute_key_def daily_key_def)

lemma truncate_limits [simp]:
  "tok_rate_limit_per_minute (account_token.truncate q) = tok_rate_limit_per_minute q"
  "tok_daily_request_limit (account_token.truncate q) = tok_daily_request_limit q"
  "tok_total_request_limit (account_token.truncate q) = tok_total_request_limit q"
  "tok_revoked_at (account_token.truncate q) = tok_revoked_at q" "tok_expires_at (account_token.truncate q) = tok_expires_at q"
  "tok_kind (account_token.truncate q) = tok_kind q"
  by (simp_all add: account_token.truncate_def)

lemma find_id: "store_ok d \<Longrightarrow> q \<in> set (db_tokens d) \<Longrightarrow> find_row tok_id (tok_id q) (db_tokens d) = Some q"
  by (rule find_row_unique) (simp_all add: store_ok_def donations_ok_def tables_ok_def)

text \<open>C22. A request that passes \<open>APIAuth\<close> was entitled to: its bearer secret is the one of a stored token of the
  owner, neither revoked nor past its expiry; the counters of the token's minute and day, this request
  included, are within its limits; and a token with a total limit had charge left and is charged for it.\<close>

theorem admitted_request_is_entitled:
  assumes ok: "store_ok (w_db w)" and co: "coherent (w_cache w) (w_db w)" and adm: "APIAuth l f now header w = (Next cx, hs, w')"
  shows "\<exists>raw q a. bearer header = Some raw \<and> q \<in> set (db_tokens (w_db w)) \<and> tr_hash q = hashToken (al_sha l) raw
     \<and> tok_id (cx_token cx) = tok_id q \<and> owner_account (w_db w) = Some a \<and> tok_account_id q = acc_id a \<and> acc_id (cx_account cx) = acc_id a
     \<and> tok_revoked_at q = None \<and> (case tok_expires_at q of None \<Rightarrow> True | Some e \<Rightarrow> now \<le> e)
     \<and> (tok_rate_limit_per_minute q \<le> 0
         \<or> (\<exists>n e. w_redis w' (minute_key l (account_token.truncate q) now) = Some (n, e) \<and> n \<le> tok_rate_limit_per_minute q))
     \<and> (tok_daily_request_limit q \<le> 0
         \<or> (\<exists>n e. w_redis w' (daily_key l (account_token.truncate q) now) = Some (n, e) \<and> n \<le> tok_daily_request_limit q))
     \<and> (tok_total_request_limit q \<le> 0
         \<or> (tok_request_count_total q < tok_total_request_limit q \<and> w_db w' = record_request now q (w_db w)))"
proof -
  obtain raw a tok c where raw: "bearer header = Some raw"
    and lk: "GetAccountByToken (ft_load f) (al_sha l) now now raw (w_db w) (w_cache w) = (Inr (a, tok), c)"
    and nr: "token_refused now tok = None" and cq: "check_quota l f now a tok (w\<lparr>w_cache := c\<rparr>) = (Next cx, hs, w')"
    using APIAuth_next [OF adm] by blast
  have ho: "hashes_ok (w_db w)" using ok by (simp add: store_ok_def)
  obtain b t where load: "loadAccountByTokenHash (hashToken (al_sha l) raw) (w_db w) = Inr (b, t)" and s: "same_auth (a, tok) (b, t)"
    using lookup_agrees [OF co, of "ft_load f" "al_sha l" now now raw "(a, tok)"] lk by auto
  obtain q where q: "q \<in> set (db_tokens (w_db w))" "tr_hash q = hashToken (al_sha l) raw" "tok_account_id q = acc_id b" "t = account_token.truncate q"
    and own: "owner_account (w_db w) = Some b" using load unfolding loadAccount_iff [OF ho] by blast
  have e: "auth_part tok = auth_part (account_token.truncate q)" "acc_id a = acc_id b" using s q(4) by (simp_all add: same_auth_def)
  have i: "tok_id tok = tok_id q" "tok_revoked_at tok = tok_revoked_at q" "tok_expires_at tok = tok_expires_at q"
    and lim: "tok_rate_limit_per_minute tok = tok_rate_limit_per_minute q" "tok_daily_request_limit tok = tok_daily_request_limit q"
      "tok_total_request_limit tok = tok_total_request_limit q"
    using auth_part_fields [OF e(1)] auth_part_limits [OF e(1)] by simp_all
  have k: "minute_key l (account_token.truncate q) now = minute_key l tok now" "daily_key l (account_token.truncate q) now = daily_key l tok now"
    by (rule minute_key_cong daily_key_cong; simp add: i lim)+
  obtain qc r st hs0 where inc: "incrementQuotaCounters (ft_redis f) now (minute_key l tok now) (2 * minute) (tok_rate_limit_per_minute tok)
             (daily_key l tok now) (next_midnight now + 5 * minute - now) (tok_daily_request_limit tok) (w_redis w) = (Some qc, r)"
    and rej: "qc_rejected qc \<noteq> 1" "qc_rejected qc \<noteq> 2" and ch: "charge_total f now a tok st hs0 (w\<lparr>w_cache := c, w_redis := r\<rparr>) = (Next cx, hs, w')"
    using check_quota_next [OF cq] by auto
  have z: "qc_rejected qc = 0" using rejected_range [OF inc] rej by simp
  have cnt: "tok_rate_limit_per_minute tok \<le> 0 \<or> (\<exists>n e. r (minute_key l tok now) = Some (n, e) \<and> n \<le> tok_rate_limit_per_minute tok)"
    "tok_daily_request_limit tok \<le> 0 \<or> (\<exists>n e. r (daily_key l tok now) = Some (n, e) \<and> n \<le> tok_daily_request_limit tok)"
    using counted_within [OF inc z] by blast+
  have w': "cx_account cx = a" "tok_id (cx_token cx) = tok_id tok" "w_redis w' = r"
    and tot: "tok_total_request_limit tok > 0 \<Longrightarrow> \<exists>p. find_row tok_id (tok_id tok) (db_tokens (w_db w)) = Some p \<and> within_total p
            \<and> w_db w' = record_request now p (w_db w)"
    using charge_total_next [OF ch] by (auto split: if_splits)
  have alive: "tok_revoked_at q = None" "case tok_expires_at q of None \<Rightarrow> True | Some e \<Rightarrow> now \<le> e"
    using nr i by (auto simp: token_refused_def split: if_splits option.splits)
  have total: "tok_total_request_limit q \<le> 0 \<or> (tok_request_count_total q < tok_total_request_limit q \<and> w_db w' = record_request now q (w_db w))"
    using tot find_id [OF ok q(1)] lim(3) i(1) by (auto simp: within_total_def)
  have own': "tok_id (cx_token cx) = tok_id q" "acc_id (cx_account cx) = acc_id b" using w' i(1) e(2) by simp_all
  have cnt': "tok_rate_limit_per_minute q \<le> 0
        \<or> (\<exists>n e. w_redis w' (minute_key l (account_token.truncate q) now) = Some (n, e) \<and> n \<le> tok_rate_limit_per_minute q)"
    "tok_daily_request_limit q \<le> 0
        \<or> (\<exists>n e. w_redis w' (daily_key l (account_token.truncate q) now) = Some (n, e) \<and> n \<le> tok_daily_request_limit q)"
    using cnt unfolding lim k w'(3) by blast+
  show ?thesis
    by (rule exI [of _ raw], rule exI [of _ q], rule exI [of _ b]) (intro conjI raw q(1-3) own own' alive cnt' total)
qed


lemma bearer_ascii:
  assumes "is_ascii s" "s \<noteq> []" "\<not> ascii_space (hd s)" "\<not> ascii_space (last s)"
  shows "bearer (''Bearer '' @ s) = Some s"
proof -
  have a: "is_ascii (''Bearer '' @ s)" using assms(1) by (simp add: is_ascii_def)
  have i: "trim_space (''Bearer '' @ s) = ''Bearer '' @ s" and t: "trim_space s = s"
    by (rule trim_space_id_ascii; use assms a in \<open>simp add: ascii_space_def\<close>)+
  have e: "equal_fold_ascii (take 7 (''Bearer '' @ s)) ''Bearer ''" by (simp add: equal_fold_ascii_def)
  show ?thesis unfolding bearer_def i Let_def using e t by simp
qed

definition sample_access :: access_libs where
  "sample_access = \<lparr>al_sha = (\<lambda>s. s), al_uuid = (\<lambda>_. ''u''), al_date = (\<lambda>_. ''d'')\<rparr>"

definition no_faults :: faults where
  "no_faults = \<lparr>ft_load = False, ft_redis = False, ft_count = False\<rparr>"

definition sample_secret :: string where
  "sample_secret = generateAccessToken (replicate 16 CHR ''x'')"

definition sample_world :: world where
  "sample_world = \<lparr>w_db = served_db, w_cache = [], w_redis = Map.empty\<rparr>"

lemma sample_bearer: "bearer (''Bearer '' @ sample_secret) = Some sample_secret"
proof -
  have h: "list_all is_lower_hex sample_secret" by (simp add: sample_secret_def generateAccessToken_def hex_encode_hex)
  have n: "sample_secret \<noteq> []" by (simp add: sample_secret_def generateAccessToken_def hex_encode_def)
  have "is_lower_hex (hd sample_secret)" "is_lower_hex (last sample_secret)" using h n by (simp_all add: list_all_iff)
  then show ?thesis by (intro bearer_ascii lower_hex_ascii h n hex_not_space)
qed

theorem admitted_request_is_entitled_witness:
  "\<exists>cx hs w' q. APIAuth sample_access no_faults 10 (''Bearer '' @ sample_secret) sample_world = (Next cx, hs, w')
     \<and> tok_id (cx_token cx) = tok_id q \<and> tok_request_count_total q < 2 \<and> w_db w' = record_request 10 q served_db"
proof -
  let ?t = "(sample_token 0 0 2)\<lparr>tok_kind := ''standard'', tr_hash := hashToken (\<lambda>s. s) sample_secret\<rparr>"
  have d: "db_tokens served_db = [?t]" by (simp add: served_db_def sample_secret_def)
  have own: "owner_account served_db = Some (hd (db_accounts account_db))" by (simp add: owner_account_def served_db_def account_db_def)
  have load: "loadAccountByTokenHash (hashToken (\<lambda>s. s) sample_secret) served_db
      = Inr (hd (db_accounts account_db), account_token.truncate ?t)"
    by (simp add: loadAccountByTokenHash_def d own sample_token_def account_db_def)
  have ne: "sample_secret \<noteq> []" by (simp add: sample_secret_def generateAccessToken_def hex_encode_def)
  have fm: "isAccessTokenFormat sample_secret" unfolding sample_secret_def by (rule served_format)
  let ?a = "hd (db_accounts account_db)" and ?u = "account_token.truncate ?t"
  obtain c where lk: "GetAccountByToken False (\<lambda>s. s) 10 10 sample_secret served_db [] = (Inr (?a, ?u), c)"
    using fm load by (simp add: GetAccountByToken_def getCachedAccountByToken_def Let_def)
  have inc: "IncrementTokenUsageIfAllowed False 10 5 served_db = (Inr (1, 2), record_request 10 ?t served_db)"
    by (simp add: IncrementTokenUsageIfAllowed_def run_tx_def d find_row_Cons sample_token_def live_token_def within_total_def int8_def)
  have u: "tok_id ?u = 5" "tok_total_request_limit ?u = 2" "tok_rate_limit_per_minute ?u = 0" "tok_daily_request_limit ?u = 0"
      "tok_revoked_at ?u = None" "tok_expires_at ?u = None" "tok_kind ?u = ''standard''"
    by (simp_all add: sample_token_def)
  have nr: "token_refused 10 ?u = None" unfolding token_refused_def u by simp
  have "\<exists>cx hs w'. charge_total no_faults 10 ?a ?u st hs0 w = (Next cx, hs, w')" if "w_db w = served_db" for st hs0 w
    unfolding charge_total_def u that by (simp add: no_faults_def inc Let_def)
  then have "\<exists>cx hs w'. check_quota sample_access no_faults 10 ?a ?u (sample_world\<lparr>w_cache := c\<rparr>) = (Next cx, hs, w')"
    unfolding check_quota_def u minute_key_def daily_key_def by (simp add: incrementQuotaCounters_def sample_world_def Let_def)
  then obtain cx hs w' where run: "APIAuth sample_access no_faults 10 (''Bearer '' @ sample_secret) sample_world = (Next cx, hs, w')"
    unfolding APIAuth_def sample_bearer using ne lk nr by (auto simp: sample_world_def sample_access_def no_faults_def)
  have co: "coherent (w_cache sample_world) (w_db sample_world)" and ok: "store_ok (w_db sample_world)"
    by (simp_all add: sample_world_def coherent_def served_db_ok)
  obtain q where q: "q \<in> set (db_tokens served_db)" "tok_id (cx_token cx) = tok_id q"
     "tok_total_request_limit q \<le> 0 \<or> (tok_request_count_total q < tok_total_request_limit q \<and> w_db w' = record_request 10 q served_db)"
    using admitted_request_is_entitled [OF ok co run] by (auto simp: sample_world_def)
  have "tok_total_request_limit q = 2" using q(1) by (simp add: d sample_token_def)
  then show ?thesis using run q(2,3) by (intro exI) auto
qed

text \<open>The credentials of the console and of the API are separate: a key that opens the admin console is
  refused with 401, as an invalid token, by both middlewares of the API when it is sent as the bearer, and nothing is
  counted, cached or written.\<close>

theorem console_and_api_keys_separate:
  assumes admin: "AdminAuth fault header (w_db w) = (Next cx, hs)" and b: "bearer bearer_header = Some raw" and same: "trim_space raw = trim_space header"
  shows "APIAuth l f now bearer_header w = (Abort 401 ''invalid API access token'', [], w)
     \<and> DonationAuth l f now bearer_header w = (Abort 401 ''invalid donation API token'', w)"
proof
  have "isAdminAuthKeyFormat (trim_space header)" and ne: "trim_space header \<noteq> []"
    using admin by (auto simp: AdminAuth_def GetAccountByAdminAuthKey_def Let_def split: if_splits sum.splits option.splits)
  then have "\<not> isAccessTokenFormat (trim_space header)" using credential_kinds_disjoint by blast
  then have no: "\<not> isAccessTokenFormat raw" using same by (simp add: isAccessTokenFormat_def)
  have "raw \<noteq> []" using same ne by auto
  then show "APIAuth l f now bearer_header w = (Abort 401 ''invalid API access token'', [], w)"
    using no b by (simp add: APIAuth_def GetAccountByToken_def)
  show "DonationAuth l f now bearer_header w = (Abort 401 ''invalid donation API token'', w)"
    using no b by (simp add: DonationAuth_def GetAccountByToken_def)
qed

definition console_key :: string where
  "console_key = ''sk-a-0123456789abcdef''"

definition console_world :: world where
  "console_world = \<lparr>w_db = empty_db\<lparr>db_accounts := [\<lparr>acc_id = 1, acc_username = ''o'', acc_api_key = console_key,
     acc_is_admin = True, acc_is_active = True, acc_created_at = 0, acc_updated_at = 0\<rparr>]\<rparr>, w_cache = [], w_redis = Map.empty\<rparr>"

lemma console_key_facts: "is_ascii console_key" "trim_space console_key = console_key" "bearer (''Bearer '' @ console_key) = Some console_key"
proof -
  show a: "is_ascii console_key" by (simp add: console_key_def is_ascii_def)
  show "trim_space console_key = console_key" by (rule trim_space_id_ascii [OF a]) (simp_all add: console_key_def ascii_space_def)
  show "bearer (''Bearer '' @ console_key) = Some console_key"
    by (rule bearer_ascii [OF a]) (simp_all add: console_key_def ascii_space_def)
qed

lemma console_key_opens: "\<exists>cx hs. AdminAuth False console_key (w_db console_world) = (Next cx, hs)"
proof -
  have "is_ascii ''a''" "is_ascii ''0123456789abcdef''" by (simp_all add: is_ascii_def)
  then have "isAdminAuthKeyFormat console_key"
    by (simp add: isAdminAuthKeyFormat_def isNamedSecretFormat_def console_key_facts(2) Let_def)
       (simp add: console_key_def has_prefix_def last_index_byte_def runes_ascii prefix_rune_def hex_rune_def)
  then show ?thesis
    by (simp add: AdminAuth_def GetAccountByAdminAuthKey_def console_key_facts(2) console_world_def owner_account_def Let_def)
       (simp add: console_key_def)
qed

theorem console_and_api_keys_separate_witness:
  "APIAuth sample_access no_faults 10 (''Bearer '' @ console_key) console_world
     = (Abort 401 ''invalid API access token'', [], console_world)"
proof -
  obtain cx hs where "AdminAuth False console_key (w_db console_world) = (Next cx, hs)" using console_key_opens by blast
  then show ?thesis using console_and_api_keys_separate [of False console_key console_world cx hs _ console_key] console_key_facts(3) by blast
qed

text \<open>Within one minute the two windows of a token let through exactly as many requests as its limits
  allow, however many arrive and whenever they do: the fewer of the minute's limit and of what the day, of
  which \<open>n\<close> requests are already counted, has left; every request beyond is rejected.\<close>

theorem quota_window_exact:
  assumes on: "0 < tok_rate_limit_per_minute tok" "0 < tok_daily_request_limit tok"
    and fresh: "r (minute_counter l tok b) = None" and day: "holds (end_of_minute b) (day_counter l tok b) r n"
    and inside: "list_all (\<lambda>now. now div minute = b) ts"
  shows "int (let_through l tok ts r) = max 0 (min (int (length ts)) (min (tok_rate_limit_per_minute tok) (tok_daily_request_limit tok - n)))"
proof -
  have "holds (end_of_minute b) (minute_counter l tok b) r 0" using fresh by (simp add: holds_def)
  from let_through_count [OF on this day inside] show ?thesis by simp
qed


theorem quota_window_exact_witness:
  "int (let_through sample_access (account_token.truncate (sample_token 2 100 0)) [1, 2, 3, 4] Map.empty) = 2"
proof -
  let ?t = "account_token.truncate (sample_token 2 100 0)"
  have l: "tok_rate_limit_per_minute ?t = 2" "tok_daily_request_limit ?t = 100" by (simp_all add: sample_token_def)
  have "list_all (\<lambda>now. now div minute = 0) [1, 2, 3, 4]" by (simp add: minute_def second_def)
  then show ?thesis
    using quota_window_exact [of ?t Map.empty sample_access 0 0 "[1, 2, 3, 4]"] l by (simp add: holds_def)
qed

end
