(* ===== verification/Mail_Extract.thy ===== *)
theory Mail_Extract
  imports GoText
begin

text \<open>
  The verification codes and links found in a message (\<open>src/api/store/postgres.go\<close>,
  \<open>normalizeExtractionText\<close> to \<open>hasAnySuffix\<close>).  \<open>html.UnescapeString\<close> and the Unicode tables of case and are
  parameters.  The three patterns that remove markup and the one that finds links are written out as
  functions from the text at a position to the length of the match there; each begins with an ASCII
  character, so that byte positions and code point positions agree.
\<close>

section \<open>Patterns\<close>

text \<open>\<open>regexp.ReplaceAllString\<close> and \<open>FindAllString\<close>: leftmost matches, from left to right.\<close>

function replace_matches :: "(string \<Rightarrow> nat option) \<Rightarrow> string \<Rightarrow> string \<Rightarrow> string" where
  "replace_matches m w [] = []"
| "replace_matches m w (c # s) =
     (case m (c # s) of
        None \<Rightarrow> c # replace_matches m w s
      | Some n \<Rightarrow> w @ replace_matches m w (drop (n - 1) s))"
  by pat_completeness auto
termination by (relation "measure (\<lambda>(m, w, s). length s)") auto

function find_matches :: "(string \<Rightarrow> nat option) \<Rightarrow> string \<Rightarrow> string list" where
  "find_matches m [] = []"
| "find_matches m (c # s) =
     (case m (c # s) of
        None \<Rightarrow> find_matches m s
      | Some n \<Rightarrow> take n (c # s) # find_matches m (drop (n - 1) s))"
  by pat_completeness auto
termination by (relation "measure (\<lambda>(m, s). length s)") auto

definition match_text :: "string \<Rightarrow> string \<Rightarrow> nat option" where
  "match_text p s = (if has_prefix s p then Some (length p) else None)"

text \<open>\<open><[^>]+>\<close>\<close>

definition storeHTMLTagRe :: "string \<Rightarrow> nat option" where
  "storeHTMLTagRe s =
     (if has_prefix s ''<'' then
        (case index_byte (tl s) (CHR ''>'') of None \<Rightarrow> None | Some i \<Rightarrow> if i = 0 then None else Some (i + 2))
      else None)"

text \<open>A literal under \<open>(?i)\<close>, in lower case: its length where it stands.  The long s (U+017F) folds to s.\<close>

fun fold_length :: "string \<Rightarrow> string \<Rightarrow> nat option" where
  "fold_length [] s = Some 0"
| "fold_length (p # ps) [] = None"
| "fold_length (p # ps) (c # s) =
     (if lower_char c = p then map_option Suc (fold_length ps s)
      else if p = CHR ''s'' \<and> has_prefix (c # s) (map char_of [197, 191 :: nat])
      then map_option (\<lambda>n. n + 2) (fold_length ps (tl s)) else None)"

fun fold_index :: "string \<Rightarrow> string \<Rightarrow> (nat \<times> nat) option" where
  "fold_index p [] = None"
| "fold_index p (c # s) =
     (case fold_length p (c # s) of
        Some n \<Rightarrow> Some (0, n)
      | None \<Rightarrow> map_option (\<lambda>(j, n). (Suc j, n)) (fold_index p s))"

text \<open>\<open>(?is)<name[^>]*>.*?</name>\<close>\<close>

definition block_re :: "string \<Rightarrow> string \<Rightarrow> nat option" where
  "block_re name s =
     (case fold_length (''<'' @ name) s of
        None \<Rightarrow> None
      | Some a \<Rightarrow>
          (case index_byte (drop a s) (CHR ''>'') of
             None \<Rightarrow> None
           | Some i \<Rightarrow>
               (case fold_index (''</'' @ name @ ''>'') (drop (a + i + 1) s) of
                  None \<Rightarrow> None
                | Some (j, n) \<Rightarrow> Some (a + i + 1 + j + n))))"

text \<open>\<open>https?://[^\s"'<>]+\<close>\<close>

definition link_char :: "char \<Rightarrow> bool" where
  "link_char c = (byte c \<notin> {9, 10, 12, 13, 32, 34, 39, 60, 62 :: nat})"

definition link_scheme :: "string \<Rightarrow> nat" where
  "link_scheme s = (if has_prefix s ''http://'' then 7 else if has_prefix s ''https://'' then 8 else 0)"

definition storeLinkRe :: "string \<Rightarrow> nat option" where
  "storeLinkRe s =
     (let k = link_scheme s; n = length (takeWhile link_char (drop k s)) in
      if k = 0 \<or> n = 0 then None else Some (k + n))"

section \<open>Normal text\<close>

text \<open>The first loop of \<open>collapseExtractionWhitespace\<close>: whether it broke off, and \<open>previousSpace\<close>.\<close>

fun needs_normalization :: "(nat \<times> string) list \<Rightarrow> bool \<Rightarrow> bool \<times> bool" where
  "needs_normalization [] previous = (False, previous)"
| "needs_normalization (c # cs) previous =
     (if is_space (fst c) \<and> (fst c \<noteq> 32 \<or> previous) then (True, previous)
      else needs_normalization cs (is_space (fst c)))"

fun rebuild :: "(nat \<times> string) list \<Rightarrow> bool \<Rightarrow> bool \<Rightarrow> string" where
  "rebuild [] pending wrote = []"
| "rebuild (c # cs) pending wrote =
     (if is_space (fst c) then rebuild cs (if wrote then True else pending) wrote
      else (if pending then '' '' else []) @ encode_rune (fst c) @ rebuild cs False True)"

definition collapseExtractionWhitespace :: "string \<Rightarrow> string" where
  "collapseExtractionWhitespace value =
     (let (needs, previous) = needs_normalization (runes value) True in
      if \<not> needs \<and> \<not> previous then value else rebuild (runes value) False False)"

definition strip_markup :: "string \<Rightarrow> string" where
  "strip_markup text =
     (if contains_sub text ''<''
      then replace_matches storeHTMLTagRe '' ''
             (replace_matches (block_re ''script'') '' '' (replace_matches (block_re ''style'') '' '' text))
      else text)"

definition normalizeExtractionText :: "(string \<Rightarrow> string) \<Rightarrow> string \<Rightarrow> string" where
  "normalizeExtractionText unescape source =
     collapseExtractionWhitespace
       (replace_matches (match_text [CHR 0x0A]) '' ''
         (replace_matches (match_text [CHR 0x0D]) '' ''
           (replace_matches (match_text (map char_of [194, 160 :: nat])) '' '' (strip_markup (unescape source)))))"

section \<open>Codes\<close>

definition template_words :: "string list" where
  "template_words =
     [''HTML'', ''BODY'', ''HEAD'', ''META'', ''STYLE'', ''SCRIPT'', ''TITLE'', ''TABLE'', ''TR'', ''TD'', ''SPAN'', ''DIV'',
      ''FONT'', ''CLASS'', ''WIDTH'', ''HEIGHT'', ''OPENAI'', ''TEMPORARY'', ''VERIFICATION'', ''VERIFY'', ''CODE'', ''CONTINUE'',
      ''PLEASE'', ''IGNORE'', ''ACCOUNT'', ''CREATE'', ''CREATING'', ''TEAM'', ''BEST'', ''HELLO'', ''WELCOME'', ''LOGIN'', ''SIGNIN'',
      ''BUTTON'', ''EMAIL'', ''MAIL'', ''NOREPLY'', ''SECURITY'']"

definition digit_rune :: "nat \<Rightarrow> bool" where
  "digit_rune r = (48 \<le> r \<and> r \<le> 57)"

definition upper_rune_ascii :: "nat \<Rightarrow> bool" where
  "upper_rune_ascii r = (65 \<le> r \<and> r \<le> 90)"

definition isLikelyVerificationCodeUpper :: "string \<Rightarrow> bool" where
  "isLikelyVerificationCodeUpper code =
     (let rs = map fst (runes code) in
      if length code < 4 \<or> length code > 10 then False
      else if \<not> list_all (\<lambda>r. digit_rune r \<or> upper_rune_ascii r) rs then False
      else if trim_cut ''0'' code = [] then False
      else if list_all digit_rune rs then length code \<ge> 4 \<and> length code \<le> 8
      else if list_all upper_rune_ascii rs \<and> code \<in> set template_words then False
      else True)"

definition IsLikelyVerificationCode :: "(nat \<Rightarrow> nat) \<Rightarrow> string \<Rightarrow> bool" where
  "IsLikelyVerificationCode up value = isLikelyVerificationCodeUpper (to_upper up (trim_space value))"

definition codeByteMatches :: "bool \<Rightarrow> char \<Rightarrow> bool" where
  "codeByteMatches digitsOnly c = (is_digit c \<or> (\<not> digitsOnly \<and> is_upper c))"

definition isASCIIWordByte :: "char \<Rightarrow> bool" where
  "isASCIIWordByte c = (c = CHR ''_'' \<or> is_digit c \<or> is_upper c \<or> is_lower c)"

definition code_length_ok :: "bool \<Rightarrow> nat \<Rightarrow> bool" where
  "code_length_ok digitsOnly n = (if digitsOnly then 4 \<le> n \<and> n \<le> 8 else 6 \<le> n \<and> n \<le> 10)"

function first_code :: "string \<Rightarrow> bool \<Rightarrow> nat \<Rightarrow> string" where
  "first_code source digitsOnly index =
     (if index < length source then
        (if \<not> codeByteMatches digitsOnly (source ! index) then first_code source digitsOnly (index + 1)
         else
           (let stop = index + length (takeWhile (codeByteMatches digitsOnly) (drop index source));
                candidate = take (stop - index) (drop index source) in
            if (index > 0 \<and> isASCIIWordByte (source ! (index - 1)))
               \<or> (stop < length source \<and> isASCIIWordByte (source ! stop))
            then first_code source digitsOnly stop
            else if \<not> code_length_ok digitsOnly (length candidate) then first_code source digitsOnly stop
            else if isLikelyVerificationCodeUpper candidate then candidate
            else first_code source digitsOnly stop))
      else [])"
  by pat_completeness auto

lemma run_advances:
  "index < length source \<Longrightarrow> P (source ! index) \<Longrightarrow>
   0 < length (takeWhile P (drop index source)) \<and> index + length (takeWhile P (drop index source)) \<le> length source"
proof -
  assume i: "index < length source" and p: "P (source ! index)"
  have d: "drop index source = source ! index # drop (Suc index) source" using i by (simp add: Cons_nth_drop_Suc)
  have "length (takeWhile P (drop index source)) \<le> length (drop index source)" by (rule length_takeWhile_le)
  then show ?thesis using i p by (simp add: d)
qed

lemma run_measure:
  assumes "index < length source" "P (source ! index)" "stop = index + length (takeWhile P (drop index source))"
  shows "length source - stop < length source - index"
  using run_advances [of index source P] assms by arith

termination first_code
proof (relation "measure (\<lambda>(s, d, i). length s - i)")
qed (simp_all add: run_measure diff_less_mono2)

declare first_code.simps [simp del]

definition firstLikelyCode :: "string \<Rightarrow> bool \<Rightarrow> string" where
  "firstLikelyCode source digitsOnly = first_code source digitsOnly 0"

definition storeCodeHints :: "string list" where
  "storeCodeHints =
     [''TEMPORARY VERIFICATION CODE'', ''VERIFICATION CODE'', ''VERIFY CODE'',
      map char_of [233, 170, 140, 232, 175, 129, 231, 160, 129 :: nat],
      map char_of [230, 160, 161, 233, 170, 140, 231, 160, 129 :: nat],
      map char_of [229, 138, 168, 230, 128, 129, 231, 160, 129 :: nat],
      ''PASSCODE'', ''ONE-TIME'', ''ONE TIME'', ''OTP'', ''CODE'']"

definition better_hint :: "string \<Rightarrow> nat \<Rightarrow> nat \<times> int \<Rightarrow> string \<Rightarrow> nat \<times> int" where
  "better_hint source offset best hint =
     (case index_sub (drop offset source) hint of
        None \<Rightarrow> best
      | Some index \<Rightarrow>
          (let start = offset + index; stop = int (start + length hint) in
           if start < fst best \<or> (start = fst best \<and> stop > snd best) then (start, stop) else best))"

definition nextCodeHint :: "string \<Rightarrow> nat \<Rightarrow> (nat \<times> nat) option" where
  "nextCodeHint source offset =
     (let (start, stop) = foldl (better_hint source offset) (length source, -1) storeCodeHints in
      if stop < 0 then None else Some (start, nat stop))"

lemma hint_fold:
  "offset \<le> length source \<Longrightarrow> [] \<notin> set hints \<Longrightarrow> snd b < 0 \<or> (offset < nat (snd b) \<and> nat (snd b) \<le> length source) \<Longrightarrow>
   (let r = foldl (better_hint source offset) b hints in
    snd r < 0 \<or> (offset < nat (snd r) \<and> nat (snd r) \<le> length source))"
proof (induction hints arbitrary: b)
  case (Cons h hints)
  let ?b = "better_hint source offset b h"
  have "?b = b \<or> (\<exists>i. index_sub (drop offset source) h = Some i \<and> snd ?b = int (offset + i + length h))"
    by (simp add: better_hint_def Let_def split: option.split)
  moreover have "offset < offset + i + length h \<and> offset + i + length h \<le> length source" if "index_sub (drop offset source) h = Some i" for i
  proof -
    have "length h > 0" using Cons.prems(2) by auto
    then show ?thesis using index_sub_le [OF that] Cons.prems(1) by simp
  qed
  ultimately have "snd ?b < 0 \<or> (offset < nat (snd ?b) \<and> nat (snd ?b) \<le> length source)"
    using Cons.prems(3) by (metis nat_int)
  then show ?case using Cons.IH [of ?b] Cons.prems(1,2) by simp
qed (simp add: Let_def)

lemma nextCodeHint_advances:
  assumes "nextCodeHint source offset = Some (a, b)" "offset \<le> length source"
  shows "offset < b \<and> b \<le> length source"
proof -
  have "[] \<notin> set storeCodeHints" by (simp add: storeCodeHints_def)
  from hint_fold [OF assms(2) this, of "(length source, -1)"] assms(1)
  show ?thesis by (auto simp: nextCodeHint_def Let_def split: prod.splits if_splits)
qed

function keyword_code :: "string \<Rightarrow> nat \<Rightarrow> string" where
  "keyword_code flat searchAt =
     (if searchAt < length flat then
        (case nextCodeHint flat searchAt of
           None \<Rightarrow> []
         | Some (a, start) \<Rightarrow>
             (let window = take 260 (drop start flat) in
              if firstLikelyCode window True \<noteq> [] then firstLikelyCode window True
              else if firstLikelyCode window False \<noteq> [] then firstLikelyCode window False
              else keyword_code flat start))
      else [])"
  by pat_completeness auto
termination
  by (relation "measure (\<lambda>(s, i). length s - i)") (use nextCodeHint_advances in fastforce)+

declare keyword_code.simps [simp del]

definition ExtractCode :: "(string \<Rightarrow> string) \<Rightarrow> (nat \<Rightarrow> nat) \<Rightarrow> string \<Rightarrow> string \<times> string" where
  "ExtractCode unescape up source =
     (let flat = to_upper up (normalizeExtractionText unescape source) in
      if flat = [] then ([], [])
      else if keyword_code flat 0 \<noteq> [] then (keyword_code flat 0, ''keyword'')
      else if firstLikelyCode flat True \<noteq> [] then (firstLikelyCode flat True, ''digits'')
      else if firstLikelyCode flat False \<noteq> [] then (firstLikelyCode flat False, ''token'')
      else ([], []))"

section \<open>Links\<close>

definition hasAnySuffix :: "string \<Rightarrow> string list \<Rightarrow> bool" where
  "hasAnySuffix value suffixes = list_ex (\<lambda>s. has_suffix value s) suffixes"

definition asset_suffixes :: "string list" where
  "asset_suffixes =
     [''.css'', ''.js'', ''.png'', ''.jpg'', ''.jpeg'', ''.gif'', ''.svg'', ''.webp'', ''.ico'', ''.woff'', ''.woff2'', ''.ttf'', ''.eot'']"

definition link_words :: "string list" where
  "link_words =
     [''verify'', ''verification'', ''confirm'', ''activate'', ''reset'', ''magic'', ''signin'', ''login'', ''auth'', ''token'', ''invite'']"

definition link_score :: "string \<Rightarrow> int" where
  "link_score lower =
     (if list_ex (\<lambda>w. contains_sub lower w) link_words then 10 else 0)
     - (if contains_sub lower ''cdn.'' \<or> contains_sub lower ''/static/'' \<or> contains_sub lower ''/assets/'' then 10 else 0)"

definition better_link :: "(nat \<Rightarrow> nat) \<Rightarrow> string \<times> int \<Rightarrow> string \<Rightarrow> string \<times> int" where
  "better_link lo best matched =
     (let link = trim_right '').,!?'' matched; lower = to_lower lo link in
      if link = [] then best
      else if hasAnySuffix lower asset_suffixes then best
      else if link_score lower > snd best then (link, link_score lower) else best)"

definition ExtractLink :: "(nat \<Rightarrow> nat) \<Rightarrow> string \<Rightarrow> string \<times> string" where
  "ExtractLink lo source =
     (let (best, score) = foldl (better_link lo) ([], - (2 ^ 30)) (find_matches storeLinkRe source) in
      if best = [] then ([], []) else (best, ''http''))"

end
