(* ===== verification/Mail_Extract_Promises.thy ===== *)
theory Mail_Extract_Promises
  imports Mail_Extract
begin

text \<open>
  What extraction promises: white space is collapsed as splitting into fields and joining with one space
  would, a code is a plausible one and stands in the text, a free-standing run of digits is never missed, and
  the link is the first of the best ones.
\<close>

section \<open>Codes\<close>

lemma hd_drop_nth: "i < length s \<Longrightarrow> drop i s \<noteq> [] \<and> hd (drop i s) = s ! i"
  by (simp add: hd_drop_conv_nth)

lemma last_take_nth: "0 < i \<Longrightarrow> i \<le> length s \<Longrightarrow> take i s \<noteq> [] \<and> last (take i s) = s ! (i - 1)"
  by (cases i) (auto simp: take_Suc_conv_app_nth)

lemma codeByte_digits: "codeByteMatches True = is_digit"
  by (rule ext) (simp add: codeByteMatches_def)

definition free_standing :: "string \<Rightarrow> string \<Rightarrow> bool" where
  "free_standing a b = ((a = [] \<or> \<not> isASCIIWordByte (last a)) \<and> (b = [] \<or> \<not> isASCIIWordByte (hd b)))"

lemma run_split:
  assumes "index < length source"
  shows "source = take index source @ takeWhile P (drop index source) @ drop (index + length (takeWhile P (drop index source))) source"
proof -
  have "drop index source = takeWhile P (drop index source) @ drop (length (takeWhile P (drop index source))) (drop index source)"
    by (metis append_take_drop_id takeWhile_eq_take)
  then show ?thesis by (metis add.commute append_take_drop_id drop_drop)
qed

definition refused :: "string \<Rightarrow> bool \<Rightarrow> nat \<Rightarrow> bool" where
  "refused source d index =
     (let run = takeWhile (codeByteMatches d) (drop index source); stop = index + length run in
      (index > 0 \<and> isASCIIWordByte (source ! (index - 1))) \<or> (stop < length source \<and> isASCIIWordByte (source ! stop))
      \<or> \<not> code_length_ok d (length run) \<or> \<not> isLikelyVerificationCodeUpper run)"

lemma first_code_end: "\<not> index < length source \<Longrightarrow> first_code source d index = []"
  by (subst first_code.simps) simp

lemma first_code_other:
  "index < length source \<Longrightarrow> \<not> codeByteMatches d (source ! index) \<Longrightarrow> first_code source d index = first_code source d (index + 1)"
  by (subst first_code.simps) simp

lemma first_code_run:
  assumes "index < length source" "codeByteMatches d (source ! index)"
  shows "first_code source d index =
    (if refused source d index then first_code source d (index + length (takeWhile (codeByteMatches d) (drop index source)))
     else takeWhile (codeByteMatches d) (drop index source))"
proof -
  have c: "take (index + length (takeWhile P (drop index source)) - index) (drop index source) = takeWhile P (drop index source)" for P
    by (simp add: takeWhile_eq_take [symmetric])
  have chain: "(if a then x else if \<not> l then x else if k then r else x) = (if a \<or> \<not> l \<or> \<not> k then x else r)" for a l k and x r :: string
    by simp
  show ?thesis
    by (subst first_code.simps) (simp only: assms if_True simp_thms if_False refused_def Let_def c chain disj_assoc)
qed

lemma first_code_induct [case_names finish other run]:
  assumes "\<And>i. \<not> i < length source \<Longrightarrow> P i"
    and "\<And>i. i < length source \<Longrightarrow> \<not> codeByteMatches d (source ! i) \<Longrightarrow> P (i + 1) \<Longrightarrow> P i"
    and "\<And>i. i < length source \<Longrightarrow> codeByteMatches d (source ! i) \<Longrightarrow> P (i + length (takeWhile (codeByteMatches d) (drop i source))) \<Longrightarrow> P i"
  shows "P (index :: nat)"
proof (induction "length source - index" arbitrary: index rule: less_induct)
  case less
  show ?case
  proof (cases "index < length source")
    case True
    then show ?thesis
      using assms(2,3) less [of "index + 1"] less [of "index + length (takeWhile (codeByteMatches d) (drop index source))"]
        run_measure [OF True, of "codeByteMatches d"]
      by (cases "codeByteMatches d (source ! index)") auto
  qed (use assms(1) in blast)
qed

lemma first_code_sound:
  "first_code source d index = c \<Longrightarrow> c \<noteq> [] \<Longrightarrow>
   isLikelyVerificationCodeUpper c \<and> code_length_ok d (length c) \<and> list_all (codeByteMatches d) c
   \<and> (\<exists>a b. source = a @ c @ b \<and> free_standing a b)"
proof (induction index rule: first_code_induct [of source _ d])
  case (finish i)
  then show ?case by (simp add: first_code_end)
next
  case (other i)
  then show ?case by (simp add: first_code_other)
next
  case (run i)
  let ?run = "takeWhile (codeByteMatches d) (drop i source)"
  let ?stop = "i + length ?run"
  show ?case
  proof (cases "refused source d i")
    case True
    then show ?thesis using run by (simp add: first_code_run)
  next
    case False
    have le: "?stop \<le> length source" using run_advances [OF run(1), of "codeByteMatches d"] run(2) by simp
    have ok: "\<not> (0 < i \<and> isASCIIWordByte (source ! (i - 1)))" "\<not> (?stop < length source \<and> isASCIIWordByte (source ! ?stop))"
      "isLikelyVerificationCodeUpper ?run" "code_length_ok d (length ?run)"
      using False unfolding refused_def Let_def by blast+
    have fs: "free_standing (take i source) (drop ?stop source)"
      using ok(1,2) last_take_nth [of i source] hd_drop_nth [of ?stop source] run(1) by (auto simp: free_standing_def)
    have ex: "\<exists>a b. source = a @ ?run @ b \<and> free_standing a b"
      by (rule exI [of _ "take i source"], rule exI [of _ "drop ?stop source"], rule conjI [OF run_split [OF run(1)] fs])
    have c: "c = ?run" using run False by (simp add: first_code_run)
    have "list_all (codeByteMatches d) ?run" by (auto simp: list_all_iff dest: set_takeWhileD)
    then show ?thesis unfolding c using ok(3,4) ex by (intro conjI)
  qed
qed

lemma likely_not_zeros: "isLikelyVerificationCodeUpper c \<Longrightarrow> \<exists>x \<in> set c. x \<noteq> CHR ''0''"
proof -
  assume "isLikelyVerificationCodeUpper c"
  then have ne: "trim_cut ''0'' c \<noteq> []" by (auto simp: isLikelyVerificationCodeUpper_def Let_def split: if_splits)
  have "hd (trim_cut ''0'' c) \<notin> set ''0''" by (rule trim_cut_hd [OF ne])
  moreover have "hd (trim_cut ''0'' c) \<in> set c" using ne set_trim_cut hd_in_set by blast
  ultimately show ?thesis by auto
qed

lemma likely_length: "isLikelyVerificationCodeUpper c \<Longrightarrow> 4 \<le> length c \<and> length c \<le> 10"
  by (auto simp: isLikelyVerificationCodeUpper_def Let_def split: if_splits)

lemma template_words_upper: "w \<in> set template_words \<Longrightarrow> is_ascii w \<and> list_all is_upper w"
  by (auto simp: template_words_def is_ascii_def is_upper_def)

lemma likely_not_template: "isLikelyVerificationCodeUpper c \<Longrightarrow> c \<notin> set template_words"
proof
  assume l: "isLikelyVerificationCodeUpper c" and t: "c \<in> set template_words"
  have u: "list_all upper_rune_ascii (map fst (runes c))"
    using template_words_upper [OF t] by (auto simp: runes_ascii list_all_iff is_upper_def upper_rune_ascii_def)
  have "c \<noteq> []" using likely_length [OF l] by auto
  then have "\<not> list_all digit_rune (map fst (runes c))"
    using u by (cases "runes c") (auto simp: digit_rune_def upper_rune_ascii_def)
  then show False using l u t by (auto simp: isLikelyVerificationCodeUpper_def Let_def split: if_splits)
qed

lemma keyword_code_sound:
  "keyword_code flat i = c \<Longrightarrow> c \<noteq> [] \<Longrightarrow>
   \<exists>d. isLikelyVerificationCodeUpper c \<and> list_all (codeByteMatches d) c \<and> contains_sub flat c"
proof (induction flat i rule: keyword_code.induct)
  case (1 flat i)
  have i: "i < length flat" using "1.prems" by (subst (asm) keyword_code.simps) (auto split: if_splits)
  then obtain a start where n: "nextCodeHint flat i = Some (a, start)"
    using "1.prems" by (subst (asm) keyword_code.simps) (auto split: if_splits option.splits)
  let ?w = "take 260 (drop start flat)"
  have w: "contains_sub flat c" if "?w = x @ c @ y" for x y
    unfolding contains_sub_iff
    by (rule exI [of _ "take start flat @ x"], rule exI [of _ "y @ drop 260 (drop start flat)"])
       (metis append.assoc append_take_drop_id that)
  have hit: ?case if "firstLikelyCode ?w d = c" for d
    using first_code_sound [of ?w d 0 c] that "1.prems"(2) w by (auto simp: firstLikelyCode_def)
  have "firstLikelyCode ?w True = c \<or> firstLikelyCode ?w False = c
      \<or> (firstLikelyCode ?w True = [] \<and> firstLikelyCode ?w False = [] \<and> keyword_code flat start = c)"
    using "1.prems" i n by (subst (asm) keyword_code.simps) (simp add: Let_def split: if_splits)
  then show ?case using hit "1.IH" [OF i n refl refl] "1.prems"(2) by auto
qed


text \<open>C23. A code that \<open>ExtractCode\<close> reports is a plausible one: four to ten ASCII digits and upper-case letters, not
  all zeros, none of the words of mail templates, and it stands in the normalised upper-case text; one
  reported as found by its digits alone consists of at most eight of them and touches no other word.\<close>

theorem extracted_code_sound:
  assumes "ExtractCode unescape up source = (code, how)" "code \<noteq> []"
  shows "list_all (\<lambda>c. is_digit c \<or> is_upper c) code \<and> 4 \<le> length code \<and> length code \<le> 10 \<and> (\<exists>c \<in> set code. c \<noteq> CHR ''0'')
    \<and> code \<notin> set template_words \<and> contains_sub (to_upper up (normalizeExtractionText unescape source)) code
    \<and> how \<in> {''keyword'', ''digits'', ''token''}
    \<and> (how \<noteq> ''digits'' \<or> (list_all is_digit code \<and> length code \<le> 8
         \<and> (\<exists>a b. to_upper up (normalizeExtractionText unescape source) = a @ code @ b \<and> free_standing a b)))"
proof -
  let ?flat = "to_upper up (normalizeExtractionText unescape source)"
  have chars: "list_all (\<lambda>c. is_digit c \<or> is_upper c) code" if "list_all (codeByteMatches d) code" for d
    using that by (auto simp: list_all_iff codeByteMatches_def)
  have sub: "contains_sub ?flat code" if "?flat = a @ code @ b" for a b
    unfolding contains_sub_iff by (rule exI [of _ a], rule exI [of _ b]) (rule that)
  consider (k) "keyword_code ?flat 0 = code" "how = ''keyword''" | (d) "first_code ?flat True 0 = code" "how = ''digits''"
    | (t) "first_code ?flat False 0 = code" "how = ''token''"
    using assms by (auto simp: ExtractCode_def firstLikelyCode_def Let_def split: if_splits)
  then show ?thesis
  proof cases
    case k
    then obtain d where "isLikelyVerificationCodeUpper code" "list_all (codeByteMatches d) code" "contains_sub ?flat code"
      using keyword_code_sound [OF k(1) assms(2)] by blast
    then show ?thesis using k(2) chars likely_length likely_not_zeros likely_not_template by simp
  next
    case d
    then obtain a b where "isLikelyVerificationCodeUpper code" "code_length_ok True (length code)" "list_all (codeByteMatches True) code"
      and ab: "?flat = a @ code @ b" "free_standing a b" using first_code_sound [OF d(1) assms(2)] by blast
    moreover from this have "list_all is_digit code \<and> length code \<le> 8" by (simp add: codeByte_digits code_length_ok_def)
    ultimately show ?thesis using d(2) chars sub [OF ab(1)] likely_length likely_not_zeros likely_not_template by auto
  next
    case t
    then obtain a b where "isLikelyVerificationCodeUpper code" "list_all (codeByteMatches False) code" and ab: "?flat = a @ code @ b"
      using first_code_sound [OF t(1) assms(2)] by blast
    then show ?thesis using t(2) chars sub [OF ab] likely_length likely_not_zeros likely_not_template by simp
  qed
qed

lemma first_code_finds:
  assumes src: "source = a @ ds @ b" and ds: "list_all is_digit ds" "4 \<le> length ds" "length ds \<le> 8" "isLikelyVerificationCodeUpper ds"
    and fs: "free_standing a b"
  shows "i \<le> length a \<Longrightarrow> first_code source True i \<noteq> []"
proof (induction i rule: first_code_induct [of source _ True])
  case (finish i)
  then show ?case using src ds(2) by simp
next
  case (other i)
  have "i \<noteq> length a"
  proof
    assume "i = length a"
    then have "source ! i = hd ds" using src ds(2) by (cases ds) (auto simp: nth_append)
    moreover have "is_digit (hd ds)" using ds(1,2) by (cases ds) auto
    ultimately show False using other(2) by (simp add: codeByteMatches_def)
  qed
  then show ?case using other by (simp add: first_code_other)
next
  case (run i)
  let ?run = "takeWhile (codeByteMatches True) (drop i source)"
  show ?case
  proof (cases "i = length a")
    case True
    have hb: "b = [] \<or> \<not> is_digit (hd b)" using fs by (auto simp: free_standing_def isASCIIWordByte_def)
    have "takeWhile is_digit (ds @ b) = ds @ takeWhile is_digit b" using ds(1) by (simp add: list_all_iff takeWhile_append2)
    moreover have "takeWhile is_digit b = []" using hb by (cases b) auto
    ultimately have r: "?run = ds" using True src by (simp add: codeByte_digits)
    have "\<not> refused source True i"
      unfolding refused_def Let_def r using True src fs ds
      by (auto simp: code_length_ok_def free_standing_def nth_append last_conv_nth hd_conv_nth)
    then show ?thesis using run r ds(2) by (auto simp: first_code_run)
  next
    case False
    then have i: "i < length a" using run(4) by simp
    have "i + length ?run \<le> length a"
    proof (rule ccontr)
      assume "\<not> i + length ?run \<le> length a"
      then have l: "length a - 1 - i < length ?run" using i by arith
      then have "is_digit (?run ! (length a - 1 - i))" using nth_mem [OF l] unfolding codeByte_digits by (meson set_takeWhileD)
      moreover have "?run ! (length a - 1 - i) = drop i source ! (length a - 1 - i)" by (rule takeWhile_nth [OF l])
      moreover have "drop i source ! (length a - 1 - i) = source ! (length a - 1)"
        using nth_drop [of i source "length a - 1 - i"] i src by (simp del: drop_append)
      moreover have "source ! (length a - 1) = last a" using i src by (cases a) (auto simp: nth_append last_conv_nth)
      ultimately have "is_digit (last a)" by simp
      then show False using fs i by (auto simp: free_standing_def isASCIIWordByte_def)
    qed
    then have "first_code source True (i + length ?run) \<noteq> []" by (rule run(3))
    then show ?thesis using run by (auto simp: first_code_run)
  qed
qed

lemma digits_likely:
  assumes "list_all is_digit ds" "4 \<le> length ds" "length ds \<le> 8" "ds \<noteq> replicate (length ds) CHR ''0''"
  shows "isLikelyVerificationCodeUpper ds"
proof -
  have "is_ascii ds" using assms(1) by (auto simp: is_ascii_def is_digit_def list_all_iff)
  then have rs: "map fst (runes ds) = map byte ds" by (simp add: runes_ascii comp_def)
  have dg: "list_all digit_rune (map fst (runes ds))"
    unfolding rs using assms(1) by (auto simp: list_all_iff is_digit_def digit_rune_def)
  then have "list_all (\<lambda>r. digit_rune r \<or> upper_rune_ascii r) (map fst (runes ds))" by (auto simp: list_all_iff)
  moreover have "trim_cut ''0'' ds \<noteq> []"
  proof
    assume z: "trim_cut ''0'' ds = []"
    have "trim_left ''0'' ds = []"
    proof (rule ccontr)
      assume ne: "trim_left ''0'' ds \<noteq> []"
      then have h: "hd (trim_left ''0'' ds) \<notin> set ''0''" by (rule trim_left_hd)
      obtain t where "trim_left ''0'' ds = trim_cut ''0'' ds @ t \<and> set t \<subseteq> set ''0''"
        using trim_right_prefix [of "trim_left ''0'' ds" "''0''"] unfolding trim_cut_def by blast
      then show False using z ne h by (metis append_Nil hd_in_set subsetD)
    qed
    then have "\<forall>x \<in> set ds. x = CHR ''0''" by (auto simp: trim_left_def dropWhile_eq_Nil_conv)
    then show False using assms(4) by (metis replicate_length_same)
  qed
  ultimately show ?thesis using dg assms(2,3) by (simp add: isLikelyVerificationCodeUpper_def Let_def)
qed

text \<open>A free-standing code of four to eight digits is never missed: if the normalised text has such a run, not
  all zeros, with no letter, digit or underscore at either side, \<open>ExtractCode\<close> reports a code.\<close>

theorem free_standing_digits_found:
  assumes "to_upper up (normalizeExtractionText unescape source) = a @ ds @ b" "free_standing a b"
    "list_all is_digit ds" "4 \<le> length ds" "length ds \<le> 8" "ds \<noteq> replicate (length ds) CHR ''0''"
  shows "fst (ExtractCode unescape up source) \<noteq> []"
proof -
  have "first_code (a @ ds @ b) True 0 \<noteq> []"
    by (rule first_code_finds [OF refl assms(3-5) digits_likely [OF assms(3-6)] assms(2)]) simp
  moreover have "a @ ds @ b \<noteq> []" using assms(4) by auto
  ultimately show ?thesis by (simp add: ExtractCode_def assms(1) firstLikelyCode_def Let_def)
qed


lemma replace_absent: "p \<noteq> [] \<Longrightarrow> hd p \<notin> set s \<Longrightarrow> replace_matches (match_text p) w s = s"
proof (induction "match_text p" w s rule: replace_matches.induct)
  case (2 w c s)
  then have "match_text p (c # s) = None" by (cases p) (auto simp: match_text_def has_prefix_def)
  then show ?case using 2 by simp
qed simp

lemma nbsp_absent: "is_ascii s \<Longrightarrow> hd (map char_of [194, 160 :: nat]) \<notin> set s"
  by (auto simp: is_ascii_def list_all_iff)

lemma sample_flat: "to_upper (\<lambda>r. r) (normalizeExtractionText (\<lambda>s. s) ''PIN 482913'') = ''PIN '' @ ''482913'' @ []"
proof -
  have a: "is_ascii ''PIN 482913''" by (simp add: is_ascii_def)
  have c: "collapseExtractionWhitespace ''PIN 482913'' = ''PIN 482913''"
    by (simp add: collapseExtractionWhitespace_def runes_ascii [OF a] is_space_def)
  have "normalizeExtractionText (\<lambda>s. s) ''PIN 482913'' = ''PIN 482913''"
  proof -
    have m: "strip_markup ''PIN 482913'' = ''PIN 482913''" by (simp add: strip_markup_def contains_sub_def has_prefix_def)
    have r1: "replace_matches (match_text (map char_of [194, 160 :: nat])) '' '' ''PIN 482913'' = ''PIN 482913''"
      by (rule replace_absent [OF _ nbsp_absent [OF a]]) simp
    have r2: "replace_matches (match_text [CHR 0x0D]) '' '' ''PIN 482913'' = ''PIN 482913''"
      and r3: "replace_matches (match_text [CHR 0x0A]) '' '' ''PIN 482913'' = ''PIN 482913''"
      by (rule replace_absent; simp)+
    show ?thesis unfolding normalizeExtractionText_def m r1 r2 r3 c ..
  qed
  then show ?thesis by (simp add: to_upper_ascii [OF a] upper_char_def is_lower_def)
qed

lemma sample_standing: "free_standing ''PIN '' []"
  by (simp add: free_standing_def isASCIIWordByte_def is_digit_def is_upper_def is_lower_def)

lemma sample_digits: "list_all is_digit ''482913''"
  by (simp add: is_digit_def)

theorem extracted_code_sound_witness:
  "\<exists>code how. ExtractCode (\<lambda>s. s) (\<lambda>r. r) ''PIN 482913'' = (code, how) \<and> 4 \<le> length code \<and> length code \<le> 10"
proof -
  obtain code how where e: "ExtractCode (\<lambda>s. s) (\<lambda>r. r) ''PIN 482913'' = (code, how)" by fastforce
  have "first_code (''PIN '' @ ''482913'' @ []) True 0 \<noteq> []"
    by (rule first_code_finds [OF refl sample_digits _ _ digits_likely [OF sample_digits] sample_standing]) simp_all
  then have "code \<noteq> []" using e unfolding ExtractCode_def sample_flat by (auto simp: firstLikelyCode_def Let_def split: if_splits)
  then show ?thesis using extracted_code_sound [OF e] e by blast
qed

theorem free_standing_digits_found_witness: "fst (ExtractCode (\<lambda>s. s) (\<lambda>r. r) ''PIN 482913'') \<noteq> []"
  by (rule free_standing_digits_found [OF sample_flat sample_standing sample_digits]) simp_all

section \<open>White space\<close>

lemma split_base: "b < k \<Longrightarrow> (a * k + b) div k = (a :: nat) \<and> (a * k + b) mod k = b"
  by simp

lemma byte_char: "char_of (byte c :: nat) = c"
  by simp

text \<open>Writing a decoded code point gives back its bytes.\<close>

lemma encode_two:
  assumes "194 \<le> byte b" "byte b \<le> (223 :: nat)" "cont c"
  shows "encode_rune ((byte b - 192) * 64 + (byte c - 128)) = [b, c]"
proof -
  obtain p q where p: "byte b = 192 + p" "2 \<le> p" "p < 32" and q: "byte c = 128 + q" "q < (64 :: nat)"
    using assms le_Suc_ex [of 192 "byte b :: nat"] le_Suc_ex [of 128 "byte c :: nat"] by (auto simp: cont_def)
  have "(p * 64 + q) div 64 = p" "(p * 64 + q) mod 64 = q" using split_base [OF q(2)] by blast+
  then show ?thesis using p q byte_char [of b] byte_char [of c] by (simp add: encode_rune_def)
qed

lemma encode_three:
  assumes "224 \<le> byte b" "byte b \<le> (239 :: nat)" "second_ok (byte b) c" "cont d"
  shows "encode_rune ((byte b - 224) * 4096 + (byte c - 128) * 64 + (byte d - 128)) = [b, c, d]"
proof -
  have c: "128 \<le> byte c" "byte c \<le> (191 :: nat)" using assms(3) by (auto simp: second_ok_def split: if_splits)
  obtain p q r where p: "byte b = 224 + p" "p < 16" and q: "byte c = 128 + q" "q < 64" and r: "byte d = 128 + r" "r < (64 :: nat)"
    using assms c le_Suc_ex [of 224 "byte b :: nat"] le_Suc_ex [of 128 "byte c :: nat"] le_Suc_ex [of 128 "byte d :: nat"]
    by (auto simp: cont_def)
  have lo: "p = 0 \<Longrightarrow> 32 \<le> q" and hi: "p = 13 \<Longrightarrow> q < 32" using assms(3) p q by (auto simp: second_ok_def)
  let ?v = "p * 4096 + q * 64 + r"
  have v: "?v = (p * 64 + q) * 64 + r" by simp
  have "?v div 64 = p * 64 + q" "?v mod 64 = r" unfolding v using split_base [OF r(2)] by blast+
  moreover have "?v div 4096 = ?v div 64 div 64" by (simp add: div_mult2_eq [symmetric])
  moreover have "(p * 64 + q) div 64 = p" "(p * 64 + q) mod 64 = q" using split_base [OF q(2)] by blast+
  moreover have "2048 \<le> ?v" using lo by (cases "p = 0") auto
  moreover have "\<not> (55296 \<le> ?v \<and> ?v \<le> 57343)" using hi q r by (cases "p \<le> 12"; cases "p = 13") auto
  moreover have "?v < 65536" using p q r by simp
  ultimately show ?thesis using p q r byte_char [of b] byte_char [of c] byte_char [of d] by (auto simp: encode_rune_def)
qed


lemma encode_four:
  assumes "240 \<le> byte b" "byte b \<le> (244 :: nat)" "second_ok (byte b) c" "cont d" "cont e"
  shows "encode_rune ((byte b - 240) * 262144 + (byte c - 128) * 4096 + (byte d - 128) * 64 + (byte e - 128)) = [b, c, d, e]"
proof -
  have c: "128 \<le> byte c" "byte c \<le> (191 :: nat)" using assms(3) by (auto simp: second_ok_def split: if_splits)
  obtain p q r t where p: "byte b = 240 + p" "p < 5" and q: "byte c = 128 + q" "q < 64" and r: "byte d = 128 + r" "r < 64"
    and t: "byte e = 128 + t" "t < (64 :: nat)"
    using assms c le_Suc_ex [of 240 "byte b :: nat"] le_Suc_ex [of 128 "byte c :: nat"] le_Suc_ex [of 128 "byte d :: nat"]
      le_Suc_ex [of 128 "byte e :: nat"] by (auto simp: cont_def)
  have lo: "p = 0 \<Longrightarrow> 16 \<le> q" and hi: "p = 4 \<Longrightarrow> q < 16" using assms(3) p q by (auto simp: second_ok_def)
  let ?v = "p * 262144 + q * 4096 + r * 64 + t"
  have v: "?v = ((p * 64 + q) * 64 + r) * 64 + t" by simp
  have "?v div 64 = (p * 64 + q) * 64 + r" "?v mod 64 = t" unfolding v using split_base [OF t(2)] by blast+
  moreover have "((p * 64 + q) * 64 + r) div 64 = p * 64 + q" "((p * 64 + q) * 64 + r) mod 64 = r" using split_base [OF r(2)] by blast+
  moreover have "(p * 64 + q) div 64 = p" "(p * 64 + q) mod 64 = q" using split_base [OF q(2)] by blast+
  moreover have "?v div 4096 = ?v div 64 div 64" "?v div 262144 = ?v div 64 div 64 div 64" by (simp_all add: div_mult2_eq [symmetric])
  moreover have "65536 \<le> ?v" using lo by (cases "p = 0") auto
  moreover have "?v \<le> 1114111" using hi p q r t by (cases "p \<le> 3"; cases "p = 4") auto
  ultimately show ?thesis using p q r t byte_char [of b] byte_char [of c] byte_char [of d] byte_char [of e] by (auto simp: encode_rune_def)
qed

lemma encode_decode:
  assumes "decode_rune s = (r, n)" "s \<noteq> []" "\<not> (r = rune_error \<and> n = 1)"
  shows "encode_rune r = take n s"
proof -
  obtain b bs where s: "s = b # bs" using assms(2) by (cases s) auto
  show ?thesis
    using assms(1,3) encode_two [of b] encode_three [of b] encode_four [of b] byte_char [of b]
    unfolding s by (auto simp: decode_rune.simps(2) Let_def encode_rune_ascii split: if_splits list.splits)
qed

lemma encode_chunk: "valid_utf8 s \<Longrightarrow> c \<in> set (runes s) \<Longrightarrow> encode_rune (fst c) = snd c"
proof -
  assume v: "valid_utf8 s" and c: "c \<in> set (runes s)"
  obtain x where x: "x \<noteq> []" "c = (fst (decode_rune x), take (snd (decode_rune x)) x)" using runes_chunk_decoded [OF c] by blast
  have "\<not> invalid_chunk c" using v c by (simp add: valid_utf8_def list_all_iff)
  then have "\<not> (fst (decode_rune x) = rune_error \<and> snd (decode_rune x) = 1)" using x by (cases x) (auto simp: invalid_chunk_def)
  then show ?thesis using encode_decode [of x "fst (decode_rune x)" "snd (decode_rune x)"] x by simp
qed

lemma field_runs_ne: "w \<noteq> [] \<Longrightarrow> field_runs cs w \<noteq> []"
proof (induction cs arbitrary: w)
  case (Cons c cs)
  then show ?case by (simp add: Cons.IH)
qed simp

lemma join_Cons: "xs \<noteq> [] \<Longrightarrow> join_with sep (x # xs) = x @ sep @ join_with sep xs"
  by (cases xs) simp_all

lemma rebuild_joins:
  assumes "\<And>c. c \<in> set cs \<Longrightarrow> encode_rune (fst c) = snd c \<and> snd c \<noteq> []"
  shows "rebuild cs False False = join_with '' '' (field_runs cs [])
    \<and> rebuild cs True True = (if field_runs cs [] = [] then [] else '' '' @ join_with '' '' (field_runs cs []))
    \<and> (\<forall>w. w \<noteq> [] \<longrightarrow> w @ rebuild cs False True = join_with '' '' (field_runs cs w))"
  using assms
proof (induction cs)
  case (Cons c cs)
  have e: "encode_rune (fst c) = snd c" "snd c \<noteq> []" using Cons.prems by auto
  have IH: "rebuild cs False False = join_with '' '' (field_runs cs [])"
    "rebuild cs True True = (if field_runs cs [] = [] then [] else '' '' @ join_with '' '' (field_runs cs []))"
    "\<And>w. w \<noteq> [] \<Longrightarrow> w @ rebuild cs False True = join_with '' '' (field_runs cs w)"
    using Cons by auto
  show ?case
  proof (cases "is_space (fst c)")
    case True
    then show ?thesis using IH(1,2) by (simp add: space_chunk_def join_Cons)
  next
    case False
    then show ?thesis
      using IH(3) [OF e(2)] IH(3) e field_runs_ne [OF e(2)] by (auto simp: space_chunk_def) (metis append_assoc append_is_Nil_conv)
  qed
qed simp

lemma single_spaces_join:
  assumes "\<And>c. c \<in> set cs \<Longrightarrow> encode_rune (fst c) = snd c \<and> snd c \<noteq> []"
  shows "(needs_normalization cs True = (False, False) \<longrightarrow> cs \<noteq> [] \<and> unrunes cs = join_with '' '' (field_runs cs []))
    \<and> (needs_normalization cs False = (False, False) \<longrightarrow> (\<forall>w. w \<noteq> [] \<longrightarrow> w @ unrunes cs = join_with '' '' (field_runs cs w)))"
  using assms
proof (induction cs)
  case (Cons c cs)
  have e: "encode_rune (fst c) = snd c" "snd c \<noteq> []" using Cons.prems by auto
  have IH: "needs_normalization cs True = (False, False) \<Longrightarrow> cs \<noteq> [] \<and> unrunes cs = join_with '' '' (field_runs cs [])"
    "needs_normalization cs False = (False, False) \<Longrightarrow> w \<noteq> [] \<Longrightarrow> w @ unrunes cs = join_with '' '' (field_runs cs w)" for w
    using Cons by auto
  have ne: "cs \<noteq> [] \<Longrightarrow> unrunes cs \<noteq> []" using Cons.prems by (cases cs) auto
  have sp: "fst c = 32 \<Longrightarrow> snd c = '' ''" using e(1) byte_char [of "CHR '' ''"] by (simp add: encode_rune_def)
  show ?case
  proof (cases "is_space (fst c)")
    case True
    have "field_runs cs [] \<noteq> []" if "needs_normalization cs True = (False, False)" using IH(1) [OF that] ne by auto
    then show ?thesis using True IH(1) sp by (auto simp: space_chunk_def join_Cons)
  next
    case False
    then show ?thesis using IH(2) [of "snd c"] IH(2) e(2) by (auto simp: space_chunk_def) (metis append_assoc append_is_Nil_conv)
  qed
qed simp

text \<open>Collapsing white space, with its shortcut for text that is already in order, is the same as splitting into
  fields and joining them with single spaces, for every valid text.\<close>

theorem collapse_joins_fields:
  assumes "valid_utf8 value"
  shows "collapseExtractionWhitespace value = join_with '' '' (fields value)"
proof -
  have c: "\<And>c. c \<in> set (runes value) \<Longrightarrow> encode_rune (fst c) = snd c \<and> snd c \<noteq> []"
    using encode_chunk [OF assms] runes_chunk_nonempty by blast
  note r = rebuild_joins [of "runes value", OF c] and k = single_spaces_join [of "runes value", OF c]
  show ?thesis
    using r k by (cases "needs_normalization (runes value) True") (auto simp: collapseExtractionWhitespace_def fields_def)
qed

theorem collapse_joins_fields_witness: "collapseExtractionWhitespace ''  a  b '' = ''a b''"
proof -
  have a: "is_ascii ''  a  b ''" by (simp add: is_ascii_def)
  have v: "valid_utf8 ''  a  b ''" by (simp add: valid_ascii_Cons)
  have "fields ''  a  b '' = [''a'', ''b'']" by (simp add: fields_def runes_ascii [OF a] space_chunk_def is_space_def)
  then show ?thesis using collapse_joins_fields [OF v] by simp
qed


section \<open>Links\<close>

definition link_of :: "string \<Rightarrow> string" where
  "link_of matched = trim_right '').,!?'' matched"

definition candidate_links :: "(nat \<Rightarrow> nat) \<Rightarrow> string \<Rightarrow> string list" where
  "candidate_links lo source =
     filter (\<lambda>l. l \<noteq> [] \<and> \<not> hasAnySuffix (to_lower lo l) asset_suffixes) (map link_of (find_matches storeLinkRe source))"

definition score_of :: "(nat \<Rightarrow> nat) \<Rightarrow> string \<Rightarrow> int" where
  "score_of lo l = link_score (to_lower lo l)"

definition keep_better :: "(nat \<Rightarrow> nat) \<Rightarrow> string \<times> int \<Rightarrow> string \<Rightarrow> string \<times> int" where
  "keep_better lo best l = (if score_of lo l > snd best then (l, score_of lo l) else best)"

lemma better_link_candidates:
  "foldl (better_link lo) b ms =
   foldl (keep_better lo) b (filter (\<lambda>l. l \<noteq> [] \<and> \<not> hasAnySuffix (to_lower lo l) asset_suffixes) (map link_of ms))"
  by (induction ms arbitrary: b) (auto simp: better_link_def keep_better_def score_of_def link_of_def Let_def)

lemma keep_better_first:
  "foldl (keep_better lo) (l0, n0) ls = (l, n) \<Longrightarrow>
   (l = l0 \<and> n = n0 \<and> list_all (\<lambda>x. score_of lo x \<le> n0) ls)
   \<or> (\<exists>xs ys. ls = xs @ l # ys \<and> n = score_of lo l \<and> n0 < n \<and> list_all (\<lambda>x. score_of lo x < n) xs \<and> list_all (\<lambda>y. score_of lo y \<le> n) ys)"
proof (induction ls arbitrary: l0 n0)
  case (Cons a ls)
  show ?case
  proof (cases "score_of lo a > n0")
    case True
    then have "keep_better lo (l0, n0) a = (a, score_of lo a)" by (simp add: keep_better_def)
    then have "foldl (keep_better lo) (a, score_of lo a) ls = (l, n)" using Cons.prems by simp
    then consider "l = a" "n = score_of lo a" "list_all (\<lambda>x. score_of lo x \<le> n) ls"
      | xs ys where "ls = xs @ l # ys" "n = score_of lo l" "score_of lo a < n" "list_all (\<lambda>x. score_of lo x < n) xs" "list_all (\<lambda>y. score_of lo y \<le> n) ys"
      using Cons.IH by blast
    then show ?thesis
    proof cases
      case 1
      then show ?thesis using True by (intro disjI2 exI [of _ "[]"] exI [of _ ls]) simp
    next
      case (2 xs ys)
      then show ?thesis using True by (intro disjI2 exI [of _ "a # xs"] exI [of _ ys]) simp
    qed
  next
    case False
    then have "keep_better lo (l0, n0) a = (l0, n0)" by (simp add: keep_better_def)
    then have "foldl (keep_better lo) (l0, n0) ls = (l, n)" using Cons.prems by simp
    then consider "l = l0" "n = n0" "list_all (\<lambda>x. score_of lo x \<le> n0) ls"
      | xs ys where "ls = xs @ l # ys" "n = score_of lo l" "n0 < n" "list_all (\<lambda>x. score_of lo x < n) xs" "list_all (\<lambda>y. score_of lo y \<le> n) ys"
      using Cons.IH by blast
    then show ?thesis
    proof cases
      case (2 xs ys)
      then show ?thesis using False by (intro disjI2 exI [of _ "a # xs"] exI [of _ ys]) simp
    qed (use False in simp)
  qed
qed simp

lemma link_score_range: "-10 \<le> link_score x \<and> link_score x \<le> 10"
  by (simp add: link_score_def)

lemma candidate_nonempty: "l \<in> set (candidate_links lo source) \<Longrightarrow> l \<noteq> []"
  by (simp add: candidate_links_def)

text \<open>The link \<open>ExtractLink\<close> reports is the first of those with the best score among the links of the text that
  are not assets, and there is none only if the text has no such link.\<close>

theorem link_is_first_best:
  "if candidate_links lo source = [] then ExtractLink lo source = ([], [])
   else \<exists>xs link ys. candidate_links lo source = xs @ link # ys \<and> ExtractLink lo source = (link, ''http'')
     \<and> list_all (\<lambda>x. score_of lo x < score_of lo link) xs \<and> list_all (\<lambda>y. score_of lo y \<le> score_of lo link) ys"
proof -
  let ?ls = "candidate_links lo source"
  obtain l n where f: "foldl (keep_better lo) ([], - (2 ^ 30)) ?ls = (l, n)" by fastforce
  have e: "ExtractLink lo source = (if l = [] then ([], []) else (l, ''http''))"
    unfolding ExtractLink_def better_link_candidates candidate_links_def [symmetric] f by simp
  show ?thesis
  proof (cases "?ls = []")
    case True
    then show ?thesis using f e by simp
  next
    case False
    have "\<not> list_all (\<lambda>x. score_of lo x \<le> - (2 ^ 30)) ?ls"
      using False link_score_range [of "to_lower lo (hd ?ls)"] by (cases ?ls) (auto simp: score_of_def)
    then obtain xs ys where s: "?ls = xs @ l # ys" "n = score_of lo l" "list_all (\<lambda>x. score_of lo x < n) xs" "list_all (\<lambda>y. score_of lo y \<le> n) ys"
      using keep_better_first [OF f] by blast
    have "l \<noteq> []" using candidate_nonempty [of l lo source] s(1) by simp
    then show ?thesis using False s e by auto
  qed
qed

end
