(* ===== verification/Domains.thy ===== *)
theory Domains
  imports Donations
begin

text \<open>
  The domain pool (\<open>src/api/store/postgres.go\<close>, \<open>AddDomain\<close> to \<open>ToggleDomain\<close>) with the cache of its active part
  (\<open>domains_cache.go\<close>), and the MX check of a domain.  A statement that succeeds empties the cache; the cache
  is read and filled by one goroutine at a time.  \<open>fault\<close> is a failure of the statement.  The case folding of
  \<open>strings.EqualFold\<close> outside ASCII is a parameter, as the Unicode tables are.
\<close>

section \<open>The cache of the active domains\<close>

type_synonym domain_cache = "(mail_domain list \<times> time) option"

record domain_store =
  ds_db :: db
  ds_cache :: domain_cache

definition activeDomainsCacheTTL :: duration where
  "activeDomainsCacheTTL = 5 * second"

definition getCachedActiveDomains :: "time \<Rightarrow> domain_cache \<Rightarrow> mail_domain list option \<times> domain_cache" where
  "getCachedActiveDomains now c =
     (case c of
        None \<Rightarrow> (None, None)
      | Some (ds, e) \<Rightarrow> if \<not> now < e then (None, None) else (Some ds, c))"

definition cacheActiveDomains :: "time \<Rightarrow> mail_domain list \<Rightarrow> domain_cache" where
  "cacheActiveDomains now ds = Some (ds, now + activeDomainsCacheTTL)"

definition loadActiveDomains :: "db \<Rightarrow> mail_domain list" where
  "loadActiveDomains d = filter dom_is_active (db_domains d)"

text \<open>\<open>later\<close> is the time at which the loaded list is cached.\<close>

definition GetActiveDomains :: "bool \<Rightarrow> time \<Rightarrow> time \<Rightarrow> domain_store \<Rightarrow> (db_error, mail_domain list) result \<times> domain_store" where
  "GetActiveDomains fault now later s =
     (case getCachedActiveDomains now (ds_cache s) of
        (Some ds, c) \<Rightarrow> (Inr ds, s\<lparr>ds_cache := c\<rparr>)
      | (None, c) \<Rightarrow>
          if fault then (Inl Fault, s\<lparr>ds_cache := c\<rparr>)
          else (let ds = loadActiveDomains (ds_db s) in (Inr ds, s\<lparr>ds_cache := cacheActiveDomains later ds\<rparr>)))"

section \<open>Statements\<close>

text \<open>A statement on the pool: on success the cache is invalidated.\<close>

definition exec_domains :: "bool \<Rightarrow> (db \<Rightarrow> (db_error, 'a \<times> db) result) \<Rightarrow> domain_store \<Rightarrow> (db_error, 'a) result \<times> domain_store" where
  "exec_domains fault statement s =
     (if fault then (Inl Fault, s)
      else case statement (ds_db s) of
        Inl e \<Rightarrow> (Inl e, s)
      | Inr (x, d) \<Rightarrow> (Inr x, \<lparr>ds_db = d, ds_cache = None\<rparr>))"

definition find_domain :: "string \<Rightarrow> db \<Rightarrow> mail_domain option" where
  "find_domain name d = List.find (\<lambda>m. dom_domain m = name) (db_domains d)"

definition manual_domain :: "time \<Rightarrow> int \<Rightarrow> string \<Rightarrow> mail_domain" where
  "manual_domain now i name =
     \<lparr>dom_id = i, dom_domain = name, dom_is_active = True, dom_status = ''active'', dom_visibility = ''public'',
      dom_source_type = ''manual'', dom_verified_at = Some now, dom_created_at = now, dom_mx_checked_at = None\<rparr>"

definition pending_domain :: "time \<Rightarrow> int \<Rightarrow> string \<Rightarrow> mail_domain" where
  "pending_domain now i name =
     \<lparr>dom_id = i, dom_domain = name, dom_is_active = False, dom_status = ''pending'', dom_visibility = ''public'',
      dom_source_type = ''manual'', dom_verified_at = None, dom_created_at = now, dom_mx_checked_at = None\<rparr>"

definition insert_domain :: "mail_domain \<Rightarrow> db \<Rightarrow> (db_error, mail_domain \<times> db) result" where
  "insert_domain m d =
     (if 255 < length (runes (dom_domain m)) then Inl OutOfRange
      else if find_domain (dom_domain m) d \<noteq> None then Inl Conflict
      else Inr (m, d\<lparr>db_domains := db_domains d @ [m]\<rparr>))"

text \<open>\<open>i\<close> is the id the sequence of the table draws.\<close>

definition AddDomain :: "bool \<Rightarrow> (nat \<Rightarrow> nat) \<Rightarrow> time \<Rightarrow> int \<Rightarrow> string \<Rightarrow> domain_store \<Rightarrow> (db_error, mail_domain) result \<times> domain_store" where
  "AddDomain fault lo now i name s = exec_domains fault (insert_domain (manual_domain now i (to_lower lo name))) s"

definition requeue_domain :: "mail_domain \<Rightarrow> mail_domain" where
  "requeue_domain m =
     m\<lparr>dom_status := (if dom_status m = ''active'' then ''active'' else ''pending''), dom_is_active := (dom_status m = ''active'')\<rparr>"

definition upsert_pending :: "time \<Rightarrow> int \<Rightarrow> string \<Rightarrow> db \<Rightarrow> (db_error, mail_domain \<times> db) result" where
  "upsert_pending now i name d =
     (case find_domain name d of
        None \<Rightarrow> insert_domain (pending_domain now i name) d
      | Some m \<Rightarrow> Inr (requeue_domain m, update_domain (dom_id m) requeue_domain d))"

definition AddDomainPending :: "bool \<Rightarrow> (nat \<Rightarrow> nat) \<Rightarrow> time \<Rightarrow> int \<Rightarrow> string \<Rightarrow> domain_store \<Rightarrow> (db_error, mail_domain) result \<times> domain_store" where
  "AddDomainPending fault lo now i name s = exec_domains fault (upsert_pending now i (to_lower lo name)) s"

definition update_statement :: "int \<Rightarrow> (mail_domain \<Rightarrow> mail_domain) \<Rightarrow> db \<Rightarrow> (db_error, unit \<times> db) result" where
  "update_statement i f d = Inr ((), update_domain i f d)"

definition PromoteDomainToActive :: "bool \<Rightarrow> time \<Rightarrow> int \<Rightarrow> domain_store \<Rightarrow> (db_error, unit) result \<times> domain_store" where
  "PromoteDomainToActive fault now i s = exec_domains fault (update_statement i (activate_domain now)) s"

definition touch_domain :: "time \<Rightarrow> mail_domain \<Rightarrow> mail_domain" where
  "touch_domain now m = m\<lparr>dom_mx_checked_at := Some now\<rparr>"

definition TouchDomainCheckTime :: "bool \<Rightarrow> time \<Rightarrow> int \<Rightarrow> domain_store \<Rightarrow> (db_error, unit) result \<times> domain_store" where
  "TouchDomainCheckTime fault now i s = exec_domains fault (update_statement i (touch_domain now)) s"

definition DisableDomainMX :: "bool \<Rightarrow> time \<Rightarrow> int \<Rightarrow> domain_store \<Rightarrow> (db_error, unit) result \<times> domain_store" where
  "DisableDomainMX fault now i s = exec_domains fault (update_statement i (disable_domain now)) s"

text \<open>The donation of a deleted domain goes with it, and its events lose their reference; a mailbox of the
  domain (\<open>in_use\<close>) keeps the delete from happening.\<close>

definition delete_statement :: "(int \<Rightarrow> bool) \<Rightarrow> int \<Rightarrow> db \<Rightarrow> (db_error, unit \<times> db) result" where
  "delete_statement in_use i d =
     (if in_use i then Inl Conflict
      else
        (let gone = map don_id (filter (\<lambda>r. don_domain_id r = i) (db_donations d)) in
         Inr ((), d\<lparr>db_domains := delete_row dom_id i (db_domains d),
                    db_donations := filter (\<lambda>r. don_domain_id r \<noteq> i) (db_donations d),
                    db_events := map (\<lambda>e. if re_donation e \<in> Some ` set gone then e\<lparr>re_donation := None\<rparr> else e) (db_events d)\<rparr>)))"

definition DeleteDomain :: "bool \<Rightarrow> (int \<Rightarrow> bool) \<Rightarrow> int \<Rightarrow> domain_store \<Rightarrow> (db_error, unit) result \<times> domain_store" where
  "DeleteDomain fault in_use i s = exec_domains fault (delete_statement in_use i) s"

definition toggle_domain :: "bool \<Rightarrow> mail_domain \<Rightarrow> mail_domain" where
  "toggle_domain active m = m\<lparr>dom_is_active := active, dom_status := (if active then ''active'' else ''disabled'')\<rparr>"

definition ToggleDomain :: "bool \<Rightarrow> int \<Rightarrow> bool \<Rightarrow> domain_store \<Rightarrow> (db_error, unit) result \<times> domain_store" where
  "ToggleDomain fault i active s = exec_domains fault (update_statement i (toggle_domain active)) s"

section \<open>Reading\<close>

definition ListDomains :: "bool \<Rightarrow> db \<Rightarrow> (db_error, mail_domain list) result" where
  "ListDomains fault d = (if fault then Inl Fault else Inr (sort_key dom_created_at (db_domains d)))"

definition ListPendingDomains :: "bool \<Rightarrow> db \<Rightarrow> (db_error, mail_domain list) result" where
  "ListPendingDomains fault d =
     (if fault then Inl Fault
      else Inr (sort_key dom_created_at (filter (\<lambda>m. dom_status m = ''pending'') (db_domains d))))"

definition GetDomainByID :: "bool \<Rightarrow> int \<Rightarrow> db \<Rightarrow> (db_error, mail_domain) result" where
  "GetDomainByID fault i d = (if fault then Inl Fault else of_option NoRows (find_row dom_id i (db_domains d)))"

text \<open>\<open>draw n\<close> is the number \<open>rand.Int\<close> draws below \<open>n\<close>, or its error.\<close>

definition GetRandomActiveDomain ::
    "bool \<Rightarrow> time \<Rightarrow> time \<Rightarrow> (nat \<Rightarrow> nat option) \<Rightarrow> domain_store \<Rightarrow> (db_error, mail_domain) result \<times> domain_store" where
  "GetRandomActiveDomain fault now later draw s =
     (case GetActiveDomains fault now later s of
        (Inl e, s') \<Rightarrow> (Inl e, s')
      | (Inr ds, s') \<Rightarrow>
          if ds = [] then (Inl NoRows, s')
          else (case draw (length ds) of None \<Rightarrow> Inl Fault | Some i \<Rightarrow> Inr (ds ! i), s'))"

text \<open>\<open>strings.EqualFold\<close>; \<open>fo\<close> takes a code point outside ASCII to the least of its folding orbit's letters.\<close>

definition equal_fold :: "(nat \<Rightarrow> nat) \<Rightarrow> string \<Rightarrow> string \<Rightarrow> bool" where
  "equal_fold fo s t = (map (\<lambda>c. lower_rune fo (fst c)) (runes s) = map (\<lambda>c. lower_rune fo (fst c)) (runes t))"

record text_tables =
  tt_lower :: "nat \<Rightarrow> nat"
  tt_fold :: "nat \<Rightarrow> nat"

definition GetDomainByName ::
    "bool \<Rightarrow> text_tables \<Rightarrow> time \<Rightarrow> time \<Rightarrow> string \<Rightarrow> domain_store \<Rightarrow> (db_error, mail_domain) result \<times> domain_store" where
  "GetDomainByName fault tt now later name s =
     (let normalized = to_lower (tt_lower tt) (trim_space name) in
      case GetActiveDomains fault now later s of
        (Inl e, s') \<Rightarrow> (Inl e, s')
      | (Inr ds, s') \<Rightarrow> (of_option NoRows (List.find (\<lambda>m. equal_fold (tt_fold tt) (dom_domain m) normalized) ds), s'))"

text \<open>The loop for the longest root: \<open>best\<close> is the domain kept so far.\<close>

definition serves :: "(nat \<Rightarrow> nat) \<Rightarrow> string \<Rightarrow> mail_domain \<Rightarrow> bool" where
  "serves lo normalized m =
     (let root = to_lower lo (trim_space (dom_domain m)) in
      root \<noteq> [] \<and> (normalized = root \<or> has_suffix normalized (''.'' @ root)))"

definition better_root :: "(nat \<Rightarrow> nat) \<Rightarrow> string \<Rightarrow> mail_domain option \<Rightarrow> mail_domain \<Rightarrow> mail_domain option" where
  "better_root lo normalized best m =
     (if serves lo normalized m
         \<and> (case best of None \<Rightarrow> True | Some b \<Rightarrow> length (to_lower lo (trim_space (dom_domain m))) > length (dom_domain b))
      then Some m else best)"

definition ResolveActiveMailboxDomain ::
    "bool \<Rightarrow> text_tables \<Rightarrow> time \<Rightarrow> time \<Rightarrow> string \<Rightarrow> domain_store \<Rightarrow> (db_error, mail_domain \<times> string) result \<times> domain_store" where
  "ResolveActiveMailboxDomain fault tt now later requested s =
     (let normalized = trim_cut ''.'' (to_lower (tt_lower tt) (trim_space requested)) in
      if normalized = [] then (Inl NoRows, s)
      else case GetDomainByName fault tt now later normalized s of
        (Inr m, s1) \<Rightarrow> (Inr (m, dom_domain m), s1)
      | (Inl _, s1) \<Rightarrow>
          (case GetActiveDomains fault now later s1 of
             (Inl e, s2) \<Rightarrow> (Inl e, s2)
           | (Inr ds, s2) \<Rightarrow>
               (case foldl (better_root (tt_lower tt) normalized) None ds of
                  None \<Rightarrow> (Inl NoRows, s2)
                | Some m \<Rightarrow> (Inr (m, normalized), s2))))"

section \<open>The MX check\<close>

text \<open>What the resolver answers: the records, or the text of an error.\<close>

record mx_resolver =
  mr_mx :: "string \<Rightarrow> (string, string list) result"
  mr_host :: "string \<Rightarrow> (string, string list) result"

fun check_targets :: "mx_resolver \<Rightarrow> string \<Rightarrow> string list \<Rightarrow> string list \<Rightarrow> bool \<times> string list \<times> string" where
  "check_targets dns ip [] hosts =
     (False, hosts, ''MX records ('' @ join_with '','' hosts @ '') do not point to this server ('' @ ip @ '')'')"
| "check_targets dns ip (mx # mxs) hosts =
     (let host = trim_suffix mx ''.''; hosts' = hosts @ [host] in
      case mr_host dns host of
        Inl _ \<Rightarrow> check_targets dns ip mxs hosts'
      | Inr addrs \<Rightarrow>
          if ip \<in> set addrs then (True, hosts', ''MX record matched: '' @ host @ '' -> '' @ ip)
          else check_targets dns ip mxs hosts')"

definition CheckDomainMX :: "mx_resolver \<Rightarrow> string \<Rightarrow> string \<Rightarrow> bool \<times> string list \<times> string" where
  "CheckDomainMX dns domain ip =
     (case mr_mx dns domain of
        Inl e \<Rightarrow> (False, [], ''DNS lookup failed: '' @ e)
      | Inr mxs \<Rightarrow> if mxs = [] then (False, [], ''no MX record found'') else check_targets dns ip mxs [])"

end
