(* ===== verification/Domain_Admin.thy ===== *)
theory Domain_Admin
  imports Domains Donation_DNS
begin

text \<open>
  The handlers of domains and donations (\<open>src/api/handler/domain.go\<close>) and the loop that verifies them
  (\<open>src/api/main.go\<close>).  A handler answers with a status and the text of its error or message, and with the
  rows of its body where later steps depend on them; a failure of the store is answered with an empty text in the
  model, where the code sends the driver's.  \<open>ft k\<close> says that the handler's \<open>k\<close>-th call to the store fails.
  A parsed body or path id that the binding rejects is \<open>None\<close>.  The token cache is in \<open>Cache_Refinement\<close>.
\<close>

type_synonym answer_text = "int \<times> string"
type_synonym fault_at = "nat \<Rightarrow> bool"

record site_config =
  sc_ip :: string
  sc_hostname :: string

definition setting_or_config :: "bool \<Rightarrow> string \<Rightarrow> string \<Rightarrow> db \<Rightarrow> string" where
  "setting_or_config fault key config d =
     (if fault then config
      else case GetSetting d key of Inl _ \<Rightarrow> config | Inr v \<Rightarrow> if v \<noteq> [] then v else config)"

definition getServerIP :: "bool \<Rightarrow> site_config \<Rightarrow> db \<Rightarrow> string" where
  "getServerIP fault cfg d = setting_or_config fault ''smtp_server_ip'' (sc_ip cfg) d"

definition getServerHostname :: "bool \<Rightarrow> site_config \<Rightarrow> db \<Rightarrow> string" where
  "getServerHostname fault cfg d = setting_or_config fault ''smtp_hostname'' (sc_hostname cfg) d"

text \<open>A record the page asks for: type, host and value (its priority and description are fixed per line).\<close>

type_synonym dns_record = "string \<times> string \<times> string"

definition buildDonationDNS :: "string \<Rightarrow> bool \<Rightarrow> string \<Rightarrow> string \<Rightarrow> dns_record list" where
  "buildDonationDNS domain wildcard ip hostname =
     (if hostname = [] then
        (let sub = ''mail.'' @ domain in
         [(''MX'', ''@'', sub)] @ (if wildcard then [(''MX'', ''*'', sub)] else []) @ [(''A'', sub, ip)])
      else
        [(''MX'', ''@'', hostname)] @ (if wildcard then [(''MX'', ''*'', hostname)] else [])
        @ (if ip \<noteq> [] then [(''TXT'', ''@'', ''v=spf1 ip4:'' @ ip @ '' ~all'')] else []))"

definition buildDonationClaimDNS :: "string \<Rightarrow> string \<Rightarrow> bool \<Rightarrow> string \<Rightarrow> string \<Rightarrow> dns_record list" where
  "buildDonationClaimDNS domain challenge wildcard ip hostname =
     buildDonationDNS domain wildcard ip hostname
     @ [(''TXT'', ''_far-mail-donate'', ''far-mail-site-verification='' @ challenge)]"

definition normalizePublicDomain :: "(nat \<Rightarrow> nat) \<Rightarrow> string \<Rightarrow> (string, string) result" where
  "normalizePublicDomain lo input =
     (let domain = to_lower lo (trim_space input) in
      if domain = [] then Inl ''domain is required''
      else if has_prefix domain ''*.'' \<or> has_prefix domain ''.'' \<or> contains_sub domain ''@''
      then Inl ''enter a root domain without wildcard, @, or email address''
      else if contains_any domain [CHR '' '', CHR ''/'', CHR 0x5C] \<or> \<not> contains_sub domain ''.'' then Inl ''invalid domain format''
      else if length domain > 253 then Inl ''domain is too long''
      else Inr domain)"

section \<open>Domains\<close>

definition delete_handler :: "fault_at \<Rightarrow> (int \<Rightarrow> bool) \<Rightarrow> string \<Rightarrow> domain_store \<Rightarrow> answer_text \<times> domain_store" where
  "delete_handler ft in_use param s =
     (case atoi param of
        None \<Rightarrow> ((400, ''invalid domain id''), s)
      | Some i \<Rightarrow>
          (case GetDomainByID (ft 0) i (ds_db s) of
             Inl _ \<Rightarrow> ((404, ''domain not found''), s)
           | Inr m \<Rightarrow>
               if dom_source_type m = ''donated'' then ((409, ''manage this domain from the donation plan''), s)
               else (case DeleteDomain (ft 1) in_use i s of
                  (Inl _, s') \<Rightarrow> ((500, []), s')
                | (Inr _, s') \<Rightarrow> ((200, ''domain deleted''), s'))))"

definition toggle_handler :: "fault_at \<Rightarrow> string \<Rightarrow> bool option \<Rightarrow> domain_store \<Rightarrow> answer_text \<times> domain_store" where
  "toggle_handler ft param body s =
     (case atoi param of
        None \<Rightarrow> ((400, ''invalid domain id''), s)
      | Some i \<Rightarrow>
          (case GetDomainByID (ft 0) i (ds_db s) of
             Inl _ \<Rightarrow> ((404, ''domain not found''), s)
           | Inr m \<Rightarrow>
               if dom_source_type m = ''donated'' then ((409, ''manage this domain from the donation plan''), s)
               else (case body of
                  None \<Rightarrow> ((400, []), s)
                | Some active \<Rightarrow>
                    (case ToggleDomain (ft 1) i active s of
                       (Inl _, s') \<Rightarrow> ((500, []), s')
                     | (Inr _, s') \<Rightarrow> ((200, ''domain updated''), s')))))"

text \<open>The records asked for after a failed check.\<close>

definition mx_required :: "string \<Rightarrow> string \<Rightarrow> string \<Rightarrow> dns_record list" where
  "mx_required domain ip hostname =
     (if hostname \<noteq> [] then [(''MX'', ''@'', hostname), (''TXT'', ''@'', ''v=spf1 ip4:'' @ ip @ '' ~all'')]
      else (let target = ''mail.'' @ domain in
            [(''MX'', ''@'', target), (''A'', target, ip), (''TXT'', ''@'', ''v=spf1 ip4:'' @ ip @ '' ~all'')]))"

text \<open>The body binding rejects an absent and an empty domain.  \<open>i\<close> is the id a new row gets.\<close>

definition MXRegister ::
    "fault_at \<Rightarrow> (nat \<Rightarrow> nat) \<Rightarrow> mx_resolver \<Rightarrow> site_config \<Rightarrow> time \<Rightarrow> int \<Rightarrow> string option \<Rightarrow> domain_store
     \<Rightarrow> answer_text \<times> mail_domain option \<times> domain_store" where
  "MXRegister ft lo dns cfg now i body s =
     (case body of
        None \<Rightarrow> ((400, []), None, s)
      | Some raw \<Rightarrow>
          if raw = [] then ((400, []), None, s)
          else
            (let name = to_lower lo (trim_space raw); ip = getServerIP (ft 0) cfg (ds_db s) in
             if fst (CheckDomainMX dns name ip) then
               (case AddDomain (ft 1) lo now i name s of
                  (Inr m, s') \<Rightarrow> ((201, ''MX verification passed; domain added to the pool''), Some m, s')
                | (Inl e, s') \<Rightarrow>
                    (case (if e = Conflict then ListDomains (ft 2) (ds_db s') else Inr []) of
                       Inl _ \<Rightarrow> ((500, []), None, s')
                     | Inr ds \<Rightarrow>
                         (case List.find (\<lambda>m. dom_domain m = name) ds of
                            None \<Rightarrow> ((500, []), None, s')
                          | Some m \<Rightarrow> ((200, ''domain already exists and is active''), Some m, s'))))
             else
               (case AddDomainPending (ft 1) lo now i name s of
                  (Inl _, s') \<Rightarrow> ((500, []), None, s')
                | (Inr m, s') \<Rightarrow> ((202, ''domain '' @ name @ '' queued for MX verification''), Some m, s'))))"

section \<open>Donations\<close>

text \<open>A transaction on donations, and the invalidation of the domain cache after those that change domains.\<close>

definition donation_step :: "bool \<Rightarrow> (db \<Rightarrow> (db_error, 'a) result \<times> db) \<Rightarrow> domain_store \<Rightarrow> (db_error, 'a) result \<times> domain_store" where
  "donation_step clears oper s =
     (case oper (ds_db s) of
        (Inl e, d) \<Rightarrow> (Inl e, s\<lparr>ds_db := d\<rparr>)
      | (Inr x, d) \<Rightarrow> (Inr x, \<lparr>ds_db = d, ds_cache = (if clears then None else ds_cache s)\<rparr>))"

text \<open>\<open>GetDonation\<close>: the donation with the name of its domain.\<close>

definition GetDonation :: "bool \<Rightarrow> uuid \<Rightarrow> db \<Rightarrow> (db_error, donation_row \<times> string) result" where
  "GetDonation fault i d =
     (if fault then Inl Fault
      else rbind (find_donation i d) (\<lambda>r.
        rbind (of_option NoRows (find_row dom_id (don_domain_id r) (db_domains d))) (\<lambda>m.
          rbind (of_option NoRows (find_row tok_id (don_token_id r) (db_tokens d))) (\<lambda>t. Inr (r, dom_domain m)))))"

text \<open>\<open>k\<close> is the number of the first of the four calls of \<open>verifyDonation\<close> to the store.\<close>

definition verifyDonation ::
    "fault_at \<Rightarrow> nat \<Rightarrow> (nat \<Rightarrow> nat) \<Rightarrow> resolver \<Rightarrow> site_config \<Rightarrow> time \<Rightarrow> donation_row \<times> string \<Rightarrow> domain_store
     \<Rightarrow> (db_error, donation_row \<times> string) result \<times> domain_store" where
  "verifyDonation ft k lo dns cfg now item s =
     (let (r, name) = item; d = ds_db s;
          v = CheckDonationRecords lo dns name (getServerIP (ft k) cfg d) (getServerHostname (ft (k + 1)) cfg d) (DonationTXTValue r) in
      case donation_step True (ApplyDonationVerification (ft (k + 2)) now (don_id r) v) s of
        (Inl e, s') \<Rightarrow> (Inl e, s')
      | (Inr _, s') \<Rightarrow> (GetDonation (ft (k + 3)) (don_id r) (ds_db s'), s'))"

text \<open>\<open>submitDonation\<close>; \<open>enabled_fault\<close> and \<open>policy_fault\<close> of the settings read as their defaults.\<close>

definition submitDonation ::
    "fault_at \<Rightarrow> libs \<Rightarrow> time \<Rightarrow> fresh \<Rightarrow> (string \<times> bool) option \<Rightarrow> string \<Rightarrow> domain_store
     \<Rightarrow> answer_text \<times> (uuid \<times> string \<times> string) option \<times> domain_store" where
  "submitDonation ft l now fr body existing s =
     (if \<not> DonationEnabled (lib_lower l) (db_settings (ds_db s)) then ((403, ''domain donations are currently closed''), None, s)
      else case body of
        None \<Rightarrow> ((400, []), None, s)
      | Some (raw, subdomains) \<Rightarrow>
          if raw = [] then ((400, []), None, s)
          else case normalizePublicDomain (lib_lower l) raw of
            Inl e \<Rightarrow> ((400, e), None, s)
          | Inr name \<Rightarrow>
              (case donation_step False (CreateDonationRequest (ft 0) (lib_lower l) (lib_sha l) now fr name subdomains existing) s of
                 (Inl Conflict, s') \<Rightarrow> ((409, ''domain already submitted or owner-managed''), None, s')
               | (Inl TokenLimit, s') \<Rightarrow> ((409, ''reward API Token domain limit reached''), None, s')
               | (Inl NoRows, s') \<Rightarrow> ((401, ''invalid reward API Token''), None, s')
               | (Inl _, s') \<Rightarrow> ((500, ''domain donation could not be created''), None, s')
               | (Inr (i, secret, token), s') \<Rightarrow>
                   (case rbind (GetDonation (ft 1) i (ds_db s')) (\<lambda>(r, _). GetDomainByID (ft 2) (don_domain_id r) (ds_db s')) of
                      Inl _ \<Rightarrow> ((500, []), None, s')
                    | Inr m \<Rightarrow> ((202, ''domain submitted''), Some (i, secret, token), s'))))"

text \<open>The status poll of a donor: the check runs again when the last one is more than ten seconds old.\<close>

definition PublicStatus ::
    "fault_at \<Rightarrow> libs \<Rightarrow> resolver \<Rightarrow> site_config \<Rightarrow> time \<Rightarrow> (string \<times> string) option \<Rightarrow> (string \<Rightarrow> uuid option) \<Rightarrow> domain_store
     \<Rightarrow> answer_text \<times> (donation_row \<times> string) option \<times> domain_store" where
  "PublicStatus ft l dns cfg now body parse_uuid s =
     (case body of
        None \<Rightarrow> ((400, ''donation_id and claim_secret are required''), None, s)
      | Some (raw_id, secret) \<Rightarrow>
          if raw_id = [] \<or> secret = [] then ((400, ''donation_id and claim_secret are required''), None, s)
          else case parse_uuid (trim_space raw_id) of
            None \<Rightarrow> ((400, ''invalid donation_id''), None, s)
          | Some i \<Rightarrow>
              (case rbind (GetDonationByClaim (lib_sha l) i secret (ds_db s)) (\<lambda>r. GetDonation (ft 0) (don_id r) (ds_db s)) of
                 Inl _ \<Rightarrow> ((404, ''donation not found''), None, s)
               | Inr (r, name) \<Rightarrow>
                   if (case don_last_checked_at r of None \<Rightarrow> True | Some t \<Rightarrow> now - t > 10 * second) then
                     (case verifyDonation ft 1 (lib_lower l) dns cfg now (r, name) s of
                        (Inl _, s') \<Rightarrow> ((200, []), Some (r, name), s')
                      | (Inr item, s') \<Rightarrow> ((200, []), Some item, s'))
                   else ((200, []), Some (r, name), s)))"

text \<open>A recheck restores a revoked donation first.  The error of reading it again is dropped: the nil
  donation is then dereferenced, which the recovery middleware answers with 500.\<close>

definition RecheckDonation ::
    "fault_at \<Rightarrow> libs \<Rightarrow> resolver \<Rightarrow> site_config \<Rightarrow> time \<Rightarrow> uuid option \<Rightarrow> domain_store \<Rightarrow> answer_text \<times> domain_store" where
  "RecheckDonation ft l dns cfg now param s =
     (case param of
        None \<Rightarrow> ((400, ''invalid donation id''), s)
      | Some i \<Rightarrow>
          (case GetDonation (ft 0) i (ds_db s) of
             Inl _ \<Rightarrow> ((404, ''donation not found''), s)
           | Inr item \<Rightarrow>
               (let verify = (\<lambda>it s. case verifyDonation ft 3 (lib_lower l) dns cfg now it s of
                                (Inl _, s') \<Rightarrow> ((400, []), s') | (Inr _, s') \<Rightarrow> ((200, []), s')) in
                if don_status (fst item) = ''revoked'' then
                  (case donation_step True (SetDonationRevoked (ft 1) now i False []) s of
                     (Inl _, s1) \<Rightarrow> ((500, []), s1)
                   | (Inr _, s1) \<Rightarrow>
                       (case GetDonation (ft 2) i (ds_db s1) of
                          Inl _ \<Rightarrow> ((500, ''panic''), s1)
                        | Inr item' \<Rightarrow> verify item' s1))
                else verify item s)))"

definition RevokeDonation :: "fault_at \<Rightarrow> time \<Rightarrow> uuid option \<Rightarrow> string \<Rightarrow> domain_store \<Rightarrow> answer_text \<times> domain_store" where
  "RevokeDonation ft now param note s =
     (case param of
        None \<Rightarrow> ((400, ''invalid donation id''), s)
      | Some i \<Rightarrow>
          (case donation_step True (SetDonationRevoked (ft 0) now i True note) s of
             (Inl _, s') \<Rightarrow> ((400, []), s')
           | (Inr _, s') \<Rightarrow> ((200, ''donation reward revoked''), s')))"

definition AdjustDonationToken_handler ::
    "fault_at \<Rightarrow> time \<Rightarrow> uuid option \<Rightarrow> (int \<times> int \<times> int \<times> string) option \<Rightarrow> domain_store \<Rightarrow> answer_text \<times> domain_store" where
  "AdjustDonationToken_handler ft now param body s =
     (case param of
        None \<Rightarrow> ((400, ''invalid donation token id''), s)
      | Some t \<Rightarrow>
          (case body of
             None \<Rightarrow> ((400, ''invalid adjustment''), s)
           | Some (tot, daily, rpm, note) \<Rightarrow>
               if tot = 0 \<and> daily = 0 \<and> rpm = 0 then ((400, ''at least one adjustment is required''), s)
               else (case donation_step False (AdjustDonationToken (ft 0) now t tot daily rpm note) s of
                  (Inl _, s') \<Rightarrow> ((400, []), s')
                | (Inr _, s') \<Rightarrow> ((200, ''donation token quota adjusted''), s'))))"

definition AdjustDonation ::
    "fault_at \<Rightarrow> time \<Rightarrow> uuid option \<Rightarrow> (int \<times> int \<times> int \<times> string) option \<Rightarrow> domain_store \<Rightarrow> answer_text \<times> domain_store" where
  "AdjustDonation ft now param body s =
     (case param of
        None \<Rightarrow> ((400, ''invalid donation id''), s)
      | Some i \<Rightarrow>
          (case GetDonation (ft 0) i (ds_db s) of
             Inl _ \<Rightarrow> ((404, ''donation not found''), s)
           | Inr (r, _) \<Rightarrow>
               (case body of
                  None \<Rightarrow> ((400, ''invalid adjustment''), s)
                | Some (tot, daily, rpm, note) \<Rightarrow>
                    if tot = 0 \<and> daily = 0 \<and> rpm = 0 then ((400, ''at least one adjustment is required''), s)
                    else (case donation_step False (AdjustDonationToken (ft 1) now (don_token_id r) tot daily rpm note) s of
                       (Inl _, s') \<Rightarrow> ((400, []), s')
                     | (Inr _, s') \<Rightarrow> ((200, []), s')))))"

definition ApplyDonationPolicy :: "fault_at \<Rightarrow> libs \<Rightarrow> time \<Rightarrow> string \<Rightarrow> domain_store \<Rightarrow> answer_text \<times> domain_store" where
  "ApplyDonationPolicy ft l now note s =
     (case donation_step False (ApplyDonationPolicyToExisting (ft 0) (lib_uuid l) now note) s of
        (Inl _, s') \<Rightarrow> ((400, []), s')
      | (Inr _, s') \<Rightarrow> ((200, ''donation policy applied''), s'))"

section \<open>The verifier loop\<close>

definition effective_setting :: "bool \<Rightarrow> string \<Rightarrow> string \<Rightarrow> db \<Rightarrow> string" where
  "effective_setting fault key config d =
     (if fault then trim_space config
      else case GetSetting d key of Inl _ \<Rightarrow> trim_space config | Inr v \<Rightarrow> if trim_space v \<noteq> [] then trim_space v else trim_space config)"

text \<open>What is published: the event, the domain and the reason.\<close>

type_synonym notice = "string \<times> string \<times> string"

text \<open>One tick over the due donations; \<open>fl i\<close> says which of the two calls for donation \<open>i\<close> fail.\<close>

fun verify_due ::
    "(uuid \<Rightarrow> bool \<times> bool) \<Rightarrow> (nat \<Rightarrow> nat) \<Rightarrow> resolver \<Rightarrow> string \<Rightarrow> string \<Rightarrow> time \<Rightarrow> (donation_row \<times> string) list \<Rightarrow> domain_store
     \<Rightarrow> notice list \<times> domain_store" where
  "verify_due fl lo dns ip hostname now [] s = ([], s)"
| "verify_due fl lo dns ip hostname now ((r, name) # items) s =
     (let v = CheckDonationRecords lo dns name ip hostname (DonationTXTValue r);
          (applied, s1) = donation_step True (ApplyDonationVerification (fst (fl (don_id r))) now (don_id r) v) s;
          notices = (case rbind applied (\<lambda>_. GetDonation (snd (fl (don_id r))) (don_id r) (ds_db s1)) of
                       Inl _ \<Rightarrow> []
                     | Inr (u, _) \<Rightarrow>
                         if \<not> don_reward_active r \<and> don_reward_active u then [(''donation.reward_granted'', name, ver_status v)]
                         else if don_reward_active r \<and> \<not> don_reward_active u then [(''donation.reward_revoked'', name, ver_status v)]
                         else []);
          (rest, s2) = verify_due fl lo dns ip hostname now items s1 in
      (notices @ rest, s2))"

text \<open>The pending domains; \<open>fl i\<close> says which of the two statements for domain \<open>i\<close> fail.\<close>

fun verify_pending ::
    "(int \<Rightarrow> bool \<times> bool) \<Rightarrow> mx_resolver \<Rightarrow> string \<Rightarrow> time \<Rightarrow> mail_domain list \<Rightarrow> domain_store \<Rightarrow> domain_store" where
  "verify_pending fl dns ip now [] s = s"
| "verify_pending fl dns ip now (m # ms) s =
     (if dom_source_type m = ''donated'' then verify_pending fl dns ip now ms s
      else
        (let s1 = snd (TouchDomainCheckTime (fst (fl (dom_id m))) now (dom_id m) s);
             s2 = (if fst (CheckDomainMX dns (dom_domain m) ip)
                   then snd (PromoteDomainToActive (snd (fl (dom_id m))) now (dom_id m) s1) else s1) in
         verify_pending fl dns ip now ms s2))"

fun recheck_active ::
    "(int \<Rightarrow> bool \<times> bool) \<Rightarrow> mx_resolver \<Rightarrow> string \<Rightarrow> time \<Rightarrow> mail_domain list \<Rightarrow> domain_store \<Rightarrow> notice list \<times> domain_store" where
  "recheck_active fl dns ip now [] s = ([], s)"
| "recheck_active fl dns ip now (m # ms) s =
     (if dom_source_type m = ''donated'' then recheck_active fl dns ip now ms s
      else
        (let (matched, hosts, mx_status) = CheckDomainMX dns (dom_domain m) ip;
             s1 = snd (TouchDomainCheckTime (fst (fl (dom_id m))) now (dom_id m) s);
             (notices, s2) =
               (if matched then ([], s1)
                else case DisableDomainMX (snd (fl (dom_id m))) now (dom_id m) s1 of
                  (Inl _, s') \<Rightarrow> ([], s')
                | (Inr _, s') \<Rightarrow> ([(''domain.disabled'', dom_domain m, mx_status)], s'));
             (rest, s3) = recheck_active fl dns ip now ms s2 in
         (notices @ rest, s3)))"

text \<open>\<open>ListDueDonations\<close> joins the names of the domains.\<close>

definition due_items :: "time \<Rightarrow> db \<Rightarrow> (donation_row \<times> string) list" where
  "due_items now d =
     List.map_filter (\<lambda>r. map_option (\<lambda>m. (r, dom_domain m)) (find_row dom_id (don_domain_id r) (db_domains d)))
       (ListDueDonations now d)"

record tick_faults =
  tf_due :: bool
  tf_settings :: bool
  tf_pending :: bool
  tf_donation :: "uuid \<Rightarrow> bool \<times> bool"
  tf_domain :: "int \<Rightarrow> bool \<times> bool"

text \<open>The tick every thirty seconds, and the one every six hours.\<close>

definition verifier_tick ::
    "tick_faults \<Rightarrow> (nat \<Rightarrow> nat) \<Rightarrow> resolver \<Rightarrow> mx_resolver \<Rightarrow> site_config \<Rightarrow> time \<Rightarrow> domain_store \<Rightarrow> notice list \<times> domain_store" where
  "verifier_tick tf lo dns mx cfg now s =
     (let d = ds_db s;
          (notices, s1) =
            (if tf_due tf then ([], s)
             else verify_due (tf_donation tf) lo dns (effective_setting (tf_settings tf) ''smtp_server_ip'' (sc_ip cfg) d)
                    (effective_setting (tf_settings tf) ''smtp_hostname'' (sc_hostname cfg) d) now (due_items now d) s) in
      case ListPendingDomains (tf_pending tf) (ds_db s1) of
        Inl _ \<Rightarrow> (notices, s1)
      | Inr ms \<Rightarrow>
          (notices, verify_pending (tf_domain tf) mx
                      (effective_setting (tf_settings tf) ''smtp_server_ip'' (sc_ip cfg) (ds_db s1)) now ms s1))"

definition recheck_tick ::
    "bool \<Rightarrow> tick_faults \<Rightarrow> mx_resolver \<Rightarrow> site_config \<Rightarrow> time \<Rightarrow> time \<Rightarrow> domain_store \<Rightarrow> notice list \<times> domain_store" where
  "recheck_tick fault tf mx cfg now later s =
     (case GetActiveDomains fault now later s of
        (Inl _, s1) \<Rightarrow> ([], s1)
      | (Inr ms, s1) \<Rightarrow>
          recheck_active (tf_domain tf) mx (effective_setting (tf_settings tf) ''smtp_server_ip'' (sc_ip cfg) (ds_db s1)) later ms s1)"

end
