(* ===== verification/Histories.thy ===== *)
theory Histories
  imports Prelude
begin

text \<open>
  Histories: the operations of a system run one after the other, each allowed in the state it meets.  The
  locale \<open>guarded_steps\<close> is the contract of an invariant, one step at a time; what it gives is the
  invariant after every history, and for every operation in its course.
\<close>

fun run :: "('o \<Rightarrow> 's \<Rightarrow> 's) \<Rightarrow> 'o list \<Rightarrow> 's \<Rightarrow> 's" where
  "run perform [] s = s"
| "run perform (oper # opers) s = run perform opers (perform oper s)"

fun run_allowed :: "('o \<Rightarrow> 's \<Rightarrow> 's) \<Rightarrow> ('o \<Rightarrow> 's \<Rightarrow> bool) \<Rightarrow> 'o list \<Rightarrow> 's \<Rightarrow> bool" where
  "run_allowed perform allowed [] s = True"
| "run_allowed perform allowed (oper # opers) s = (allowed oper s \<and> run_allowed perform allowed opers (perform oper s))"

lemma run_append: "run perform (xs @ ys) s = run perform ys (run perform xs s)"
  by (induction xs arbitrary: s) simp_all

lemma run_allowed_append:
  "run_allowed perform allowed (xs @ ys) s = (run_allowed perform allowed xs s \<and> run_allowed perform allowed ys (run perform xs s))"
  by (induction xs arbitrary: s) simp_all

locale guarded_steps =
  fixes perform :: "'o \<Rightarrow> 's \<Rightarrow> 's"
    and allowed :: "'o \<Rightarrow> 's \<Rightarrow> bool"
    and inv :: "'s \<Rightarrow> bool"
  assumes step: "inv s \<Longrightarrow> allowed oper s \<Longrightarrow> inv (perform oper s)"
begin

lemma run_keeps: "inv s \<Longrightarrow> run_allowed perform allowed opers s \<Longrightarrow> inv (run perform opers s)"
  by (induction opers arbitrary: s) (simp_all add: step)

lemma before_each:
  "inv s \<Longrightarrow> run_allowed perform allowed (xs @ oper # ys) s \<Longrightarrow> inv (run perform xs s) \<and> allowed oper (run perform xs s)"
  by (simp add: run_allowed_append run_keeps)

end

end
