(* ===== verification/Domain_Promises.thy ===== *)
theory Domain_Promises
  imports Domain_Admin Donation_Promises Histories
begin

text \<open>
  What holds of the domain pool whatever the console, the donors and the verifier loop do: a donated domain
  takes mail exactly while its donation is rewarded, the cached list of active domains is the one in the
  database, and a mailbox's domain is found under its longest active root.
\<close>

section \<open>The invariant\<close>

definition flags_ok :: "mail_domain \<Rightarrow> bool" where
  "flags_ok m = (dom_is_active m \<longleftrightarrow> dom_status m = ''active'')"

definition is_donated :: "mail_domain \<Rightarrow> bool" where
  "is_donated m = (dom_source_type m = ''donated'')"

definition pool :: "mail_domain list \<Rightarrow> donation_row list \<Rightarrow> bool" where
  "pool doms dons =
     (keys_distinct dom_id doms \<and> keys_distinct don_id dons \<and> keys_distinct don_domain_id dons
      \<and> (\<forall>m \<in> set doms. flags_ok m)
      \<and> (\<forall>r \<in> set dons. \<exists>m \<in> set doms. dom_id m = don_domain_id r \<and> is_donated m)
      \<and> (\<forall>m \<in> set doms. is_donated m \<longrightarrow> (\<exists>r \<in> set dons. don_domain_id r = dom_id m \<and> don_reward_active r = dom_is_active m)))"

definition pool_ok :: "db \<Rightarrow> bool" where
  "pool_ok d = pool (db_domains d) (db_donations d)"

definition site_ok :: "domain_store \<Rightarrow> bool" where
  "site_ok s =
     (pool_ok (ds_db s) \<and> (case ds_cache s of None \<Rightarrow> True | Some (ds, e) \<Rightarrow> ds = loadActiveDomains (ds_db s)))"

lemma pool_parts:
  "pool doms dons \<Longrightarrow> keys_distinct dom_id doms \<and> keys_distinct don_id dons \<and> keys_distinct don_domain_id dons"
  by (simp add: pool_def)

lemma keys_unique: "keys_distinct key rows \<Longrightarrow> p \<in> set rows \<Longrightarrow> q \<in> set rows \<Longrightarrow> key p = key q \<Longrightarrow> p = q"
  by (metis find_row_unique option.inject)

text \<open>Rows changed in place keep it if each donation still agrees with its domain.\<close>

lemma pool_map:
  assumes ok: "pool doms dons"
    and u: "\<And>m. m \<in> set doms \<Longrightarrow> dom_id (u m) = dom_id m \<and> is_donated (u m) = is_donated m \<and> flags_ok (u m)"
    and v: "\<And>r. r \<in> set dons \<Longrightarrow> don_id (v r) = don_id r \<and> don_domain_id (v r) = don_domain_id r"
    and uv: "\<And>m r. m \<in> set doms \<Longrightarrow> r \<in> set dons \<Longrightarrow> is_donated m \<Longrightarrow> don_domain_id r = dom_id m \<Longrightarrow>
              don_reward_active r = dom_is_active m \<Longrightarrow> don_reward_active (v r) = dom_is_active (u m)"
  shows "pool (map u doms) (map v dons)"
proof -
  have k: "map dom_id (map u doms) = map dom_id doms" "map don_id (map v dons) = map don_id dons"
    "map don_domain_id (map v dons) = map don_domain_id dons" using u v by simp_all
  have d: "keys_distinct dom_id (map u doms)" "keys_distinct don_id (map v dons)" "keys_distinct don_domain_id (map v dons)"
    using pool_parts [OF ok] unfolding keys_distinct_def k by simp_all
  have "\<exists>m \<in> set (map u doms). dom_id m = don_domain_id r \<and> is_donated m" if mem: "r \<in> set (map v dons)" for r
  proof -
    obtain q where q: "q \<in> set dons" "r = v q" using mem by auto
    then obtain m where m: "m \<in> set doms" "dom_id m = don_domain_id q" "is_donated m" using ok unfolding pool_def by blast
    then show ?thesis using u [OF m(1)] v [OF q(1)] q(2) by (intro bexI [of _ "u m"]) simp_all
  qed
  moreover have "\<exists>r \<in> set (map v dons). don_domain_id r = dom_id m \<and> don_reward_active r = dom_is_active m"
    if mem: "m \<in> set (map u doms)" and don: "is_donated m" for m
  proof -
    obtain m0 where m0: "m0 \<in> set doms" "m = u m0" using mem by auto
    then have "is_donated m0" using don u by simp
    then obtain q where q: "q \<in> set dons" "don_domain_id q = dom_id m0" "don_reward_active q = dom_is_active m0"
      using ok m0(1) unfolding pool_def by blast
    then show ?thesis using u [OF m0(1)] v [OF q(1)] uv [OF m0(1) q(1) \<open>is_donated m0\<close>] m0(2) by (intro bexI [of _ "v q"]) simp_all
  qed
  moreover have "\<forall>m \<in> set (map u doms). flags_ok m" using u by auto
  ultimately show ?thesis using d unfolding pool_def by blast
qed

lemma pool_update:
  assumes "pool doms dons"
    and "\<And>m. m \<in> set doms \<Longrightarrow> dom_id m = k \<Longrightarrow> dom_id (h m) = dom_id m \<and> is_donated (h m) = is_donated m \<and> flags_ok (h m)"
    and "\<And>r. r \<in> set dons \<Longrightarrow> don_id r = i \<Longrightarrow> don_id (g r) = don_id r \<and> don_domain_id (g r) = don_domain_id r"
    and "\<And>m r. m \<in> set doms \<Longrightarrow> r \<in> set dons \<Longrightarrow> is_donated m \<Longrightarrow> don_domain_id r = dom_id m \<Longrightarrow> don_reward_active r = dom_is_active m \<Longrightarrow>
           don_reward_active (if don_id r = i then g r else r) = dom_is_active (if dom_id m = k then h m else m)"
  shows "pool (update_row dom_id k h doms) (update_row don_id i g dons)"
  unfolding update_row_def
proof (rule pool_map [OF assms(1)])
  fix m assume m: "m \<in> set doms"
  have "flags_ok m" using assms(1) m by (simp add: pool_def)
  then show "dom_id (if dom_id m = k then h m else m) = dom_id m \<and> is_donated (if dom_id m = k then h m else m) = is_donated m
      \<and> flags_ok (if dom_id m = k then h m else m)" using assms(2) [OF m] by simp
qed (use assms(3,4) in auto)

section \<open>Changes that keep it\<close>

text \<open>A domain that is not donated may change its flags, as long as they agree.\<close>

definition plain_change :: "(mail_domain \<Rightarrow> mail_domain) \<Rightarrow> bool" where
  "plain_change f = (\<forall>m. dom_id (f m) = dom_id m \<and> dom_source_type (f m) = dom_source_type m \<and> (flags_ok m \<longrightarrow> flags_ok (f m)))"

definition not_donated :: "int \<Rightarrow> db \<Rightarrow> bool" where
  "not_donated i d = (\<forall>m \<in> set (db_domains d). dom_id m = i \<longrightarrow> \<not> is_donated m)"

lemma plain_changes:
  "plain_change (activate_domain now)" "plain_change (disable_domain now)" "plain_change (touch_domain now)"
  "plain_change (toggle_domain b)" "plain_change requeue_domain"
  by (simp_all add: plain_change_def flags_ok_def activate_domain_def disable_domain_def touch_domain_def toggle_domain_def requeue_domain_def)

lemma pool_update_domain:
  assumes ok: "pool doms dons" and f: "plain_change f"
    and same: "(\<forall>m \<in> set doms. dom_id m = i \<longrightarrow> \<not> is_donated m) \<or> (\<forall>m. flags_ok m \<longrightarrow> dom_is_active (f m) = dom_is_active m)"
  shows "pool (update_row dom_id i f doms) dons"
proof -
  have fl: "flags_ok m" if "m \<in> set doms" for m using ok that by (simp add: pool_def)
  have "pool (map (\<lambda>m. if dom_id m = i then f m else m) doms) (map (\<lambda>r. r) dons)"
  proof (rule pool_map [OF ok])
    fix m assume m: "m \<in> set doms"
    show "dom_id (if dom_id m = i then f m else m) = dom_id m \<and> is_donated (if dom_id m = i then f m else m) = is_donated m
        \<and> flags_ok (if dom_id m = i then f m else m)" using f fl [OF m] by (simp add: plain_change_def is_donated_def)
  next
    fix m r assume "m \<in> set doms" "is_donated m" "don_reward_active r = dom_is_active m"
    then show "don_reward_active r = dom_is_active (if dom_id m = i then f m else m)" using same fl by auto
  qed simp
  then show ?thesis by (simp add: update_row_def)
qed

text \<open>A donation and its domain change together.\<close>

definition paired :: "(donation_row \<Rightarrow> donation_row) \<Rightarrow> (mail_domain \<Rightarrow> mail_domain) \<Rightarrow> bool" where
  "paired g h =
     ((\<forall>r. don_id (g r) = don_id r \<and> don_domain_id (g r) = don_domain_id r) \<and> plain_change h
      \<and> (\<forall>r m. flags_ok m \<longrightarrow> don_reward_active (g r) = dom_is_active (h m)))"

lemma pairs: "paired (mark_valid now) (activate_domain now)" "paired (mark_inactive now n e) (disable_domain now)"
  "paired (mark_revoked now e) (disable_domain now)" "paired (mark_restored now) (disable_domain now)"
  by (simp_all add: paired_def plain_changes) (simp_all add: mark_valid_def mark_inactive_def mark_revoked_def mark_restored_def activate_domain_def disable_domain_def)

lemma pool_paired:
  assumes ok: "pool doms dons" and r: "find_row don_id i dons = Some r" and p: "paired g h"
  shows "pool (update_row dom_id (don_domain_id r) h doms) (update_row don_id i g dons)"
proof (rule pool_update [OF ok])
  have rd: "r \<in> set dons" "don_id r = i" using find_row_Some [OF r] by auto
  have fl: "flags_ok m" if "m \<in> set doms" for m using ok that by (simp add: pool_def)
  have pc: "plain_change h" using p by (simp add: paired_def)
  show "dom_id (h m) = dom_id m \<and> is_donated (h m) = is_donated m \<and> flags_ok (h m)" if "m \<in> set doms" for m
    using pc fl [OF that] by (simp add: plain_change_def is_donated_def)
  show "don_id (g q) = don_id q \<and> don_domain_id (g q) = don_domain_id q" for q using p by (simp add: paired_def)
  fix m q assume m: "m \<in> set doms" and q: "q \<in> set dons" "don_domain_id q = dom_id m" "don_reward_active q = dom_is_active m"
  have "don_id q = i \<longleftrightarrow> dom_id m = don_domain_id r"
    using keys_unique [of don_id dons q r] keys_unique [of don_domain_id dons q r] pool_parts [OF ok] q rd by auto
  then show "don_reward_active (if don_id q = i then g q else q) = dom_is_active (if dom_id m = don_domain_id r then h m else m)"
    using p fl [OF m] q(3) by (simp add: paired_def)
qed

lemma pool_update_donation:
  assumes ok: "pool doms dons" and g: "\<And>r. don_id (g r) = don_id r \<and> don_domain_id (g r) = don_domain_id r \<and> don_reward_active (g r) = don_reward_active r"
  shows "pool doms (update_row don_id i g dons)"
proof -
  have "pool (map (\<lambda>m. m) doms) (update_row don_id i g dons)"
    unfolding update_row_def by (rule pool_map [OF ok]) (use ok g in \<open>auto simp: pool_def\<close>)
  then show ?thesis by simp
qed


section \<open>Donations\<close>

lemma insert_event_pool: "insert_event now t i kind a b c note d = Inr d' \<Longrightarrow> db_domains d' = db_domains d \<and> db_donations d' = db_donations d"
  by (auto simp: insert_event_Inr)

lemma recalculate_pool: "recalculateLocked now t d = Inr d' \<Longrightarrow> db_domains d' = db_domains d \<and> db_donations d' = db_donations d"
  using recalculateLocked_frame by blast

lemma update_pool [simp]:
  "db_domains (update_domain k h d) = update_row dom_id k h (db_domains d)" "db_donations (update_domain k h d) = db_donations d"
  "db_domains (update_donation i g d) = db_domains d" "db_donations (update_donation i g d) = update_row don_id i g (db_donations d)"
  by (simp_all add: update_domain_def update_donation_def)

lemma pool_cong: "db_domains d' = db_domains d \<Longrightarrow> db_donations d' = db_donations d \<Longrightarrow> pool_ok d \<Longrightarrow> pool_ok d'"
  by (simp add: pool_ok_def)

lemma paired_pool:
  "pool_ok d \<Longrightarrow> find_row don_id i (db_donations d) = Some r \<Longrightarrow> paired g h \<Longrightarrow>
   pool_ok (update_domain (don_domain_id r) h (update_donation i g d))"
  by (simp add: pool_ok_def pool_paired)

lemma failed_pool: "pool_ok d \<Longrightarrow> pool_ok (update_donation i (mark_failed now n e) d)"
  by (simp add: pool_ok_def, rule pool_update_donation) (simp_all add: mark_failed_def)

lemma event_pool: "insert_event now t i kind a b c n d1 = Inr d2 \<Longrightarrow> pool_ok d1 \<Longrightarrow> pool_ok d2"
  using insert_event_pool pool_cong by blast

lemma verify_row_pool:
  assumes ok: "pool_ok d" and r: "find_row don_id (don_id r) (db_donations d) = Some r" and v: "verify_row now v r d = Inr d'"
  shows "pool_ok d'"
proof -
  note pv = paired_pool [OF ok r]
  have ev: "insert_event now t i kind a b c n d1 = Inr d2 \<Longrightarrow> pool_ok d1 \<Longrightarrow> pool_ok d2" for t i kind a b c n d1 d2
    by (rule event_pool)
  show ?thesis
    using v pv [OF pairs(1)] pv [OF pairs(2)] failed_pool [OF ok] ev
    by (auto simp: verify_row_def Let_def split: if_splits)
qed

lemma verification_pool: "verification_tx now i v d = Inr (t, d') \<Longrightarrow> pool_ok d \<Longrightarrow> pool_ok d'"
proof -
  assume v: "verification_tx now i v d = Inr (t, d')" and ok: "pool_ok d"
  then obtain r d1 where r: "find_row don_id i (db_donations d) = Some r" and d1: "verify_row now v r d = Inr d1"
    and rc: "recalculateLocked now (don_token_id r) d1 = Inr d'"
    by (auto simp: verification_tx_def rbind_Inr_iff find_donation_def of_option_Inr_iff)
  have "don_id r = i" using find_row_Some [OF r] by simp
  then have "pool_ok d1" using verify_row_pool [OF ok _ d1] r by simp
  then show ?thesis using pool_cong recalculate_pool [OF rc] by blast
qed

lemma restore_pool: "restore_tx now i d = Inr (t, d') \<Longrightarrow> pool_ok d \<Longrightarrow> pool_ok d'"
proof -
  assume v: "restore_tx now i d = Inr (t, d')" and ok: "pool_ok d"
  then obtain r where r: "find_row don_id i (db_donations d) = Some r"
    and rc: "recalculateLocked now (don_token_id r) (update_domain (don_domain_id r) (disable_domain now) (update_donation i (mark_restored now) d)) = Inr d'"
    by (auto simp: restore_tx_def rbind_Inr_iff find_donation_def of_option_Inr_iff)
  show ?thesis using paired_pool [OF ok r pairs(4)] pool_cong recalculate_pool [OF rc] by blast
qed

lemma revoke_pool: "revoke_tx now i note d = Inr (t, d') \<Longrightarrow> pool_ok d \<Longrightarrow> pool_ok d'"
proof -
  assume v: "revoke_tx now i note d = Inr (t, d')" and ok: "pool_ok d"
  then obtain r d2 where r: "find_row don_id i (db_donations d) = Some r"
    and d2: "(if don_reward_active r then insert_event now (don_token_id r) (Some i) ''revoke''
                     (- don_reward_total r) (- don_reward_daily r) (- don_reward_rpm r) note
                     (update_domain (don_domain_id r) (disable_domain now) (update_donation i (mark_revoked now (trim_space note)) d))
              else Inr (update_domain (don_domain_id r) (disable_domain now) (update_donation i (mark_revoked now (trim_space note)) d))) = Inr d2"
    and rc: "recalculateLocked now (don_token_id r) d2 = Inr d'"
    by (auto simp: revoke_tx_def Let_def rbind_Inr_iff find_donation_def of_option_Inr_iff)
  have "pool_ok d2"
    using d2 paired_pool [OF ok r pairs(3)] event_pool by (auto split: if_splits)
  then show ?thesis using pool_cong recalculate_pool [OF rc] by blast
qed

lemma adjust_same: "adjust_tx now t a b c note d = Inr (u, d') \<Longrightarrow> db_domains d' = db_domains d \<and> db_donations d' = db_donations d"
  by (auto simp: adjust_tx_def rbind_Inr_iff dest!: insert_event_pool recalculate_pool)

definition policy_related :: "db \<Rightarrow> db \<Rightarrow> bool" where
  "policy_related d d' = (db_domains d' = db_domains d \<and> (pool_ok d \<longrightarrow> pool_ok d'))"

lemma policy_row_related: "policy_row now note pol r a = Inr b \<Longrightarrow> policy_related a b"
proof -
  assume v: "policy_row now note pol r a = Inr b"
  then have b: "db_domains b = db_domains a" "db_donations b = update_row don_id (don_id r) (mark_policy now pol) (db_donations a)"
    by (auto simp: policy_row_def dest!: insert_event_pool split: if_splits)
  show ?thesis
    unfolding policy_related_def pool_ok_def b by (auto intro!: pool_update_donation) (simp_all add: mark_policy_def)
qed

lemma policy_tx_related:
  assumes v: "policy_tx us now note d = Inr (ts, d')"
  shows "policy_related d d'"
proof -
  obtain grants ids d0 d1 pol where e0: "each lock_each ids d = Inr d0" and e1: "each (policy_row now note pol) grants d0 = Inr d1"
    and e2: "each (recalculateLocked now) ids d1 = Inr d'"
    using v by (auto simp: policy_tx_def Let_def rbind_Inr_iff)
  have tr: "policy_related d a \<Longrightarrow> policy_related a b \<Longrightarrow> policy_related d b" for a b by (simp add: policy_related_def)
  have "policy_related d d" by (simp add: policy_related_def)
  then have "policy_related d d0"
    by (rule each_invariant [OF e0]) (auto simp: lock_each_def rbind_Inr_iff)
  then have "policy_related d d1"
    by (rule each_invariant [OF e1]) (use tr policy_row_related in blast)
  then show ?thesis
    by (rule each_invariant [OF e2]) (use recalculate_pool in \<open>auto simp: policy_related_def pool_ok_def\<close>)
qed


text \<open>A new donation comes with a new domain, closed until it is verified.\<close>

lemma pool_append:
  assumes ok: "pool doms dons" and m: "dom_id m \<notin> dom_id ` set doms" "flags_ok m" "is_donated m" "\<not> dom_is_active m"
    and r: "don_id r \<notin> don_id ` set dons" "don_domain_id r = dom_id m" "\<not> don_reward_active r"
  shows "pool (doms @ [m]) (dons @ [r])"
proof -
  have new: "dom_id m \<notin> don_domain_id ` set dons"
  proof
    assume "dom_id m \<in> don_domain_id ` set dons"
    then obtain q where "q \<in> set dons" "don_domain_id q = dom_id m" by auto
    then have "dom_id m \<in> dom_id ` set doms" using ok unfolding pool_def by (metis image_eqI)
    then show False using m(1) by simp
  qed
  have "keys_distinct dom_id (doms @ [m])" "keys_distinct don_id (dons @ [r])" "keys_distinct don_domain_id (dons @ [r])"
    using pool_parts [OF ok] m(1) r(1,2) new by (auto simp: keys_distinct_def)
  moreover have "\<forall>q \<in> set (dons @ [r]). \<exists>x \<in> set (doms @ [m]). dom_id x = don_domain_id q \<and> is_donated x"
    using ok m(3) r(2) unfolding pool_def by fastforce
  moreover have "\<forall>x \<in> set (doms @ [m]). is_donated x \<longrightarrow> (\<exists>q \<in> set (dons @ [r]). don_domain_id q = dom_id x \<and> don_reward_active q = dom_is_active x)"
    using ok m(4) r(2,3) unfolding pool_def by fastforce
  moreover have "\<forall>x \<in> set (doms @ [m]). flags_ok x" using ok m(2) by (simp add: pool_def)
  ultimately show ?thesis unfolding pool_def by blast
qed

definition fresh_domain_ok :: "fresh \<Rightarrow> db \<Rightarrow> bool" where
  "fresh_domain_ok fr d = (fr_donation fr \<notin> don_id ` set (db_donations d) \<and> fr_domain fr \<notin> dom_id ` set (db_domains d))"

lemma donation_token_domains: "donation_token sha now fr ex d = Inr (t, raw, d1) \<Longrightarrow> db_domains d1 = db_domains d \<and> db_donations d1 = db_donations d"
  by (auto simp: donation_token_def Let_def split: option.splits if_splits)

lemma donation_domain_new:
  assumes ok: "pool_ok d" and dd: "donation_domain now fr name d = Inr (k, d')"
  shows "k = fr_domain fr \<and> db_domains d' = db_domains d @ [donated_domain now k name] \<and> db_donations d' = db_donations d"
proof (cases "List.find (\<lambda>m. dom_domain m = name) (db_domains d)")
  case None
  then show ?thesis using dd by (auto simp: donation_domain_def split: if_splits)
next
  case (Some m)
  then have m: "m \<in> set (db_domains d)" by (auto simp: find_Some_iff)
  have "\<exists>r \<in> set (db_donations d). don_domain_id r = dom_id m" if "is_donated m" using ok m that unfolding pool_ok_def pool_def by blast
  then show ?thesis using dd Some by (auto simp: donation_domain_def is_donated_def list_ex_iff split: if_splits)
qed

lemma mark_donated_new:
  "k \<notin> dom_id ` set doms \<Longrightarrow>
   update_row dom_id k mark_donated (doms @ [donated_domain now k name]) = doms @ [donated_domain now k name]"
  using update_row_absent [of k dom_id doms mark_donated]
  by (simp add: update_row_def mark_donated_def donated_domain_def)

lemma create_pool:
  assumes c: "create_tx sha now fr pol name sub ex d = Inr (x, d')" and ok: "pool_ok d" and fr: "fresh_domain_ok fr d"
  shows "pool_ok d' \<and> loadActiveDomains d' = loadActiveDomains d"
proof -
  obtain t raw d1 k d2 d3 where t: "donation_token sha now fr ex d = Inr (t, raw, d1)" and dd: "donation_domain now fr name d1 = Inr (k, d2)"
    and ins: "insert_donation (new_donation sha now pol fr t k sub) d2 = Inr d3" and d': "d' = update_domain k mark_donated d3"
    using c by (auto simp: create_tx_def rbind_Inr_iff)
  have d1: "db_domains d1 = db_domains d" "db_donations d1 = db_donations d" using donation_token_domains [OF t] by auto
  have "pool_ok d1" using pool_cong [OF d1] ok by simp
  then have k: "k = fr_domain fr" "db_domains d2 = db_domains d @ [donated_domain now k name]" "db_donations d2 = db_donations d"
    using donation_domain_new [OF _ dd] d1 by auto
  let ?r = "new_donation sha now pol fr t k sub"
  have d3: "db_domains d3 = db_domains d2" "db_donations d3 = db_donations d @ [?r]"
    using ins k(3) by (auto simp: insert_donation_def split: if_splits)
  have new: "k \<notin> dom_id ` set (db_domains d)" "don_id ?r \<notin> don_id ` set (db_donations d)"
    using fr k(1) by (simp_all add: fresh_domain_ok_def new_donation_def)
  have doms: "db_domains d' = db_domains d @ [donated_domain now k name]" and dons: "db_donations d' = db_donations d @ [?r]"
    using d' d3 k(2) mark_donated_new [OF new(1)] by simp_all
  have "pool (db_domains d @ [donated_domain now k name]) (db_donations d @ [?r])"
    by (rule pool_append) (use ok new in \<open>auto simp: pool_ok_def donated_domain_def flags_ok_def is_donated_def new_donation_def\<close>)
  then show ?thesis unfolding pool_ok_def doms dons loadActiveDomains_def by (simp add: donated_domain_def)
qed

section \<open>The steps keep the store in order\<close>

lemma donation_step_ok:
  assumes ok: "site_ok s" and oper: "\<And>x d'. fst (oper (ds_db s)) = Inr x \<Longrightarrow> snd (oper (ds_db s)) = d' \<Longrightarrow> pool_ok d'
      \<and> (clears \<or> loadActiveDomains d' = loadActiveDomains (ds_db s))"
    and err: "\<And>e. fst (oper (ds_db s)) = Inl e \<Longrightarrow> snd (oper (ds_db s)) = ds_db s"
  shows "site_ok (snd (donation_step clears oper s))"
proof (cases "oper (ds_db s)")
  case (Pair r d')
  show ?thesis
  proof (cases r)
    case (Inl e)
    then show ?thesis using ok err Pair by (simp add: donation_step_def site_ok_def)
  next
    case (Inr x)
    then show ?thesis using ok oper [of x d'] Pair by (auto simp: donation_step_def site_ok_def split: option.splits)
  qed
qed

lemma run_tx_step:
  assumes "\<And>x d'. m (ds_db s) = Inr (x, d') \<Longrightarrow> pool_ok d' \<and> (clears \<or> loadActiveDomains d' = loadActiveDomains (ds_db s))"
    and "site_ok s"
  shows "site_ok (snd (donation_step clears (run_tx fault m) s))"
  by (rule donation_step_ok [OF assms(2)]) (use assms(1) in \<open>auto simp: run_tx_def split: if_splits sum.splits\<close>)

lemma site_pool: "site_ok s \<Longrightarrow> pool_ok (ds_db s)"
  by (simp add: site_ok_def)

lemma Verification_step [inv_intros]: "site_ok s \<Longrightarrow> site_ok (snd (donation_step True (ApplyDonationVerification fault now i v) s))"
  unfolding ApplyDonationVerification_def by (rule run_tx_step) (use verification_pool site_pool in auto)

lemma Revoked_step [inv_intros]: "site_ok s \<Longrightarrow> site_ok (snd (donation_step True (SetDonationRevoked fault now i b n) s))"
  unfolding SetDonationRevoked_def by (rule run_tx_step) (use restore_pool revoke_pool site_pool in \<open>auto split: if_splits\<close>)

lemma Adjust_step [inv_intros]: "site_ok s \<Longrightarrow> site_ok (snd (donation_step False (AdjustDonationToken fault now t a b c n) s))"
proof (rule donation_step_ok)
  assume ok: "site_ok s"
  fix x d' assume "fst (AdjustDonationToken fault now t a b c n (ds_db s)) = Inr x" "snd (AdjustDonationToken fault now t a b c n (ds_db s)) = d'"
  then have "adjust_tx now t a b c n (ds_db s) = Inr (x, d')"
    by (auto simp: AdjustDonationToken_def run_tx_def split: if_splits sum.splits)
  then have same: "db_domains d' = db_domains (ds_db s)" "db_donations d' = db_donations (ds_db s)" using adjust_same by blast+
  show "pool_ok d' \<and> (False \<or> loadActiveDomains d' = loadActiveDomains (ds_db s))"
    using pool_cong [OF same site_pool [OF ok]] same by (simp add: loadActiveDomains_def)
qed (auto simp: AdjustDonationToken_def run_tx_def split: if_splits sum.splits)

lemma Policy_step [inv_intros]: "site_ok s \<Longrightarrow> site_ok (snd (donation_step False (ApplyDonationPolicyToExisting fault us now n) s))"
  unfolding ApplyDonationPolicyToExisting_def
  by (rule run_tx_step) (use policy_tx_related site_pool in \<open>fastforce simp: policy_related_def loadActiveDomains_def\<close>)+

lemma Create_step:
  "site_ok s \<Longrightarrow> fresh_domain_ok fr (ds_db s) \<Longrightarrow>
   site_ok (snd (donation_step False (CreateDonationRequest fault lo sha now fr name sub ex) s))"
  by (rule donation_step_ok)
    (use create_pool site_pool in \<open>auto simp: CreateDonationRequest_def Let_def run_tx_def split: if_splits sum.splits\<close>)


lemma exec_ok:
  "site_ok s \<Longrightarrow> (\<And>x d'. statement (ds_db s) = Inr (x, d') \<Longrightarrow> pool_ok d') \<Longrightarrow> site_ok (snd (exec_domains fault statement s))"
  by (cases fault; cases "statement (ds_db s)") (auto simp: exec_domains_def site_ok_def)

lemma update_step:
  assumes "site_ok s" "plain_change f" "not_donated i (ds_db s) \<or> (\<forall>m. flags_ok m \<longrightarrow> dom_is_active (f m) = dom_is_active m)"
  shows "site_ok (snd (exec_domains fault (update_statement i f) s))"
proof (rule exec_ok [OF assms(1)])
  fix x d' assume "update_statement i f (ds_db s) = Inr (x, d')"
  then have d': "d' = update_domain i f (ds_db s)" by (simp add: update_statement_def)
  show "pool_ok d'"
    using pool_update_domain [of "db_domains (ds_db s)" "db_donations (ds_db s)" f i] assms site_pool [OF assms(1)]
    by (simp add: d' pool_ok_def not_donated_def)
qed

lemma Touch_step [inv_intros]: "site_ok s \<Longrightarrow> site_ok (snd (TouchDomainCheckTime fault now i s))"
  unfolding TouchDomainCheckTime_def by (rule update_step) (simp_all add: plain_changes, simp add: touch_domain_def)

lemma Promote_step: "site_ok s \<Longrightarrow> not_donated i (ds_db s) \<Longrightarrow> site_ok (snd (PromoteDomainToActive fault now i s))"
  unfolding PromoteDomainToActive_def by (rule update_step) (simp_all add: plain_changes)

lemma Disable_step: "site_ok s \<Longrightarrow> not_donated i (ds_db s) \<Longrightarrow> site_ok (snd (DisableDomainMX fault now i s))"
  unfolding DisableDomainMX_def by (rule update_step) (simp_all add: plain_changes)

lemma Toggle_step: "site_ok s \<Longrightarrow> not_donated i (ds_db s) \<Longrightarrow> site_ok (snd (ToggleDomain fault i b s))"
  unfolding ToggleDomain_def by (rule update_step) (simp_all add: plain_changes)

lemma pool_append_plain:
  "pool doms dons \<Longrightarrow> dom_id m \<notin> dom_id ` set doms \<Longrightarrow> flags_ok m \<Longrightarrow> \<not> is_donated m \<Longrightarrow> pool (doms @ [m]) dons"
  unfolding pool_def by (auto simp: keys_distinct_def)

lemma insert_pool:
  assumes "insert_domain m d = Inr (x, d')" "pool_ok d" "dom_id m \<notin> dom_id ` set (db_domains d)" "flags_ok m" "\<not> is_donated m"
  shows "pool_ok d'"
  using assms pool_append_plain by (auto simp: insert_domain_def pool_ok_def split: if_splits)

lemma Add_step: "site_ok s \<Longrightarrow> i \<notin> dom_id ` set (db_domains (ds_db s)) \<Longrightarrow> site_ok (snd (AddDomain fault lo now i name s))"
  unfolding AddDomain_def
  by (rule exec_ok, assumption, rule insert_pool, assumption) (simp_all add: site_pool manual_domain_def flags_ok_def is_donated_def)

lemma upsert_pool:
  assumes u: "upsert_pending now i name d = Inr (x, d')" and ok: "pool_ok d" and i: "i \<notin> dom_id ` set (db_domains d)"
  shows "pool_ok d'"
proof (cases "find_domain name d")
  case None
  then have "insert_domain (pending_domain now i name) d = Inr (x, d')" using u by (simp add: upsert_pending_def)
  then show ?thesis by (rule insert_pool [OF _ ok]) (use i in \<open>simp_all add: pending_domain_def flags_ok_def is_donated_def\<close>)
next
  case (Some m)
  then have d': "d' = update_domain (dom_id m) requeue_domain d" using u by (simp add: upsert_pending_def)
  have "\<forall>m. flags_ok m \<longrightarrow> dom_is_active (requeue_domain m) = dom_is_active m" by (simp add: requeue_domain_def flags_ok_def)
  then show ?thesis
    using pool_update_domain [of "db_domains d" "db_donations d" requeue_domain "dom_id m"] ok plain_changes(5) by (simp add: d' pool_ok_def)
qed

lemma AddPending_step: "site_ok s \<Longrightarrow> i \<notin> dom_id ` set (db_domains (ds_db s)) \<Longrightarrow> site_ok (snd (AddDomainPending fault lo now i name s))"
  unfolding AddDomainPending_def by (rule exec_ok, assumption, rule upsert_pool) (simp_all add: site_pool)

lemma Delete_step:
  assumes ok: "site_ok s" and nd: "not_donated i (ds_db s)"
  shows "site_ok (snd (DeleteDomain fault in_use i s))"
  unfolding DeleteDomain_def
proof (rule exec_ok [OF ok])
  fix x d' assume "delete_statement in_use i (ds_db s) = Inr (x, d')"
  then have d': "db_domains d' = delete_row dom_id i (db_domains (ds_db s))"
    "db_donations d' = filter (\<lambda>r. don_domain_id r \<noteq> i) (db_donations (ds_db s))"
    by (auto simp: delete_statement_def Let_def split: if_splits)
  have p: "pool (db_domains (ds_db s)) (db_donations (ds_db s))" using site_pool [OF ok] by (simp add: pool_ok_def)
  have none: "don_domain_id r \<noteq> i" if "r \<in> set (db_donations (ds_db s))" for r
    using p nd that unfolding pool_def not_donated_def by metis
  then have dons: "db_donations d' = db_donations (ds_db s)" unfolding d' by (simp add: filter_id_conv)
  have "\<exists>m \<in> set (db_domains d'). dom_id m = don_domain_id r \<and> is_donated m" if r: "r \<in> set (db_donations (ds_db s))" for r
    using p none [OF r] r unfolding d' pool_def delete_row_def by fastforce
  moreover have "keys_distinct dom_id (db_domains d')" unfolding d' using pool_parts [OF p] by (simp add: delete_row_distinct)
  moreover have "set (db_domains d') \<subseteq> set (db_domains (ds_db s))" unfolding d' by (auto simp: delete_row_def)
  ultimately show "pool_ok d'" using p unfolding pool_ok_def dons pool_def by blast
qed

lemma Active_step [inv_intros]:
  "site_ok s \<Longrightarrow> site_ok (snd (GetActiveDomains fault now later s)) \<and> ds_db (snd (GetActiveDomains fault now later s)) = ds_db s
     \<and> (\<forall>ds. fst (GetActiveDomains fault now later s) = Inr ds \<longrightarrow> ds = loadActiveDomains (ds_db s))"
proof (cases "ds_cache s")
  case None
  then show "site_ok s \<Longrightarrow> ?thesis"
    by (auto simp: GetActiveDomains_def getCachedActiveDomains_def cacheActiveDomains_def site_ok_def Let_def)
next
  case (Some p)
  then show "site_ok s \<Longrightarrow> ?thesis"
    by (cases p; cases "now < snd p") (auto simp: GetActiveDomains_def getCachedActiveDomains_def cacheActiveDomains_def site_ok_def Let_def)
qed

section \<open>Handlers and ticks\<close>

lemma found_not_donated: "site_ok s \<Longrightarrow> GetDomainByID fault i (ds_db s) = Inr m \<Longrightarrow> dom_source_type m \<noteq> ''donated'' \<Longrightarrow> not_donated i (ds_db s)"
proof -
  assume ok: "site_ok s" and g: "GetDomainByID fault i (ds_db s) = Inr m" and nd: "dom_source_type m \<noteq> ''donated''"
  have m: "m \<in> set (db_domains (ds_db s))" "dom_id m = i"
    using g find_row_Some by (fastforce simp: GetDomainByID_def of_option_Inr_iff split: if_splits)+
  have "keys_distinct dom_id (db_domains (ds_db s))" using site_pool [OF ok] pool_parts by (auto simp: pool_ok_def)
  then show ?thesis unfolding not_donated_def is_donated_def using keys_unique m nd by metis
qed

lemma delete_handler_ok: "site_ok s \<Longrightarrow> site_ok (snd (delete_handler ft in_use param s))"
  using found_not_donated [of s "ft 0"] Delete_step [of s _ "ft 1" in_use]
  by (auto simp: delete_handler_def split: option.split sum.split prod.split) (metis snd_conv)+

lemma toggle_handler_ok: "site_ok s \<Longrightarrow> site_ok (snd (toggle_handler ft param body s))"
  using found_not_donated [of s "ft 0"] Toggle_step [of s _ "ft 1"]
  by (auto simp: toggle_handler_def split: option.split sum.split prod.split) (metis snd_conv)+


lemma MXRegister_ok:
  assumes "site_ok s" "i \<notin> dom_id ` set (db_domains (ds_db s))"
  shows "site_ok (snd (snd (MXRegister ft lo dns cfg now i body s)))"
  using assms(1) Add_step [OF assms, of "ft 1" lo now] AddPending_step [OF assms, of "ft 1" lo now]
  by (auto simp: MXRegister_def Let_def split: option.split sum.split prod.split) (metis snd_conv)+

lemma submitDonation_ok:
  assumes "site_ok s" "fresh_domain_ok fr (ds_db s)"
  shows "site_ok (snd (snd (submitDonation ft l now fr body existing s)))"
  using assms(1) Create_step [OF assms, of "ft 0" "lib_lower l" "lib_sha l" now]
  by (auto simp: submitDonation_def split: option.split sum.split prod.split db_error.split) (metis snd_conv)+

lemma verifyDonation_ok [inv_intros]: "site_ok s \<Longrightarrow> site_ok (snd (verifyDonation ft k lo dns cfg now item s))"
  using Verification_step [of s "ft (k + 2)" now]
  by (auto simp: verifyDonation_def Let_def split: prod.split sum.split) (metis snd_conv)+

lemma PublicStatus_ok: "site_ok s \<Longrightarrow> site_ok (snd (snd (PublicStatus ft l dns cfg now body parse s)))"
  using verifyDonation_ok [of s ft 1 "lib_lower l" dns cfg now]
  by (auto simp: PublicStatus_def split: option.split sum.split prod.split) (metis snd_conv)+

lemma RecheckDonation_ok:
  assumes ok: "site_ok s" shows "site_ok (snd (RecheckDonation ft l dns cfg now param s))"
proof -
  have v: "verifyDonation ft 3 (lib_lower l) dns cfg now it s1 = (x, s2) \<Longrightarrow> site_ok s1 \<Longrightarrow> site_ok s2" for it s1 x s2
    using verifyDonation_ok [of s1 ft 3 "lib_lower l" dns cfg now it] by simp
  have r: "donation_step True (SetDonationRevoked (ft (Suc 0)) now i False []) s = (x, s1) \<Longrightarrow> site_ok s1" for x i s1
    using Revoked_step [OF ok, of "ft (Suc 0)" now i False "[]"] by simp
  show ?thesis
    unfolding RecheckDonation_def Let_def using ok v r by (auto split: option.split sum.split prod.split)
qed

lemma RevokeDonation_ok: "site_ok s \<Longrightarrow> site_ok (snd (RevokeDonation ft now param n s))"
  using Revoked_step [of s "ft 0" now _ True n]
  by (auto simp: RevokeDonation_def split: option.split sum.split prod.split) (metis snd_conv)+

lemma AdjustToken_handler_ok: "site_ok s \<Longrightarrow> site_ok (snd (AdjustDonationToken_handler ft now param body s))"
  using Adjust_step [of s "ft 0" now]
  by (auto simp: AdjustDonationToken_handler_def split: option.split sum.split prod.split) (metis snd_conv)+

lemma AdjustDonation_ok: "site_ok s \<Longrightarrow> site_ok (snd (AdjustDonation ft now param body s))"
  using Adjust_step [of s "ft 1" now]
  by (auto simp: AdjustDonation_def split: option.split sum.split prod.split) (metis snd_conv)+

lemma ApplyDonationPolicy_ok: "site_ok s \<Longrightarrow> site_ok (snd (ApplyDonationPolicy ft l now n s))"
  using Policy_step [of s "ft 0" "lib_uuid l" now n]
  unfolding ApplyDonationPolicy_def by (cases "donation_step False (ApplyDonationPolicyToExisting (ft 0) (lib_uuid l) now n) s") (simp split: sum.split)

lemma verify_due_ok [inv_intros]: "site_ok s \<Longrightarrow> site_ok (snd (verify_due fl lo dns ip hostname now items s))"
proof (induction items arbitrary: s)
  case (Cons p items)
  obtain r name where p: "p = (r, name)" by fastforce
  let ?st = "donation_step True (ApplyDonationVerification (fst (fl (don_id r))) now (don_id r)
      (CheckDonationRecords lo dns name ip hostname (DonationTXTValue r))) s"
  have "site_ok (snd ?st)" by (rule Verification_step [OF Cons.prems])
  from Cons.IH [OF this] show ?case by (cases ?st; cases "verify_due fl lo dns ip hostname now items (snd ?st)") (simp add: p Let_def)
qed simp

text \<open>The statements on a domain leave it as donated as it was.\<close>

definition listed :: "mail_domain list \<Rightarrow> db \<Rightarrow> bool" where
  "listed ms d = (\<forall>m \<in> set ms. is_donated m \<or> not_donated (dom_id m) d)"

lemma update_keeps_donated:
  "plain_change f \<Longrightarrow> not_donated j d \<Longrightarrow> not_donated j (ds_db (snd (exec_domains fault (update_statement i f) s))) \<or> ds_db s \<noteq> d"
  by (auto simp: exec_domains_def update_statement_def not_donated_def is_donated_def plain_change_def update_row_def)

lemma listed_update: "listed ms (ds_db s) \<Longrightarrow> plain_change f \<Longrightarrow> listed ms (ds_db (snd (exec_domains fault (update_statement i f) s)))"
  using update_keeps_donated unfolding listed_def by metis

lemma listed_steps:
  "listed ms (ds_db s) \<Longrightarrow> listed ms (ds_db (snd (TouchDomainCheckTime fault now i s)))"
  "listed ms (ds_db s) \<Longrightarrow> listed ms (ds_db (snd (PromoteDomainToActive fault now i s)))"
  "listed ms (ds_db s) \<Longrightarrow> listed ms (ds_db (snd (DisableDomainMX fault now i s)))"
  unfolding TouchDomainCheckTime_def PromoteDomainToActive_def DisableDomainMX_def by (simp_all add: listed_update plain_changes)

lemma listed_Cons: "listed (m # ms) d \<Longrightarrow> listed ms d \<and> (dom_source_type m \<noteq> ''donated'' \<longrightarrow> not_donated (dom_id m) d)"
  by (auto simp: listed_def is_donated_def)

lemma verify_pending_ok: "site_ok s \<Longrightarrow> listed ms (ds_db s) \<Longrightarrow> site_ok (verify_pending fl dns ip now ms s)"
proof (induction ms arbitrary: s)
  case (Cons m ms)
  show ?case
  proof (cases "dom_source_type m = ''donated''")
    case True
    then show ?thesis using Cons listed_Cons by simp
  next
    case False
    define s1 where "s1 = snd (TouchDomainCheckTime (fst (fl (dom_id m))) now (dom_id m) s)"
    have s1: "site_ok s1" "listed (m # ms) (ds_db s1)"
      using Touch_step [OF Cons.prems(1)] listed_steps(1) [OF Cons.prems(2)] by (simp_all add: s1_def)
    define s2 where "s2 = snd (PromoteDomainToActive (snd (fl (dom_id m))) now (dom_id m) s1)"
    have s2: "site_ok s2" "listed (m # ms) (ds_db s2)"
      using Promote_step [OF s1(1)] listed_Cons [OF s1(2)] listed_steps(2) [OF s1(2)] False by (simp_all add: s2_def)
    show ?thesis using False Cons.IH s1 s2 listed_Cons by (simp add: s1_def [symmetric] s2_def [symmetric])
  qed
qed simp

lemma recheck_active_ok: "site_ok s \<Longrightarrow> listed ms (ds_db s) \<Longrightarrow> site_ok (snd (recheck_active fl dns ip now ms s))"
proof (induction ms arbitrary: s)
  case (Cons m ms)
  show ?case
  proof (cases "dom_source_type m = ''donated''")
    case True
    then show ?thesis using Cons listed_Cons by simp
  next
    case False
    define s1 where "s1 = snd (TouchDomainCheckTime (fst (fl (dom_id m))) now (dom_id m) s)"
    have s1: "site_ok s1" "listed (m # ms) (ds_db s1)"
      using Touch_step [OF Cons.prems(1)] listed_steps(1) [OF Cons.prems(2)] by (simp_all add: s1_def)
    obtain x s2 where d: "DisableDomainMX (snd (fl (dom_id m))) now (dom_id m) s1 = (x, s2)" by fastforce
    have s2: "site_ok s2" "listed (m # ms) (ds_db s2)"
      using Disable_step [OF s1(1), of "dom_id m" "snd (fl (dom_id m))" now] listed_Cons [OF s1(2)] listed_steps(3) [OF s1(2), of "snd (fl (dom_id m))" now "dom_id m"] False d
      by simp_all
    show ?thesis
      using False Cons.IH [OF s1(1)] Cons.IH [OF s2(1)] s1(2) s2(2) listed_Cons d
      by (auto simp: s1_def [symmetric] Let_def split: prod.split sum.split)
  qed
qed simp

lemma listed_rows: "pool_ok d \<Longrightarrow> set ms \<subseteq> set (db_domains d) \<Longrightarrow> listed ms d"
  unfolding listed_def not_donated_def pool_ok_def using keys_unique pool_parts by (metis subsetD)

lemma verifier_tick_ok: "site_ok s \<Longrightarrow> site_ok (snd (verifier_tick tf lo dns mx cfg now s))"
proof -
  assume ok: "site_ok s"
  have p: "site_ok s1 \<Longrightarrow> ListPendingDomains (tf_pending tf) (ds_db s1) = Inr ms \<Longrightarrow> site_ok (verify_pending fl mx ip now ms s1)" for s1 ms fl ip
    using listed_rows [OF site_pool, of s1 ms] by (intro verify_pending_ok) (auto simp: ListPendingDomains_def split: if_splits)
  have d: "verify_due fl lo dns ip hn now items s = (n, s1) \<Longrightarrow> site_ok s1" for fl ip hn items n s1
    using verify_due_ok [OF ok, of fl lo dns ip hn now items] by simp
  show ?thesis using ok p d by (auto simp: verifier_tick_def Let_def split: prod.split sum.split)
qed

lemma recheck_tick_ok: "site_ok s \<Longrightarrow> site_ok (snd (recheck_tick fault tf mx cfg now later s))"
proof -
  assume ok: "site_ok s"
  obtain r s1 where g: "GetActiveDomains fault now later s = (r, s1)" by fastforce
  have s1: "site_ok s1" "ds_db s1 = ds_db s" "\<And>ds. r = Inr ds \<Longrightarrow> ds = loadActiveDomains (ds_db s1)"
    using Active_step [OF ok, of fault now later] g by auto
  have "listed (loadActiveDomains (ds_db s1)) (ds_db s1)"
    by (rule listed_rows [OF site_pool [OF s1(1)]]) (auto simp: loadActiveDomains_def)
  then show ?thesis using s1 recheck_active_ok by (auto simp: recheck_tick_def g split: sum.split)
qed


section \<open>Histories of the site\<close>

text \<open>What the console, a donor and the timers may do, in any order, with any failure of the store.\<close>

datatype site_op =
    DeleteDomainOp fault_at "int \<Rightarrow> bool" string
  | ToggleDomainOp fault_at string "bool option"
  | RegisterOp fault_at "nat \<Rightarrow> nat" mx_resolver site_config time int "string option"
  | SubmitOp fault_at libs time fresh "(string \<times> bool) option" string
  | StatusOp fault_at libs resolver site_config time "(string \<times> string) option" "string \<Rightarrow> uuid option"
  | RecheckOp fault_at libs resolver site_config time "uuid option"
  | RevokeOp fault_at time "uuid option" string
  | AdjustTokenOp fault_at time "uuid option" "(int \<times> int \<times> int \<times> string) option"
  | AdjustOp fault_at time "uuid option" "(int \<times> int \<times> int \<times> string) option"
  | PolicyOp fault_at libs time string
  | ActiveOp bool time time
  | VerifierTickOp tick_faults "nat \<Rightarrow> nat" resolver mx_resolver site_config time
  | RecheckTickOp bool tick_faults mx_resolver site_config time time

fun perform_site :: "site_op \<Rightarrow> domain_store \<Rightarrow> domain_store" where
  "perform_site (DeleteDomainOp ft in_use param) s = snd (delete_handler ft in_use param s)"
| "perform_site (ToggleDomainOp ft param body) s = snd (toggle_handler ft param body s)"
| "perform_site (RegisterOp ft lo dns cfg now i body) s = snd (snd (MXRegister ft lo dns cfg now i body s))"
| "perform_site (SubmitOp ft l now fr body existing) s = snd (snd (submitDonation ft l now fr body existing s))"
| "perform_site (StatusOp ft l dns cfg now body parse) s = snd (snd (PublicStatus ft l dns cfg now body parse s))"
| "perform_site (RecheckOp ft l dns cfg now param) s = snd (RecheckDonation ft l dns cfg now param s)"
| "perform_site (RevokeOp ft now param n) s = snd (RevokeDonation ft now param n s)"
| "perform_site (AdjustTokenOp ft now param body) s = snd (AdjustDonationToken_handler ft now param body s)"
| "perform_site (AdjustOp ft now param body) s = snd (AdjustDonation ft now param body s)"
| "perform_site (PolicyOp ft l now n) s = snd (ApplyDonationPolicy ft l now n s)"
| "perform_site (ActiveOp fault now later) s = snd (GetActiveDomains fault now later s)"
| "perform_site (VerifierTickOp tf lo dns mx cfg now) s = snd (verifier_tick tf lo dns mx cfg now s)"
| "perform_site (RecheckTickOp fault tf mx cfg now later) s = snd (recheck_tick fault tf mx cfg now later s)"

text \<open>The sequences and the UUID generator draw new keys.\<close>

fun site_allowed :: "site_op \<Rightarrow> domain_store \<Rightarrow> bool" where
  "site_allowed (RegisterOp ft lo dns cfg now i body) s = (i \<notin> dom_id ` set (db_domains (ds_db s)))"
| "site_allowed (SubmitOp ft l now fr body existing) s = fresh_domain_ok fr (ds_db s)"
| "site_allowed _ s = True"

definition site_history :: "site_op list \<Rightarrow> domain_store \<Rightarrow> domain_store" where
  "site_history opers s = run perform_site opers s"

definition all_allowed :: "site_op list \<Rightarrow> domain_store \<Rightarrow> bool" where
  "all_allowed opers s = run_allowed perform_site site_allowed opers s"

text \<open>A site before its first domain: accounts, tokens and settings may be there.\<close>

definition no_domains :: "domain_store \<Rightarrow> bool" where
  "no_domains s = (db_domains (ds_db s) = [] \<and> db_donations (ds_db s) = [] \<and> ds_cache s = None)"

lemmas handler_steps = delete_handler_ok toggle_handler_ok MXRegister_ok submitDonation_ok PublicStatus_ok RecheckDonation_ok
  RevokeDonation_ok AdjustToken_handler_ok AdjustDonation_ok ApplyDonationPolicy_ok verifier_tick_ok recheck_tick_ok

interpretation site: guarded_steps perform_site site_allowed site_ok
proof
  fix s oper assume "site_ok s" "site_allowed oper s"
  then show "site_ok (perform_site oper s)" by (cases oper) (simp_all add: handler_steps Active_step)
qed

lemma site_history_ok: "site_ok s \<Longrightarrow> all_allowed opers s \<Longrightarrow> site_ok (site_history opers s)"
  unfolding site_history_def all_allowed_def by (rule site.run_keeps)

lemma no_domains_ok: "no_domains s \<Longrightarrow> site_ok s"
  by (simp add: no_domains_def site_ok_def pool_ok_def pool_def keys_distinct_def)

text \<open>A site with one domain that was registered by its owner and one that was donated.\<close>

definition any_tables :: text_tables where
  "any_tables = \<lparr>tt_lower = id, tt_fold = id\<rparr>"

definition new_site :: domain_store where
  "new_site = \<lparr>ds_db = empty_db, ds_cache = None\<rparr>"

definition sample_site_ops :: "site_op list" where
  "sample_site_ops =
     [SubmitOp (\<lambda>_. False) sample_libs 100 sample_fresh (Some (''a.b'', True)) [],
      ActiveOp False 110 111,
      RevokeOp (\<lambda>_. False) 120 (Some 7) ''abuse'',
      ToggleDomainOp (\<lambda>_. False) ''3'' (Some True)]"

lemma sample_site: "no_domains new_site" "all_allowed sample_site_ops new_site"
  by (simp_all add: no_domains_def new_site_def empty_db_def sample_site_ops_def fresh_domain_ok_def all_allowed_def)

section \<open>Properties\<close>

lemma pool_agrees:
  assumes ok: "pool doms dons" and m: "m \<in> set doms"
  shows "(dom_is_active m \<longleftrightarrow> dom_status m = ''active'')
      \<and> (dom_source_type m = ''donated'' \<longrightarrow>
           (\<exists>!r. r \<in> set dons \<and> don_domain_id r = dom_id m)
           \<and> (\<forall>r \<in> set dons. don_domain_id r = dom_id m \<longrightarrow> (dom_is_active m \<longleftrightarrow> don_reward_active r)))"
proof (intro conjI impI)
  show "dom_is_active m \<longleftrightarrow> dom_status m = ''active''" using ok m by (simp add: pool_def flags_ok_def)
  assume "dom_source_type m = ''donated''"
  then obtain r where r: "r \<in> set dons" "don_domain_id r = dom_id m" "don_reward_active r = dom_is_active m"
    using ok m by (auto simp: pool_def is_donated_def)
  have one: "q = r" if "q \<in> set dons" "don_domain_id q = dom_id m" for q
    by (rule keys_unique [of don_domain_id dons]) (use pool_parts [OF ok] that r in simp_all)
  show "\<exists>!r. r \<in> set dons \<and> don_domain_id r = dom_id m" using r one by blast
  show "\<forall>r \<in> set dons. don_domain_id r = dom_id m \<longrightarrow> (dom_is_active m \<longleftrightarrow> don_reward_active r)" using r one by blast
qed

text \<open>C24. A donated domain takes mail exactly while its reward stands: after any sequence of console calls,
  donations, status polls and verifier ticks, with any of their statements failing, a donated domain belongs to
  one donation, and it is active if and only if that donation's reward is; the flag and the status of every
  domain agree.\<close>

theorem donated_domain_open_iff_rewarded:
  assumes "no_domains s" "all_allowed opers s"
  shows "let d = ds_db (site_history opers s) in
    \<forall>m \<in> set (db_domains d).
      (dom_is_active m \<longleftrightarrow> dom_status m = ''active'')
      \<and> (dom_source_type m = ''donated'' \<longrightarrow>
           (\<exists>!r. r \<in> set (db_donations d) \<and> don_domain_id r = dom_id m)
           \<and> (\<forall>r \<in> set (db_donations d). don_domain_id r = dom_id m \<longrightarrow> (dom_is_active m \<longleftrightarrow> don_reward_active r)))"
  using site_pool [OF site_history_ok [OF no_domains_ok [OF assms(1)] assms(2)]] pool_agrees
  unfolding Let_def pool_ok_def by blast

text \<open>The cache of the active domains is invisible: after any such history, what \<open>GetActiveDomains\<close> answers
  from the cache or the table is the list of the domains that are active in the table now, or the failure of the
  query it made; it changes no row.\<close>

theorem cached_domains_are_active_ones:
  assumes "no_domains s" "all_allowed opers s"
  shows "let (r, t) = GetActiveDomains fault now later (site_history opers s); d = ds_db (site_history opers s) in
    ds_db t = d \<and> (r = Inr (filter dom_is_active (db_domains d)) \<or> (fault \<and> r = Inl Fault))"
proof -
  have ok: "site_ok (site_history opers s)" by (rule site_history_ok [OF no_domains_ok [OF assms(1)] assms(2)])
  obtain r t where g: "GetActiveDomains fault now later (site_history opers s) = (r, t)" by fastforce
  have "r = Inl Fault \<and> fault" if "r = Inl e" for e
    using g that by (auto simp: GetActiveDomains_def Let_def split: option.splits if_splits prod.splits)
  then show ?thesis using Active_step [OF ok, of fault now later] g by (cases r) (auto simp: loadActiveDomains_def)
qed

section \<open>The longest active root\<close>

lemma better_root_member: "foldl (better_root lo n) b ds = Some m \<Longrightarrow> b = Some m \<or> (m \<in> set ds \<and> serves lo n m)"
  by (induction ds arbitrary: b) (auto simp: better_root_def split: if_splits)

lemma better_root_longest:
  fixes ds :: "mail_domain list"
  assumes "\<forall>m \<in> set ds. to_lower lo (trim_space (dom_domain m)) = dom_domain m"
  shows "(foldl (better_root lo n) b ds = None \<longleftrightarrow> b = None \<and> (\<forall>m \<in> set ds. \<not> serves lo n m))
    \<and> (\<forall>m. foldl (better_root lo n) b ds = Some m \<longrightarrow>
          (\<forall>x. b = Some x \<longrightarrow> length (dom_domain x) \<le> length (dom_domain m))
          \<and> (\<forall>x \<in> set ds. serves lo n x \<longrightarrow> length (dom_domain x) \<le> length (dom_domain m)))"
  using assms
proof (induction ds arbitrary: b)
  case (Cons y ds)
  have "to_lower lo (trim_space (dom_domain y)) = dom_domain y" using Cons.prems by simp
  moreover note Cons.IH [of "better_root lo n b y"] Cons.prems
  ultimately show ?case by (cases b) (force simp: better_root_def split: if_splits)+
qed simp

lemma serves_normal: "to_lower lo (trim_space (dom_domain m)) = dom_domain m \<Longrightarrow>
  serves lo n m = (dom_domain m \<noteq> [] \<and> (n = dom_domain m \<or> has_suffix n (''.'' @ dom_domain m)))"
  by (simp add: serves_def Let_def)

lemma active_answers: "\<exists>ds. fst (GetActiveDomains False now later s) = Inr ds"
  by (cases "getCachedActiveDomains now (ds_cache s)") (simp add: GetActiveDomains_def Let_def split: option.split)

lemma GetActive_ok: "site_ok s \<Longrightarrow> fst (GetActiveDomains False now later s) = Inr (loadActiveDomains (ds_db s))"
  using Active_step [of s False now later] active_answers [of now later s] by auto

lemma GetDomainByName_ok:
  assumes ok: "site_ok s"
  shows "GetDomainByName False tt now later name s =
    (of_option NoRows (List.find (\<lambda>m. equal_fold (tt_fold tt) (dom_domain m) (to_lower (tt_lower tt) (trim_space name))) (loadActiveDomains (ds_db s))),
     snd (GetActiveDomains False now later s))"
proof -
  obtain r t where g: "GetActiveDomains False now later s = (r, t)" by fastforce
  then have "r = Inr (loadActiveDomains (ds_db s))" using GetActive_ok [OF ok, of now later] by simp
  then show ?thesis by (simp add: GetDomainByName_def g Let_def)
qed

lemma Resolve_ok:
  assumes ok: "site_ok s"
  shows "fst (ResolveActiveMailboxDomain False tt now later requested s) =
    (let n = trim_cut ''.'' (to_lower (tt_lower tt) (trim_space requested)); ds = loadActiveDomains (ds_db s) in
     if n = [] then Inl NoRows
     else case List.find (\<lambda>m. equal_fold (tt_fold tt) (dom_domain m) (to_lower (tt_lower tt) (trim_space n))) ds of
       Some m \<Rightarrow> Inr (m, dom_domain m)
     | None \<Rightarrow> (case foldl (better_root (tt_lower tt) n) None ds of None \<Rightarrow> Inl NoRows | Some m \<Rightarrow> Inr (m, n)))"
proof -
  obtain t where t: "t = snd (GetActiveDomains False now later s)" by simp
  then have ok': "site_ok t" and same: "ds_db t = ds_db s" using Active_step [OF ok, of False now later] by simp_all
  obtain r u where g: "GetActiveDomains False now later t = (r, u)" by fastforce
  then have "r = Inr (loadActiveDomains (ds_db s))" using GetActive_ok [OF ok', of now later] same by simp
  then show ?thesis
    by (simp add: ResolveActiveMailboxDomain_def Let_def GetDomainByName_ok [OF ok] t [symmetric] g of_option_def split: option.split)
qed

text \<open>A mailbox is opened under the right domain: over names kept as the handlers write them (lower case,
  trimmed), the requested host without surrounding dots is answered with the active domain of that name; otherwise
  with the longest active domain that is a suffix of it at a label boundary, and the host itself; and it is refused
  exactly when it is empty or neither exists.\<close>

theorem mailbox_domain_is_longest:
  assumes "site_ok s" "\<forall>m \<in> set (db_domains (ds_db s)). to_lower (tt_lower tt) (trim_space (dom_domain m)) = dom_domain m"
  shows "let n = trim_cut ''.'' (to_lower (tt_lower tt) (trim_space requested));
      named = (\<lambda>m. equal_fold (tt_fold tt) (dom_domain m) (to_lower (tt_lower tt) (trim_space n)));
      under = (\<lambda>m. dom_domain m \<noteq> [] \<and> (n = dom_domain m \<or> has_suffix n (''.'' @ dom_domain m)));
      active = {m \<in> set (db_domains (ds_db s)). dom_is_active m} in
    case fst (ResolveActiveMailboxDomain False tt now later requested s) of
      Inr (m, host) \<Rightarrow>
        n \<noteq> [] \<and> m \<in> active
        \<and> (if \<exists>x \<in> active. named x then named m \<and> host = dom_domain m
           else under m \<and> host = n \<and> (\<forall>x \<in> active. under x \<longrightarrow> length (dom_domain x) \<le> length (dom_domain m)))
    | Inl e \<Rightarrow> e = NoRows \<and> (n = [] \<or> (\<forall>x \<in> active. \<not> named x \<and> \<not> under x))"
proof -
  define n where "n = trim_cut ''.'' (to_lower (tt_lower tt) (trim_space requested))"
  define named where "named = (\<lambda>m :: mail_domain. equal_fold (tt_fold tt) (dom_domain m) (to_lower (tt_lower tt) (trim_space n)))"
  define ds where "ds = loadActiveDomains (ds_db s)"
  have active: "set ds = {m \<in> set (db_domains (ds_db s)). dom_is_active m}" by (auto simp: ds_def loadActiveDomains_def)
  have norm: "\<forall>m \<in> set ds. to_lower (tt_lower tt) (trim_space (dom_domain m)) = dom_domain m" using assms(2) active by auto
  have srv: "serves (tt_lower tt) n m = (dom_domain m \<noteq> [] \<and> (n = dom_domain m \<or> has_suffix n (''.'' @ dom_domain m)))" if "m \<in> set ds" for m
    using serves_normal norm that by blast
  have r: "fst (ResolveActiveMailboxDomain False tt now later requested s) =
    (if n = [] then Inl NoRows
     else case List.find named ds of Some m \<Rightarrow> Inr (m, dom_domain m)
     | None \<Rightarrow> (case foldl (better_root (tt_lower tt) n) None ds of None \<Rightarrow> Inl NoRows | Some m \<Rightarrow> Inr (m, n)))"
    unfolding Resolve_ok [OF assms(1)] Let_def n_def [symmetric] named_def [symmetric] ds_def [symmetric] ..
  note longest = better_root_longest [OF norm, of n None]
  show ?thesis
  proof (cases "List.find named ds")
    case (Some m)
    then have "m \<in> set ds" "named m" by (auto simp: find_Some_iff)
    then show ?thesis unfolding Let_def n_def [symmetric] active [symmetric] r Some by (auto simp: named_def)
  next
    case None
    then have no: "\<forall>x \<in> set ds. \<not> named x" by (simp add: find_None_iff)
    show ?thesis
    proof (cases "foldl (better_root (tt_lower tt) n) None ds")
      case None': None
      then have "\<forall>x \<in> set ds. \<not> serves (tt_lower tt) n x" using longest by simp
      then show ?thesis unfolding Let_def n_def [symmetric] active [symmetric] r None None'
        using no srv by (auto simp: named_def)
    next
      case (Some m)
      then have "m \<in> set ds" "serves (tt_lower tt) n m" using better_root_member [OF Some] by auto
      moreover have "\<forall>x \<in> set ds. serves (tt_lower tt) n x \<longrightarrow> length (dom_domain x) \<le> length (dom_domain m)" using longest Some by simp
      ultimately show ?thesis unfolding Let_def n_def [symmetric] active [symmetric] r None Some
        using no srv by (auto simp: named_def)
    qed
  qed
qed

section \<open>Concrete histories\<close>

theorem donated_domain_open_iff_rewarded_witness:
  "list_all (\<lambda>m. dom_is_active m = (dom_status m = ''active'')) (db_domains (ds_db (site_history sample_site_ops new_site)))"
  using donated_domain_open_iff_rewarded [OF sample_site] by (simp add: Let_def list_all_iff)

theorem cached_domains_are_active_ones_witness:
  "fst (GetActiveDomains False 400 401 (site_history sample_site_ops new_site))
     = Inr (filter dom_is_active (db_domains (ds_db (site_history sample_site_ops new_site))))"
  using cached_domains_are_active_ones [OF sample_site, of False 400 401] by (simp add: case_prod_beta Let_def)

definition two_domains :: domain_store where
  "two_domains = \<lparr>ds_db = empty_db\<lparr>db_domains := [manual_domain 1 1 ''b.de'', manual_domain 1 2 ''a.b.de'']\<rparr>, ds_cache = None\<rparr>"

lemma plain_name:
  assumes "s \<in> {''b.de'', ''a.b.de'', ''x.a.b.de''}"
  shows "to_lower lo (trim_space s) = s" "trim_cut ''.'' s = s"
proof -
  have a: "is_ascii s" using assms by (auto simp: is_ascii_def)
  have t: "trim_space s = s" using assms unfolding trim_space_ascii [OF a] by (auto simp: trim_cut_id ascii_space_def)
  show "to_lower lo (trim_space s) = s" unfolding t by (rule to_lower_id [OF a]) (use assms in \<open>auto simp: is_upper_def\<close>)
  show "trim_cut ''.'' s = s" by (rule trim_cut_id) (use assms in auto)
qed

theorem mailbox_domain_is_longest_witness:
  "\<exists>m. fst (ResolveActiveMailboxDomain False any_tables 5 5 ''x.a.b.de'' two_domains) = Inr (m, ''x.a.b.de'') \<and> dom_id m = 2"
proof -
  have ok: "site_ok two_domains"
    by (simp add: two_domains_def site_ok_def pool_ok_def pool_def keys_distinct_def empty_db_def manual_domain_def flags_ok_def is_donated_def)
  have rows: "set (db_domains (ds_db two_domains)) = {manual_domain 1 1 ''b.de'', manual_domain 1 2 ''a.b.de''}"
    by (simp add: two_domains_def)
  have names: "dom_domain (manual_domain 1 i nm) = nm" "dom_is_active (manual_domain 1 i nm)" "dom_id (manual_domain 1 i nm) = i" for i nm
    by (simp_all add: manual_domain_def)
  have norm: "\<forall>m \<in> set (db_domains (ds_db two_domains)). to_lower (tt_lower any_tables) (trim_space (dom_domain m)) = dom_domain m"
    unfolding rows using plain_name(1) by (simp add: names)
  have set2: "{m \<in> set (db_domains (ds_db two_domains)). dom_is_active m} = {manual_domain 1 1 ''b.de'', manual_domain 1 2 ''a.b.de''}"
    unfolding rows using names by auto
  have fo: "equal_fold (tt_fold any_tables) ''b.de'' ''x.a.b.de'' = False" "equal_fold (tt_fold any_tables) ''a.b.de'' ''x.a.b.de'' = False"
    by code_simp+
  have suf: "has_suffix ''x.a.b.de'' ''.b.de''" "has_suffix ''x.a.b.de'' ''.a.b.de''" by code_simp+
  have n: "trim_cut ''.'' (to_lower (tt_lower any_tables) (trim_space ''x.a.b.de'')) = ''x.a.b.de''" "trim_cut ''.'' ''x.a.b.de'' = ''x.a.b.de''"
    using plain_name by simp_all
  have n2: "to_lower (tt_lower any_tables) (trim_space ''x.a.b.de'') = ''x.a.b.de''" using plain_name by simp
  show ?thesis
  proof (cases "fst (ResolveActiveMailboxDomain False any_tables 5 5 ''x.a.b.de'' two_domains)")
    case (Inl e)
    then show ?thesis
      using mailbox_domain_is_longest [OF ok norm, of "''x.a.b.de''" 5 5] unfolding Let_def n n2 set2 by (simp add: names suf)
  next
    case (Inr p)
    obtain m host where p: "p = (m, host)" by fastforce
    show ?thesis
      using mailbox_domain_is_longest [OF ok norm, of "''x.a.b.de''" 5 5] Inr p
      unfolding Let_def n n2 set2 by (auto simp: names fo suf)
  qed
qed

end
