(* ===== verification/Token_Admin.thy ===== *)
theory Token_Admin
  imports Access Domain_Admin
begin

text \<open>
  The owner's tokens and console key (\<open>src/api/handler/token.go\<close>, \<open>account.go\<close>, \<open>helpers.go\<close>).  A handler works
  on the database and the authentication cache; of a body it takes the decoded fields, of an id what \<open>uuid.Parse\<close>
  makes of it, and the text of a database error is not modelled.  \<open>faults\<close> says which statement fails.
\<close>

section \<open>Input\<close>

definition maxTokenLimit :: int where
  "maxTokenLimit = 1000000000"

definition token_scopes :: "string list" where
  "token_scopes = [[], ''read'', ''cleanup'', ''owner'']"

definition validateTokenInput :: "string \<Rightarrow> string \<Rightarrow> int \<Rightarrow> int \<Rightarrow> int \<Rightarrow> int \<Rightarrow> string option" where
  "validateTokenInput name scope rpm daily tot days =
     (if length (runes name) > 128 then Some ''token name must not exceed 128 characters''
      else if scope \<notin> set token_scopes then Some ''scope must be read, cleanup, or owner''
      else if rpm < 0 \<or> daily < 0 \<or> tot < 0 then Some ''token limits must not be negative''
      else if rpm > maxTokenLimit \<or> daily > maxTokenLimit \<or> tot > maxTokenLimit
      then Some (''token limits must not exceed '' @ itoa maxTokenLimit)
      else if days > 3650 then Some ''expires_in_days must not exceed 3650''
      else None)"

definition tokenStatus :: "time \<Rightarrow> time option \<Rightarrow> time option \<Rightarrow> string" where
  "tokenStatus now revoked expires =
     (if revoked \<noteq> None then ''disabled''
      else case expires of None \<Rightarrow> ''active'' | Some e \<Rightarrow> if e < now then ''expired'' else ''active'')"

record token_form =
  tf_name :: string
  tf_scope :: string
  tf_rpm :: int
  tf_daily :: int
  tf_total :: int
  tf_days :: int
  tf_permanent :: bool
  tf_keep_expiry :: bool

definition check_form :: "token_form \<Rightarrow> string option" where
  "check_form f = validateTokenInput (tf_name f) (tf_scope f) (tf_rpm f) (tf_daily f) (tf_total f) (tf_days f)"

definition days_later :: "time \<Rightarrow> int \<Rightarrow> time" where
  "days_later now days = now + wrap64 (wrap64 (days * 24) * 3600 * second)"

section \<open>The handlers of tokens\<close>

record token_site =
  ts_db :: db
  ts_cache :: token_cache

record token_view =
  tv_row :: token_row
  tv_current :: bool
  tv_remaining :: int
  tv_status :: string

datatype token_answer =
    Refused int string
  | Listed "token_view list"
  | Issued token_row string
  | Edited token_row
  | Reissued token_row string
  | Said string

definition remaining_total :: "int \<Rightarrow> int \<Rightarrow> int" where
  "remaining_total limit count = (if limit > 0 then (if limit - count < 0 then 0 else limit - count) else - 1)"

definition view_token :: "time \<Rightarrow> account_token option \<Rightarrow> token_row \<Rightarrow> token_view" where
  "view_token now current r =
     \<lparr>tv_row = r, tv_current = (case current of None \<Rightarrow> False | Some t \<Rightarrow> tok_id t = tok_id r),
      tv_remaining = remaining_total (tok_total_request_limit r) (tok_request_count_total r),
      tv_status = tokenStatus now (tok_revoked_at r) (tok_expires_at r)\<rparr>"

definition List_Tokens :: "fault_at \<Rightarrow> time \<Rightarrow> uuid \<Rightarrow> account_token option \<Rightarrow> token_site \<Rightarrow> token_answer" where
  "List_Tokens faults now acc current s =
     (if faults 0 then Refused 500 []
      else Listed (map (view_token now current) (ListTokensByAccount acc (ts_db s))))"

text \<open>The expiry of a new token, and whether the setting may give one.\<close>

definition new_expiry :: "time \<Rightarrow> token_form \<Rightarrow> time option \<times> bool" where
  "new_expiry now f =
     (let off = (tf_days f < 0 \<or> tf_permanent f); days = (if off then 0 else tf_days f) in
      if days > 0 then (Some (days_later now days), False) else (None, \<not> off))"

definition form_request :: "token_form \<Rightarrow> time option \<Rightarrow> token_request" where
  "form_request f expires =
     \<lparr>tq_name = tf_name f, tq_scope = tf_scope f, tq_rpm = tf_rpm f, tq_daily = tf_daily f, tq_total = tf_total f, tq_expires = expires\<rparr>"

definition create_token_handler ::
    "fault_at \<Rightarrow> libs \<Rightarrow> time \<Rightarrow> uuid \<Rightarrow> string \<Rightarrow> uuid \<Rightarrow> token_form option \<Rightarrow> token_site \<Rightarrow> token_answer \<times> token_site" where
  "create_token_handler faults l now fresh random acc body s =
     (case body of
        None \<Rightarrow> (Refused 400 [], s)
      | Some f \<Rightarrow>
          (case check_form f of
             Some e \<Rightarrow> (Refused 400 e, s)
           | None \<Rightarrow>
               (case new_expiry now f of
                  (expires, by_default) \<Rightarrow>
                    (case CreateToken (faults 0) (lib_lower l) (lib_sha l) now fresh random acc (form_request f expires) by_default (ts_db s) of
                       (Inl _, d) \<Rightarrow> (Refused 500 [], s\<lparr>ts_db := d\<rparr>)
                     | (Inr (t, plain), d) \<Rightarrow> (Issued t plain, s\<lparr>ts_db := d\<rparr>)))))"

text \<open>A successful statement on a token drops its cached lookups.\<close>

definition on_token :: "uuid \<Rightarrow> (db \<Rightarrow> (db_error, 'a) result \<times> db) \<Rightarrow> token_site \<Rightarrow> (db_error, 'a) result \<times> token_site" where
  "on_token i oper s =
     (case oper (ts_db s) of
        (Inl e, d) \<Rightarrow> (Inl e, s\<lparr>ts_db := d\<rparr>)
      | (Inr x, d) \<Rightarrow> (Inr x, s\<lparr>ts_db := d, ts_cache := invalidateTokenAuthCache i (ts_cache s)\<rparr>))"

definition returned_row :: "uuid \<Rightarrow> token_site \<Rightarrow> token_answer" where
  "returned_row i s = (case find_row tok_id i (db_tokens (ts_db s)) of None \<Rightarrow> Refused 400 [] | Some r \<Rightarrow> Edited r)"

text \<open>The expiry of an edited token: the stored one when it is kept; \<open>None\<close> when there is no such token.\<close>

definition edited_expiry :: "bool \<Rightarrow> time \<Rightarrow> uuid \<Rightarrow> uuid \<Rightarrow> token_form \<Rightarrow> db \<Rightarrow> time option option" where
  "edited_expiry fault now acc i f d =
     (if tf_keep_expiry f
      then (case (if fault then Inl Fault else GetTokenByID i acc d) of Inl _ \<Rightarrow> None | Inr r \<Rightarrow> Some (tok_expires_at r))
      else Some (if tf_days f > 0 \<and> \<not> tf_permanent f then Some (days_later now (tf_days f)) else None))"

definition update_token_handler :: "fault_at \<Rightarrow> libs \<Rightarrow> time \<Rightarrow> uuid \<Rightarrow> uuid option \<Rightarrow> token_form option \<Rightarrow> token_site \<Rightarrow> token_answer \<times> token_site" where
  "update_token_handler faults l now acc param body s =
     (case param of
        None \<Rightarrow> (Refused 400 ''invalid token id'', s)
      | Some i \<Rightarrow>
          (case body of
             None \<Rightarrow> (Refused 400 [], s)
           | Some f \<Rightarrow>
               (case check_form f of
                  Some e \<Rightarrow> (Refused 400 e, s)
                | None \<Rightarrow>
                    (case edited_expiry (faults 0) now acc i f (ts_db s) of
                       None \<Rightarrow> (Refused 404 ''token not found'', s)
                     | Some expires \<Rightarrow>
                         (case on_token i (UpdateToken (faults 1) (lib_lower l) now i acc (form_request f expires)) s of
                            (Inl _, s') \<Rightarrow> (Refused 400 [], s')
                          | (Inr _, s') \<Rightarrow> (returned_row i s', s'))))))"

definition rotate_token_handler :: "fault_at \<Rightarrow> libs \<Rightarrow> time \<Rightarrow> string \<Rightarrow> uuid \<Rightarrow> uuid option \<Rightarrow> token_site \<Rightarrow> token_answer \<times> token_site" where
  "rotate_token_handler faults l now random acc param s =
     (case param of
        None \<Rightarrow> (Refused 400 ''invalid token id'', s)
      | Some i \<Rightarrow>
          (case on_token i (RotateToken (faults 0) (lib_sha l) now random i acc) s of
             (Inl _, s') \<Rightarrow> (Refused 400 [], s')
           | (Inr plain, s') \<Rightarrow>
               (case returned_row i s' of Edited r \<Rightarrow> (Reissued r plain, s') | refused \<Rightarrow> (refused, s'))))"

text \<open>Disabling, enabling and deleting answer alike.\<close>

definition token_command ::
    "string \<Rightarrow> string \<Rightarrow> string \<Rightarrow> (uuid \<Rightarrow> db \<Rightarrow> (db_error, unit) result \<times> db) \<Rightarrow> uuid option \<Rightarrow> token_site \<Rightarrow> token_answer \<times> token_site" where
  "token_command absent failed ok oper param s =
     (case param of
        None \<Rightarrow> (Refused 400 ''invalid token id'', s)
      | Some i \<Rightarrow>
          (case on_token i (oper i) s of
             (Inl NoRows, s') \<Rightarrow> (Refused 404 absent, s')
           | (Inl _, s') \<Rightarrow> (Refused 500 failed, s')
           | (Inr _, s') \<Rightarrow> (Said ok, s')))"

definition disable_token_handler :: "fault_at \<Rightarrow> time \<Rightarrow> uuid \<Rightarrow> uuid option \<Rightarrow> token_site \<Rightarrow> token_answer \<times> token_site" where
  "disable_token_handler faults now acc =
     token_command ''token not found or already disabled'' ''token could not be disabled'' ''token disabled''
       (\<lambda>i. DisableToken (faults 0) now i acc)"

definition enable_token_handler :: "fault_at \<Rightarrow> time \<Rightarrow> uuid \<Rightarrow> uuid option \<Rightarrow> token_site \<Rightarrow> token_answer \<times> token_site" where
  "enable_token_handler faults now acc =
     token_command ''token not found or already enabled'' ''token could not be enabled'' ''token enabled''
       (\<lambda>i. EnableToken (faults 0) now i acc)"

definition delete_token_handler :: "fault_at \<Rightarrow> uuid \<Rightarrow> uuid option \<Rightarrow> token_site \<Rightarrow> token_answer \<times> token_site" where
  "delete_token_handler faults acc =
     token_command ''token not found'' ''token could not be deleted'' ''token deleted'' (\<lambda>i. DeleteToken (faults 0) i acc)"

section \<open>The console key\<close>

text \<open>What the file system does with the key file; of a write that fails it says what is left in the file.\<close>

datatype file_outcome = Mkdir_Failed | Write_Failed "string option" | Written

definition key_file_name :: "string \<Rightarrow> string" where
  "key_file_name env = (if env = [] then ''/data/admin.key'' else env)"

definition newline :: string where
  "newline = [char_of (10 :: nat)]"

definition key_file_content :: "string \<Rightarrow> string" where
  "key_file_content key =
     ''# FAR Mail Admin Console Auth Key'' @ newline
     @ ''# Format: sk-<custom>-<16 or 32 hex>; default prefix: sk-mail-.'' @ newline
     @ ''# Send only through X-Admin-Key to /console/v1. API tokens are stored and authenticated separately for /api/v1.''
     @ newline @ newline @ ''ADMIN_AUTH_KEY='' @ key @ newline"

definition writeAdminAuthKeyFile :: "file_outcome \<Rightarrow> string \<Rightarrow> string option \<Rightarrow> bool \<times> string option" where
  "writeAdminAuthKeyFile outcome key content =
     (case outcome of
        Mkdir_Failed \<Rightarrow> (False, content)
      | Write_Failed left \<Rightarrow> (False, left)
      | Written \<Rightarrow> (True, Some (key_file_content key)))"

text \<open>At the start of the process the file is written from the database; the query takes the first administrator, active
  or not.\<close>

definition GetAdminAPIKey :: "bool \<Rightarrow> db \<Rightarrow> (db_error, string) result" where
  "GetAdminAPIKey fault d =
     (if fault then Inl Fault
      else case first_account (filter acc_is_admin (db_accounts d)) of None \<Rightarrow> Inl NoRows | Some a \<Rightarrow> Inr (acc_api_key a))"

definition start_key_file :: "bool \<Rightarrow> file_outcome \<Rightarrow> db \<Rightarrow> string option \<Rightarrow> string option" where
  "start_key_file fault outcome d content =
     (case GetAdminAPIKey fault d of Inl _ \<Rightarrow> content | Inr key \<Rightarrow> snd (writeAdminAuthKeyFile outcome key content))"

record key_answer =
  ka_key :: string
  ka_file :: string
  ka_written :: bool

definition RotateAdminAuthKey_handler ::
    "bool \<Rightarrow> libs \<Rightarrow> time \<Rightarrow> string \<Rightarrow> file_outcome \<Rightarrow> string \<Rightarrow> account option \<Rightarrow> string \<Rightarrow> db \<times> string option
     \<Rightarrow> (int, key_answer) result \<times> (db \<times> string option)" where
  "RotateAdminAuthKey_handler fault l now random outcome env account requested s =
     (case account of
        None \<Rightarrow> (Inl 401, s)
      | Some a \<Rightarrow>
          (let (r, d) = (if requested \<noteq> []
                         then (case SetAdminAuthKey fault (lib_sha l) now (acc_id a) requested (fst s) of
                                 (Inl e, d) \<Rightarrow> (Inl e, d) | (Inr _, d) \<Rightarrow> (Inr requested, d))
                         else RotateAdminAuthKey fault (lib_lower l) now random (acc_id a) (fst s)) in
           case r of
             Inl _ \<Rightarrow> (Inl (if requested \<noteq> [] then 400 else 500), (d, snd s))
           | Inr key \<Rightarrow>
               (let (written, file) = writeAdminAuthKeyFile outcome key (snd s) in
                (Inr \<lparr>ka_key = key, ka_file = key_file_name env, ka_written = written\<rparr>, (d, file)))))"

definition credentialKindFromMode :: "string \<Rightarrow> string" where
  "credentialKindFromMode mode = (if mode = ''admin_console'' then ''admin_auth_key'' else ''api_access_token'')"

record session_view =
  sv_kind :: string
  sv_account :: account
  sv_token :: account_token
  sv_remaining_today :: int
  sv_remaining_total :: int
  sv_auth_mode :: string

definition Session :: "request_context option \<Rightarrow> (int, session_view) result" where
  "Session cx =
     (case cx of
        None \<Rightarrow> Inl 401
      | Some c \<Rightarrow>
          (let t = cx_token c in
           Inr \<lparr>sv_kind = credentialKindFromMode (cx_mode c), sv_account = cx_account c, sv_token = t, sv_remaining_today = - 1,
                sv_remaining_total = remaining_total (tok_total_request_limit t) (tok_request_count_total t),
                sv_auth_mode = cx_mode c\<rparr>))"

definition donationCreatorToken :: "account_token option \<Rightarrow> uuid option" where
  "donationCreatorToken token =
     (case token of
        None \<Rightarrow> None
      | Some t \<Rightarrow> if tok_kind t \<noteq> ''donation'' \<or> tok_id t = uuid_nil then None else Some (tok_id t))"

end
