(* ===== verification/Mailboxes.thy ===== *)
theory Mailboxes
  imports Mail_Extract Models Tables "HOL-Library.Product_Lexorder"
begin

text \<open>
  Mailboxes, their mail and the projection of the latest mail (\<open>src/api/store/postgres.go\<close>, \<open>CreateMailbox\<close> to
  \<open>GenerateRandomAddress\<close>, and \<open>src/api/store/ingress.go\<close>, \<open>InsertEmailResolved\<close>).  The three tables are lists of
  rows; of the tables they refer to, the keys are kept.  One statement, common table expressions included, is
  one step that happens or does not (\<open>fault\<close>); \<open>now\<close> is the clock of the statement, and the ids that
  \<open>gen_random_uuid\<close> draws are arguments.  A text that a column rejects (invalid or with a NUL) or that is longer
  than its column fails the statement.
\<close>

record mail_store =
  ml_accounts :: "uuid list"
  ml_domains :: "int list"
  ml_mailboxes :: "mailbox list"
  ml_emails :: "email list"
  ml_states :: "mailbox_state list"

definition minute :: duration where
  "minute = 60 * second"

definition column_text :: "string \<Rightarrow> bool" where
  "column_text s = (valid_utf8 s \<and> CHR 0x00 \<notin> set s)"

definition varchar :: "nat \<Rightarrow> string \<Rightarrow> bool" where
  "varchar n s = (column_text s \<and> length (runes s) \<le> n)"

definition owns :: "uuid \<Rightarrow> uuid option \<Rightarrow> mailbox \<Rightarrow> bool" where
  "owns account token m =
     (mb_account_id m = account \<and> (case token of None \<Rightarrow> True | Some t \<Rightarrow> mb_creator_token_id m = Some t))"

definition mail_of :: "uuid \<Rightarrow> email list \<Rightarrow> email list" where
  "mail_of i es = filter (\<lambda>e. em_mailbox_id e = i) es"

text \<open>\<open>ORDER BY received_at DESC, id DESC\<close>\<close>

definition mail_key :: "email \<Rightarrow> time \<times> uuid" where
  "mail_key e = (em_received_at e, em_id e)"

definition newest_first :: "email list \<Rightarrow> email list" where
  "newest_first es = rev (sort_key mail_key es)"

definition latest :: "email list \<Rightarrow> email option" where
  "latest es = (case newest_first es of [] \<Rightarrow> None | e # _ \<Rightarrow> Some e)"

section \<open>Mailboxes\<close>

definition new_mailbox :: "uuid \<Rightarrow> uuid \<Rightarrow> uuid option \<Rightarrow> string \<Rightarrow> int \<Rightarrow> string \<Rightarrow> time \<Rightarrow> time option \<Rightarrow> mailbox" where
  "new_mailbox i account token address domain full now expires =
     \<lparr>mb_id = i, mb_account_id = account, mb_address = address, mb_domain_id = domain, mb_full_address = full,
      mb_created_at = now, mb_expires_at = expires, mb_keep_forever = False, mb_creator_token_id = token\<rparr>"

definition CreateMailbox ::
    "bool \<Rightarrow> time \<Rightarrow> uuid \<Rightarrow> uuid \<Rightarrow> uuid option \<Rightarrow> string \<Rightarrow> int \<Rightarrow> string \<Rightarrow> int \<Rightarrow> mail_store
     \<Rightarrow> (db_error, mailbox) result \<times> mail_store" where
  "CreateMailbox fault now i account token address domain full ttl s =
     (let expires = (if 0 < ttl then Some (now + wrap64 (ttl * minute)) else None);
          m = new_mailbox i account token address domain full now expires in
      if fault then (Inl Fault, s)
      else if \<not> varchar 128 address \<or> \<not> varchar 320 full \<or> \<not> int4 domain then (Inl OutOfRange, s)
      else if full \<in> set (map mb_full_address (ml_mailboxes s)) then (Inl Conflict, s)
      else if account \<notin> set (ml_accounts s) \<or> domain \<notin> set (ml_domains s) then (Inl (Rejected ''foreign key''), s)
      else (Inr m, s\<lparr>ml_mailboxes := ml_mailboxes s @ [m]\<rparr>))"

definition page_offset :: "int \<Rightarrow> int \<Rightarrow> int" where
  "page_offset page sz = wrap64 (wrap64 (page - 1) * sz)"

definition page_of :: "int \<Rightarrow> int \<Rightarrow> 'a list \<Rightarrow> 'a list" where
  "page_of page sz xs = take (nat sz) (drop (nat (page_offset page sz)) xs)"

text \<open>A negative \<open>LIMIT\<close> or \<open>OFFSET\<close> is an error.\<close>

definition bad_page :: "int \<Rightarrow> int \<Rightarrow> bool" where
  "bad_page page sz = (sz < 0 \<or> page_offset page sz < 0)"

definition boxes_newest_first :: "mailbox list \<Rightarrow> mailbox list" where
  "boxes_newest_first ms = rev (sort_key (\<lambda>m. (mb_created_at m, mb_id m)) ms)"

definition ListMailboxes ::
    "bool \<Rightarrow> uuid \<Rightarrow> uuid option \<Rightarrow> int \<Rightarrow> int \<Rightarrow> mail_store \<Rightarrow> (db_error, mailbox list \<times> nat) result" where
  "ListMailboxes fault account token page sz s =
     (let own = filter (owns account token) (ml_mailboxes s) in
      if fault \<or> bad_page page sz then Inl Fault
      else Inr (page_of page sz (boxes_newest_first own), length own))"

definition find_mailbox :: "uuid \<Rightarrow> uuid \<Rightarrow> uuid option \<Rightarrow> mail_store \<Rightarrow> mailbox option" where
  "find_mailbox i account token s = List.find (\<lambda>m. mb_id m = i \<and> owns account token m) (ml_mailboxes s)"

definition GetMailbox :: "bool \<Rightarrow> uuid \<Rightarrow> uuid \<Rightarrow> uuid option \<Rightarrow> mail_store \<Rightarrow> (db_error, mailbox) result" where
  "GetMailbox fault i account token s =
     (if fault then Inl Fault else of_option NoRows (find_mailbox i account token s))"

text \<open>Deleted mailboxes take their mail and their projection with them.\<close>

definition delete_mailboxes :: "(mailbox \<Rightarrow> bool) \<Rightarrow> mail_store \<Rightarrow> nat \<times> mail_store" where
  "delete_mailboxes P s =
     (let gone = set (map mb_id (filter P (ml_mailboxes s))) in
      (length (filter P (ml_mailboxes s)),
       s\<lparr>ml_mailboxes := filter (\<lambda>m. \<not> P m) (ml_mailboxes s),
         ml_emails := filter (\<lambda>e. em_mailbox_id e \<notin> gone) (ml_emails s),
         ml_states := filter (\<lambda>st. ms_mailbox_id st \<notin> gone) (ml_states s)\<rparr>))"

definition DeleteMailbox :: "bool \<Rightarrow> uuid \<Rightarrow> uuid \<Rightarrow> uuid option \<Rightarrow> mail_store \<Rightarrow> (db_error, unit) result \<times> mail_store" where
  "DeleteMailbox fault i account token s =
     (if fault then (Inl Fault, s)
      else (let (n, s') = delete_mailboxes (\<lambda>m. mb_id m = i \<and> owns account token m) s in
            (if n = 0 then Inl NoRows else Inr (), s')))"

definition expired :: "time \<Rightarrow> mailbox \<Rightarrow> bool" where
  "expired now m = (\<not> mb_keep_forever m \<and> (case mb_expires_at m of None \<Rightarrow> False | Some t \<Rightarrow> t < now))"

definition DeleteExpiredMailboxes :: "bool \<Rightarrow> time \<Rightarrow> mail_store \<Rightarrow> (db_error, nat) result \<times> mail_store" where
  "DeleteExpiredMailboxes fault now s =
     (if fault then (Inl Fault, s) else (let (n, s') = delete_mailboxes (expired now) s in (Inr n, s')))"

definition retention :: "time \<Rightarrow> bool \<Rightarrow> int \<Rightarrow> mailbox \<Rightarrow> mailbox" where
  "retention now keep ttl m =
     m\<lparr>mb_keep_forever := keep, mb_expires_at := (if keep \<or> ttl \<le> 0 then None else Some (now + ttl * minute))\<rparr>"

text \<open>The second statement, on the projection, may fail without the caller knowing (\<open>fault2\<close>).\<close>

definition SetMailboxKeepForever ::
    "bool \<Rightarrow> bool \<Rightarrow> time \<Rightarrow> time \<Rightarrow> uuid \<Rightarrow> uuid \<Rightarrow> uuid option \<Rightarrow> bool \<Rightarrow> int \<Rightarrow> mail_store
     \<Rightarrow> (db_error, mailbox) result \<times> mail_store" where
  "SetMailboxKeepForever fault fault2 now later i account token keep ttl s =
     (if fault \<or> \<not> int4 ttl then (Inl Fault, s)
      else case find_mailbox i account token s of
        None \<Rightarrow> (Inl NoRows, s)
      | Some m0 \<Rightarrow>
          (let m = retention now keep ttl m0;
               s1 = s\<lparr>ml_mailboxes := update_row mb_id i (retention now keep ttl) (ml_mailboxes s)\<rparr> in
           (Inr m,
            if fault2 then s1
            else s1\<lparr>ml_states := update_row ms_mailbox_id (mb_id m)
                      (\<lambda>st. st\<lparr>ms_expires_at := mb_expires_at m, ms_keep_forever := mb_keep_forever m, ms_updated_at := later\<rparr>)
                      (ml_states s1)\<rparr>)))"

section \<open>Delivery\<close>

record extract_libs =
  ex_unescape :: "string \<Rightarrow> string"
  ex_upper :: "nat \<Rightarrow> nat"
  ex_lower :: "nat \<Rightarrow> nat"

definition ttl_expiry :: "time \<Rightarrow> int \<Rightarrow> time option" where
  "ttl_expiry now ttl = (if ttl \<le> 0 then None else Some (now + ttl * minute))"

definition revive_expiry :: "time \<Rightarrow> int \<Rightarrow> mailbox \<Rightarrow> mailbox" where
  "revive_expiry now ttl m =
     m\<lparr>mb_expires_at :=
         (if mb_keep_forever m then mb_expires_at m
          else if ttl \<le> 0 then None
          else case mb_expires_at m of
            None \<Rightarrow> Some (now + ttl * minute)
          | Some t \<Rightarrow> if t \<le> now then Some (now + ttl * minute) else Some t)\<rparr>"

text \<open>The row as it is after the upsert, and the table.\<close>

definition upsert_mailbox :: "time \<Rightarrow> uuid \<Rightarrow> uuid \<Rightarrow> string \<Rightarrow> int \<Rightarrow> string \<Rightarrow> int \<Rightarrow> mailbox list \<Rightarrow> mailbox \<times> mailbox list" where
  "upsert_mailbox now i account local domain full ttl ms =
     (case List.find (\<lambda>m. mb_full_address m = full) ms of
        None \<Rightarrow> (let m = new_mailbox i account None local domain full now (ttl_expiry now ttl) in (m, ms @ [m]))
      | Some m \<Rightarrow> (revive_expiry now ttl m, update_row mb_id (mb_id m) (revive_expiry now ttl) ms))"

definition first_state :: "time \<Rightarrow> mailbox \<Rightarrow> string \<Rightarrow> email \<Rightarrow> mailbox_state" where
  "first_state now m domain e =
     \<lparr>ms_mailbox_id = mb_id m, ms_account_id = mb_account_id m, ms_domain_id = mb_domain_id m, ms_domain_name = domain,
      ms_full_address = mb_full_address m, ms_latest_email_id = Some (em_id e), ms_latest_sender = em_sender e,
      ms_latest_subject = em_subject e, ms_latest_code = em_parsed_code e, ms_latest_code_source = em_parsed_code_source e,
      ms_latest_link = em_parsed_link e, ms_latest_link_source = em_parsed_link_source e,
      ms_latest_received_at = Some (em_received_at e), ms_email_count = 1, ms_expires_at = mb_expires_at m,
      ms_keep_forever = mb_keep_forever m, ms_created_at = now, ms_updated_at = now\<rparr>"

text \<open>The condition of the eight \<open>CASE\<close> expressions.\<close>

definition supersedes :: "email \<Rightarrow> mailbox_state \<Rightarrow> bool" where
  "supersedes e st =
     (case ms_latest_received_at st of
        None \<Rightarrow> True
      | Some t \<Rightarrow> em_received_at e > t
          \<or> (em_received_at e = t \<and> (case ms_latest_email_id st of None \<Rightarrow> False | Some j \<Rightarrow> em_id e > j)))"

definition put_latest :: "email option \<Rightarrow> mailbox_state \<Rightarrow> mailbox_state" where
  "put_latest l st =
     st\<lparr>ms_latest_email_id := map_option em_id l,
        ms_latest_sender := (case l of None \<Rightarrow> [] | Some e \<Rightarrow> em_sender e),
        ms_latest_subject := (case l of None \<Rightarrow> [] | Some e \<Rightarrow> em_subject e),
        ms_latest_code := (case l of None \<Rightarrow> [] | Some e \<Rightarrow> em_parsed_code e),
        ms_latest_code_source := (case l of None \<Rightarrow> [] | Some e \<Rightarrow> em_parsed_code_source e),
        ms_latest_link := (case l of None \<Rightarrow> [] | Some e \<Rightarrow> em_parsed_link e),
        ms_latest_link_source := (case l of None \<Rightarrow> [] | Some e \<Rightarrow> em_parsed_link_source e),
        ms_latest_received_at := map_option em_received_at l\<rparr>"

definition deliver_state :: "time \<Rightarrow> mailbox \<Rightarrow> string \<Rightarrow> email \<Rightarrow> mailbox_state \<Rightarrow> mailbox_state" where
  "deliver_state now m domain e st0 =
     (let st = st0\<lparr>ms_account_id := mb_account_id m, ms_domain_id := mb_domain_id m, ms_domain_name := domain,
                   ms_full_address := mb_full_address m\<rparr> in
      (if supersedes e st then put_latest (Some e) st else st)
        \<lparr>ms_email_count := ms_email_count st + 1, ms_expires_at := mb_expires_at m, ms_keep_forever := mb_keep_forever m,
         ms_updated_at := now\<rparr>)"

definition upsert_state :: "time \<Rightarrow> mailbox \<Rightarrow> string \<Rightarrow> email \<Rightarrow> mailbox_state list \<Rightarrow> mailbox_state list" where
  "upsert_state now m domain e sts =
     (if mb_id m \<in> set (map ms_mailbox_id sts) then update_row ms_mailbox_id (mb_id m) (deliver_state now m domain e) sts
      else sts @ [first_state now m domain e])"

definition summary_of :: "email \<Rightarrow> email_summary" where
  "summary_of e =
     \<lparr>es_id = em_id e, es_sender = em_sender e, es_subject = em_subject e, es_has_attachments = em_has_attachments e,
      es_parsed_code = em_parsed_code e, es_parsed_code_source = em_parsed_code_source e, es_parsed_link = em_parsed_link e,
      es_parsed_link_source = em_parsed_link_source e, es_size_bytes = em_size_bytes e, es_received_at = em_received_at e\<rparr>"

text \<open>The row of \<open>emails\<close> for a delivery into mailbox \<open>i\<close>.\<close>

definition new_email :: "extract_libs \<Rightarrow> time \<Rightarrow> uuid \<Rightarrow> uuid \<Rightarrow> ingress_delivery \<Rightarrow> email" where
  "new_email x now k i d =
     (let joined = trim_space (dl_subject d @ [CHR 0x0A] @ dl_body_text d @ [CHR 0x0A] @ dl_body_html d);
          (code, code_source) = ExtractCode (ex_unescape x) (ex_upper x) joined;
          (link, link_source) = ExtractLink (ex_lower x) joined in
      \<lparr>em_id = k, em_mailbox_id = i, em_sender = dl_sender d, em_subject = dl_subject d, em_body_text = dl_body_text d,
       em_body_html = dl_body_html d, em_raw_message = dl_raw d, em_has_attachments = dl_has_attachments d,
       em_raw_path = [], em_raw_retention_until = None, em_parsed_code = code, em_parsed_code_source = code_source,
       em_parsed_link = link, em_parsed_link_source = link_source,
       em_size_bytes = (if dl_size_bytes d \<le> 0 then int (length (dl_raw d)) else dl_size_bytes d),
       em_received_at = now\<rparr>)"

definition delivery_fits :: "string \<Rightarrow> string \<Rightarrow> string \<Rightarrow> ingress_delivery \<Rightarrow> email \<Rightarrow> bool" where
  "delivery_fits recipient local domain d e =
     (varchar 320 recipient \<and> varchar 128 local \<and> varchar 255 domain \<and> varchar 320 (em_sender e) \<and> varchar 998 (em_subject e)
      \<and> column_text (em_body_text e) \<and> column_text (em_body_html e) \<and> column_text (em_raw_message e)
      \<and> column_text (em_parsed_code e) \<and> column_text (em_parsed_link e)
      \<and> int4 (dl_domain_id d) \<and> int4 (dl_mailbox_ttl_minutes d) \<and> int4 (em_size_bytes e))"

text \<open>\<open>fresh\<close>: the ids for a new mailbox and for the mail.\<close>

definition InsertEmailResolved ::
    "bool \<Rightarrow> extract_libs \<Rightarrow> time \<Rightarrow> uuid \<times> uuid \<Rightarrow> ingress_delivery \<Rightarrow> mail_store
     \<Rightarrow> (db_error, mailbox_email_event option \<times> bool) result \<times> mail_store" where
  "InsertEmailResolved fault x now fresh d s =
     (let recipient = to_lower (ex_lower x) (trim_space (dl_recipient d));
          local = to_lower (ex_lower x) (trim_space (dl_local_part d));
          domain = to_lower (ex_lower x) (trim_cut ''.'' (trim_space (dl_domain_name d))) in
      if recipient = [] \<or> local = [] \<or> domain = [] \<or> dl_account_id d = uuid_nil \<or> dl_domain_id d \<le> 0 then (Inr (None, False), s)
      else
        (let (m, ms) = upsert_mailbox now (fst fresh) (dl_account_id d) local (dl_domain_id d) recipient (dl_mailbox_ttl_minutes d) (ml_mailboxes s);
             e = new_email x now (snd fresh) (mb_id m) d in
         if fault then (Inl Fault, s)
         else if \<not> delivery_fits recipient local domain d e then (Inl OutOfRange, s)
         else if mb_account_id m \<notin> set (ml_accounts s) \<or> mb_domain_id m \<notin> set (ml_domains s) then (Inl (Rejected ''foreign key''), s)
         else
           (Inr (Some \<lparr>ev_mailbox_id = mb_id m, ev_full_address = mb_full_address m, ev_email = summary_of e\<rparr>, True),
            s\<lparr>ml_mailboxes := ms, ml_emails := ml_emails s @ [e], ml_states := upsert_state now m domain e (ml_states s)\<rparr>)))"

section \<open>Reading mail\<close>

definition ListEmails ::
    "bool \<Rightarrow> uuid \<Rightarrow> uuid \<Rightarrow> uuid option \<Rightarrow> int \<Rightarrow> int \<Rightarrow> mail_store \<Rightarrow> (db_error, email_summary list \<times> nat) result" where
  "ListEmails fault i account token page sz s =
     (if fault \<or> bad_page page sz then Inl Fault
      else case find_mailbox i account token s of
        None \<Rightarrow> Inl NoRows
      | Some m \<Rightarrow>
          (let own = mail_of (mb_id m) (ml_emails s) in
           Inr (map summary_of (page_of page sz (newest_first own)), length own)))"

section \<open>Deleting mail\<close>

text \<open>\<open>deleteEmailsAndRefreshProjection\<close>: the rows a statement deletes are given by a predicate.\<close>

definition refresh_state :: "time \<Rightarrow> email list \<Rightarrow> email list \<Rightarrow> mailbox_state \<Rightarrow> mailbox_state" where
  "refresh_state now gone kept st =
     (let n = length (mail_of (ms_mailbox_id st) gone) in
      if n = 0 then st
      else
        (let st' = st\<lparr>ms_email_count := max 0 (ms_email_count st - int n), ms_updated_at := now\<rparr> in
         if (case ms_latest_email_id st of None \<Rightarrow> True | Some j \<Rightarrow> j \<in> set (map em_id gone))
         then put_latest (latest (mail_of (ms_mailbox_id st) kept)) st' else st'))"

definition deleteEmailsAndRefreshProjection ::
    "bool \<Rightarrow> time \<Rightarrow> (email \<Rightarrow> bool) \<Rightarrow> mail_store \<Rightarrow> (db_error, nat) result \<times> mail_store" where
  "deleteEmailsAndRefreshProjection fault now P s =
     (if fault then (Inl Fault, s)
      else
        (let gone = filter P (ml_emails s); kept = filter (\<lambda>e. \<not> P e) (ml_emails s) in
         (Inr (length gone), s\<lparr>ml_emails := kept, ml_states := map (refresh_state now gone kept) (ml_states s)\<rparr>)))"

definition DeleteEmail ::
    "bool \<Rightarrow> time \<Rightarrow> uuid \<Rightarrow> uuid \<Rightarrow> uuid \<Rightarrow> uuid option \<Rightarrow> mail_store \<Rightarrow> (db_error, unit) result \<times> mail_store" where
  "DeleteEmail fault now k i account token s =
     (case deleteEmailsAndRefreshProjection fault now
             (\<lambda>e. em_id e = k \<and> em_mailbox_id e = i \<and> find_mailbox i account token s \<noteq> None) s of
        (Inl err, s') \<Rightarrow> (Inl err, s')
      | (Inr n, s') \<Rightarrow> (if n = 0 then Inl NoRows else Inr (), s'))"

text \<open>\<open>"%.0f seconds"\<close>: to the nearest second, a half to the even one.\<close>

definition round_seconds :: "duration \<Rightarrow> int" where
  "round_seconds d =
     (let q = d div second; r = d mod second in
      if 2 * r < second \<or> (2 * r = second \<and> even q) then q else q + 1)"

definition DeleteEmailsOlderThan :: "bool \<Rightarrow> time \<Rightarrow> duration \<Rightarrow> mail_store \<Rightarrow> (db_error, nat) result \<times> mail_store" where
  "DeleteEmailsOlderThan fault now max_age s =
     (if max_age \<le> 0 then (Inr 0, s)
      else deleteEmailsAndRefreshProjection fault now (\<lambda>e. em_received_at e < now - round_seconds max_age * second) s)"

definition TrimEmailsToMaxCount :: "bool \<Rightarrow> time \<Rightarrow> int \<Rightarrow> mail_store \<Rightarrow> (db_error, nat) result \<times> mail_store" where
  "TrimEmailsToMaxCount fault now max_count s =
     (if max_count \<le> 0 then (Inr 0, s)
      else (let overflow = map em_id (drop (nat max_count) (newest_first (ml_emails s))) in
            deleteEmailsAndRefreshProjection fault now (\<lambda>e. em_id e \<in> set overflow) s))"

section \<open>The cleaner\<close>

record cleaner_config =
  cc_max_age_minutes :: int
  cc_max_count :: int

text \<open>\<open>setting\<close> is what reading \<open>email_retention_minutes\<close> answers.\<close>

definition retentionMinutes :: "cleaner_config \<Rightarrow> (db_error, string) result \<Rightarrow> int" where
  "retentionMinutes cfg setting =
     (case setting of
        Inl _ \<Rightarrow> cc_max_age_minutes cfg
      | Inr raw \<Rightarrow>
          (case atoi (trim_space raw) of
             None \<Rightarrow> cc_max_age_minutes cfg
           | Some v \<Rightarrow> if v < 0 then cc_max_age_minutes cfg else v))"

definition cleaner_tick ::
    "(nat \<Rightarrow> bool) \<Rightarrow> (nat \<Rightarrow> time) \<Rightarrow> cleaner_config \<Rightarrow> (db_error, string) result \<Rightarrow> mail_store \<Rightarrow> mail_store" where
  "cleaner_tick ft clock cfg setting s =
     (let s1 = snd (DeleteExpiredMailboxes (ft 0) (clock 0) s);
          age = retentionMinutes cfg setting;
          s2 = (if 0 < age then snd (DeleteEmailsOlderThan (ft 1) (clock 1) (wrap64 (age * minute)) s1) else s1) in
      snd (TrimEmailsToMaxCount (ft 2) (clock 2) (cc_max_count cfg) s2))"

section \<open>Addresses\<close>

text \<open>\<open>draw i\<close> is the \<open>i\<close>-th number drawn, below 36.\<close>

definition GenerateRandomAddress :: "(nat \<Rightarrow> nat) \<Rightarrow> string" where
  "GenerateRandomAddress draw =
     map (\<lambda>i. ''abcdefghijklmnopqrstuvwxyz0123456789'' ! draw i) [0..<10]"

end
