(* ===== verification/Mailbox_Tools.thy ===== *)
theory Mailbox_Tools
  imports Mailboxes
begin

text \<open>
  Search, lookup, batch retention and purge of mailboxes (\<open>src/api/store/tooling.go\<close>).  Of the database,
  the case folding of \<open>ILIKE\<close> outside ASCII is a parameter, and so is the order in which it delivers mails of one
  time where a query does not ask for one.
\<close>

section \<open>Filters\<close>

text \<open>\<open>LIKE\<close> on code points: percent is any text, an underscore any character, a backslash quotes the next.\<close>

fun like :: "nat list \<Rightarrow> nat list \<Rightarrow> bool" where
  "like [] s = (s = [])"
| "like (c # p) s =
     (if c = 0x25 then like p s \<or> (case s of [] \<Rightarrow> False | x # s' \<Rightarrow> like (c # p) s')
      else if c = 0x5F then (case s of [] \<Rightarrow> False | x # s' \<Rightarrow> like p s')
      else if c = 0x5C then
        (case p of [] \<Rightarrow> False | e # p' \<Rightarrow> (case s of [] \<Rightarrow> False | x # s' \<Rightarrow> x = e \<and> like p' s'))
      else (case s of [] \<Rightarrow> False | x # s' \<Rightarrow> x = c \<and> like p s'))"

definition ilike :: "(nat \<Rightarrow> nat) \<Rightarrow> string \<Rightarrow> string \<Rightarrow> bool" where
  "ilike lo s pattern =
     like (map (\<lambda>c. lower_rune lo (fst c)) (runes pattern)) (map (\<lambda>c. lower_rune lo (fst c)) (runes s))"

definition split_part2 :: "string \<Rightarrow> string" where
  "split_part2 full = (let parts = split_byte full (CHR ''@'') in if 2 \<le> length parts then parts ! 1 else [])"

definition token_scope :: "uuid option \<Rightarrow> mailbox \<Rightarrow> bool" where
  "token_scope token m = (case token of None \<Rightarrow> True | Some t \<Rightarrow> mb_creator_token_id m = Some t)"

definition text_scope :: "(nat \<Rightarrow> nat) \<Rightarrow> string \<Rightarrow> string \<Rightarrow> mailbox \<Rightarrow> bool" where
  "text_scope lo q domain m =
     ((q = [] \<or> ilike lo (mb_full_address m) (''%'' @ q @ ''%'') \<or> ilike lo (mb_address m) (''%'' @ q @ ''%''))
      \<and> (domain = [] \<or> split_part2 (mb_full_address m) = domain))"

definition hour :: duration where
  "hour = 60 * minute"

definition buildMailboxSearchWhere ::
    "(nat \<Rightarrow> nat) \<Rightarrow> time \<Rightarrow> uuid \<Rightarrow> uuid option \<Rightarrow> string \<Rightarrow> string \<Rightarrow> bool \<Rightarrow> int \<Rightarrow> mailbox \<Rightarrow> bool" where
  "buildMailboxSearchWhere lo now account token q domain keep_only hours m =
     (mb_account_id m = account \<and> token_scope token m \<and> text_scope lo q domain m
      \<and> (keep_only \<longrightarrow> mb_keep_forever m)
      \<and> (0 < hours \<longrightarrow> \<not> mb_keep_forever m
           \<and> (case mb_expires_at m of None \<Rightarrow> False | Some t \<Rightarrow> now < t \<and> t \<le> now + hours * hour)))"

definition buildMailboxCleanupWhere ::
    "(nat \<Rightarrow> nat) \<Rightarrow> uuid \<Rightarrow> bool \<Rightarrow> uuid option \<Rightarrow> string \<Rightarrow> string \<Rightarrow> mailbox \<Rightarrow> bool" where
  "buildMailboxCleanupWhere lo account is_admin token q domain m =
     ((\<not> is_admin \<longrightarrow> mb_account_id m = account) \<and> token_scope token m \<and> text_scope lo q domain m)"

section \<open>Search and lookup\<close>

definition SearchMailboxesForAccount ::
    "bool \<Rightarrow> (nat \<Rightarrow> nat) \<Rightarrow> time \<Rightarrow> uuid \<Rightarrow> uuid option \<Rightarrow> int \<Rightarrow> int \<Rightarrow> string \<Rightarrow> string \<Rightarrow> bool \<Rightarrow> int \<Rightarrow> mail_store
     \<Rightarrow> (db_error, mailbox list \<times> nat) result" where
  "SearchMailboxesForAccount fault lo now account token page0 sz0 q domain keep_only hours s =
     (let page = (if page0 < 1 then 1 else page0);
          sz = (if sz0 < 1 \<or> 200 < sz0 then 20 else sz0);
          found = filter (buildMailboxSearchWhere lo now account token (trim_space q) (to_lower lo (trim_space domain)) keep_only hours)
                    (ml_mailboxes s) in
      if fault \<or> bad_page page sz \<or> (0 < hours \<and> \<not> int4 hours) then Inl Fault
      else Inr (page_of page sz (boxes_newest_first found), length found))"

text \<open>At most one mailbox has an address.\<close>

definition LookupMailboxScoped ::
    "bool \<Rightarrow> (nat \<Rightarrow> nat) \<Rightarrow> uuid \<Rightarrow> bool \<Rightarrow> uuid option \<Rightarrow> string \<Rightarrow> mail_store \<Rightarrow> (db_error, mailbox) result" where
  "LookupMailboxScoped fault lo account is_admin token full s =
     (if fault then Inl Fault
      else of_option NoRows
        (List.find (\<lambda>m. mb_full_address m = to_lower lo (trim_space full) \<and> (is_admin \<or> mb_account_id m = account) \<and> token_scope token m)
          (ml_mailboxes s)))"

definition coalesce :: "'a option \<Rightarrow> 'a option \<Rightarrow> 'a option" where
  "coalesce a b = (case a of None \<Rightarrow> b | Some x \<Rightarrow> Some x)"

definition shown_state :: "mailbox \<Rightarrow> mailbox_state \<Rightarrow> mailbox_state" where
  "shown_state m st =
     st\<lparr>ms_domain_name := (if ms_domain_name st = [] then split_part2 (mb_full_address m) else ms_domain_name st),
        ms_expires_at := coalesce (ms_expires_at st) (mb_expires_at m)\<rparr>"

definition valid_projection :: "mailbox \<Rightarrow> mailbox_state \<Rightarrow> email list \<Rightarrow> bool" where
  "valid_projection m st es = list_ex (\<lambda>e. Some (em_id e) = ms_latest_email_id st \<and> em_mailbox_id e = mb_id m) es"

definition LookupMailboxProjectionScoped ::
    "bool \<Rightarrow> (nat \<Rightarrow> nat) \<Rightarrow> uuid \<Rightarrow> bool \<Rightarrow> uuid option \<Rightarrow> string \<Rightarrow> mail_store
     \<Rightarrow> (db_error, mailbox \<times> mailbox_state option) result" where
  "LookupMailboxProjectionScoped fault lo account is_admin token full s =
     rbind (LookupMailboxScoped fault lo account is_admin token full s) (\<lambda>m.
       Inr (m, (case find_row ms_mailbox_id (mb_id m) (ml_states s) of
                  None \<Rightarrow> None
                | Some st \<Rightarrow> if valid_projection m st (ml_emails s) then Some (shown_state m st) else None)))"

definition GetLatestEmailForMailbox :: "bool \<Rightarrow> (email \<Rightarrow> nat) \<Rightarrow> uuid \<Rightarrow> mail_store \<Rightarrow> (db_error, email) result" where
  "GetLatestEmailForMailbox fault tie i s =
     (if fault then Inl Fault
      else case rev (sort_key (\<lambda>e. (em_received_at e, tie e)) (mail_of i (ml_emails s))) of
        [] \<Rightarrow> Inl NoRows
      | e # _ \<Rightarrow> Inr e)"

definition LookupLatestEmailScoped ::
    "bool \<Rightarrow> (nat \<Rightarrow> nat) \<Rightarrow> uuid \<Rightarrow> bool \<Rightarrow> uuid option \<Rightarrow> string \<Rightarrow> mail_store
     \<Rightarrow> (db_error, mailbox \<times> email option) result" where
  "LookupLatestEmailScoped fault lo account is_admin token full s =
     rbind (LookupMailboxScoped fault lo account is_admin token full s) (\<lambda>m.
       Inr (m, latest (mail_of (mb_id m) (ml_emails s))))"

definition ListRecentCodeActivity ::
    "bool \<Rightarrow> (email \<Rightarrow> nat) \<Rightarrow> uuid \<Rightarrow> int \<Rightarrow> mail_store \<Rightarrow> (db_error, (email \<times> string) list) result" where
  "ListRecentCodeActivity fault tie account limit0 s =
     (let limit = (if limit0 \<le> 0 \<or> 50 < limit0 then 12 else limit0);
          rows = List.map_filter (\<lambda>e. map_option (\<lambda>m. (e, mb_full_address m))
                   (List.find (\<lambda>m. mb_id m = em_mailbox_id e \<and> mb_account_id m = account) (ml_mailboxes s)))
                   (rev (sort_key (\<lambda>e. (em_received_at e, tie e)) (ml_emails s))) in
      if fault then Inl Fault else Inr (take (nat limit) rows))"

section \<open>Batch retention\<close>

text \<open>An id that is asked for twice is answered twice.\<close>

definition SetManyMailboxesKeepForever ::
    "bool \<Rightarrow> time \<Rightarrow> uuid \<Rightarrow> uuid option \<Rightarrow> uuid list \<Rightarrow> bool \<Rightarrow> int \<Rightarrow> mail_store \<Rightarrow> (db_error, mailbox list) result \<times> mail_store" where
  "SetManyMailboxesKeepForever fault now account token ids keep ttl s =
     (if ids = [] then (Inr [], s)
      else if fault \<or> \<not> int4 ttl then (Inl Fault, s)
      else
        (let hit = (\<lambda>m. mb_id m \<in> set ids \<and> owns account token m);
             updated = map (retention now keep ttl) (filter hit (ml_mailboxes s)) in
         (Inr (List.map_filter (\<lambda>i. find_row mb_id i updated) ids),
          s\<lparr>ml_mailboxes := map (\<lambda>m. if hit m then retention now keep ttl m else m) (ml_mailboxes s),
            ml_states := map (\<lambda>st. case find_row mb_id (ms_mailbox_id st) updated of
                None \<Rightarrow> st
              | Some m \<Rightarrow> st\<lparr>ms_expires_at := mb_expires_at m, ms_keep_forever := mb_keep_forever m, ms_updated_at := now\<rparr>)
              (ml_states s)\<rparr>)))"

section \<open>Purge\<close>

definition purge_filter ::
    "(nat \<Rightarrow> nat) \<Rightarrow> time \<Rightarrow> uuid \<Rightarrow> bool \<Rightarrow> uuid option \<Rightarrow> string \<Rightarrow> string \<Rightarrow> bool \<Rightarrow> bool \<Rightarrow> mail_store \<Rightarrow> mailbox \<Rightarrow> bool" where
  "purge_filter lo now account is_admin token q domain only_empty only_expired s m =
     (buildMailboxCleanupWhere lo account is_admin token (trim_space q) (to_lower lo (trim_space domain)) m
      \<and> \<not> mb_keep_forever m
      \<and> (only_empty \<longrightarrow> mail_of (mb_id m) (ml_emails s) = [])
      \<and> (only_expired \<longrightarrow> (case mb_expires_at m of None \<Rightarrow> False | Some t \<Rightarrow> t < now)))"

definition PurgeMailboxes ::
    "bool \<Rightarrow> (nat \<Rightarrow> nat) \<Rightarrow> time \<Rightarrow> uuid \<Rightarrow> bool \<Rightarrow> uuid option \<Rightarrow> string \<Rightarrow> string \<Rightarrow> bool \<Rightarrow> bool \<Rightarrow> mail_store
     \<Rightarrow> (db_error, nat) result \<times> mail_store" where
  "PurgeMailboxes fault lo now account is_admin token q domain only_empty only_expired s =
     (if fault then (Inl Fault, s)
      else (let (n, s') = delete_mailboxes (purge_filter lo now account is_admin token q domain only_empty only_expired s) s in
            (Inr n, s')))"

definition PreviewPurgeMailboxes ::
    "bool \<Rightarrow> (nat \<Rightarrow> nat) \<Rightarrow> time \<Rightarrow> uuid \<Rightarrow> bool \<Rightarrow> uuid option \<Rightarrow> string \<Rightarrow> string \<Rightarrow> bool \<Rightarrow> bool \<Rightarrow> mail_store
     \<Rightarrow> (db_error, nat) result" where
  "PreviewPurgeMailboxes fault lo now account is_admin token q domain only_empty only_expired s =
     (if fault then Inl Fault
      else Inr (length (filter (purge_filter lo now account is_admin token q domain only_empty only_expired s) (ml_mailboxes s))))"

definition mail_filter ::
    "(nat \<Rightarrow> nat) \<Rightarrow> time \<Rightarrow> uuid \<Rightarrow> bool \<Rightarrow> uuid option \<Rightarrow> string \<Rightarrow> string \<Rightarrow> int \<Rightarrow> mail_store \<Rightarrow> email \<Rightarrow> bool" where
  "mail_filter lo now account is_admin token q domain older s e =
     (list_ex (\<lambda>m. mb_id m = em_mailbox_id e
          \<and> buildMailboxCleanupWhere lo account is_admin token (trim_space q) (to_lower lo (trim_space domain)) m) (ml_mailboxes s)
      \<and> (0 < older \<longrightarrow> em_received_at e < now - older * minute))"

definition PurgeEmails ::
    "bool \<Rightarrow> (nat \<Rightarrow> nat) \<Rightarrow> time \<Rightarrow> uuid \<Rightarrow> bool \<Rightarrow> uuid option \<Rightarrow> string \<Rightarrow> string \<Rightarrow> int \<Rightarrow> mail_store
     \<Rightarrow> (db_error, nat) result \<times> mail_store" where
  "PurgeEmails fault lo now account is_admin token q domain older s =
     deleteEmailsAndRefreshProjection (fault \<or> (0 < older \<and> \<not> int4 older)) now
       (mail_filter lo now account is_admin token q domain older s) s"

definition PreviewPurgeEmails ::
    "bool \<Rightarrow> (nat \<Rightarrow> nat) \<Rightarrow> time \<Rightarrow> uuid \<Rightarrow> bool \<Rightarrow> uuid option \<Rightarrow> string \<Rightarrow> string \<Rightarrow> int \<Rightarrow> mail_store
     \<Rightarrow> (db_error, nat \<times> int) result" where
  "PreviewPurgeEmails fault lo now account is_admin token q domain older s =
     (if fault \<or> (0 < older \<and> \<not> int4 older) then Inl Fault
      else (let hit = filter (mail_filter lo now account is_admin token q domain older s) (ml_emails s) in
            Inr (length hit, sum_rows em_size_bytes hit)))"

end
