(* ===== verification/Mailbox_Admin.thy ===== *)
theory Mailbox_Admin
  imports Token_Admin Mailbox_Tools Events
begin

text \<open>
  The handlers of mailboxes and of their mail (\<open>src/api/handler/mailbox.go\<close>, \<open>email.go\<close>).  A request carries the account
  and, for a donation token, the token that scopes it; of a query parameter a handler takes the text, of an id what
  \<open>uuid.Parse\<close> makes of it.  Reading one mail by its id is not modelled beyond its answer: PostgreSQL rejects the
  statement (see \<open>GetEmail\<close>), so the handler answers as for an unknown mail.
\<close>

record mail_site =
  mt_mail :: mail_store
  mt_domains :: domain_store

record caller =
  cl_account :: uuid
  cl_token :: "uuid option"

definition caller_of :: "request_context \<Rightarrow> caller" where
  "caller_of cx = \<lparr>cl_account = acc_id (cx_account cx), cl_token = donationCreatorToken (Some (cx_token cx))\<rparr>"

section \<open>Names\<close>

definition alnum :: "char \<Rightarrow> bool" where
  "alnum c = (is_lower c \<or> is_digit c)"

text \<open>\<open>^[a-z0-9](?:[...]{0,n}[a-z0-9])?$\<close>: the characters between the ends, and how many.\<close>

definition framed :: "string \<Rightarrow> nat \<Rightarrow> string \<Rightarrow> bool" where
  "framed extra n s =
     (s \<noteq> [] \<and> length s \<le> n + 2 \<and> alnum (hd s) \<and> alnum (last s) \<and> list_all (\<lambda>c. alnum c \<or> c \<in> set extra) s)"

definition mailboxDomainPattern :: "string \<Rightarrow> bool" where
  "mailboxDomainPattern = framed ''.-'' 251"

definition mailboxLocalPattern :: "string \<Rightarrow> bool" where
  "mailboxLocalPattern = framed ''._+-'' 62"

definition mailboxTTLMinutes :: "bool \<Rightarrow> db \<Rightarrow> int" where
  "mailboxTTLMinutes fault d =
     (case (if fault then Inl Fault else GetSetting d ''mailbox_ttl_minutes'') of
        Inl _ \<Rightarrow> 30
      | Inr v \<Rightarrow> (case atoi (trim_space v) of None \<Rightarrow> 30 | Some n \<Rightarrow> if n \<ge> 0 then n else 30))"

section \<open>Mailboxes\<close>

datatype box_answer =
    Box_Refused int string
  | Box_Made mailbox
  | Box_Shown mailbox
  | Box_Page "mailbox list" nat int int
  | Boxes_Kept "mailbox list"
  | Box_Said string

text \<open>The domain of a new mailbox: the one asked for, or one drawn.\<close>

definition host_form :: "string \<Rightarrow> bool" where
  "host_form d = (mailboxDomainPattern d \<and> contains_sub d ''.'' \<and> \<not> contains_sub d ''..'')"

definition choose_domain ::
    "bool \<Rightarrow> text_tables \<Rightarrow> time \<Rightarrow> time \<Rightarrow> (nat \<Rightarrow> nat option) \<Rightarrow> string \<Rightarrow> domain_store
     \<Rightarrow> (int \<times> string, mail_domain \<times> string) result \<times> domain_store" where
  "choose_domain fault tt now later draw asked s =
     (let d = trim_space (to_lower (tt_lower tt) asked) in
      if d \<noteq> [] then
        (if \<not> host_form d then (Inl (400, ''invalid domain format''), s)
         else case ResolveActiveMailboxDomain fault tt now later d s of
           (Inl _, s') \<Rightarrow> (Inl (400, ''domain not found under active root domains: '' @ d), s')
         | (Inr r, s') \<Rightarrow> (Inr r, s'))
      else case GetRandomActiveDomain fault now later draw s of
           (Inl _, s') \<Rightarrow> (Inl (503, ''no active domains available''), s')
         | (Inr m, s') \<Rightarrow> (Inr (m, dom_domain m), s'))"

text \<open>\<open>letters\<close> are the draws of a random address; the fields of a body that cannot be decoded are empty.\<close>

definition new_local :: "text_tables \<Rightarrow> (nat \<Rightarrow> nat) \<Rightarrow> string \<Rightarrow> string" where
  "new_local tt letters asked =
     (let a = trim_space asked in to_lower (tt_lower tt) (if a = [] then GenerateRandomAddress letters else a))"

definition create_mailbox_handler ::
    "fault_at \<Rightarrow> text_tables \<Rightarrow> time \<Rightarrow> time \<Rightarrow> uuid \<Rightarrow> (nat \<Rightarrow> nat) \<Rightarrow> (nat \<Rightarrow> nat option) \<Rightarrow> caller \<Rightarrow> string \<Rightarrow> string \<Rightarrow> mail_site
     \<Rightarrow> box_answer \<times> mail_site" where
  "create_mailbox_handler faults tt now later fresh letters draw c address domain s =
     (let local = new_local tt letters address in
      if \<not> mailboxLocalPattern local
      then (Box_Refused 400 ''address must be 1-64 lowercase letters, numbers, dots, underscores, plus signs, or dashes'', s)
      else
        (let ttl = mailboxTTLMinutes (faults 0) (ds_db (mt_domains s)) in
         case choose_domain (faults 1) tt now later draw domain (mt_domains s) of
           (Inl (code, text), ds) \<Rightarrow> (Box_Refused code text, s\<lparr>mt_domains := ds\<rparr>)
         | (Inr (m, host), ds) \<Rightarrow>
             (case CreateMailbox (faults 2) now fresh (cl_account c) (cl_token c) local (dom_id m) (local @ ''@'' @ host) ttl (mt_mail s) of
                (Inl e, ms) \<Rightarrow>
                  (if e = Conflict then Box_Refused 409 ''address already taken, try again'' else Box_Refused 500 [],
                   s\<lparr>mt_domains := ds, mt_mail := ms\<rparr>)
              | (Inr b, ms) \<Rightarrow> (Box_Made b, s\<lparr>mt_domains := ds, mt_mail := ms\<rparr>))))"

text \<open>\<open>strconv.Atoi\<close> answers \<open>0\<close> for what is no number, and the nearest bound for a number out of range: both are outside
  the bounds a page and its size are held to, save a page beyond the range, which stays the largest number.\<close>

definition atoi_or :: "string \<Rightarrow> int" where
  "atoi_or s =
     (case atoi s of
        Some n \<Rightarrow> n
      | None \<Rightarrow>
          (let neg = has_prefix s ''-''; body = (if neg \<or> has_prefix s ''+'' then tl s else s) in
           if body \<noteq> [] \<and> list_all is_digit body then (if neg then - (2 ^ 63) else 2 ^ 63 - 1) else 0))"

definition page_number :: "string option \<Rightarrow> int" where
  "page_number q = (let n = atoi_or (case q of None \<Rightarrow> ''1'' | Some s \<Rightarrow> s) in if n < 1 then 1 else n)"

definition page_size :: "string option \<Rightarrow> int" where
  "page_size q = (let n = atoi_or (case q of None \<Rightarrow> ''20'' | Some s \<Rightarrow> s) in if n < 1 \<or> n > 100 then 20 else n)"

record mailbox_query =
  mq_page :: "string option"
  mq_size :: "string option"
  mq_q :: string
  mq_domain :: string
  mq_keep_forever :: string
  mq_expiring :: "string option"

definition list_mailboxes_handler :: "bool \<Rightarrow> text_tables \<Rightarrow> time \<Rightarrow> caller \<Rightarrow> mailbox_query \<Rightarrow> mail_site \<Rightarrow> box_answer" where
  "list_mailboxes_handler fault tt now c query s =
     (let page = page_number (mq_page query); sz = page_size (mq_size query);
          q = trim_space (mq_q query); domain = trim_space (mq_domain query);
          keep = (mq_keep_forever query = ''true'');
          hours = atoi_or (trim_space (case mq_expiring query of None \<Rightarrow> ''0'' | Some h \<Rightarrow> h)) in
      case (if q \<noteq> [] \<or> domain \<noteq> [] \<or> keep \<or> hours > 0
            then SearchMailboxesForAccount fault (tt_lower tt) now (cl_account c) (cl_token c) page sz q domain keep hours (mt_mail s)
            else ListMailboxes fault (cl_account c) (cl_token c) page sz (mt_mail s)) of
        Inl _ \<Rightarrow> Box_Refused 500 []
      | Inr (ms, n) \<Rightarrow> Box_Page ms n page sz)"

definition get_mailbox_handler :: "bool \<Rightarrow> caller \<Rightarrow> uuid option \<Rightarrow> mail_site \<Rightarrow> box_answer" where
  "get_mailbox_handler fault c param s =
     (case param of
        None \<Rightarrow> Box_Refused 400 ''invalid mailbox id''
      | Some i \<Rightarrow>
          (case GetMailbox fault i (cl_account c) (cl_token c) (mt_mail s) of
             Inl _ \<Rightarrow> Box_Refused 404 ''mailbox not found''
           | Inr m \<Rightarrow> Box_Shown m))"

definition retention_handler ::
    "fault_at \<Rightarrow> time \<Rightarrow> time \<Rightarrow> caller \<Rightarrow> uuid option \<Rightarrow> bool option \<Rightarrow> mail_site \<Rightarrow> box_answer \<times> mail_site" where
  "retention_handler faults now later c param body s =
     (case param of
        None \<Rightarrow> (Box_Refused 400 ''invalid mailbox id'', s)
      | Some i \<Rightarrow>
          (case body of
             None \<Rightarrow> (Box_Refused 400 ''invalid request'', s)
           | Some keep \<Rightarrow>
               (case SetMailboxKeepForever (faults 1) (faults 2) now later i (cl_account c) (cl_token c) keep
                       (mailboxTTLMinutes (faults 0) (ds_db (mt_domains s))) (mt_mail s) of
                  (Inl _, ms) \<Rightarrow> (Box_Refused 404 ''mailbox not found'', s\<lparr>mt_mail := ms\<rparr>)
                | (Inr m, ms) \<Rightarrow> (Box_Shown m, s\<lparr>mt_mail := ms\<rparr>))))"

definition parse_ids :: "uuid option list \<Rightarrow> uuid list option" where
  "parse_ids ids = (if None \<in> set ids then None else Some (map the ids))"

definition batch_retention_handler ::
    "fault_at \<Rightarrow> time \<Rightarrow> caller \<Rightarrow> (uuid option list \<times> bool) option \<Rightarrow> mail_site \<Rightarrow> box_answer \<times> mail_site" where
  "batch_retention_handler faults now c body s =
     (case body of
        None \<Rightarrow> (Box_Refused 400 ''invalid request'', s)
      | Some (ids, keep) \<Rightarrow>
          if ids = [] then (Box_Refused 400 ''ids is required'', s)
          else (case parse_ids ids of
             None \<Rightarrow> (Box_Refused 400 ''invalid mailbox id in ids'', s)
           | Some xs \<Rightarrow>
               (case SetManyMailboxesKeepForever (faults 1) now (cl_account c) (cl_token c) xs keep
                       (mailboxTTLMinutes (faults 0) (ds_db (mt_domains s))) (mt_mail s) of
                  (Inl _, ms) \<Rightarrow> (Box_Refused 500 [], s\<lparr>mt_mail := ms\<rparr>)
                | (Inr items, ms) \<Rightarrow>
                    (if items = [] then Box_Refused 404 ''no mailboxes updated'' else Boxes_Kept items, s\<lparr>mt_mail := ms\<rparr>))))"

definition delete_mailbox_handler :: "bool \<Rightarrow> caller \<Rightarrow> uuid option \<Rightarrow> mail_site \<Rightarrow> box_answer \<times> mail_site" where
  "delete_mailbox_handler fault c param s =
     (case param of
        None \<Rightarrow> (Box_Refused 400 ''invalid mailbox id'', s)
      | Some i \<Rightarrow>
          (case DeleteMailbox fault i (cl_account c) (cl_token c) (mt_mail s) of
             (Inl _, ms) \<Rightarrow> (Box_Refused 404 ''mailbox not found'', s\<lparr>mt_mail := ms\<rparr>)
           | (Inr _, ms) \<Rightarrow> (Box_Said ''mailbox deleted'', s\<lparr>mt_mail := ms\<rparr>)))"

section \<open>Mail\<close>

datatype mail_answer =
    Mail_Refused int string
  | Mail_Page "email_summary list" nat int int
  | Mail_Said string

definition list_emails_handler ::
    "bool \<Rightarrow> caller \<Rightarrow> uuid option \<Rightarrow> string option \<Rightarrow> string option \<Rightarrow> mail_site \<Rightarrow> mail_answer" where
  "list_emails_handler fault c param page sz s =
     (case param of
        None \<Rightarrow> Mail_Refused 400 ''invalid mailbox id''
      | Some i \<Rightarrow>
          (case ListEmails fault i (cl_account c) (cl_token c) (page_number page) (page_size sz) (mt_mail s) of
             Inl NoRows \<Rightarrow> Mail_Refused 404 ''mailbox not found''
           | Inl _ \<Rightarrow> Mail_Refused 500 []
           | Inr (es, n) \<Rightarrow> Mail_Page es n (page_number page) (page_size sz)))"

definition get_email_handler :: "uuid option \<Rightarrow> uuid option \<Rightarrow> mail_answer" where
  "get_email_handler param mail =
     (if param = None then Mail_Refused 400 ''invalid mailbox id''
      else if mail = None then Mail_Refused 400 ''invalid email id''
      else Mail_Refused 404 ''email not found'')"

definition delete_email_handler ::
    "bool \<Rightarrow> time \<Rightarrow> caller \<Rightarrow> uuid option \<Rightarrow> uuid option \<Rightarrow> mail_site \<Rightarrow> mail_answer \<times> mail_site" where
  "delete_email_handler fault now c param mail s =
     (case param of
        None \<Rightarrow> (Mail_Refused 400 ''invalid mailbox id'', s)
      | Some i \<Rightarrow>
          (case mail of
             None \<Rightarrow> (Mail_Refused 400 ''invalid email id'', s)
           | Some k \<Rightarrow>
               (case DeleteEmail fault now k i (cl_account c) (cl_token c) (mt_mail s) of
                  (Inl _, ms) \<Rightarrow> (Mail_Refused 404 ''email not found'', s\<lparr>mt_mail := ms\<rparr>)
                | (Inr _, ms) \<Rightarrow> (Mail_Said ''email deleted'', s\<lparr>mt_mail := ms\<rparr>))))"

section \<open>The event stream\<close>

text \<open>One stream: its subscription in the hub, and what it wrote.  A turn of the loop is a signal: the client is gone, a
  heartbeat is due, or the channel has an event; \<open>accepted\<close> says whether the write and the flush succeed.  An event can
  always be encoded as JSON.\<close>

datatype frame = Ready uuid | Heartbeat | Mail_Frame mailbox_email_event

record stream =
  st_id :: nat
  st_frames :: "frame list"
  st_open :: bool

datatype stream_signal = Client_Gone | Tick bool | Deliver bool

definition open_stream ::
    "bool \<Rightarrow> bool \<Rightarrow> caller \<Rightarrow> uuid option \<Rightarrow> bool \<Rightarrow> mail_site \<Rightarrow> hub \<Rightarrow> (int \<times> string, stream) result \<times> hub" where
  "open_stream attached fault c param accepted s h =
     (if \<not> attached then (Inl (503, ''realtime email events unavailable''), h)
      else case param of
        None \<Rightarrow> (Inl (400, ''invalid mailbox id''), h)
      | Some i \<Rightarrow>
          (case GetMailbox fault i (cl_account c) (cl_token c) (mt_mail s) of
             Inl _ \<Rightarrow> (Inl (404, ''mailbox not found''), h)
           | Inr m \<Rightarrow>
               (let (k, h') = subscribe i h in
                if accepted then (Inr \<lparr>st_id = k, st_frames = [Ready i], st_open = True\<rparr>, h')
                else (Inr \<lparr>st_id = k, st_frames = [], st_open = False\<rparr>, unsubscribe k h'))))"

definition close_stream :: "stream \<Rightarrow> hub \<Rightarrow> stream \<times> hub" where
  "close_stream t h = (t\<lparr>st_open := False\<rparr>, unsubscribe (st_id t) h)"

definition write_frame :: "bool \<Rightarrow> frame \<Rightarrow> stream \<Rightarrow> hub \<Rightarrow> stream \<times> hub" where
  "write_frame accepted f t h =
     (if accepted then (t\<lparr>st_frames := st_frames t @ [f]\<rparr>, h) else close_stream t h)"

text \<open>A turn whose signal cannot come (no event is waiting) is no turn.\<close>

fun stream_turn :: "stream_signal \<Rightarrow> stream \<times> hub \<Rightarrow> stream \<times> hub" where
  "stream_turn signal (t, h) =
     (if \<not> st_open t then (t, h)
      else case signal of
        Client_Gone \<Rightarrow> close_stream t h
      | Tick accepted \<Rightarrow> write_frame accepted Heartbeat t h
      | Deliver accepted \<Rightarrow>
          (case try_recv (hub_chans h (st_id t)) of
             Got e _ \<Rightarrow> write_frame accepted (Mail_Frame e) t (take_event (st_id t) h)
           | ClosedEmpty \<Rightarrow> close_stream t h
           | Empty \<Rightarrow> (t, h)))"

end
