(* ===== verification/Mail_Promises.thy ===== *)
theory Mail_Promises
  imports Mailbox_Tools Histories
begin

text \<open>
  What holds of the mail tables whatever is delivered, read, kept, deleted, purged or cleaned: the projection of
  each mailbox counts its mail and shows the latest one.
\<close>

section \<open>The latest mail\<close>

lemma newest_first_set [simp]: "set (newest_first es) = set es" "length (newest_first es) = length es"
  by (simp_all add: newest_first_def)

lemma newest_first_sorted: "sorted_wrt (\<lambda>e f. mail_key f \<le> mail_key e) (newest_first es)"
  using sorted_sort_key [of mail_key es] by (simp add: newest_first_def sorted_map sorted_wrt_rev)

lemma newest_first_Cons: "newest_first es = e # xs \<Longrightarrow> set es = insert e (set xs)"
  by (metis newest_first_set(1) list.simps(15))

lemma newest_first_Nil: "newest_first es = [] \<longleftrightarrow> es = []"
  by (metis newest_first_set(2) length_0_conv)

lemma latest_None [simp]: "latest es = None \<longleftrightarrow> es = []"
  using newest_first_Nil [of es] by (cases "newest_first es") (auto simp: latest_def)

lemma latest_Nil [simp]: "latest [] = None"
  by (simp add: latest_None)

lemma latest_Some: "latest es = Some e \<Longrightarrow> e \<in> set es \<and> (\<forall>f \<in> set es. mail_key f \<le> mail_key e)"
  using newest_first_sorted [of es] newest_first_Cons [of es e] by (auto simp: latest_def split: list.splits)

lemma latest_unique:
  assumes d: "keys_distinct em_id es" and e: "e \<in> set es" "\<forall>f \<in> set es. mail_key f \<le> mail_key e"
  shows "latest es = Some e"
proof -
  obtain g where g: "latest es = Some g" using e(1) latest_None [of es] by (cases "latest es") auto
  then have "mail_key e = mail_key g" using latest_Some [OF g] e by (meson order_antisym)
  then have "em_id e = em_id g" by (simp add: mail_key_def)
  then show ?thesis using d e(1) latest_Some [OF g] g unfolding keys_distinct_def by (metis inj_on_eq_iff distinct_map)
qed

lemma keys_distinct_filter: "keys_distinct key rows \<Longrightarrow> keys_distinct key (filter P rows)"
  by (simp add: keys_distinct_def distinct_map_filter)

lemma latest_snoc:
  assumes "keys_distinct em_id (es @ [e])"
  shows "latest (es @ [e]) = (case latest es of None \<Rightarrow> Some e | Some f \<Rightarrow> if mail_key f < mail_key e then Some e else Some f)"
proof (cases "latest es")
  case None
  then show ?thesis using latest_unique [OF assms, of e] by simp
next
  case (Some f)
  then have f: "f \<in> set es" "\<forall>g \<in> set es. mail_key g \<le> mail_key f" using latest_Some by auto
  show ?thesis
  proof (cases "mail_key f < mail_key e")
    case True
    then have "latest (es @ [e]) = Some e" using f(2) by (intro latest_unique [OF assms]) (auto intro: order_trans less_imp_le)
    then show ?thesis using Some True by simp
  next
    case False
    then have "latest (es @ [e]) = Some f" using f by (intro latest_unique [OF assms]) auto
    then show ?thesis using Some False by simp
  qed
qed

lemma latest_filter:
  assumes "keys_distinct em_id es" "latest es = Some f" "P f"
  shows "latest (filter P es) = Some f"
  by (rule latest_unique) (use assms latest_Some [OF assms(2)] in \<open>auto simp: keys_distinct_filter\<close>)

lemma mail_of_simps [simp]:
  "mail_of i [] = []" "mail_of i (es @ fs) = mail_of i es @ mail_of i fs"
  "mail_of i [e] = (if em_mailbox_id e = i then [e] else [])"
  by (simp_all add: mail_of_def)

lemma mail_of_distinct: "keys_distinct em_id es \<Longrightarrow> keys_distinct em_id (mail_of i es)"
  unfolding mail_of_def by (rule keys_distinct_filter)

section \<open>The invariant\<close>

definition shows_mail :: "email option \<Rightarrow> mailbox_state \<Rightarrow> bool" where
  "shows_mail l st =
     (ms_latest_email_id st = map_option em_id l
      \<and> ms_latest_received_at st = map_option em_received_at l
      \<and> ms_latest_sender st = (case l of None \<Rightarrow> [] | Some e \<Rightarrow> em_sender e)
      \<and> ms_latest_subject st = (case l of None \<Rightarrow> [] | Some e \<Rightarrow> em_subject e)
      \<and> ms_latest_code st = (case l of None \<Rightarrow> [] | Some e \<Rightarrow> em_parsed_code e)
      \<and> ms_latest_code_source st = (case l of None \<Rightarrow> [] | Some e \<Rightarrow> em_parsed_code_source e)
      \<and> ms_latest_link st = (case l of None \<Rightarrow> [] | Some e \<Rightarrow> em_parsed_link e)
      \<and> ms_latest_link_source st = (case l of None \<Rightarrow> [] | Some e \<Rightarrow> em_parsed_link_source e))"

definition projects :: "email list \<Rightarrow> mailbox_state \<Rightarrow> bool" where
  "projects own st = (ms_email_count st = int (length own) \<and> shows_mail (latest own) st)"

definition tables_linked :: "uuid set \<Rightarrow> email list \<Rightarrow> mailbox_state list \<Rightarrow> bool" where
  "tables_linked boxes es sts =
     (keys_distinct em_id es \<and> keys_distinct ms_mailbox_id sts
      \<and> (\<forall>st \<in> set sts. ms_mailbox_id st \<in> boxes \<and> projects (mail_of (ms_mailbox_id st) es) st)
      \<and> (\<forall>e \<in> set es. em_mailbox_id e \<in> ms_mailbox_id ` set sts))"

definition mail_ok :: "mail_store \<Rightarrow> bool" where
  "mail_ok s =
     (keys_distinct mb_id (ml_mailboxes s) \<and> keys_distinct mb_full_address (ml_mailboxes s)
      \<and> tables_linked (mb_id ` set (ml_mailboxes s)) (ml_emails s) (ml_states s))"

lemma shows_put_latest [simp]: "shows_mail l (put_latest l st)"
  by (simp add: shows_mail_def put_latest_def)

lemma put_latest_fields [simp]:
  "ms_mailbox_id (put_latest l st) = ms_mailbox_id st" "ms_email_count (put_latest l st) = ms_email_count st"
  by (simp_all add: put_latest_def)

lemma deliver_state_key [simp]: "ms_mailbox_id (deliver_state now m domain e st) = ms_mailbox_id st"
  by (simp add: deliver_state_def Let_def)

lemma supersedes_iff:
  "shows_mail l st \<Longrightarrow> supersedes e st = (case l of None \<Rightarrow> True | Some f \<Rightarrow> mail_key f < mail_key e)"
  by (cases l) (auto simp: shows_mail_def supersedes_def mail_key_def)

lemma deliver_projects:
  assumes p: "projects own st" and d: "keys_distinct em_id (own @ [e])"
  shows "projects (own @ [e]) (deliver_state now m domain e st)"
proof -
  have s: "shows_mail (latest own) st" using p by (simp add: projects_def)
  let ?st = "st\<lparr>ms_account_id := mb_account_id m, ms_domain_id := mb_domain_id m, ms_domain_name := domain, ms_full_address := mb_full_address m\<rparr>"
  have s': "shows_mail (latest own) ?st" using s by (simp add: shows_mail_def)
  have "shows_mail (latest (own @ [e])) (if supersedes e ?st then put_latest (Some e) ?st else ?st)"
    unfolding latest_snoc [OF d] supersedes_iff [OF s'] using s' by (cases "latest own") simp_all
  then show ?thesis using p by (simp add: projects_def deliver_state_def Let_def shows_mail_def)
qed

lemma first_projects: "projects [e] (first_state now m domain e)"
proof -
  have "latest [e] = Some e" by (rule latest_unique) (simp_all add: keys_distinct_def)
  then show ?thesis by (simp add: projects_def first_state_def shows_mail_def)
qed

lemma deliver_linked:
  assumes ok: "tables_linked boxes es sts" and e: "em_id e \<notin> em_id ` set es" "em_mailbox_id e = mb_id m"
  shows "tables_linked (insert (mb_id m) boxes) (es @ [e]) (upsert_state now m domain e sts)"
proof -
  have d: "keys_distinct em_id (es @ [e])" using ok e(1) by (auto simp: tables_linked_def keys_distinct_def)
  have own: "keys_distinct em_id (mail_of i es @ [e])" for i
    using d mail_of_distinct [of es i] by (auto simp: keys_distinct_def mail_of_def)
  show ?thesis
  proof (cases "mb_id m \<in> set (map ms_mailbox_id sts)")
    case True
    have k: "map ms_mailbox_id (upsert_state now m domain e sts) = map ms_mailbox_id sts"
      using True by (simp add: upsert_state_def update_row_def)
    then have k': "ms_mailbox_id ` set (upsert_state now m domain e sts) = ms_mailbox_id ` set sts" by (metis set_map)
    have "ms_mailbox_id q \<in> boxes \<and> projects (mail_of (ms_mailbox_id q) (es @ [e])) q" if q: "q \<in> set (upsert_state now m domain e sts)" for q
    proof -
      obtain st where st: "st \<in> set sts" "q = (if ms_mailbox_id st = mb_id m then deliver_state now m domain e st else st)"
        using q True by (auto simp: upsert_state_def update_row_def)
      then show ?thesis using ok deliver_projects [OF _ own] e(2) by (auto simp: tables_linked_def)
    qed
    then show ?thesis using ok d k k' True e(2) by (auto simp: tables_linked_def keys_distinct_def)
  next
    case False
    have "em_mailbox_id x \<noteq> mb_id m" if "x \<in> set es" for x
      using ok that False unfolding tables_linked_def by (metis set_map)
    then have none: "mail_of (mb_id m) es = []" by (simp add: mail_of_def filter_empty_conv)
    have u: "upsert_state now m domain e sts = sts @ [first_state now m domain e]"
      and f: "ms_mailbox_id (first_state now m domain e) = mb_id m" using False by (simp_all add: upsert_state_def first_state_def)
    show ?thesis
      using ok d False none e(2) first_projects [of e now m domain] unfolding tables_linked_def u
      by (auto simp: f keys_distinct_def)
  qed
qed

section \<open>Deleting keeps it\<close>

lemma mail_of_filter: "mail_of i (filter P es) = filter P (mail_of i es)"
  by (simp add: mail_of_def conj_commute)

lemma refresh_key [simp]: "ms_mailbox_id (refresh_state now gone kept st) = ms_mailbox_id st"
  by (simp add: refresh_state_def Let_def)

lemma refresh_projects:
  assumes d: "keys_distinct em_id es" and p: "projects (mail_of (ms_mailbox_id st) es) st"
  shows "projects (mail_of (ms_mailbox_id st) (filter (\<lambda>e. \<not> P e) es)) (refresh_state now (filter P es) (filter (\<lambda>e. \<not> P e) es) st)"
proof -
  define own where "own = mail_of (ms_mailbox_id st) es"
  have gone: "mail_of (ms_mailbox_id st) (filter P es) = filter P own" and kept: "mail_of (ms_mailbox_id st) (filter (\<lambda>e. \<not> P e) es) = filter (\<lambda>e. \<not> P e) own"
    by (simp_all add: own_def mail_of_filter)
  have cnt: "ms_email_count st = int (length own)" and sh: "shows_mail (latest own) st" using p by (simp_all add: projects_def own_def)
  have lens: "length (filter P own) + length (filter (\<lambda>e. \<not> P e) own) = length own" by (rule sum_length_filter_compl)
  show ?thesis
  proof (cases "filter P own = []")
    case True
    then have "filter (\<lambda>e. \<not> P e) own = own" by (simp add: filter_empty_conv filter_id_conv)
    then show ?thesis using True p unfolding refresh_state_def gone kept by (simp add: own_def)
  next
    case False
    then obtain f where f: "latest own = Some f" by (cases "latest own") auto
    then have fo: "f \<in> set es" using latest_Some [OF f] by (auto simp: own_def mail_of_def)
    have hit: "(case ms_latest_email_id st of None \<Rightarrow> True | Some j \<Rightarrow> j \<in> set (map em_id (filter P es))) = P f"
    proof -
      have "em_id g = em_id f \<Longrightarrow> g \<in> set es \<Longrightarrow> g = f" for g
        using d fo unfolding keys_distinct_def distinct_map by (metis inj_on_eq_iff)
      then show ?thesis using sh f fo by (auto simp: shows_mail_def)
    qed
    have "shows_mail (latest (filter (\<lambda>e. \<not> P e) own)) (if P f then put_latest (latest (filter (\<lambda>e. \<not> P e) own)) st else st)"
      using sh f latest_filter [of own f "\<lambda>e. \<not> P e"] mail_of_distinct [OF d] by (simp add: own_def)
    then show ?thesis
      using False lens cnt unfolding refresh_state_def gone kept hit projects_def
      by (auto simp: Let_def shows_mail_def put_latest_def)
  qed
qed

lemma delete_linked:
  assumes ok: "tables_linked boxes es sts"
  shows "tables_linked boxes (filter (\<lambda>e. \<not> P e) es) (map (refresh_state now (filter P es) (filter (\<lambda>e. \<not> P e) es)) sts)"
proof -
  let ?u = "refresh_state now (filter P es) (filter (\<lambda>e. \<not> P e) es)"
  have k: "map ms_mailbox_id (map ?u sts) = map ms_mailbox_id sts" by simp
  then have k': "ms_mailbox_id ` set (map ?u sts) = ms_mailbox_id ` set sts" by (metis set_map)
  have "keys_distinct ms_mailbox_id (map ?u sts)" using ok k unfolding tables_linked_def keys_distinct_def by argo
  then show ?thesis
    using ok k' refresh_projects [of es] unfolding tables_linked_def by (auto simp: keys_distinct_filter)
qed

lemma drop_boxes_linked:
  assumes ok: "tables_linked boxes es sts"
  shows "tables_linked (boxes - gone) (filter (\<lambda>e. em_mailbox_id e \<notin> gone) es) (filter (\<lambda>st. ms_mailbox_id st \<notin> gone) sts)"
proof -
  have "mail_of i (filter (\<lambda>e. em_mailbox_id e \<notin> gone) es) = mail_of i es" if "i \<notin> gone" for i
    using that by (auto simp: mail_of_def intro: filter_cong)
  then show ?thesis using ok unfolding tables_linked_def by (auto simp: keys_distinct_filter)
qed

section \<open>The operations\<close>

lemma linked_more_boxes: "tables_linked boxes es sts \<Longrightarrow> boxes \<subseteq> boxes' \<Longrightarrow> tables_linked boxes' es sts"
  by (auto simp: tables_linked_def)

lemma create_mailbox_ok:
  "mail_ok s \<Longrightarrow> i \<notin> mb_id ` set (ml_mailboxes s) \<Longrightarrow> mail_ok (snd (CreateMailbox fault now i account token address domain full ttl s))"
  using linked_more_boxes [of "mb_id ` set (ml_mailboxes s)" "ml_emails s" "ml_states s" "insert i (mb_id ` set (ml_mailboxes s))"]
  by (auto simp: CreateMailbox_def Let_def mail_ok_def keys_distinct_def new_mailbox_def)

definition mail_fresh :: "uuid \<times> uuid \<Rightarrow> mail_store \<Rightarrow> bool" where
  "mail_fresh fresh s = (fst fresh \<notin> mb_id ` set (ml_mailboxes s) \<and> snd fresh \<notin> em_id ` set (ml_emails s))"

lemma revive_keys [simp]:
  "mb_id (revive_expiry now ttl m) = mb_id m" "mb_full_address (revive_expiry now ttl m) = mb_full_address m"
  "mb_account_id (revive_expiry now ttl m) = mb_account_id m" "mb_domain_id (revive_expiry now ttl m) = mb_domain_id m"
  by (simp_all add: revive_expiry_def)

lemma retention_keys [simp]:
  "mb_id (retention now keep ttl m) = mb_id m" "mb_full_address (retention now keep ttl m) = mb_full_address m"
  by (simp_all add: retention_def)

lemma upsert_mailbox_keys:
  assumes u: "upsert_mailbox now i account local domain full ttl ms = (m, ms')"
    and ok: "keys_distinct mb_id ms" "keys_distinct mb_full_address ms" "i \<notin> mb_id ` set ms"
  shows "keys_distinct mb_id ms' \<and> keys_distinct mb_full_address ms' \<and> mb_id ` set ms' = insert (mb_id m) (mb_id ` set ms)
    \<and> m \<in> set ms' \<and> mb_full_address m = full"
proof (cases "List.find (\<lambda>m. mb_full_address m = full) ms")
  case None
  then have "m = new_mailbox i account None local domain full now (ttl_expiry now ttl)" "ms' = ms @ [m]" "full \<notin> mb_full_address ` set ms"
    using u None find_None_iff [of "\<lambda>m. mb_full_address m = full" ms] by (auto simp: upsert_mailbox_def Let_def)
  then show ?thesis using ok by (auto simp: keys_distinct_def new_mailbox_def)
next
  case (Some q)
  then have q: "q \<in> set ms" "mb_full_address q = full" by (auto simp: find_Some_iff)
  have e: "m = revive_expiry now ttl q" "ms' = update_row mb_id (mb_id q) (revive_expiry now ttl) ms"
    using u Some by (simp_all add: upsert_mailbox_def)
  have k: "map mb_id ms' = map mb_id ms" "map mb_full_address ms' = map mb_full_address ms" unfolding e update_row_def by simp_all
  then have ids: "mb_id ` set ms' = mb_id ` set ms" by (metis set_map)
  have "m \<in> set ms'" using q e by (auto simp: update_row_def)
  then show ?thesis using ok q ids e(1) unfolding keys_distinct_def k by auto
qed

text \<open>What a delivery that is stored does to the tables.\<close>

lemma insert_email_step:
  assumes r: "InsertEmailResolved fault x now fresh d s = (Inr (Some ev, True), s')"
  obtains m e where
    "upsert_mailbox now (fst fresh) (dl_account_id d) (to_lower (ex_lower x) (trim_space (dl_local_part d))) (dl_domain_id d)
       (to_lower (ex_lower x) (trim_space (dl_recipient d))) (dl_mailbox_ttl_minutes d) (ml_mailboxes s) = (m, ml_mailboxes s')"
    "e = new_email x now (snd fresh) (mb_id m) d" "ml_emails s' = ml_emails s @ [e]"
    "ml_states s' = upsert_state now m (to_lower (ex_lower x) (trim_cut ''.'' (trim_space (dl_domain_name d)))) e (ml_states s)"
    "ev = \<lparr>ev_mailbox_id = mb_id m, ev_full_address = mb_full_address m, ev_email = summary_of e\<rparr>"
  using r by (auto simp: InsertEmailResolved_def Let_def split: if_splits prod.splits)

lemma insert_email_other:
  "\<nexists>ev. fst (InsertEmailResolved fault x now fresh d s) = Inr (Some ev, True) \<Longrightarrow> snd (InsertEmailResolved fault x now fresh d s) = s"
  by (auto simp: InsertEmailResolved_def Let_def split: if_splits prod.splits)

lemma new_email_keys [simp]:
  "em_id (new_email x now k i d) = k" "em_mailbox_id (new_email x now k i d) = i" "em_received_at (new_email x now k i d) = now"
  by (simp_all add: new_email_def Let_def split: prod.split)

lemma insert_email_ok:
  assumes ok: "mail_ok s" and fr: "mail_fresh fresh s"
  shows "mail_ok (snd (InsertEmailResolved fault x now fresh d s))"
proof (cases "\<exists>ev. fst (InsertEmailResolved fault x now fresh d s) = Inr (Some ev, True)")
  case True
  then obtain ev s' where r: "InsertEmailResolved fault x now fresh d s = (Inr (Some ev, True), s')" by (metis prod.collapse)
  obtain m e where s': "upsert_mailbox now (fst fresh) (dl_account_id d) (to_lower (ex_lower x) (trim_space (dl_local_part d))) (dl_domain_id d)
       (to_lower (ex_lower x) (trim_space (dl_recipient d))) (dl_mailbox_ttl_minutes d) (ml_mailboxes s) = (m, ml_mailboxes s')"
    and e: "e = new_email x now (snd fresh) (mb_id m) d" and t: "ml_emails s' = ml_emails s @ [e]"
    "ml_states s' = upsert_state now m (to_lower (ex_lower x) (trim_cut ''.'' (trim_space (dl_domain_name d)))) e (ml_states s)"
    by (rule insert_email_step [OF r]) (rule that)
  have k: "keys_distinct mb_id (ml_mailboxes s') \<and> keys_distinct mb_full_address (ml_mailboxes s')
      \<and> mb_id ` set (ml_mailboxes s') = insert (mb_id m) (mb_id ` set (ml_mailboxes s))"
    using upsert_mailbox_keys [OF s'] ok fr by (simp add: mail_ok_def mail_fresh_def)
  have "tables_linked (insert (mb_id m) (mb_id ` set (ml_mailboxes s))) (ml_emails s') (ml_states s')"
    unfolding t by (rule deliver_linked) (use ok fr e in \<open>simp_all add: mail_ok_def mail_fresh_def\<close>)
  then show ?thesis using k r by (simp add: mail_ok_def)
next
  case False
  then have "snd (InsertEmailResolved fault x now fresh d s) = s" using insert_email_other by blast
  then show ?thesis using ok by simp
qed

lemma delete_mailboxes_ok:
  assumes ok: "mail_ok s"
  shows "mail_ok (snd (delete_mailboxes P s))"
proof -
  let ?gone = "set (map mb_id (filter P (ml_mailboxes s)))"
  have "mb_id ` set (ml_mailboxes s) - ?gone = mb_id ` set (filter (\<lambda>m. \<not> P m) (ml_mailboxes s))"
  proof
    show "mb_id ` set (filter (\<lambda>m. \<not> P m) (ml_mailboxes s)) \<subseteq> mb_id ` set (ml_mailboxes s) - ?gone"
    proof
      fix i assume "i \<in> mb_id ` set (filter (\<lambda>m. \<not> P m) (ml_mailboxes s))"
      then obtain m where m: "m \<in> set (ml_mailboxes s)" "\<not> P m" "i = mb_id m" by auto
      have "q = m" if "q \<in> set (ml_mailboxes s)" "mb_id q = mb_id m" for q
        using ok that m(1) unfolding mail_ok_def keys_distinct_def distinct_map by (metis inj_on_eq_iff)
      then show "i \<in> mb_id ` set (ml_mailboxes s) - ?gone" using m by auto
    qed
  qed auto
  then show ?thesis
    using ok drop_boxes_linked [of "mb_id ` set (ml_mailboxes s)" "ml_emails s" "ml_states s" ?gone]
    by (simp add: delete_mailboxes_def Let_def mail_ok_def keys_distinct_filter)
qed

lemma delete_emails_ok: "mail_ok s \<Longrightarrow> mail_ok (snd (deleteEmailsAndRefreshProjection fault now P s))"
  by (simp add: deleteEmailsAndRefreshProjection_def Let_def mail_ok_def delete_linked)

text \<open>Retention changes columns that the invariant does not speak of.\<close>

lemma retention_linked:
  assumes "tables_linked boxes es sts" and f: "\<And>st. ms_mailbox_id (f st) = ms_mailbox_id st \<and> (\<forall>own. projects own (f st) = projects own st)"
  shows "tables_linked boxes es (map f sts)"
proof -
  have "map ms_mailbox_id (map f sts) = map ms_mailbox_id sts" using f by simp
  then have "keys_distinct ms_mailbox_id (map f sts)" "ms_mailbox_id ` set (map f sts) = ms_mailbox_id ` set sts"
    using assms(1) unfolding tables_linked_def keys_distinct_def by (argo, metis set_map)
  then show ?thesis using assms by (auto simp: tables_linked_def)
qed

lemma retention_boxes:
  assumes "keys_distinct mb_id ms" "keys_distinct mb_full_address ms" and f: "\<And>m. mb_id (f m) = mb_id m \<and> mb_full_address (f m) = mb_full_address m"
  shows "keys_distinct mb_id (map f ms) \<and> keys_distinct mb_full_address (map f ms) \<and> mb_id ` set (map f ms) = mb_id ` set ms"
  using assms by (auto simp: keys_distinct_def comp_def image_image)

lemma retention_ok:
  assumes "mail_ok s" "\<And>m. mb_id (f m) = mb_id m \<and> mb_full_address (f m) = mb_full_address m"
    and "\<And>st. ms_mailbox_id (g st) = ms_mailbox_id st \<and> (\<forall>own. projects own (g st) = projects own st)"
  shows "mail_ok (s\<lparr>ml_mailboxes := map f (ml_mailboxes s), ml_states := map g (ml_states s)\<rparr>)"
  using assms(1) retention_boxes [OF _ _ assms(2), of "ml_mailboxes s"] retention_linked [OF _ assms(3)] by (simp add: mail_ok_def)

lemma projects_dates [simp]:
  "projects own (st\<lparr>ms_expires_at := a, ms_keep_forever := b, ms_updated_at := c\<rparr>) = projects own st"
  by (simp add: projects_def shows_mail_def)

lemma set_keep_ok: "mail_ok s \<Longrightarrow> mail_ok (snd (SetMailboxKeepForever fault fault2 now later i account token keep ttl s))"
  using retention_ok [of s "\<lambda>m. if mb_id m = i then retention now keep ttl m else m" "\<lambda>st. st"]
  by (auto simp: SetMailboxKeepForever_def Let_def update_row_def retention_ok split: option.split)

lemma set_many_ok: "mail_ok s \<Longrightarrow> mail_ok (snd (SetManyMailboxesKeepForever fault now account token ids keep ttl s))"
  by (auto simp: SetManyMailboxesKeepForever_def Let_def retention_ok split: option.split)

lemma other_deletes_ok:
  assumes ok: "mail_ok s"
  shows "mail_ok (snd (DeleteMailbox fault i account token s))" "mail_ok (snd (DeleteExpiredMailboxes fault now s))"
    "mail_ok (snd (PurgeMailboxes fault lo now account is_admin token q domain only_empty only_expired s))"
    "mail_ok (snd (DeleteEmail fault now k i account token s))" "mail_ok (snd (DeleteEmailsOlderThan fault now age s))"
    "mail_ok (snd (TrimEmailsToMaxCount fault now n s))"
    "mail_ok (snd (PurgeEmails fault lo now account is_admin token q domain older s))"
  using ok delete_mailboxes_ok [OF ok] delete_emails_ok [OF ok]
  by (simp_all add: DeleteMailbox_def DeleteExpiredMailboxes_def PurgeMailboxes_def DeleteEmail_def DeleteEmailsOlderThan_def
      TrimEmailsToMaxCount_def PurgeEmails_def Let_def case_prod_beta split: sum.split prod.split)

lemma cleaner_ok: "mail_ok s \<Longrightarrow> mail_ok (cleaner_tick ft clock cfg setting s)"
  by (simp add: cleaner_tick_def Let_def other_deletes_ok)

section \<open>Histories\<close>

datatype mail_op =
    CreateOp bool time uuid uuid "uuid option" string int string int
  | DeliverOp bool extract_libs time "uuid \<times> uuid" ingress_delivery
  | RetainOp bool bool time time uuid uuid "uuid option" bool int
  | RetainManyOp bool time uuid "uuid option" "uuid list" bool int
  | DropMailboxOp bool uuid uuid "uuid option"
  | DropEmailOp bool time uuid uuid uuid "uuid option"
  | PurgeMailboxesOp bool "nat \<Rightarrow> nat" time uuid bool "uuid option" string string bool bool
  | PurgeEmailsOp bool "nat \<Rightarrow> nat" time uuid bool "uuid option" string string int
  | CleanerOp "nat \<Rightarrow> bool" "nat \<Rightarrow> time" cleaner_config "(db_error, string) result"

fun perform_mail :: "mail_op \<Rightarrow> mail_store \<Rightarrow> mail_store" where
  "perform_mail (CreateOp fault now i account token address domain full ttl) s =
     snd (CreateMailbox fault now i account token address domain full ttl s)"
| "perform_mail (DeliverOp fault x now fresh d) s = snd (InsertEmailResolved fault x now fresh d s)"
| "perform_mail (RetainOp fault fault2 now later i account token keep ttl) s =
     snd (SetMailboxKeepForever fault fault2 now later i account token keep ttl s)"
| "perform_mail (RetainManyOp fault now account token ids keep ttl) s =
     snd (SetManyMailboxesKeepForever fault now account token ids keep ttl s)"
| "perform_mail (DropMailboxOp fault i account token) s = snd (DeleteMailbox fault i account token s)"
| "perform_mail (DropEmailOp fault now k i account token) s = snd (DeleteEmail fault now k i account token s)"
| "perform_mail (PurgeMailboxesOp fault lo now account is_admin token q domain only_empty only_expired) s =
     snd (PurgeMailboxes fault lo now account is_admin token q domain only_empty only_expired s)"
| "perform_mail (PurgeEmailsOp fault lo now account is_admin token q domain older) s =
     snd (PurgeEmails fault lo now account is_admin token q domain older s)"
| "perform_mail (CleanerOp ft clock cfg setting) s = cleaner_tick ft clock cfg setting s"

text \<open>The ids drawn for new rows are new.\<close>

fun mail_allowed :: "mail_op \<Rightarrow> mail_store \<Rightarrow> bool" where
  "mail_allowed (CreateOp fault now i account token address domain full ttl) s = (i \<notin> mb_id ` set (ml_mailboxes s))"
| "mail_allowed (DeliverOp fault x now fresh d) s = mail_fresh fresh s"
| "mail_allowed _ s = True"

lemmas mail_steps = create_mailbox_ok insert_email_ok set_keep_ok set_many_ok other_deletes_ok cleaner_ok

interpretation mail: guarded_steps perform_mail mail_allowed mail_ok
proof
  fix s oper assume "mail_ok s" "mail_allowed oper s"
  then show "mail_ok (perform_mail oper s)" by (cases oper) (simp_all add: mail_steps)
qed

definition no_mail :: "mail_store \<Rightarrow> bool" where
  "no_mail s = (ml_mailboxes s = [] \<and> ml_emails s = [] \<and> ml_states s = [])"

lemma no_mail_ok: "no_mail s \<Longrightarrow> mail_ok s"
  by (simp add: no_mail_def mail_ok_def tables_linked_def keys_distinct_def)

section \<open>Properties\<close>

lemma projects_spelled:
  assumes "projects own st"
  shows "ms_email_count st = int (length own)
    \<and> (if own = [] then ms_latest_email_id st = None \<and> ms_latest_code st = [] \<and> ms_latest_link st = []
       else \<exists>e \<in> set own. (\<forall>f \<in> set own. em_received_at f < em_received_at e \<or> (em_received_at f = em_received_at e \<and> em_id f \<le> em_id e))
         \<and> ms_latest_email_id st = Some (em_id e) \<and> ms_latest_received_at st = Some (em_received_at e)
         \<and> ms_latest_sender st = em_sender e \<and> ms_latest_subject st = em_subject e
         \<and> ms_latest_code st = em_parsed_code e \<and> ms_latest_link st = em_parsed_link e)"
proof (cases "latest own")
  case None
  then show ?thesis using assms by (simp add: projects_def shows_mail_def)
next
  case (Some e)
  then have "e \<in> set own" "\<forall>f \<in> set own. mail_key f \<le> mail_key e" using latest_Some by auto
  then show ?thesis using assms Some by (auto simp: projects_def shows_mail_def mail_key_def intro!: bexI [of _ e])
qed

text \<open>C25. The projection never drifts from the mail: after any sequence of creations, deliveries, retention changes,
  deletions, purges and cleaner ticks, with any of their statements failing, every mail lies in a mailbox that has a
  projection, and each projection counts the mail of its mailbox and shows the sender, subject, code and link
  of the latest one, by time and then by id, or nothing when there is none.\<close>

theorem projection_matches_emails:
  assumes "no_mail s" "run_allowed perform_mail mail_allowed opers s"
  shows "let t = run perform_mail opers s in
    (\<forall>e \<in> set (ml_emails t). em_mailbox_id e \<in> mb_id ` set (ml_mailboxes t) \<and> em_mailbox_id e \<in> ms_mailbox_id ` set (ml_states t))
    \<and> (\<forall>st \<in> set (ml_states t). let own = filter (\<lambda>e. em_mailbox_id e = ms_mailbox_id st) (ml_emails t) in
         ms_email_count st = int (length own)
         \<and> (if own = [] then ms_latest_email_id st = None \<and> ms_latest_code st = [] \<and> ms_latest_link st = []
            else \<exists>e \<in> set own. (\<forall>f \<in> set own. em_received_at f < em_received_at e \<or> (em_received_at f = em_received_at e \<and> em_id f \<le> em_id e))
              \<and> ms_latest_email_id st = Some (em_id e) \<and> ms_latest_received_at st = Some (em_received_at e)
              \<and> ms_latest_sender st = em_sender e \<and> ms_latest_subject st = em_subject e
              \<and> ms_latest_code st = em_parsed_code e \<and> ms_latest_link st = em_parsed_link e))"
proof -
  let ?t = "run perform_mail opers s"
  have ok: "tables_linked (mb_id ` set (ml_mailboxes ?t)) (ml_emails ?t) (ml_states ?t)"
    using mail.run_keeps [OF no_mail_ok [OF assms(1)] assms(2)] by (simp add: mail_ok_def)
  then have "\<forall>st \<in> set (ml_states ?t). projects (filter (\<lambda>e. em_mailbox_id e = ms_mailbox_id st) (ml_emails ?t)) st"
    by (simp add: tables_linked_def mail_of_def)
  then have "\<forall>st \<in> set (ml_states ?t). ms_mailbox_id st \<in> mb_id ` set (ml_mailboxes ?t)"
    "\<forall>e \<in> set (ml_emails ?t). em_mailbox_id e \<in> ms_mailbox_id ` set (ml_states ?t)"
    using ok by (auto simp: tables_linked_def)
  then have "\<forall>e \<in> set (ml_emails ?t). em_mailbox_id e \<in> mb_id ` set (ml_mailboxes ?t) \<and> em_mailbox_id e \<in> ms_mailbox_id ` set (ml_states ?t)"
    by (metis imageE)
  then show ?thesis
    using \<open>\<forall>st \<in> set (ml_states ?t). projects _ st\<close> projects_spelled unfolding Let_def by blast
qed

lemma upsert_not_expired:
  assumes "upsert_mailbox now i account local domain full ttl ms = (m, ms')"
  shows "\<not> expired now m"
  using assms
  by (auto simp: upsert_mailbox_def Let_def expired_def new_mailbox_def ttl_expiry_def revive_expiry_def minute_def second_def
      split: option.splits if_splits)

lemma find_mailbox_unique:
  assumes "keys_distinct mb_id (ml_mailboxes s)" "m \<in> set (ml_mailboxes s)"
  shows "find_mailbox (mb_id m) (mb_account_id m) None s = Some m"
proof -
  have "List.find (\<lambda>q. mb_id q = mb_id m) (ml_mailboxes s) = Some m"
    using find_row_unique [OF assms] by (simp add: find_row_def)
  moreover have "owns (mb_account_id m) None q" if "q \<in> set (ml_mailboxes s)" "mb_id q = mb_id m" for q
    using that assms unfolding keys_distinct_def distinct_map by (metis inj_on_eq_iff owns_def option.simps(4))
  then have "\<forall>q \<in> set (ml_mailboxes s). (mb_id q = mb_id m \<and> owns (mb_account_id m) None q) = (mb_id q = mb_id m)" by blast
  then have "List.find (\<lambda>q. mb_id q = mb_id m \<and> owns (mb_account_id m) None q) (ml_mailboxes s) = List.find (\<lambda>q. mb_id q = mb_id m) (ml_mailboxes s)"
    by (intro find_cong) auto
  ultimately show ?thesis by (simp add: find_mailbox_def)
qed

lemma first_page: "0 \<le> sz \<Longrightarrow> page_of 1 sz xs = take (nat sz) xs" "0 \<le> sz \<Longrightarrow> \<not> bad_page 1 sz"
  by (simp_all add: page_of_def page_offset_def bad_page_def wrap64_def)

text \<open>A mail stands in the list behind those of a later key, and only those.\<close>

lemma newest_first_position:
  assumes d: "keys_distinct em_id es" and e: "e \<in> set es"
  shows "newest_first es ! length (filter (\<lambda>f. mail_key e < mail_key f) es) = e"
proof -
  let ?xs = "newest_first es"
  have dx: "distinct (map em_id ?xs)"
    using d by (simp add: newest_first_def keys_distinct_def rev_map [symmetric] distinct_map)
  obtain i where i: "i < length ?xs" "?xs ! i = e" using e by (metis in_set_conv_nth newest_first_set(1))
  have "mail_key e < mail_key (?xs ! j) \<longleftrightarrow> j < i" if j: "j < length ?xs" for j
  proof -
    consider "j < i" | "j = i" | "i < j" by linarith
    then show ?thesis
    proof cases
      case 1
      then have "mail_key e \<le> mail_key (?xs ! j)" using sorted_wrt_nth_less [OF newest_first_sorted [of es], of j i] i by simp
      moreover have "em_id e \<noteq> em_id (?xs ! j)" using dx i j 1 unfolding distinct_conv_nth by (auto simp: nth_map)
      ultimately show ?thesis using 1 unfolding mail_key_def by auto
    next
      case 3
      then have "mail_key (?xs ! j) \<le> mail_key e" using sorted_wrt_nth_less [OF newest_first_sorted [of es], of i j] i j by simp
      then show ?thesis using 3 by (simp add: not_less)
    qed (simp add: i)
  qed
  then have "{j. j < length ?xs \<and> mail_key e < mail_key (?xs ! j)} = {..<i}" using i(1) by auto
  then have "length (filter (\<lambda>f. mail_key e < mail_key f) ?xs) = i" by (simp add: length_filter_conv_card del: newest_first_set)
  moreover have "length (filter P ?xs) = length (filter P es)" for P
    by (simp add: newest_first_def filter_sort rev_filter [symmetric])
  ultimately show ?thesis using i(2) by simp
qed

text \<open>C26. A delivery that the store reports as done can be read at once: the recipient's mailbox exists and has not expired,
  its list, in pages of any size, counts one mail more than before, and has the mail the event announces behind exactly the mails of the
  mailbox that are newer (of a later time, or of the same time with a greater identifier): at the head, therefore, when every mail in the
  mailbox is older.  No other mailbox gained or lost a mail.\<close>

theorem delivery_reaches_mailbox:
  assumes "mail_ok s" "mail_fresh fresh s"
    and "InsertEmailResolved fault x now fresh d s = (Inr (Some ev, True), s')"
  shows "\<exists>m \<in> set (ml_mailboxes s').
     mb_full_address m = to_lower (ex_lower x) (trim_space (dl_recipient d)) \<and> ev_mailbox_id ev = mb_id m
     \<and> es_subject (ev_email ev) = dl_subject d \<and> es_received_at (ev_email ev) = now \<and> \<not> expired now m
     \<and> (\<forall>sz \<ge> 0. \<exists>xs. ListEmails False (mb_id m) (mb_account_id m) None 1 sz s' = Inr (xs, Suc (length (mail_of (mb_id m) (ml_emails s))))
          \<and> length xs = min (nat sz) (Suc (length (mail_of (mb_id m) (ml_emails s))))
          \<and> (let newer = length (filter (\<lambda>f. now < em_received_at f \<or> (now = em_received_at f \<and> es_id (ev_email ev) < em_id f))
                            (mail_of (mb_id m) (ml_emails s))) in
             newer < nat sz \<longrightarrow> xs ! newer = ev_email ev))
     \<and> (\<forall>i. i \<noteq> mb_id m \<longrightarrow> mail_of i (ml_emails s') = mail_of i (ml_emails s))"
proof -
  obtain m e where u: "upsert_mailbox now (fst fresh) (dl_account_id d) (to_lower (ex_lower x) (trim_space (dl_local_part d))) (dl_domain_id d)
       (to_lower (ex_lower x) (trim_space (dl_recipient d))) (dl_mailbox_ttl_minutes d) (ml_mailboxes s) = (m, ml_mailboxes s')"
    and e: "e = new_email x now (snd fresh) (mb_id m) d" and t: "ml_emails s' = ml_emails s @ [e]"
    and ev: "ev = \<lparr>ev_mailbox_id = mb_id m, ev_full_address = mb_full_address m, ev_email = summary_of e\<rparr>"
    by (rule insert_email_step [OF assms(3)]) (rule that)
  have ok': "mail_ok s'" using insert_email_ok [OF assms(1,2), of fault x now d] assms(3) by simp
  have m: "m \<in> set (ml_mailboxes s')" "mb_full_address m = to_lower (ex_lower x) (trim_space (dl_recipient d))"
    using upsert_mailbox_keys [OF u] assms(1,2) by (simp_all add: mail_ok_def mail_fresh_def)
  have es: "es_id (summary_of e) = em_id e" "es_subject (summary_of e) = dl_subject d" "es_received_at (summary_of e) = now"
    "em_received_at e = now" "em_mailbox_id e = mb_id m"
    by (simp_all add: e summary_of_def new_email_def Let_def split: prod.split)
  let ?old = "mail_of (mb_id m) (ml_emails s)"
  let ?newer = "length (filter (\<lambda>f. now < em_received_at f \<or> (now = em_received_at f \<and> em_id e < em_id f)) ?old)"
  have own: "mail_of (mb_id m) (ml_emails s') = ?old @ [e]" by (simp add: t mail_of_def es)
  have "keys_distinct em_id (?old @ [e])"
    unfolding own [symmetric] using ok' mail_of_distinct by (simp add: mail_ok_def tables_linked_def)
  moreover have "mail_key e < mail_key f \<longleftrightarrow> now < em_received_at f \<or> (now = em_received_at f \<and> em_id e < em_id f)" for f
    by (auto simp: mail_key_def es(4))
  ultimately have pos: "newest_first (?old @ [e]) ! ?newer = e"
    using newest_first_position [of "?old @ [e]" e] by (simp add: es(4))
  have "find_mailbox (mb_id m) (mb_account_id m) None s' = Some m"
    by (rule find_mailbox_unique) (use ok' m(1) in \<open>simp_all add: mail_ok_def\<close>)
  then have ls: "ListEmails False (mb_id m) (mb_account_id m) None 1 sz s' = Inr (map summary_of (take (nat sz) (newest_first (?old @ [e]))), Suc (length ?old))"
    if "0 \<le> sz" for sz using that by (simp add: ListEmails_def Let_def own first_page)
  have "?newer \<le> length ?old" by simp
  then have "map summary_of (take (nat sz) (newest_first (?old @ [e]))) ! ?newer = summary_of e" if "?newer < nat sz" for sz
    using that pos by (simp add: less_Suc_eq_le)
  then show ?thesis using m upsert_not_expired [OF u] es(1-3)
    by (intro bexI [of _ m]) (auto simp: ev t ls Let_def es)
qed

section \<open>The cleaner\<close>

lemma newest_first_take:
  assumes d: "keys_distinct em_id es" and e: "e \<in> set (drop n (newest_first es))"
  shows "n \<le> length (filter (\<lambda>f. mail_key e < mail_key f) es)"
proof -
  let ?xs = "newest_first es"
  have dx: "distinct (map em_id ?xs)"
    using d by (simp add: newest_first_def keys_distinct_def rev_map [symmetric] distinct_map)
  obtain i where i: "i < length ?xs - n" "e = ?xs ! (n + i)" using e by (auto simp: in_set_conv_nth)
  have n: "n \<le> length ?xs" using i(1) by simp
  have "mail_key e < mail_key f" if f: "f \<in> set (take n ?xs)" for f
  proof -
    obtain j where j: "j < n" "f = ?xs ! j" using f n by (auto simp: in_set_conv_nth)
    have "mail_key e \<le> mail_key f"
      using sorted_wrt_nth_less [OF newest_first_sorted, of j "n + i"] i j by simp
    moreover have "em_id e \<noteq> em_id f"
      using dx i j n unfolding distinct_conv_nth by (auto simp: nth_map)
    ultimately show ?thesis unfolding mail_key_def by auto
  qed
  then have "set (take n ?xs) \<subseteq> set (filter (\<lambda>f. mail_key e < mail_key f) es)"
    using set_take_subset [of n ?xs] by (auto simp: newest_first_set(1))
  then have "card (set (take n ?xs)) \<le> card (set (filter (\<lambda>f. mail_key e < mail_key f) es))" by (simp add: card_mono)
  moreover have "card (set (take n ?xs)) = n" using dx n by (simp add: distinct_card distinct_map)
  ultimately show ?thesis using card_length [of "filter (\<lambda>f. mail_key e < mail_key f) es"] by linarith
qed

lemma filter_length_mono: "set xs \<subseteq> set ys \<Longrightarrow> distinct xs \<Longrightarrow> length (filter P xs) \<le> length (filter P ys)"
proof -
  assume "set xs \<subseteq> set ys" "distinct xs"
  then have "set (filter P xs) \<subseteq> set (filter P ys)" "distinct (filter P xs)" by auto
  then have "card (set (filter P xs)) \<le> card (set (filter P ys))" "card (set (filter P xs)) = length (filter P xs)"
    by (meson card_mono finite_set, meson distinct_card)
  then show ?thesis using card_length [of "filter P ys"] by linarith
qed

lemma keys_distinct_rows: "keys_distinct key rows \<Longrightarrow> distinct rows"
  by (simp add: keys_distinct_def distinct_map)

lemma step_expired:
  "ml_mailboxes (snd (DeleteExpiredMailboxes fault now s)) = (if fault then ml_mailboxes s else filter (\<lambda>m. \<not> expired now m) (ml_mailboxes s))"
  "ml_emails (snd (DeleteExpiredMailboxes fault now s)) =
     (if fault then ml_emails s
      else filter (\<lambda>e. em_mailbox_id e \<notin> mb_id ` set (filter (expired now) (ml_mailboxes s))) (ml_emails s))"
  by (simp_all add: DeleteExpiredMailboxes_def delete_mailboxes_def Let_def)

lemma step_emails:
  "ml_mailboxes (snd (deleteEmailsAndRefreshProjection fault now P s)) = ml_mailboxes s"
  "ml_emails (snd (deleteEmailsAndRefreshProjection fault now P s)) = (if fault then ml_emails s else filter (\<lambda>e. \<not> P e) (ml_emails s))"
  by (simp_all add: deleteEmailsAndRefreshProjection_def Let_def)

lemma trim_gone:
  assumes ok: "mail_ok s" and e: "e \<in> set (ml_emails s)" "e \<notin> set (ml_emails (snd (TrimEmailsToMaxCount fault now n s)))"
  shows "0 < n \<and> nat n \<le> length (filter (\<lambda>f. mail_key e < mail_key f) (ml_emails s))"
proof -
  have d: "keys_distinct em_id (ml_emails s)" using ok by (simp add: mail_ok_def tables_linked_def)
  have n: "0 < n" and "em_id e \<in> set (map em_id (drop (nat n) (newest_first (ml_emails s))))"
    using e by (auto simp: TrimEmailsToMaxCount_def step_emails Let_def split: if_splits)
  then obtain g where g: "g \<in> set (drop (nat n) (newest_first (ml_emails s)))" "em_id g = em_id e" by auto
  then have "g \<in> set (ml_emails s)" by (metis in_set_dropD newest_first_set(1))
  then have "g = e" using g(2) e(1) d unfolding keys_distinct_def distinct_map by (metis inj_on_eq_iff)
  then show ?thesis using newest_first_take [OF d] g(1) n by auto
qed

text \<open>C27. The cleaner deletes nothing it may keep: in a tick, with any of its statements failing, a mailbox goes only
  if it is not kept forever and its time is over, and a mail goes only with such a mailbox, or because it is
  older than the retention in force, or because there are already the configured number of newer mails.\<close>

theorem cleaner_removes_only_stale:
  assumes "mail_ok s"
  shows "let t = cleaner_tick ft clock cfg setting s; age = retentionMinutes cfg setting in
    (\<forall>m \<in> set (ml_mailboxes s). m \<notin> set (ml_mailboxes t) \<longrightarrow>
       \<not> mb_keep_forever m \<and> (\<exists>u. mb_expires_at m = Some u \<and> u < clock 0))
    \<and> (\<forall>e \<in> set (ml_emails s). e \<notin> set (ml_emails t) \<longrightarrow>
         (\<exists>m \<in> set (ml_mailboxes s). mb_id m = em_mailbox_id e \<and> expired (clock 0) m)
         \<or> (0 < age \<and> em_received_at e < clock 1 - round_seconds (wrap64 (age * minute)) * second)
         \<or> (0 < cc_max_count cfg \<and> nat (cc_max_count cfg) \<le> length (filter (\<lambda>f. mail_key e < mail_key f) (ml_emails s))))"
proof -
  define s1 where "s1 = snd (DeleteExpiredMailboxes (ft 0) (clock 0) s)"
  define age where "age = retentionMinutes cfg setting"
  define s2 where "s2 = (if 0 < age then snd (DeleteEmailsOlderThan (ft 1) (clock 1) (wrap64 (age * minute)) s1) else s1)"
  define t where "t = snd (TrimEmailsToMaxCount (ft 2) (clock 2) (cc_max_count cfg) s2)"
  have tick: "cleaner_tick ft clock cfg setting s = t" by (simp add: cleaner_tick_def Let_def s1_def s2_def t_def age_def)
  have ok2: "mail_ok s2" using assms by (simp add: s2_def s1_def other_deletes_ok)
  have boxes: "ml_mailboxes t = ml_mailboxes s1" by (simp add: t_def s2_def TrimEmailsToMaxCount_def DeleteEmailsOlderThan_def step_emails Let_def)
  have sub: "set (ml_emails s2) \<subseteq> set (ml_emails s)"
    by (auto simp: s2_def s1_def DeleteEmailsOlderThan_def step_emails step_expired split: if_splits)
  have m: "\<not> mb_keep_forever m \<and> (\<exists>u. mb_expires_at m = Some u \<and> u < clock 0)"
    if "m \<in> set (ml_mailboxes s)" "m \<notin> set (ml_mailboxes t)" for m
    using that by (auto simp: boxes s1_def step_expired expired_def split: if_splits option.splits)
  have e: "(\<exists>m \<in> set (ml_mailboxes s). mb_id m = em_mailbox_id e \<and> expired (clock 0) m)
         \<or> (0 < age \<and> em_received_at e < clock 1 - round_seconds (wrap64 (age * minute)) * second)
         \<or> (0 < cc_max_count cfg \<and> nat (cc_max_count cfg) \<le> length (filter (\<lambda>f. mail_key e < mail_key f) (ml_emails s)))"
    if e: "e \<in> set (ml_emails s)" "e \<notin> set (ml_emails t)" for e
  proof (cases "e \<in> set (ml_emails s2)")
    case True
    have "distinct (ml_emails s2)" using ok2 keys_distinct_rows by (auto simp: mail_ok_def tables_linked_def)
    moreover have "0 < cc_max_count cfg \<and> nat (cc_max_count cfg) \<le> length (filter (\<lambda>f. mail_key e < mail_key f) (ml_emails s2))"
      using trim_gone [OF ok2 True, of "ft 2" "clock 2" "cc_max_count cfg"] e(2) by (simp add: t_def)
    ultimately show ?thesis using filter_length_mono [OF sub, of "\<lambda>f. mail_key e < mail_key f"] by linarith
  next
    case False
    then show ?thesis using e(1)
      by (auto simp: s2_def s1_def DeleteEmailsOlderThan_def step_emails step_expired split: if_splits)
  qed
  show ?thesis using m e unfolding tick Let_def age_def [symmetric] by blast
qed

section \<open>Lookup and purge\<close>

text \<open>The two ways to look up the latest mail agree: for every address, account and token, the answer read off the
  projection is the mailbox with the id, time, code and link of the mail that the search through the mails
  finds, and it is missing exactly when that search finds none.\<close>

theorem projection_lookup_is_latest:
  assumes "mail_ok s"
  shows "map_sum id (\<lambda>(m, st). (m, map_option (\<lambda>st. (ms_latest_email_id st, ms_latest_received_at st, ms_latest_code st, ms_latest_link st)) st))
      (LookupMailboxProjectionScoped fault lo account is_admin token full s)
    = map_sum id (\<lambda>(m, e). (m, map_option (\<lambda>e. (Some (em_id e), Some (em_received_at e), em_parsed_code e, em_parsed_link e)) e))
      (LookupLatestEmailScoped fault lo account is_admin token full s)"
proof (cases "LookupMailboxScoped fault lo account is_admin token full s")
  case (Inl e)
  then show ?thesis by (simp add: LookupMailboxProjectionScoped_def LookupLatestEmailScoped_def)
next
  case (Inr m)
  have linked: "tables_linked (mb_id ` set (ml_mailboxes s)) (ml_emails s) (ml_states s)" using assms by (simp add: mail_ok_def)
  let ?own = "mail_of (mb_id m) (ml_emails s)"
  show ?thesis
  proof (cases "find_row ms_mailbox_id (mb_id m) (ml_states s)")
    case None
    then have none: "mb_id m \<notin> ms_mailbox_id ` set (ml_states s)" by (simp add: find_row_None)
    have "em_mailbox_id e \<noteq> mb_id m" if "e \<in> set (ml_emails s)" for e
      using linked that none unfolding tables_linked_def by metis
    then have "?own = []" by (simp add: mail_of_def filter_empty_conv)
    then show ?thesis using Inr None by (simp add: LookupMailboxProjectionScoped_def LookupLatestEmailScoped_def)
  next
    case (Some st)
    then have st: "st \<in> set (ml_states s)" "ms_mailbox_id st = mb_id m" using find_row_Some by fastforce+
    then have sh: "shows_mail (latest ?own) st" using linked by (auto simp: tables_linked_def projects_def)
    show ?thesis
    proof (cases "latest ?own")
      case None
      then have "\<not> valid_projection m st (ml_emails s)" using sh by (auto simp: valid_projection_def shows_mail_def list_ex_iff)
      then show ?thesis using Inr Some None by (simp add: LookupMailboxProjectionScoped_def LookupLatestEmailScoped_def)
    next
      case (Some e)
      then have "e \<in> set (ml_emails s)" "em_mailbox_id e = mb_id m" using latest_Some [OF Some] by (auto simp: mail_of_def)
      then have "valid_projection m st (ml_emails s)" using sh Some by (auto simp: valid_projection_def shows_mail_def list_ex_iff)
      then show ?thesis using Inr Some \<open>find_row _ _ _ = Some st\<close> sh
        by (simp add: LookupMailboxProjectionScoped_def LookupLatestEmailScoped_def shown_state_def shows_mail_def)
    qed
  qed
qed

text \<open>A purge does what its preview announced and stays in its scope: it deletes as many mailboxes as the preview
  counted in the same state; for a caller without administrator rights every mailbox of another account or token,
  and for every caller every mailbox that is kept forever, stays with all its mail.\<close>

theorem purge_previewed_and_scoped:
  assumes "mail_ok s"
  shows "let (r, t) = PurgeMailboxes fault lo now account is_admin token q domain only_empty only_expired s in
    r = PreviewPurgeMailboxes fault lo now account is_admin token q domain only_empty only_expired s
    \<and> (\<forall>n. r = Inr n \<longrightarrow> length (ml_mailboxes t) + n = length (ml_mailboxes s))
    \<and> (\<forall>m \<in> set (ml_mailboxes s). mb_keep_forever m \<or> (\<not> is_admin \<and> \<not> owns account token m) \<longrightarrow>
         m \<in> set (ml_mailboxes t) \<and> mail_of (mb_id m) (ml_emails t) = mail_of (mb_id m) (ml_emails s))"
proof (cases fault)
  case True
  then show ?thesis by (simp add: PurgeMailboxes_def PreviewPurgeMailboxes_def)
next
  case False
  define P where "P = purge_filter lo now account is_admin token q domain only_empty only_expired s"
  define t where "t = snd (delete_mailboxes P s)"
  have p: "PurgeMailboxes fault lo now account is_admin token q domain only_empty only_expired s = (Inr (length (filter P (ml_mailboxes s))), t)"
    using False by (simp add: PurgeMailboxes_def P_def t_def delete_mailboxes_def Let_def)
  have len: "length (ml_mailboxes t) + length (filter P (ml_mailboxes s)) = length (ml_mailboxes s)"
    using sum_length_filter_compl [of P "ml_mailboxes s"] by (simp add: t_def delete_mailboxes_def Let_def)
  have stay: "m \<in> set (ml_mailboxes t) \<and> mail_of (mb_id m) (ml_emails t) = mail_of (mb_id m) (ml_emails s)"
    if m: "m \<in> set (ml_mailboxes s)" "\<not> P m" for m
  proof -
    have "q = m" if "q \<in> set (ml_mailboxes s)" "mb_id q = mb_id m" for q
      using that m(1) assms unfolding mail_ok_def keys_distinct_def distinct_map by (metis inj_on_eq_iff)
    then have "\<forall>q \<in> set (ml_mailboxes s). P q \<longrightarrow> mb_id q \<noteq> mb_id m" using m(2) by blast
    then have "mail_of (mb_id m) (ml_emails t) = mail_of (mb_id m) (ml_emails s)"
      by (simp add: t_def delete_mailboxes_def Let_def mail_of_def) (rule filter_cong, auto simp: image_iff)
    then show ?thesis using m by (simp add: t_def delete_mailboxes_def Let_def)
  qed
  have "\<not> P m" if "mb_keep_forever m \<or> (\<not> is_admin \<and> \<not> owns account token m)" for m
    using that by (auto simp: P_def purge_filter_def buildMailboxCleanupWhere_def owns_def token_scope_def split: option.splits)
  then show ?thesis unfolding p using len stay False by (auto simp: PreviewPurgeMailboxes_def P_def)
qed

section \<open>Concrete stores\<close>

definition plain_libs :: extract_libs where
  "plain_libs = \<lparr>ex_unescape = id, ex_upper = id, ex_lower = id\<rparr>"

definition fresh_store :: mail_store where
  "fresh_store = \<lparr>ml_accounts = [3, 4], ml_domains = [1], ml_mailboxes = [], ml_emails = [], ml_states = []\<rparr>"

definition sample_delivery :: ingress_delivery where
  "sample_delivery =
     \<lparr>dl_recipient = ''a@b.de'', dl_local_part = ''a'', dl_domain_name = ''b.de'', dl_account_id = 3, dl_domain_id = 1,
      dl_mailbox_ttl_minutes = 30, dl_sender = ''s'', dl_subject = [], dl_body_text = [], dl_body_html = [],
      dl_has_attachments = False, dl_raw = [], dl_size_bytes = 9\<rparr>"

lemma fresh_store_ok: "no_mail fresh_store" "mail_ok fresh_store" "mail_fresh (5, 7) fresh_store"
proof -
  show n: "no_mail fresh_store" by (simp add: no_mail_def fresh_store_def)
  show "mail_ok fresh_store" by (rule no_mail_ok [OF n])
  show "mail_fresh (5, 7) fresh_store" by (simp add: mail_fresh_def fresh_store_def)
qed

lemma valid_ascii: "is_ascii s \<Longrightarrow> valid_utf8 s"
  by (induction s) (simp_all add: is_ascii_def valid_ascii_Cons)

lemma ascii_column: "is_ascii s \<Longrightarrow> CHR 0x00 \<notin> set s \<Longrightarrow> column_text s \<and> (length s \<le> n \<longrightarrow> varchar n s)"
  by (simp add: column_text_def varchar_def valid_ascii runes_ascii)

lemma sample_names:
  assumes "s \<in> {''a@b.de'', ''a'', ''b.de''}"
  shows "to_lower id (trim_space s) = s" "to_lower id (trim_cut ''.'' (trim_space s)) = s" "varchar 128 s" "varchar 320 s" "varchar 255 s"
proof -
  have a: "is_ascii s" using assms by (auto simp: is_ascii_def)
  have t: "trim_space s = s" using assms unfolding trim_space_ascii [OF a] by (auto simp: ascii_space_def)
  have c: "trim_cut ''.'' s = s" by (rule trim_cut_id) (use assms in auto)
  show l: "to_lower id (trim_space s) = s" unfolding t by (rule to_lower_id [OF a]) (use assms in \<open>auto simp: is_upper_def\<close>)
  show "to_lower id (trim_cut ''.'' (trim_space s)) = s" using l unfolding t c .
  show "varchar 128 s" "varchar 320 s" "varchar 255 s" using assms ascii_column [OF a] by auto
qed

lemma sample_email:
  "new_email plain_libs 100 7 5 sample_delivery =
     \<lparr>em_id = 7, em_mailbox_id = 5, em_sender = ''s'', em_subject = [], em_body_text = [], em_body_html = [], em_raw_message = [],
      em_has_attachments = False, em_raw_path = [], em_raw_retention_until = None, em_parsed_code = [], em_parsed_code_source = [],
      em_parsed_link = [], em_parsed_link_source = [], em_size_bytes = 9, em_received_at = 100\<rparr>"
proof -
  have "trim_space ([CHR 0x0A] @ [CHR 0x0A]) = []" by (simp add: trim_space_ascii is_ascii_def ascii_space_def)
  moreover have "ExtractCode id id [] = ([], [])" by code_simp
  moreover have "ExtractLink id [] = ([], [])" by (simp add: ExtractLink_def)
  ultimately show ?thesis by (simp add: new_email_def sample_delivery_def plain_libs_def)
qed

lemma sample_stored: "\<exists>ev t. InsertEmailResolved False plain_libs 100 (5, 7) sample_delivery fresh_store = (Inr (Some ev, True), t)"
proof -
  have u: "upsert_mailbox 100 5 3 ''a'' 1 ''a@b.de'' 30 (ml_mailboxes fresh_store) =
      (new_mailbox 5 3 None ''a'' 1 ''a@b.de'' 100 (ttl_expiry 100 30), [new_mailbox 5 3 None ''a'' 1 ''a@b.de'' 100 (ttl_expiry 100 30)])"
    by (simp add: upsert_mailbox_def fresh_store_def Let_def)
  have t: "column_text []" "varchar n []" "varchar 320 ''s''" for n
    using ascii_column [of "[]" n] ascii_column [of "''s''" 320] by (simp_all add: is_ascii_def)
  have f: "delivery_fits ''a@b.de'' ''a'' ''b.de'' sample_delivery (new_email plain_libs 100 7 5 sample_delivery)"
    unfolding sample_email using sample_names(3-5) t by (simp add: delivery_fits_def sample_delivery_def int4_def)
  have d: "dl_recipient sample_delivery = ''a@b.de''" "dl_local_part sample_delivery = ''a''" "dl_domain_name sample_delivery = ''b.de''"
    "dl_account_id sample_delivery = 3" "dl_domain_id sample_delivery = 1" "dl_mailbox_ttl_minutes sample_delivery = 30"
    "ex_lower plain_libs = id" by (simp_all add: sample_delivery_def plain_libs_def)
  have k: "mb_id (new_mailbox 5 3 None l 1 r 100 x) = 5" "mb_account_id (new_mailbox 5 3 None l 1 r 100 x) = 3"
    "mb_domain_id (new_mailbox 5 3 None l 1 r 100 x) = 1" for l r x by (simp_all add: new_mailbox_def)
  show ?thesis
    unfolding InsertEmailResolved_def d using f u sample_names(1,2) by (simp add: Let_def k fresh_store_def uuid_nil_def)
qed

text \<open>The same store after the delivery, and one with a mailbox that is kept.\<close>

definition used_store :: mail_store where
  "used_store = snd (InsertEmailResolved False plain_libs 100 (5, 7) sample_delivery fresh_store)"

lemma used_store_ok: "mail_ok used_store"
  unfolding used_store_def by (rule insert_email_ok [OF fresh_store_ok(2,3)])

definition kept_box :: mailbox where
  "kept_box = retention 1 True 0 (new_mailbox 6 3 None ''a'' 1 ''a@b.de'' 1 None)"

definition kept_store :: mail_store where
  "kept_store = fresh_store\<lparr>ml_mailboxes := [kept_box]\<rparr>"

lemma kept_store_ok: "mail_ok kept_store" "kept_box \<in> set (ml_mailboxes kept_store)" "mb_keep_forever kept_box"
  by (simp_all add: kept_store_def fresh_store_def kept_box_def retention_def mail_ok_def tables_linked_def keys_distinct_def)

theorem projection_matches_emails_witness:
  "list_all (\<lambda>e. em_mailbox_id e \<in> mb_id ` set (ml_mailboxes (run perform_mail [DeliverOp False plain_libs 100 (5, 7) sample_delivery,
      DropEmailOp False 200 7 5 3 None] fresh_store)))
    (ml_emails (run perform_mail [DeliverOp False plain_libs 100 (5, 7) sample_delivery, DropEmailOp False 200 7 5 3 None] fresh_store))"
  using projection_matches_emails [OF fresh_store_ok(1), of "[DeliverOp False plain_libs 100 (5, 7) sample_delivery, DropEmailOp False 200 7 5 3 None]"]
    fresh_store_ok(3) by (simp add: list_all_iff Let_def)

theorem delivery_reaches_mailbox_witness:
  "\<exists>(m :: mailbox) (ev :: mailbox_email_event). ListEmails False (mb_id m) (mb_account_id m) None 1 1 used_store = Inr ([ev_email ev], 1) \<and> es_received_at (ev_email ev) = 100"
proof -
  obtain ev t where r: "InsertEmailResolved False plain_libs 100 (5, 7) sample_delivery fresh_store = (Inr (Some ev, True), t)"
    using sample_stored by blast
  have e: "mail_of i (ml_emails fresh_store) = []" for i by (simp add: fresh_store_def mail_of_def)
  have t: "t = used_store" using r by (simp add: used_store_def)
  from delivery_reaches_mailbox [OF fresh_store_ok(2,3) r, unfolded e t, simplified]
  obtain m :: mailbox where m: "es_received_at (ev_email ev) = 100" "\<forall>sz \<ge> 0. \<exists>xs. ListEmails False (mb_id m) (mb_account_id m) None 1 sz used_store = Inr (xs, Suc 0)
      \<and> length xs = min (nat sz) (Suc 0) \<and> (0 < sz \<longrightarrow> xs ! 0 = ev_email ev)" by blast
  from m(2) [rule_format, of 1] obtain xs where xs: "ListEmails False (mb_id m) (mb_account_id m) None 1 1 used_store = Inr (xs, 1)"
    "length xs = 1" "xs ! 0 = ev_email ev" by auto
  then show ?thesis using m(1) by (intro exI [of _ m] exI [of _ ev]) (cases xs; simp)
qed

theorem cleaner_removes_only_stale_witness:
  "kept_box \<in> set (ml_mailboxes (cleaner_tick (\<lambda>_. False) (\<lambda>_. 900) \<lparr>cc_max_age_minutes = 10, cc_max_count = 5\<rparr> (Inl NoRows) kept_store))"
  using cleaner_removes_only_stale [OF kept_store_ok(1), of "\<lambda>_. False" "\<lambda>_. 900" "\<lparr>cc_max_age_minutes = 10, cc_max_count = 5\<rparr>" "Inl NoRows"]
    kept_store_ok(2,3) by (auto simp: Let_def)

theorem projection_lookup_is_latest_witness:
  "map_sum id (\<lambda>(m, st). (m, map_option (\<lambda>st. (ms_latest_email_id st, ms_latest_received_at st, ms_latest_code st, ms_latest_link st)) st))
      (LookupMailboxProjectionScoped False id 3 False None ''a@b.de'' used_store)
    = map_sum id (\<lambda>(m, e). (m, map_option (\<lambda>e. (Some (em_id e), Some (em_received_at e), em_parsed_code e, em_parsed_link e)) e))
      (LookupLatestEmailScoped False id 3 False None ''a@b.de'' used_store)"
  by (rule projection_lookup_is_latest [OF used_store_ok])

theorem purge_previewed_and_scoped_witness:
  "kept_box \<in> set (ml_mailboxes (snd (PurgeMailboxes False id 900 4 False None [] [] False False kept_store)))"
  using purge_previewed_and_scoped [OF kept_store_ok(1), of False id 900 4 False None "[]" "[]" False False]
    kept_store_ok(2,3) by (auto simp: Let_def case_prod_beta)

end
