(* ===== verification/Mailbox_Promises.thy ===== *)
theory Mailbox_Promises
  imports Mailbox_Admin Domain_Promises Mail_Promises Snapshot "HOL-Library.Sublist"
begin

text \<open>
  Two promises that span components: a mailbox the handler creates is the one the mail server finds for its address,
  and an event stream shows the mail published for its mailbox, in order.
\<close>

section \<open>Addresses\<close>

lemma alnum_plain: "alnum c \<Longrightarrow> byte c < 128 \<and> \<not> ascii_space c \<and> \<not> is_upper c \<and> c \<notin> set ''<>.@''"
  by (auto simp: alnum_def is_lower_def is_digit_def ascii_space_def is_upper_def)

lemma framed_plain:
  assumes "framed extra n s" "extra = ''.-'' \<or> extra = ''._+-''"
  shows "is_ascii s" "list_all (\<lambda>c. \<not> is_upper c) s" "trim_space s = s" "s \<noteq> []" "CHR ''@'' \<notin> set s"
    "hd s \<notin> set ''<>.@''" "last s \<notin> set ''<>.@''" "\<forall>c \<in> set s. \<not> ascii_space c"
proof -
  have e: "byte c < 128 \<and> \<not> ascii_space c \<and> \<not> is_upper c \<and> c \<noteq> CHR ''@''" if "c \<in> set s" for c
  proof (cases "alnum c")
    case True
    then show ?thesis using alnum_plain by auto
  next
    case False
    then have "c \<in> set extra" using assms(1) that by (auto simp: framed_def list_all_iff)
    then show ?thesis using assms(2) by (auto simp: ascii_space_def is_upper_def)
  qed
  show a: "is_ascii s" "list_all (\<lambda>c. \<not> is_upper c) s" "CHR ''@'' \<notin> set s" "\<forall>c \<in> set s. \<not> ascii_space c"
    using e by (auto simp: is_ascii_def list_all_iff)
  show ne: "s \<noteq> []" using assms(1) by (simp add: framed_def)
  show "hd s \<notin> set ''<>.@''" "last s \<notin> set ''<>.@''" using assms(1) alnum_plain [of "hd s"] alnum_plain [of "last s"] unfolding framed_def by blast+
  show "trim_space s = s" using a(4) ne by (intro trim_space_id_ascii [OF a(1)]) simp
qed

lemma host_plain:
  assumes "host_form d"
  shows "is_ascii d" "to_lower lo d = d" "trim_space d = d" "trim_cut ''.'' d = d" "d \<noteq> []" "CHR ''@'' \<notin> set d"
    "\<not> contains_sub d ''..''" "\<forall>c \<in> set d. \<not> ascii_space c" "last d \<notin> set ''<>.@''"
proof -
  have f: "framed ''.-'' 251 d" using assms by (simp add: host_form_def mailboxDomainPattern_def)
  note p = framed_plain [OF f disjI1 [OF refl]]
  show "is_ascii d" "trim_space d = d" "d \<noteq> []" "CHR ''@'' \<notin> set d" "\<forall>c \<in> set d. \<not> ascii_space c" "last d \<notin> set ''<>.@''" using p by simp_all
  show "to_lower lo d = d" by (rule to_lower_id [OF p(1,2)])
  show "trim_cut ''.'' d = d" by (rule trim_cut_id) (use p(6,7) in auto)
  show "\<not> contains_sub d ''..''" using assms by (simp add: host_form_def)
qed

lemma full_ascii:
  assumes "mailboxLocalPattern local" "host_form host"
  shows "is_ascii (local @ ''@'' @ host)" "list_all (\<lambda>c. \<not> is_upper c) (local @ ''@'' @ host)"
    "trim_space (local @ ''@'' @ host) = local @ ''@'' @ host"
proof -
  have f: "framed ''._+-'' 62 local" using assms(1) by (simp add: mailboxLocalPattern_def)
  note l = framed_plain [OF f disjI2 [OF refl]] and h = host_plain [OF assms(2)]
  show a: "is_ascii (local @ ''@'' @ host)" using l(1) h(1) by (simp add: is_ascii_def)
  show "list_all (\<lambda>c. \<not> is_upper c) (local @ ''@'' @ host)"
    using l(2) assms(2) framed_plain(2) [of "''.-''" 251 host] by (simp add: host_form_def mailboxDomainPattern_def is_upper_def)
  show "trim_space (local @ ''@'' @ host) = local @ ''@'' @ host"
    by (rule trim_space_id_ascii [OF a]) (use l(4,8) h(5,8) in simp)
qed

lemma full_plain:
  "mailboxLocalPattern local \<Longrightarrow> host_form host \<Longrightarrow> to_lower lo (trim_space (local @ ''@'' @ host)) = local @ ''@'' @ host"
  using full_ascii [of local host] by (simp add: to_lower_id)

lemma split_full:
  assumes "mailboxLocalPattern local" "host_form host"
  shows "splitAddress lo (local @ ''@'' @ host) = Some (local, host)"
proof -
  have f: "framed ''._+-'' 62 local" using assms(1) by (simp add: mailboxLocalPattern_def)
  note l = framed_plain [OF f disjI2 [OF refl]] and h = host_plain [OF assms(2)]
  let ?a = "local @ CHR ''@'' # host"
  have ends: "hd ?a = hd local" "last ?a = last host" using l(4) h(5) by simp_all
  have c: "trim_cut ''<>'' ?a = ?a" by (rule trim_cut_id) (use l(6) h(9) ends in simp)
  have a: "trim_cut ''<>'' (to_lower lo (trim_space ?a)) = ?a" using full_plain [OF assms, of lo] c by simp
  have i: "last_index_byte ?a (CHR ''@'') = Some (length local)"
    unfolding last_index_byte_Some_iff using h(6) by blast
  have w: "\<not> contains_any host [CHR '' '', HT, CR, LF]"
    using h(8) by (auto simp: contains_any_iff ascii_space_def)
  show ?thesis
    using l(3,4) h(3,4,5,7) w by (simp add: splitAddress_def a i Let_def)
qed

section \<open>The chosen domain\<close>

definition names_ok :: "domain_store \<Rightarrow> bool" where
  "names_ok s =
     (distinct (map dom_domain (db_domains (ds_db s)))
      \<and> (\<forall>m \<in> set (loadActiveDomains (ds_db s)). host_form (dom_domain m) \<and> 0 < dom_id m))"

definition roots_over :: "mail_domain set \<Rightarrow> string \<Rightarrow> mail_domain \<Rightarrow> bool" where
  "roots_over active host m =
     (m \<in> active \<and> label_suffix (dom_domain m) host
      \<and> (\<forall>x \<in> active. label_suffix (dom_domain x) host \<longrightarrow> length (dom_domain x) \<le> length (dom_domain m)))"

lemma cached_or_loaded:
  "site_ok s \<Longrightarrow> fst (GetActiveDomains fault now later s) = Inr ds \<Longrightarrow> ds = loadActiveDomains (ds_db s)"
  by (auto simp: GetActiveDomains_def getCachedActiveDomains_def site_ok_def Let_def split: option.splits if_splits prod.splits)

lemma ascii_fold:
  assumes "host_form a" "host_form b" "equal_fold fo a b" shows "a = b"
proof -
  have up: "list_all (\<lambda>c. \<not> is_upper c) s" if "host_form s" for s
    using that framed_plain(2) [of "''.-''" 251 s] by (simp add: host_form_def mailboxDomainPattern_def)
  have r: "map (\<lambda>c. lower_rune fo (fst c)) (runes s) = map byte s" if h: "host_form s" for s
    using up [OF h] host_plain(1) [OF h]
    by (auto simp: runes_ascii is_ascii_def list_all_iff lower_rune_def is_upper_def)
  have "map byte a = map byte b" using assms by (simp add: equal_fold_def r)
  moreover have "inj (byte :: char \<Rightarrow> nat)" by (rule injI) simp
  ultimately show ?thesis by (metis inj_map_eq_map)
qed

lemma serves_suffix: "host_form (dom_domain m) \<Longrightarrow> serves lo n m = label_suffix (dom_domain m) n"
  using host_plain(2,3,5) [of "dom_domain m"] by (auto simp: serves_def Let_def label_suffix_def)

lemma resolved_roots:
  assumes ok: "site_ok s" "names_ok s" and h: "host_form d"
    and ans: "fst (ResolveActiveMailboxDomain False tt now later d s) = Inr (m, host)"
  shows "host = d \<and> roots_over (set (loadActiveDomains (ds_db s))) d m"
proof -
  let ?ds = "loadActiveDomains (ds_db s)"
  note n = host_plain [OF h]
  have form: "host_form (dom_domain x)" if "x \<in> set ?ds" for x using ok(2) that by (simp add: names_ok_def)
  have norm: "\<forall>x \<in> set ?ds. to_lower (tt_lower tt) (trim_space (dom_domain x)) = dom_domain x"
    using form host_plain(2,3) by simp
  have srv: "serves (tt_lower tt) d x = label_suffix (dom_domain x) d" if "x \<in> set ?ds" for x
    by (rule serves_suffix [OF form [OF that]])
  note res = ans [unfolded Resolve_ok [OF ok(1)] Let_def n(2,3,4)]
  show ?thesis
  proof (cases "List.find (\<lambda>m. equal_fold (tt_fold tt) (dom_domain m) d) ?ds")
    case (Some x)
    then have x: "x \<in> set ?ds" "equal_fold (tt_fold tt) (dom_domain x) d" by (auto simp: find_Some_iff)
    have "dom_domain x = d" by (rule ascii_fold [OF form [OF x(1)] h x(2)])
    moreover have "m = x" "host = dom_domain x" using res Some n(2,3,4,5) by auto
    ultimately show ?thesis using x(1) n(5) label_suffix_length by (auto simp: roots_over_def label_suffix_def)
  next
    case None
    then have f: "foldl (better_root (tt_lower tt) d) None ?ds = Some m" "host = d" using res n(2,3,4,5) by (auto split: option.splits)
    have "m \<in> set ?ds \<and> serves (tt_lower tt) d m" using better_root_member [OF f(1)] by simp
    then show ?thesis using better_root_longest [OF norm, of d None] f srv by (auto simp: roots_over_def)
  qed
qed

lemma active_hit:
  assumes "ds_cache s = Some (ds, e)" "now < e"
  shows "GetActiveDomains fault now later s = (Inr ds, s)"
  using assms by (cases s) (simp add: GetActiveDomains_def getCachedActiveDomains_def)

lemma active_miss:
  assumes "\<not> (\<exists>ds e. ds_cache s = Some (ds, e) \<and> now < e)"
  shows "GetActiveDomains True now later s = (Inl Fault, s\<lparr>ds_cache := None\<rparr>)"
  using assms by (auto simp: GetActiveDomains_def getCachedActiveDomains_def split: option.split)

lemma faulty_answer:
  assumes "fst (ResolveActiveMailboxDomain fault tt now later d s) = Inr r"
  shows "fst (ResolveActiveMailboxDomain False tt now later d s) = Inr r"
proof (cases "\<exists>ds e. ds_cache s = Some (ds, e) \<and> now < e")
  case True
  then obtain ds e where "ds_cache s = Some (ds, e)" "now < e" by blast
  note hit = active_hit [OF this]
  show ?thesis using assms by (auto simp: ResolveActiveMailboxDomain_def GetDomainByName_def hit Let_def split: if_splits sum.splits)
next
  case miss: False
  show ?thesis
  proof (cases fault)
    case True
    have "\<not> (\<exists>ds e. ds_cache (s\<lparr>ds_cache := None\<rparr>) = Some (ds, e) \<and> now < e)" by simp
    from active_miss [OF this] active_miss [OF miss] assms show ?thesis
      by (simp add: True ResolveActiveMailboxDomain_def GetDomainByName_def Let_def split: if_splits)
  qed (use assms in simp)
qed

lemma chosen_roots:
  assumes ok: "site_ok s" "names_ok s" and draws: "\<forall>n i. draw n = Some i \<longrightarrow> i < n"
    and r: "choose_domain fault tt now later draw asked s = (Inr (m, host), s')"
  shows "host_form host \<and> roots_over (set (loadActiveDomains (ds_db s))) host m"
proof (cases "trim_space (to_lower (tt_lower tt) asked) = []")
  case True
  then obtain t where t: "GetRandomActiveDomain fault now later draw s = (Inr m, t)" "host = dom_domain m"
    using r by (auto simp: choose_domain_def Let_def split: sum.splits prod.splits)
  obtain ds u i where g: "GetActiveDomains fault now later s = (Inr ds, u)" "ds \<noteq> []" "draw (length ds) = Some i" "m = ds ! i"
    using t(1) by (auto simp: GetRandomActiveDomain_def split: sum.splits prod.splits if_splits option.splits)
  have ds: "ds = loadActiveDomains (ds_db s)" using cached_or_loaded [OF ok(1), of fault now later ds] g(1) by simp
  have m: "m \<in> set ds" using g(3,4) draws by simp
  have h: "host_form (dom_domain m)" using ok(2) m ds by (simp add: names_ok_def)
  show ?thesis using m ds h host_plain(5) [OF h] label_suffix_length by (auto simp: roots_over_def t(2) label_suffix_def)
next
  case False
  define d where "d = trim_space (to_lower (tt_lower tt) asked)"
  have h: "host_form d" and a: "fst (ResolveActiveMailboxDomain fault tt now later d s) = Inr (m, host)"
    using r False by (auto simp: choose_domain_def Let_def d_def split: sum.splits prod.splits if_splits)
  show ?thesis using resolved_roots [OF ok h faulty_answer [OF a]] h by simp
qed

section \<open>The snapshot of the mail server\<close>

definition loads_pool :: "ingressSnapshot \<Rightarrow> domain_store \<Rightarrow> bool" where
  "loads_pool loaded s = (set (is_domains loaded) = (\<lambda>m. (dom_id m, dom_domain m)) ` set (loadActiveDomains (ds_db s)))"

definition item_of :: "mail_domain \<Rightarrow> snapshotDomain" where
  "item_of m = \<lparr>sd_id = dom_id m, sd_domain = dom_domain m\<rparr>"

lemma pool_items:
  assumes "names_ok s" "loads_pool loaded s"
  shows "set (snapshot_items lo (is_domains loaded)) = item_of ` set (loadActiveDomains (ds_db s))"
proof -
  have f: "0 < dom_id m \<and> normal_domain lo (dom_domain m) = dom_domain m \<and> dom_domain m \<noteq> []" if "m \<in> set (loadActiveDomains (ds_db s))" for m
  proof -
    have h: "host_form (dom_domain m)" "0 < dom_id m" using assms(1) that by (simp_all add: names_ok_def)
    then show ?thesis using host_plain(2,3,4,5) [OF h(1)] by (simp add: normal_domain_def)
  qed
  have "set (snapshot_items lo (is_domains loaded))
      = (\<lambda>(i, d). \<lparr>sd_id = i, sd_domain = normal_domain lo d\<rparr>) ` {(i, d). (i, d) \<in> set (is_domains loaded) \<and> \<not> (i \<le> 0 \<or> normal_domain lo d = [])}"
    by (auto simp: snapshot_items_def)
  also have "\<dots> = item_of ` set (loadActiveDomains (ds_db s))"
    using assms(2) f unfolding loads_pool_def item_of_def by (auto simp: image_iff) (metis (no_types, lifting) not_le)+
  finally show ?thesis .
qed

lemma pool_lookup:
  assumes ok: "names_ok s" "loads_pool loaded s" and m: "m \<in> set (loadActiveDomains (ds_db s))"
  shows "domainsByName (build_snapshot lo us t loaded) (dom_domain m) = Some (item_of m)"
proof -
  let ?items = "snapshot_items lo (is_domains loaded)"
  note items = pool_items [OF ok, of lo]
  have "dom (index_items ?items) = sd_domain ` set ?items"
    unfolding index_items_def using index_items_dom_gen [of Map.empty] by simp
  then have "dom_domain m \<in> dom (index_items ?items)" using m by (force simp: items item_of_def)
  then obtain y where y: "index_items ?items (dom_domain m) = Some y" by blast
  then have "y \<in> set ?items" "sd_domain y = dom_domain m" using index_items_Some by blast+
  then obtain x where x: "x \<in> set (loadActiveDomains (ds_db s))" "y = item_of x" "dom_domain x = dom_domain m"
    by (auto simp: items item_of_def)
  have "x \<in> set (db_domains (ds_db s))" "m \<in> set (db_domains (ds_db s))" using x(1) m by (simp_all add: loadActiveDomains_def)
  then have "x = m" using ok(1) x(3) by (auto simp: names_ok_def distinct_map dest: inj_onD)
  then show ?thesis using y x(2) by (simp add: build_snapshot_def Let_def)
qed

lemma pool_dom:
  assumes "names_ok s" "loads_pool loaded s"
  shows "dom (domainsByName (build_snapshot lo us t loaded)) = dom_domain ` set (loadActiveDomains (ds_db s))"
proof -
  have "dom (index_items (snapshot_items lo (is_domains loaded))) = sd_domain ` set (snapshot_items lo (is_domains loaded))"
    unfolding index_items_def using index_items_dom_gen [of Map.empty] by simp
  then show ?thesis by (auto simp: build_snapshot_def Let_def pool_items [OF assms] item_of_def image_image)
qed

lemma roots_resolve:
  assumes ok: "names_ok s" "loads_pool loaded s" and sp: "splitAddress lo address = Some (local, host)"
    and m: "roots_over (set (loadActiveDomains (ds_db s))) host m"
  shows "resolveRecipient lo (build_snapshot lo us t loaded) address =
    Some \<lparr>rr_address = local @ ''@'' @ host, rr_localPart = local, rr_domainName = host, rr_domainID = dom_id m,
          rr_accountID = is_defaultAccountID loaded, rr_mailboxTTLMinutes = is_mailboxTTLMinutes loaded\<rparr>"
proof -
  let ?names = "domainsByName (build_snapshot lo us t loaded)"
  have act: "m \<in> set (loadActiveDomains (ds_db s))" using m by (simp add: roots_over_def)
  have "longest_match ?names host (dom_domain m)"
    using m by (auto simp: longest_match_def roots_over_def pool_dom [OF ok])
  then have lm: "\<exists>n. longest_match ?names host n \<and> ?names n = Some (item_of m)" using pool_lookup [OF ok act] by blast
  have ne: "host \<noteq> []" using splitAddress_good [OF sp] by simp
  have "walk_labels ?names host = Some (item_of m)" by (rule iffD2 [OF walk_labels_longest [OF ne] lm])
  then show ?thesis by (simp add: resolveRecipient_def sp item_of_def build_snapshot_def Let_def)
qed

section \<open>A created mailbox\<close>

lemma made_mailbox:
  assumes "create_mailbox_handler faults tt now later fresh letters draw c address domain s = (Box_Made b, s')"
  obtains local m host ds where "mailboxLocalPattern local" "choose_domain (faults 1) tt now later draw domain (mt_domains s) = (Inr (m, host), ds)"
    "mb_address b = local" "mb_full_address b = local @ ''@'' @ host" "mb_domain_id b = dom_id m" "mb_account_id b = cl_account c"
    "mb_full_address b \<notin> set (map mb_full_address (ml_mailboxes (mt_mail s)))"
    "ml_mailboxes (mt_mail s') = ml_mailboxes (mt_mail s) @ [b]"
  using assms
  by (auto simp: create_mailbox_handler_def CreateMailbox_def Let_def new_mailbox_def split: if_splits prod.splits sum.splits)

lemma delivered_to:
  assumes "InsertEmailResolved fault x now fresh d s = (Inr (Some ev, True), s')"
    and "ml_mailboxes s = ms @ [b]" "mb_full_address b \<notin> set (map mb_full_address ms)"
    and "to_lower (ex_lower x) (trim_space (dl_recipient d)) = mb_full_address b"
  shows "ev_mailbox_id ev = mb_id b"
proof -
  have "List.find (\<lambda>m. mb_full_address m = mb_full_address b) (ml_mailboxes s) = Some b"
    using assms(3) unfolding assms(2) by (induction ms) auto
  then have up: "upsert_mailbox at i a local dom (mb_full_address b) ttl (ml_mailboxes s)
      = (revive_expiry at ttl b, update_row mb_id (mb_id b) (revive_expiry at ttl) (ml_mailboxes s))" for at i a local dom ttl
    by (simp add: upsert_mailbox_def)
  obtain m where m: "upsert_mailbox now (fst fresh) (dl_account_id d) (to_lower (ex_lower x) (trim_space (dl_local_part d))) (dl_domain_id d)
       (to_lower (ex_lower x) (trim_space (dl_recipient d))) (dl_mailbox_ttl_minutes d) (ml_mailboxes s) = (m, ml_mailboxes s')"
    and ev: "ev_mailbox_id ev = mb_id m"
    by (rule insert_email_step [OF assms(1)]) (rule that; simp)
  have "m = revive_expiry now (dl_mailbox_ttl_minutes d) b" using m unfolding assms(4) up by simp
  then show ?thesis using ev by (simp add: revive_expiry_def)
qed

text \<open>C29. A mailbox the console or the API creates is the one its mail reaches, provided the active domains have different names that
  are well-formed host names (lower-case letters, digits, dots and hyphens, with a letter or digit at each end) and positive
  identifiers: no handler enforces that form, and a domain stored as \<open>example.com.\<close> breaks the promise.  Then, whatever address
  and domain were asked for or drawn, the mail server, with a snapshot of the active domains, resolves the mailbox's address to the
  domain the mailbox is under and to its local part, and every delivery it then makes for that recipient goes into this mailbox.
  (The cache of the active domains is in step with the database, as every history of the site keeps it.)\<close>

theorem created_mailbox_receives:
  assumes "site_ok (mt_domains s)" "names_ok (mt_domains s)" "loads_pool loaded (mt_domains s)" "\<forall>n i. draw n = Some i \<longrightarrow> i < n"
    and "create_mailbox_handler faults tt now later fresh letters draw c address domain s = (Box_Made b, s')"
  shows "\<exists>r. resolveRecipient lo (build_snapshot lo us t loaded) (mb_full_address b) = Some r
    \<and> rr_address r = mb_full_address b \<and> rr_localPart r = mb_address b \<and> rr_domainID r = mb_domain_id b
    \<and> mb_account_id b = cl_account c
    \<and> (\<forall>fault x at ids d ev ms. dl_recipient d = rr_address r
          \<and> InsertEmailResolved fault x at ids d (mt_mail s') = (Inr (Some ev, True), ms) \<longrightarrow> ev_mailbox_id ev = mb_id b)"
proof -
  obtain local m host ds where mk: "mailboxLocalPattern local"
    "choose_domain (faults 1) tt now later draw domain (mt_domains s) = (Inr (m, host), ds)"
    "mb_address b = local" "mb_full_address b = local @ ''@'' @ host" "mb_domain_id b = dom_id m" "mb_account_id b = cl_account c"
    "mb_full_address b \<notin> set (map mb_full_address (ml_mailboxes (mt_mail s)))"
    "ml_mailboxes (mt_mail s') = ml_mailboxes (mt_mail s) @ [b]"
    using made_mailbox [OF assms(5)] .
  have h: "host_form host" "roots_over (set (loadActiveDomains (ds_db (mt_domains s)))) host m"
    using chosen_roots [OF assms(1,2,4) mk(2)] by simp_all
  note sp = split_full [OF mk(1) h(1), of lo]
  have low: "to_lower U (trim_space (mb_full_address b)) = mb_full_address b" for U
    unfolding mk(4) by (rule full_plain [OF mk(1) h(1)])
  show ?thesis
    using roots_resolve [OF assms(2,3) sp h(2)] delivered_to [OF _ mk(8,7)] low mk(3,4,5,6) by auto
qed

section \<open>A stream of events\<close>

text \<open>One stream among other users of the hub; \<open>wa_published\<close> records what was published for its mailbox.\<close>

record watched =
  wa_stream :: stream
  wa_hub :: hub
  wa_published :: "mailbox_email_event list"

datatype hub_use =
    Publish mailbox_email_event "nat list"
  | Other_Subscribes uuid
  | Other_Cancels nat
  | Stream_Turn stream_signal

fun watch_step :: "uuid \<Rightarrow> hub_use \<Rightarrow> watched \<Rightarrow> watched" where
  "watch_step i (Publish e order) w =
     (case publishEmailEvent order e (wa_hub w) of
        None \<Rightarrow> w
      | Some h \<Rightarrow> w\<lparr>wa_hub := h, wa_published := wa_published w @ (if ev_mailbox_id e = i then [e] else [])\<rparr>)"
| "watch_step i (Other_Subscribes m) w = w\<lparr>wa_hub := snd (subscribe m (wa_hub w))\<rparr>"
| "watch_step i (Other_Cancels k) w = w\<lparr>wa_hub := unsubscribe k (wa_hub w)\<rparr>"
| "watch_step i (Stream_Turn signal) w =
     (let (t, h) = stream_turn signal (wa_stream w, wa_hub w) in w\<lparr>wa_stream := t, wa_hub := h\<rparr>)"

fun watch_allowed :: "hub_use \<Rightarrow> watched \<Rightarrow> bool" where
  "watch_allowed (Publish e order) w = (distinct order \<and> set order = dom (hub_subs (wa_hub w)))"
| "watch_allowed (Other_Cancels k) w = (k \<noteq> st_id (wa_stream w))"
| "watch_allowed _ w = True"

definition shown :: "stream \<Rightarrow> mailbox_email_event list" where
  "shown t = concat (map (\<lambda>f. case f of Mail_Frame e \<Rightarrow> [e] | _ \<Rightarrow> []) (st_frames t))"

definition waiting :: "watched \<Rightarrow> mailbox_email_event list" where
  "waiting w = (if st_open (wa_stream w) then buf (hub_chans (wa_hub w) (st_id (wa_stream w))) else [])"

definition watch_ok :: "uuid \<Rightarrow> nat \<Rightarrow> watched \<Rightarrow> bool" where
  "watch_ok i d0 w =
     (hub_ok (wa_hub w) \<and> i \<noteq> uuid_nil
      \<and> (st_open (wa_stream w) \<longrightarrow>
           hub_subs (wa_hub w) (st_id (wa_stream w)) = Some \<lparr>sub_mailbox = i, sub_events = st_id (wa_stream w)\<rparr>
           \<and> length (wa_published w) + d0 \<le> length (shown (wa_stream w) @ waiting w) + hub_dropped (wa_hub w))
      \<and> subseq (shown (wa_stream w) @ waiting w) (wa_published w) \<and> list_all (\<lambda>e. ev_mailbox_id e = i) (wa_published w))"

lemma watch_cancel:
  assumes "watch_ok i d0 w" "k \<noteq> st_id (wa_stream w)"
  shows "watch_ok i d0 (w\<lparr>wa_hub := unsubscribe k (wa_hub w)\<rparr>)"
proof -
  have c: "hub_chans (unsubscribe k h) j = hub_chans h j" "hub_subs (unsubscribe k h) j = hub_subs h j" "hub_dropped (unsubscribe k h) = hub_dropped h"
    if "hub_ok h" "j \<noteq> k" for h j
    using that hub_okD [OF that(1), of k] by (auto simp: unsubscribe_def split: option.split)
  have ok: "hub_ok (wa_hub w)" using assms(1) by (simp add: watch_ok_def)
  note c = c [OF ok assms(2) [symmetric]]
  show ?thesis using assms(1) unsubscribe_ok [OF ok, of k]
    by (cases "st_open (wa_stream w)") (simp_all add: watch_ok_def waiting_def c)
qed

lemma watch_subscribe:
  assumes "watch_ok i d0 w" shows "watch_ok i d0 (w\<lparr>wa_hub := snd (subscribe m (wa_hub w))\<rparr>)"
proof -
  have ok: "hub_ok (wa_hub w)" using assms by (simp add: watch_ok_def)
  have "st_id (wa_stream w) \<noteq> Suc (hub_next (wa_hub w))" if "st_open (wa_stream w)"
    using assms that hub_okD [OF ok, of "st_id (wa_stream w)"] by (auto simp: watch_ok_def)
  then show ?thesis using assms subscribe_ok [OF ok, of m] by (auto simp: watch_ok_def waiting_def subscribe_def Let_def)
qed

lemma watch_publish:
  assumes ok: "watch_ok i d0 w" and order: "distinct order" "set order = dom (hub_subs (wa_hub w))"
  shows "watch_ok i d0 (watch_step i (Publish e order) w)"
proof -
  let ?h = "wa_hub w" and ?k = "st_id (wa_stream w)"
  have hub: "hub_ok ?h" "i \<noteq> uuid_nil" using ok by (simp_all add: watch_ok_def)
  obtain h where h: "publish_each e order ?h = Some h" "hub_ok h" "hub_subs h = hub_subs ?h" using publish_each_ok [OF hub(1)] by blast
  note ef = publish_each_effect [OF hub(1) order(1) h(1)]
  have fin: "finite (overflowing e ?h \<inter> set order)" by simp
  show ?thesis
  proof (cases "st_open (wa_stream w)")
    case False
    then show ?thesis using ok h by (auto simp: watch_ok_def waiting_def publishEmailEvent_def intro: list_emb_prefix)
  next
    case True
    then have s: "hub_subs ?h ?k = Some \<lparr>sub_mailbox = i, sub_events = ?k\<rparr>" using ok by (simp add: watch_ok_def)
    then have k: "?k \<in> set order" using order(2) by blast
    have b: "buf (hub_chans h ?k) = (if ev_mailbox_id e = i \<and> 0 < chan_room (hub_chans ?h ?k) then buf (hub_chans ?h ?k) @ [e] else buf (hub_chans ?h ?k))"
      using ef k s hub(2) by (auto simp: after_publish_def wants_def)
    have d0: "hub_dropped ?h \<le> hub_dropped h" using ef by simp
    have d1: "hub_dropped ?h < hub_dropped h" if "ev_mailbox_id e = i" "chan_room (hub_chans ?h ?k) = 0"
    proof -
      have "?k \<in> overflowing e ?h \<inter> set order" using s k that by (simp add: overflowing_def wants_def)
      then have "0 < card (overflowing e ?h \<inter> set order)" using fin by (auto simp: card_gt_0_iff)
      then show ?thesis using ef by simp
    qed
    have w: "watch_step i (Publish e order) w = w\<lparr>wa_hub := h, wa_published := wa_published w @ (if ev_mailbox_id e = i then [e] else [])\<rparr>"
      by (simp add: publishEmailEvent_def h(1))
    have len: "length (wa_published w) + d0 \<le> length (shown (wa_stream w)) + length (buf (hub_chans ?h ?k)) + hub_dropped ?h"
      and sub: "subseq (shown (wa_stream w) @ buf (hub_chans ?h ?k)) (wa_published w)"
      using ok True by (simp_all add: watch_ok_def waiting_def)
    consider (other) "ev_mailbox_id e \<noteq> i" | (room) "ev_mailbox_id e = i" "0 < chan_room (hub_chans ?h ?k)"
      | (full) "ev_mailbox_id e = i" "chan_room (hub_chans ?h ?k) = 0" by blast
    then show ?thesis
    proof cases
      case other
      then show ?thesis using ok True h s b d0 len sub unfolding w by (simp add: watch_ok_def waiting_def)
    next
      case room
      have "subseq (shown (wa_stream w) @ buf (hub_chans ?h ?k) @ [e]) (wa_published w @ [e])"
        using list_emb_append_mono [OF sub, of "[e]" "[e]"] by simp
      then show ?thesis using ok True h s b d0 len room unfolding w by (simp add: watch_ok_def waiting_def)
    next
      case full
      have "subseq (shown (wa_stream w) @ buf (hub_chans ?h ?k)) (wa_published w @ [e])" using sub by (rule list_emb_prefix)
      then show ?thesis using ok True h s b d1 [OF full] len full unfolding w by (simp add: watch_ok_def waiting_def)
    qed
  qed
qed

lemma shown_simps:
  "shown (t\<lparr>st_frames := st_frames t @ [f]\<rparr>) = shown t @ (case f of Mail_Frame e \<Rightarrow> [e] | _ \<Rightarrow> [])"
  "shown (t\<lparr>st_open := b\<rparr>) = shown t"
  by (simp_all add: shown_def)

lemma watch_close:
  assumes "watch_ok i d0 w" "hub_ok h" shows "watch_ok i d0 (let (t, h') = close_stream (wa_stream w) h in w\<lparr>wa_stream := t, wa_hub := h'\<rparr>)"
proof -
  have "subseq (shown (wa_stream w)) (shown (wa_stream w) @ waiting w)" by (rule list_emb_prefix) simp
  moreover have "subseq (shown (wa_stream w) @ waiting w) (wa_published w)" using assms(1) by (simp add: watch_ok_def)
  ultimately have "subseq (shown (wa_stream w)) (wa_published w)" by (rule subseq_order.trans)
  then show ?thesis
    using assms unsubscribe_ok [OF assms(2), of "st_id (wa_stream w)"]
    by (simp add: close_stream_def watch_ok_def waiting_def shown_simps Let_def)
qed

lemma taken:
  assumes "hub_ok h" "try_recv (hub_chans h k) = Got e c"
  shows "buf (hub_chans h k) = e # buf (hub_chans (take_event k h) k)" "hub_ok (take_event k h)"
    "hub_subs (take_event k h) = hub_subs h" "hub_dropped (take_event k h) = hub_dropped h"
proof -
  show "hub_ok (take_event k h)" by (rule take_event_ok [OF assms(1)])
qed (use assms(2) in \<open>auto simp: take_event_def try_recv_def split: list.splits if_splits\<close>)

lemma watch_turn:
  assumes ok: "watch_ok i d0 w" shows "watch_ok i d0 (watch_step i (Stream_Turn signal) w)"
proof (cases "st_open (wa_stream w)")
  case False
  then show ?thesis using ok by simp
next
  case True
  let ?t = "wa_stream w" and ?h = "wa_hub w"
  have hub: "hub_ok ?h" using ok by (simp add: watch_ok_def)
  note closing = watch_close [OF ok]
  show ?thesis
  proof (cases signal)
    case Client_Gone
    then show ?thesis using True closing [OF hub] by simp
  next
    case (Tick accepted)
    then show ?thesis
      using True closing [OF hub] ok by (simp add: write_frame_def) (auto simp: watch_ok_def waiting_def shown_simps)
  next
    case (Deliver accepted)
    show ?thesis
    proof (cases "try_recv (hub_chans ?h (st_id ?t))")
      case (Got e c)
      note tk = taken [OF hub Got]
      show ?thesis
        using True closing [OF tk(2)] ok tk
        by (cases accepted) (simp_all add: Deliver Got write_frame_def watch_ok_def waiting_def shown_simps)
    next
      case Empty
      then show ?thesis using True ok by (simp add: Deliver)
    next
      case ClosedEmpty
      then show ?thesis using True closing [OF hub] by (simp add: Deliver)
    qed
  qed
qed

interpretation watching: guarded_steps "watch_step i" watch_allowed "watch_ok i d0" for i d0
proof
  fix w u assume ok: "watch_ok i d0 w" and al: "watch_allowed u w"
  show "watch_ok i d0 (watch_step i u w)"
  proof (cases u)
    case (Publish e order)
    then show ?thesis using watch_publish [OF ok] al by simp
  next
    case (Other_Subscribes m)
    then show ?thesis using watch_subscribe [OF ok] by simp
  next
    case (Other_Cancels k)
    then show ?thesis using watch_cancel [OF ok] al by simp
  next
    case (Stream_Turn signal)
    show ?thesis unfolding Stream_Turn by (rule watch_turn [OF ok])
  qed
qed

lemma opened_ok:
  assumes "hub_ok h" "i \<noteq> uuid_nil" "open_stream True fault c (Some i) accepted s h = (Inr t, h')"
  shows "watch_ok i (hub_dropped h) \<lparr>wa_stream = t, wa_hub = h', wa_published = []\<rparr>"
proof -
  have ok: "hub_ok (snd (subscribe i h))" by (rule subscribe_ok [OF assms(1)])
  show ?thesis
    using assms(2,3) ok unsubscribe_ok [OF ok]
    by (auto simp: open_stream_def subscribe_def Let_def watch_ok_def waiting_def shown_def chan_make_def split: sum.splits if_splits)
qed

text \<open>C30. A stream of events is faithful.  Whatever is published, whoever else comes and goes, and however its turns fall,
  what it has written is a subsequence, in order, of what was published for its mailbox since it was opened, and nothing
  else; and as long as it is open and no event was dropped for a full channel, what it has written and what waits in
  its channel is all of it.\<close>

theorem stream_is_faithful:
  assumes "hub_ok h" "i \<noteq> uuid_nil" "open_stream True fault c (Some i) accepted s h = (Inr t, h')"
    and "run_allowed (watch_step i) watch_allowed uses \<lparr>wa_stream = t, wa_hub = h', wa_published = []\<rparr>"
  shows "let w = run (watch_step i) uses \<lparr>wa_stream = t, wa_hub = h', wa_published = []\<rparr> in
    subseq (shown (wa_stream w)) (wa_published w) \<and> list_all (\<lambda>e. ev_mailbox_id e = i) (wa_published w)
    \<and> (st_open (wa_stream w) \<and> hub_dropped (wa_hub w) = hub_dropped h \<longrightarrow>
         shown (wa_stream w) @ buf (hub_chans (wa_hub w) (st_id (wa_stream w))) = wa_published w)"
proof -
  define w where "w = run (watch_step i) uses \<lparr>wa_stream = t, wa_hub = h', wa_published = []\<rparr>"
  have ok: "watch_ok i (hub_dropped h) w"
    unfolding w_def by (rule watching.run_keeps [OF opened_ok [OF assms(1,2,3)] assms(4)])
  have sub: "subseq (shown (wa_stream w) @ waiting w) (wa_published w)" using ok by (simp add: watch_ok_def)
  have "subseq (shown (wa_stream w)) (shown (wa_stream w) @ waiting w)" by (rule list_emb_prefix) simp
  then have "subseq (shown (wa_stream w)) (wa_published w)" using sub by (rule subseq_order.trans)
  moreover have "shown (wa_stream w) @ waiting w = wa_published w"
    if "st_open (wa_stream w)" "hub_dropped (wa_hub w) = hub_dropped h"
  proof -
    have "length (wa_published w) \<le> length (shown (wa_stream w) @ waiting w)" using ok that by (simp add: watch_ok_def)
    then show ?thesis using sub list_emb_length [OF sub] subseq_same_length by (metis le_antisym)
  qed
  ultimately show ?thesis using ok unfolding w_def [symmetric] Let_def by (auto simp: watch_ok_def waiting_def)
qed

section \<open>Concrete courses\<close>

definition one_domain :: domain_store where
  "one_domain = \<lparr>ds_db = empty_db\<lparr>db_domains := [manual_domain 1 1 ''b.de'']\<rparr>, ds_cache = None\<rparr>"

definition small_site :: mail_site where
  "small_site = \<lparr>mt_mail = \<lparr>ml_accounts = [7], ml_domains = [1], ml_mailboxes = [], ml_emails = [], ml_states = []\<rparr>, mt_domains = one_domain\<rparr>"

definition small_caller :: caller where
  "small_caller = \<lparr>cl_account = 7, cl_token = None\<rparr>"

lemma one_domain_facts:
  "site_ok one_domain" "loadActiveDomains (ds_db one_domain) = [manual_domain 1 1 ''b.de'']" "ds_cache one_domain = None"
  by (simp_all add: one_domain_def site_ok_def pool_ok_def pool_def keys_distinct_def empty_db_def manual_domain_def flags_ok_def
      is_donated_def loadActiveDomains_def)

lemma one_domain_names: "names_ok one_domain"
proof -
  have c: "contains_sub ''b.de'' ''.''" "\<not> contains_sub ''b.de'' ''..''" by code_simp+
  have "mailboxDomainPattern ''b.de''" by (simp add: mailboxDomainPattern_def framed_def alnum_def is_lower_def is_digit_def)
  then show ?thesis unfolding names_ok_def one_domain_facts(2)
    by (simp add: host_form_def c manual_domain_def) (simp add: one_domain_def)
qed

lemma small_made:
  "\<exists>b s'. create_mailbox_handler (\<lambda>n. n = 0) any_tables 10 10 5 (\<lambda>_. 0) (\<lambda>n. if n = 0 then None else Some 0) small_caller ''bob'' [] small_site
     = (Box_Made b, s') \<and> mb_full_address b = ''bob@b.de''"
proof -
  have asc: "is_ascii ''bob''" "is_ascii ''bob@b.de''" by (simp_all add: is_ascii_def)
  have l: "new_local any_tables (\<lambda>_. 0) ''bob'' = ''bob''"
    using trim_space_id_ascii [OF asc(1)] to_lower_id [OF asc(1)] by (simp add: new_local_def ascii_space_def is_upper_def)
  have p: "mailboxLocalPattern ''bob''" by (simp add: mailboxLocalPattern_def framed_def alnum_def is_lower_def)
  have f: "varchar 128 ''bob''" "varchar 320 ''bob@b.de''"
    using ascii_column [OF asc(1), of 128] ascii_column [OF asc(2), of 320] by simp_all
  obtain ds where g: "choose_domain False any_tables 10 10 (\<lambda>n. if n = 0 then None else Some 0) [] one_domain
      = (Inr (manual_domain 1 1 ''b.de'', ''b.de''), ds)"
    by (simp add: choose_domain_def Let_def GetRandomActiveDomain_def GetActiveDomains_def getCachedActiveDomains_def one_domain_facts)
      (simp add: manual_domain_def)
  have i: "dom_id (manual_domain 1 1 ''b.de'') = 1" by (simp add: manual_domain_def)
  show ?thesis
    by (simp add: create_mailbox_handler_def l p g CreateMailbox_def Let_def mailboxTTLMinutes_def small_site_def small_caller_def f i int4_def new_mailbox_def)
qed

theorem created_mailbox_receives_witness:
  "\<exists>b s' r. create_mailbox_handler (\<lambda>n. n = 0) any_tables 10 10 5 (\<lambda>_. 0) (\<lambda>n. if n = 0 then None else Some 0) small_caller ''bob'' [] small_site
      = (Box_Made b, s')
    \<and> resolveRecipient (\<lambda>n. n) (build_snapshot (\<lambda>n. n) (\<lambda>_. []) 0 \<lparr>is_domains = [(1, ''b.de'')], is_defaultAccountID = 7, is_mailboxTTLMinutes = 30\<rparr>)
        ''bob@b.de'' = Some r \<and> rr_domainID r = mb_domain_id b"
proof -
  let ?loaded = "\<lparr>is_domains = [(1, ''b.de'')], is_defaultAccountID = 7, is_mailboxTTLMinutes = 30\<rparr>"
  have d: "mt_domains small_site = one_domain" by (simp add: small_site_def)
  have ld: "loads_pool ?loaded (mt_domains small_site)" unfolding d loads_pool_def one_domain_facts(2) by (simp add: manual_domain_def)
  obtain b s' where b: "create_mailbox_handler (\<lambda>n. n = 0) any_tables 10 10 5 (\<lambda>_. 0) (\<lambda>n. if n = 0 then None else Some 0) small_caller ''bob'' [] small_site
     = (Box_Made b, s')" "mb_full_address b = ''bob@b.de''" using small_made by blast
  have dr: "\<forall>n i. (if n = 0 then None else Some 0) = Some i \<longrightarrow> i < (n :: nat)" by simp
  show ?thesis
    using created_mailbox_receives [OF _ _ ld dr b(1), of "\<lambda>n. n" "\<lambda>_. []" 0] one_domain_facts(1) one_domain_names b unfolding d by metis
qed

definition watched_site :: mail_site where
  "watched_site = small_site\<lparr>mt_mail := (mt_mail small_site)\<lparr>ml_mailboxes := [new_mailbox 5 7 None ''bob'' 1 ''bob@b.de'' 0 None]\<rparr>\<rparr>"

definition sample_notice :: mailbox_email_event where
  "sample_notice =
     \<lparr>ev_mailbox_id = 5, ev_full_address = ''bob@b.de'',
      ev_email = \<lparr>es_id = 9, es_sender = [], es_subject = ''s'', es_has_attachments = False, es_parsed_code = [], es_parsed_code_source = [],
        es_parsed_link = [], es_parsed_link_source = [], es_size_bytes = 1, es_received_at = 100\<rparr>\<rparr>"

lemma watched_open: "open_stream True False small_caller (Some 5) True watched_site hub_init
    = (Inr \<lparr>st_id = 1, st_frames = [Ready 5], st_open = True\<rparr>, snd (subscribe 5 hub_init))"
  by (simp add: open_stream_def GetMailbox_def find_mailbox_def watched_site_def small_site_def small_caller_def new_mailbox_def owns_def
      subscribe_def hub_init_def)

theorem stream_is_faithful_witness:
  "let w = run (watch_step 5) [Publish sample_notice [1], Stream_Turn (Deliver True)]
      \<lparr>wa_stream = \<lparr>st_id = 1, st_frames = [Ready 5], st_open = True\<rparr>, wa_hub = snd (subscribe 5 hub_init), wa_published = []\<rparr> in
    wa_published w = [sample_notice] \<and> shown (wa_stream w) @ buf (hub_chans (wa_hub w) 1) = wa_published w"
proof -
  let ?w = "\<lparr>wa_stream = \<lparr>st_id = 1, st_frames = [Ready 5], st_open = True\<rparr>, wa_hub = snd (subscribe 5 hub_init), wa_published = []\<rparr>"
  have ev: "ev_mailbox_id sample_notice = 5" by (simp add: sample_notice_def)
  have al: "run_allowed (watch_step 5) watch_allowed [Publish sample_notice [1], Stream_Turn (Deliver True)] ?w"
    by (simp add: subscribe_def hub_init_def)
  have r: "wa_published (run (watch_step 5) [Publish sample_notice [1], Stream_Turn (Deliver True)] ?w) = [sample_notice]"
    "st_open (wa_stream (run (watch_step 5) [Publish sample_notice [1], Stream_Turn (Deliver True)] ?w))"
    "hub_dropped (wa_hub (run (watch_step 5) [Publish sample_notice [1], Stream_Turn (Deliver True)] ?w)) = 0"
    "st_id (wa_stream (run (watch_step 5) [Publish sample_notice [1], Stream_Turn (Deliver True)] ?w)) = 1"
    by (simp_all add: subscribe_def hub_init_def publishEmailEvent_def publish_one_def wants_def try_send_def chan_make_def ev try_recv_def
        write_frame_def take_event_def)
  have z: "hub_dropped hub_init = 0" "(5::uuid) \<noteq> uuid_nil" by (simp_all add: hub_init_def uuid_nil_def)
  show ?thesis using stream_is_faithful [OF hub_init_ok z(2) watched_open al] r z(1) by (simp add: Let_def)
qed

end
