(* ===== verification/Usage_Store.thy ===== *)
theory Usage_Store
  imports Complex_Main Token_Ledger Mailboxes
begin

text \<open>
  The log of API requests and the deferred statistics (\<open>src/api/store/observability.go\<close>): a batch of events is
  inserted in one statement and the requests of unlimited tokens are counted with it, in one transaction; the
  retention of the log, the report over it, and the preview of a cleanup.  A row of \<open>api_request_events\<close> is an event
  without its flag.  \<open>fault\<close> is a failure of the connection.
\<close>

record api_row =
  ev_token :: uuid
  ev_method :: string
  ev_route :: string
  ev_status :: int
  ev_latency :: int
  ev_request_id :: string
  ev_created_at :: time

record api_event = api_row +
  ev_count :: bool

record api_store =
  as_db :: db
  as_rows :: "api_row list"

section \<open>A batch\<close>

definition row_fits :: "('x api_row_scheme) \<Rightarrow> bool" where
  "row_fits e = (varchar 8 (ev_method e) \<and> varchar 160 (ev_route e) \<and> varchar 64 (ev_request_id e))"

definition numbers_fit :: "api_event list \<Rightarrow> bool" where
  "numbers_fit es = list_all (\<lambda>e. int4 (ev_status e) \<and> int4 (ev_latency e)) es"

text \<open>The rows of the insert: \<open>JOIN account_tokens\<close> leaves out the events of tokens that are gone.\<close>

definition event_rows :: "db \<Rightarrow> api_event list \<Rightarrow> api_row list" where
  "event_rows d es = map api_row.truncate (filter (\<lambda>e. ev_token e \<in> set (map tok_id (db_tokens d))) es)"

definition insert_events :: "api_event list \<Rightarrow> api_store \<Rightarrow> (db_error, api_store) result" where
  "insert_events es s =
     (if \<not> numbers_fit es \<or> \<not> list_all row_fits (event_rows (as_db s) es) then Inl OutOfRange
      else Inr (s\<lparr>as_rows := as_rows s @ event_rows (as_db s) es\<rparr>))"

text \<open>Go's zero time is the first of January of the year 1.\<close>

definition go_zero_time :: time where
  "go_zero_time = -62135596800 * second"

record deferred_total =
  dt_count :: int
  dt_last_used_at :: time

definition add_total :: "api_event \<Rightarrow> (uuid \<rightharpoonup> deferred_total) \<Rightarrow> (uuid \<rightharpoonup> deferred_total)" where
  "add_total e totals =
     (let t = (case totals (ev_token e) of None \<Rightarrow> \<lparr>dt_count = 0, dt_last_used_at = go_zero_time\<rparr> | Some t \<Rightarrow> t) in
      totals(ev_token e \<mapsto>
        \<lparr>dt_count = dt_count t + 1,
         dt_last_used_at = (if ev_created_at e > dt_last_used_at t then ev_created_at e else dt_last_used_at t)\<rparr>))"

text \<open>The daily counts are keyed by token and day; the map is listed once it is complete.\<close>

fun bump :: "'k \<Rightarrow> ('k \<times> int) list \<Rightarrow> ('k \<times> int) list" where
  "bump k [] = [(k, 1)]"
| "bump k ((j, n) # xs) = (if j = k then (j, n + 1) # xs else (j, n) # bump k xs)"

definition event_day :: "api_event \<Rightarrow> uuid \<times> int" where
  "event_day e = (ev_token e, usage_day (ev_created_at e))"

definition deferred_totals :: "api_event list \<Rightarrow> (uuid \<rightharpoonup> deferred_total)" where
  "deferred_totals es = fold add_total (filter ev_count es) Map.empty"

definition deferred_days :: "api_event list \<Rightarrow> ((uuid \<times> int) \<times> int) list" where
  "deferred_days es = fold (\<lambda>e. bump (event_day e)) (filter ev_count es) []"

definition charge_token :: "time \<Rightarrow> (uuid \<rightharpoonup> deferred_total) \<Rightarrow> token_row \<Rightarrow> token_row" where
  "charge_token now totals r =
     (case totals (tok_id r) of
        None \<Rightarrow> r
      | Some t \<Rightarrow>
          if tok_revoked_at r \<noteq> None then r
          else r\<lparr>tok_request_count_total := tok_request_count_total r + dt_count t,
                 tok_last_used_at :=
                   (case tok_last_used_at r of
                      None \<Rightarrow> Some (dt_last_used_at t)
                    | Some l \<Rightarrow> if l < dt_last_used_at t then Some (dt_last_used_at t) else Some l),
                 tok_updated_at := now\<rparr>)"

definition add_usage_by :: "int \<Rightarrow> int \<Rightarrow> uuid \<Rightarrow> uuid \<Rightarrow> usage_row list \<Rightarrow> usage_row list" where
  "add_usage_by n day tok acc us =
     (if list_ex (\<lambda>u. us_day u = day \<and> us_token u = tok) us
      then map (\<lambda>u. if us_day u = day \<and> us_token u = tok then u\<lparr>us_count := us_count u + n\<rparr> else u) us
      else us @ [\<lparr>us_day = day, us_token = tok, us_account = acc, us_count = n\<rparr>])"

text \<open>One row of the second statement.  Only a token that is not revoked is counted.\<close>

definition charge_day :: "token_row list \<Rightarrow> (uuid \<times> int) \<times> int \<Rightarrow> usage_row list \<Rightarrow> usage_row list" where
  "charge_day ts item us =
     (case item of ((tok, day), n) \<Rightarrow>
        (case find_row tok_id tok ts of
           None \<Rightarrow> us
         | Some r \<Rightarrow> if tok_revoked_at r \<noteq> None then us else add_usage_by n day tok (tok_account_id r) us))"

text \<open>The daily count of a token is a part of its total, so it fits its column when the total does.\<close>

definition recordDeferredTokenUsage :: "time \<Rightarrow> api_event list \<Rightarrow> db \<Rightarrow> (db_error, db) result" where
  "recordDeferredTokenUsage now es d =
     (let totals = deferred_totals es;
          days = sort_key fst (deferred_days es);
          ts = map (charge_token now totals) (db_tokens d) in
      if \<not> list_all (\<lambda>r. tok_revoked_at r = None \<and> totals (tok_id r) \<noteq> None \<longrightarrow> int8 (tok_request_count_total r)) ts then Inl OutOfRange
      else Inr (d\<lparr>db_tokens := ts, db_usage := fold (charge_day ts) days (db_usage d)\<rparr>))"

definition RecordAPIRequestEvents ::
    "bool \<Rightarrow> time \<Rightarrow> api_event list \<Rightarrow> api_store \<Rightarrow> (db_error, unit) result \<times> api_store" where
  "RecordAPIRequestEvents fault now es s =
     (if es = [] then (Inr (), s)
      else if \<not> list_ex ev_count es then
        run_tx fault (\<lambda>s. rbind (insert_events es s) (\<lambda>s'. Inr ((), s'))) s
      else
        run_tx fault (\<lambda>s. rbind (insert_events es s) (\<lambda>s1.
          rbind (recordDeferredTokenUsage now es (as_db s1)) (\<lambda>d. Inr ((), s1\<lparr>as_db := d\<rparr>)))) s)"

definition one_day :: duration where
  "one_day = 86400 * second"

definition DeleteOldAPIRequestEvents :: "bool \<Rightarrow> time \<Rightarrow> api_store \<Rightarrow> (db_error, unit) result \<times> api_store" where
  "DeleteOldAPIRequestEvents fault now s =
     (if fault then (Inl Fault, s)
      else (Inr (), s\<lparr>as_rows := filter (\<lambda>e. \<not> ev_created_at e < now - 14 * one_day) (as_rows s)\<rparr>))"

section \<open>The report\<close>

text \<open>Averages and percentiles are exact here; the server rounds them to double precision.\<close>

definition average :: "int list \<Rightarrow> rat" where
  "average xs = (if xs = [] then 0 else of_int (sum_list xs) / of_nat (length xs))"

text \<open>\<open>percentile_cont(0.95)\<close>: linear interpolation between the two neighbours of the rank.\<close>

definition percentile95 :: "int list \<Rightarrow> rat" where
  "percentile95 xs0 =
     (let xs = sort xs0; n = length xs; k = 95 * (n - 1) div 100; rest = 95 * (n - 1) mod 100 in
      if n = 0 then 0
      else if rest = 0 then of_int (xs ! k)
      else of_int (xs ! k) + of_nat rest / 100 * of_int (xs ! (k + 1) - xs ! k))"

record usage_summary =
  su_total :: nat
  su_errors :: nat
  su_avg :: rat

definition is_error :: "api_row \<Rightarrow> bool" where
  "is_error e = (400 \<le> ev_status e)"

definition summarize :: "api_row list \<Rightarrow> usage_summary" where
  "summarize es =
     \<lparr>su_total = length es, su_errors = length (filter is_error es), su_avg = average (map ev_latency es)\<rparr>"

definition hour_of :: "api_row \<Rightarrow> int" where
  "hour_of e = ev_created_at e div (3600 * second)"

definition route_of :: "api_row \<Rightarrow> string \<times> string" where
  "route_of e = (ev_method e, ev_route e)"

definition group_by :: "('k list \<Rightarrow> 'k list) \<Rightarrow> (api_row \<Rightarrow> 'k) \<Rightarrow> api_row list \<Rightarrow> ('k \<times> usage_summary) list" where
  "group_by arrange key es =
     map (\<lambda>k. (k, summarize (filter (\<lambda>e. key e = k) es))) (arrange (remdups (map key es)))"

record usage_report =
  ur_hours :: int
  ur_summary :: usage_summary
  ur_p95 :: rat
  ur_buckets :: "(int \<times> usage_summary) list"
  ur_routes :: "((string \<times> string) \<times> usage_summary) list"
  ur_errors :: "(string \<times> api_row) list"

definition report_hours :: "int \<Rightarrow> int" where
  "report_hours h = (if h < 1 then 24 else if h > 24 * 14 then 24 * 14 else h)"

definition token_label :: "token_row \<Rightarrow> string" where
  "token_label r = (if tok_name r = [] then tok_prefix r else tok_name r)"

definition error_line :: "token_row list \<Rightarrow> api_row \<Rightarrow> (string \<times> api_row) list" where
  "error_line ts e = (case find_row tok_id (ev_token e) ts of None \<Rightarrow> [] | Some r \<Rightarrow> [(token_label r, e)])"

text \<open>\<open>tie\<close> orders the groups, and \<open>recent\<close> the errors of one time, where the statement does not.  The four
  statements see the same rows.\<close>

definition GetAPIUsageReport ::
    "bool \<Rightarrow> ((string \<times> string) list \<Rightarrow> (string \<times> string) list) \<Rightarrow> (api_row list \<Rightarrow> api_row list) \<Rightarrow> time \<Rightarrow> int \<Rightarrow> api_store
     \<Rightarrow> (db_error, usage_report) result" where
  "GetAPIUsageReport fault tie recent now hours0 s =
     (let hours = report_hours hours0;
          es = filter (\<lambda>e. now - hours * (3600 * second) \<le> ev_created_at e) (as_rows s) in
      if fault then Inl Fault
      else Inr \<lparr>ur_hours = hours, ur_summary = summarize es, ur_p95 = percentile95 (map ev_latency es),
                ur_buckets = group_by sort hour_of es,
                ur_routes = take 12 (rev (sort_key (\<lambda>g. su_total (snd g)) (group_by tie route_of es))),
                ur_errors = take 20 (concat (map (error_line (db_tokens (as_db s)))
                  (rev (sort_key ev_created_at (recent (filter is_error es))))))\<rparr>)"

section \<open>The preview of a cleanup\<close>

record maintenance_preview =
  mp_expired :: nat
  mp_empty :: nat
  mp_old :: nat
  mp_bytes :: int
  mp_minutes :: int

definition preview_minutes :: "int \<Rightarrow> int" where
  "preview_minutes m = (if m < 1 then 240 else if m > 525600 then 525600 else m)"

definition PreviewMaintenance :: "bool \<Rightarrow> time \<Rightarrow> int \<Rightarrow> mail_store \<Rightarrow> (db_error, maintenance_preview) result" where
  "PreviewMaintenance fault now m0 s =
     (let m = preview_minutes m0; old = filter (\<lambda>e. em_received_at e < now - m * minute) (ml_emails s) in
      if fault then Inl Fault
      else Inr \<lparr>mp_expired = length (filter (expired now) (ml_mailboxes s)),
                mp_empty = length (filter (\<lambda>b. \<not> mb_keep_forever b \<and> mail_of (mb_id b) (ml_emails s) = []) (ml_mailboxes s)),
                mp_old = length old, mp_bytes = sum_rows em_size_bytes old, mp_minutes = m\<rparr>)"

end
