(* ===== verification/Usage_Promises.thy ===== *)
theory Usage_Promises
  imports Usage_Store "HOL-Library.Multiset"
begin

text \<open>
  What the deferred statistics promise: a batch adds to every token that is not revoked exactly the number of its
  counted events, in its total and on the day of each, keeps the books, and so does what the immediate
  recording of each event would have done.
\<close>

section \<open>The aggregation of a batch\<close>

definition deferred :: "api_event list \<Rightarrow> uuid \<Rightarrow> int" where
  "deferred es t = int (length (filter (\<lambda>e. ev_count e \<and> ev_token e = t) es))"

definition deferred_on :: "api_event list \<Rightarrow> uuid \<Rightarrow> int \<Rightarrow> int" where
  "deferred_on es t d = int (length (filter (\<lambda>e. ev_count e \<and> event_day e = (t, d)) es))"

lemma deferred_simps [simp]:
  "deferred [] t = 0"
  "deferred (e # es) t = (if ev_count e \<and> ev_token e = t then 1 else 0) + deferred es t"
  "deferred (es @ fs) t = deferred es t + deferred fs t"
  by (simp_all add: deferred_def)

lemma deferred_nonneg [simp]: "0 \<le> deferred es t"
  by (simp add: deferred_def)

definition total_count :: "(uuid \<rightharpoonup> deferred_total) \<Rightarrow> uuid \<Rightarrow> int" where
  "total_count m t = (case m t of None \<Rightarrow> 0 | Some x \<Rightarrow> dt_count x)"

lemma total_count_add: "total_count (add_total e m) t = total_count m t + (if ev_token e = t then 1 else 0)"
  by (simp add: total_count_def add_total_def Let_def split: option.splits)

lemma total_count_fold: "total_count (fold add_total (filter ev_count es) m) t = total_count m t + deferred es t"
  by (induction es arbitrary: m) (simp_all add: total_count_add)

lemma deferred_totals_count: "total_count (deferred_totals es) t = deferred es t"
  by (simp add: deferred_totals_def total_count_fold) (simp add: total_count_def)

lemma charge_token_simps [simp]:
  "tok_id (charge_token now m r) = tok_id r" "tok_kind (charge_token now m r) = tok_kind r"
  "tok_revoked_at (charge_token now m r) = tok_revoked_at r" "tr_hash (charge_token now m r) = tr_hash r"
  "tok_account_id (charge_token now m r) = tok_account_id r" "tok_expires_at (charge_token now m r) = tok_expires_at r"
  "tok_total_request_limit (charge_token now m r) = tok_total_request_limit r"
  "tok_daily_request_limit (charge_token now m r) = tok_daily_request_limit r"
  "tok_rate_limit_per_minute (charge_token now m r) = tok_rate_limit_per_minute r"
  "tok_request_count_total (charge_token now m r) =
     tok_request_count_total r + (if tok_revoked_at r = None then total_count m (tok_id r) else 0)"
  by (simp_all add: charge_token_def total_count_def split: option.splits)

definition assoc_count :: "'k \<Rightarrow> ('k \<times> int) list \<Rightarrow> int" where
  "assoc_count k xs = sum_rows (\<lambda>p. if fst p = k then snd p else 0) xs"

lemma assoc_count_bump: "assoc_count k (bump j xs) = assoc_count k xs + (if j = k then 1 else 0)"
  by (induction xs) (auto simp: assoc_count_def)

lemma assoc_count_fold:
  "assoc_count (t, d) (fold (\<lambda>e. bump (event_day e)) (filter ev_count es) xs) = assoc_count (t, d) xs + deferred_on es t d"
  by (induction es arbitrary: xs) (auto simp: assoc_count_bump deferred_on_def)

lemma deferred_days_count: "assoc_count (t, d) (deferred_days es) = deferred_on es t d"
  by (simp add: deferred_days_def assoc_count_fold) (simp add: assoc_count_def)

lemma sum_rows_mset: "mset xs = mset ys \<Longrightarrow> sum_rows f xs = sum_rows f ys"
  unfolding sum_rows_def by (metis mset_map sum_mset_sum_list)

lemma sorted_days_count: "assoc_count k (sort_key f xs) = assoc_count k xs"
  unfolding assoc_count_def by (rule sum_rows_mset) simp

text \<open>Over all its days a token has its total.\<close>

lemma sum_bump: "sum_rows (\<lambda>p. if fst (fst p) = t then snd p else 0) (bump k xs)
    = sum_rows (\<lambda>p. if fst (fst p) = t then snd p else 0) xs + (if fst k = t then 1 else (0 :: int))"
  by (induction xs) auto

lemma days_sum_fold: "sum_rows (\<lambda>p. if fst (fst p) = t then snd p else 0) (fold (\<lambda>e. bump (event_day e)) (filter ev_count es) xs)
    = sum_rows (\<lambda>p. if fst (fst p) = t then snd p else 0) xs + deferred es t"
  by (induction es arbitrary: xs) (simp_all add: sum_bump event_day_def)

lemma days_sum: "sum_rows (\<lambda>p. if fst (fst p) = t then snd p else 0) (sort_key f (deferred_days es)) = deferred es t"
proof -
  have "sum_rows (\<lambda>p. if fst (fst p) = t then snd p else 0) (sort_key f (deferred_days es)) = sum_rows (\<lambda>p. if fst (fst p) = t then snd p else 0) (deferred_days es)"
    by (rule sum_rows_mset) simp
  then show ?thesis using days_sum_fold [of t es "[]"] by (simp add: deferred_days_def)
qed

section \<open>The daily rows\<close>

definition usage_on :: "int \<Rightarrow> uuid \<Rightarrow> usage_row list \<Rightarrow> int" where
  "usage_on d t us = sum_rows (\<lambda>u. if usage_key u = (d, t) then us_count u else 0) us"

lemma add_usage_one: "add_usage_by 1 = add_usage"
  by (intro ext) (simp add: add_usage_by_def add_usage_def)

lemma add_usage_by_map_sum:
  "distinct (map usage_key us) \<Longrightarrow> list_ex (\<lambda>u. us_day u = d \<and> us_token u = t) us \<Longrightarrow>
   sum_rows (\<lambda>u. if P (usage_key u) then us_count u else 0)
     (map (\<lambda>u. if us_day u = d \<and> us_token u = t then u\<lparr>us_count := us_count u + n\<rparr> else u) us)
   = sum_rows (\<lambda>u. if P (usage_key u) then us_count u else 0) us + (if P (d, t) then n else 0)"
proof (induction us)
  case (Cons u us)
  show ?case
  proof (cases "us_day u = d \<and> us_token u = t")
    case True
    then have "map (\<lambda>u. if us_day u = d \<and> us_token u = t then u\<lparr>us_count := us_count u + n\<rparr> else u) us = us"
      using Cons.prems(1) by (intro map_idI) (auto simp: usage_key_def image_iff)
    then show ?thesis using True by (simp add: usage_key_def)
  next
    case False
    then show ?thesis using Cons by (auto simp: usage_key_def)
  qed
qed simp

lemma add_usage_by_sum:
  "distinct (map usage_key us) \<Longrightarrow>
   sum_rows (\<lambda>u. if P (usage_key u) then us_count u else 0) (add_usage_by n d t acc us)
   = sum_rows (\<lambda>u. if P (usage_key u) then us_count u else 0) us + (if P (d, t) then n else 0)"
  using add_usage_by_map_sum [of us d t P n]
  by (cases "list_ex (\<lambda>u. us_day u = d \<and> us_token u = t) us") (simp_all add: add_usage_by_def usage_key_def)

lemma add_usage_by_keys: "map usage_key (add_usage_by n d t acc us) = map usage_key (add_usage d t acc us)"
  by (simp add: add_usage_by_def add_usage_def usage_key_def)

lemma add_usage_by_distinct: "distinct (map usage_key us) \<Longrightarrow> distinct (map usage_key (add_usage_by n d t acc us))"
  unfolding add_usage_by_keys by (rule add_usage_distinct)

lemma add_usage_by_tokens: "u \<in> set (add_usage_by n d t acc us) \<Longrightarrow> us_token u = t \<or> us_token u \<in> us_token ` set us"
  by (auto simp: add_usage_by_def split: if_splits)

definition counted :: "token_row list \<Rightarrow> uuid \<Rightarrow> bool" where
  "counted ts t = (case find_row tok_id t ts of None \<Rightarrow> False | Some r \<Rightarrow> tok_revoked_at r = None)"

lemma charge_day_cases:
  "charge_day ts ((t, d), n) us = (if counted ts t then add_usage_by n d t (tok_account_id (the (find_row tok_id t ts))) us else us)"
  by (simp add: charge_day_def counted_def split: option.splits)

lemma charge_day_keeps:
  "distinct (map usage_key us) \<Longrightarrow> distinct (map usage_key (charge_day ts item us))"
  by (cases item; cases "fst item") (simp add: charge_day_cases add_usage_by_distinct)

lemma charge_days_sum:
  "distinct (map usage_key us) \<Longrightarrow>
   sum_rows (\<lambda>u. if P (usage_key u) then us_count u else 0) (fold (charge_day ts) items us)
   = sum_rows (\<lambda>u. if P (usage_key u) then us_count u else 0) us
     + sum_rows (\<lambda>p. if counted ts (fst (fst p)) \<and> P (snd (fst p), fst (fst p)) then snd p else 0) items"
proof (induction items arbitrary: us)
  case (Cons item items)
  obtain t d n where item: "item = ((t, d), n)" by (metis prod.exhaust)
  show ?case
    using Cons.IH [OF charge_day_keeps [OF Cons.prems, of ts item]] add_usage_by_sum [OF Cons.prems, of P n d t]
    by (simp add: item charge_day_cases)
qed simp

lemma charge_days_distinct: "distinct (map usage_key us) \<Longrightarrow> distinct (map usage_key (fold (charge_day ts) items us))"
  by (induction items arbitrary: us) (simp_all add: charge_day_keeps)

lemma charge_days_tokens:
  "\<forall>u \<in> set us. us_token u \<in> tok_id ` set ts \<Longrightarrow> \<forall>u \<in> set (fold (charge_day ts) items us). us_token u \<in> tok_id ` set ts"
proof (induction items arbitrary: us)
  case (Cons item items)
  obtain t d n where item: "item = ((t, d), n)" by (metis prod.exhaust)
  have "counted ts t \<Longrightarrow> t \<in> tok_id ` set ts"
    using find_row_Some [of tok_id t ts] by (auto simp: counted_def split: option.splits)
  moreover have "us_token u = t \<or> us_token u \<in> us_token ` set us" if "u \<in> set (add_usage_by n d t acc us)" for u acc
    by (rule add_usage_by_tokens [OF that])
  ultimately have "\<forall>u \<in> set (charge_day ts item us). us_token u \<in> tok_id ` set ts"
    unfolding item charge_day_cases using Cons.prems by (cases "counted ts t") fastforce+
  then show ?case using Cons.IH by simp
qed simp

section \<open>A batch keeps the books\<close>

lemma find_row_map: "(\<And>r. key (f r) = key r) \<Longrightarrow> find_row key k (map f rows) = map_option f (find_row key k rows)"
  by (induction rows) (auto simp: find_row_def)

lemma mapped_tokens_ok:
  assumes ts: "db_tokens d' = map f (db_tokens d)" and same: "db_donations d' = db_donations d" "db_events d' = db_events d"
    and k: "\<And>r. tok_id (f r) = tok_id r" "\<And>r. tok_kind (f r) = tok_kind r"
    and lim: "\<And>r. tok_total_request_limit (f r) = tok_total_request_limit r"
      "\<And>r. tok_daily_request_limit (f r) = tok_daily_request_limit r"
      "\<And>r. tok_rate_limit_per_minute (f r) = tok_rate_limit_per_minute r"
    and ok: "donations_ok d"
  shows "donations_ok d'"
proof -
  have o: "tables_ok d" "ledger_ok d" "limits_ok d" using ok by (simp_all add: donations_ok_def)
  have ex: "donation_token_exists d' t = donation_token_exists d t" for t
    by (cases "find_row tok_id t (db_tokens d)")
      (simp_all add: donation_token_exists_def ts find_row_map [where key = tok_id, OF k(1)] is_donation_token_def k(2))
  have ids: "map tok_id (db_tokens d') = map tok_id (db_tokens d)" by (simp add: ts k(1))
  have "tables_ok d'" using o(1) unfolding tables_ok_def ex keys_distinct_def ids same .
  moreover have "ledger_ok d'" using o(2) unfolding ledger_ok_def ledger_row_def ledger_sum_def same .
  moreover have "limits_row d' q = limits_row d q" for q by (rule limits_row_frame) (simp_all add: active_sum_def manual_sum_def same)
  then have "limits_ok d'" using o(3) by (auto simp: limits_ok_def ts limits_row_def is_donation_token_def k lim)
  ultimately show ?thesis by (simp add: donations_ok_def)
qed

definition charges_of :: "db \<Rightarrow> (uuid \<times> time option \<times> int) list" where
  "charges_of d = map (\<lambda>r. (tok_id r, tok_revoked_at r, tok_request_count_total r)) (db_tokens d)"

definition charged :: "api_event list \<Rightarrow> uuid \<times> time option \<times> int \<Rightarrow> uuid \<times> time option \<times> int" where
  "charged es c = (case c of (t, gone, n) \<Rightarrow> (t, gone, n + (if gone = None then deferred es t else 0)))"

text \<open>\<open>charged_by es d d'\<close>: \<open>d'\<close> is \<open>d\<close> with the counted events of \<open>es\<close> added to its statistics, and the books in order.\<close>

definition charged_by :: "api_event list \<Rightarrow> db \<Rightarrow> db \<Rightarrow> bool" where
  "charged_by es d d' =
     (store_ok d' \<and> charges_of d' = map (charged es) (charges_of d)
      \<and> (\<forall>t k. usage_on k t (db_usage d') = usage_on k t (db_usage d) + (if counted (db_tokens d) t then deferred_on es t k else 0)))"

lemma counted_map: "counted (map (charge_token now m) ts) t = counted ts t"
  by (simp add: counted_def find_row_map split: option.split)

lemma usage_sum_alt: "usage_sum t d = sum_rows (\<lambda>u. if snd (usage_key u) = t then us_count u else 0) (db_usage d)"
  by (simp add: usage_sum_def usage_key_def)

lemma counted_row: "store_ok d \<Longrightarrow> r \<in> set (db_tokens d) \<Longrightarrow> counted (db_tokens d) (tok_id r) = (tok_revoked_at r = None)"
  using find_row_unique [of tok_id "db_tokens d" r] by (simp add: counted_def store_ok_def donations_ok_def tables_ok_def)

lemma sum_rows_guard:
  "(\<And>p. g p = t \<Longrightarrow> c p = b) \<Longrightarrow>
   sum_rows (\<lambda>p. if c p \<and> g p = t then h p else 0) xs = (if b then sum_rows (\<lambda>p. if g p = t then h p else 0) xs else 0)"
  by (induction xs) auto

lemma recordDeferred_charges:
  assumes rd: "recordDeferredTokenUsage now es d = Inr d'" and ok: "store_ok d"
  shows "charged_by es d d'"
proof -
  define ts where "ts = map (charge_token now (deferred_totals es)) (db_tokens d)"
  define items where "items = sort_key fst (deferred_days es)"
  have d': "d' = d\<lparr>db_tokens := ts, db_usage := fold (charge_day ts) items (db_usage d)\<rparr>"
    using rd by (auto simp: recordDeferredTokenUsage_def Let_def ts_def items_def split: if_splits)
  have u: "distinct (map usage_key (db_usage d))" "\<forall>w \<in> set (db_usage d). us_token w \<in> tok_id ` set (db_tokens d)"
      "\<forall>r \<in> set (db_tokens d). usage_sum (tok_id r) d = tok_request_count_total r"
    using ok by (auto simp: store_ok_def usage_ok_def)
  have ids: "tok_id ` set ts = tok_id ` set (db_tokens d)" by (simp add: ts_def image_image)
  have dn: "donations_ok d'"
    by (rule mapped_tokens_ok [of d' "charge_token now (deferred_totals es)" d]) (use ok in \<open>simp_all add: d' ts_def store_ok_def\<close>)
  have hs: "hashes_ok d'" using ok by (simp add: store_ok_def hashes_ok_def keys_distinct_def d' ts_def comp_def)
  have sums: "usage_sum t d' = usage_sum t d + (if counted (db_tokens d) t then deferred es t else 0)" for t
  proof -
    have "usage_sum t d' = usage_sum t d + sum_rows (\<lambda>p. if counted ts (fst (fst p)) \<and> fst (fst p) = t then snd p else 0) items"
      unfolding usage_sum_alt d' using charge_days_sum [OF u(1), of "\<lambda>k. snd k = t" ts items] by simp
    moreover have "sum_rows (\<lambda>p. if counted ts (fst (fst p)) \<and> fst (fst p) = t then snd p else 0) items
        = (if counted ts t then deferred es t else 0)"
      by (subst sum_rows_guard [where b = "counted ts t"]) (simp_all add: items_def days_sum)
    ultimately show ?thesis by (simp add: ts_def counted_map)
  qed
  have "usage_sum (tok_id q) d' = tok_request_count_total q" if q: "q \<in> set ts" for q
  proof -
    obtain r where r: "r \<in> set (db_tokens d)" "q = charge_token now (deferred_totals es) r" using q by (auto simp: ts_def)
    then show ?thesis using u(3) counted_row [OF ok r(1)] by (simp add: sums deferred_totals_count)
  qed
  then have "usage_ok d'"
    using charge_days_distinct [OF u(1)] charge_days_tokens [of "db_usage d" ts] u(2) ids by (simp add: usage_ok_def d')
  then have st: "store_ok d'" using dn hs by (simp add: store_ok_def)
  have ch: "charges_of d' = map (charged es) (charges_of d)"
    by (simp add: charges_of_def charged_def d' ts_def deferred_totals_count)
  have "usage_on k t (db_usage d') = usage_on k t (db_usage d) + (if counted (db_tokens d) t then deferred_on es t k else 0)" for t k
  proof -
    have "usage_on k t (db_usage d') = usage_on k t (db_usage d)
        + sum_rows (\<lambda>p. if counted ts (fst (fst p)) \<and> (snd (fst p), fst (fst p)) = (k, t) then snd p else 0) items"
      unfolding usage_on_def d' using charge_days_sum [OF u(1), of "\<lambda>x. x = (k, t)" ts items] by simp
    also have "sum_rows (\<lambda>p. if counted ts (fst (fst p)) \<and> (snd (fst p), fst (fst p)) = (k, t) then snd p else 0) items
        = sum_rows (\<lambda>p. if counted ts (fst (fst p)) \<and> fst p = (t, k) then snd p else 0) items"
      by (rule sum_rows_cong) auto
    also have "\<dots> = (if counted ts t then assoc_count (t, k) items else 0)"
      by (subst sum_rows_guard [where b = "counted ts t"]) (auto simp: assoc_count_def)
    finally show ?thesis by (simp add: items_def sorted_days_count deferred_days_count ts_def counted_map)
  qed
  then show ?thesis using st ch by (simp add: charged_by_def)
qed

lemma deferred_none: "\<not> list_ex ev_count es \<Longrightarrow> deferred es t = 0 \<and> deferred_on es t d = 0"
  by (induction es) (auto simp: deferred_on_def)

lemma charged_none:
  assumes "\<not> list_ex ev_count es" "store_ok d" shows "charged_by es d d"
proof -
  have "charged es = id" using deferred_none [OF assms(1)] by (auto simp: charged_def fun_eq_iff)
  then show ?thesis using assms(2) deferred_none [OF assms(1)] by (simp add: charged_by_def)
qed

lemma RecordAPIRequestEvents_Inr:
  assumes rc: "RecordAPIRequestEvents fault now es s = (Inr u, s')" and ok: "store_ok (as_db s)"
  shows "charged_by es (as_db s) (as_db s') \<and> as_rows s' = as_rows s @ event_rows (as_db s) es"
proof -
  consider (empty) "es = []" | (plain) "es \<noteq> []" "\<not> list_ex ev_count es" | (deferred) "es \<noteq> []" "list_ex ev_count es" by blast
  then show ?thesis
  proof cases
    case empty
    then show ?thesis using rc ok charged_none [of es] by (simp add: RecordAPIRequestEvents_def event_rows_def)
  next
    case plain
    then have "s' = s\<lparr>as_rows := as_rows s @ event_rows (as_db s) es\<rparr>"
      using rc by (auto simp: RecordAPIRequestEvents_def run_tx_ok rbind_Inr_iff insert_events_def split: if_splits)
    then show ?thesis using charged_none [OF plain(2) ok] by simp
  next
    case deferred
    then obtain d where "recordDeferredTokenUsage now es (as_db s) = Inr d"
        "s' = s\<lparr>as_rows := as_rows s @ event_rows (as_db s) es, as_db := d\<rparr>"
      using rc by (auto simp: RecordAPIRequestEvents_def run_tx_ok rbind_Inr_iff insert_events_def split: if_splits)
    then show ?thesis using recordDeferred_charges [OF _ ok] by simp
  qed
qed

lemma RecordAPIRequestEvents_Inl: "RecordAPIRequestEvents fault now es s = (Inl e, s') \<Longrightarrow> s' = s"
  by (auto simp: RecordAPIRequestEvents_def run_tx_def split: if_splits sum.splits)

section \<open>One at a time\<close>

text \<open>The same events recorded as they happen, as the middleware does for tokens it does not defer.\<close>

definition record_now :: "api_event \<Rightarrow> db \<Rightarrow> db" where
  "record_now e d = (if ev_count e then snd (RecordTokenUsage False (ev_created_at e) (ev_token e) d) else d)"

definition headroom :: "api_event list \<Rightarrow> db \<Rightarrow> bool" where
  "headroom es d =
     list_all (\<lambda>r. 0 \<le> tok_request_count_total r
                 \<and> (tok_revoked_at r = None \<longrightarrow> tok_request_count_total r + deferred es (tok_id r) < 2 ^ 63)) (db_tokens d)"

lemma usage_on_add: "distinct (map usage_key us) \<Longrightarrow> usage_on k t (add_usage j i acc us) = usage_on k t us + (if (j, i) = (k, t) then 1 else 0)"
  using add_usage_by_sum [of us "\<lambda>x. x = (k, t)" 1 j i acc] by (simp add: add_usage_one usage_on_def)

lemma RecordTokenUsage_cases:
  assumes ok: "store_ok d"
  shows "RecordTokenUsage fault now i d = (Inl e, d') \<Longrightarrow> d' = d"
    and "RecordTokenUsage fault now i d = (Inr u, d') \<Longrightarrow>
      d' = (if counted (db_tokens d) i then record_request now (the (find_row tok_id i (db_tokens d))) d else d)"
  by (auto simp: RecordTokenUsage_def run_tx_def counted_def split: if_splits option.splits)

lemma record_request_charged:
  assumes ok: "store_ok d" and c: "counted (db_tokens d) (ev_token e)" and ev: "ev_count e"
  shows "charged_by [e] d (record_request (ev_created_at e) (the (find_row tok_id (ev_token e) (db_tokens d))) d)"
proof -
  obtain r where r: "find_row tok_id (ev_token e) (db_tokens d) = Some r" "tok_revoked_at r = None"
    using c by (auto simp: counted_def split: option.splits)
  have id: "tok_id r = ev_token e" using find_row_Some [OF r(1)] by simp
  let ?d = "record_request (ev_created_at e) r d"
  have dis: "distinct (map usage_key (db_usage d))" and kd: "keys_distinct tok_id (db_tokens d)"
    using ok by (simp_all add: store_ok_def usage_ok_def donations_ok_def tables_ok_def)
  have one: "q = r" if "q \<in> set (db_tokens d)" "tok_id q = ev_token e" for q
    using find_row_unique [OF kd that(1)] r(1) that(2) by simp
  have "charges_of ?d = map (charged [e]) (charges_of d)"
    using one r(2) ev by (auto simp: charges_of_def charged_def record_request_def update_row_def id)
  moreover have "usage_on k t (db_usage ?d) = usage_on k t (db_usage d) + (if counted (db_tokens d) t then deferred_on [e] t k else 0)" for k t
    using c ev usage_on_add [OF dis, of k t "usage_day (ev_created_at e)" "ev_token e" "tok_account_id r"]
    by (auto simp: record_request_def id deferred_on_def event_day_def)
  ultimately show ?thesis using record_request_ok [OF ok r(1)] r(1) by (simp add: charged_by_def)
qed

lemma charged_uncounted:
  assumes ok: "store_ok d" and n: "\<not> (ev_count e \<and> counted (db_tokens d) (ev_token e))"
  shows "charged_by [e] d d"
proof -
  have "charged [e] (tok_id r, tok_revoked_at r, tok_request_count_total r) = (tok_id r, tok_revoked_at r, tok_request_count_total r)"
    if "r \<in> set (db_tokens d)" for r
    using n counted_row [OF ok that] by (auto simp: charged_def)
  then have "map (charged [e]) (charges_of d) = charges_of d" by (simp add: charges_of_def)
  then show ?thesis using ok n by (auto simp: charged_by_def deferred_on_def event_day_def)
qed

lemma counted_charges: "counted (db_tokens d) t = (case find (\<lambda>c. fst c = t) (charges_of d) of None \<Rightarrow> False | Some c \<Rightarrow> fst (snd c) = None)"
proof -
  have "find (\<lambda>c. fst c = t) (map (\<lambda>r. (tok_id r, tok_revoked_at r, tok_request_count_total r)) ts)
      = map_option (\<lambda>r. (tok_id r, tok_revoked_at r, tok_request_count_total r)) (find_row tok_id t ts)" for ts :: "token_row list"
    by (induction ts) (auto simp: find_row_def)
  then show ?thesis by (simp add: counted_def charges_of_def split: option.split)
qed

lemma find_map_fst: "(\<And>c. fst (f c) = fst c) \<Longrightarrow> find (\<lambda>c. fst c = t) (map f cs) = map_option f (find (\<lambda>c. fst c = t) cs)"
  by (induction cs) auto

lemma fst_charged [simp]: "fst (charged es c) = fst c" "fst (snd (charged es c)) = fst (snd c)"
  by (simp_all add: charged_def split: prod.split)

lemma charged_counted: "charged_by es d d' \<Longrightarrow> counted (db_tokens d') t = counted (db_tokens d) t"
  unfolding counted_charges by (cases "find (\<lambda>c. fst c = t) (charges_of d)") (simp_all add: charged_by_def find_map_fst)

lemma charged_trans:
  assumes a: "charged_by es d d1" and b: "charged_by fs d1 d2"
  shows "charged_by (es @ fs) d d2"
proof -
  have "charged fs (charged es c) = charged (es @ fs) c" for c by (cases c) (simp add: charged_def)
  then show ?thesis using a b charged_counted [OF a] by (auto simp: charged_by_def deferred_on_def comp_def)
qed

lemma headroom_charged:
  assumes h: "headroom (es @ fs) d" and c: "charged_by es d d1" shows "headroom fs d1"
proof -
  have hc: "headroom gs b = list_all (\<lambda>c. 0 \<le> snd (snd c) \<and> (fst (snd c) = None \<longrightarrow> snd (snd c) + deferred gs (fst c) < 2 ^ 63)) (charges_of b)" for gs b
    by (simp add: headroom_def charges_of_def list_all_iff)
  have "0 \<le> snd (snd (charged es c)) \<and> (fst (snd c) = None \<longrightarrow> snd (snd (charged es c)) + deferred fs (fst c) < 2 ^ 63)"
    if "c \<in> set (charges_of d)" for c
    using h that deferred_nonneg [of es "fst c"] unfolding hc by (auto simp: charged_def list_all_iff split: prod.split)
  then show ?thesis using c unfolding hc by (simp add: charged_by_def list_all_iff)
qed

lemma charged_mset: "mset es = mset fs \<Longrightarrow> charged_by es d d' \<Longrightarrow> charged_by fs d d'"
proof -
  assume m: "mset es = mset fs" and c: "charged_by es d d'"
  have len: "length (filter P es) = length (filter P fs)" for P using m by (metis mset_filter size_mset)
  have "charged es = charged fs" by (simp add: charged_def fun_eq_iff deferred_def len)
  then show ?thesis using c by (simp add: charged_by_def deferred_on_def len)
qed

lemma RecordAPIRequestEvents_succeeds:
  assumes fit: "numbers_fit es" "list_all row_fits es" and h: "headroom es (as_db s)"
  shows "\<exists>s'. RecordAPIRequestEvents False now es s = (Inr (), s')"
proof -
  have rows: "list_all row_fits (event_rows (as_db s) es)"
    using fit(2) by (auto simp: event_rows_def list_all_iff row_fits_def api_row.truncate_def)
  have ins: "insert_events es s = Inr (s\<lparr>as_rows := as_rows s @ event_rows (as_db s) es\<rparr>)"
    using fit(1) rows by (simp add: insert_events_def)
  have int8s: "int8 (tok_request_count_total r + deferred es (tok_id r))" if "r \<in> set (db_tokens (as_db s))" "tok_revoked_at r = None" for r
  proof -
    have "0 \<le> tok_request_count_total r" "tok_request_count_total r + deferred es (tok_id r) < 2 ^ 63"
      using h that by (simp_all add: headroom_def list_all_iff)
    then show ?thesis unfolding int8_def using deferred_nonneg [of es "tok_id r"] by linarith
  qed
  show ?thesis
  proof (cases "list_ex ev_count es")
    case True
    then show ?thesis
      using int8s by (auto simp: RecordAPIRequestEvents_def ins run_tx_def recordDeferredTokenUsage_def Let_def list_all_iff
          deferred_totals_count)
  next
    case False
    then show ?thesis by (auto simp: RecordAPIRequestEvents_def ins run_tx_def)
  qed
qed

lemma record_now_charged:
  assumes ok: "store_ok d" and h: "headroom (e # es) d"
  shows "charged_by [e] d (record_now e d)"
proof (cases "ev_count e \<and> counted (db_tokens d) (ev_token e)")
  case True
  then obtain r where r: "find_row tok_id (ev_token e) (db_tokens d) = Some r" "tok_revoked_at r = None"
    by (auto simp: counted_def split: option.splits)
  have "0 \<le> tok_request_count_total r \<and> tok_request_count_total r + (1 + deferred es (ev_token e)) < 2 ^ 63"
    using h True r(2) find_row_Some [OF r(1)] by (auto simp: headroom_def list_all_iff)
  then have "int8 (tok_request_count_total r + 1)"
    unfolding int8_def using deferred_nonneg [of es "ev_token e"] by linarith
  then have "record_now e d = record_request (ev_created_at e) r d"
    using True r by (simp add: record_now_def RecordTokenUsage_def run_tx_def)
  then show ?thesis using record_request_charged [OF ok, of e] True r(1) by simp
next
  case False
  then have "record_now e d = d"
    by (auto simp: record_now_def RecordTokenUsage_def run_tx_def counted_def split: option.splits if_splits)
  then show ?thesis using charged_uncounted [OF ok] False by simp
qed

lemma record_each_charged: "store_ok d \<Longrightarrow> headroom es d \<Longrightarrow> charged_by es d (fold record_now es d)"
proof (induction es arbitrary: d)
  case Nil
  then show ?case using charged_none [of "[]"] by simp
next
  case (Cons e es)
  have c: "charged_by [e] d (record_now e d)" by (rule record_now_charged [OF Cons.prems])
  then have "charged_by es (record_now e d) (fold record_now es (record_now e d))"
    using Cons.IH headroom_charged [of "[e]" es] Cons.prems(2) c by (simp add: charged_by_def)
  then show ?case using charged_trans [OF c] by simp
qed

lemma charged_same:
  assumes "charged_by es d d1" "charged_by es d d2"
  shows "charges_of d1 = charges_of d2 \<and> (\<forall>t k. usage_on k t (db_usage d1) = usage_on k t (db_usage d2))"
  using assms by (simp add: charged_by_def)

section \<open>Properties\<close>

text \<open>C17. Deferred statistics are exact: a batch of events that is written leaves the same totals and the same
  daily counts as recording each counted event by itself at its time, as the middleware does for the tokens whose
  requests it does not defer; both keep the books of the store.  This holds from a store whose books are right, as long as no total is
  negative and no token that is not revoked has so high a total that its own counted events of the batch take it out of its 64-bit column
  (there the batch fails as a whole, while single records fail one by one).\<close>

theorem deferred_equals_immediate:
  assumes ok: "store_ok (as_db s)" and room: "headroom es (as_db s)"
    and batch: "RecordAPIRequestEvents fault now es s = (Inr u, s')"
  shows "charges_of (as_db s') = charges_of (fold record_now es (as_db s))
       \<and> (\<forall>t k. usage_on k t (db_usage (as_db s')) = usage_on k t (db_usage (fold record_now es (as_db s))))
       \<and> store_ok (as_db s') \<and> store_ok (fold record_now es (as_db s))"
proof -
  have a: "charged_by es (as_db s) (as_db s')" using RecordAPIRequestEvents_Inr [OF batch ok] by blast
  note b = record_each_charged [OF ok room]
  show ?thesis using charged_same [OF a b] a b by (simp add: charged_by_def)
qed

definition sample_event :: "uuid \<Rightarrow> bool \<Rightarrow> api_event" where
  "sample_event t c =
     \<lparr>ev_token = t, ev_method = ''GET'', ev_route = ''/api'', ev_status = 200, ev_latency = 3, ev_request_id = ''r'',
      ev_created_at = 5 * second, ev_count = c\<rparr>"

definition sample_token :: token_row where
  "sample_token =
     \<lparr>tok_id = 7, tok_account_id = 3, tok_name = ''t'', tok_prefix = ''p'', tok_scope = ''owner'', tok_is_primary = False,
      tok_kind = ''standard'', tok_rate_limit_per_minute = 0, tok_daily_request_limit = 0, tok_total_request_limit = 0,
      tok_request_count_total = 0, tok_last_used_at = None, tok_expires_at = None, tok_revoked_at = None,
      tok_created_at = 0, tok_updated_at = 0, tr_hash = ''h''\<rparr>"

definition sample_usage_store :: api_store where
  "sample_usage_store = \<lparr>as_db = empty_db\<lparr>db_tokens := [sample_token]\<rparr>, as_rows = []\<rparr>"

lemma sample_usage_ok: "store_ok (as_db sample_usage_store)"
  by (simp add: sample_usage_store_def sample_token_def empty_db_def store_ok_def donations_ok_def tables_ok_def ledger_ok_def
      limits_ok_def limits_row_def usage_ok_def hashes_ok_def keys_distinct_def usage_sum_def is_donation_token_def)

lemma sample_batch:
  "fst (RecordAPIRequestEvents False 0 [sample_event 7 True, sample_event 9 False, sample_event 7 True] sample_usage_store) = Inr ()"
  by (simp add: RecordAPIRequestEvents_def run_tx_def insert_events_def numbers_fit_def event_rows_def sample_event_def
      sample_usage_store_def sample_token_def empty_db_def int4_def row_fits_def varchar_def column_text_def
      api_row.truncate_def recordDeferredTokenUsage_def deferred_totals_def add_total_def charge_token_def int8_def
      valid_utf8_def runes_ascii is_ascii_def invalid_chunk_def rune_error_def Let_def)

definition sample_events :: "api_event list" where
  "sample_events = [sample_event 7 True, sample_event 9 False, sample_event 7 True]"

theorem deferred_equals_immediate_witness:
  "charges_of (as_db (snd (RecordAPIRequestEvents False 0 sample_events sample_usage_store)))
     = charges_of (fold record_now sample_events (as_db sample_usage_store))
   \<and> fst (RecordAPIRequestEvents False 0 sample_events sample_usage_store) = Inr ()"
proof -
  have "headroom sample_events (as_db sample_usage_store)"
    by (simp add: headroom_def sample_usage_store_def sample_token_def sample_events_def sample_event_def empty_db_def)
  moreover have w: "RecordAPIRequestEvents False 0 sample_events sample_usage_store =
      (Inr (), snd (RecordAPIRequestEvents False 0 sample_events sample_usage_store))"
    using sample_batch by (metis prod.collapse sample_events_def)
  ultimately show ?thesis
    using deferred_equals_immediate [OF sample_usage_ok _ w] sample_batch by (simp add: sample_events_def)
qed

section \<open>The report\<close>

lemma sum_indicator: "distinct ks \<Longrightarrow> sum_list (map (\<lambda>j. if k = j then 1 else 0) ks) = (if k \<in> set ks then 1 else (0 :: nat))"
  by (induction ks) auto

lemma sum_groups:
  assumes "distinct ks" "set (map key es) \<subseteq> set ks"
  shows "sum_list (map (\<lambda>k. length (filter (\<lambda>e. P e \<and> key e = k) es)) ks) = length (filter P es)"
  using assms(2)
proof (induction es)
  case (Cons e es)
  have "sum_list (map (\<lambda>k. if key e = k then 1 else 0) ks) = (1 :: nat)"
    using Cons.prems by (simp add: sum_indicator [OF assms(1)])
  then have "P e \<Longrightarrow> sum_list (map (\<lambda>k. length (filter (\<lambda>e. P e \<and> key e = k) es) + (if key e = k then 1 else 0)) ks)
      = Suc (length (filter P es))"
    using Cons by (simp add: sum_list_addf)
  moreover have eq: "map (\<lambda>k. length (filter (\<lambda>e. P e \<and> key e = k) (e # es))) ks
      = map (\<lambda>k. length (filter (\<lambda>e. P e \<and> key e = k) es) + (if P e \<and> key e = k then 1 else 0)) ks" by simp
  ultimately show ?case unfolding eq using Cons by (cases "P e") simp_all
qed simp

lemma group_by_totals:
  assumes "distinct (arrange (remdups (map key es)))" "set (map key es) \<subseteq> set (arrange (remdups (map key es)))"
  shows "sum_list (map (\<lambda>g. su_total (snd g)) (group_by arrange key es)) = length es"
    and "sum_list (map (\<lambda>g. su_errors (snd g)) (group_by arrange key es)) = length (filter is_error es)"
  using sum_groups [OF assms, of "\<lambda>_. True"] sum_groups [OF assms, of is_error]
  by (simp_all add: group_by_def summarize_def comp_def conj_commute)

text \<open>The report is consistent: the hourly buckets partition the requests of the period, so their totals and
  their errors add up to those of the summary, and they are listed in the order of time.\<close>

theorem report_buckets_add_up:
  assumes "GetAPIUsageReport fault tie recent now hours s = Inr rep"
  shows "sum_list (map (\<lambda>b. su_total (snd b)) (ur_buckets rep)) = su_total (ur_summary rep)
       \<and> sum_list (map (\<lambda>b. su_errors (snd b)) (ur_buckets rep)) = su_errors (ur_summary rep)
       \<and> sorted_wrt (<) (map fst (ur_buckets rep)) \<and> 1 \<le> ur_hours rep \<and> ur_hours rep \<le> 336"
proof -
  let ?es = "filter (\<lambda>e. now - report_hours hours * (3600 * second) \<le> ev_created_at e) (as_rows s)"
  have r: "ur_buckets rep = group_by sort hour_of ?es" "ur_summary rep = summarize ?es" "ur_hours rep = report_hours hours"
    using assms by (auto simp: GetAPIUsageReport_def Let_def split: if_splits)
  have "map fst (group_by sort hour_of ?es) = sort (remdups (map hour_of ?es))" by (simp add: group_by_def comp_def)
  then have "sorted_wrt (<) (map fst (ur_buckets rep))" unfolding r by (simp add: strict_sorted_iff)
  moreover have "1 \<le> report_hours hours \<and> report_hours hours \<le> 336" by (simp add: report_hours_def)
  ultimately show ?thesis unfolding r using group_by_totals [of sort hour_of ?es] by (simp add: summarize_def)
qed

theorem report_buckets_add_up_witness:
  "sum_list (map (\<lambda>b. su_total (snd b)) (ur_buckets (projr (GetAPIUsageReport False id id 0 24 sample_usage_store)))) = 0"
proof -
  have r: "GetAPIUsageReport False id id 0 24 sample_usage_store =
      Inr (projr (GetAPIUsageReport False id id 0 24 sample_usage_store))"
    by (simp add: GetAPIUsageReport_def Let_def)
  have "su_total (ur_summary (projr (GetAPIUsageReport False id id 0 24 sample_usage_store))) = 0"
    by (simp add: GetAPIUsageReport_def Let_def summarize_def sample_usage_store_def)
  then show ?thesis using report_buckets_add_up [OF r] by simp
qed

end
