(* ===== verification/Usage_Recorder.thy ===== *)
theory Usage_Recorder
  imports Usage_Promises GoChan Histories "HOL-Library.Word"
begin

text \<open>
  The recorder of API requests (\<open>src/api/middleware/observability.go\<close>): the middleware offers an event per request
  to a bounded queue and books a deferred count itself when the queue is full; one goroutine collects batches of at
  most 256 events and writes them, keeps a batch that failed, and drains the queue when it is stopped.  The
  goroutines are an interleaving of the steps of \<open>step_recorder\<close>; a step reads the clock once.  The counters are
  \<open>atomic.Uint64\<close>.  \<open>ob_accepted\<close>, \<open>ob_booked\<close> and \<open>ob_direct\<close> are history variables: what
  the queue took, what was written of it, in order, and what the middleware counted itself.
\<close>

datatype recorder_phase = Running | Draining | Finished

record recorder =
  rc_queue :: "api_event chan"
  rc_pending :: "api_event list"
  rc_retry_after :: "time option"
  rc_interval :: duration
  rc_phase :: recorder_phase
  rc_enqueued :: "64 word"
  rc_dropped :: "64 word"
  rc_flushes :: "64 word"
  rc_flushed :: "64 word"
  rc_flush_errors :: "64 word"
  rc_failed :: "64 word"
  rc_last_flush :: time
  rc_high_water :: "64 word"
  rc_pending_depth :: nat

definition batch_size :: nat where
  "batch_size = 256"

definition newAPIUsageRecorder :: "int \<Rightarrow> duration \<Rightarrow> recorder" where
  "newAPIUsageRecorder capacity interval =
     \<lparr>rc_queue = chan_make (if capacity < 1 then 1 else nat capacity), rc_pending = [], rc_retry_after = None,
      rc_interval = (if interval \<le> 0 then second else interval), rc_phase = Running, rc_enqueued = 0, rc_dropped = 0,
      rc_flushes = 0, rc_flushed = 0, rc_flush_errors = 0, rc_failed = 0, rc_last_flush = 0, rc_high_water = 0,
      rc_pending_depth = 0\<rparr>"

text \<open>\<open>observeQueueHighWater\<close>: the loop of compare-and-swaps leaves the larger of the two values.\<close>

definition observeQueueHighWater :: "recorder \<Rightarrow> recorder" where
  "observeQueueHighWater r =
     (let v = of_nat (length (buf (rc_queue r))) in if v > rc_high_water r then r\<lparr>rc_high_water := v\<rparr> else r)"

text \<open>The closure \<open>flush\<close>: whether nothing is pending afterwards.\<close>

definition flush ::
    "bool \<Rightarrow> time \<Rightarrow> bool \<Rightarrow> recorder \<Rightarrow> api_store \<Rightarrow> bool \<times> recorder \<times> api_store" where
  "flush fault now force r s =
     (if rc_pending r = [] then (True, r, s)
      else if \<not> force \<and> (case rc_retry_after r of None \<Rightarrow> False | Some t \<Rightarrow> now < t) then (False, r, s)
      else case RecordAPIRequestEvents fault now (rc_pending r) s of
        (Inl e, s') \<Rightarrow>
          (False, r\<lparr>rc_flush_errors := rc_flush_errors r + 1, rc_retry_after := Some (now + rc_interval r),
                    rc_flushes := rc_flushes r + 1\<rparr>, s')
      | (Inr _, s') \<Rightarrow>
          (True, r\<lparr>rc_flushed := rc_flushed r + of_nat (length (rc_pending r)), rc_last_flush := now, rc_pending := [],
                   rc_pending_depth := 0, rc_retry_after := None, rc_flushes := rc_flushes r + 1\<rparr>, s'))"

record observing =
  ob_recorder :: recorder
  ob_store :: api_store
  ob_uncounted :: nat
  ob_accepted :: "api_event list"
  ob_booked :: "api_event list"
  ob_direct :: "api_event list"

definition start_observing :: "int \<Rightarrow> duration \<Rightarrow> api_store \<Rightarrow> observing" where
  "start_observing capacity interval s =
     \<lparr>ob_recorder = newAPIUsageRecorder capacity interval, ob_store = s, ob_uncounted = 0, ob_accepted = [], ob_booked = [],
      ob_direct = []\<rparr>"

section \<open>The middleware\<close>

text \<open>The event of a request that was authenticated with a token.\<close>

definition request_event ::
    "uuid \<Rightarrow> string \<Rightarrow> string \<Rightarrow> int \<Rightarrow> duration \<Rightarrow> string \<Rightarrow> time \<Rightarrow> bool \<Rightarrow> api_event" where
  "request_event token http_method path status elapsed request_id now later =
     \<lparr>ev_token = token, ev_method = http_method, ev_route = (if path = [] then ''/api/v1/unknown'' else path), ev_status = status,
      ev_latency = elapsed div 1000000, ev_request_id = trim_space request_id, ev_created_at = now, ev_count = later\<rparr>"

text \<open>The \<open>select\<close> of \<open>Middleware\<close>.  The counting of an event that was taken is a step of its own.\<close>

definition offer_event :: "bool \<Rightarrow> time \<Rightarrow> api_event \<Rightarrow> observing \<Rightarrow> observing" where
  "offer_event fault now e ob =
     (let r = ob_recorder ob in
      case try_send e (rc_queue r) of
        Sent c \<Rightarrow> ob\<lparr>ob_recorder := r\<lparr>rc_queue := c\<rparr>, ob_uncounted := ob_uncounted ob + 1, ob_accepted := ob_accepted ob @ [e]\<rparr>
      | _ \<Rightarrow>
          (let dropped = ob\<lparr>ob_recorder := r\<lparr>rc_dropped := rc_dropped r + 1\<rparr>\<rparr> in
           if ev_count e then
             (let (res, d) = RecordTokenUsage fault now (ev_token e) (as_db (ob_store ob)) in
              dropped\<lparr>ob_store := (ob_store ob)\<lparr>as_db := d\<rparr>,
                      ob_direct := (if res = Inr () then ob_direct ob @ [e\<lparr>ev_created_at := now\<rparr>] else ob_direct ob)\<rparr>)
           else dropped))"

definition count_accepted :: "observing \<Rightarrow> observing" where
  "count_accepted ob =
     (let r = ob_recorder ob in
      ob\<lparr>ob_recorder := observeQueueHighWater (r\<lparr>rc_enqueued := rc_enqueued r + 1\<rparr>), ob_uncounted := ob_uncounted ob - 1\<rparr>)"

section \<open>The goroutine\<close>

definition flush_step :: "bool \<Rightarrow> time \<Rightarrow> bool \<Rightarrow> observing \<Rightarrow> bool \<times> observing" where
  "flush_step fault now force ob =
     (case flush fault now force (ob_recorder ob) (ob_store ob) of (done_, r, s) \<Rightarrow>
        (done_, ob\<lparr>ob_recorder := r, ob_store := s,
                   ob_booked := (if done_ then ob_booked ob @ rc_pending (ob_recorder ob) else ob_booked ob)\<rparr>))"

definition append_pending :: "api_event \<Rightarrow> api_event chan \<Rightarrow> recorder \<Rightarrow> recorder" where
  "append_pending e c r =
     r\<lparr>rc_queue := c, rc_pending := rc_pending r @ [e], rc_pending_depth := length (rc_pending r) + 1\<rparr>"

definition receive_event :: "bool \<Rightarrow> time \<Rightarrow> observing \<Rightarrow> observing" where
  "receive_event fault now ob =
     (let r = ob_recorder ob in
      case try_recv (rc_queue r) of
        Got e c \<Rightarrow>
          (let ob' = ob\<lparr>ob_recorder := append_pending e c r\<rparr> in
           if length (rc_pending (ob_recorder ob')) \<ge> batch_size then snd (flush_step fault now False ob') else ob')
      | _ \<Rightarrow> ob)"

definition finish :: "nat \<Rightarrow> observing \<Rightarrow> observing" where
  "finish lost ob =
     (let r = ob_recorder ob in ob\<lparr>ob_recorder := r\<lparr>rc_failed := rc_failed r + of_nat lost, rc_phase := Finished\<rparr>\<rparr>)"

text \<open>One turn of the loop after \<open>stop\<close>.\<close>

definition drain_turn :: "bool \<Rightarrow> time \<Rightarrow> observing \<Rightarrow> observing" where
  "drain_turn fault now ob =
     (let (room, ob1) = (if length (rc_pending (ob_recorder ob)) \<ge> batch_size then flush_step fault now True ob else (True, ob));
          r = ob_recorder ob1 in
      if \<not> room then finish (length (rc_pending r) + length (buf (rc_queue r))) ob1
      else case try_recv (rc_queue r) of
        Got e c \<Rightarrow> ob1\<lparr>ob_recorder := append_pending e c r\<rparr>
      | _ \<Rightarrow>
          (let (ok, ob2) = flush_step fault now True ob1 in
           finish (if ok then 0 else length (rc_pending (ob_recorder ob2))) ob2))"

datatype recorder_step =
    Request api_event
  | Counted
  | Receive
  | Flush_Tick
  | Cleanup_Tick
  | Stop
  | Drain

text \<open>The receive waits while a full batch is pending: the queue variable of the \<open>select\<close> is nil then.\<close>

fun recorder_allowed :: "(bool \<times> time \<times> recorder_step) \<Rightarrow> observing \<Rightarrow> bool" where
  "recorder_allowed (_, _, Request _) ob = True"
| "recorder_allowed (_, _, Counted) ob = (0 < ob_uncounted ob)"
| "recorder_allowed (_, _, Receive) ob =
     (rc_phase (ob_recorder ob) = Running \<and> length (rc_pending (ob_recorder ob)) < batch_size \<and> buf (rc_queue (ob_recorder ob)) \<noteq> [])"
| "recorder_allowed (_, _, Flush_Tick) ob = (rc_phase (ob_recorder ob) = Running)"
| "recorder_allowed (_, _, Cleanup_Tick) ob = (rc_phase (ob_recorder ob) = Running)"
| "recorder_allowed (_, _, Stop) ob = (rc_phase (ob_recorder ob) = Running)"
| "recorder_allowed (_, _, Drain) ob = (rc_phase (ob_recorder ob) = Draining)"

fun step_recorder :: "(bool \<times> time \<times> recorder_step) \<Rightarrow> observing \<Rightarrow> observing" where
  "step_recorder (fault, now, Request e) ob = offer_event fault now e ob"
| "step_recorder (_, _, Counted) ob = count_accepted ob"
| "step_recorder (fault, now, Receive) ob = receive_event fault now ob"
| "step_recorder (fault, now, Flush_Tick) ob = snd (flush_step fault now False ob)"
| "step_recorder (fault, now, Cleanup_Tick) ob = ob\<lparr>ob_store := snd (DeleteOldAPIRequestEvents fault now (ob_store ob))\<rparr>"
| "step_recorder (_, _, Stop) ob = ob\<lparr>ob_recorder := (ob_recorder ob)\<lparr>rc_phase := Draining\<rparr>\<rparr>"
| "step_recorder (fault, now, Drain) ob = drain_turn fault now ob"

section \<open>The figures\<close>

record recorder_stats =
  rs_queue_depth :: nat
  rs_queue_capacity :: nat
  rs_pending_depth :: nat
  rs_high_water :: "64 word"
  rs_enqueued :: "64 word"
  rs_dropped :: "64 word"
  rs_flushes :: "64 word"
  rs_flushed :: "64 word"
  rs_flush_errors :: "64 word"
  rs_failed :: "64 word"
  rs_last_flush :: int

definition recorder_stats :: "recorder \<Rightarrow> recorder_stats" where
  "recorder_stats r =
     \<lparr>rs_queue_depth = length (buf (rc_queue r)), rs_queue_capacity = cap (rc_queue r), rs_pending_depth = rc_pending_depth r,
      rs_high_water = rc_high_water r, rs_enqueued = rc_enqueued r, rs_dropped = rc_dropped r, rs_flushes = rc_flushes r,
      rs_flushed = rc_flushed r, rs_flush_errors = rc_flush_errors r, rs_failed = rc_failed r,
      rs_last_flush = rc_last_flush r div second\<rparr>"

section \<open>Nothing is lost\<close>

text \<open>\<open>accounted ob\<close>: what was taken is written, pending or queued, in this order and once; a full batch is never
  exceeded; the counters say the same modulo \<open>2 ^ 64\<close>.\<close>

definition accounted :: "observing \<Rightarrow> bool" where
  "accounted ob =
     (let r = ob_recorder ob in
      ob_accepted ob = ob_booked ob @ rc_pending r @ buf (rc_queue r)
      \<and> length (rc_pending r) \<le> batch_size \<and> rc_pending_depth r = length (rc_pending r) \<and> chan_open (rc_queue r)
      \<and> rc_enqueued r + of_nat (ob_uncounted ob) = of_nat (length (ob_accepted ob))
      \<and> rc_flushed r = of_nat (length (ob_booked ob))
      \<and> (rc_phase r \<noteq> Finished \<longrightarrow> rc_failed r = 0)
      \<and> (rc_phase r = Running \<longrightarrow> (length (rc_pending r) = batch_size \<longrightarrow> rc_retry_after r \<noteq> None)))"

lemma accounted_start: "accounted (start_observing capacity interval s)"
  by (simp add: accounted_def start_observing_def newAPIUsageRecorder_def batch_size_def)


text \<open>The outcomes of a flush.\<close>

lemma flush_step_cases:
  obtains (kept) r s where "flush_step fault now force ob = (False, ob\<lparr>ob_recorder := r, ob_store := s\<rparr>)"
      "rc_pending r = rc_pending (ob_recorder ob)" "rc_queue r = rc_queue (ob_recorder ob)" "rc_phase r = rc_phase (ob_recorder ob)"
      "rc_enqueued r = rc_enqueued (ob_recorder ob)" "rc_flushed r = rc_flushed (ob_recorder ob)"
      "rc_failed r = rc_failed (ob_recorder ob)" "rc_pending_depth r = rc_pending_depth (ob_recorder ob)"
      "rc_retry_after r \<noteq> None"
  | (written) r s where "flush_step fault now force ob = (True, ob\<lparr>ob_recorder := r, ob_store := s, ob_booked := ob_booked ob @ rc_pending (ob_recorder ob)\<rparr>)"
      "rc_pending r = []" "rc_queue r = rc_queue (ob_recorder ob)" "rc_phase r = rc_phase (ob_recorder ob)"
      "rc_enqueued r = rc_enqueued (ob_recorder ob)"
      "rc_flushed r = rc_flushed (ob_recorder ob) + of_nat (length (rc_pending (ob_recorder ob)))"
      "rc_failed r = rc_failed (ob_recorder ob)" "rc_pending_depth r = (if rc_pending (ob_recorder ob) = [] then rc_pending_depth (ob_recorder ob) else 0)"
proof -
  let ?r = "ob_recorder ob" and ?w = "RecordAPIRequestEvents fault now (rc_pending (ob_recorder ob)) (ob_store ob)"
  consider (empty) "rc_pending ?r = []"
    | (early) t where "rc_pending ?r \<noteq> []" "\<not> force" "rc_retry_after ?r = Some t" "now < t"
    | (attempt) "rc_pending ?r \<noteq> []" "force \<or> \<not> (case rc_retry_after ?r of None \<Rightarrow> False | Some t \<Rightarrow> now < t)"
    by (cases "rc_retry_after ?r") auto
  then show ?thesis
  proof cases
    case empty
    then show ?thesis using written [where r = ?r and s = "ob_store ob"] by (simp add: flush_step_def flush_def)
  next
    case early
    then show ?thesis using kept [where r = ?r and s = "ob_store ob"] by (simp add: flush_step_def flush_def)
  next
    case attempt
    let ?bad = "?r\<lparr>rc_flush_errors := rc_flush_errors ?r + 1, rc_retry_after := Some (now + rc_interval ?r),
        rc_flushes := rc_flushes ?r + 1\<rparr>"
    let ?good = "?r\<lparr>rc_flushed := rc_flushed ?r + of_nat (length (rc_pending ?r)), rc_last_flush := now, rc_pending := [],
        rc_pending_depth := 0, rc_retry_after := None, rc_flushes := rc_flushes ?r + 1\<rparr>"
    have f: "flush fault now force ?r (ob_store ob) =
        (case ?w of (Inl e, s') \<Rightarrow> (False, ?bad, s') | (Inr _, s') \<Rightarrow> (True, ?good, s'))"
      unfolding flush_def using attempt by auto
    show ?thesis
    proof (cases "fst ?w")
      case (Inl e)
      then have "flush fault now force ?r (ob_store ob) = (False, ?bad, snd ?w)"
        unfolding f by (metis (no_types, lifting) prod.case_eq_if sum.case(1))
      then show ?thesis using kept [where r = ?bad and s = "snd ?w"] by (simp add: flush_step_def)
    next
      case (Inr u)
      then have "flush fault now force ?r (ob_store ob) = (True, ?good, snd ?w)"
        unfolding f by (metis (no_types, lifting) prod.case_eq_if sum.case(2))
      then show ?thesis using attempt(1) written [where r = ?good and s = "snd ?w"] by (simp add: flush_step_def)
    qed
  qed
qed

lemma accounted_flush:
  assumes ok: "accounted ob"
  shows "accounted (snd (flush_step fault now force ob))"
  by (rule flush_step_cases [of fault now force ob]) (use ok in \<open>auto simp: accounted_def Let_def batch_size_def\<close>)

lemma offer_event_sent:
  "length (buf (rc_queue (ob_recorder ob))) < cap (rc_queue (ob_recorder ob)) \<Longrightarrow> chan_open (rc_queue (ob_recorder ob)) \<Longrightarrow>
   offer_event fault now e ob =
     ob\<lparr>ob_recorder := (ob_recorder ob)\<lparr>rc_queue := (rc_queue (ob_recorder ob))\<lparr>buf := buf (rc_queue (ob_recorder ob)) @ [e]\<rparr>\<rparr>,
        ob_uncounted := ob_uncounted ob + 1, ob_accepted := ob_accepted ob @ [e]\<rparr>"
  by (simp add: offer_event_def Let_def try_send_def chan_open_def)

lemma accounted_offer: "accounted ob \<Longrightarrow> accounted (offer_event fault now e ob)"
proof (cases "length (buf (rc_queue (ob_recorder ob))) < cap (rc_queue (ob_recorder ob))")
  case True
  assume a: "accounted ob"
  then have "chan_open (rc_queue (ob_recorder ob))" by (simp add: accounted_def Let_def)
  then show ?thesis
    using a True unfolding offer_event_sent [OF True \<open>chan_open _\<close>]
    by (simp add: accounted_def Let_def chan_open_def chan_wf_def algebra_simps)
next
  case False
  assume a: "accounted ob"
  then show ?thesis
    using False by (simp add: accounted_def Let_def offer_event_def try_send_def chan_open_def split: prod.split)
qed

lemma observe_simps [simp]:
  "rc_queue (observeQueueHighWater r) = rc_queue r" "rc_pending (observeQueueHighWater r) = rc_pending r"
  "rc_phase (observeQueueHighWater r) = rc_phase r" "rc_enqueued (observeQueueHighWater r) = rc_enqueued r"
  "rc_flushed (observeQueueHighWater r) = rc_flushed r" "rc_failed (observeQueueHighWater r) = rc_failed r"
  "rc_retry_after (observeQueueHighWater r) = rc_retry_after r" "rc_pending_depth (observeQueueHighWater r) = rc_pending_depth r"
  by (simp_all add: observeQueueHighWater_def Let_def)

lemma accounted_counted: "accounted ob \<Longrightarrow> 0 < ob_uncounted ob \<Longrightarrow> accounted (count_accepted ob)"
  by (cases "ob_uncounted ob") (auto simp: accounted_def Let_def count_accepted_def algebra_simps)

lemma flush_leaves_room:
  "snd (flush_step fault now force ob) = ob' \<Longrightarrow> fst (flush_step fault now force ob) \<Longrightarrow> rc_pending (ob_recorder ob') = []"
  by (rule flush_step_cases [of fault now force ob]) auto

text \<open>A received event: what is accounted for with the batch one longer.\<close>

definition with_received :: "api_event \<Rightarrow> api_event list \<Rightarrow> observing \<Rightarrow> observing" where
  "with_received e q ob = ob\<lparr>ob_recorder := append_pending e ((rc_queue (ob_recorder ob))\<lparr>buf := q\<rparr>) (ob_recorder ob)\<rparr>"

lemma accounted_receive:
  assumes ok: "accounted ob" and q: "buf (rc_queue (ob_recorder ob)) = e # q" and room: "length (rc_pending (ob_recorder ob)) < batch_size"
    and ph: "length (rc_pending (ob_recorder ob)) + 1 < batch_size \<or> rc_phase (ob_recorder ob) \<noteq> Running"
  shows "accounted (with_received e q ob)"
  using ok q room ph by (auto simp: accounted_def Let_def with_received_def append_pending_def chan_open_def chan_wf_def)

lemma accounted_receive_flush:
  assumes ok: "accounted ob" and q: "buf (rc_queue (ob_recorder ob)) = e # q"
    and full: "length (rc_pending (ob_recorder ob)) + 1 = batch_size"
  shows "accounted (snd (flush_step fault now force (with_received e q ob)))"
  by (rule flush_step_cases [of fault now force "with_received e q ob"])
    (use ok q full in \<open>auto simp: accounted_def Let_def with_received_def append_pending_def chan_open_def chan_wf_def batch_size_def\<close>)

lemma receive_event_eq:
  "buf (rc_queue (ob_recorder ob)) = e # q \<Longrightarrow>
   receive_event fault now ob =
     (if length (rc_pending (ob_recorder ob)) + 1 \<ge> batch_size then snd (flush_step fault now False (with_received e q ob)) else with_received e q ob)"
  by (simp add: receive_event_def try_recv_def Let_def with_received_def append_pending_def)

lemma accounted_finish: "accounted ob \<Longrightarrow> accounted (finish n ob)"
  by (simp add: accounted_def finish_def Let_def)

text \<open>A turn of the drain in its parts.\<close>

lemma drain_turn_cases:
  assumes ob1: "ob1 = (if length (rc_pending (ob_recorder ob)) \<ge> batch_size then snd (flush_step fault now True ob) else ob)"
  shows "drain_turn fault now ob =
     (if length (rc_pending (ob_recorder ob)) \<ge> batch_size \<and> \<not> fst (flush_step fault now True ob)
      then finish (length (rc_pending (ob_recorder ob1)) + length (buf (rc_queue (ob_recorder ob1)))) ob1
      else case buf (rc_queue (ob_recorder ob1)) of
        e # q \<Rightarrow> with_received e q ob1
      | [] \<Rightarrow>
          finish (if fst (flush_step fault now True ob1) then 0
                  else length (rc_pending (ob_recorder (snd (flush_step fault now True ob1))))) (snd (flush_step fault now True ob1)))"
  unfolding ob1 drain_turn_def Let_def try_recv_def with_received_def
  by (auto simp: case_prod_beta split: list.splits)

lemma flush_keeps_phase [simp]: "rc_phase (ob_recorder (snd (flush_step fault now force ob))) = rc_phase (ob_recorder ob)"
  by (rule flush_step_cases [of fault now force ob]) auto

lemma flush_keeps_queue [simp]: "rc_queue (ob_recorder (snd (flush_step fault now force ob))) = rc_queue (ob_recorder ob)"
  by (rule flush_step_cases [of fault now force ob]) auto

lemma accounted_drain:
  assumes ok: "accounted ob" and ph: "rc_phase (ob_recorder ob) = Draining"
  shows "accounted (drain_turn fault now ob)"
proof -
  define ob1 where "ob1 = (if length (rc_pending (ob_recorder ob)) \<ge> batch_size then snd (flush_step fault now True ob) else ob)"
  have ok1: "accounted ob1" and ph1: "rc_phase (ob_recorder ob1) \<noteq> Running"
    using accounted_flush [OF ok] ok ph by (simp_all add: ob1_def)
  have room: "length (rc_pending (ob_recorder ob1)) < batch_size"
    if "\<not> (length (rc_pending (ob_recorder ob)) \<ge> batch_size \<and> \<not> fst (flush_step fault now True ob))"
    using that flush_leaves_room [of fault now True ob] by (auto simp: ob1_def batch_size_def)
  show ?thesis
    unfolding drain_turn_cases [OF ob1_def]
    using accounted_finish [OF ok1] accounted_finish [OF accounted_flush [OF ok1]] accounted_receive [OF ok1] room ph1
    by (auto split: list.splits)
qed

lemma accounted_step: "accounted ob \<Longrightarrow> recorder_allowed st ob \<Longrightarrow> accounted (step_recorder st ob)"
proof (cases st)
  case (fields fault now s)
  assume ok: "accounted ob" and al: "recorder_allowed st ob"
  show ?thesis
  proof (cases s)
    case Receive
    then obtain e q where q: "buf (rc_queue (ob_recorder ob)) = e # q" using al fields by (cases "buf (rc_queue (ob_recorder ob))") auto
    then show ?thesis
      using accounted_receive [OF ok q] accounted_receive_flush [OF ok q] al Receive fields receive_event_eq [OF q]
      by (auto simp: not_le)
  next
    case Cleanup_Tick
    then show ?thesis using ok fields by (simp add: accounted_def Let_def)
  next
    case Stop
    then show ?thesis using ok al fields by (simp add: accounted_def Let_def)
  qed (use ok al fields accounted_offer accounted_counted accounted_flush accounted_drain in simp_all)
qed

interpretation recording: guarded_steps step_recorder recorder_allowed accounted
  by unfold_locales (rule accounted_step)

end
