(* ===== verification/Recorder_Promises.thy ===== *)
theory Recorder_Promises
  imports Usage_Recorder
begin

text \<open>
  What the request recorder promises: no accepted event is lost or written twice, every deferred request is counted
  exactly once, whatever the interleaving and the failures of the store, and stopping the recorder writes what it
  has accepted.
\<close>

section \<open>The statistics of the store\<close>

definition statistics_exact :: "db \<Rightarrow> observing \<Rightarrow> bool" where
  "statistics_exact d0 ob =
     (accounted ob \<and> store_ok (as_db (ob_store ob)) \<and> charged_by (ob_booked ob @ ob_direct ob) d0 (as_db (ob_store ob)))"

lemma flush_step_store:
  "flush_step fault now force ob = (False, ob') \<Longrightarrow> ob_store ob' = ob_store ob \<and> ob_booked ob' = ob_booked ob \<and> ob_direct ob' = ob_direct ob"
  by (auto simp: flush_step_def flush_def split: if_splits prod.splits sum.splits dest: RecordAPIRequestEvents_Inl)

lemma flush_step_writes:
  assumes "flush_step fault now force ob = (True, ob')" "store_ok (as_db (ob_store ob))"
  shows "charged_by (rc_pending (ob_recorder ob)) (as_db (ob_store ob)) (as_db (ob_store ob'))
    \<and> ob_booked ob' = ob_booked ob @ rc_pending (ob_recorder ob) \<and> ob_direct ob' = ob_direct ob"
proof (cases "rc_pending (ob_recorder ob) = []")
  case True
  then show ?thesis using assms charged_none [of "[]"] by (auto simp: flush_step_def flush_def)
next
  case False
  then obtain u s' where "RecordAPIRequestEvents fault now (rc_pending (ob_recorder ob)) (ob_store ob) = (Inr u, s')" "ob_store ob' = s'"
    using assms(1) by (auto simp: flush_step_def flush_def split: if_splits prod.splits sum.splits)
  then show ?thesis using RecordAPIRequestEvents_Inr assms by (auto simp: flush_step_def split: prod.splits)
qed

lemma exact_flush:
  assumes ok: "statistics_exact d0 ob" shows "statistics_exact d0 (snd (flush_step fault now force ob))"
proof (cases "flush_step fault now force ob")
  case (Pair b ob')
  have acc: "accounted ob'" using accounted_flush [of ob fault now force] ok Pair by (simp add: statistics_exact_def)
  show ?thesis
  proof (cases b)
    case True
    have c: "charged_by (rc_pending (ob_recorder ob)) (as_db (ob_store ob)) (as_db (ob_store ob'))"
        "ob_booked ob' = ob_booked ob @ rc_pending (ob_recorder ob)" "ob_direct ob' = ob_direct ob"
      using flush_step_writes [of fault now force ob ob'] Pair True ok by (auto simp: statistics_exact_def)
    have "charged_by ((ob_booked ob @ ob_direct ob) @ rc_pending (ob_recorder ob)) d0 (as_db (ob_store ob'))"
      by (rule charged_trans [OF _ c(1)]) (use ok in \<open>simp add: statistics_exact_def\<close>)
    then have "charged_by (ob_booked ob' @ ob_direct ob') d0 (as_db (ob_store ob'))"
      unfolding c(2,3) by (rule charged_mset [rotated]) simp
    then show ?thesis using acc c(1) Pair by (simp add: statistics_exact_def charged_by_def)
  next
    case False
    then show ?thesis using flush_step_store [of fault now force ob ob'] Pair ok acc by (simp add: statistics_exact_def)
  qed
qed

lemma exact_frame:
  "statistics_exact d0 ob \<Longrightarrow> accounted ob' \<Longrightarrow> as_db (ob_store ob') = as_db (ob_store ob) \<Longrightarrow> ob_booked ob' = ob_booked ob \<Longrightarrow>
   ob_direct ob' = ob_direct ob \<Longrightarrow> statistics_exact d0 ob'"
  by (simp add: statistics_exact_def)

lemma with_received_simps [simp]:
  "ob_store (with_received e q ob) = ob_store ob" "ob_booked (with_received e q ob) = ob_booked ob"
  "ob_direct (with_received e q ob) = ob_direct ob"
  by (simp_all add: with_received_def)

lemma finish_simps [simp]:
  "ob_store (finish n ob) = ob_store ob" "ob_booked (finish n ob) = ob_booked ob" "ob_direct (finish n ob) = ob_direct ob"
  by (simp_all add: finish_def Let_def)

lemma RecordTokenUsage_charged:
  assumes ok: "store_ok d" and r: "RecordTokenUsage fault now (ev_token e) d = (Inr u, d')" and c: "ev_count e"
  shows "charged_by [e\<lparr>ev_created_at := now\<rparr>] d d'"
  using RecordTokenUsage_cases(2) [OF ok r] record_request_charged [OF ok, of "e\<lparr>ev_created_at := now\<rparr>"]
    charged_uncounted [OF ok, of "e\<lparr>ev_created_at := now\<rparr>"] c by (auto split: if_splits)

lemma exact_offer:
  assumes ok: "statistics_exact d0 ob" shows "statistics_exact d0 (offer_event fault now e ob)"
proof -
  let ?r = "ob_recorder ob"
  have acc: "accounted (offer_event fault now e ob)" using accounted_offer ok by (simp add: statistics_exact_def)
  have op: "chan_open (rc_queue ?r)" using ok by (simp add: statistics_exact_def accounted_def Let_def)
  show ?thesis
  proof (cases "length (buf (rc_queue ?r)) < cap (rc_queue ?r)")
    case True
    then show ?thesis using offer_event_sent [OF True op] by (intro exact_frame [OF ok acc]) simp_all
  next
    case False
    obtain res d where rt: "RecordTokenUsage fault now (ev_token e) (as_db (ob_store ob)) = (res, d)" by fastforce
    have st: "store_ok (as_db (ob_store ob))" and ch: "charged_by (ob_booked ob @ ob_direct ob) d0 (as_db (ob_store ob))"
      using ok by (simp_all add: statistics_exact_def)
    have off: "offer_event fault now e ob =
        (let dropped = ob\<lparr>ob_recorder := ?r\<lparr>rc_dropped := rc_dropped ?r + 1\<rparr>\<rparr> in
         if ev_count e then dropped\<lparr>ob_store := (ob_store ob)\<lparr>as_db := d\<rparr>,
              ob_direct := (if res = Inr () then ob_direct ob @ [e\<lparr>ev_created_at := now\<rparr>] else ob_direct ob)\<rparr>
         else dropped)"
      using False op rt by (simp add: offer_event_def try_send_def chan_open_def Let_def)
    show ?thesis
    proof (cases "ev_count e")
      case True
      show ?thesis
      proof (cases res)
        case (Inl x)
        then show ?thesis using RecordTokenUsage_cases(1) [OF st, of fault now "ev_token e" x d] rt True
          by (intro exact_frame [OF ok acc]) (simp_all add: off)
      next
        case (Inr u)
        have c: "charged_by [e\<lparr>ev_created_at := now\<rparr>] (as_db (ob_store ob)) d"
          using RecordTokenUsage_charged [OF st _ True] rt Inr by blast
        have "charged_by (ob_booked ob @ ob_direct ob @ [e\<lparr>ev_created_at := now\<rparr>]) d0 d"
          using charged_trans [OF ch c] by simp
        then show ?thesis using acc True Inr by (simp add: statistics_exact_def off charged_by_def)
      qed
    qed (intro exact_frame [OF ok acc]; simp add: off)
  qed
qed

lemma exact_drain:
  assumes ok: "statistics_exact d0 ob" and ph: "rc_phase (ob_recorder ob) = Draining"
  shows "statistics_exact d0 (drain_turn fault now ob)"
proof -
  have "accounted ob" using ok by (simp add: statistics_exact_def)
  then have acc: "accounted (drain_turn fault now ob)" by (rule accounted_drain [OF _ ph])
  define ob1 where "ob1 = (if length (rc_pending (ob_recorder ob)) \<ge> batch_size then snd (flush_step fault now True ob) else ob)"
  have ok1: "statistics_exact d0 ob1" using exact_flush [OF ok] ok by (simp add: ob1_def)
  let ?t = "drain_turn fault now ob"
  have "(ob_store ?t = ob_store ob1 \<and> ob_booked ?t = ob_booked ob1 \<and> ob_direct ?t = ob_direct ob1)
      \<or> (ob_store ?t = ob_store (snd (flush_step fault now True ob1)) \<and> ob_booked ?t = ob_booked (snd (flush_step fault now True ob1))
         \<and> ob_direct ?t = ob_direct (snd (flush_step fault now True ob1)))"
    unfolding drain_turn_cases [OF ob1_def] by (simp split: list.split)
  then show ?thesis using exact_frame [OF ok1 acc] exact_frame [OF exact_flush [OF ok1, of fault now True] acc] by metis
qed

lemma exact_step:
  assumes ok: "statistics_exact d0 ob" and al: "recorder_allowed st ob" shows "statistics_exact d0 (step_recorder st ob)"
proof (cases st)
  case (fields fault now s)
  have acc: "accounted (step_recorder st ob)" using accounted_step al ok by (simp add: statistics_exact_def)
  show ?thesis
  proof (cases s)
    case Receive
    then obtain e q where q: "buf (rc_queue (ob_recorder ob)) = e # q" using al fields by (cases "buf (rc_queue (ob_recorder ob))") auto
    show ?thesis
    proof (cases "length (rc_pending (ob_recorder ob)) + 1 \<ge> batch_size")
      case False
      then show ?thesis using acc Receive fields by (intro exact_frame [OF ok acc]) (simp_all add: receive_event_eq [OF q])
    next
      case True
      let ?w = "with_received e q ob"
      have eq: "step_recorder st ob = snd (flush_step fault now False ?w)" using True Receive fields by (simp add: receive_event_eq [OF q])
      obtain b ob' where f: "flush_step fault now False ?w = (b, ob')" by fastforce
      have st: "store_ok (as_db (ob_store ob))" "charged_by (ob_booked ob @ ob_direct ob) d0 (as_db (ob_store ob))"
        using ok by (simp_all add: statistics_exact_def)
      show ?thesis
      proof (cases b)
        case False
        then show ?thesis using flush_step_store [of fault now False ?w ob'] f by (intro exact_frame [OF ok acc]) (simp_all add: eq)
      next
        case True
        have w: "charged_by (rc_pending (ob_recorder ?w)) (as_db (ob_store ob)) (as_db (ob_store ob'))"
            "ob_booked ob' = ob_booked ob @ rc_pending (ob_recorder ?w)" "ob_direct ob' = ob_direct ob"
          using flush_step_writes [of fault now False ?w ob'] f True st by auto
        have "charged_by (ob_booked ob' @ ob_direct ob') d0 (as_db (ob_store ob'))"
          unfolding w(2,3) by (rule charged_mset [OF _ charged_trans [OF st(2) w(1)]]) simp
        then show ?thesis using acc w(1) f by (simp add: statistics_exact_def eq charged_by_def)
      qed
    qed
  next
    case Counted
    then show ?thesis using fields by (intro exact_frame [OF ok acc]) (simp_all add: count_accepted_def Let_def)
  next
    case Cleanup_Tick
    then show ?thesis using fields by (intro exact_frame [OF ok acc]) (simp_all add: DeleteOldAPIRequestEvents_def)
  next
    case Stop
    then show ?thesis using fields by (intro exact_frame [OF ok acc]) simp_all
  qed (use ok al fields exact_offer exact_flush exact_drain in simp_all)
qed

interpretation exact_recording: guarded_steps step_recorder recorder_allowed "statistics_exact d0" for d0
  by unfold_locales (rule exact_step)

lemma exact_start: "store_ok (as_db s) \<Longrightarrow> statistics_exact (as_db s) (start_observing capacity interval s)"
  using charged_none [of "[]" "as_db s"] accounted_start [of capacity interval s]
  by (simp add: statistics_exact_def) (simp add: start_observing_def)

section \<open>Stopping\<close>

lemma headroom_mset: "mset es = mset fs \<Longrightarrow> headroom es d \<Longrightarrow> headroom fs d"
proof -
  assume m: "mset es = mset fs" and h: "headroom es d"
  have "deferred es t = deferred fs t" for t unfolding deferred_def using m by (metis mset_filter size_mset)
  then show ?thesis using h by (simp add: headroom_def)
qed

lemma headroom_append: "headroom (es @ fs) d \<Longrightarrow> headroom es d"
proof -
  assume h: "headroom (es @ fs) d"
  have "tok_request_count_total r + deferred es (tok_id r) < 2 ^ 63"
    if "r \<in> set (db_tokens d)" "tok_revoked_at r = None" for r
  proof -
    have "tok_request_count_total r + (deferred es (tok_id r) + deferred fs (tok_id r)) < 2 ^ 63"
      using h that by (simp add: headroom_def list_all_iff)
    then show ?thesis using deferred_nonneg [of fs "tok_id r"] by linarith
  qed
  then show ?thesis using h by (simp add: headroom_def list_all_iff)
qed

text \<open>\<open>writable ob\<close>: the store takes what is pending and queued.\<close>

definition writable :: "observing \<Rightarrow> bool" where
  "writable ob =
     (let es = rc_pending (ob_recorder ob) @ buf (rc_queue (ob_recorder ob)) in
      store_ok (as_db (ob_store ob)) \<and> numbers_fit es \<and> list_all row_fits es \<and> headroom es (as_db (ob_store ob)))"

lemma forced_flush:
  assumes ok: "accounted ob" and w: "writable ob"
  obtains ob' where "flush_step False now True ob = (True, ob')" "rc_pending (ob_recorder ob') = []" "writable ob'"
    "buf (rc_queue (ob_recorder ob')) = buf (rc_queue (ob_recorder ob))" "rc_phase (ob_recorder ob') = rc_phase (ob_recorder ob)"
    "accounted ob'" "ob_accepted ob' = ob_accepted ob" "rc_failed (ob_recorder ob') = rc_failed (ob_recorder ob)"
proof -
  let ?p = "rc_pending (ob_recorder ob)" and ?q = "buf (rc_queue (ob_recorder ob))"
  obtain b ob' where f: "flush_step False now True ob = (b, ob')" by fastforce
  have st: "store_ok (as_db (ob_store ob))" "headroom (?p @ ?q) (as_db (ob_store ob))" "numbers_fit ?p" "list_all row_fits ?p"
      "numbers_fit ?q" "list_all row_fits ?q"
    using w by (simp_all add: writable_def Let_def numbers_fit_def)
  obtain s' where s': "RecordAPIRequestEvents False now ?p (ob_store ob) = (Inr (), s')"
    using RecordAPIRequestEvents_succeeds [OF st(3,4) headroom_append [OF st(2)]] by blast
  have b: "b" using f s' by (auto simp: flush_step_def flush_def split: if_splits)
  have c: "charged_by ?p (as_db (ob_store ob)) (as_db (ob_store ob'))"
    using flush_step_writes [of False now True ob ob'] f b st(1) by simp
  have fields: "rc_pending (ob_recorder ob') = []" "buf (rc_queue (ob_recorder ob')) = ?q"
      "rc_phase (ob_recorder ob') = rc_phase (ob_recorder ob)" "ob_accepted ob' = ob_accepted ob"
      "rc_failed (ob_recorder ob') = rc_failed (ob_recorder ob)"
    by (rule flush_step_cases [of False now True ob]; use f b in auto)+
  have "writable ob'"
    using headroom_charged [OF st(2) c] c st(5,6) by (simp add: writable_def Let_def fields charged_by_def)
  then show ?thesis using that [of ob'] f b fields accounted_flush [OF ok, of False now True] by simp
qed

lemma drain_receives:
  assumes ok: "accounted ob" and w: "writable ob" and ph: "rc_phase (ob_recorder ob) = Draining"
    and q: "buf (rc_queue (ob_recorder ob)) = e # q"
  shows "\<exists>ob'. drain_turn False now ob = ob' \<and> accounted ob' \<and> writable ob' \<and> rc_phase (ob_recorder ob') = Draining
    \<and> buf (rc_queue (ob_recorder ob')) = q \<and> ob_accepted ob' = ob_accepted ob \<and> rc_failed (ob_recorder ob') = rc_failed (ob_recorder ob)"
proof -
  have received: "writable (with_received e q x) \<and> rc_phase (ob_recorder (with_received e q x)) = rc_phase (ob_recorder x)
      \<and> buf (rc_queue (ob_recorder (with_received e q x))) = q \<and> ob_accepted (with_received e q x) = ob_accepted x
      \<and> rc_failed (ob_recorder (with_received e q x)) = rc_failed (ob_recorder x)"
    if "writable x" "buf (rc_queue (ob_recorder x)) = e # q" for x
    using that by (simp add: writable_def Let_def with_received_def append_pending_def)
  have acc: "accounted (drain_turn False now ob)" by (rule accounted_drain [OF ok ph])
  obtain ob1 where ob1: "flush_step False now True ob = (True, ob1)" "writable ob1"
      "buf (rc_queue (ob_recorder ob1)) = buf (rc_queue (ob_recorder ob))" "rc_phase (ob_recorder ob1) = rc_phase (ob_recorder ob)"
      "ob_accepted ob1 = ob_accepted ob" "rc_failed (ob_recorder ob1) = rc_failed (ob_recorder ob)"
    by (rule forced_flush [OF ok w, of now]) blast
  show ?thesis
  proof (cases "length (rc_pending (ob_recorder ob)) \<ge> batch_size")
    case True
    then have "drain_turn False now ob = with_received e q ob1"
      using drain_turn_cases [OF refl, where ob = ob and fault = False and now = now] ob1(1,3) q by simp
    then show ?thesis using received [OF ob1(2)] ob1(3-6) q ph acc by simp
  next
    case False
    then have "drain_turn False now ob = with_received e q ob"
      using drain_turn_cases [OF refl, where ob = ob and fault = False and now = now] q by simp
    then show ?thesis using received [OF w q] ph acc by simp
  qed
qed

lemma drain_finishes:
  assumes ok: "accounted ob" and w: "writable ob" and ph: "rc_phase (ob_recorder ob) = Draining"
    and q: "buf (rc_queue (ob_recorder ob)) = []"
  shows "\<exists>ob'. drain_turn False now ob = ob' \<and> accounted ob' \<and> rc_phase (ob_recorder ob') = Finished
    \<and> rc_pending (ob_recorder ob') = [] \<and> buf (rc_queue (ob_recorder ob')) = [] \<and> ob_accepted ob' = ob_accepted ob
    \<and> rc_failed (ob_recorder ob') = rc_failed (ob_recorder ob)"
proof -
  have final: "finish 0 x = drain_turn False now ob \<Longrightarrow> rc_pending (ob_recorder x) = [] \<Longrightarrow> buf (rc_queue (ob_recorder x)) = [] \<Longrightarrow>
      ob_accepted x = ob_accepted ob \<Longrightarrow> rc_failed (ob_recorder x) = rc_failed (ob_recorder ob) \<Longrightarrow> ?thesis" for x
    using accounted_drain [OF ok ph, of False now] by (auto simp: finish_def Let_def dest: sym)
  obtain ob1 where ob1: "flush_step False now True ob = (True, ob1)" "rc_pending (ob_recorder ob1) = []" "writable ob1"
      "buf (rc_queue (ob_recorder ob1)) = buf (rc_queue (ob_recorder ob))" "accounted ob1"
      "ob_accepted ob1 = ob_accepted ob" "rc_failed (ob_recorder ob1) = rc_failed (ob_recorder ob)"
    by (rule forced_flush [OF ok w, of now]) blast
  have again: "flush_step False now True ob1 = (True, ob1)" using ob1(2) by (simp add: flush_step_def flush_def)
  show ?thesis
  proof (cases "length (rc_pending (ob_recorder ob)) \<ge> batch_size")
    case True
    then have "drain_turn False now ob = finish 0 ob1"
      using drain_turn_cases [OF refl, where ob = ob and fault = False and now = now] ob1(1,4) again q by simp
    then show ?thesis using final [of ob1] ob1 q by simp
  next
    case False
    then have "drain_turn False now ob = finish 0 ob1"
      using drain_turn_cases [OF refl, where ob = ob and fault = False and now = now] ob1(1) q by simp
    then show ?thesis using final [of ob1] ob1 q by simp
  qed
qed

lemma drains:
  "accounted ob \<Longrightarrow> writable ob \<Longrightarrow> rc_phase (ob_recorder ob) = Draining \<Longrightarrow> length (buf (rc_queue (ob_recorder ob))) = n \<Longrightarrow>
   \<exists>ob'. run step_recorder (replicate (Suc n) (False, now, Drain)) ob = ob'
     \<and> run_allowed step_recorder recorder_allowed (replicate (Suc n) (False, now, Drain)) ob
     \<and> accounted ob' \<and> rc_phase (ob_recorder ob') = Finished \<and> rc_pending (ob_recorder ob') = []
     \<and> buf (rc_queue (ob_recorder ob')) = [] \<and> ob_accepted ob' = ob_accepted ob \<and> rc_failed (ob_recorder ob') = rc_failed (ob_recorder ob)"
proof (induction n arbitrary: ob)
  case 0
  then show ?case using drain_finishes [OF 0(1-3), of now] by simp
next
  case (Suc n)
  obtain e q where q: "buf (rc_queue (ob_recorder ob)) = e # q" "length q = n"
    using Suc.prems(4) by (cases "buf (rc_queue (ob_recorder ob))") auto
  show ?case using drain_receives [OF Suc.prems(1-3) q(1), of now] Suc.IH q(2) Suc.prems(3) by fastforce
qed

section \<open>Properties\<close>

text \<open>C18. No request is lost or counted twice by the recorder: after any interleaving of requests, flushes,
  cleanups and the stop, with any failures of the store, what the queue accepted is what was written, what is pending
  and what is queued, in this order; and the statistics are the original ones plus exactly one for every counted
  event that was written from the queue or recorded by the middleware itself because the queue was full.\<close>

theorem every_request_counted_once:
  assumes ok: "store_ok (as_db s)"
    and steps: "run_allowed step_recorder recorder_allowed steps (start_observing capacity interval s)"
    and ob: "ob = run step_recorder steps (start_observing capacity interval s)"
  shows "ob_accepted ob = ob_booked ob @ rc_pending (ob_recorder ob) @ buf (rc_queue (ob_recorder ob))
       \<and> charges_of (as_db (ob_store ob)) = map (charged (ob_booked ob @ ob_direct ob)) (charges_of (as_db s))
       \<and> rc_flushed (ob_recorder ob) = of_nat (length (ob_booked ob))
       \<and> length (rc_pending (ob_recorder ob)) \<le> 256 \<and> store_ok (as_db (ob_store ob))"
proof -
  have "statistics_exact (as_db s) ob"
    unfolding ob by (rule exact_recording.run_keeps [OF exact_start [OF ok] steps])
  then show ?thesis by (simp add: statistics_exact_def accounted_def charged_by_def Let_def batch_size_def)
qed

theorem every_request_counted_once_witness:
  "charges_of (as_db (ob_store (run step_recorder
     [(False, 0, Request (sample_event 7 True)), (True, 1, Request (sample_event 7 True)), (False, 2, Request (sample_event 7 True))]
     (start_observing 1 second sample_usage_store)))) = [(7, None, 1)]"
proof -
  let ?steps = "[(False, 0, Request (sample_event 7 True)), (True, 1, Request (sample_event 7 True)), (False, 2, Request (sample_event 7 True))]"
  have al: "run_allowed step_recorder recorder_allowed ?steps (start_observing 1 second sample_usage_store)" by simp
  define ob where "ob = run step_recorder ?steps (start_observing 1 second sample_usage_store)"
  have "ob_booked ob = [] \<and> deferred (ob_direct ob) 7 = 1"
    by (simp add: ob_def start_observing_def newAPIUsageRecorder_def chan_make_def offer_event_def try_send_def sample_event_def
        RecordTokenUsage_def run_tx_def sample_usage_store_def sample_token_def empty_db_def find_row_Cons int8_def)
  moreover have "charges_of (as_db sample_usage_store) = [(7, None, 0)]"
    by (simp add: charges_of_def sample_usage_store_def sample_token_def)
  ultimately have "charges_of (as_db (ob_store ob)) = [(7, None, 1)]"
    using every_request_counted_once [OF sample_usage_ok al ob_def] by (simp add: charged_def)
  then show ?thesis by (simp add: ob_def)
qed

text \<open>C19. Stopping loses nothing: once the recorder is stopped and no further request arrives, it needs one turn
  per queued event and one more to end, and if the store takes the events then, all that was ever accepted is
  written, and no event is reported as failed.\<close>

theorem close_writes_everything:
  assumes ok: "store_ok (as_db s)"
    and steps: "run_allowed step_recorder recorder_allowed (steps @ [(fault, t, Stop)]) (start_observing capacity interval s)"
    and ob: "ob = run step_recorder (steps @ [(fault, t, Stop)]) (start_observing capacity interval s)"
    and room: "writable ob" and n: "n = length (buf (rc_queue (ob_recorder ob)))"
  shows "let ob' = run step_recorder (replicate (Suc n) (False, now, Drain)) ob in
         rc_phase (ob_recorder ob') = Finished \<and> ob_booked ob' = ob_accepted ob \<and> rc_failed (ob_recorder ob') = 0"
proof -
  have acc: "accounted ob" unfolding ob by (rule recording.run_keeps [OF accounted_start steps])
  have ph: "rc_phase (ob_recorder ob) = Draining" unfolding ob run_append by simp
  have "rc_failed (ob_recorder ob) = 0" using acc ph by (simp add: accounted_def Let_def)
  then show ?thesis using drains [OF acc room ph n [symmetric], of now] by (auto simp: accounted_def Let_def)
qed

theorem close_writes_everything_witness:
  "let ob = run step_recorder ([(False, 0, Request (sample_event 9 False))] @ [(False, 1, Stop)]) (start_observing 8 second sample_usage_store)
   in ob_accepted ob = [sample_event 9 False] \<and>
      ob_booked (run step_recorder (replicate 2 (False, 2, Drain)) ob) = [sample_event 9 False]"
proof -
  let ?steps = "[(False, 0, Request (sample_event 9 False))] @ [(False, 1, Stop)]"
  define ob where "ob = run step_recorder ?steps (start_observing 8 second sample_usage_store)"
  have al: "run_allowed step_recorder recorder_allowed ?steps (start_observing 8 second sample_usage_store)"
    by (simp add: start_observing_def newAPIUsageRecorder_def chan_make_def offer_event_def try_send_def)
  have fields: "rc_pending (ob_recorder ob) = []" "buf (rc_queue (ob_recorder ob)) = [sample_event 9 False]"
      "ob_accepted ob = [sample_event 9 False]" "ob_store ob = sample_usage_store"
    by (simp_all add: ob_def start_observing_def newAPIUsageRecorder_def chan_make_def offer_event_def try_send_def)
  have "row_fits (sample_event 9 False)"
    by (simp add: sample_event_def row_fits_def varchar_def column_text_def valid_utf8_def runes_ascii is_ascii_def
        invalid_chunk_def rune_error_def)
  then have w: "writable ob"
    using sample_usage_ok by (simp add: writable_def fields numbers_fit_def headroom_def sample_event_def int4_def
        sample_usage_store_def sample_token_def)
  have "Suc (length (buf (rc_queue (ob_recorder ob)))) = 2" by (simp add: fields)
  then have "ob_booked (run step_recorder (replicate 2 (False, 2, Drain)) ob) = ob_accepted ob"
    using close_writes_everything [OF sample_usage_ok al ob_def w refl, of 2] by (simp add: Let_def numeral_2_eq_2)
  then show ?thesis unfolding ob_def [symmetric] Let_def by (simp add: fields)
qed

end
