(* ===== verification/Notifications.thy ===== *)
theory Notifications
  imports Domains GoChan Models
begin

text \<open>
  The stored secrets of the integrations (\<open>src/api/integrations/secrets.go\<close>) and the delivery of notifications
  (\<open>notifications.go\<close>).  The secrets file holds the data itself: what \<open>encoding/json\<close> writes it reads back.  Of the
  libraries the URL parser, the JSON encoder, HMAC-SHA256 and the text of UUIDs are parameters; the remote services and the clock
  of the waits are an environment that is asked in order.
\<close>

section \<open>Secrets\<close>

record generic_webhook =
  gw_enabled :: bool
  gw_url :: string
  gw_secret :: string

record telegram_config =
  tg_enabled :: bool
  tg_bot_token :: string
  tg_chat_id :: string

record discord_config =
  dc_enabled :: bool
  dc_url :: string

record notification_config =
  nc_generic :: generic_webhook
  nc_telegram :: telegram_config
  nc_discord :: discord_config

record secret_data =
  sd_notifications :: notification_config
  sd_cloudflare :: string

definition no_generic :: generic_webhook where
  "no_generic = \<lparr>gw_enabled = False, gw_url = [], gw_secret = []\<rparr>"

definition no_telegram :: telegram_config where
  "no_telegram = \<lparr>tg_enabled = False, tg_bot_token = [], tg_chat_id = []\<rparr>"

definition no_discord :: discord_config where
  "no_discord = \<lparr>dc_enabled = False, dc_url = []\<rparr>"

definition no_secrets :: secret_data where
  "no_secrets =
     \<lparr>sd_notifications = \<lparr>nc_generic = no_generic, nc_telegram = no_telegram, nc_discord = no_discord\<rparr>, sd_cloudflare = []\<rparr>"

datatype secret_file = Missing | Unreadable | Holds secret_data

record secret_store =
  ss_data :: secret_data
  ss_file :: secret_file

definition NewSecretStore :: "secret_file \<Rightarrow> secret_store option" where
  "NewSecretStore f =
     (case f of
        Missing \<Rightarrow> Some \<lparr>ss_data = no_secrets, ss_file = f\<rparr>
      | Unreadable \<Rightarrow> None
      | Holds d \<Rightarrow> Some \<lparr>ss_data = d, ss_file = f\<rparr>)"

definition Notifications :: "secret_store \<Rightarrow> notification_config" where
  "Notifications s = sd_notifications (ss_data s)"

text \<open>The environment variable has precedence.\<close>

definition cloudflare_token :: "string \<Rightarrow> secret_store \<Rightarrow> string \<times> string" where
  "cloudflare_token env s = (if env \<noteq> [] then (env, ''environment'') else (sd_cloudflare (ss_data s), ''file''))"

text \<open>The file is replaced by a rename, the last of the steps that can fail.\<close>

definition persistLocked :: "bool \<Rightarrow> secret_store \<Rightarrow> bool \<times> secret_store" where
  "persistLocked fault s = (if fault then (False, s) else (True, s\<lparr>ss_file := Holds (ss_data s)\<rparr>))"

definition UpdateSecretNotifications :: "bool \<Rightarrow> (notification_config \<Rightarrow> notification_config) \<Rightarrow> secret_store \<Rightarrow> bool \<times> secret_store" where
  "UpdateSecretNotifications fault f s =
     persistLocked fault (s\<lparr>ss_data := (ss_data s)\<lparr>sd_notifications := f (sd_notifications (ss_data s))\<rparr>\<rparr>)"

definition SetCloudflare :: "bool \<Rightarrow> string \<Rightarrow> secret_store \<Rightarrow> bool \<times> secret_store" where
  "SetCloudflare fault token s = persistLocked fault (s\<lparr>ss_data := (ss_data s)\<lparr>sd_cloudflare := token\<rparr>\<rparr>)"

section \<open>Notifications\<close>

record notification_event =
  ne_name :: string
  ne_occurred_at :: time
  ne_email :: "mailbox_email_event option"
  ne_domain :: string
  ne_detail :: string

definition emailNotification :: "mailbox_email_event \<Rightarrow> notification_event" where
  "emailNotification e =
     \<lparr>ne_name = ''email.received'', ne_occurred_at = es_received_at (ev_email e), ne_email = Some e, ne_domain = [], ne_detail = []\<rparr>"

definition newline :: string where
  "newline = [CHR 0x0A]"

definition notificationText :: "notification_event \<Rightarrow> bool \<Rightarrow> string" where
  "notificationText e test =
     (case ne_email e of
        None \<Rightarrow>
          ''Domain alert'' @ newline @ ''Event: '' @ ne_name e @ newline @ ''Domain: '' @ ne_domain e @ newline @ ''Detail: '' @ ne_detail e
      | Some m \<Rightarrow>
          (if test then ''Notification test'' else ''New email'') @ newline @ ''Mailbox: '' @ ev_full_address m
          @ newline @ ''From: '' @ es_sender (ev_email m) @ newline @ ''Subject: '' @ es_subject (ev_email m)
          @ (if es_parsed_code (ev_email m) \<noteq> [] then newline @ ''Code: '' @ es_parsed_code (ev_email m) else [])
          @ (if es_parsed_link (ev_email m) \<noteq> [] then newline @ ''Link: '' @ es_parsed_link (ev_email m) else []))"

text \<open>The bodies by channel; the encoder makes the JSON of them.\<close>

datatype notification_body =
    Generic_Body notification_event bool
  | Telegram_Body string string
  | Discord_Body string

record notify_libs =
  nl_parse_uri :: "string \<Rightarrow> (string \<times> string) option"
  nl_marshal :: "notification_body \<Rightarrow> string"
  nl_hmac :: "string \<Rightarrow> string \<Rightarrow> string"

definition validateHTTPURL :: "notify_libs \<Rightarrow> string \<Rightarrow> bool" where
  "validateHTTPURL l v =
     (case nl_parse_uri l v of None \<Rightarrow> False | Some (scheme, host) \<Rightarrow> host \<noteq> [] \<and> (scheme = ''http'' \<or> scheme = ''https''))"

text \<open>Endpoint, body and signing secret of a channel; \<open>None\<close> when there is no such channel.\<close>

definition channel_request :: "notification_config \<Rightarrow> string \<Rightarrow> notification_event \<Rightarrow> bool \<Rightarrow> (string \<times> notification_body \<times> string) option" where
  "channel_request cfg channel e test =
     (if channel = ''generic'' then
        Some (trim_space (gw_url (nc_generic cfg)), Generic_Body e test, gw_secret (nc_generic cfg))
      else if channel = ''telegram'' then
        Some (if tg_bot_token (nc_telegram cfg) \<noteq> []
              then ''https://api.telegram.org/bot'' @ tg_bot_token (nc_telegram cfg) @ ''/sendMessage'' else [],
              Telegram_Body (tg_chat_id (nc_telegram cfg)) (notificationText e test), [])
      else if channel = ''discord'' then
        Some (trim_space (dc_url (nc_discord cfg)), Discord_Body (notificationText e test), [])
      else None)"

record webhook_request =
  wr_endpoint :: string
  wr_body :: string
  wr_signature :: "string option"

definition webhook :: "notify_libs \<Rightarrow> string \<Rightarrow> notification_body \<Rightarrow> string \<Rightarrow> webhook_request" where
  "webhook l endpoint body secret =
     (let raw = nl_marshal l body in
      \<lparr>wr_endpoint = endpoint, wr_body = raw,
       wr_signature = (if secret \<noteq> [] then Some (''sha256='' @ hex_encode (nl_hmac l secret raw)) else None)\<rparr>)"

text \<open>What the environment does with one attempt: the wait before it is cancelled, the request cannot be built, there
  is no answer, or an answer with a status.\<close>

datatype reply = Cancelled | Unbuildable | No_Answer | Answered int

definition ok_status :: "int \<Rightarrow> bool" where
  "ok_status c = (200 \<le> c \<and> c < 300)"

definition transient :: "reply \<Rightarrow> bool" where
  "transient r = (case r of No_Answer \<Rightarrow> True | Answered c \<Rightarrow> \<not> ok_status c \<and> (500 \<le> c \<or> c = 429) | _ \<Rightarrow> False)"

record delivery_status =
  ds_last_attempt_at :: "time option"
  ds_last_success_at :: "time option"
  ds_last_channel :: string
  ds_last_error :: string

definition recordDelivery :: "time \<Rightarrow> string \<Rightarrow> string option \<Rightarrow> delivery_status \<Rightarrow> delivery_status" where
  "recordDelivery now channel err st =
     (let st' = st\<lparr>ds_last_attempt_at := Some now, ds_last_channel := channel\<rparr> in
      case err of
        None \<Rightarrow> st'\<lparr>ds_last_success_at := Some now, ds_last_error := []\<rparr>
      | Some e \<Rightarrow> st'\<lparr>ds_last_error := e\<rparr>)"

definition reply_error :: "reply \<Rightarrow> string" where
  "reply_error r =
     (case r of Answered c \<Rightarrow> ''remote service returned HTTP '' @ itoa c | _ \<Rightarrow> ''delivery request failed'')"

text \<open>The loop over the attempts \<open>k\<close> on: the error (\<open>None\<close> for a delivery), whether the outcome is recorded, and the
  number of requests sent.  The wait is before every attempt but the first.\<close>

fun attempts :: "(nat \<Rightarrow> reply) \<Rightarrow> nat \<Rightarrow> nat \<Rightarrow> string \<Rightarrow> (string option \<times> bool) \<times> nat" where
  "attempts env 0 k err = ((Some err, True), 0)"
| "attempts env (Suc n) k err =
     (case env k of
        Cancelled \<Rightarrow> if k > 0 then ((Some ''context canceled'', False), 0) else
          (let (res, m) = attempts env n (Suc k) (reply_error Cancelled) in (res, Suc m))
      | Unbuildable \<Rightarrow> ((Some ''invalid request'', False), 0)
      | r \<Rightarrow>
          if (case r of Answered c \<Rightarrow> ok_status c | _ \<Rightarrow> False) then ((None, True), 1)
          else if transient r then (let (res, m) = attempts env n (Suc k) (reply_error r) in (res, Suc m))
          else ((Some (reply_error r), True), 1))"

definition deliverChannel ::
    "notify_libs \<Rightarrow> (nat \<Rightarrow> reply) \<Rightarrow> time \<Rightarrow> notification_config \<Rightarrow> string \<Rightarrow> notification_event \<Rightarrow> bool \<Rightarrow> delivery_status
     \<Rightarrow> string option \<times> webhook_request list \<times> delivery_status" where
  "deliverChannel l env now cfg channel e test st =
     (case channel_request cfg channel e test of
        None \<Rightarrow> (Some ''unsupported notification channel'', [], st)
      | Some (endpoint, body, secret) \<Rightarrow>
          if \<not> validateHTTPURL l endpoint then (Some (channel @ '' is not configured''), [], st)
          else
            (case attempts env 3 0 [] of ((err, recorded), n) \<Rightarrow>
               (err, replicate n (webhook l endpoint body secret), if recorded then recordDelivery now channel err st else st)))"

section \<open>The dispatcher\<close>

record dispatcher =
  di_queue :: "notification_event chan"
  di_dropped :: "nat"
  di_status :: delivery_status

definition NewDispatcher :: dispatcher where
  "NewDispatcher =
     \<lparr>di_queue = chan_make 128, di_dropped = 0,
      di_status = \<lparr>ds_last_attempt_at = None, ds_last_success_at = None, ds_last_channel = [], ds_last_error = []\<rparr>\<rparr>"

definition enqueue_notification :: "notification_event \<Rightarrow> dispatcher \<Rightarrow> dispatcher" where
  "enqueue_notification e d =
     (case try_send e (di_queue d) of Sent c \<Rightarrow> d\<lparr>di_queue := c\<rparr> | _ \<Rightarrow> d\<lparr>di_dropped := di_dropped d + 1\<rparr>)"

text \<open>The goroutine that forwards the mail events, and the verifier's events.\<close>

definition forward_email :: "mailbox_email_event \<Rightarrow> dispatcher \<Rightarrow> dispatcher" where
  "forward_email e = enqueue_notification (emailNotification e)"

definition PublishDomain :: "time \<Rightarrow> string \<Rightarrow> string \<Rightarrow> string \<Rightarrow> dispatcher \<Rightarrow> dispatcher" where
  "PublishDomain now name domain detail =
     enqueue_notification \<lparr>ne_name = name, ne_occurred_at = now, ne_email = None, ne_domain = domain, ne_detail = detail\<rparr>"

text \<open>\<open>deliverEmail\<close>: the enabled channels in order; \<open>env c\<close> is the environment of the channel's attempts.\<close>

fun deliver_channels ::
    "notify_libs \<Rightarrow> (string \<Rightarrow> nat \<Rightarrow> reply) \<Rightarrow> time \<Rightarrow> notification_config \<Rightarrow> notification_event \<Rightarrow> string list \<Rightarrow> delivery_status
     \<Rightarrow> webhook_request list \<times> delivery_status" where
  "deliver_channels l env now cfg e [] st = ([], st)"
| "deliver_channels l env now cfg e (c # cs) st =
     (case deliverChannel l (env c) now cfg c e False st of (_, sent1, st1) \<Rightarrow>
        (let (sent, st') = deliver_channels l env now cfg e cs st1 in (sent1 @ sent, st')))"

definition enabled_channels :: "notification_config \<Rightarrow> string list" where
  "enabled_channels cfg =
     (if gw_enabled (nc_generic cfg) then [''generic''] else [])
     @ (if tg_enabled (nc_telegram cfg) then [''telegram''] else [])
     @ (if dc_enabled (nc_discord cfg) then [''discord''] else [])"

definition deliverEmail ::
    "notify_libs \<Rightarrow> (string \<Rightarrow> nat \<Rightarrow> reply) \<Rightarrow> time \<Rightarrow> notification_config \<Rightarrow> notification_event \<Rightarrow> delivery_status
     \<Rightarrow> webhook_request list \<times> delivery_status" where
  "deliverEmail l env now cfg e st = deliver_channels l env now cfg e (enabled_channels cfg) st"

text \<open>One turn of a worker.\<close>

definition dispatch_next ::
    "notify_libs \<Rightarrow> (string \<Rightarrow> nat \<Rightarrow> reply) \<Rightarrow> time \<Rightarrow> notification_config \<Rightarrow> dispatcher
     \<Rightarrow> webhook_request list \<times> dispatcher" where
  "dispatch_next l env now cfg d =
     (case try_recv (di_queue d) of
        Got e c \<Rightarrow> (let (sent, st) = deliverEmail l env now cfg e (di_status d) in (sent, d\<lparr>di_queue := c, di_status := st\<rparr>))
      | _ \<Rightarrow> ([], d))"

definition test_event :: "time \<Rightarrow> notification_event" where
  "test_event now =
     emailNotification
       \<lparr>ev_mailbox_id = uuid_nil, ev_full_address = ''inbox@example.com'',
        ev_email = \<lparr>es_id = uuid_nil, es_sender = ''notify@example.com'', es_subject = ''FAR Mail notification test'',
          es_has_attachments = False, es_parsed_code = [], es_parsed_code_source = [], es_parsed_link = [],
          es_parsed_link_source = [], es_size_bytes = 0, es_received_at = now\<rparr>\<rparr>"

definition Test_Channel ::
    "notify_libs \<Rightarrow> (nat \<Rightarrow> reply) \<Rightarrow> time \<Rightarrow> notification_config \<Rightarrow> string \<Rightarrow> dispatcher
     \<Rightarrow> string option \<times> webhook_request list \<times> dispatcher" where
  "Test_Channel l env now cfg channel d =
     (case deliverChannel l env now cfg channel (test_event now) True (di_status d) of (err, sent, st) \<Rightarrow>
        (err, sent, d\<lparr>di_status := st\<rparr>))"

record dispatcher_status =
  dst_delivery :: delivery_status
  dst_queued :: nat
  dst_dropped :: nat

definition dispatcher_status :: "dispatcher \<Rightarrow> dispatcher_status" where
  "dispatcher_status d = \<lparr>dst_delivery = di_status d, dst_queued = length (buf (di_queue d)), dst_dropped = di_dropped d\<rparr>"

end
