(* ===== verification/Cloudflare.thy ===== *)
theory Cloudflare
  imports Domains
begin

text \<open>
  The plan of DNS records and its application at Cloudflare (\<open>src/api/integrations/cloudflare.go\<close>).  The service
  behind the HTTP client is the parameter \<open>api\<close>: it answers a request with a status and the decoded envelope, or not at
  all, and may change its own state \<open>'w\<close>.  The raw JSON of a result is of type \<open>'j\<close>; what \<open>encoding/json\<close> makes of it
  is the parameter \<open>dec\<close>, and \<open>net.ParseIP\<close> is \<open>parse_ip\<close> (whether the address is of version 4, and its text).
\<close>

section \<open>Records\<close>

record dns_rr =
  rr_type :: string
  rr_name :: string
  rr_content :: string
  rr_priority :: int
  rr_proxied :: bool

record cf_record = dns_rr +
  cf_id :: string

definition toDNSRecord :: "cf_record \<Rightarrow> dns_rr" where
  "toDNSRecord r = dns_rr.truncate r"

definition cf_normalizeDomain :: "(nat \<Rightarrow> nat) \<Rightarrow> string \<Rightarrow> string" where
  "cf_normalizeDomain lo v = trim_cut ''.'' (to_lower lo (trim_space v))"

text \<open>\<open>domainPattern\<close>: labels of one to 63 lower-case letters, digits and inner dashes, at least two of them, the last
  of two to 63 letters.\<close>

definition label_char :: "char \<Rightarrow> bool" where
  "label_char c = (is_lower c \<or> is_digit c)"

definition domain_label :: "string \<Rightarrow> bool" where
  "domain_label l =
     (l \<noteq> [] \<and> length l \<le> 63 \<and> label_char (hd l) \<and> label_char (last l) \<and> list_all (\<lambda>c. label_char c \<or> c = CHR ''-'') l)"

definition domainPattern :: "string \<Rightarrow> bool" where
  "domainPattern s =
     (let ls = split_byte s (CHR ''.'') in
      2 \<le> length ls \<and> list_all domain_label (butlast ls)
      \<and> list_all is_lower (last ls) \<and> 2 \<le> length (last ls) \<and> length (last ls) \<le> 63)"

definition BuildDNSRecords ::
    "(nat \<Rightarrow> nat) \<Rightarrow> (string \<Rightarrow> (bool \<times> string) option) \<Rightarrow> string \<Rightarrow> string \<Rightarrow> string \<Rightarrow> (string, dns_rr list) result" where
  "BuildDNSRecords lo parse_ip domain0 smtp_hostname ip0 =
     (let domain = cf_normalizeDomain lo domain0; hostname = cf_normalizeDomain lo smtp_hostname in
      if length domain > 253 \<or> \<not> domainPattern domain then Inl ''invalid root domain''
      else if length hostname > 253 \<or> \<not> domainPattern hostname then Inl ''SMTP hostname is not configured''
      else
        (let mx = \<lparr>rr_type = ''MX'', rr_name = domain, rr_content = hostname, rr_priority = 10, rr_proxied = False\<rparr> in
         Inr (if hostname = domain \<or> has_suffix hostname (''.'' @ domain) then
                (case parse_ip (trim_space ip0) of
                   None \<Rightarrow> [mx]
                 | Some (v4, text) \<Rightarrow>
                     [mx, \<lparr>rr_type = (if v4 then ''A'' else ''AAAA''), rr_name = hostname, rr_content = text,
                           rr_priority = 0, rr_proxied = False\<rparr>])
              else [mx])))"

definition sameDNSRecord :: "(nat \<Rightarrow> nat) \<Rightarrow> (nat \<Rightarrow> nat) \<Rightarrow> cf_record \<Rightarrow> dns_rr \<Rightarrow> bool" where
  "sameDNSRecord lo fo current desired =
     (let content = (\<lambda>s. trim_suffix (to_lower lo (trim_space s)) ''.'') in
      if \<not> equal_fold fo (rr_type current) (rr_type desired) \<or> content (rr_content current) \<noteq> content (rr_content desired) then False
      else if rr_proxied current \<noteq> rr_proxied desired then False
      else rr_type desired \<noteq> ''MX'' \<or> rr_priority current = rr_priority desired)"

section \<open>The client\<close>

datatype cf_path =
    Verify_Path
  | Zones_Path string
  | List_Path string string string
  | Records_Path string
  | Record_Path string string

text \<open>\<open>url.QueryEscape\<close>\<close>

definition query_escape :: "string \<Rightarrow> string" where
  "query_escape s =
     concat (map (\<lambda>c. if is_lower c \<or> is_upper c \<or> is_digit c \<or> c \<in> set ''-_.~'' then [c]
                      else if c = CHR '' '' then ''+''
                      else CHR ''%'' # map upper_char (hex_encode [c])) s)"

fun path_text :: "cf_path \<Rightarrow> string" where
  "path_text Verify_Path = ''/user/tokens/verify''"
| "path_text (Zones_Path domain) = ''/zones?name='' @ query_escape domain @ ''&status=active&per_page=50''"
| "path_text (List_Path z t n) =
     ''/zones/'' @ z @ ''/dns_records?type='' @ query_escape t @ ''&name='' @ query_escape n @ ''&per_page=100''"
| "path_text (Records_Path z) = ''/zones/'' @ z @ ''/dns_records''"
| "path_text (Record_Path z i) = ''/zones/'' @ z @ ''/dns_records/'' @ i"

datatype cf_method = Get | Post | Put | Delete

text \<open>The payload of a write; its \<open>ttl\<close> is always 1, and the priority is sent for MX records only.\<close>

record cf_payload =
  pl_type :: string
  pl_name :: string
  pl_content :: string
  pl_proxied :: bool
  pl_priority :: "int option"

definition payload_of :: "dns_rr \<Rightarrow> cf_payload" where
  "payload_of r =
     \<lparr>pl_type = rr_type r, pl_name = rr_name r, pl_content = rr_content r, pl_proxied = rr_proxied r,
      pl_priority = (if rr_type r = ''MX'' then Some (rr_priority r) else None)\<rparr>"

record cf_request =
  rq_token :: string
  rq_method :: cf_method
  rq_path :: cf_path
  rq_payload :: "cf_payload option"

record 'j cf_response =
  rs_status :: int
  rs_envelope :: "(bool \<times> 'j option \<times> string list) option"

record cf_zone =
  zn_id :: string
  zn_name :: string

record 'j cf_decoder =
  dec_zones :: "'j \<Rightarrow> cf_zone list option"
  dec_records :: "'j \<Rightarrow> cf_record list option"
  dec_record :: "'j \<Rightarrow> cf_record option"
  dec_object :: "'j \<Rightarrow> bool"

type_synonym ('w, 'j) cf_api = "cf_request \<Rightarrow> 'w \<Rightarrow> 'j cf_response option \<times> 'w"

definition cf_message :: "string list \<Rightarrow> string" where
  "cf_message errors =
     (case errors of [] \<Rightarrow> ''Cloudflare API rejected the request''
      | m # _ \<Rightarrow> if m \<noteq> [] then m else ''Cloudflare API rejected the request'')"

text \<open>\<open>target\<close> is what the caller decodes into, with its value when there is no result.\<close>

definition cf_call ::
    "('w, 'j) cf_api \<Rightarrow> ('j \<Rightarrow> 'a option) \<Rightarrow> 'a \<Rightarrow> string \<Rightarrow> cf_method \<Rightarrow> cf_path \<Rightarrow> cf_payload option \<Rightarrow> 'w
     \<Rightarrow> (string, 'a) result \<times> 'w" where
  "cf_call api target initial token http_method path payload w =
     (case api \<lparr>rq_token = trim_space token, rq_method = http_method, rq_path = path, rq_payload = payload\<rparr> w of
        (None, w') \<Rightarrow> (Inl ''Cloudflare request failed'', w')
      | (Some r, w') \<Rightarrow>
          (case rs_envelope r of
             None \<Rightarrow> (Inl ''invalid Cloudflare response'', w')
           | Some (success, raw, errors) \<Rightarrow>
               if rs_status r < 200 \<or> rs_status r \<ge> 300 \<or> \<not> success then (Inl (cf_message errors), w')
               else case raw of
                 None \<Rightarrow> (Inr initial, w')
               | Some j \<Rightarrow> (case target j of None \<Rightarrow> (Inl ''invalid Cloudflare result'', w') | Some x \<Rightarrow> (Inr x, w'))))"

definition empty_record :: cf_record where
  "empty_record = \<lparr>rr_type = [], rr_name = [], rr_content = [], rr_priority = 0, rr_proxied = False, cf_id = []\<rparr>"

definition resolveZone ::
    "('w, 'j) cf_api \<Rightarrow> 'j cf_decoder \<Rightarrow> (nat \<Rightarrow> nat) \<Rightarrow> (nat \<Rightarrow> nat) \<Rightarrow> string \<Rightarrow> string \<Rightarrow> 'w \<Rightarrow> (string, string \<times> string) result \<times> 'w" where
  "resolveZone api dec lo fo token domain0 w =
     (let domain = cf_normalizeDomain lo domain0 in
      if length domain > 253 \<or> \<not> domainPattern domain then (Inl ''invalid root domain'', w)
      else case cf_call api (dec_zones dec) [] token Get (Zones_Path domain) None w of
        (Inl e, w') \<Rightarrow> (Inl e, w')
      | (Inr zs, w') \<Rightarrow>
          (case List.find (\<lambda>z. equal_fold fo (zn_name z) domain) zs of
             Some z \<Rightarrow> (Inr (zn_id z, zn_name z), w')
           | None \<Rightarrow> (Inl (''Cloudflare Zone not found for '' @ domain), w')))"

definition listRecords ::
    "('w, 'j) cf_api \<Rightarrow> 'j cf_decoder \<Rightarrow> string \<Rightarrow> string \<Rightarrow> string \<Rightarrow> string \<Rightarrow> 'w \<Rightarrow> (string, cf_record list) result \<times> 'w" where
  "listRecords api dec token zone t n w = cf_call api (dec_records dec) [] token Get (List_Path zone t n) None w"

definition putRecord ::
    "('w, 'j) cf_api \<Rightarrow> 'j cf_decoder \<Rightarrow> string \<Rightarrow> string \<Rightarrow> string \<Rightarrow> dns_rr \<Rightarrow> 'w \<Rightarrow> (string, cf_record) result \<times> 'w" where
  "putRecord api dec token zone i r w = cf_call api (dec_record dec) empty_record token Put (Record_Path zone i) (Some (payload_of r)) w"

definition createRecord ::
    "('w, 'j) cf_api \<Rightarrow> 'j cf_decoder \<Rightarrow> string \<Rightarrow> string \<Rightarrow> dns_rr \<Rightarrow> 'w \<Rightarrow> (string, cf_record) result \<times> 'w" where
  "createRecord api dec token zone r w = cf_call api (dec_record dec) empty_record token Post (Records_Path zone) (Some (payload_of r)) w"

definition deleteRecord :: "('w, 'j) cf_api \<Rightarrow> string \<Rightarrow> string \<Rightarrow> string \<Rightarrow> 'w \<Rightarrow> (string, unit) result \<times> 'w" where
  "deleteRecord api token zone i w = cf_call api (\<lambda>_. Some ()) () token Delete (Record_Path zone i) None w"

definition Test ::
    "('w, 'j) cf_api \<Rightarrow> 'j cf_decoder \<Rightarrow> (nat \<Rightarrow> nat) \<Rightarrow> (nat \<Rightarrow> nat) \<Rightarrow> string \<Rightarrow> string \<Rightarrow> 'w \<Rightarrow> (string, string) result \<times> 'w" where
  "Test api dec lo fo token domain w =
     (if trim_space token = [] then (Inl ''Cloudflare API Token is not configured'', w)
      else if trim_space domain \<noteq> [] then
        (case resolveZone api dec lo fo token domain w of
           (Inl e, w') \<Rightarrow> (Inl e, w')
         | (Inr (i, zone), w') \<Rightarrow> (Inr (zone @ '' ('' @ i @ '')''), w'))
      else case cf_call api (\<lambda>j. if dec_object dec j then Some () else None) () token Get Verify_Path None w of
        (Inl e, w') \<Rightarrow> (Inl e, w')
      | (Inr _, w') \<Rightarrow> (Inr ''token active'', w'))"

section \<open>The plan\<close>

record dns_action =
  da_record :: dns_rr
  da_status :: string
  da_detail :: string
  da_previous :: "cf_record option"

record dns_plan =
  dp_domain :: string
  dp_zone_id :: string
  dp_zone :: string
  dp_items :: "dns_action list"
  dp_rolled_back :: bool
  dp_rollback_error :: string

definition empty_plan :: dns_plan where
  "empty_plan =
     \<lparr>dp_domain = [], dp_zone_id = [], dp_zone = [], dp_items = [], dp_rolled_back = False, dp_rollback_error = []\<rparr>"

definition plan_action :: "(nat \<Rightarrow> nat) \<Rightarrow> (nat \<Rightarrow> nat) \<Rightarrow> dns_rr \<Rightarrow> cf_record list \<Rightarrow> dns_action" where
  "plan_action lo fo r existing =
     (let act = (\<lambda>st detail prev. \<lparr>da_record = r, da_status = st, da_detail = detail, da_previous = prev\<rparr>) in
      case existing of
        [] \<Rightarrow> act ''create'' [] None
      | [e] \<Rightarrow> if sameDNSRecord lo fo e r then act ''unchanged'' [] (Some e)
               else act ''conflict'' ''an existing record has a different value'' (Some e)
      | _ \<Rightarrow> act ''conflict'' ''multiple records already exist'' None)"

text \<open>The items of the plan so far are returned with the error.\<close>

fun plan_items ::
    "('w, 'j) cf_api \<Rightarrow> 'j cf_decoder \<Rightarrow> (nat \<Rightarrow> nat) \<Rightarrow> (nat \<Rightarrow> nat) \<Rightarrow> string \<Rightarrow> string \<Rightarrow> dns_rr list \<Rightarrow> dns_action list \<Rightarrow> 'w
     \<Rightarrow> (string option \<times> dns_action list) \<times> 'w" where
  "plan_items api dec lo fo token zone [] items w = ((None, items), w)"
| "plan_items api dec lo fo token zone (r # rs) items w =
     (case listRecords api dec token zone (rr_type r) (rr_name r) w of
        (Inl e, w') \<Rightarrow> ((Some e, items), w')
      | (Inr existing, w') \<Rightarrow> plan_items api dec lo fo token zone rs (items @ [plan_action lo fo r existing]) w')"

definition Preview ::
    "('w, 'j) cf_api \<Rightarrow> 'j cf_decoder \<Rightarrow> (nat \<Rightarrow> nat) \<Rightarrow> (nat \<Rightarrow> nat) \<Rightarrow> string \<Rightarrow> string \<Rightarrow> dns_rr list \<Rightarrow> 'w
     \<Rightarrow> (string option \<times> dns_plan) \<times> 'w" where
  "Preview api dec lo fo token domain desired w =
     (case resolveZone api dec lo fo token domain w of
        (Inl e, w1) \<Rightarrow> ((Some e, empty_plan), w1)
      | (Inr (i, zone), w1) \<Rightarrow>
          (case plan_items api dec lo fo token i desired [] w1 of ((err, items), w2) \<Rightarrow>
             ((err, empty_plan\<lparr>dp_domain := cf_normalizeDomain lo domain, dp_zone_id := i, dp_zone := zone, dp_items := items\<rparr>), w2)))"

section \<open>Application\<close>

definition rolled_back :: "dns_action \<Rightarrow> dns_action" where
  "rolled_back a = a\<lparr>da_status := ''rolled_back'', da_detail := ''automatically reverted after a later DNS write failed''\<rparr>"

definition revert_change ::
    "('w, 'j) cf_api \<Rightarrow> 'j cf_decoder \<Rightarrow> string \<Rightarrow> string \<Rightarrow> dns_action \<Rightarrow> string \<Rightarrow> 'w \<Rightarrow> string option \<times> 'w" where
  "revert_change api dec token zone a i w =
     (case da_previous a of
        None \<Rightarrow> (case deleteRecord api token zone i w of (Inl e, w') \<Rightarrow> (Some e, w') | (Inr _, w') \<Rightarrow> (None, w'))
      | Some r \<Rightarrow> (case putRecord api dec token zone i (toDNSRecord r) w of (Inl e, w') \<Rightarrow> (Some e, w') | (Inr _, w') \<Rightarrow> (None, w')))"

text \<open>The applied changes, last first: the position of the action and the id of the record.\<close>

fun revert_all ::
    "('w, 'j) cf_api \<Rightarrow> 'j cf_decoder \<Rightarrow> string \<Rightarrow> string \<Rightarrow> (nat \<times> string) list \<Rightarrow> dns_action list \<Rightarrow> bool \<Rightarrow> 'w
     \<Rightarrow> (bool \<times> dns_action list) \<times> 'w" where
  "revert_all api dec token zone [] items failed w = ((failed, items), w)"
| "revert_all api dec token zone ((k, i) # changes) items failed w =
     (case revert_change api dec token zone (items ! k) i w of
        (Some e, w') \<Rightarrow> revert_all api dec token zone changes items True w'
      | (None, w') \<Rightarrow> revert_all api dec token zone changes (items[k := rolled_back (items ! k)]) failed w')"

definition rollbackApply ::
    "('w, 'j) cf_api \<Rightarrow> 'j cf_decoder \<Rightarrow> string \<Rightarrow> dns_plan \<Rightarrow> (nat \<times> string) list \<Rightarrow> string \<Rightarrow> 'w \<Rightarrow> (string option \<times> dns_plan) \<times> 'w" where
  "rollbackApply api dec token plan applied cause w =
     (case revert_all api dec token (dp_zone_id plan) (rev applied) (dp_items plan) False w of ((failed, items), w') \<Rightarrow>
        if \<not> failed then ((Some cause, plan\<lparr>dp_items := items, dp_rolled_back := True\<rparr>), w')
        else ((Some (''Cloudflare apply failed and rollback was incomplete: '' @ cause),
               plan\<lparr>dp_items := items, dp_rollback_error := ''automatic rollback could not restore every record''\<rparr>), w'))"

text \<open>The loop from the item at \<open>k\<close> on; \<open>n\<close> is the number of items left.\<close>

fun apply_from ::
    "('w, 'j) cf_api \<Rightarrow> 'j cf_decoder \<Rightarrow> string \<Rightarrow> bool \<Rightarrow> nat \<Rightarrow> nat \<Rightarrow> dns_plan \<Rightarrow> (nat \<times> string) list \<Rightarrow> 'w
     \<Rightarrow> (string option \<times> dns_plan) \<times> 'w" where
  "apply_from api dec token confirm 0 k plan applied w = ((None, plan), w)"
| "apply_from api dec token confirm (Suc n) k plan applied w =
     (let a = dp_items plan ! k; zone = dp_zone_id plan; r = da_record a;
          put = (\<lambda>a. plan\<lparr>dp_items := (dp_items plan)[k := a]\<rparr>) in
      if da_status a = ''unchanged'' then apply_from api dec token confirm n (Suc k) plan applied w
      else if da_status a = ''conflict'' then
        (if \<not> confirm \<or> da_detail a = ''multiple records already exist'' then apply_from api dec token confirm n (Suc k) plan applied w
         else case listRecords api dec token zone (rr_type r) (rr_name r) w of
           (Inl e, w1) \<Rightarrow> ((Some e, plan), w1)
         | (Inr [e], w1) \<Rightarrow>
             (case putRecord api dec token zone (cf_id e) r w1 of
                (Inl err, w2) \<Rightarrow> rollbackApply api dec token plan applied err w2
              | (Inr _, w2) \<Rightarrow>
                  apply_from api dec token confirm n (Suc k) (put (a\<lparr>da_status := ''update'', da_detail := []\<rparr>)) (applied @ [(k, cf_id e)]) w2)
         | (Inr _, w1) \<Rightarrow> apply_from api dec token confirm n (Suc k) plan applied w1)
      else if da_status a = ''create'' then
        (case createRecord api dec token zone r w of
           (Inl err, w1) \<Rightarrow> rollbackApply api dec token plan applied err w1
         | (Inr created, w1) \<Rightarrow>
             apply_from api dec token confirm n (Suc k) (put (a\<lparr>da_status := ''created''\<rparr>)) (applied @ [(k, cf_id created)]) w1)
      else apply_from api dec token confirm n (Suc k) plan applied w)"

definition Apply ::
    "('w, 'j) cf_api \<Rightarrow> 'j cf_decoder \<Rightarrow> (nat \<Rightarrow> nat) \<Rightarrow> (nat \<Rightarrow> nat) \<Rightarrow> string \<Rightarrow> string \<Rightarrow> dns_rr list \<Rightarrow> bool \<Rightarrow> 'w
     \<Rightarrow> (string option \<times> dns_plan) \<times> 'w" where
  "Apply api dec lo fo token domain desired confirm w =
     (case Preview api dec lo fo token domain desired w of
        ((Some e, plan), w1) \<Rightarrow> ((Some e, plan), w1)
      | ((None, plan), w1) \<Rightarrow> apply_from api dec token confirm (length (dp_items plan)) 0 plan [] w1)"

end
