(* ===== verification/Integrations.thy ===== *)
theory Integrations
  imports Notifications Cloudflare Domain_Admin Mailboxes
begin

text \<open>
  The handlers of the integrations (\<open>src/api/handler/integration.go\<close>) and their audit log
  (\<open>src/api/store/audit.go\<close>).  Of a body the status and the message are kept, and the view of the configuration; a
  request whose JSON does not bind is \<open>None\<close>.  \<open>net/url\<close> is a parameter.
\<close>

section \<open>The audit log\<close>

record audit_event =
  au_id :: int
  au_integration :: string
  au_action :: string
  au_domain :: string
  au_status :: string
  au_detail :: string
  au_at :: time

text \<open>The new row has the next id.\<close>

definition RecordIntegrationAudit ::
    "bool \<Rightarrow> time \<Rightarrow> string \<Rightarrow> string \<Rightarrow> string \<Rightarrow> string \<Rightarrow> string \<Rightarrow> audit_event list \<Rightarrow> (db_error, unit) result \<times> audit_event list" where
  "RecordIntegrationAudit fault now integration action domain st detail rows =
     (let e = \<lparr>au_id = int (length rows) + 1, au_integration = trim_space integration, au_action = trim_space action,
               au_domain = trim_space domain, au_status = trim_space st, au_detail = trim_space detail, au_at = now\<rparr> in
      if fault then (Inl Fault, rows)
      else if \<not> varchar 32 (au_integration e) \<or> \<not> varchar 32 (au_action e) \<or> \<not> varchar 255 (au_domain e)
              \<or> \<not> varchar 16 (au_status e) \<or> \<not> column_text (au_detail e) then (Inl OutOfRange, rows)
      else (Inr (), rows @ [e]))"

definition ListIntegrationAudit :: "bool \<Rightarrow> int \<Rightarrow> audit_event list \<Rightarrow> (db_error, audit_event list) result" where
  "ListIntegrationAudit fault limit0 rows =
     (let limit = (if limit0 < 1 then 50 else if limit0 > 200 then 200 else limit0) in
      if fault then Inl Fault
      else Inr (take (nat limit) (rev (sort_key (\<lambda>e. (au_at e, au_id e)) rows))))"

section \<open>The configuration\<close>

record url_libs =
  ul_parse :: "string \<Rightarrow> (string \<times> string) option"
  ul_parse_request :: "string \<Rightarrow> (string \<times> string) option"

definition maskedTarget :: "url_libs \<Rightarrow> string \<Rightarrow> string" where
  "maskedTarget l v =
     (case ul_parse l v of
        None \<Rightarrow> []
      | Some (scheme, host) \<Rightarrow> if host = [] then [] else scheme @ ''://'' @ host @ ''/...'')"

definition validateIntegrationURL :: "url_libs \<Rightarrow> string \<Rightarrow> bool" where
  "validateIntegrationURL l v =
     (case ul_parse_request l v of
        None \<Rightarrow> False
      | Some (scheme, host) \<Rightarrow> host \<noteq> [] \<and> (scheme = ''http'' \<or> scheme = ''https''))"

record config_view =
  cv_generic :: "bool \<times> bool \<times> string \<times> bool"
  cv_telegram :: "bool \<times> bool \<times> string"
  cv_discord :: "bool \<times> bool \<times> string"

definition NotificationConfig :: "url_libs \<Rightarrow> secret_store \<Rightarrow> config_view" where
  "NotificationConfig l s =
     (let c = Notifications s; g = nc_generic c; t = nc_telegram c; d = nc_discord c in
      \<lparr>cv_generic = (gw_enabled g, gw_url g \<noteq> [], maskedTarget l (gw_url g), gw_secret g \<noteq> []),
       cv_telegram = (tg_enabled t, tg_bot_token t \<noteq> [] \<and> tg_chat_id t \<noteq> [], tg_chat_id t),
       cv_discord = (dc_enabled d, dc_url d \<noteq> [], maskedTarget l (dc_url d))\<rparr>)"

record channel_update =
  cu_enabled :: bool
  cu_url :: string
  cu_secret :: string
  cu_bot_token :: string
  cu_chat_id :: string
  cu_clear :: bool

record notification_update =
  nu_generic :: channel_update
  nu_telegram :: channel_update
  nu_discord :: channel_update

definition update_generic :: "url_libs \<Rightarrow> channel_update \<Rightarrow> generic_webhook \<Rightarrow> (string, generic_webhook) result" where
  "update_generic l u g =
     (if cu_clear u then Inr no_generic
      else
        (let g1 = g\<lparr>gw_enabled := cu_enabled u\<rparr>; url = trim_space (cu_url u) in
         rbind (if url \<noteq> [] then (if \<not> validateIntegrationURL l url then Inl ''invalid generic Webhook URL'' else Inr (g1\<lparr>gw_url := url\<rparr>))
                else Inr g1) (\<lambda>g2.
           Inr (if cu_secret u \<noteq> [] then g2\<lparr>gw_secret := cu_secret u\<rparr> else g2))))"

definition update_telegram :: "channel_update \<Rightarrow> telegram_config \<Rightarrow> telegram_config" where
  "update_telegram u t =
     (if cu_clear u then no_telegram
      else
        (let t1 = t\<lparr>tg_enabled := cu_enabled u\<rparr>; bot = trim_space (cu_bot_token u); chat = trim_space (cu_chat_id u);
             t2 = (if bot \<noteq> [] then t1\<lparr>tg_bot_token := bot\<rparr> else t1) in
         if chat \<noteq> [] then t2\<lparr>tg_chat_id := chat\<rparr> else t2))"

definition update_discord :: "url_libs \<Rightarrow> channel_update \<Rightarrow> discord_config \<Rightarrow> (string, discord_config) result" where
  "update_discord l u d =
     (if cu_clear u then Inr no_discord
      else
        (let d1 = d\<lparr>dc_enabled := cu_enabled u\<rparr>; url = trim_space (cu_url u) in
         if url \<noteq> [] then (if \<not> validateIntegrationURL l url then Inl ''invalid Discord Webhook URL'' else Inr (d1\<lparr>dc_url := url\<rparr>))
         else Inr d1))"

definition incomplete :: "notification_config \<Rightarrow> bool" where
  "incomplete c =
     ((gw_enabled (nc_generic c) \<and> gw_url (nc_generic c) = [])
      \<or> (tg_enabled (nc_telegram c) \<and> (tg_bot_token (nc_telegram c) = [] \<or> tg_chat_id (nc_telegram c) = []))
      \<or> (dc_enabled (nc_discord c) \<and> dc_url (nc_discord c) = []))"

definition UpdateNotifications :: "bool \<Rightarrow> url_libs \<Rightarrow> notification_update option \<Rightarrow> secret_store \<Rightarrow> answer_text \<times> secret_store" where
  "UpdateNotifications fault l body s =
     (case body of
        None \<Rightarrow> ((400, ''invalid notification configuration''), s)
      | Some u \<Rightarrow>
          (let c = Notifications s in
           case update_generic l (nu_generic u) (nc_generic c) of
             Inl e \<Rightarrow> ((400, e), s)
           | Inr g \<Rightarrow>
               (case update_discord l (nu_discord u) (nc_discord c) of
                  Inl e \<Rightarrow> ((400, e), s)
                | Inr d \<Rightarrow>
                    (let c' = \<lparr>nc_generic = g, nc_telegram = update_telegram (nu_telegram u) (nc_telegram c), nc_discord = d\<rparr> in
                     if incomplete c' then ((400, ''enabled notification channels require complete credentials''), s)
                     else case UpdateSecretNotifications fault (\<lambda>_. c') s of
                       (False, s') \<Rightarrow> ((500, ''unable to store notification configuration''), s')
                     | (True, s') \<Rightarrow> ((200, ''notification configuration updated''), s')))))"

definition TestNotification ::
    "(nat \<Rightarrow> nat) \<Rightarrow> notify_libs \<Rightarrow> (nat \<Rightarrow> reply) \<Rightarrow> time \<Rightarrow> string option \<Rightarrow> secret_store \<Rightarrow> dispatcher
     \<Rightarrow> answer_text \<times> webhook_request list \<times> dispatcher" where
  "TestNotification lo l env now body s d =
     (case body of
        None \<Rightarrow> ((400, ''notification channel required''), [], d)
      | Some raw \<Rightarrow>
          (let channel = to_lower lo (trim_space raw) in
           if channel \<notin> {''generic'', ''telegram'', ''discord''} then ((400, ''unsupported notification channel''), [], d)
           else case Test_Channel l env now (Notifications s) channel d of
             (Some e, sent, d') \<Rightarrow> ((502, e), sent, d')
           | (None, sent, d') \<Rightarrow> ((200, ''test notification delivered''), sent, d')))"

section \<open>Cloudflare\<close>

definition CloudflareConfig :: "string \<Rightarrow> secret_store \<Rightarrow> bool \<times> string" where
  "CloudflareConfig env s = (let (token, source) = cloudflare_token env s in (trim_space token \<noteq> [], source))"

definition UpdateCloudflare ::
    "bool \<Rightarrow> bool \<Rightarrow> time \<Rightarrow> string \<Rightarrow> (string \<times> bool) option \<Rightarrow> secret_store \<Rightarrow> audit_event list
     \<Rightarrow> answer_text \<times> secret_store \<times> audit_event list" where
  "UpdateCloudflare fault audit_fault now env body s rows =
     (if snd (cloudflare_token env s) = ''environment'' then ((409, ''Cloudflare API Token is managed by environment''), s, rows)
      else case body of
        None \<Rightarrow> ((400, ''invalid Cloudflare configuration''), s, rows)
      | Some (raw, clear) \<Rightarrow>
          (let token = (if clear then [] else trim_space raw) in
           if \<not> clear \<and> token = [] then ((400, ''Cloudflare API Token required''), s, rows)
           else case SetCloudflare fault token s of
             (False, s') \<Rightarrow> ((500, ''unable to store Cloudflare configuration''), s', rows)
           | (True, s') \<Rightarrow>
               ((200, ''Cloudflare configuration updated''), s',
                snd (RecordIntegrationAudit audit_fault now ''cloudflare'' ''credentials'' [] (if clear then ''cleared'' else ''updated'')
                       ''token value omitted'' rows))))"

text \<open>A body that does not bind is an empty domain.\<close>

definition TestCloudflare ::
    "('w, 'j) cf_api \<Rightarrow> 'j cf_decoder \<Rightarrow> (nat \<Rightarrow> nat) \<Rightarrow> (nat \<Rightarrow> nat) \<Rightarrow> string \<Rightarrow> string option \<Rightarrow> secret_store \<Rightarrow> 'w
     \<Rightarrow> answer_text \<times> 'w" where
  "TestCloudflare api dec lo fo env body s w =
     (case Test api dec lo fo (fst (cloudflare_token env s)) (case body of None \<Rightarrow> [] | Some d \<Rightarrow> d) w of
        (Inl e, w') \<Rightarrow> ((502, e), w')
      | (Inr zone, w') \<Rightarrow> ((200, zone), w'))"

definition integration_setting :: "bool \<Rightarrow> string \<Rightarrow> string \<Rightarrow> db \<Rightarrow> string" where
  "integration_setting fault key fallback d =
     (if fault then trim_space fallback
      else case GetSetting d key of
        Inl _ \<Rightarrow> trim_space fallback
      | Inr v \<Rightarrow> if trim_space v \<noteq> [] then trim_space v else trim_space fallback)"

definition wanted_records ::
    "fault_at \<Rightarrow> (nat \<Rightarrow> nat) \<Rightarrow> (string \<Rightarrow> (bool \<times> string) option) \<Rightarrow> site_config \<Rightarrow> string \<Rightarrow> db \<Rightarrow> (string, dns_rr list) result" where
  "wanted_records ft lo parse_ip cfg domain d =
     BuildDNSRecords lo parse_ip domain (integration_setting (ft 0) ''smtp_hostname'' (sc_hostname cfg) d)
       (integration_setting (ft 1) ''smtp_server_ip'' (sc_ip cfg) d)"

definition DNSPreview ::
    "fault_at \<Rightarrow> (nat \<Rightarrow> nat) \<Rightarrow> (string \<Rightarrow> (bool \<times> string) option) \<Rightarrow> site_config \<Rightarrow> (string \<times> bool) option \<Rightarrow> db
     \<Rightarrow> answer_text \<times> dns_plan option" where
  "DNSPreview ft lo parse_ip cfg body d =
     (case body of
        None \<Rightarrow> ((400, ''domain required''), None)
      | Some (domain, _) \<Rightarrow>
          (case wanted_records ft lo parse_ip cfg domain d of
             Inl e \<Rightarrow> ((400, e), None)
           | Inr rs \<Rightarrow>
               ((200, []), Some (empty_plan\<lparr>dp_domain := to_lower lo (trim_space domain),
                  dp_items := map (\<lambda>r. \<lparr>da_record = r, da_status = ''required'', da_detail = [], da_previous = None\<rparr>) rs\<rparr>))))"

definition cloudflarePlan ::
    "fault_at \<Rightarrow> ('w, 'j) cf_api \<Rightarrow> 'j cf_decoder \<Rightarrow> (nat \<Rightarrow> nat) \<Rightarrow> (nat \<Rightarrow> nat) \<Rightarrow> (string \<Rightarrow> (bool \<times> string) option) \<Rightarrow> site_config
     \<Rightarrow> time \<Rightarrow> string \<Rightarrow> bool \<Rightarrow> (string \<times> bool) option \<Rightarrow> db \<Rightarrow> secret_store \<Rightarrow> audit_event list \<Rightarrow> 'w
     \<Rightarrow> (answer_text \<times> dns_plan option) \<times> audit_event list \<times> 'w" where
  "cloudflarePlan ft api dec lo fo parse_ip cfg now env apply_it body d s rows w =
     (case body of
        None \<Rightarrow> (((400, ''domain required''), None), rows, w)
      | Some (domain, confirm) \<Rightarrow>
          (case wanted_records ft lo parse_ip cfg domain d of
             Inl e \<Rightarrow> (((400, e), None), rows, w)
           | Inr rs \<Rightarrow>
               (let token = fst (cloudflare_token env s);
                    ((err, plan), w') = (if apply_it then Apply api dec lo fo token domain rs confirm w
                                         else Preview api dec lo fo token domain rs w);
                    audit = (\<lambda>st. snd (RecordIntegrationAudit (ft 2) now ''cloudflare'' (if apply_it then ''apply'' else ''preview'')
                                       (dp_domain plan) st (''items='' @ itoa (int (length (dp_items plan)))) rows)) in
                case err of
                  Some e \<Rightarrow> (((502, e), Some plan), audit (if dp_rolled_back plan then ''rolled_back'' else ''failed''), w')
                | None \<Rightarrow> (((200, []), Some plan), audit ''success'', w'))))"

definition CloudflarePreview where
  "CloudflarePreview ft api dec lo fo parse_ip cfg now env = cloudflarePlan ft api dec lo fo parse_ip cfg now env False"

definition CloudflareApply where
  "CloudflareApply ft api dec lo fo parse_ip cfg now env = cloudflarePlan ft api dec lo fo parse_ip cfg now env True"

end
