(* ===== verification/Cloudflare_Promises.thy ===== *)
theory Cloudflare_Promises
  imports Cloudflare
begin

text \<open>
  What applying a DNS plan promises of a service that behaves as documented: a list request returns the records of a type
  and name, a write that is acknowledged is done, and one that is refused is not done.  Of a write that gets no readable
  answer nothing is known: it may have been done or not.  A failed application that reports its rollback has restored
  the zone, but for the write whose outcome it did not learn; no existing record changes without confirmation, and what
  a successful application reports is what the zone has.
\<close>

section \<open>The documented behaviour of the service\<close>

type_synonym zone = "string \<rightharpoonup> cf_record"

definition stored :: "dns_rr \<Rightarrow> string \<Rightarrow> cf_record" where
  "stored r i =
     \<lparr>rr_type = rr_type r, rr_name = rr_name r, rr_content = rr_content r,
      rr_priority = (if rr_type r = ''MX'' then rr_priority r else 0), rr_proxied = rr_proxied r, cf_id = i\<rparr>"

definition rr_key :: "'x dns_rr_scheme \<Rightarrow> string \<times> string" where
  "rr_key r = (rr_type r, rr_name r)"

definition listing :: "zone \<Rightarrow> string \<times> string \<Rightarrow> cf_record list \<Rightarrow> bool" where
  "listing f k rs = (distinct rs \<and> (\<forall>r. r \<in> set rs \<longleftrightarrow> f (cf_id r) = Some r \<and> rr_key r = k))"

definition lists_records :: "('w, 'j) cf_api \<Rightarrow> 'j cf_decoder \<Rightarrow> (string \<Rightarrow> 'w \<Rightarrow> zone) \<Rightarrow> bool" where
  "lists_records api dec zone =
     (\<forall>tok z t n w. (\<forall>y. zone y (snd (listRecords api dec tok z t n w)) = zone y w)
        \<and> (\<forall>rs. fst (listRecords api dec tok z t n w) = Inr rs \<longrightarrow> listing (zone z w) (t, n) rs))"

definition finds_zones :: "('w, 'j) cf_api \<Rightarrow> 'j cf_decoder \<Rightarrow> (string \<Rightarrow> 'w \<Rightarrow> zone) \<Rightarrow> bool" where
  "finds_zones api dec zone =
     (\<forall>tok domain w y. zone y (snd (cf_call api (dec_zones dec) [] tok Get (Zones_Path domain) None w)) = zone y w)"

text \<open>An answer acknowledges the request, or it refuses it, or (none came, or nobody can read it) it leaves the outcome
  open.  \<open>wrote\<close>: what became of a write that makes \<open>g\<close> of the zone \<open>f\<close>, once the zone is \<open>f'\<close>.\<close>

definition acknowledged :: "'j cf_response option \<Rightarrow> bool" where
  "acknowledged a =
     (case a of None \<Rightarrow> False
      | Some r \<Rightarrow> (case rs_envelope r of None \<Rightarrow> False | Some (success, raw, errors) \<Rightarrow> 200 \<le> rs_status r \<and> rs_status r < 300 \<and> success))"

definition refused :: "'j cf_response option \<Rightarrow> bool" where
  "refused a =
     (case a of None \<Rightarrow> False
      | Some r \<Rightarrow> (case rs_envelope r of None \<Rightarrow> False | Some (success, raw, errors) \<Rightarrow> \<not> (200 \<le> rs_status r \<and> rs_status r < 300 \<and> success)))"

definition wrote :: "'j cf_response option \<Rightarrow> zone \<Rightarrow> zone \<Rightarrow> zone \<Rightarrow> bool" where
  "wrote a f f' g = ((f' = f \<or> f' = g) \<and> (acknowledged a \<longrightarrow> f' = g) \<and> (refused a \<longrightarrow> f' = f))"

definition rr_of :: "cf_payload \<Rightarrow> dns_rr" where
  "rr_of p =
     \<lparr>rr_type = pl_type p, rr_name = pl_name p, rr_content = pl_content p,
      rr_priority = (case pl_priority p of None \<Rightarrow> 0 | Some n \<Rightarrow> n), rr_proxied = pl_proxied p\<rparr>"

lemma stored_payload [simp]: "stored (rr_of (payload_of r)) i = stored r i"
  by (simp add: stored_def rr_of_def payload_of_def)

definition puts_records :: "('w, 'j) cf_api \<Rightarrow> (string \<Rightarrow> 'w \<Rightarrow> zone) \<Rightarrow> bool" where
  "puts_records api zone =
     (\<forall>tok z i p w a w'. api \<lparr>rq_token = tok, rq_method = Put, rq_path = Record_Path z i, rq_payload = Some p\<rparr> w = (a, w') \<longrightarrow>
        wrote a (zone z w) (zone z w') ((zone z w)(i \<mapsto> stored (rr_of p) i)))"

text \<open>A new record gets an id that the zone does not have, and the acknowledgement carries the record.\<close>

definition creates_records :: "('w, 'j) cf_api \<Rightarrow> 'j cf_decoder \<Rightarrow> (string \<Rightarrow> 'w \<Rightarrow> zone) \<Rightarrow> bool" where
  "creates_records api dec zone =
     (\<forall>tok z p w a w'. api \<lparr>rq_token = tok, rq_method = Post, rq_path = Records_Path z, rq_payload = Some p\<rparr> w = (a, w') \<longrightarrow>
        (\<exists>i. zone z w i = None \<and> wrote a (zone z w) (zone z w') ((zone z w)(i \<mapsto> stored (rr_of p) i))
          \<and> (acknowledged a \<longrightarrow> (\<exists>st j errors. a = Some \<lparr>rs_status = st, rs_envelope = Some (True, Some j, errors)\<rparr>
                \<and> (\<forall>c. dec_record dec j = Some c \<longrightarrow> cf_id c = i)))))"

definition deletes_records :: "('w, 'j) cf_api \<Rightarrow> (string \<Rightarrow> 'w \<Rightarrow> zone) \<Rightarrow> bool" where
  "deletes_records api zone =
     (\<forall>tok z i w a w'. api \<lparr>rq_token = tok, rq_method = Delete, rq_path = Record_Path z i, rq_payload = None\<rparr> w = (a, w') \<longrightarrow>
        wrote a (zone z w) (zone z w') ((zone z w)(i := None)))"

definition documented :: "('w, 'j) cf_api \<Rightarrow> 'j cf_decoder \<Rightarrow> (string \<Rightarrow> 'w \<Rightarrow> zone) \<Rightarrow> bool" where
  "documented api dec zone =
     (lists_records api dec zone \<and> finds_zones api dec zone \<and> puts_records api zone
      \<and> creates_records api dec zone \<and> deletes_records api zone)"

text \<open>The client's own errors: it does not know what became of the request.  With every other error it was refused.\<close>

definition unanswered :: "string set" where
  "unanswered = {''Cloudflare request failed'', ''invalid Cloudflare response'', ''invalid Cloudflare result''}"

lemma cf_call_fate:
  assumes "cf_call api target initial token m path p w = (res, v)"
    and "api \<lparr>rq_token = trim_space token, rq_method = m, rq_path = path, rq_payload = p\<rparr> w = (a, w')"
  shows "v = w'" and "res = Inr x \<Longrightarrow> acknowledged a" and "res = Inl e \<Longrightarrow> e \<notin> unanswered \<Longrightarrow> refused a"
    and "res = Inr x \<Longrightarrow> a = Some \<lparr>rs_status = st, rs_envelope = Some (True, Some j, errors)\<rparr> \<Longrightarrow> target j = Some x"
  using assms by (auto simp: cf_call_def acknowledged_def refused_def unanswered_def split: option.splits if_splits prod.splits)

lemma documented_create:
  assumes doc: "documented api dec zone" and c: "createRecord api dec tok z r w = (res, v)"
  shows "\<exists>i. zone z w i = None \<and> (case res of
      Inl e \<Rightarrow> zone z v = zone z w \<or> e \<in> unanswered \<and> zone z v = (zone z w)(i \<mapsto> stored r i)
    | Inr x \<Rightarrow> cf_id x = i \<and> zone z v = (zone z w)(i \<mapsto> stored r i))"
proof -
  obtain a w' where a: "api \<lparr>rq_token = trim_space tok, rq_method = Post, rq_path = Records_Path z, rq_payload = Some (payload_of r)\<rparr> w = (a, w')"
    by fastforce
  note fate = cf_call_fate [OF c [unfolded createRecord_def] a]
  have "creates_records api dec zone" using doc by (simp add: documented_def)
  then have "(\<exists>i. zone z w i = None \<and> wrote a (zone z w) (zone z w') ((zone z w)(i \<mapsto> stored (rr_of (payload_of r)) i))
          \<and> (acknowledged a \<longrightarrow> (\<exists>st j errors. a = Some \<lparr>rs_status = st, rs_envelope = Some (True, Some j, errors)\<rparr>
                \<and> (\<forall>c. dec_record dec j = Some c \<longrightarrow> cf_id c = i))))"
    unfolding creates_records_def using a by blast
  then obtain i where i: "zone z w i = None" "wrote a (zone z w) (zone z w') ((zone z w)(i \<mapsto> stored r i))"
      "acknowledged a \<longrightarrow> (\<exists>st j errors. a = Some \<lparr>rs_status = st, rs_envelope = Some (True, Some j, errors)\<rparr>
                \<and> (\<forall>c. dec_record dec j = Some c \<longrightarrow> cf_id c = i))" by auto
  show ?thesis
  proof (cases res)
    case (Inl e)
    then show ?thesis using i(1,2) fate(1) fate(3) [OF Inl] by (intro exI [of _ i]) (auto simp: wrote_def)
  next
    case (Inr x)
    then show ?thesis using i fate(1) fate(2) [OF Inr] fate(4) [OF Inr] by (intro exI [of _ i]) (auto simp: wrote_def)
  qed
qed

lemma documented_put:
  assumes doc: "documented api dec zone" and p: "putRecord api dec tok z i r w = (res, v)"
  shows "case res of Inl e \<Rightarrow> zone z v = zone z w \<or> e \<in> unanswered \<and> zone z v = (zone z w)(i \<mapsto> stored r i)
    | Inr x \<Rightarrow> zone z v = (zone z w)(i \<mapsto> stored r i)"
proof -
  obtain a w' where a: "api \<lparr>rq_token = trim_space tok, rq_method = Put, rq_path = Record_Path z i, rq_payload = Some (payload_of r)\<rparr> w = (a, w')"
    by fastforce
  note fate = cf_call_fate [OF p [unfolded putRecord_def] a]
  have "puts_records api zone" using doc by (simp add: documented_def)
  then have "wrote a (zone z w) (zone z w') ((zone z w)(i \<mapsto> stored (rr_of (payload_of r)) i))"
    unfolding puts_records_def using a by blast
  then show ?thesis using fate by (auto simp: wrote_def split: sum.split)
qed

lemma documented_delete:
  assumes doc: "documented api dec zone" and d: "deleteRecord api tok z i w = (res, v)"
  shows "case res of Inl e \<Rightarrow> zone z v = zone z w \<or> zone z v = (zone z w)(i := None) | Inr x \<Rightarrow> zone z v = (zone z w)(i := None)"
proof -
  obtain a w' where a: "api \<lparr>rq_token = trim_space tok, rq_method = Delete, rq_path = Record_Path z i, rq_payload = None\<rparr> w = (a, w')"
    by fastforce
  note fate = cf_call_fate [OF d [unfolded deleteRecord_def] a]
  have "deletes_records api zone" using doc by (simp add: documented_def)
  then have "wrote a (zone z w) (zone z w') ((zone z w)(i := None))"
    unfolding deletes_records_def using a by blast
  then show ?thesis using fate by (auto simp: wrote_def split: sum.split)
qed

lemma documented_list:
  assumes "documented api dec zone" "listRecords api dec tok z t n w = (res, v)"
  shows "zone y v = zone y w" and "res = Inr rs \<Longrightarrow> listing (zone z w) (t, n) rs"
proof -
  have l: "lists_records api dec zone" using assms(1) by (simp add: documented_def)
  have "zone y (snd (listRecords api dec tok z t n w)) = zone y w" using l unfolding lists_records_def by blast
  then show "zone y v = zone y w" using assms(2) by simp
  have "fst (listRecords api dec tok z t n w) = Inr rs \<longrightarrow> listing (zone z w) (t, n) rs" using l unfolding lists_records_def by blast
  then show "res = Inr rs \<Longrightarrow> listing (zone z w) (t, n) rs" using assms(2) by simp
qed

text \<open>A zone keys its records by id, and only MX records have a priority.\<close>

definition zone_ok :: "zone \<Rightarrow> bool" where
  "zone_ok f = (\<forall>i r. f i = Some r \<longrightarrow> cf_id r = i \<and> (rr_type r \<noteq> ''MX'' \<longrightarrow> rr_priority r = 0))"

section \<open>The plan\<close>

definition planned :: "(nat \<Rightarrow> nat) \<Rightarrow> (nat \<Rightarrow> nat) \<Rightarrow> zone \<Rightarrow> dns_action \<Rightarrow> bool" where
  "planned lo fo f a = (\<exists>rs. listing f (rr_key (da_record a)) rs \<and> a = plan_action lo fo (da_record a) rs)"

lemma da_record_plan_action [simp]: "da_record (plan_action lo fo r rs) = r"
  by (auto simp: plan_action_def Let_def split: list.split)

lemma plan_items_spec:
  assumes doc: "lists_records api dec zone"
  shows "plan_items api dec lo fo tok z rs items w = ((err, items'), w') \<Longrightarrow>
    (\<forall>y. zone y w' = zone y w) \<and> (\<exists>new. items' = items @ new \<and> list_all (planned lo fo (zone z w)) new
      \<and> (err = None \<longrightarrow> map da_record new = rs))"
proof (induction rs arbitrary: items w)
  case (Cons r rs)
  obtain res w1 where l: "listRecords api dec tok z (rr_type r) (rr_name r) w = (res, w1)" by fastforce
  have same: "\<forall>y. zone y w1 = zone y w"
    using doc l unfolding lists_records_def by (metis snd_conv)
  show ?case
  proof (cases res)
    case (Inl e)
    then show ?thesis using Cons.prems l same by auto
  next
    case (Inr ex)
    have "listing (zone z w) (rr_type r, rr_name r) ex" using doc l Inr unfolding lists_records_def by (metis fst_conv)
    then have p: "planned lo fo (zone z w) (plan_action lo fo r ex)" by (auto simp: planned_def rr_key_def)
    have "plan_items api dec lo fo tok z rs (items @ [plan_action lo fo r ex]) w1 = ((err, items'), w')"
      using Cons.prems l Inr by simp
    from Cons.IH [OF this] obtain new where n: "\<forall>y. zone y w' = zone y w1" "items' = items @ plan_action lo fo r ex # new"
        "list_all (planned lo fo (zone z w1)) new" "err = None \<longrightarrow> map da_record new = rs" by auto
    have "list_all (planned lo fo (zone z w)) (plan_action lo fo r ex # new)" using p n(3) same by simp
    moreover have "err = None \<longrightarrow> map da_record (plan_action lo fo r ex # new) = r # rs" using n(4) by simp
    ultimately show ?thesis using n(1,2) same by metis
  qed
qed auto

lemma Preview_spec:
  assumes doc: "documented api dec zone" and p: "Preview api dec lo fo tok domain desired w = ((err, plan), w')"
  shows "(\<forall>y. zone y w' = zone y w) \<and> \<not> dp_rolled_back plan
    \<and> (err = None \<longrightarrow> map da_record (dp_items plan) = desired \<and> list_all (planned lo fo (zone (dp_zone_id plan) w)) (dp_items plan))"
proof -
  obtain res w1 where rz: "resolveZone api dec lo fo tok domain w = (res, w1)" by fastforce
  have same: "\<forall>y. zone y w1 = zone y w"
    using doc rz unfolding documented_def finds_zones_def resolveZone_def Let_def
    by (auto split: if_splits prod.splits sum.splits option.splits) (metis snd_conv)+
  show ?thesis
  proof (cases res)
    case (Inl e)
    then show ?thesis using p rz same by (auto simp: Preview_def empty_plan_def)
  next
    case (Inr x)
    obtain i zn where x: "x = (i, zn)" by fastforce
    obtain err1 items w2 where it: "plan_items api dec lo fo tok i desired [] w1 = ((err1, items), w2)" by (metis prod.exhaust)
    have plan: "plan = empty_plan\<lparr>dp_domain := cf_normalizeDomain lo domain, dp_zone_id := i, dp_zone := zn, dp_items := items\<rparr>"
        "err = err1" "w' = w2" using p rz Inr x it by (auto simp: Preview_def)
    have "lists_records api dec zone" using doc by (simp add: documented_def)
    from plan_items_spec [OF this it] show ?thesis using plan same by (auto simp: empty_plan_def)
  qed
qed

section \<open>The rollback\<close>

text \<open>What reverting the changes, last first, makes of the zone when every write succeeds.\<close>

fun undo :: "dns_action list \<Rightarrow> (nat \<times> string) list \<Rightarrow> zone \<Rightarrow> zone" where
  "undo items [] f = f"
| "undo items ((k, i) # changes) f =
     undo items changes (case da_previous (items ! k) of None \<Rightarrow> f(i := None) | Some r \<Rightarrow> f(i \<mapsto> stored (toDNSRecord r) i))"

lemma da_previous_rolled_back [simp]: "da_previous (rolled_back a) = da_previous a"
  by (simp add: rolled_back_def)

lemma undo_cong: "map da_previous items = map da_previous items' \<Longrightarrow> list_all (\<lambda>c. fst c < length items) changes \<Longrightarrow>
   undo items changes f = undo items' changes f"
proof (induction changes arbitrary: f)
  case (Cons c changes)
  obtain k i where c: "c = (k, i)" by fastforce
  have "length items = length items'" using Cons.prems(1) by (rule map_eq_imp_length_eq)
  then have "da_previous (items ! k) = da_previous (items' ! k)"
    using Cons.prems c by (metis fst_conv list.pred_inject(2) nth_map)
  then show ?case using Cons c by simp
qed simp

lemma previous_update: "da_previous a = da_previous (items ! k) \<Longrightarrow> map da_previous (items[k := a]) = map da_previous items"
  by (metis list_update_id map_update)

lemma revert_change_spec:
  assumes doc: "documented api dec zone" and r: "revert_change api dec tok z a i w = (err, w')"
  defines "g \<equiv> (case da_previous a of None \<Rightarrow> (zone z w)(i := None) | Some r \<Rightarrow> (zone z w)(i \<mapsto> stored (toDNSRecord r) i))"
  shows "err = None \<Longrightarrow> zone z w' = g" and "zone z w' = g \<or> zone z w' = zone z w"
proof -
  have "(err = None \<longrightarrow> zone z w' = g) \<and> (zone z w' = g \<or> zone z w' = zone z w)"
  proof (cases "da_previous a")
    case None
    obtain res v where d: "deleteRecord api tok z i w = (res, v)" by (metis surj_pair)
    then show ?thesis using r None documented_delete [OF doc d] by (auto simp: g_def revert_change_def split: sum.splits)
  next
    case (Some p)
    obtain res v where pu: "putRecord api dec tok z i (toDNSRecord p) w = (res, v)" by (metis surj_pair)
    then show ?thesis using r Some documented_put [OF doc pu] by (auto simp: g_def revert_change_def split: sum.splits)
  qed
  then show "err = None \<Longrightarrow> zone z w' = g" and "zone z w' = g \<or> zone z w' = zone z w" by simp_all
qed

text \<open>What is undone leaves the other records alone.\<close>

lemma undo_other: "list_all (\<lambda>c. snd c \<noteq> j) changes \<Longrightarrow> undo items changes f j = f j"
proof (induction changes arbitrary: f)
  case (Cons c changes)
  obtain k i where c: "c = (k, i)" by fastforce
  then have "i \<noteq> j" "list_all (\<lambda>c. snd c \<noteq> j) changes" using Cons.prems by simp_all
  then show ?case by (cases "da_previous (items ! k)") (simp_all add: c Cons.IH)
qed simp

lemma undo_update: "list_all (\<lambda>c. snd c \<noteq> j) changes \<Longrightarrow> undo items changes (f(j \<mapsto> x)) = (undo items changes f)(j \<mapsto> x)"
proof (induction changes arbitrary: f)
  case (Cons c changes)
  obtain k i where c: "c = (k, i)" by fastforce
  then have ij: "j \<noteq> i" and rest: "list_all (\<lambda>c. snd c \<noteq> j) changes" using Cons.prems by auto
  have "undo items changes (f(j \<mapsto> x, i := y)) = (undo items changes (f(i := y)))(j \<mapsto> x)" for y
    using Cons.IH [OF rest, of "f(i := y)"] unfolding fun_upd_twist [OF ij] .
  then show ?case by (cases "da_previous (items ! k)") (simp_all only: c undo.simps option.case)
qed simp

lemma revert_all_spec:
  assumes doc: "documented api dec zone"
  shows "revert_all api dec tok z changes items failed w = ((failed', items'), w') \<Longrightarrow>
    list_all (\<lambda>c. fst c < length items) changes \<Longrightarrow>
    (failed \<longrightarrow> failed') \<and> (\<not> failed' \<longrightarrow> zone z w' = undo items changes (zone z w))"
proof (induction changes arbitrary: items failed w)
  case (Cons c changes)
  obtain k i where c: "c = (k, i)" by fastforce
  obtain err w1 where rc: "revert_change api dec tok z (items ! k) i w = (err, w1)" by fastforce
  show ?case
  proof (cases err)
    case None
    let ?items = "items[k := rolled_back (items ! k)]"
    have "revert_all api dec tok z changes ?items failed w1 = ((failed', items'), w')" using Cons.prems(1) c rc None by simp
    from Cons.IH [OF this] have "(failed \<longrightarrow> failed') \<and> (\<not> failed' \<longrightarrow> zone z w' = undo ?items changes (zone z w1))"
      using Cons.prems(2) by simp
    moreover have "undo ?items changes g = undo items changes g" for g
      by (rule undo_cong) (use Cons.prems(2) in \<open>simp_all add: previous_update\<close>)
    ultimately show ?thesis using revert_change_spec(1) [OF doc rc None] c by (auto split: option.splits)
  next
    case (Some e)
    have "revert_all api dec tok z changes items True w1 = ((failed', items'), w')" using Cons.prems(1) c rc Some by simp
    from Cons.IH [OF this] show ?thesis using Cons.prems(2) by simp
  qed
qed simp

section \<open>The loop\<close>

definition same_key :: "zone \<Rightarrow> zone \<Rightarrow> string \<times> string \<Rightarrow> bool" where
  "same_key f g k = (\<forall>i r. rr_key r = k \<longrightarrow> (f i = Some r \<longleftrightarrow> g i = Some r))"

text \<open>\<open>settled f a\<close>: when the action reports its record as there, the zone has it, and no other of its type and name.\<close>

definition settled :: "(nat \<Rightarrow> nat) \<Rightarrow> (nat \<Rightarrow> nat) \<Rightarrow> zone \<Rightarrow> dns_action \<Rightarrow> bool" where
  "settled lo fo f a =
     (da_status a \<in> {''unchanged'', ''update'', ''created''} \<longrightarrow>
        (\<exists>i r. f i = Some r \<and> rr_key r = rr_key (da_record a) \<and> sameDNSRecord lo fo r (da_record a)
             \<and> (\<forall>j q. f j = Some q \<and> rr_key q = rr_key (da_record a) \<longrightarrow> j = i)))"

lemma settled_cong: "same_key g f (rr_key (da_record a)) \<Longrightarrow> settled lo fo f a \<Longrightarrow> settled lo fo g a"
  unfolding settled_def same_key_def by metis

definition applying ::
    "(nat \<Rightarrow> nat) \<Rightarrow> (nat \<Rightarrow> nat) \<Rightarrow> zone \<Rightarrow> bool \<Rightarrow> nat \<Rightarrow> dns_action list \<Rightarrow> (nat \<times> string) list \<Rightarrow> zone \<Rightarrow> bool" where
  "applying lo fo f0 confirm k items applied f =
     (distinct (map (rr_key \<circ> da_record) items) \<and> list_all (\<lambda>c. fst c < length items) applied
      \<and> list_all (\<lambda>(j, i). j < k \<and> (\<exists>q. f i = Some q \<and> rr_key q = rr_key (da_record (items ! j)))) applied
      \<and> undo items (rev applied) f = f0
      \<and> (\<forall>j < k. settled lo fo f (items ! j))
      \<and> (\<forall>j < length items. k \<le> j \<longrightarrow> planned lo fo f0 (items ! j) \<and> same_key f f0 (rr_key (da_record (items ! j))))
      \<and> (\<not> confirm \<longrightarrow> f0 \<subseteq>\<^sub>m f \<and> list_all (\<lambda>(j, i). da_previous (items ! j) = None \<and> f0 i = None) applied))"

lemma applying_skip:
  assumes a: "applying lo fo f0 confirm k items applied f" and s: "settled lo fo f (items ! k)"
  shows "applying lo fo f0 confirm (Suc k) items applied f"
  using a s by (auto simp: applying_def less_Suc_eq list_all_iff)

lemma undo_append: "undo items (xs @ ys) f = undo items ys (undo items xs f)"
  by (induction xs arbitrary: f) auto

lemma stored_simps [simp]: "rr_key (stored r i) = rr_key r" "cf_id (stored r i) = i"
  by (simp_all add: stored_def rr_key_def)

lemma equal_fold_refl [simp]: "equal_fold fo s s"
  by (simp add: equal_fold_def)

lemma same_stored: "sameDNSRecord lo fo (stored r i) r"
  by (simp add: sameDNSRecord_def stored_def)

text \<open>What was applied so far is elsewhere than a record of the type and name at hand.\<close>

lemma applied_elsewhere:
  assumes a: "applying lo fo f0 confirm k items applied f" and k: "k < length items"
    and i: "\<forall>p. f i = Some p \<longrightarrow> rr_key p = rr_key (da_record (items ! k))"
  shows "list_all (\<lambda>c. snd c \<noteq> i) applied"
proof -
  have d: "distinct (map (rr_key \<circ> da_record) items)" and lt: "list_all (\<lambda>c. fst c < length items) applied"
    and own: "list_all (\<lambda>(j, i). j < k \<and> (\<exists>q. f i = Some q \<and> rr_key q = rr_key (da_record (items ! j)))) applied"
    using a by (simp_all add: applying_def)
  have other: "rr_key (da_record (items ! j)) \<noteq> rr_key (da_record (items ! k))" if "j < k" for j
    using nth_eq_iff_index_eq [OF d, of j k] that k by simp
  show ?thesis
    using own other i by (auto simp: list_all_iff)
qed

text \<open>A write to the record \<open>i\<close>, which is new or the only one of its type and name.\<close>

lemma applying_write:
  assumes a: "applying lo fo f0 confirm k items applied f" and k: "k < length items"
    and act: "da_record a = da_record (items ! k)" "da_previous a = da_previous (items ! k)"
    and rev1: "(case da_previous (items ! k) of None \<Rightarrow> f i = None | Some p \<Rightarrow> f i = Some p \<and> stored (toDNSRecord p) i = p \<and> confirm)"
    and only: "\<And>j q. f j = Some q \<Longrightarrow> rr_key q = rr_key (da_record a) \<Longrightarrow> j = i"
    and own: "\<And>p. da_previous (items ! k) = Some p \<Longrightarrow> rr_key p = rr_key (da_record a)"
    and f': "f' = f(i \<mapsto> stored (da_record a) i)"
  shows "applying lo fo f0 confirm (Suc k) (items[k := a]) (applied @ [(k, i)]) f'"
proof -
  let ?items = "items[k := a]" and ?K = "rr_key (da_record a)"
  have d: "distinct (map (rr_key \<circ> da_record) items)" and lt: "list_all (\<lambda>c. fst c < length items) applied"
    and un: "undo items (rev applied) f = f0" using a by (simp_all add: applying_def)
  have recs: "map (rr_key \<circ> da_record) ?items = map (rr_key \<circ> da_record) items"
    using act(1) by (simp add: map_update) (metis comp_apply k list_update_id map_update nth_map)
  have prevs: "map da_previous ?items = map da_previous items" by (rule previous_update [OF act(2)])
  have "undo ?items ((k, i) # rev applied) f' = undo items ((k, i) # rev applied) f'"
    by (rule undo_cong) (use prevs k lt in \<open>simp_all add: list_all_iff\<close>)
  also have "\<dots> = undo items (rev applied) f"
    using rev1 by (auto simp: f' split: option.splits intro!: arg_cong [of _ _ "undo items (rev applied)"])
  finally have undo': "undo ?items (rev (applied @ [(k, i)])) f' = f0" using un by simp
  have frame: "same_key f' f K" if "K \<noteq> ?K" for K
    using that rev1 own by (auto simp: same_key_def f' split: option.splits)
  have other: "rr_key (da_record (items ! j)) \<noteq> ?K" if "j < length items" "j \<noteq> k" for j
    using d that k act(1) by (metis comp_apply length_map nth_eq_iff_index_eq nth_map)
  have own': "list_all (\<lambda>(j, i). j < Suc k \<and> (\<exists>q. f' i = Some q \<and> rr_key q = rr_key (da_record (?items ! j)))) (applied @ [(k, i)])"
  proof -
    have old: "list_all (\<lambda>(j, i). j < k \<and> (\<exists>q. f i = Some q \<and> rr_key q = rr_key (da_record (items ! j)))) applied"
      using a by (simp add: applying_def)
    have "f i = Some q \<Longrightarrow> rr_key q = ?K" for q using rev1 own by (auto split: option.splits)
    then have "list_all (\<lambda>c. snd c \<noteq> i) applied"
      by (intro applied_elsewhere [OF a k]) (simp add: act(1))
    then show ?thesis using old k by (auto simp: list_all_iff f' less_Suc_eq)
  qed
  have done_: "settled lo fo f' (?items ! j)" if "j < Suc k" for j
  proof (cases "j = k")
    case True
    have "f' i = Some (stored (da_record a) i)" by (simp add: f')
    moreover have "\<forall>j q. f' j = Some q \<and> rr_key q = ?K \<longrightarrow> j = i" using only by (auto simp: f')
    ultimately have "\<exists>i r. f' i = Some r \<and> rr_key r = ?K \<and> sameDNSRecord lo fo r (da_record a) \<and> (\<forall>j q. f' j = Some q \<and> rr_key q = ?K \<longrightarrow> j = i)"
      by (intro exI [of _ i] exI [of _ "stored (da_record a) i"]) (simp add: same_stored)
    then show ?thesis using True k unfolding settled_def by simp
  next
    case False
    then have j: "j < k" using that by simp
    have "settled lo fo f (items ! j)" using a j by (simp add: applying_def)
    then show ?thesis using settled_cong [OF frame] other [of j] j k False by simp
  qed
  have todo: "planned lo fo f0 (?items ! j) \<and> same_key f' f0 (rr_key (da_record (?items ! j)))"
    if "j < length ?items" "Suc k \<le> j" for j
    using a that frame [OF other [of j]] by (auto simp: applying_def same_key_def)
  have kept: "f0 \<subseteq>\<^sub>m f' \<and> list_all (\<lambda>(j, i). da_previous (?items ! j) = None \<and> f0 i = None) (applied @ [(k, i)])" if "\<not> confirm"
  proof -
    have le: "f0 \<subseteq>\<^sub>m f" and all: "list_all (\<lambda>(j, i). da_previous (items ! j) = None \<and> f0 i = None) applied"
      using a that by (simp_all add: applying_def)
    have p: "da_previous (items ! k) = None" "f i = None" using rev1 that by (auto split: option.splits)
    have n: "f0 i = None" using le p(2) by (auto simp: map_le_def dom_def)
    have "f0 \<subseteq>\<^sub>m f'" using le n by (auto simp: map_le_def f')
    moreover have "da_previous (?items ! j) = da_previous (items ! j)" if "j < length items" for j
      using prevs that by (metis length_list_update nth_map)
    then have "list_all (\<lambda>(j, i). da_previous (?items ! j) = None \<and> f0 i = None) applied"
      using all lt unfolding list_all_iff by fastforce
    ultimately show ?thesis using p n k by (simp add: act(2))
  qed
  show ?thesis
    using d recs lt k own' undo' done_ todo kept by (auto simp: applying_def)
qed

text \<open>What a rollback leaves: the zone as it was, or, when the client did not learn what became of the write that failed,
  that one write on top of it.  The ends of the loop: \<open>ended\<close> is what the properties say of it.\<close>

definition lost_write :: "bool \<Rightarrow> zone \<Rightarrow> dns_rr \<Rightarrow> zone \<Rightarrow> bool" where
  "lost_write confirm f0 r f = (\<exists>i. f = f0(i \<mapsto> stored r i) \<and> (\<forall>p. f0 i = Some p \<longrightarrow> rr_key p = rr_key r \<and> confirm))"

definition restored :: "bool \<Rightarrow> dns_rr list \<Rightarrow> string \<Rightarrow> zone \<Rightarrow> zone \<Rightarrow> bool" where
  "restored confirm rs cause f0 f = (f = f0 \<or> cause \<in> unanswered \<and> (\<exists>r \<in> set rs. lost_write confirm f0 r f))"

definition ended ::
    "(nat \<Rightarrow> nat) \<Rightarrow> (nat \<Rightarrow> nat) \<Rightarrow> zone \<Rightarrow> bool \<Rightarrow> dns_rr list \<Rightarrow> string option \<Rightarrow> dns_plan \<Rightarrow> zone \<Rightarrow> bool" where
  "ended lo fo f0 confirm rs err plan f =
     ((dp_rolled_back plan \<longrightarrow> (\<exists>cause. err = Some cause \<and> restored confirm rs cause f0 f))
      \<and> (err = None \<longrightarrow> \<not> dp_rolled_back plan \<and> list_all (settled lo fo f) (dp_items plan))
      \<and> (\<not> confirm \<longrightarrow> f0 \<subseteq>\<^sub>m f))"

text \<open>A rollback, complete or not, deletes what the application created and nothing else.\<close>

lemma revert_all_kept:
  assumes doc: "documented api dec zone"
  shows "revert_all api dec tok z changes items failed w = ((failed', items'), w') \<Longrightarrow>
    list_all (\<lambda>(j, i). j < length items \<and> da_previous (items ! j) = None \<and> f0 i = None) changes \<Longrightarrow>
    f0 \<subseteq>\<^sub>m zone z w \<Longrightarrow> f0 \<subseteq>\<^sub>m zone z w'"
proof (induction changes arbitrary: items failed w)
  case (Cons c changes)
  obtain k i where c: "c = (k, i)" by fastforce
  obtain err w1 where rc: "revert_change api dec tok z (items ! k) i w = (err, w1)" by fastforce
  have k: "k < length items" "da_previous (items ! k) = None" "f0 i = None" using Cons.prems(2) c by simp_all
  have le: "f0 \<subseteq>\<^sub>m zone z w1" using revert_change_spec(2) [OF doc rc] k Cons.prems(3) by (auto simp: map_le_def)
  show ?case
  proof (cases err)
    case None
    let ?items = "items[k := rolled_back (items ! k)]"
    have run: "revert_all api dec tok z changes ?items failed w1 = ((failed', items'), w')" using Cons.prems(1) c rc None by simp
    have "da_previous (?items ! j) = da_previous (items ! j)" for j by (cases "j = k") (simp_all add: k)
    then show ?thesis using Cons.IH [OF run _ le] Cons.prems(2) by simp
  next
    case (Some e)
    have "revert_all api dec tok z changes items True w1 = ((failed', items'), w')" using Cons.prems(1) c rc Some by simp
    from Cons.IH [OF this _ le] show ?thesis using Cons.prems(2) by simp
  qed
qed simp

text \<open>A rollback after the write of the record of item \<open>k\<close> failed, whatever became of that write.\<close>

lemma rollback_ended:
  assumes doc: "documented api dec zone" and a: "applying lo fo f0 confirm k (dp_items plan) applied f"
    and k: "k < length (dp_items plan)" and r: "r = da_record (dp_items plan ! k)" "r \<in> set rs"
    and fate: "zone (dp_zone_id plan) w = f \<or> cause \<in> unanswered \<and> zone (dp_zone_id plan) w = f(i \<mapsto> stored r i)"
    and i: "\<forall>p. f i = Some p \<longrightarrow> rr_key p = rr_key r \<and> confirm"
    and nr: "\<not> dp_rolled_back plan" and run: "rollbackApply api dec tok plan applied cause w = ((err, plan'), w')"
  shows "ended lo fo f0 confirm rs err plan' (zone (dp_zone_id plan) w') \<and> dp_zone_id plan' = dp_zone_id plan"
proof -
  let ?z = "dp_zone_id plan"
  obtain failed items where ra: "revert_all api dec tok ?z (rev applied) (dp_items plan) False w = ((failed, items), w')"
    using run by (auto simp: rollbackApply_def split: prod.splits if_splits)
  have lt: "list_all (\<lambda>c. fst c < length (dp_items plan)) (rev applied)" and un: "undo (dp_items plan) (rev applied) f = f0"
    using a by (simp_all add: applying_def)
  have else_: "list_all (\<lambda>c. snd c \<noteq> i) (rev applied)"
    using applied_elsewhere [OF a k] i r(1) by simp
  have f0: "f0 i = f i" using undo_other [OF else_] un by metis
  have "zone ?z w' = undo (dp_items plan) (rev applied) (zone ?z w)" if "\<not> failed"
    using revert_all_spec [OF doc ra lt] that by blast
  then have "zone ?z w' = f0 \<or> cause \<in> unanswered \<and> zone ?z w' = f0(i \<mapsto> stored r i)" if "\<not> failed"
    using fate un undo_update [OF else_] that by metis
  then have "restored confirm rs cause f0 (zone ?z w')" if "\<not> failed"
    using that i f0 r(2) unfolding restored_def lost_write_def by metis
  moreover have "f0 \<subseteq>\<^sub>m zone ?z w'" if "\<not> confirm"
  proof (rule revert_all_kept [OF doc ra])
    have le: "f0 \<subseteq>\<^sub>m f" using a that by (simp add: applying_def)
    have "f i = None" using i that by (cases "f i") auto
    then show "f0 \<subseteq>\<^sub>m zone ?z w" using fate le f0 by (auto simp: map_le_def)
  qed (use a that in \<open>auto simp: applying_def list_all_iff\<close>)
  ultimately show ?thesis using run ra nr by (auto simp: rollbackApply_def ended_def split: if_splits)
qed

lemma listing_only: "listing f k [e] \<Longrightarrow> zone_ok f \<Longrightarrow> f j = Some q \<Longrightarrow> rr_key q = k \<Longrightarrow> q = e \<and> j = cf_id e"
  unfolding listing_def zone_ok_def by (metis list.set_intros(1) empty_iff empty_set set_ConsD)

lemma restores: "zone_ok f \<Longrightarrow> f i = Some p \<Longrightarrow> stored (toDNSRecord p) i = p"
proof -
  assume "zone_ok f" "f i = Some p"
  then have "cf_id p = i" "rr_type p \<noteq> ''MX'' \<longrightarrow> rr_priority p = 0" unfolding zone_ok_def by blast+
  then show ?thesis by (cases p) (auto simp: stored_def toDNSRecord_def dns_rr.truncate_def)
qed

lemma planned_cases:
  assumes p: "planned lo fo f a"
  shows "(da_status a = ''create'' \<and> da_previous a = None \<and> listing f (rr_key (da_record a)) [])
    \<or> (\<exists>e. da_status a = ''unchanged'' \<and> listing f (rr_key (da_record a)) [e] \<and> sameDNSRecord lo fo e (da_record a))
    \<or> (\<exists>e. da_status a = ''conflict'' \<and> da_previous a = Some e \<and> listing f (rr_key (da_record a)) [e])
    \<or> (da_status a = ''conflict'' \<and> da_detail a = ''multiple records already exist'')"
proof -
  obtain rs where rs: "listing f (rr_key (da_record a)) rs" "a = plan_action lo fo (da_record a) rs"
    using p unfolding planned_def by blast
  consider "rs = []" | e where "rs = [e]" | e e' es where "rs = e # e' # es" by (cases rs rule: list.exhaust; metis neq_Nil_conv)
  then show ?thesis
  proof cases
    case 1
    then have "a = \<lparr>da_record = da_record a, da_status = ''create'', da_detail = [], da_previous = None\<rparr>"
      using rs(2) by (simp add: plan_action_def)
    then show ?thesis using rs(1) 1 by (metis dns_action.select_convs(2,4))
  next
    case (2 e)
    then show ?thesis
    proof (cases "sameDNSRecord lo fo e (da_record a)")
      case True
      then have "a = \<lparr>da_record = da_record a, da_status = ''unchanged'', da_detail = [], da_previous = Some e\<rparr>"
        using rs(2) 2 by (simp add: plan_action_def)
      then show ?thesis using rs(1) 2 True by (metis dns_action.select_convs(2))
    next
      case False
      then have "a = \<lparr>da_record = da_record a, da_status = ''conflict'', da_detail = ''an existing record has a different value'', da_previous = Some e\<rparr>"
        using rs(2) 2 by (simp add: plan_action_def)
      then show ?thesis using rs(1) 2 by (metis dns_action.select_convs(2,4))
    qed
  next
    case (3 e e' es)
    then have "a = \<lparr>da_record = da_record a, da_status = ''conflict'', da_detail = ''multiple records already exist'', da_previous = None\<rparr>"
      using rs(2) by (simp add: plan_action_def)
    then show ?thesis by (metis dns_action.select_convs(2,3))
  qed
qed

text \<open>One turn of the loop by the status of its action.\<close>

lemma apply_unchanged:
  "da_status (dp_items plan ! k) = ''unchanged'' \<Longrightarrow>
   apply_from api dec tok confirm (Suc n) k plan applied w = apply_from api dec tok confirm n (Suc k) plan applied w"
  by simp

lemma apply_conflict_kept:
  "da_status (dp_items plan ! k) = ''conflict'' \<Longrightarrow> \<not> confirm \<or> da_detail (dp_items plan ! k) = ''multiple records already exist'' \<Longrightarrow>
   apply_from api dec tok confirm (Suc n) k plan applied w = apply_from api dec tok confirm n (Suc k) plan applied w"
  by simp

lemma apply_conflict:
  "da_status (dp_items plan ! k) = ''conflict'' \<Longrightarrow> confirm \<Longrightarrow> da_detail (dp_items plan ! k) \<noteq> ''multiple records already exist'' \<Longrightarrow>
   apply_from api dec tok confirm (Suc n) k plan applied w =
     (case listRecords api dec tok (dp_zone_id plan) (rr_type (da_record (dp_items plan ! k))) (rr_name (da_record (dp_items plan ! k))) w of
        (Inl e, w1) \<Rightarrow> ((Some e, plan), w1)
      | (Inr [e], w1) \<Rightarrow>
          (case putRecord api dec tok (dp_zone_id plan) (cf_id e) (da_record (dp_items plan ! k)) w1 of
             (Inl err, w2) \<Rightarrow> rollbackApply api dec tok plan applied err w2
           | (Inr _, w2) \<Rightarrow>
               apply_from api dec tok confirm n (Suc k)
                 (plan\<lparr>dp_items := (dp_items plan)[k := (dp_items plan ! k)\<lparr>da_status := ''update'', da_detail := []\<rparr>]\<rparr>)
                 (applied @ [(k, cf_id e)]) w2)
      | (Inr _, w1) \<Rightarrow> apply_from api dec tok confirm n (Suc k) plan applied w1)"
  proof -
  assume a: "da_status (dp_items plan ! k) = ''conflict''" "confirm" "da_detail (dp_items plan ! k) \<noteq> ''multiple records already exist''"
  then have "confirm = True" by simp
  show ?thesis unfolding \<open>confirm = True\<close> by (simp add: a Let_def)
qed

lemma apply_create:
  "da_status (dp_items plan ! k) = ''create'' \<Longrightarrow>
   apply_from api dec tok confirm (Suc n) k plan applied w =
     (case createRecord api dec tok (dp_zone_id plan) (da_record (dp_items plan ! k)) w of
        (Inl err, w1) \<Rightarrow> rollbackApply api dec tok plan applied err w1
      | (Inr created, w1) \<Rightarrow>
          apply_from api dec tok confirm n (Suc k)
            (plan\<lparr>dp_items := (dp_items plan)[k := (dp_items plan ! k)\<lparr>da_status := ''created''\<rparr>]\<rparr>)
            (applied @ [(k, cf_id created)]) w1)"
  by (simp add: Let_def)

declare apply_from.simps(2) [simp del]

lemma apply_from_ended:
  assumes doc: "documented api dec zone" and ok0: "zone_ok f0"
  shows "apply_from api dec tok confirm n k plan applied w = ((err, plan'), w') \<Longrightarrow>
    applying lo fo f0 confirm k (dp_items plan) applied (zone (dp_zone_id plan) w) \<Longrightarrow>
    k + n = length (dp_items plan) \<Longrightarrow> \<not> dp_rolled_back plan \<Longrightarrow> da_record ` set (dp_items plan) \<subseteq> set rs \<Longrightarrow>
    ended lo fo f0 confirm rs err plan' (zone (dp_zone_id plan) w') \<and> dp_zone_id plan' = dp_zone_id plan"
proof (induction n arbitrary: k plan applied w)
  case 0
  then show ?case by (auto simp: ended_def applying_def list_all_length)
next
  case (Suc n)
  let ?a = "dp_items plan ! k" and ?z = "dp_zone_id plan"
  let ?K = "rr_key (da_record ?a)" and ?f = "zone ?z w"
  note loop = Suc.prems(1) and ap = Suc.prems(2)
  have k: "k < length (dp_items plan)" using Suc.prems(3) by simp
  have pl: "planned lo fo f0 ?a" and fr: "same_key ?f f0 ?K" using ap k by (auto simp: applying_def)
  have kept: "\<not> confirm \<Longrightarrow> f0 \<subseteq>\<^sub>m ?f" using ap by (simp add: applying_def)
  have skip: "ended lo fo f0 confirm rs err plan' (zone ?z w') \<and> dp_zone_id plan' = ?z"
    if "apply_from api dec tok confirm n (Suc k) plan applied v = ((err, plan'), w')" "zone ?z v = ?f" "settled lo fo ?f ?a" for v
    using Suc.IH [OF that(1)] applying_skip [OF ap that(3)] that(2) Suc.prems(3-5) by simp
  have written: "ended lo fo f0 confirm rs err plan' (zone ?z w') \<and> dp_zone_id plan' = ?z"
    if "apply_from api dec tok confirm n (Suc k) (plan\<lparr>dp_items := (dp_items plan)[k := b]\<rparr>) (applied @ [(k, i)]) v = ((err, plan'), w')"
      "applying lo fo f0 confirm (Suc k) ((dp_items plan)[k := b]) (applied @ [(k, i)]) (zone ?z v)"
      "da_record b = da_record ?a" for b i v
  proof -
    have "da_record ` set ((dp_items plan)[k := b]) \<subseteq> set rs"
      using Suc.prems(5) k that(3) by (metis image_set list_update_id map_update)
    then show ?thesis using Suc.IH [OF that(1)] that(2) Suc.prems(3,4) by simp
  qed
  have undone: "ended lo fo f0 confirm rs err plan' (zone ?z w') \<and> dp_zone_id plan' = ?z"
    if "rollbackApply api dec tok plan applied cause v = ((err, plan'), w')"
      "zone ?z v = ?f \<or> cause \<in> unanswered \<and> zone ?z v = ?f(i \<mapsto> stored (da_record ?a) i)"
      "\<forall>p. ?f i = Some p \<longrightarrow> rr_key p = ?K \<and> confirm" for cause v i
    by (rule rollback_ended [OF doc ap k refl _ that(2,3) Suc.prems(4) that(1)]) (use Suc.prems(5) k in auto)
  consider (create) "da_status ?a = ''create''" "da_previous ?a = None" "listing f0 ?K []"
    | (unchanged) e where "da_status ?a = ''unchanged''" "listing f0 ?K [e]" "sameDNSRecord lo fo e (da_record ?a)"
    | (conflict) e where "da_status ?a = ''conflict''" "da_previous ?a = Some e" "listing f0 ?K [e]"
    | (multiple) "da_status ?a = ''conflict''" "da_detail ?a = ''multiple records already exist''"
    using planned_cases [OF pl] by (elim disjE exE conjE) blast+
  then show ?case
  proof cases
    case create
    obtain res v where c: "createRecord api dec tok ?z (da_record ?a) w = (res, v)" by (metis surj_pair)
    obtain i where law: "?f i = None" "case res of Inl e \<Rightarrow> zone ?z v = ?f \<or> e \<in> unanswered \<and> zone ?z v = ?f(i \<mapsto> stored (da_record ?a) i)
        | Inr x \<Rightarrow> cf_id x = i \<and> zone ?z v = ?f(i \<mapsto> stored (da_record ?a) i)"
      using documented_create [OF doc c] by blast
    show ?thesis
    proof (cases res)
      case (Inl e)
      then have "rollbackApply api dec tok plan applied e v = ((err, plan'), w')" using loop c unfolding apply_create [OF create(1)] by simp
      then show ?thesis by (rule undone [of _ _ i]) (use law Inl in simp_all)
    next
      case (Inr x)
      have none: "\<And>j q. ?f j = Some q \<Longrightarrow> rr_key q = rr_key (da_record (?a\<lparr>da_status := ''created''\<rparr>)) \<Longrightarrow> j = cf_id x"
        using create(3) fr ok0 by (auto simp: listing_def same_key_def zone_ok_def)
      have f: "?f (cf_id x) = None" "zone ?z v = ?f(cf_id x \<mapsto> stored (da_record ?a) (cf_id x))" using law Inr by simp_all
      have ap': "applying lo fo f0 confirm (Suc k) ((dp_items plan)[k := ?a\<lparr>da_status := ''created''\<rparr>]) (applied @ [(k, cf_id x)]) (zone ?z v)"
        by (rule applying_write [OF ap k _ _ _ none]) (simp_all add: create(2) f)
      show ?thesis
        by (rule written [OF _ ap']) (use loop c Inr in \<open>simp_all add: apply_create [OF create(1)]\<close>)
    qed
  next
    case (unchanged e)
    have "f0 (cf_id e) = Some e" "rr_key e = ?K" using unchanged(2) by (auto simp: listing_def)
    then have "settled lo fo f0 ?a"
      using listing_only [OF unchanged(2) ok0] unchanged(3) unfolding settled_def by metis
    then have "settled lo fo ?f ?a" by (rule settled_cong [OF fr])
    then show ?thesis using loop unfolding apply_unchanged [OF unchanged(1)] by (intro skip [of w]) simp_all
  next
    case multiple
    then have "settled lo fo ?f ?a" by (simp add: settled_def)
    then show ?thesis using loop unfolding apply_conflict_kept [OF multiple(1) disjI2 [OF multiple(2)]] by (intro skip [of w]) simp_all
  next
    case (conflict p)
    have st: "settled lo fo ?f ?a" using conflict(1) by (simp add: settled_def)
    show ?thesis
    proof (cases "\<not> confirm \<or> da_detail ?a = ''multiple records already exist''")
      case True
      show ?thesis using loop unfolding apply_conflict_kept [OF conflict(1) True] by (intro skip [of w]) (simp_all add: st)
    next
      case False
      then have cf: "confirm" "da_detail ?a \<noteq> ''multiple records already exist''" by simp_all
      note loop = loop [unfolded apply_conflict [OF conflict(1) cf]]
      obtain res v where l: "listRecords api dec tok ?z (rr_type (da_record ?a)) (rr_name (da_record ?a)) w = (res, v)" by (metis surj_pair)
      have v: "zone ?z v = ?f"
        by (rule documented_list(1) [OF doc l])
      show ?thesis
      proof (cases res)
        case (Inl e)
        then have "err = Some e" "plan' = plan" "w' = v" using loop l by simp_all
        then show ?thesis using v False Suc.prems(4) by (simp add: ended_def)
      next
        case (Inr rs)
        have li: "listing ?f ?K rs"
          using documented_list(2) [OF doc l Inr] by (simp add: rr_key_def)
        show ?thesis
        proof (cases "\<exists>e. rs = [e]")
          case False2: False
          then have "apply_from api dec tok confirm n (Suc k) plan applied v = ((err, plan'), w')"
            using loop l Inr by (auto split: list.splits)
          then show ?thesis by (rule skip [OF _ v st])
        next
          case True
          then obtain e where rs: "rs = [e]" by blast
          have pe: "f0 (cf_id p) = Some p" "rr_key p = ?K" using conflict(3) by (auto simp: listing_def)
          have e: "?f (cf_id e) = Some e" "rr_key e = ?K" using li rs by (auto simp: listing_def)
          have "e = p"
            using e fr listing_only [OF conflict(3) ok0] unfolding same_key_def by metis
          obtain res2 v2 where pu: "putRecord api dec tok ?z (cf_id e) (da_record ?a) v = (res2, v2)" by (metis surj_pair)
          have law: "case res2 of Inl x \<Rightarrow> zone ?z v2 = ?f \<or> x \<in> unanswered \<and> zone ?z v2 = ?f(cf_id e \<mapsto> stored (da_record ?a) (cf_id e))
              | Inr x \<Rightarrow> zone ?z v2 = ?f(cf_id e \<mapsto> stored (da_record ?a) (cf_id e))"
            using documented_put [OF doc pu] unfolding v .
          show ?thesis
          proof (cases res2)
            case (Inl x)
            then have "rollbackApply api dec tok plan applied x v2 = ((err, plan'), w')" using loop l \<open>res = Inr rs\<close> rs pu by simp
            then show ?thesis by (rule undone [of _ _ "cf_id e"]) (use law Inl e cf(1) in simp_all)
          next
            case res2: (Inr x)
            let ?b = "?a\<lparr>da_status := ''update'', da_detail := []\<rparr>"
            have only: "\<And>j q. ?f j = Some q \<Longrightarrow> rr_key q = rr_key (da_record ?b) \<Longrightarrow> j = cf_id e"
              using fr listing_only [OF conflict(3) ok0] \<open>e = p\<close> unfolding same_key_def by (metis dns_action.select_convs(1) dns_action.surjective dns_action.update_convs(2,3))
            have ap': "applying lo fo f0 confirm (Suc k) ((dp_items plan)[k := ?b]) (applied @ [(k, cf_id e)]) (zone ?z v2)"
              by (rule applying_write [OF ap k _ _ _ only])
                (use conflict(2) e(1,2) \<open>e = p\<close> restores [OF ok0 pe(1)] False law res2 v in auto)
            show ?thesis
              by (rule written [OF _ ap']) (use loop l Inr rs pu res2 in simp_all)
          qed
        qed
      qed
    qed
  qed
qed

lemma rollback_zone_id: "rollbackApply api dec tok plan applied cause w = ((err, plan'), w') \<Longrightarrow> dp_zone_id plan' = dp_zone_id plan"
  by (auto simp: rollbackApply_def split: prod.splits if_splits)

lemma apply_from_zone_id:
  "apply_from api dec tok confirm n k plan applied w = ((err, plan'), w') \<Longrightarrow> dp_zone_id plan' = dp_zone_id plan"
proof (induction n arbitrary: confirm k plan applied w)
  case (Suc n)
  from Suc.prems show ?case
    unfolding apply_from.simps(2) Let_def
    by (auto split: if_splits prod.splits sum.splits list.splits dest!: Suc.IH rollback_zone_id)
qed simp

section \<open>The whole application\<close>

lemma build_distinct: "BuildDNSRecords lo parse_ip domain host ip = Inr rs \<Longrightarrow> distinct (map rr_key rs)"
  by (auto simp: BuildDNSRecords_def Let_def rr_key_def split: if_splits option.splits)

lemma Apply_ended:
  assumes doc: "documented api dec zone" and ok: "zone_ok (zone (dp_zone_id plan) w)" and d: "distinct (map rr_key desired)"
    and run: "Apply api dec lo fo tok domain desired confirm w = ((err, plan), w')"
  shows "ended lo fo (zone (dp_zone_id plan) w) confirm desired err plan (zone (dp_zone_id plan) w')
    \<and> (err = None \<longrightarrow> \<not> dp_rolled_back plan)"
proof -
  obtain err1 plan1 w1 where p: "Preview api dec lo fo tok domain desired w = ((err1, plan1), w1)" by (metis prod.exhaust)
  note ps = Preview_spec [OF doc p]
  show ?thesis
  proof (cases err1)
    case (Some e)
    then have "err = Some e" "plan = plan1" "w' = w1" using run p by (auto simp: Apply_def)
    then show ?thesis using ps by (simp add: ended_def)
  next
    case None
    then have r: "apply_from api dec tok confirm (length (dp_items plan1)) 0 plan1 [] w1 = ((err, plan), w')"
      using run p by (simp add: Apply_def)
    let ?f = "zone (dp_zone_id plan1) w"
    have same: "zone (dp_zone_id plan1) w1 = ?f" using ps by blast
    have i: "map da_record (dp_items plan1) = desired" "list_all (planned lo fo ?f) (dp_items plan1)"
      using ps None by simp_all
    have "distinct (map (rr_key \<circ> da_record) (dp_items plan1))" using d i(1) by (metis map_map)
    then have start: "applying lo fo ?f confirm 0 (dp_items plan1) [] (zone (dp_zone_id plan1) w1)"
      using i(2) by (simp add: applying_def same same_key_def list_all_length)
    have nr: "\<not> dp_rolled_back plan1" using ps by blast
    have fin: "zone_ok ?f \<Longrightarrow> ended lo fo ?f confirm desired err plan (zone (dp_zone_id plan1) w') \<and> dp_zone_id plan = dp_zone_id plan1"
      by (rule apply_from_ended [OF doc _ r start _ nr]) (simp_all add: i(1) [symmetric])
    have id: "dp_zone_id plan = dp_zone_id plan1" by (rule apply_from_zone_id [OF r])
    show ?thesis using fin ok id by (simp add: ended_def)
  qed
qed

section \<open>A service that behaves as documented\<close>

text \<open>One zone, a list of records of which the first of an id counts, and a schedule of what becomes of the requests: served,
  refused, lost on the way to the service, or served with the answer lost.\<close>

datatype sample_json = Zones "cf_zone list" | Records "cf_record list" | Record cf_record

datatype fault = Served | Refused | Request_Lost | Answer_Lost

type_synonym sample_world = "fault list \<times> cf_record list"

definition sample_decoder :: "sample_json cf_decoder" where
  "sample_decoder =
     \<lparr>dec_zones = (\<lambda>j. case j of Zones z \<Rightarrow> Some z | _ \<Rightarrow> None), dec_records = (\<lambda>j. case j of Records r \<Rightarrow> Some r | _ \<Rightarrow> None),
      dec_record = (\<lambda>j. case j of Record r \<Rightarrow> Some r | _ \<Rightarrow> None), dec_object = (\<lambda>_. True)\<rparr>"

definition answered :: "sample_json option \<Rightarrow> sample_json cf_response option" where
  "answered j = Some \<lparr>rs_status = 200, rs_envelope = Some (True, j, [])\<rparr>"

definition record_map :: "cf_record list \<Rightarrow> zone" where
  "record_map rs = map_of (map (\<lambda>r. (cf_id r, r)) rs)"

definition sample_service :: "cf_request \<Rightarrow> cf_record list \<Rightarrow> sample_json cf_response option \<times> cf_record list" where
  "sample_service q rs =
     (case (rq_method q, rq_path q, rq_payload q) of
        (Get, Zones_Path n, _) \<Rightarrow> (answered (Some (Zones [\<lparr>zn_id = ''z'', zn_name = n\<rparr>])), rs)
      | (Get, List_Path z t n, _) \<Rightarrow>
          (answered (Some (Records (if z = ''z'' then filter (\<lambda>r. record_map rs (cf_id r) = Some r \<and> rr_key r = (t, n)) (remdups rs) else []))), rs)
      | (Post, Records_Path z, Some p) \<Rightarrow>
          (if z = ''z'' then (let c = stored (rr_of p) (concat (map cf_id rs) @ ''n'') in (answered (Some (Record c)), c # rs)) else (None, rs))
      | (Put, Record_Path z i, Some p) \<Rightarrow>
          (if z = ''z'' then (answered (Some (Record (stored (rr_of p) i))), stored (rr_of p) i # rs) else (None, rs))
      | (Delete, Record_Path z i, _) \<Rightarrow>
          (if z = ''z'' then (answered None, filter (\<lambda>r. cf_id r \<noteq> i) rs) else (None, rs))
      | _ \<Rightarrow> (None, rs))"

definition sample_api :: "(sample_world, sample_json) cf_api" where
  "sample_api q w =
     (case (if fst w = [] then Served else hd (fst w)) of
        Served \<Rightarrow> (fst (sample_service q (snd w)), (tl (fst w), snd (sample_service q (snd w))))
      | Refused \<Rightarrow> (Some \<lparr>rs_status = 400, rs_envelope = Some (False, None, [''quota''])\<rparr>, (tl (fst w), snd w))
      | Request_Lost \<Rightarrow> (None, (tl (fst w), snd w))
      | Answer_Lost \<Rightarrow> (None, (tl (fst w), snd (sample_service q (snd w)))))"

definition sample_zone :: "string \<Rightarrow> sample_world \<Rightarrow> zone" where
  "sample_zone z w = (if z = ''z'' then record_map (snd w) else Map.empty)"

lemma record_map_Some: "record_map rs i = Some r \<Longrightarrow> r \<in> set rs \<and> cf_id r = i"
  by (auto simp: record_map_def dest!: map_of_SomeD)

lemma record_map_fresh: "record_map rs (concat (map cf_id rs) @ ''n'') = None"
proof (rule ccontr)
  assume "record_map rs (concat (map cf_id rs) @ ''n'') \<noteq> None"
  then obtain r where "r \<in> set rs" "cf_id r = concat (map cf_id rs) @ ''n''" using record_map_Some by blast
  moreover have "length (cf_id r) \<le> length (concat (map cf_id rs))" if "r \<in> set rs" for r
    using that by (induction rs) auto
  ultimately show False by fastforce
qed

lemma record_map_delete: "record_map (filter (\<lambda>r. cf_id r \<noteq> i) rs) = (record_map rs)(i := None)"
  by (induction rs) (auto simp: record_map_def fun_eq_iff)

lemma record_map_Cons: "record_map (r # rs) = (record_map rs)(cf_id r \<mapsto> r)"
  by (simp add: record_map_def)

lemmas sample_defs = sample_api_def sample_service_def Let_def answered_def sample_decoder_def cf_call_def

lemma sample_documented: "documented sample_api sample_decoder sample_zone"
proof -
  have "lists_records sample_api sample_decoder sample_zone"
    unfolding lists_records_def listRecords_def listing_def
    by (auto simp: sample_defs sample_zone_def dest: record_map_Some split: fault.splits)
  moreover have "finds_zones sample_api sample_decoder sample_zone"
    unfolding finds_zones_def by (auto simp: sample_defs sample_zone_def split: fault.splits)
  moreover have "puts_records sample_api sample_zone"
    unfolding puts_records_def wrote_def
    by (auto simp: sample_defs sample_zone_def record_map_Cons acknowledged_def refused_def split: fault.splits)
  moreover have "creates_records sample_api sample_decoder sample_zone"
    unfolding creates_records_def
  proof (intro allI)
    fix tok z p and w :: sample_world and a w'
    show "sample_api \<lparr>rq_token = tok, rq_method = Post, rq_path = Records_Path z, rq_payload = Some p\<rparr> w = (a, w') \<longrightarrow>
        (\<exists>i. sample_zone z w i = None \<and> wrote a (sample_zone z w) (sample_zone z w') ((sample_zone z w)(i \<mapsto> stored (rr_of p) i))
          \<and> (acknowledged a \<longrightarrow> (\<exists>st j errors. a = Some \<lparr>rs_status = st, rs_envelope = Some (True, Some j, errors)\<rparr>
                \<and> (\<forall>c. dec_record sample_decoder j = Some c \<longrightarrow> cf_id c = i))))"
      unfolding wrote_def
      by (auto simp: sample_defs sample_zone_def record_map_Cons record_map_fresh acknowledged_def refused_def split: fault.splits
          intro!: exI [of _ "concat (map cf_id (snd w)) @ ''n''"])
  qed
  moreover have "deletes_records sample_api sample_zone"
    unfolding deletes_records_def wrote_def
    by (auto simp: sample_defs sample_zone_def record_map_delete acknowledged_def refused_def split: fault.splits)
  ultimately show ?thesis by (simp add: documented_def)
qed

section \<open>Properties\<close>

text \<open>C31. A failed application that reports its rollback has restored the zone, as far as the client can know.  At a service
  that behaves as documented (an acknowledged write is done, a refused one is not, of one without a readable answer
  either may be true; nobody else writes the zone meanwhile), whichever of the writes fails and whatever becomes of the
  requests of the rollback: if the plan says rolled back, then the error is the cause of the failure, and every
  record of the zone is what it was before (its time to live apart, which the client does not keep), except when the
  cause is one of the client's own three errors (no answer, an unreadable answer, an unreadable result).  Then the zone
  may also have, on top of that, the one write that failed: the record of one action, in a new record or, with the
  confirmation of conflicts only, in place of one of the same type and name.\<close>

theorem rollback_restores_zone:
  assumes doc: "documented api dec zone" and ok: "zone_ok (zone (dp_zone_id plan) w)"
    and build: "BuildDNSRecords lo parse_ip domain host ip = Inr desired"
    and run: "Apply api dec lo fo tok domain desired confirm w = ((err, plan), w')"
    and rb: "dp_rolled_back plan"
  shows "\<exists>cause. err = Some cause
    \<and> (zone (dp_zone_id plan) w' = zone (dp_zone_id plan) w
       \<or> cause \<in> {''Cloudflare request failed'', ''invalid Cloudflare response'', ''invalid Cloudflare result''}
         \<and> (\<exists>r \<in> set desired. \<exists>i. zone (dp_zone_id plan) w' = (zone (dp_zone_id plan) w)(i \<mapsto> stored r i)
              \<and> (case zone (dp_zone_id plan) w i of None \<Rightarrow> True | Some p \<Rightarrow> rr_key p = rr_key r \<and> confirm)))"
  using Apply_ended [OF doc ok build_distinct [OF build] run] rb
  unfolding ended_def restored_def lost_write_def unanswered_def by (auto split: option.split) blast+

text \<open>An application that succeeds reports what is there: for every action reported as unchanged, updated or
  created the zone has the record asked for and no other of its type and name; and without the confirmation of
  conflicts no record that existed is changed, whether the application succeeds, fails or is rolled back.\<close>

theorem apply_reports_zone:
  assumes doc: "documented api dec zone" and ok: "zone_ok (zone (dp_zone_id plan) w)"
    and build: "BuildDNSRecords lo parse_ip domain host ip = Inr desired"
    and run: "Apply api dec lo fo tok domain desired confirm w = ((err, plan), w')"
  shows "(err = None \<longrightarrow> list_all (settled lo fo (zone (dp_zone_id plan) w')) (dp_items plan))
       \<and> (\<not> confirm \<longrightarrow> zone (dp_zone_id plan) w \<subseteq>\<^sub>m zone (dp_zone_id plan) w')"
  using Apply_ended [OF doc ok build_distinct [OF build] run] by (auto simp: ended_def)

definition sample_ip :: "string \<Rightarrow> (bool \<times> string) option" where
  "sample_ip s = (if s = ''9'' then Some (True, s) else None)"

definition sample_desired :: "dns_rr list" where
  "sample_desired =
     [\<lparr>rr_type = ''MX'', rr_name = ''b.de'', rr_content = ''m.b.de'', rr_priority = 10, rr_proxied = False\<rparr>,
      \<lparr>rr_type = ''A'', rr_name = ''m.b.de'', rr_content = ''9'', rr_priority = 0, rr_proxied = False\<rparr>]"

lemma sample_text:
  "cf_normalizeDomain id ''b.de'' = ''b.de''" "cf_normalizeDomain id ''m.b.de'' = ''m.b.de''" "trim_space ''9'' = ''9''"
  by (simp_all add: cf_normalizeDomain_def trim_space_ascii is_ascii_def ascii_space_def to_lower_ascii lower_char_def is_upper_def
      trim_cut_id)

lemma sample_patterns: "domainPattern ''b.de''" "domainPattern ''m.b.de''"
  by (simp_all add: domainPattern_def Let_def domain_label_def label_char_def is_lower_def is_digit_def)

lemma sample_build: "BuildDNSRecords id sample_ip ''b.de'' ''m.b.de'' ''9'' = Inr sample_desired"
  by (simp add: BuildDNSRecords_def sample_text sample_patterns has_suffix_def sample_ip_def sample_desired_def Let_def)

definition sample_run :: "fault list \<Rightarrow> (string option \<times> dns_plan) \<times> sample_world" where
  "sample_run faults = Apply sample_api sample_decoder id id ''t'' ''b.de'' sample_desired False (faults, [])"

lemmas sample_eval = sample_run_def Apply_def Preview_def resolveZone_def listRecords_def sample_desired_def sample_defs
  sample_text sample_patterns plan_action_def empty_plan_def createRecord_def deleteRecord_def rollbackApply_def revert_change_def
  apply_from.simps payload_of_def rr_of_def stored_def rr_key_def record_map_def rolled_back_def

lemma sample_rollback: "dp_zone_id (snd (fst (sample_run [Served, Served, Served, Served, Refused]))) = ''z''
    \<and> dp_rolled_back (snd (fst (sample_run [Served, Served, Served, Served, Refused])))
    \<and> fst (fst (sample_run [Served, Served, Served, Served, Refused])) = Some ''quota''"
  by (simp add: sample_eval cf_message_def)

theorem rollback_restores_zone_witness:
  "dp_rolled_back (snd (fst (sample_run [Served, Served, Served, Served, Refused])))
   \<and> sample_zone ''z'' (snd (sample_run [Served, Served, Served, Served, Refused])) = Map.empty"
proof -
  let ?faults = "[Served, Served, Served, Served, Refused]"
  let ?r = "sample_run ?faults"
  have run: "Apply sample_api sample_decoder id id ''t'' ''b.de'' sample_desired False (?faults, [])
      = ((fst (fst ?r), snd (fst ?r)), snd ?r)" by (simp add: sample_run_def)
  have ok: "zone_ok (sample_zone (dp_zone_id (snd (fst ?r))) (?faults, []))"
    by (simp add: zone_ok_def sample_zone_def record_map_def)
  have "sample_zone ''z'' (snd ?r) = sample_zone ''z'' (?faults, [])"
    using rollback_restores_zone [OF sample_documented ok sample_build run] sample_rollback by simp
  then show ?thesis using sample_rollback by (simp add: sample_zone_def record_map_def)
qed

text \<open>The exception is real: when the answer of the last write is lost, the plan says rolled back and nothing of a rollback
  error, and the record is in the zone.\<close>

lemma lost_answer_survives_rollback:
  defines "r \<equiv> sample_run [Served, Served, Served, Served, Answer_Lost]"
  shows "dp_rolled_back (snd (fst r)) \<and> dp_rollback_error (snd (fst r)) = [] \<and> fst (fst r) = Some ''Cloudflare request failed''
    \<and> sample_zone ''z'' (snd r) \<noteq> Map.empty"
  unfolding r_def by (simp add: sample_eval sample_zone_def)

lemma sample_success: "dp_zone_id (snd (fst (sample_run []))) = ''z'' \<and> fst (fst (sample_run [])) = None
    \<and> map da_status (dp_items (snd (fst (sample_run [])))) = [''created'', ''created'']"
  by (simp add: sample_eval)

theorem apply_reports_zone_witness:
  "list_all (settled id id (sample_zone ''z'' (snd (sample_run [])))) (dp_items (snd (fst (sample_run []))))
   \<and> map da_status (dp_items (snd (fst (sample_run [])))) = [''created'', ''created'']"
proof -
  let ?r = "sample_run []"
  have run: "Apply sample_api sample_decoder id id ''t'' ''b.de'' sample_desired False ([], []) = ((fst (fst ?r), snd (fst ?r)), snd ?r)"
    by (simp add: sample_run_def)
  show ?thesis
    using apply_reports_zone [OF sample_documented _ sample_build run] sample_success
    by (simp add: zone_ok_def sample_zone_def record_map_def)
qed

end
