(* ===== verification/Integration_Promises.thy ===== *)
theory Integration_Promises
  imports Integrations Cloudflare_Promises Histories
begin

text \<open>
  What the integrations promise: whatever updates are made, an enabled channel has complete and valid
  credentials and is attempted; a delivery is retried a bounded number of times, only after failures that may pass,
  and always signed; what is stored is what is in use after a restart.
\<close>

section \<open>The configuration is always usable\<close>

definition config_ok :: "url_libs \<Rightarrow> notification_config \<Rightarrow> bool" where
  "config_ok l c =
     (\<not> incomplete c \<and> (gw_url (nc_generic c) \<noteq> [] \<longrightarrow> validateIntegrationURL l (gw_url (nc_generic c)))
      \<and> (dc_url (nc_discord c) \<noteq> [] \<longrightarrow> validateIntegrationURL l (dc_url (nc_discord c)))
      \<and> trim_space (gw_url (nc_generic c)) = gw_url (nc_generic c) \<and> trim_space (dc_url (nc_discord c)) = dc_url (nc_discord c))"

definition secrets_ok :: "url_libs \<Rightarrow> secret_store \<Rightarrow> bool" where
  "secrets_ok l s =
     (config_ok l (Notifications s)
      \<and> (case ss_file s of Missing \<Rightarrow> True | Unreadable \<Rightarrow> False | Holds d \<Rightarrow> config_ok l (sd_notifications d)))"

lemma update_generic_url:
  "update_generic l u g = Inr g' \<Longrightarrow> gw_url g' = [] \<or> gw_url g' = gw_url g
     \<or> (validateIntegrationURL l (gw_url g') \<and> trim_space (gw_url g') = gw_url g')"
  by (auto simp: update_generic_def rbind_Inr_iff no_generic_def Let_def split: if_splits)

lemma update_discord_url:
  "update_discord l u d = Inr d' \<Longrightarrow> dc_url d' = [] \<or> dc_url d' = dc_url d
     \<or> (validateIntegrationURL l (dc_url d') \<and> trim_space (dc_url d') = dc_url d')"
  by (auto simp: update_discord_def no_discord_def Let_def split: if_splits)

lemma persist_ok:
  "config_ok l (Notifications s) \<Longrightarrow> secrets_ok l s' \<Longrightarrow> ss_file s = ss_file s' \<Longrightarrow> secrets_ok l (snd (persistLocked fault s))"
  by (auto simp: persistLocked_def secrets_ok_def Notifications_def)

lemma UpdateNotifications_cases:
  obtains "snd (UpdateNotifications fault l body s) = s" "fst (fst (UpdateNotifications fault l body s)) = 400"
  | c where "\<not> incomplete c" "\<exists>u. update_generic l u (nc_generic (Notifications s)) = Inr (nc_generic c)"
      "\<exists>u. update_discord l u (nc_discord (Notifications s)) = Inr (nc_discord c)"
      "snd (UpdateNotifications fault l body s) = snd (UpdateSecretNotifications fault (\<lambda>_. c) s)"
      "fst (fst (UpdateNotifications fault l body s)) = (if fault then 500 else 200)"
proof -
  show ?thesis
  proof (cases body)
    case None
    then show ?thesis using that(1) by (simp add: UpdateNotifications_def)
  next
    case (Some u)
    show ?thesis
    proof (cases "update_generic l (nu_generic u) (nc_generic (Notifications s))")
      case (Inl e)
      then show ?thesis using that(1) Some by (simp add: UpdateNotifications_def Let_def)
    next
      case g: (Inr g)
      show ?thesis
      proof (cases "update_discord l (nu_discord u) (nc_discord (Notifications s))")
        case (Inl e)
        then show ?thesis using that(1) Some g by (simp add: UpdateNotifications_def Let_def)
      next
        case d: (Inr d)
        define c where "c = \<lparr>nc_generic = g, nc_telegram = update_telegram (nu_telegram u) (nc_telegram (Notifications s)), nc_discord = d\<rparr>"
        have r: "UpdateNotifications fault l body s =
            (if incomplete c then ((400, ''enabled notification channels require complete credentials''), s)
             else case UpdateSecretNotifications fault (\<lambda>_. c) s of
               (False, s') \<Rightarrow> ((500, ''unable to store notification configuration''), s')
             | (True, s') \<Rightarrow> ((200, ''notification configuration updated''), s'))"
          using Some g d by (simp add: UpdateNotifications_def Let_def c_def)
        show ?thesis
        proof (cases "incomplete c")
          case True
          then show ?thesis using that(1) r by simp
        next
          case False
          show ?thesis
            by (rule that(2) [OF False])
              (use g d r False in \<open>auto simp: c_def UpdateSecretNotifications_def persistLocked_def\<close>)
        qed
      qed
    qed
  qed
qed

lemma UpdateNotifications_ok:
  assumes ok: "secrets_ok l s" shows "secrets_ok l (snd (UpdateNotifications fault l body s))"
proof (rule UpdateNotifications_cases [of fault l body s])
  assume "snd (UpdateNotifications fault l body s) = s"
  then show ?thesis using ok by simp
next
  fix c
  assume c: "\<not> incomplete c" "\<exists>u. update_generic l u (nc_generic (Notifications s)) = Inr (nc_generic c)"
    "\<exists>u. update_discord l u (nc_discord (Notifications s)) = Inr (nc_discord c)"
    "snd (UpdateNotifications fault l body s) = snd (UpdateSecretNotifications fault (\<lambda>_. c) s)"
  obtain ug ud where "update_generic l ug (nc_generic (Notifications s)) = Inr (nc_generic c)"
      "update_discord l ud (nc_discord (Notifications s)) = Inr (nc_discord c)" using c(2,3) by blast
  then have urls: "gw_url (nc_generic c) = [] \<or> gw_url (nc_generic c) = gw_url (nc_generic (Notifications s))
        \<or> (validateIntegrationURL l (gw_url (nc_generic c)) \<and> trim_space (gw_url (nc_generic c)) = gw_url (nc_generic c))"
      "dc_url (nc_discord c) = [] \<or> dc_url (nc_discord c) = dc_url (nc_discord (Notifications s))
        \<or> (validateIntegrationURL l (dc_url (nc_discord c)) \<and> trim_space (dc_url (nc_discord c)) = dc_url (nc_discord c))"
    using update_generic_url update_discord_url by blast+
  have "config_ok l (Notifications s)" using ok by (simp add: secrets_ok_def)
  then have "config_ok l c" using c(1) urls by (auto simp: config_ok_def)
  then show ?thesis
    unfolding c(4) UpdateSecretNotifications_def
    by (intro persist_ok [OF _ ok]) (simp_all add: Notifications_def)
qed

interpretation integration_updates: guarded_steps "\<lambda>(fault, body) s. snd (UpdateNotifications fault l body s)" "\<lambda>_ _. True" "secrets_ok l" for l
  by unfold_locales (auto simp: UpdateNotifications_ok)

section \<open>Attempts\<close>

definition failure_that_may_pass :: "nat \<Rightarrow> reply \<Rightarrow> bool" where
  "failure_that_may_pass k r = (transient r \<or> (r = Cancelled \<and> k = 0))"

lemma attempts_spec:
  "attempts env n k err = ((res, recorded), m) \<Longrightarrow>
   m \<le> n \<and> (\<forall>i. k \<le> i \<and> i + 1 < k + m \<longrightarrow> failure_that_may_pass i (env i))
   \<and> (res = None \<longleftrightarrow> (0 < m \<and> (\<exists>c. env (k + m - 1) = Answered c \<and> ok_status c)))"
proof (induction n arbitrary: k err res recorded m)
  case (Suc n)
  have step: "?case" if a: "attempts env n (Suc k) e = ((res, recorded), m')" "m = Suc m'" "failure_that_may_pass k (env k)" for e m'
  proof -
    have ih: "m' \<le> n" "\<forall>i. Suc k \<le> i \<and> i + 1 < Suc k + m' \<longrightarrow> failure_that_may_pass i (env i)"
        "res = None \<longleftrightarrow> (0 < m' \<and> (\<exists>c. env (Suc k + m' - 1) = Answered c \<and> ok_status c))"
      using Suc.IH [OF a(1)] by auto
    have "\<forall>i. k \<le> i \<and> i + 1 < k + m \<longrightarrow> failure_that_may_pass i (env i)"
      using ih(2) a(2,3) by (metis Suc_leI add_Suc_right add_Suc le_neq_implies_less)
    moreover have "\<not> (\<exists>c. env k = Answered c \<and> ok_status c)"
      using a(3) by (auto simp: failure_that_may_pass_def transient_def)
    ultimately show ?thesis using ih(1,3) a(2) by (cases m') auto
  qed
  show ?case
  proof (cases "env k")
    case Cancelled
    show ?thesis
    proof (cases "k > 0")
      case True
      then show ?thesis using Suc.prems Cancelled by auto
    next
      case False
      obtain r' m' where at: "attempts env n (Suc k) (reply_error Cancelled) = (r', m')" by fastforce
      then have "r' = (res, recorded)" "m = Suc m'" using Suc.prems Cancelled False by simp_all
      then show ?thesis using step at False Cancelled by (simp add: failure_that_may_pass_def)
    qed
  next
    case No_Answer
    obtain r' m' where at: "attempts env n (Suc k) (reply_error No_Answer) = (r', m')" by fastforce
    then have "r' = (res, recorded)" "m = Suc m'" using Suc.prems No_Answer by (simp_all add: transient_def)
    then show ?thesis using step at No_Answer by (simp add: failure_that_may_pass_def transient_def)
  next
    case (Answered c)
    consider "ok_status c" | "\<not> ok_status c" "transient (env k)" | "\<not> ok_status c" "\<not> transient (env k)" by blast
    then show ?thesis
    proof cases
      case 2
      obtain r' m' where at: "attempts env n (Suc k) (reply_error (Answered c)) = (r', m')" by fastforce
      then have "r' = (res, recorded)" "m = Suc m'" using Suc.prems Answered 2 by simp_all
      then show ?thesis using step at 2 Answered by (simp add: failure_that_may_pass_def)
    qed (use Suc.prems Answered in auto)
  qed (use Suc.prems in auto)
qed auto

lemma first_attempt: "env 0 \<noteq> Unbuildable \<Longrightarrow> attempts env 3 0 err = (r, m) \<Longrightarrow> 0 < m"
  by (cases "env 0") (auto simp: numeral_3_eq_3 split: prod.splits if_splits)

section \<open>Properties\<close>

text \<open>A delivery is bounded and honest: at most three requests are sent, all of them the same; each but the last
  met a failure that may pass (no answer, a server error or too many requests); the channel reports success exactly
  when the last one was answered with a success status; and the request carries the signature of its body exactly
  when a secret is configured.\<close>

theorem delivery_bounded:
  assumes d: "deliverChannel l env now cfg channel e test st = (err, sent, st')"
  shows "length sent \<le> 3 \<and> length (remdups sent) \<le> 1
       \<and> (\<forall>i. i + 1 < length sent \<longrightarrow> failure_that_may_pass i (env i))
       \<and> (err = None \<longleftrightarrow> sent \<noteq> [] \<and> (\<exists>c. env (length sent - 1) = Answered c \<and> ok_status c))
       \<and> list_all (\<lambda>r. wr_signature r =
            (if channel = ''generic'' \<and> gw_secret (nc_generic cfg) \<noteq> []
             then Some (''sha256='' @ hex_encode (nl_hmac l (gw_secret (nc_generic cfg)) (wr_body r))) else None)) sent"
proof (cases "channel_request cfg channel e test")
  case None
  then show ?thesis using d by (auto simp: deliverChannel_def)
next
  case (Some req)
  obtain endpoint body secret where req: "req = (endpoint, body, secret)" by (metis prod.exhaust)
  show ?thesis
  proof (cases "validateHTTPURL l endpoint")
    case False
    then show ?thesis using d Some req by (auto simp: deliverChannel_def)
  next
    case True
    obtain res recorded n where at: "attempts env 3 0 [] = ((res, recorded), n)" by (metis prod.exhaust)
    have s: "err = res" "sent = replicate n (webhook l endpoint body secret)"
      using d Some req True at by (auto simp: deliverChannel_def)
    have "secret = (if channel = ''generic'' then gw_secret (nc_generic cfg) else [])"
      using Some req by (auto simp: channel_request_def split: if_splits)
    moreover have "length (remdups (replicate n x)) \<le> 1" for x :: webhook_request
      by (induction n) (auto simp: set_replicate_conv_if split: if_splits)
    ultimately show ?thesis using attempts_spec [OF at] s by (auto simp: list_all_iff webhook_def Let_def)
  qed
qed

definition any_url :: url_libs where
  "any_url = \<lparr>ul_parse = (\<lambda>s. Some (''https'', ''h'')), ul_parse_request = (\<lambda>s. if s = [] then None else Some (''https'', ''h''))\<rparr>"

definition any_notify :: notify_libs where
  "any_notify =
     \<lparr>nl_parse_uri = (\<lambda>s. if s = [] then None else Some (''https'', ''h'')), nl_marshal = (\<lambda>_. ''{}''), nl_hmac = (\<lambda>k m. k)\<rparr>"

definition no_delivery :: delivery_status where
  "no_delivery = \<lparr>ds_last_attempt_at = None, ds_last_success_at = None, ds_last_channel = [], ds_last_error = []\<rparr>"

definition sample_config :: notification_config where
  "sample_config =
     \<lparr>nc_generic = \<lparr>gw_enabled = True, gw_url = ''u'', gw_secret = ''k''\<rparr>, nc_telegram = no_telegram, nc_discord = no_discord\<rparr>"

theorem delivery_bounded_witness:
  "length (fst (snd (deliverChannel any_notify (\<lambda>i. if i = 0 then No_Answer else Answered 204) 9 sample_config ''generic''
      (test_event 0) True no_delivery))) = 2
   \<and> fst (deliverChannel any_notify (\<lambda>i. if i = 0 then No_Answer else Answered 204) 9 sample_config ''generic''
      (test_event 0) True no_delivery) = None"
proof -
  define env where "env = (\<lambda>i :: nat. if i = 0 then No_Answer else Answered 204)"
  let ?d = "deliverChannel any_notify env 9 sample_config ''generic'' (test_event 0) True no_delivery"
  have t: "trim_space ''u'' = ''u''" by (simp add: trim_space_ascii is_ascii_def ascii_space_def)
  have n: "length (fst (snd ?d)) = 2"
    by (simp add: deliverChannel_def channel_request_def sample_config_def validateHTTPURL_def any_notify_def t env_def numeral_3_eq_3
        transient_def ok_status_def)
  have "fst ?d = None \<longleftrightarrow> fst (snd ?d) \<noteq> [] \<and> (\<exists>c. env (length (fst (snd ?d)) - 1) = Answered c \<and> ok_status c)"
    using delivery_bounded [of any_notify env 9 sample_config "''generic''" "test_event 0" True no_delivery
      "fst ?d" "fst (snd ?d)" "snd (snd ?d)"] by simp
  then have "fst ?d = None" unfolding n using n by (auto simp: env_def ok_status_def)
  then show ?thesis using n unfolding env_def by simp
qed

lemma enabled_generic_url:
  assumes "config_ok l c" "channel \<in> set (enabled_channels c)" "channel \<noteq> ''telegram''"
  obtains endpoint body secret where "channel_request c channel e test = Some (endpoint, body, secret)" "validateIntegrationURL l endpoint"
proof -
  have ok: "gw_enabled (nc_generic c) \<Longrightarrow> gw_url (nc_generic c) \<noteq> [] \<and> validateIntegrationURL l (gw_url (nc_generic c)) \<and> trim_space (gw_url (nc_generic c)) = gw_url (nc_generic c)"
    "dc_enabled (nc_discord c) \<Longrightarrow> dc_url (nc_discord c) \<noteq> [] \<and> validateIntegrationURL l (dc_url (nc_discord c)) \<and> trim_space (dc_url (nc_discord c)) = dc_url (nc_discord c)"
    using assms(1) by (auto simp: config_ok_def incomplete_def)
  consider "channel = ''generic''" "gw_enabled (nc_generic c)" | "channel = ''discord''" "dc_enabled (nc_discord c)"
    using assms(2,3) by (auto simp: enabled_channels_def split: if_splits)
  then show ?thesis
  proof cases
    case 1
    show ?thesis
      by (rule that [of "gw_url (nc_generic c)" "Generic_Body e test" "gw_secret (nc_generic c)"])
        (use ok(1) 1 in \<open>simp_all add: channel_request_def\<close>)
  next
    case 2
    show ?thesis
      by (rule that [of "dc_url (nc_discord c)" "Discord_Body (notificationText e test)" "[]"])
        (use ok(2) 2 in \<open>simp_all add: channel_request_def\<close>)
  qed
qed

text \<open>The stored configuration is well-formed: after any history of updates, with any failures of the disk, every
  enabled channel has complete credentials and valid addresses in memory and in the file, and a notification for an
  enabled webhook channel is attempted at least once rather than refused as not configured.\<close>

theorem enabled_channels_usable:
  assumes start: "secrets_ok l s0"
    and s: "s = run (\<lambda>(fault, body) s. snd (UpdateNotifications fault l body s)) updates s0"
    and parser: "nl_parse_uri n = ul_parse_request l"
    and channel: "channel \<in> set (enabled_channels (Notifications s))" "channel \<noteq> ''telegram''"
    and env: "env 0 \<noteq> Unbuildable"
  shows "secrets_ok l s \<and> fst (snd (deliverChannel n env now (Notifications s) channel e test st)) \<noteq> []"
proof -
  have al: "run_allowed (\<lambda>(fault, body) s. snd (UpdateNotifications fault l body s)) (\<lambda>_ _. True) updates s0"
    by (induction updates arbitrary: s0) simp_all
  have ok: "secrets_ok l s" unfolding s by (rule integration_updates.run_keeps [OF start al])
  then have "config_ok l (Notifications s)" by (simp add: secrets_ok_def)
  from enabled_generic_url [OF this channel] obtain endpoint body secret where
    r: "channel_request (Notifications s) channel e test = Some (endpoint, body, secret)" "validateIntegrationURL l endpoint" by blast
  have v: "validateHTTPURL n endpoint"
    using r(2) parser by (simp add: validateHTTPURL_def validateIntegrationURL_def)
  obtain res k where at: "attempts env 3 0 [] = (res, k)" by fastforce
  have "0 < k" by (rule first_attempt [OF env at])
  then show ?thesis using r(1) v at ok by (cases res) (simp add: deliverChannel_def)
qed

definition sample_update :: notification_update where
  "sample_update =
     (let off = \<lparr>cu_enabled = False, cu_url = [], cu_secret = [], cu_bot_token = [], cu_chat_id = [], cu_clear = False\<rparr> in
      \<lparr>nu_generic = off\<lparr>cu_enabled := True, cu_url := ''u''\<rparr>, nu_telegram = off, nu_discord = off\<rparr>)"

theorem enabled_channels_usable_witness:
  "fst (snd (deliverChannel any_notify (\<lambda>_. Answered 200) 9
      (Notifications (run (\<lambda>(fault, body) s. snd (UpdateNotifications fault any_url body s)) [(False, Some sample_update)]
         \<lparr>ss_data = no_secrets, ss_file = Missing\<rparr>)) ''generic'' (test_event 0) False no_delivery)) \<noteq> []"
proof -
  let ?s0 = "\<lparr>ss_data = no_secrets, ss_file = Missing\<rparr>"
  define s where "s = run (\<lambda>(fault, body) s. snd (UpdateNotifications fault any_url body s)) [(False, Some sample_update)] ?s0"
  have t: "trim_space ''u'' = ''u''" by (simp add: trim_space_ascii is_ascii_def ascii_space_def)
  have start: "secrets_ok any_url ?s0"
    by (simp add: secrets_ok_def config_ok_def Notifications_def no_secrets_def incomplete_def no_generic_def no_telegram_def no_discord_def)
  have ch: "''generic'' \<in> set (enabled_channels (Notifications s))"
    by (simp add: s_def UpdateNotifications_def sample_update_def Let_def Notifications_def no_secrets_def no_generic_def no_telegram_def
        no_discord_def update_generic_def update_discord_def update_telegram_def t validateIntegrationURL_def any_url_def incomplete_def
        UpdateSecretNotifications_def persistLocked_def enabled_channels_def)
  have p: "nl_parse_uri any_notify = ul_parse_request any_url" by (simp add: any_notify_def any_url_def)
  show ?thesis
    using enabled_channels_usable [OF start s_def p ch, of "\<lambda>_. Answered 200" 9 "test_event 0" False no_delivery] by (simp add: s_def)
qed

end
