(* ===== verification/Settings_Admin.thy ===== *)
theory Settings_Admin
  imports Cloudflare Domain_Admin
begin

text \<open>
  The settings of the site: their defaults (\<open>src/api/store/auxiliary_schema.go\<close>), reading all of them
  (\<open>settings.go\<close>), the public page and the owner's form (\<open>src/api/handler/setting.go\<close>).  A request is the list of its
  pairs in the order Go ranges over the map; \<open>net.ParseIP\<close>, SHA-1, base64 and the unescaping of a query are
  parameters.  A value the column rejects is a fault of its statement.
\<close>

section \<open>The stored settings\<close>

definition default_settings :: "(string \<times> string) list" where
  "default_settings =
     [(''site_title'', ''FAR Mail''), (''site_logo_url'', []), (''mailbox_ttl_minutes'', ''30''),
      (''email_retention_minutes'', ''1440''), (''inbox_refresh_seconds'', ''3''), (''token_default_scope'', ''read''),
      (''token_default_expires_days'', ''30''), (''token_default_rate_limit_per_minute'', ''0''),
      (''token_default_daily_request_limit'', ''0''), (''token_default_total_request_limit'', ''0''),
      (''admin_key_prefix'', ''mail''), (''admin_key_hex_length'', ''32''), (''donation_enabled'', ''true''),
      (''donation_reward_rate_limit_per_minute'', ''30''), (''donation_reward_daily_request_limit'', ''5000''),
      (''donation_reward_total_request_limit'', ''100000''), (''donation_token_rate_limit_cap'', ''180''),
      (''donation_max_domains_per_token'', ''10''), (''donation_dns_failure_tolerance'', ''3''),
      (''donation_recheck_minutes'', ''30'')]"

text \<open>\<open>ON CONFLICT (key) DO NOTHING\<close>\<close>

definition seed_settings :: "db \<Rightarrow> db" where
  "seed_settings d = d\<lparr>db_settings := map_of default_settings ++ db_settings d\<rparr>"

text \<open>A title of an older release gives way to the new one; \<open>BTRIM\<close> strips spaces only.\<close>

definition legacy_titles :: "string list" where
  "legacy_titles = [''tempmail'', ''temp mail'', ''temporary mail'']"

definition legacy_name :: string where
  "legacy_name = map char_of [0xe4, 0xb8, 0xb4, 0xe6, 0x97, 0xb6, 0xe9, 0x82, 0xae, 0xe7, 0xae, (0xb1 :: nat)]"

definition legacy_platform :: string where
  "legacy_platform = legacy_name @ map char_of [0xe5, 0xb9, 0xb3, 0xe5, 0x8f, (0xb0 :: nat)]"

definition retitle :: "(nat \<Rightarrow> nat) \<Rightarrow> db \<Rightarrow> db" where
  "retitle lo d =
     (case db_settings d ''site_title'' of
        None \<Rightarrow> d
      | Some v \<Rightarrow>
          (let t = trim_cut '' '' v in
           if to_lower lo t \<in> set legacy_titles \<or> t = legacy_name \<or> t = legacy_platform
           then SetSetting ''site_title'' ''FAR Mail'' d else d))"

definition retired_settings :: "string list" where
  "retired_settings =
     [''registration_open'', ''max_mailboxes_per_user'', ''rate_limit_enabled'', ''default_domain'',
      ''primary_token_rate_limit_per_minute'', ''primary_token_daily_request_limit'', ''primary_token_total_request_limit'',
      ''token_secret_prefix'']"

definition drop_retired :: "db \<Rightarrow> db" where
  "drop_retired d = d\<lparr>db_settings := (\<lambda>k. if k \<in> set retired_settings then None else db_settings d k)\<rparr>"

text \<open>An owner key of another shape is replaced; \<open>random a\<close> is the hexadecimal text drawn for account \<open>a\<close>.\<close>

definition owner_key_pattern :: "string \<Rightarrow> bool" where
  "owner_key_pattern key =
     (has_prefix key ''sk-''
      \<and> (let rest = drop 3 key in
         list_ex (\<lambda>n. length rest > n \<and> rest ! (length rest - n - 1) = CHR ''-''
                      \<and> list_all is_lower_hex (drop (length rest - n) rest)
                      \<and> list_all (\<lambda>c. is_lower c \<or> is_digit c \<or> c = CHR ''_'' \<or> c = CHR ''-'') (take (length rest - n - 1) rest)
                      \<and> 1 \<le> length rest - n - 1 \<and> length rest - n - 1 \<le> 24) [16, 32]))"

definition renew_owner_key :: "(uuid \<Rightarrow> string) \<Rightarrow> time \<Rightarrow> account \<Rightarrow> account" where
  "renew_owner_key random now a =
     (if acc_is_admin a \<and> \<not> owner_key_pattern (acc_api_key a)
      then a\<lparr>acc_api_key := ''sk-mail-'' @ random (acc_id a), acc_updated_at := now\<rparr> else a)"

definition ensureAuxSchema :: "(nat \<Rightarrow> nat) \<Rightarrow> (uuid \<Rightarrow> string) \<Rightarrow> time \<Rightarrow> db \<Rightarrow> db" where
  "ensureAuxSchema lo random now d =
     (let d' = drop_retired (retitle lo (seed_settings d)) in
      d'\<lparr>db_accounts := map (renew_owner_key random now) (db_accounts d')\<rparr>)"

definition GetAllSettings :: "bool \<Rightarrow> db \<Rightarrow> (db_error, string \<rightharpoonup> string) result" where
  "GetAllSettings fault d = (if fault then Inl Fault else Inr (db_settings d))"

definition go_get :: "(string \<rightharpoonup> string) \<Rightarrow> string \<Rightarrow> string" where
  "go_get m k = (case m k of None \<Rightarrow> [] | Some v \<Rightarrow> v)"

section \<open>The owner's form\<close>

definition editableSettingKeys :: "string list" where
  "editableSettingKeys =
     [''site_title'', ''site_logo_url'', ''announcement'', ''smtp_server_ip'', ''smtp_hostname'', ''mailbox_ttl_minutes'',
      ''email_retention_minutes'', ''inbox_refresh_seconds'', ''token_default_expires_days'',
      ''token_default_rate_limit_per_minute'', ''token_default_daily_request_limit'', ''token_default_total_request_limit'',
      ''admin_key_prefix'', ''admin_key_hex_length'', ''donation_enabled'', ''donation_reward_rate_limit_per_minute'',
      ''donation_reward_daily_request_limit'', ''donation_reward_total_request_limit'', ''donation_token_rate_limit_cap'',
      ''donation_max_domains_per_token'', ''donation_dns_failure_tolerance'', ''donation_recheck_minutes'']"

definition prefix_byte :: "char \<Rightarrow> bool" where
  "prefix_byte c = (is_lower c \<or> is_digit c \<or> c = CHR ''_'' \<or> c = CHR ''-'')"

definition credentialPrefixPattern :: "string \<Rightarrow> bool" where
  "credentialPrefixPattern s = (s \<noteq> [] \<and> length s \<le> 24 \<and> list_all prefix_byte s)"

definition hostnamePattern :: "string \<Rightarrow> bool" where
  "hostnamePattern s = list_all domain_label (split_byte s (CHR ''.''))"

text \<open>The numeric keys and their ranges.\<close>

definition setting_range :: "string \<Rightarrow> (int \<times> int) option" where
  "setting_range key =
     (if key = ''mailbox_ttl_minutes'' \<or> key = ''email_retention_minutes'' then Some (0, 525600)
      else if key = ''inbox_refresh_seconds'' then Some (2, 3600)
      else if key = ''token_default_expires_days'' then Some (0, 3650)
      else if key = ''token_default_rate_limit_per_minute'' \<or> key = ''token_default_daily_request_limit''
              \<or> key = ''token_default_total_request_limit'' then Some (0, 1000000000)
      else if key = ''donation_reward_rate_limit_per_minute'' \<or> key = ''donation_reward_total_request_limit'' then Some (1, 1000000000)
      else if key = ''donation_reward_daily_request_limit'' \<or> key = ''donation_token_rate_limit_cap'' then Some (0, 1000000000)
      else if key = ''donation_max_domains_per_token'' then Some (1, 1000)
      else if key = ''donation_dns_failure_tolerance'' then Some (1, 20)
      else if key = ''donation_recheck_minutes'' then Some (1, 1440)
      else None)"

definition validateIntegerRange :: "string \<Rightarrow> string \<Rightarrow> int \<Rightarrow> int \<Rightarrow> string option" where
  "validateIntegerRange key v lo hi =
     (let bad = Some (key @ '' must be an integer between '' @ itoa lo @ '' and '' @ itoa hi) in
      case atoi v of None \<Rightarrow> bad | Some n \<Rightarrow> if n < lo \<or> n > hi then bad else None)"

record setting_libs =
  sl_lower :: "nat \<Rightarrow> nat"
  sl_parse_ip :: "string \<Rightarrow> (bool \<times> string) option"
  sl_sha1 :: "string \<Rightarrow> string"
  sl_base64 :: "string \<Rightarrow> string option"
  sl_unescape :: "string \<Rightarrow> string option"

definition validateSettingValue :: "setting_libs \<Rightarrow> string \<Rightarrow> string \<Rightarrow> string option" where
  "validateSettingValue l key raw =
     (let v = trim_space raw in
      case setting_range key of
        Some (lo, hi) \<Rightarrow> validateIntegerRange key v lo hi
      | None \<Rightarrow>
          if key = ''smtp_server_ip'' then
            (if v \<noteq> [] \<and> sl_parse_ip l v = None then Some ''smtp_server_ip must be a valid IPv4 or IPv6 address'' else None)
          else if key = ''smtp_hostname'' then
            (if v \<noteq> [] \<and> (length v > 253 \<or> \<not> hostnamePattern (to_lower (sl_lower l) v)) then Some ''smtp_hostname must be a valid hostname'' else None)
          else if key = ''donation_enabled'' then
            (if v \<noteq> ''true'' \<and> v \<noteq> ''false'' then Some ''donation_enabled must be true or false'' else None)
          else if key = ''site_title'' then
            (if length (runes v) > 80 then Some ''site_title must not exceed 80 characters'' else None)
          else if key = ''announcement'' then
            (if length (runes v) > 500 then Some ''announcement must not exceed 500 characters'' else None)
          else if key = ''site_logo_url'' then
            (if length v > 750000 then Some ''site_logo_url payload is too large'' else None)
          else None)"

text \<open>One pair of the request: what is stored of it, or the error.\<close>

definition normalize_setting :: "setting_libs \<Rightarrow> string \<times> string \<Rightarrow> (string, string \<times> string) result" where
  "normalize_setting l kv =
     (let k = fst kv; v = (if k = ''admin_key_prefix'' then to_lower (sl_lower l) (trim_space (snd kv)) else snd kv) in
      if k \<notin> set editableSettingKeys then Inl (''unknown setting key: '' @ k)
      else if k = ''admin_key_prefix'' \<and> \<not> credentialPrefixPattern v
      then Inl ''admin_key_prefix must be 1-24 lowercase letters, numbers, dashes, or underscores''
      else if k = ''admin_key_hex_length'' \<and> v \<noteq> ''16'' \<and> v \<noteq> ''32'' then Inl ''admin_key_hex_length must be 16 or 32''
      else case validateSettingValue l k v of Some e \<Rightarrow> Inl e | None \<Rightarrow> Inr (k, v))"

fun normalize_settings :: "setting_libs \<Rightarrow> (string \<times> string) list \<Rightarrow> (string, (string \<times> string) list) result" where
  "normalize_settings l [] = Inr []"
| "normalize_settings l (kv # kvs) =
     rbind (normalize_setting l kv) (\<lambda>x. rbind (normalize_settings l kvs) (\<lambda>xs. Inr (x # xs)))"

definition AdminUpdate :: "setting_libs \<Rightarrow> nat option \<Rightarrow> (string \<times> string) list option \<Rightarrow> db \<Rightarrow> answer_text \<times> db" where
  "AdminUpdate l fault_at body d =
     (case body of
        None \<Rightarrow> ((400, []), d)
      | Some kvs \<Rightarrow>
          (case normalize_settings l kvs of
             Inl e \<Rightarrow> ((400, e), d)
           | Inr xs \<Rightarrow>
               (case SetSettings fault_at xs d of
                  (Inl _, d') \<Rightarrow> ((500, []), d')
                | (Inr _, d') \<Rightarrow> ((200, ''settings updated''), d'))))"

text \<open>What writes the settings: the form, and the schema at every start of the process.\<close>

datatype settings_event =
    Send_Form setting_libs "nat option" "(string \<times> string) list option"
  | Start_Process "nat \<Rightarrow> nat" "uuid \<Rightarrow> string" time

fun settings_step :: "settings_event \<Rightarrow> db \<Rightarrow> db" where
  "settings_step (Send_Form l fault_at body) d = snd (AdminUpdate l fault_at body d)"
| "settings_step (Start_Process lo random now) d = ensureAuxSchema lo random now d"

section \<open>The pages\<close>

definition is_data_url :: "setting_libs \<Rightarrow> string \<Rightarrow> bool" where
  "is_data_url l raw = has_prefix (to_lower (sl_lower l) raw) ''data:''"

definition lightweightLogoURL :: "setting_libs \<Rightarrow> string \<Rightarrow> string" where
  "lightweightLogoURL l raw0 =
     (let raw = trim_space raw0 in
      if raw = [] then [] else if \<not> is_data_url l raw then raw
      else ''/public/v1/logo?v='' @ hex_encode (take 6 (sl_sha1 l raw)))"

definition NewSettingHandler :: "string \<Rightarrow> string \<Rightarrow> site_config" where
  "NewSettingHandler ip hostname = \<lparr>sc_ip = trim_space ip, sc_hostname = trim_space hostname\<rparr>"

definition or_config :: "string \<Rightarrow> string \<Rightarrow> string" where
  "or_config v config = (if trim_space v = [] then config else v)"

definition GetPublic :: "bool \<Rightarrow> setting_libs \<Rightarrow> site_config \<Rightarrow> db \<Rightarrow> (int, (string \<times> string) list) result" where
  "GetPublic fault l cfg d =
     (case GetAllSettings fault d of
        Inl _ \<Rightarrow> Inl 500
      | Inr m \<Rightarrow>
          (let get = go_get m in
           Inr [(''site_title'', get ''site_title''), (''site_logo_url'', lightweightLogoURL l (get ''site_logo_url'')),
                (''smtp_server_ip'', or_config (trim_space (get ''smtp_server_ip'')) (sc_ip cfg)),
                (''smtp_hostname'', or_config (trim_space (get ''smtp_hostname'')) (sc_hostname cfg)),
                (''inbox_refresh_seconds'', if get ''inbox_refresh_seconds'' = [] then ''3'' else get ''inbox_refresh_seconds''),
                (''announcement'', get ''announcement''), (''donation_enabled'', get ''donation_enabled''),
                (''donation_reward_rate_limit_per_minute'', get ''donation_reward_rate_limit_per_minute''),
                (''donation_reward_daily_request_limit'', get ''donation_reward_daily_request_limit''),
                (''donation_reward_total_request_limit'', get ''donation_reward_total_request_limit'')]))"

definition AdminGetAll :: "bool \<Rightarrow> setting_libs \<Rightarrow> site_config \<Rightarrow> db \<Rightarrow> (int, string \<rightharpoonup> string) result" where
  "AdminGetAll fault l cfg d =
     (case GetAllSettings fault d of
        Inl _ \<Rightarrow> Inl 500
      | Inr m \<Rightarrow>
          (let s0 = (\<lambda>k. if k \<in> set editableSettingKeys then m k else None);
               s1 = (if trim_space (go_get s0 ''smtp_server_ip'') = [] then s0(''smtp_server_ip'' \<mapsto> sc_ip cfg) else s0);
               s2 = (if trim_space (go_get s1 ''smtp_hostname'') = [] then s1(''smtp_hostname'' \<mapsto> sc_hostname cfg) else s1) in
           Inr (if go_get s2 ''site_logo_url'' \<noteq> [] then s2(''site_logo_url'' \<mapsto> lightweightLogoURL l (go_get s2 ''site_logo_url'')) else s2)))"

datatype logo_answer = Logo_Missing | Logo_Redirect string | Logo_Bad string | Logo_Data string string

definition GetLogo :: "bool \<Rightarrow> setting_libs \<Rightarrow> db \<Rightarrow> logo_answer" where
  "GetLogo fault l d =
     (case (if fault then Inl Fault else GetSetting d ''site_logo_url'') of
        Inl _ \<Rightarrow> Logo_Missing
      | Inr v \<Rightarrow>
          (let raw = trim_space v in
           if raw = [] then Logo_Missing
           else if \<not> is_data_url l raw then Logo_Redirect raw
           else case cut_byte raw (CHR '','') of
             None \<Rightarrow> Logo_Bad ''invalid logo data url''
           | Some (head, body) \<Rightarrow>
               (let meta = trim_prefix head ''data:'';
                    kind = trim_space (hd (split_byte meta (CHR '';'')));
                    content = (if kind = [] then ''application/octet-stream'' else kind) in
                if contains_sub (to_lower (sl_lower l) meta) '';base64'' then
                  (case sl_base64 l body of None \<Rightarrow> Logo_Bad ''invalid logo base64'' | Some p \<Rightarrow> Logo_Data content p)
                else (case sl_unescape l body of None \<Rightarrow> Logo_Bad ''invalid logo payload'' | Some p \<Rightarrow> Logo_Data content p))))"

end
