(* ===== verification/Ingress_Load.thy ===== *)
theory Ingress_Load
  imports Mailbox_Promises
begin

text \<open>
  How the routing of the mail server follows the database (\<open>src/api/store/ingress.go\<close>, \<open>LoadIngressSnapshot\<close>, with
  \<open>refreshSnapshot\<close> and its loop in \<open>src/api/ingress/server.go\<close>), and the listings of the domain handlers
  (\<open>src/api/handler/domain.go\<close>).  The three statements of the load run one after the other, each against the database of its
  moment.  \<open>coll\<close> is the collation of the names and \<open>tie\<close> the order of accounts of one time, both of which the database chooses.
\<close>

section \<open>The load\<close>

definition snapshot_domains :: "(nat \<Rightarrow> nat) \<Rightarrow> (string \<Rightarrow> nat) \<Rightarrow> db \<Rightarrow> (int \<times> string) list" where
  "snapshot_domains lo coll d =
     filter (\<lambda>(i, n). n \<noteq> [])
       (map (\<lambda>m. (dom_id m, to_lower lo (trim_cut ''.'' (trim_space (dom_domain m)))))
         (sort_key (\<lambda>m. (- int (length (runes (dom_domain m))), coll (dom_domain m))) (filter dom_is_active (db_domains d))))"

definition first_admin :: "(account \<Rightarrow> nat) \<Rightarrow> db \<Rightarrow> account option" where
  "first_admin tie d =
     (case sort_key (\<lambda>a. (acc_created_at a, tie a)) (filter (\<lambda>a. acc_is_admin a \<and> acc_is_active a) (db_accounts d)) of
        [] \<Rightarrow> None
      | a # _ \<Rightarrow> Some a)"

definition snapshot_ttl :: "db \<Rightarrow> int" where
  "snapshot_ttl d =
     (case db_settings d ''mailbox_ttl_minutes'' of
        None \<Rightarrow> 30
      | Some v \<Rightarrow> (case atoi (trim_space (if v = [] then ''30'' else v)) of None \<Rightarrow> 30 | Some n \<Rightarrow> n))"

definition LoadIngressSnapshot ::
    "fault_at \<Rightarrow> (nat \<Rightarrow> nat) \<Rightarrow> (string \<Rightarrow> nat) \<Rightarrow> (account \<Rightarrow> nat) \<Rightarrow> db \<Rightarrow> db \<Rightarrow> db \<Rightarrow> (string, ingressSnapshot) result" where
  "LoadIngressSnapshot faults lo coll tie d0 d1 d2 =
     (if faults 0 then Inl []
      else if faults 1 then Inl []
      else case first_admin tie d1 of
        None \<Rightarrow> Inl ''no active admin account for ingress''
      | Some a \<Rightarrow>
          if faults 2 then Inl []
          else Inr \<lparr>is_domains = snapshot_domains lo coll d0, is_defaultAccountID = acc_id a, is_mailboxTTLMinutes = snapshot_ttl d2\<rparr>)"

text \<open>A tick of the loop: an error is logged, and the snapshot in use stays.\<close>

definition refresh_tick ::
    "(nat \<Rightarrow> nat) \<Rightarrow> (uuid \<Rightarrow> string) \<Rightarrow> time \<Rightarrow> (string, ingressSnapshot) result \<Rightarrow> snapshot option \<Rightarrow> snapshot option" where
  "refresh_tick lo us now load current = snd (refreshSnapshot lo us now load current)"

section \<open>Listings\<close>

definition List_handler :: "bool \<Rightarrow> db \<Rightarrow> (int, mail_domain list) result" where
  "List_handler fault d = (case ListDomains fault d of Inl _ \<Rightarrow> Inl 500 | Inr ms \<Rightarrow> Inr ms)"

definition ListActive_handler :: "bool \<Rightarrow> time \<Rightarrow> time \<Rightarrow> domain_store \<Rightarrow> (int \<times> string, mail_domain list) result \<times> domain_store" where
  "ListActive_handler fault now later s =
     (case GetActiveDomains fault now later s of
        (Inl _, s') \<Rightarrow> (Inl (500, ''active domains could not be listed''), s') | (Inr ms, s') \<Rightarrow> (Inr ms, s'))"

record donation_page =
  dp_data :: "donation_row list"
  dp_summary :: donation_summary
  dp_tokens :: "reward_token_item list"
  dp_events :: "reward_event list"

definition ListDonations_handler :: "fault_at \<Rightarrow> time \<Rightarrow> db \<Rightarrow> (int, donation_page) result" where
  "ListDonations_handler faults now d =
     (if faults 0 \<or> faults 1 \<or> faults 2 \<or> faults 3 then Inl 500
      else Inr \<lparr>dp_data = ListDonations d, dp_summary = DonationSummary d, dp_tokens = ListDonationRewardTokens now d,
                dp_events = ListDonationRewardEvents 200 d\<rparr>)"

definition AuthenticatedDonationSubmit ::
    "fault_at \<Rightarrow> libs \<Rightarrow> time \<Rightarrow> fresh \<Rightarrow> (string \<times> bool) option \<Rightarrow> string \<Rightarrow> domain_store
     \<Rightarrow> answer_text \<times> (uuid \<times> string \<times> string) option \<times> domain_store" where
  "AuthenticatedDonationSubmit ft l now fr body header s =
     (let raw = trim_space header;
          key = (if 7 \<le> length raw \<and> equal_fold_ascii (take 7 raw) ''Bearer '' then trim_space (drop 7 raw) else raw) in
      submitDonation ft l now fr body key s)"

section \<open>Routing follows the database\<close>

lemma first_admin_active: "first_admin tie d = Some a \<Longrightarrow> a \<in> set (db_accounts d) \<and> acc_is_admin a \<and> acc_is_active a"
proof -
  assume f: "first_admin tie d = Some a"
  let ?as = "filter (\<lambda>a. acc_is_admin a \<and> acc_is_active a) (db_accounts d)"
  obtain as where "sort_key (\<lambda>a. (acc_created_at a, tie a)) ?as = a # as" using f by (auto simp: first_admin_def split: list.splits)
  then have "a \<in> set (sort_key (\<lambda>a. (acc_created_at a, tie a)) ?as)" by (metis list.set_intros(1))
  then show ?thesis by simp
qed

text \<open>The name a domain is routed by: as \<open>LoadIngressSnapshot\<close> and then \<open>refreshSnapshot\<close> normalise it.\<close>

definition routed_name :: "(nat \<Rightarrow> nat) \<Rightarrow> mail_domain \<Rightarrow> string" where
  "routed_name lo m = normal_domain lo (to_lower lo (trim_cut ''.'' (trim_space (dom_domain m))))"

lemma plain_name_routed: "host_form (dom_domain m) \<Longrightarrow> routed_name lo m = dom_domain m"
  using host_plain(2,3,4) by (simp add: routed_name_def normal_domain_def)

definition routed_item :: "(nat \<Rightarrow> nat) \<Rightarrow> mail_domain \<Rightarrow> snapshotDomain" where
  "routed_item lo m = \<lparr>sd_id = dom_id m, sd_domain = routed_name lo m\<rparr>"

lemma loaded_items:
  assumes "LoadIngressSnapshot faults lo coll tie d0 d1 d2 = Inr loaded"
  shows "set (snapshot_items lo (is_domains loaded))
    = routed_item lo ` {m \<in> set (loadActiveDomains d0). 0 < dom_id m \<and> routed_name lo m \<noteq> []}"
proof -
  have l: "is_domains loaded = snapshot_domains lo coll d0" using assms by (auto simp: LoadIngressSnapshot_def split: if_splits option.splits)
  have "to_lower lo [] = []" by (rule to_lower_id) (simp_all add: is_ascii_def)
  then have "normal_domain lo [] = []" by (simp add: normal_domain_def trim_cut_id)
  then have n: "to_lower lo (trim_cut ''.'' (trim_space (dom_domain m))) \<noteq> []" if "routed_name lo m \<noteq> []" for m
    using that by (auto simp: routed_name_def)
  show ?thesis using n unfolding l
    by (auto simp: snapshot_items_def snapshot_domains_def loadActiveDomains_def routed_item_def image_iff routed_name_def) (metis not_le)+
qed

lemma loaded_names:
  assumes "LoadIngressSnapshot faults lo coll tie d0 d1 d2 = Inr loaded"
  shows "dom (domainsByName (build_snapshot lo us now loaded)) = routed_name lo ` {m \<in> set (loadActiveDomains d0). 0 < dom_id m \<and> routed_name lo m \<noteq> []}"
    and "domainsByName (build_snapshot lo us now loaded) n = Some x \<Longrightarrow>
      \<exists>m \<in> set (loadActiveDomains d0). 0 < dom_id m \<and> routed_name lo m = n \<and> sd_id x = dom_id m"
proof -
  have b: "domainsByName (build_snapshot lo us now loaded) = index_items (snapshot_items lo (is_domains loaded))"
    by (simp add: build_snapshot_def Let_def)
  have "dom (index_items (snapshot_items lo (is_domains loaded))) = sd_domain ` set (snapshot_items lo (is_domains loaded))"
    unfolding index_items_def using index_items_dom_gen [of Map.empty] by simp
  then show "dom (domainsByName (build_snapshot lo us now loaded)) = routed_name lo ` {m \<in> set (loadActiveDomains d0). 0 < dom_id m \<and> routed_name lo m \<noteq> []}"
    unfolding b loaded_items [OF assms] by (simp add: image_image routed_item_def)
  show "\<exists>m \<in> set (loadActiveDomains d0). 0 < dom_id m \<and> routed_name lo m = n \<and> sd_id x = dom_id m"
    if "domainsByName (build_snapshot lo us now loaded) n = Some x"
    using index_items_Some [OF that [unfolded b]] unfolding loaded_items [OF assms] by (auto simp: routed_item_def)
qed

text \<open>C40. Mail is routed by the database: after a refresh, and whatever snapshot was in use before, the server accepts an address
  exactly when the name of an active domain (lower-cased and without blanks and dots around it) is its host or a suffix of
  it made of whole labels; it then files the mail under a domain with the longest such name and under an account that was an
  active administrator.  A refresh that fails leaves the routing as it was.  (Identifiers of domains are positive.)\<close>

theorem routing_follows_database:
  assumes sp: "splitAddress lo address = Some (localp, host)"
  shows "case LoadIngressSnapshot faults lo coll tie d0 d1 d2 of
      Inl e \<Rightarrow> refresh_tick lo us now (Inl e) current = current
    | Inr loaded \<Rightarrow> \<exists>snap. refresh_tick lo us now (Inr loaded) current = Some snap
        \<and> (case resolveRecipient lo snap address of
             None \<Rightarrow> \<forall>x \<in> set (loadActiveDomains d0). 0 < dom_id x \<longrightarrow> \<not> label_suffix (routed_name lo x) host
           | Some r \<Rightarrow> \<exists>m \<in> set (loadActiveDomains d0). \<exists>a \<in> set (db_accounts d1).
               0 < dom_id m \<and> label_suffix (routed_name lo m) host
               \<and> (\<forall>x \<in> set (loadActiveDomains d0). 0 < dom_id x \<longrightarrow> label_suffix (routed_name lo x) host \<longrightarrow>
                     length (routed_name lo x) \<le> length (routed_name lo m))
               \<and> rr_domainID r = dom_id m \<and> acc_is_admin a \<and> acc_is_active a \<and> rr_accountID r = acc_id a
               \<and> rr_localPart r = localp \<and> rr_domainName r = host)"
proof (cases "LoadIngressSnapshot faults lo coll tie d0 d1 d2")
  case (Inl e)
  then show ?thesis by (simp add: refresh_tick_def refreshSnapshot_def)
next
  case (Inr loaded)
  let ?snap = "build_snapshot lo us now loaded"
  note names = loaded_names [OF Inr, of us now]
  have t: "refresh_tick lo us now (Inr loaded) current = Some ?snap" by (simp add: refresh_tick_def refreshSnapshot_def)
  obtain a where a: "first_admin tie d1 = Some a" "is_defaultAccountID loaded = acc_id a"
    using Inr by (auto simp: LoadIngressSnapshot_def split: if_splits option.splits)
  note adm = first_admin_active [OF a(1)]
  have ne: "host \<noteq> []" using splitAddress_good [OF sp] by simp
  have known: "routed_name lo x \<in> dom (domainsByName ?snap)"
    if "x \<in> set (loadActiveDomains d0)" "0 < dom_id x" "label_suffix (routed_name lo x) host" for x
    using that unfolding names(1) by (auto simp: label_suffix_def)
  show ?thesis
  proof (cases "walk_labels (domainsByName ?snap) host")
    case None
    have "\<not> label_suffix (routed_name lo x) host" if x: "x \<in> set (loadActiveDomains d0)" "0 < dom_id x" for x
    proof
      assume l: "label_suffix (routed_name lo x) host"
      let ?N = "{n \<in> dom (domainsByName ?snap). label_suffix n host}"
      have f: "finite ?N" unfolding names(1) by simp
      have "routed_name lo x \<in> ?N" using known [OF x l] l by simp
      then have "Max (length ` ?N) \<in> length ` ?N" using f by (intro Max_in) auto
      then obtain n where n: "n \<in> ?N" "length n = Max (length ` ?N)" by (metis (no_types, lifting) imageE)
      have "longest_match (domainsByName ?snap) host n" using n f by (auto simp: longest_match_def)
      then show False using None walk_labels_longest [OF ne, of "domainsByName ?snap"] n(1) by auto
    qed
    then show ?thesis using Inr t None sp by (simp add: resolveRecipient_def)
  next
    case (Some y)
    then obtain n where n: "longest_match (domainsByName ?snap) host n" "domainsByName ?snap n = Some y"
      using iffD1 [OF walk_labels_longest [OF ne, of "domainsByName ?snap" y]] by blast
    obtain m where m: "m \<in> set (loadActiveDomains d0)" "0 < dom_id m" "routed_name lo m = n" "sd_id y = dom_id m" using names(2) [OF n(2)] by blast
    have "\<forall>x \<in> set (loadActiveDomains d0). 0 < dom_id x \<longrightarrow> label_suffix (routed_name lo x) host \<longrightarrow> length (routed_name lo x) \<le> length n"
      using n(1) known unfolding longest_match_def by blast
    moreover have "label_suffix n host" using n(1) by (simp add: longest_match_def)
    moreover have "resolveRecipient lo ?snap address = Some \<lparr>rr_address = localp @ ''@'' @ host, rr_localPart = localp, rr_domainName = host,
        rr_domainID = sd_id y, rr_accountID = defaultAccountID ?snap, rr_mailboxTTLMinutes = mailboxTTLMinutes ?snap\<rparr>"
      using Some sp by (simp add: resolveRecipient_def)
    moreover have "defaultAccountID ?snap = acc_id a" by (simp add: build_snapshot_def Let_def a(2))
    ultimately show ?thesis using Inr t m adm by (auto intro!: bexI [of _ m] bexI [of _ a])
  qed
qed

definition mailing :: db where
  "mailing = (ds_db one_domain)\<lparr>db_accounts := [\<lparr>acc_id = 7, acc_username = ''o'', acc_api_key = [], acc_is_admin = True, acc_is_active = True,
     acc_created_at = 0, acc_updated_at = 0\<rparr>]\<rparr>"

theorem routing_follows_database_witness:
  "\<exists>loaded snap r. LoadIngressSnapshot (\<lambda>_. False) id (\<lambda>_. 0) (\<lambda>_. 0) (ds_db one_domain) mailing mailing = Inr loaded
     \<and> refresh_tick id (\<lambda>_. []) 0 (Inr loaded) None = Some snap \<and> resolveRecipient id snap ''bob@b.de'' = Some r \<and> rr_domainID r = 1 \<and> rr_accountID r = 7"
proof -
  have f: "first_admin (\<lambda>_. 0) mailing = Some (hd (db_accounts mailing))" by (simp add: first_admin_def mailing_def)
  obtain loaded where l: "LoadIngressSnapshot (\<lambda>_. False) id (\<lambda>_. 0) (\<lambda>_. 0) (ds_db one_domain) mailing mailing = Inr loaded"
    by (simp add: LoadIngressSnapshot_def f)
  have lp: "mailboxLocalPattern ''bob''" by (simp add: mailboxLocalPattern_def framed_def alnum_def is_lower_def)
  have h: "host_form ''b.de''" using one_domain_names unfolding names_ok_def one_domain_facts(2) by (simp add: manual_domain_def)
  have sp: "splitAddress id ''bob@b.de'' = Some (''bob'', ''b.de'')" using split_full [OF lp h, of id] by simp
  let ?act = "set (loadActiveDomains (ds_db one_domain))"
  have n: "routed_name id (manual_domain 1 1 ''b.de'') = ''b.de''"
    using h by (simp add: plain_name_routed manual_domain_def)
  obtain snap where t: "refresh_tick id (\<lambda>_. []) 0 (Inr loaded) None = Some snap"
    and r: "case resolveRecipient id snap ''bob@b.de'' of
             None \<Rightarrow> \<forall>x \<in> ?act. 0 < dom_id x \<longrightarrow> \<not> label_suffix (routed_name id x) ''b.de''
           | Some r \<Rightarrow> \<exists>m \<in> ?act. \<exists>a \<in> set (db_accounts mailing).
               0 < dom_id m \<and> label_suffix (routed_name id m) ''b.de''
               \<and> (\<forall>x \<in> ?act. 0 < dom_id x \<longrightarrow> label_suffix (routed_name id x) ''b.de'' \<longrightarrow> length (routed_name id x) \<le> length (routed_name id m))
               \<and> rr_domainID r = dom_id m \<and> acc_is_admin a \<and> acc_is_active a \<and> rr_accountID r = acc_id a
               \<and> rr_localPart r = ''bob'' \<and> rr_domainName r = ''b.de''"
    using routing_follows_database [OF sp, where faults = "\<lambda>_. False" and coll = "\<lambda>_. 0" and tie = "\<lambda>_. 0" and ?d0.0 = "ds_db one_domain" and ?d1.0 = mailing
        and ?d2.0 = mailing and us = "\<lambda>_. []" and now = 0 and current = None] unfolding l by auto
  have "label_suffix ''b.de'' ''b.de''" "dom_id (manual_domain 1 1 ''b.de'') = 1" by (simp_all add: label_suffix_def manual_domain_def)
  then show ?thesis using l t r unfolding one_domain_facts(2) by (auto simp: mailing_def n split: option.splits)
qed

lemma dotted_names:
  "trim_space ''b.de.'' = ''b.de.''" "trim_cut ''.'' ''b.de.'' = ''b.de''" "to_lower lo ''b.de'' = ''b.de''" "trim_space ''b.de'' = ''b.de''"
  "trim_cut ''.'' ''b.de'' = ''b.de''" "to_lower lo [] = []" "trim_space [] = []"
  using trim_space_id_ascii [of "''b.de.''"] trim_space_id_ascii [of "''b.de''"] to_lower_id [of "''b.de''"]
  by (simp_all add: is_ascii_def is_upper_def ascii_space_def trim_cut_def trim_left_def trim_right_def)

lemma dotted_address: "splitAddress lo ''bob@b.de.'' = Some (''bob'', ''b.de'')"
proof -
  have a: "to_lower lo (trim_space ''bob@b.de.'') = ''bob@b.de.''"
    using trim_space_id_ascii [of "''bob@b.de.''"] to_lower_id [of "''bob@b.de.''"] by (simp add: is_ascii_def is_upper_def ascii_space_def)
  have c: "trim_cut ''<>'' ''bob@b.de.'' = ''bob@b.de.''" "trim_space ''bob'' = ''bob''"
    using trim_space_id_ascii [of "''bob''"] by (simp_all add: trim_cut_id is_ascii_def ascii_space_def)
  have i: "last_index_byte ''bob@b.de.'' (CHR ''@'') = Some 3" by code_simp
  have x: "\<not> contains_sub ''b.de'' ''..''" by code_simp
  have y: "\<not> contains_any ''b.de'' [CHR '' '', HT, CR, LF]" by code_simp
  show ?thesis by (simp add: splitAddress_def a c i Let_def dotted_names x y)
qed

text \<open>A domain stored with a dot at its end is routed without it, so an address made of its stored name is not the one its mail has:
  the handler that creates a mailbox at a drawn domain takes the stored name.\<close>

lemma dotted_name_loses_mail:
  assumes "LoadIngressSnapshot faults lo coll tie (ds_db s) d1 d2 = Inr loaded"
    and "loadActiveDomains (ds_db s) = [manual_domain 1 1 ''b.de.'']" "ds_cache s = None"
  shows "fst (choose_domain False tt t t (\<lambda>_. Some 0) [] s) = Inr (manual_domain 1 1 ''b.de.'', ''b.de.'')"
    and "\<exists>r. resolveRecipient lo (build_snapshot lo us now loaded) ''bob@b.de.'' = Some r \<and> rr_address r = ''bob@b.de''"
proof -
  have g: "\<exists>u. GetActiveDomains False t t s = (Inr [manual_domain 1 1 ''b.de.''], u)"
    using assms(2,3) by (simp add: GetActiveDomains_def getCachedActiveDomains_def Let_def)
  then show "fst (choose_domain False tt t t (\<lambda>_. Some 0) [] s) = Inr (manual_domain 1 1 ''b.de.'', ''b.de.'')"
    by (auto simp: choose_domain_def Let_def GetRandomActiveDomain_def dotted_names) (simp_all add: manual_domain_def)
  let ?snap = "build_snapshot lo us now loaded"
  let ?m = "manual_domain 1 1 ''b.de.''"
  have m: "dom_domain ?m = ''b.de.''" "0 < dom_id ?m" by (simp_all add: manual_domain_def)
  have n: "routed_name lo ?m = ''b.de''" by (simp only: routed_name_def normal_domain_def m dotted_names)
  have "?m \<in> {m \<in> set (loadActiveDomains (ds_db s)). 0 < dom_id m \<and> routed_name lo m \<noteq> []}" using m(2) n by (simp add: assms(2))
  from imageI [OF this, of "routed_name lo"] have "''b.de'' \<in> dom (domainsByName ?snap)"
    unfolding loaded_names(1) [OF assms(1)] n .
  then obtain y where y: "domainsByName ?snap ''b.de'' = Some y" by blast
  have "walk_labels (domainsByName ?snap) ''b.de'' = Some y" by (subst walk_labels.simps) (simp only: y option.case)
  then show "\<exists>r. resolveRecipient lo ?snap ''bob@b.de.'' = Some r \<and> rr_address r = ''bob@b.de''"
    by (simp add: resolveRecipient_def dotted_address)
qed

end
