(* ===== verification/Settings_Promises.thy ===== *)
theory Settings_Promises
  imports Settings_Admin Histories Token_Ledger Ingress_Load
begin

text \<open>
  What the settings form keeps: from the defaults of the schema, whatever forms are sent and whatever statement
  fails, every number the other components read from a setting is the stored one, in the range of the form.
\<close>

lemma digits_value_digits: "digits_value a s = Some n \<Longrightarrow> list_all is_digit s"
  by (induction a s rule: digits_value.induct) (auto split: if_splits)

lemma scan_atoi: "atoi v = Some n \<Longrightarrow> scan_int v = Some n"
proof -
  have all: "takeWhile is_digit s = s" if "digits_value 0 s = Some m" for s m
    using digits_value_digits [OF that] by (simp add: takeWhile_eq_all_conv list_all_iff)
  assume "atoi v = Some n"
  then show ?thesis
    by (auto simp: atoi_def scan_int_def Let_def int8_def all split: if_splits option.splits)
qed

lemma validateIntegerRange_None:
  "validateIntegerRange key v lo hi = None \<longleftrightarrow> (\<exists>n. atoi v = Some n \<and> lo \<le> n \<and> n \<le> hi)"
  by (auto simp: validateIntegerRange_def Let_def split: option.splits)

section \<open>The invariant\<close>

text \<open>What the form admits of one pair, as it is stored.\<close>

definition admitted :: "string \<times> string \<Rightarrow> bool" where
  "admitted kv =
     ((case setting_range (fst kv) of
         None \<Rightarrow> True
       | Some (lo, hi) \<Rightarrow> (case atoi (trim_space (snd kv)) of None \<Rightarrow> False | Some n \<Rightarrow> lo \<le> n \<and> n \<le> hi))
      \<and> (fst kv = ''admin_key_prefix'' \<longrightarrow> credentialPrefixPattern (snd kv))
      \<and> (fst kv = ''admin_key_hex_length'' \<longrightarrow> snd kv = ''16'' \<or> snd kv = ''32'')
      \<and> (fst kv = ''donation_enabled'' \<longrightarrow> trim_space (snd kv) = ''true'' \<or> trim_space (snd kv) = ''false''))"

definition settings_ok :: "db \<Rightarrow> bool" where
  "settings_ok d =
     (list_all (\<lambda>kv. db_settings d (fst kv) \<noteq> None) default_settings
      \<and> (\<forall>k v. db_settings d k = Some v \<longrightarrow> admitted (k, v)))"

lemma normalize_setting_Inr:
  assumes "normalize_setting l kv = Inr x"
  shows "validateSettingValue l (fst x) (snd x) = None"
    "fst x = ''admin_key_prefix'' \<Longrightarrow> credentialPrefixPattern (snd x)"
    "fst x = ''admin_key_hex_length'' \<Longrightarrow> snd x = ''16'' \<or> snd x = ''32''"
  using assms unfolding normalize_setting_def Let_def by (auto split: if_split_asm option.split_asm)

lemma validated_range:
  "validateSettingValue l k v = None \<Longrightarrow> setting_range k = Some (lo, hi) \<Longrightarrow> validateIntegerRange k (trim_space v) lo hi = None"
  by (simp add: validateSettingValue_def Let_def)

lemma switch_no_range: "setting_range ''donation_enabled'' = None"
  by (simp add: setting_range_def)

lemma validated_switch:
  "validateSettingValue l ''donation_enabled'' v = None \<Longrightarrow> trim_space v = ''true'' \<or> trim_space v = ''false''"
  unfolding validateSettingValue_def Let_def switch_no_range by (simp split: if_split_asm)

lemma admitted_normalized:
  assumes "normalize_setting l kv = Inr x"
  shows "admitted x"
proof -
  note n = normalize_setting_Inr [OF assms]
  have "case setting_range (fst x) of None \<Rightarrow> True
      | Some (lo, hi) \<Rightarrow> (case atoi (trim_space (snd x)) of None \<Rightarrow> False | Some n \<Rightarrow> lo \<le> n \<and> n \<le> hi)"
    using validated_range [OF n(1)] by (auto simp: validateIntegerRange_None split: option.split)
  moreover have "fst x = ''donation_enabled'' \<longrightarrow> trim_space (snd x) = ''true'' \<or> trim_space (snd x) = ''false''"
    using n(1) validated_switch [of l "snd x"] by metis
  ultimately show ?thesis unfolding admitted_def using n(2,3) by blast
qed

lemma admitted_all: "normalize_settings l kvs = Inr xs \<Longrightarrow> list_all admitted xs"
  by (induction kvs arbitrary: xs) (auto simp: rbind_Inr_iff admitted_normalized)

lemma SetSetting_ok: "settings_ok d \<Longrightarrow> admitted (k, v) \<Longrightarrow> settings_ok (SetSetting k v d)"
  unfolding settings_ok_def SetSetting_def by (simp add: list_all_iff)

lemma set_all_ok: "set_all fault_at xs d = Some d' \<Longrightarrow> list_all admitted xs \<Longrightarrow> settings_ok d \<Longrightarrow> settings_ok d'"
  by (induction fault_at xs d rule: set_all.induct) (simp_all add: SetSetting_ok split: if_split_asm)

lemma AdminUpdate_ok: "settings_ok d \<Longrightarrow> settings_ok (snd (AdminUpdate l fault_at body d))"
proof (cases body)
  case (Some kvs)
  assume ok: "settings_ok d"
  show ?thesis
  proof (cases "normalize_settings l kvs")
    case (Inr xs)
    then show ?thesis
      using ok set_all_ok [OF _ admitted_all [OF Inr] ok, of fault_at]
      by (simp add: AdminUpdate_def Some SetSettings_def split: option.split)
  qed (simp add: AdminUpdate_def Some ok)
qed (simp add: AdminUpdate_def)

lemma seed_ok: "list_all admitted default_settings \<Longrightarrow> (\<forall>k v. db_settings d k = Some v \<longrightarrow> admitted (k, v)) \<Longrightarrow> settings_ok (seed_settings d)"
  unfolding settings_ok_def seed_settings_def
  by (auto simp: list_all_iff map_add_Some_iff dest!: map_of_SomeD)
    (metis fst_conv imageI map_of_eq_None_iff not_Some_eq)

lemma run_allowed_True: "run_allowed f (\<lambda>_ _. True) xs s"
  by (induction xs arbitrary: s) simp_all

section \<open>What is read back\<close>

lemma ok_read:
  assumes "settings_ok d" "k \<in> fst ` set default_settings"
  obtains v where "db_settings d k = Some v" "admitted (k, v)"
  using assms unfolding settings_ok_def list_all_iff by fastforce

lemma ranged_default: "setting_range key = Some r \<Longrightarrow> key \<in> fst ` set default_settings"
  unfolding setting_range_def default_settings_def by (auto split: if_split_asm)

lemma atoi_Nil: "atoi [] = None"
  by (simp add: atoi_def Let_def has_prefix_def)

text \<open>The readers that take what is stored by \<open>strconv.Atoi\<close>, and those that scan it, read the same number.\<close>

lemma stored_number:
  assumes "settings_ok d" "setting_range key = Some (lo, hi)"
  obtains v x where "db_settings d key = Some v" "v \<noteq> []" "atoi (trim_space v) = Some x" "lo \<le> x" "x \<le> hi"
    "\<And>n. intSetting (db_settings d) key n = x"
proof -
  obtain v where v: "db_settings d key = Some v" "admitted (key, v)"
    using ok_read [OF assms(1) ranged_default [OF assms(2)]] .
  then obtain x where x: "atoi (trim_space v) = Some x" "lo \<le> x" "x \<le> hi"
    using assms(2) by (auto simp: admitted_def split: option.split_asm)
  moreover have "trim_space v \<noteq> []" using x(1) atoi_Nil by auto
  moreover have "trim_space [] = []" by (simp add: trim_space_ascii is_ascii_def)
  ultimately show ?thesis
    using that [OF v(1) _ x] scan_atoi [OF x(1)] by (fastforce simp: intSetting_def v(1) Let_def)
qed

lemma minutes_read:
  assumes "settings_ok d"
  shows "0 \<le> Mailbox_Admin.mailboxTTLMinutes False d" "Mailbox_Admin.mailboxTTLMinutes False d \<le> 525600" "snapshot_ttl d = Mailbox_Admin.mailboxTTLMinutes False d"
    "0 \<le> retentionMinutes cfg (GetSetting d ''email_retention_minutes'')"
    "retentionMinutes cfg (GetSetting d ''email_retention_minutes'') \<le> 525600"
proof -
  have ttl: "setting_range ''mailbox_ttl_minutes'' = Some (0, 525600)" and age: "setting_range ''email_retention_minutes'' = Some (0, 525600)"
    by (simp_all add: setting_range_def)
  obtain v x where "db_settings d ''mailbox_ttl_minutes'' = Some v" "v \<noteq> []" "atoi (trim_space v) = Some x" "0 \<le> x" "x \<le> 525600"
    using stored_number [OF assms ttl] by blast
  then show "0 \<le> Mailbox_Admin.mailboxTTLMinutes False d" "Mailbox_Admin.mailboxTTLMinutes False d \<le> 525600" "snapshot_ttl d = Mailbox_Admin.mailboxTTLMinutes False d"
    by (simp_all add: Mailbox_Admin.mailboxTTLMinutes_def snapshot_ttl_def GetSetting_def)
  obtain v x where "db_settings d ''email_retention_minutes'' = Some v" "atoi (trim_space v) = Some x" "0 \<le> x" "x \<le> 525600"
    using stored_number [OF assms age] by blast
  then show "0 \<le> retentionMinutes cfg (GetSetting d ''email_retention_minutes'')"
    "retentionMinutes cfg (GetSetting d ''email_retention_minutes'') \<le> 525600"
    by (simp_all add: retentionMinutes_def GetSetting_def)
qed

lemma prefix_byte_char: "prefix_byte c \<Longrightarrow> byte c < 128 \<and> \<not> ascii_space c"
  by (auto simp: prefix_byte_def is_lower_def is_digit_def ascii_space_def)

lemma prefix_trim: "credentialPrefixPattern v \<Longrightarrow> trim_space v = v"
  by (rule trim_space_id_ascii) (auto simp: credentialPrefixPattern_def list_all_iff is_ascii_def prefix_byte_char)

lemma pattern_short: "credentialPrefixPattern v \<Longrightarrow> short_or_allowed lo v"
proof -
  assume c: "credentialPrefixPattern v"
  have a: "is_ascii v" using c by (auto simp: credentialPrefixPattern_def is_ascii_def list_all_iff prefix_byte_char)
  have u: "list_all (\<lambda>c. \<not> is_upper c) v"
    using c by (auto simp: credentialPrefixPattern_def list_all_iff prefix_byte_def is_lower_def is_digit_def is_upper_def)
  have "to_lower lo (trim_space v) = v" by (simp add: prefix_trim [OF c] to_lower_id [OF a u])
  then show ?thesis using c by (simp add: short_or_allowed_def runes_ascii [OF a] credentialPrefixPattern_def)
qed

lemma settingOr_stored: "settings key = Some v \<Longrightarrow> trim_space v \<noteq> [] \<Longrightarrow> settingOr settings key fallback = trim_space v"
  by (simp add: settingOr_def)

lemma plain_trim: "s \<noteq> [] \<Longrightarrow> list_all (\<lambda>c. byte c < 128 \<and> \<not> ascii_space c) s \<Longrightarrow> trim_space s = s"
  by (rule trim_space_id_ascii) (auto simp: list_all_iff is_ascii_def)

lemma admitted_defaults: "list_all admitted default_settings"
  unfolding default_settings_def admitted_def
  by (simp add: setting_range_def plain_trim ascii_space_def atoi_def Let_def has_prefix_def is_digit_def
      credentialPrefixPattern_def prefix_byte_def is_lower_def)

lemma retitle_ok: "settings_ok d \<Longrightarrow> settings_ok (retitle lo d)"
  by (auto simp: retitle_def Let_def admitted_def setting_range_def intro!: SetSetting_ok split: option.split)

lemma kept_defaults: "list_all (\<lambda>kv. fst kv \<notin> set retired_settings) default_settings"
  by (simp add: default_settings_def retired_settings_def)

lemma drop_retired_ok: "settings_ok d \<Longrightarrow> settings_ok (drop_retired d)"
  using kept_defaults unfolding settings_ok_def drop_retired_def by (auto simp: list_all_iff)

lemma ensure_ok:
  assumes "\<forall>k v. db_settings d k = Some v \<longrightarrow> admitted (k, v)"
  shows "settings_ok (ensureAuxSchema lo random now d)"
proof -
  have "settings_ok (drop_retired (retitle lo (seed_settings d)))"
    by (intro drop_retired_ok retitle_ok seed_ok admitted_defaults assms)
  then show ?thesis by (simp add: ensureAuxSchema_def Let_def settings_ok_def)
qed

lemma settings_step_ok: "settings_ok d \<Longrightarrow> settings_ok (settings_step s d)"
proof (cases s)
  case (Start_Process lo random now)
  assume "settings_ok d"
  then show ?thesis unfolding Start_Process settings_step.simps by (intro ensure_ok) (simp add: settings_ok_def)
qed (simp add: AdminUpdate_ok)

interpretation settings: guarded_steps settings_step "\<lambda>_ _. True" settings_ok
  by unfold_locales (rule settings_step_ok)

lemma history_settings_ok: "settings_ok (run settings_step steps (ensureAuxSchema lo random now empty_db))"
proof -
  have "settings_ok (ensureAuxSchema lo random now empty_db)" by (rule ensure_ok) (simp add: empty_db_def)
  then show ?thesis using run_allowed_True by (rule settings.run_keeps)
qed

lemma default_read:
  assumes "settings_ok d"
  shows "credentialPrefixPattern (settingOr (db_settings d) ''admin_key_prefix'' fallback)"
    and "intSetting (db_settings d) ''admin_key_hex_length'' n \<in> {16, 32}"
    and "settingOr (db_settings d) ''donation_enabled'' fallback \<in> {''true'', ''false''}"
proof -
  have mem: "''admin_key_prefix'' \<in> fst ` set default_settings" "''admin_key_hex_length'' \<in> fst ` set default_settings"
    "''donation_enabled'' \<in> fst ` set default_settings" by (simp_all add: default_settings_def)
  obtain p where p: "db_settings d ''admin_key_prefix'' = Some p" "admitted (''admin_key_prefix'', p)"
    using ok_read [OF assms mem(1)] by blast
  then have c: "credentialPrefixPattern p" by (simp add: admitted_def)
  then show "credentialPrefixPattern (settingOr (db_settings d) ''admin_key_prefix'' fallback)"
    using settingOr_stored [where settings = "db_settings d", OF p(1)] by (simp add: prefix_trim) (simp add: credentialPrefixPattern_def)
  obtain h where h: "db_settings d ''admin_key_hex_length'' = Some h" "admitted (''admin_key_hex_length'', h)"
    using ok_read [OF assms mem(2)] by blast
  then have "h = ''16'' \<or> h = ''32''" by (simp add: admitted_def)
  then show "intSetting (db_settings d) ''admin_key_hex_length'' n \<in> {16, 32}"
    by (auto simp: intSetting_def h(1) plain_trim ascii_space_def Let_def scan_int_def has_prefix_def is_digit_def int8_def)
  obtain e where e: "db_settings d ''donation_enabled'' = Some e" "admitted (''donation_enabled'', e)"
    using ok_read [OF assms mem(3)] by blast
  then have "trim_space e = ''true'' \<or> trim_space e = ''false''" by (simp add: admitted_def)
  then show "settingOr (db_settings d) ''donation_enabled'' fallback \<in> {''true'', ''false''}"
    using settingOr_stored [where settings = "db_settings d", OF e(1)] by auto
qed

section \<open>The property\<close>

text \<open>C32. Nothing the settings form accepts can lead the rest of the program out of its ranges.  Start from the defaults
  of the schema, send any forms in any order, some malformed and some failing at any statement of their transaction, and
  restart the process in between.  Every setting with a range is stored as one number of that range, which every reader
  of the store gets whatever its own default is; the life of a mailbox is the same number of minutes, up to a year, for
  the console and for the mail that arrives, and so is bounded the age at which the cleaner deletes mail; from the
  prefix and length stored for the admin key the generator makes a key that the check of its format accepts, whatever it changes in
  the prefix; and the donation switch is \<open>true\<close> or \<open>false\<close>.
\<close>

theorem settings_stay_valid:
  assumes "d = run settings_step steps (ensureAuxSchema lower random now empty_db)"
    and "setting_range key = Some (lo, hi)"
    and "length key_bytes = admin_key_bytes (intSetting (db_settings d) ''admin_key_hex_length'' n)"
  shows "(\<exists>x. lo \<le> x \<and> x \<le> hi \<and> (\<forall>m. intSetting (db_settings d) key m = x))
    \<and> Mailbox_Admin.mailboxTTLMinutes False d \<in> {0..525600} \<and> snapshot_ttl d = Mailbox_Admin.mailboxTTLMinutes False d
    \<and> retentionMinutes cfg (GetSetting d ''email_retention_minutes'') \<in> {0..525600}
    \<and> intSetting (db_settings d) ''admin_key_hex_length'' n \<in> {16, 32}
    \<and> isAdminAuthKeyFormat (generateAdminAuthKey lower (settingOr (db_settings d) ''admin_key_prefix'' fallback) key_bytes)
    \<and> settingOr (db_settings d) ''donation_enabled'' fallback \<in> {''true'', ''false''}"
proof -
  have ok: "settings_ok d" unfolding assms(1) by (rule history_settings_ok)
  obtain x where "lo \<le> x" "x \<le> hi" "\<And>m. intSetting (db_settings d) key m = x"
    using stored_number [OF ok assms(2)] by metis
  then show ?thesis
    using minutes_read [OF ok] default_read [OF ok] generated_admin_key_accepted [OF assms(3) pattern_short [OF default_read(1) [OF ok]]]
    by auto
qed

definition sample_forms :: "settings_event list" where
  "sample_forms =
     [Send_Form \<lparr>sl_lower = (\<lambda>n. n), sl_parse_ip = (\<lambda>_. None), sl_sha1 = (\<lambda>s. s), sl_base64 = (\<lambda>_. None), sl_unescape = (\<lambda>_. None)\<rparr>
        None (Some [(''inbox_refresh_seconds'', ''5'')])]"

theorem settings_stay_valid_witness:
  "let d = run settings_step sample_forms (ensureAuxSchema (\<lambda>n. n) (\<lambda>_. []) 0 empty_db) in
   db_settings d ''inbox_refresh_seconds'' = Some ''5''
   \<and> 2 \<le> intSetting (db_settings d) ''inbox_refresh_seconds'' 3 \<and> intSetting (db_settings d) ''inbox_refresh_seconds'' 3 \<le> 3600"
proof -
  let ?d = "ensureAuxSchema (\<lambda>n. n) (\<lambda>_. []) 0 empty_db"
  let ?key_bytes = "replicate (admin_key_bytes (intSetting (db_settings (run settings_step sample_forms ?d)) ''admin_key_hex_length'' 32)) CHR ''x''"
  have "db_settings (run settings_step sample_forms ?d) ''inbox_refresh_seconds'' = Some ''5''"
    by (simp add: sample_forms_def AdminUpdate_def normalize_setting_def Let_def editableSettingKeys_def
        validateSettingValue_def setting_range_def validateIntegerRange_def plain_trim ascii_space_def atoi_def
        has_prefix_def is_digit_def SetSettings_def SetSetting_def)
  moreover have "setting_range ''inbox_refresh_seconds'' = Some (2, 3600)" by (simp add: setting_range_def)
  ultimately show ?thesis
    using settings_stay_valid [OF refl, where key = "''inbox_refresh_seconds''" and key_bytes = ?key_bytes] by (fastforce simp: Let_def)
qed

end
