(* ===== verification/Token_Promises.thy ===== *)
theory Token_Promises
  imports Token_Admin Settings_Promises Cache_Refinement Access_Promises
begin

text \<open>
  What the token and key handlers promise together with the settings, the generator and the middleware: a replaced
  console key opens the console and the old one does not; a created token is within the limits of the form, and its
  secret is looked up as that token.
\<close>

section \<open>The console key\<close>

lemma generated_trim: "length random = admin_key_bytes n \<Longrightarrow> trim_space (generateAdminAuthKey lo pre random) = generateAdminAuthKey lo pre random"
proof -
  let ?p = "sanitizeTokenSecretPrefix lo pre"
  assume len: "length random = admin_key_bytes n"
  have ne: "hex_encode random \<noteq> []" using len by (cases random) (auto simp: admin_key_bytes_def hex_encode_def split: if_splits)
  have "\<not> ascii_space (last (hex_encode random))" using hex_encode_hex [of random] ne by (simp add: list_all_iff hex_not_space)
  moreover have "is_ascii (''sk-'' @ ?p @ ''-'' @ hex_encode random)"
    using prefix_char_ascii [OF sanitize_chars] lower_hex_ascii [OF hex_encode_hex] by (simp add: is_ascii_def)
  ultimately show ?thesis
    unfolding generateAdminAuthKey_def using ne by (intro trim_space_id_ascii) (auto simp: ascii_space_def)
qed

lemma stored_key_owner:
  assumes "store_api_key now i key d = Inr d'" "owner_account d = Some a" "acc_id a = i"
  shows "owner_account d' = Some (set_api_key now key a)"
proof -
  let ?f = "\<lambda>b. if acc_id b = i then set_api_key now key b else b"
  have ac: "db_accounts d' = map ?f (db_accounts d)"
    using assms(1) by (auto simp: store_api_key_def update_row_def split: option.splits if_splits)
  have fl: "filter (\<lambda>a. acc_is_admin a \<and> acc_is_active a) (map ?f as) = map ?f (filter (\<lambda>a. acc_is_admin a \<and> acc_is_active a) as)" for as
    by (induction as) (auto simp: set_api_key_def)
  have "owner_account d' = map_option ?f (owner_account d)"
    unfolding owner_account_def ac fl by (rule first_account_map) (simp add: set_api_key_def)
  then show ?thesis using assms(2,3) by simp
qed

lemma key_opens:
  assumes "owner_account d = Some a" "isAdminAuthKeyFormat key" "acc_api_key a = trim_space key"
  shows "\<exists>cx. fst (AdminAuth False key d) = Next cx \<and> cx_account cx = a"
proof -
  have "trim_space key \<noteq> []" using assms(2) by (auto simp: isAdminAuthKeyFormat_def isNamedSecretFormat_def Let_def has_prefix_def)
  moreover have "isAdminAuthKeyFormat (trim_space key)" using assms(2) by (simp add: isAdminAuthKeyFormat_def isNamedSecretFormat_def trim_space_idem)
  ultimately show ?thesis using assms by (simp add: AdminAuth_def GetAccountByAdminAuthKey_def Let_def trim_space_idem)
qed

lemma other_key_refused:
  assumes "owner_account d = Some a" "acc_api_key a \<noteq> trim_space key"
  shows "\<exists>e. fst (AdminAuth False key d) = Abort 401 e"
  using assms by (auto simp: AdminAuth_def GetAccountByAdminAuthKey_def Let_def trim_space_idem)

lemma opened_owner:
  "fst (AdminAuth fault header d) = Next cx \<Longrightarrow> owner_account d = Some (cx_account cx)"
  by (auto simp: AdminAuth_def GetAccountByAdminAuthKey_def Let_def split: if_splits option.splits sum.splits prod.splits)

text \<open>What a successful statement on the key has done, chosen or generated.\<close>

lemma set_key_stored:
  assumes "SetAdminAuthKey fault sha now i key d = (Inr u, d')"
  shows "isAdminAuthKeyFormat key" "store_api_key now i (trim_space key) d = Inr d'"
  using assms by (auto simp: SetAdminAuthKey_def run_tx_def rbind_def split: if_splits sum.splits)

lemma rotate_key_stored:
  assumes "RotateAdminAuthKey fault lo now random i d = (Inr key, d')" "settings_ok d" "length random = 16"
  shows "isAdminAuthKeyFormat key" "store_api_key now i (trim_space key) d = Inr d'"
proof -
  let ?pre = "settingOr (db_settings d) ''admin_key_prefix'' ''mail''"
  obtain n where k: "key = generateAdminAuthKey lo ?pre (take (admin_key_bytes n) random)" and s: "store_api_key now i key d = Inr d'"
    using assms(1) by (auto simp: RotateAdminAuthKey_def Let_def run_tx_def rbind_def split: if_splits sum.splits)
  have len: "length (take (admin_key_bytes n) random) = admin_key_bytes n" using assms(3) by (simp add: admin_key_bytes_def)
  show "isAdminAuthKeyFormat key"
    unfolding k by (rule generated_admin_key_accepted [OF len pattern_short [OF default_read(1) [OF assms(2)]]])
  show "store_api_key now i (trim_space key) d = Inr d'" using s generated_trim [OF len] unfolding k by simp
qed

lemma handler_key_stored:
  assumes "RotateAdminAuthKey_handler fault l now random outcome env (Some a) requested (d, content) = (Inr ans, (d', content'))"
    and "settings_ok d" "length random = 16"
  shows "isAdminAuthKeyFormat (ka_key ans)" "store_api_key now (acc_id a) (trim_space (ka_key ans)) d = Inr d'"
    "(ka_written ans, content') = writeAdminAuthKeyFile outcome (ka_key ans) content"
proof -
  consider (chosen) "requested \<noteq> []" "ka_key ans = requested" "\<exists>u. SetAdminAuthKey fault (lib_sha l) now (acc_id a) requested d = (Inr u, d')"
    | (fresh) "RotateAdminAuthKey fault (lib_lower l) now random (acc_id a) d = (Inr (ka_key ans), d')"
    using assms(1) unfolding RotateAdminAuthKey_handler_def
    by (auto simp: Let_def split: if_splits sum.splits prod.splits)
  then show "isAdminAuthKeyFormat (ka_key ans)" "store_api_key now (acc_id a) (trim_space (ka_key ans)) d = Inr d'"
    using set_key_stored rotate_key_stored [OF _ assms(2,3)] by (cases; auto)+
  show "(ka_written ans, content') = writeAdminAuthKeyFile outcome (ka_key ans) content"
    using assms(1) unfolding RotateAdminAuthKey_handler_def
    by (auto simp: Let_def split: if_splits sum.splits prod.splits)
qed

text \<open>C33. Replacing the console key never locks the owner out and never leaves the old key open: for whoever entered
  the console with a key, when the handler answers with a new key, chosen or generated from the settings, that key opens
  the console for the same account, a key that differs from it is refused, the old one among them, and when the answer
  says the key file was written the file has that key.\<close>

theorem replaced_key_opens_console:
  assumes "fst (AdminAuth False header d) = Next cx" and "settings_ok d" and "length random = 16"
    and "RotateAdminAuthKey_handler fault l now random outcome env (Some (cx_account cx)) requested (d, content) = (Inr ans, (d', content'))"
  shows "(\<exists>cx'. fst (AdminAuth False (ka_key ans) d') = Next cx' \<and> acc_id (cx_account cx') = acc_id (cx_account cx))
    \<and> (\<forall>other. trim_space other = trim_space (ka_key ans) \<or> (\<exists>e. fst (AdminAuth False other d') = Abort 401 e))
    \<and> (ka_written ans \<longrightarrow> content' = Some (key_file_content (ka_key ans)))"
proof -
  let ?a = "set_api_key now (trim_space (ka_key ans)) (cx_account cx)"
  note h = handler_key_stored [OF assms(4,2,3)]
  have own: "owner_account d' = Some ?a" by (rule stored_key_owner [OF h(2) opened_owner [OF assms(1)] refl])
  have key: "acc_api_key ?a = trim_space (ka_key ans)" "acc_id ?a = acc_id (cx_account cx)" by (simp_all add: set_api_key_def)
  have old: "trim_space other = trim_space (ka_key ans) \<or> (\<exists>e. fst (AdminAuth False other d') = Abort 401 e)" for other
    using other_key_refused [OF own, of other] key(1) by metis
  have new: "\<exists>cx'. fst (AdminAuth False (ka_key ans) d') = Next cx' \<and> acc_id (cx_account cx') = acc_id (cx_account cx)"
    using key_opens [OF own h(1) key(1)] key(2) by auto
  have written: "ka_written ans \<longrightarrow> content' = Some (key_file_content (ka_key ans))"
    using h(3) by (simp add: writeAdminAuthKeyFile_def split: file_outcome.split_asm)
  show ?thesis using new old written by blast
qed

section \<open>Tokens within the limits of the form\<close>

definition limit_ok :: "int \<Rightarrow> bool" where
  "limit_ok x = (0 \<le> x \<and> x \<le> maxTokenLimit)"

definition scope_ok :: "string \<Rightarrow> bool" where
  "scope_ok scope = (scope = ''read'' \<or> scope = ''cleanup'' \<or> scope = ''owner'')"

definition console_row_ok :: "token_row \<Rightarrow> bool" where
  "console_row_ok r =
     (limit_ok (tok_rate_limit_per_minute r) \<and> limit_ok (tok_daily_request_limit r) \<and> limit_ok (tok_total_request_limit r)
      \<and> scope_ok (tok_scope r))"

definition console_ok :: "token_site \<Rightarrow> bool" where
  "console_ok s = (settings_ok (ts_db s) \<and> (\<forall>r \<in> set (db_tokens (ts_db s)). is_standard r \<longrightarrow> console_row_ok r))"

definition request_ok :: "token_request \<Rightarrow> bool" where
  "request_ok q =
     (limit_ok (tq_rpm q) \<and> limit_ok (tq_daily q) \<and> limit_ok (tq_total q) \<and> scope_ok (tq_scope q))"

lemma scopes: "scope_ok (normalizeScope lo scope)"
  by (simp add: scope_ok_def normalizeScope_def Let_def)

lemma checked_limits:
  "check_form f = None \<Longrightarrow> limit_ok (tf_rpm f) \<and> limit_ok (tf_daily f) \<and> limit_ok (tf_total f) \<and> tf_days f \<le> 3650"
  by (auto simp: check_form_def validateTokenInput_def limit_ok_def split: if_splits)

lemma normal_ok: "limit_ok x \<Longrightarrow> limit_ok (normal_limits x)"
  by (simp add: normal_limits_def limit_ok_def)

lemma setting_limit_ok:
  assumes "settings_ok d" "setting_range key = Some (0, 1000000000)"
  shows "limit_ok (intSetting (db_settings d) key n)"
proof -
  obtain x where "0 \<le> x" "x \<le> 1000000000" "\<And>n. intSetting (db_settings d) key n = x"
    using stored_number [OF assms] by metis
  then show ?thesis by (simp add: limit_ok_def maxTokenLimit_def)
qed

lemma default_limits_ok:
  assumes "settings_ok d"
  shows "limit_ok (intSetting (db_settings d) ''token_default_rate_limit_per_minute'' n)"
    "limit_ok (intSetting (db_settings d) ''token_default_daily_request_limit'' n)"
    "limit_ok (intSetting (db_settings d) ''token_default_total_request_limit'' n)"
  by (rule setting_limit_ok [OF assms]; simp add: setting_range_def)+

lemma completed_ok:
  assumes "settings_ok d" "check_form f = None"
  shows "request_ok (with_defaults lo (db_settings d) now by_default (form_request f e))"
  using checked_limits [OF assms(2)] default_limits_ok [OF assms(1)]
  by (simp add: request_ok_def with_defaults_def Let_def form_request_def scopes normal_ok)

lemma standard_row_ok: "request_ok q \<Longrightarrow> console_row_ok (standard_token sha now i acc raw q)"
  by (simp add: request_ok_def console_row_ok_def standard_token_def)

lemma edited_row_ok: "request_ok q \<Longrightarrow> console_row_ok (edit_token now q r)"
  by (simp add: request_ok_def console_row_ok_def edit_token_def)

subsection \<open>What each statement keeps\<close>

lemma console_frame:
  assumes "console_ok s" "db_settings d = db_settings (ts_db s)"
    "\<And>r. r \<in> set (db_tokens d) \<Longrightarrow> is_standard r \<Longrightarrow> r \<in> set (db_tokens (ts_db s)) \<or> console_row_ok r"
  shows "console_ok (s\<lparr>ts_db := d, ts_cache := c\<rparr>)" "console_ok (s\<lparr>ts_db := d\<rparr>)"
  using assms by (auto simp: console_ok_def settings_ok_def)

lemma statement_ok:
  assumes ok: "console_ok s"
    and run: "\<And>d x. oper (ts_db s) = (x, d) \<Longrightarrow> db_settings d = db_settings (ts_db s)
      \<and> (\<forall>r \<in> set (db_tokens d). is_standard r \<longrightarrow> r \<in> set (db_tokens (ts_db s)) \<or> console_row_ok r)"
  shows "console_ok (snd (on_token i oper s))"
proof (cases "oper (ts_db s)")
  case (Pair x d)
  show ?thesis using console_frame [OF ok, of d] run [OF Pair] by (cases x) (simp_all add: on_token_def Pair)
qed

lemma create_keeps:
  assumes "console_ok s" "CreateToken fault lo sha now i random acc q by_default (ts_db s) = (x, d)"
    "request_ok (with_defaults lo (db_settings (ts_db s)) now by_default q)"
  shows "console_ok (s\<lparr>ts_db := d\<rparr>)"
proof (rule console_frame(2) [OF assms(1)])
  show "db_settings d = db_settings (ts_db s)"
    using assms(2) by (auto simp: CreateToken_def Let_def run_tx_def split: if_splits)
  show "r \<in> set (db_tokens (ts_db s)) \<or> console_row_ok r" if "r \<in> set (db_tokens d)" for r
    using assms(2) that standard_row_ok [OF assms(3)] by (auto simp: CreateToken_def Let_def run_tx_def split: if_splits)
qed

lemma console_settings: "console_ok s \<Longrightarrow> settings_ok (ts_db s)"
  by (simp add: console_ok_def)

lemma Create_ok: "console_ok s \<Longrightarrow> console_ok (snd (create_token_handler faults l now fresh random acc body s))"
  unfolding create_token_handler_def
  by (auto split: option.split prod.split sum.split intro: create_keeps completed_ok [OF console_settings])

lemma update_keeps:
  assumes "UpdateToken fault lo now i acc q d = (x, d')" "limit_ok (tq_rpm q)" "limit_ok (tq_daily q)" "limit_ok (tq_total q)"
  shows "db_settings d' = db_settings d \<and> (\<forall>r \<in> set (db_tokens d'). is_standard r \<longrightarrow> r \<in> set (db_tokens d) \<or> console_row_ok r)"
  using assms(1)
  by (auto simp: UpdateToken_def run_tx_def rbind_def Let_def edited_row_ok request_ok_def scopes normal_ok assms(2-4)
      split: if_splits sum.splits dest!: set_update_row_subset)

lemma form_request_simps:
  "tq_rpm (form_request f e) = tf_rpm f" "tq_daily (form_request f e) = tf_daily f" "tq_total (form_request f e) = tf_total f"
  by (simp_all add: form_request_def)

lemma update_statement_ok:
  assumes "console_ok s" "check_form f = None" "on_token i (UpdateToken fault lo now i acc (form_request f e)) s = (x, s')"
  shows "console_ok s'"
proof -
  have "console_ok (snd (on_token i (UpdateToken fault lo now i acc (form_request f e)) s))"
    by (rule statement_ok [OF assms(1)], erule update_keeps) (simp_all add: checked_limits [OF assms(2)] form_request_simps)
  then show ?thesis by (simp add: assms(3))
qed

lemma Update_ok: "console_ok s \<Longrightarrow> console_ok (snd (update_token_handler faults l now acc param body s))"
  unfolding update_token_handler_def by (auto split: option.split prod.split sum.split intro: update_statement_ok)

text \<open>The other statements leave the limits and the scope of every token alone, or take the token away.\<close>

definition same_console_row :: "token_row \<Rightarrow> token_row \<Rightarrow> bool" where
  "same_console_row q r =
     (tok_kind q = tok_kind r \<and> tok_rate_limit_per_minute q = tok_rate_limit_per_minute r
      \<and> tok_daily_request_limit q = tok_daily_request_limit r \<and> tok_total_request_limit q = tok_total_request_limit r
      \<and> tok_scope q = tok_scope r)"

lemma same_console_refl: "same_console_row q q"
  by (simp add: same_console_row_def)

lemma updated_rows:
  assumes "\<And>q. same_console_row q (f q)" "r \<in> set (update_row tok_id i f rows)"
  shows "\<exists>q \<in> set rows. same_console_row q r"
  using set_update_row_subset [OF assms(2)] assms(1) same_console_refl by blast

definition keeps_rows :: "db \<Rightarrow> db \<Rightarrow> bool" where
  "keeps_rows d d' =
     (db_settings d' = db_settings d \<and> (\<forall>r \<in> set (db_tokens d'). \<exists>q \<in> set (db_tokens d). same_console_row q r))"

lemma keeps_rows_refl: "keeps_rows d d"
  by (auto simp: keeps_rows_def intro: same_console_refl)

lemma keeps_rows_update:
  "(\<And>q. same_console_row q (f q)) \<Longrightarrow> keeps_rows d (d\<lparr>db_tokens := update_row tok_id i f (db_tokens d)\<rparr>)"
  using updated_rows [of f _ i "db_tokens d"] by (simp add: keeps_rows_def)

lemma keeps_rows_delete: "set (db_tokens d') \<subseteq> set (db_tokens d) \<Longrightarrow> db_settings d' = db_settings d \<Longrightarrow> keeps_rows d d'"
  using same_console_refl by (auto simp: keeps_rows_def)

lemma rows_unchanged: "same_console_row q (replace_secret sha now raw q)" "same_console_row q (set_revoked now v q)"
  by (simp_all add: same_console_row_def replace_secret_def set_revoked_def)

lemma run_tx_keeps_rows:
  assumes "run_tx fault m d = (x, d')" "\<And>a e. m d = Inr (a, e) \<Longrightarrow> keeps_rows d e"
  shows "keeps_rows d d'"
  using assms keeps_rows_refl by (auto simp: run_tx_def split: if_splits sum.splits)

lemma rotate_keeps: "RotateToken fault sha now random i acc d = (xr, d') \<Longrightarrow> keeps_rows d d'"
  unfolding RotateToken_def Let_def
  by (erule run_tx_keeps_rows) (auto simp: rbind_Inr_iff split: if_split_asm intro!: keeps_rows_update rows_unchanged)

lemma disable_keeps: "DisableToken fault now i acc d = (x, d') \<Longrightarrow> keeps_rows d d'"
  unfolding DisableToken_def
  by (erule run_tx_keeps_rows) (auto simp: rbind_Inr_iff split: if_split_asm intro!: keeps_rows_update rows_unchanged)

lemma enable_keeps: "EnableToken fault now i acc d = (x, d') \<Longrightarrow> keeps_rows d d'"
  unfolding EnableToken_def
  by (erule run_tx_keeps_rows) (auto simp: rbind_Inr_iff intro!: keeps_rows_update rows_unchanged)

lemma delete_keeps: "DeleteToken fault i acc d = (x, d') \<Longrightarrow> keeps_rows d d'"
  unfolding DeleteToken_def
  by (erule run_tx_keeps_rows) (auto simp: rbind_Inr_iff delete_row_def split: if_split_asm intro!: keeps_rows_delete)

lemma command_ok:
  assumes ok: "console_ok s" and o: "on_token i oper s = (x, s')"
    and run: "\<And>d x. oper (ts_db s) = (x, d) \<Longrightarrow> keeps_rows (ts_db s) d"
  shows "console_ok s'"
proof -
  have "console_ok (snd (on_token i oper s))"
  proof (rule statement_ok [OF ok])
    fix d x assume "oper (ts_db s) = (x, d)"
    from run [OF this] ok show "db_settings d = db_settings (ts_db s)
      \<and> (\<forall>r \<in> set (db_tokens d). is_standard r \<longrightarrow> r \<in> set (db_tokens (ts_db s)) \<or> console_row_ok r)"
      unfolding keeps_rows_def console_ok_def same_console_row_def console_row_ok_def is_standard_def by metis
  qed
  then show ?thesis by (simp add: o)
qed

lemma Rotate_ok: "console_ok s \<Longrightarrow> console_ok (snd (rotate_token_handler faults l now random acc param s))"
  unfolding rotate_token_handler_def
  by (auto split: option.split prod.split sum.split token_answer.split intro: command_ok [OF _ _ rotate_keeps])

lemma token_command_ok:
  assumes "console_ok s" "\<And>i d x d'. oper i d = (x, d') \<Longrightarrow> keeps_rows d d'"
  shows "console_ok (snd (token_command absent failed msg oper param s))"
  unfolding token_command_def
  by (auto split: option.split prod.split sum.split db_error.split intro: command_ok [OF assms(1) _ assms(2)] assms(1))

lemma commands_ok:
  assumes "console_ok s"
  shows "console_ok (snd (disable_token_handler faults now acc param s))"
    "console_ok (snd (enable_token_handler faults now acc param s))"
    "console_ok (snd (delete_token_handler faults acc param s))"
  unfolding disable_token_handler_def enable_token_handler_def delete_token_handler_def
  by (rule token_command_ok [OF assms], erule disable_keeps)
    (rule token_command_ok [OF assms], erule enable_keeps, rule token_command_ok [OF assms], erule delete_keeps)

subsection \<open>Every course of the console\<close>

datatype console_event =
    On_Settings settings_event
  | On_Create fault_at libs time uuid string uuid "token_form option"
  | On_Update fault_at libs time uuid "uuid option" "token_form option"
  | On_Rotate fault_at libs time string uuid "uuid option"
  | On_Disable fault_at time uuid "uuid option"
  | On_Enable fault_at time uuid "uuid option"
  | On_Delete fault_at uuid "uuid option"

fun console_step :: "console_event \<Rightarrow> token_site \<Rightarrow> token_site" where
  "console_step (On_Settings e) s = s\<lparr>ts_db := settings_step e (ts_db s)\<rparr>"
| "console_step (On_Create faults l now fresh random acc body) s = snd (create_token_handler faults l now fresh random acc body s)"
| "console_step (On_Update faults l now acc param body) s = snd (update_token_handler faults l now acc param body s)"
| "console_step (On_Rotate faults l now random acc param) s = snd (rotate_token_handler faults l now random acc param s)"
| "console_step (On_Disable faults now acc param) s = snd (disable_token_handler faults now acc param s)"
| "console_step (On_Enable faults now acc param) s = snd (enable_token_handler faults now acc param s)"
| "console_step (On_Delete faults acc param) s = snd (delete_token_handler faults acc param s)"

definition console_start :: "(nat \<Rightarrow> nat) \<Rightarrow> (uuid \<Rightarrow> string) \<Rightarrow> time \<Rightarrow> account list \<Rightarrow> token_site" where
  "console_start lo random now accounts =
     \<lparr>ts_db = ensureAuxSchema lo random now (empty_db\<lparr>db_accounts := accounts\<rparr>), ts_cache = []\<rparr>"

lemma set_all_tokens: "set_all fault_at kvs d = Some d' \<Longrightarrow> db_tokens d' = db_tokens d"
  by (induction fault_at kvs d rule: set_all.induct) (auto simp: SetSetting_def split: if_splits)

lemma ensure_tokens: "db_tokens (ensureAuxSchema lo random now d) = db_tokens d"
  by (simp add: ensureAuxSchema_def Let_def drop_retired_def retitle_def seed_settings_def SetSetting_def split: option.split)

lemma settings_step_tokens: "db_tokens (settings_step e d) = db_tokens d"
proof (cases e)
  case (Send_Form l fault_at body)
  show ?thesis unfolding Send_Form
    by (auto simp: AdminUpdate_def SetSettings_def split: option.split sum.split dest: set_all_tokens)
qed (simp add: ensure_tokens)

interpretation console: guarded_steps console_step "\<lambda>_ _. True" console_ok
proof
  fix s e assume ok: "console_ok s"
  show "console_ok (console_step e s)"
  proof (cases e)
    case (On_Settings x)
    show ?thesis unfolding On_Settings console_step.simps
      using ok settings_step_ok [of "ts_db s" x] by (simp add: console_ok_def settings_step_tokens)
  qed (use ok in \<open>simp_all add: Create_ok Update_ok Rotate_ok commands_ok\<close>)
qed

lemma console_start_ok: "console_ok (console_start lo random now accounts)"
proof -
  have "settings_ok (ensureAuxSchema lo random now (empty_db\<lparr>db_accounts := accounts\<rparr>))"
    by (rule ensure_ok) (simp add: empty_db_def)
  then show ?thesis by (simp add: console_ok_def console_start_def ensure_tokens) (simp add: empty_db_def)
qed

section \<open>A created token\<close>

lemma generated_token_format: "length random = 16 \<Longrightarrow> isAccessTokenFormat (generateAccessToken random)"
  using trim_space_hex [OF hex_encode_hex, of random] hex_runes [OF hex_encode_hex, of random]
  by (simp add: isAccessTokenFormat_def generateAccessToken_def Let_def length_hex_encode)

lemma days_exact: "0 \<le> n \<Longrightarrow> n \<le> 3650 \<Longrightarrow> wrap64 (wrap64 (n * 24) * 3600 * second) = n * 86400 * second
    \<and> wrap64 (n * 24 * 3600 * second) = n * 86400 * second"
  by (simp add: wrap64_def second_def)

text \<open>What a form asks for: its own words, or the settings where it is silent.\<close>

definition asked_scope :: "(nat \<Rightarrow> nat) \<Rightarrow> (string \<rightharpoonup> string) \<Rightarrow> token_form \<Rightarrow> string" where
  "asked_scope lo settings f =
     (if tf_scope f = [] then normalizeScope lo (trim_space (to_lower lo (settingOr settings ''token_default_scope'' ''read'')))
      else tf_scope f)"

definition asked_limit :: "(string \<rightharpoonup> string) \<Rightarrow> string \<Rightarrow> int \<Rightarrow> int" where
  "asked_limit settings key n = (if n = 0 then intSetting settings key 0 else n)"

definition asked_expiry :: "time \<Rightarrow> (string \<rightharpoonup> string) \<Rightarrow> token_form \<Rightarrow> time option" where
  "asked_expiry now settings f =
     (let days = (if tf_days f = 0 then intSetting settings ''token_default_expires_days'' 30 else tf_days f) in
      if tf_permanent f \<or> days \<le> 0 then None else Some (now + days * 86400 * second))"

lemma default_days:
  assumes "settings_ok d"
  shows "0 \<le> intSetting (db_settings d) ''token_default_expires_days'' 30" "intSetting (db_settings d) ''token_default_expires_days'' 30 \<le> 3650"
proof -
  have "setting_range ''token_default_expires_days'' = Some (0, 3650)" by (simp add: setting_range_def)
  from stored_number [OF assms this] show "0 \<le> intSetting (db_settings d) ''token_default_expires_days'' 30"
    "intSetting (db_settings d) ''token_default_expires_days'' 30 \<le> 3650" by metis+
qed

lemma created_expiry:
  assumes "settings_ok d" "check_form f = None" "new_expiry now f = (expires, by_default)"
  shows "tq_expires (with_defaults lo (db_settings d) now by_default (form_request f expires)) = asked_expiry now (db_settings d) f"
proof -
  have most: "tf_days f \<le> 3650" using checked_limits [OF assms(2)] by simp
  note days = default_days [OF assms(1)]
  show ?thesis
  proof (cases "tf_permanent f \<or> tf_days f \<le> 0")
    case True
    then show ?thesis
      using assms(3) days_exact [OF days] days
      by (auto simp: asked_expiry_def new_expiry_def Let_def with_defaults_def form_request_def split: if_splits)
  next
    case False
    then show ?thesis using assms(3) days_exact [of "tf_days f"] most
      by (auto simp: asked_expiry_def new_expiry_def Let_def with_defaults_def form_request_def days_later_def split: if_splits)
  qed
qed

lemma expiry_soon:
  assumes "settings_ok d" "check_form f = None" "asked_expiry now (db_settings d) f = Some e"
  shows "now < e \<and> e \<le> now + 3650 * 86400 * second"
  using assms(3) default_days [OF assms(1)] checked_limits [OF assms(2)]
  by (auto simp: asked_expiry_def Let_def second_def split: if_splits)

lemma normalized_scope: "scope_ok scope \<Longrightarrow> normalizeScope lo scope = scope"
  by (auto simp: scope_ok_def normalizeScope_def plain_trim ascii_space_def to_lower_ascii is_ascii_def lower_char_def is_upper_def)

lemma created_fields:
  assumes "settings_ok d" "check_form f = None"
  shows "tq_scope (with_defaults lo (db_settings d) now by_default (form_request f e)) = asked_scope lo (db_settings d) f"
    and "tq_rpm (with_defaults lo (db_settings d) now by_default (form_request f e)) = asked_limit (db_settings d) ''token_default_rate_limit_per_minute'' (tf_rpm f)"
    and "tq_daily (with_defaults lo (db_settings d) now by_default (form_request f e)) = asked_limit (db_settings d) ''token_default_daily_request_limit'' (tf_daily f)"
    and "tq_total (with_defaults lo (db_settings d) now by_default (form_request f e)) = asked_limit (db_settings d) ''token_default_total_request_limit'' (tf_total f)"
proof -
  have scope: "tf_scope f \<in> set token_scopes" using assms(2) by (auto simp: check_form_def validateTokenInput_def split: if_splits)
  have "trim_space [] = []" by (simp add: trim_space_ascii is_ascii_def)
  moreover have "trim_space (tf_scope f) = tf_scope f" if "tf_scope f \<noteq> []"
    using scope that by (auto simp: token_scopes_def plain_trim ascii_space_def)
  moreover have "normalizeScope lo (tf_scope f) = tf_scope f" if "tf_scope f \<noteq> []"
    using scope that by (intro normalized_scope) (auto simp: token_scopes_def scope_ok_def)
  ultimately show "tq_scope (with_defaults lo (db_settings d) now by_default (form_request f e)) = asked_scope lo (db_settings d) f"
    by (auto simp: with_defaults_def form_request_def asked_scope_def Let_def)
  show "tq_rpm (with_defaults lo (db_settings d) now by_default (form_request f e)) = asked_limit (db_settings d) ''token_default_rate_limit_per_minute'' (tf_rpm f)"
    and "tq_daily (with_defaults lo (db_settings d) now by_default (form_request f e)) = asked_limit (db_settings d) ''token_default_daily_request_limit'' (tf_daily f)"
    and "tq_total (with_defaults lo (db_settings d) now by_default (form_request f e)) = asked_limit (db_settings d) ''token_default_total_request_limit'' (tf_total f)"
    using checked_limits [OF assms(2)] default_limits_ok [OF assms(1), of 0]
    by (simp_all add: with_defaults_def form_request_def asked_limit_def Let_def normal_limits_def limit_ok_def)
qed

lemma issued_row:
  assumes "create_token_handler faults l now fresh random acc (Some f) s = (Issued t plain, s')"
  obtains expires by_default where "check_form f = None" "new_expiry now f = (expires, by_default)" "plain = generateAccessToken random"
    "t = standard_token (lib_sha l) now fresh acc plain (with_defaults (lib_lower l) (db_settings (ts_db s)) now by_default (form_request f expires))"
    "\<not> hash_taken (hashToken (lib_sha l) plain) (ts_db s)" "s' = s\<lparr>ts_db := (ts_db s)\<lparr>db_tokens := db_tokens (ts_db s) @ [t]\<rparr>\<rparr>"
  using assms
  by (auto simp: create_token_handler_def CreateToken_def Let_def run_tx_def split: option.splits prod.splits sum.splits if_splits)

lemma appended_found: "\<not> list_ex (\<lambda>t. tr_hash t = h) ts \<Longrightarrow> tr_hash t = h \<Longrightarrow> List.find (\<lambda>t. tr_hash t = h) (ts @ [t]) = Some t"
  by (induction ts) auto

lemma untaken_uncached:
  assumes "coherent c d" "\<not> hash_taken h d" shows "getCachedAccountByToken now h c = (None, c)"
proof (cases "map_of c h")
  case (Some e)
  then have "(h, e) \<in> set c" by (rule map_of_SomeD)
  then obtain a t where "loadAccountByTokenHash h d = Inr (a, t)" using assms(1) by (fastforce simp: coherent_def)
  then have "hash_taken h d"
    by (auto simp: loadAccountByTokenHash_def hash_taken_def list_ex_iff find_Some_iff split: option.splits)
  with assms(2) show ?thesis by simp
qed (simp add: getCachedAccountByToken_def)

text \<open>C34. Whatever forms of settings and tokens are sent to the console, and whatever statement fails, the limits of every
  standard token in the store stay between 0 and a thousand million and its scope is one of the three the
  middleware knows.\<close>

theorem console_tokens_within_limits:
  assumes "r \<in> set (db_tokens (ts_db (run console_step events (console_start lo random now accounts))))" "is_standard r"
  shows "0 \<le> tok_rate_limit_per_minute r \<and> tok_rate_limit_per_minute r \<le> maxTokenLimit
    \<and> 0 \<le> tok_daily_request_limit r \<and> tok_daily_request_limit r \<le> maxTokenLimit
    \<and> 0 \<le> tok_total_request_limit r \<and> tok_total_request_limit r \<le> maxTokenLimit
    \<and> tok_scope r \<in> {''read'', ''cleanup'', ''owner''}"
  using console.run_keeps [OF console_start_ok run_allowed_True, of events lo random now accounts] assms
  by (auto simp: console_ok_def console_row_ok_def limit_ok_def scope_ok_def)


section \<open>Concrete courses\<close>

definition sample_owner :: account where
  "sample_owner = \<lparr>acc_id = 1, acc_username = ''o'', acc_api_key = console_key, acc_is_admin = True, acc_is_active = True,
     acc_created_at = 0, acc_updated_at = 0\<rparr>"

definition owner_db :: db where
  "owner_db = seed_settings (empty_db\<lparr>db_accounts := [sample_owner]\<rparr>)"

lemma owner_db_simps: "db_accounts owner_db = [sample_owner]" "db_tokens owner_db = []"
  by (simp_all add: owner_db_def seed_settings_def empty_db_def)

lemma owner_db_owner: "owner_account owner_db = Some sample_owner"
  by (simp add: owner_account_def owner_db_simps sample_owner_def)

lemma owner_db_ok: "settings_ok owner_db"
  unfolding owner_db_def by (rule seed_ok [OF admitted_defaults]) (simp add: empty_db_def)

lemma owner_enters: "\<exists>cx. fst (AdminAuth False console_key owner_db) = Next cx \<and> cx_account cx = sample_owner"
proof -
  have "isAdminAuthKeyFormat console_key"
    using console_key_opens by (auto simp: AdminAuth_def GetAccountByAdminAuthKey_def Let_def console_key_facts(2) split: if_splits)
  then show ?thesis by (intro key_opens [OF owner_db_owner]) (simp_all add: sample_owner_def console_key_facts(2))
qed

lemma rotate_succeeds:
  assumes "\<And>key. \<exists>d'. store_api_key now i key d = Inr d'"
  shows "\<exists>key d'. RotateAdminAuthKey False lo now random i d = (Inr key, d')"
proof -
  let ?n = "intSetting (db_settings d) ''admin_key_hex_length'' 32"
  let ?key = "generateAdminAuthKey lo (settingOr (db_settings d) ''admin_key_prefix'' ''mail'')
      (take (admin_key_bytes (if ?n \<noteq> 16 then 32 else ?n)) random)"
  obtain d' where "store_api_key now i ?key d = Inr d'" using assms by blast
  then have "RotateAdminAuthKey False lo now random i d = (Inr ?key, d')"
    unfolding RotateAdminAuthKey_def Let_def run_tx_def by simp
  then show ?thesis by blast
qed

lemma owner_rotates:
  "\<exists>ans d' content. RotateAdminAuthKey_handler False sample_libs 10 (replicate 16 CHR ''x'') Written [] (Some sample_owner) [] (owner_db, None)
     = (Inr ans, (d', content)) \<and> ka_written ans"
proof -
  have "\<exists>d'. store_api_key 10 (acc_id sample_owner) key owner_db = Inr d'" for key
    by (simp add: store_api_key_def owner_db_simps find_row_def) (simp add: sample_owner_def)
  then obtain key d' where r: "RotateAdminAuthKey False (lib_lower sample_libs) 10 (replicate 16 CHR ''x'') (acc_id sample_owner) owner_db = (Inr key, d')"
    using rotate_succeeds by blast
  show ?thesis by (simp add: RotateAdminAuthKey_handler_def Let_def writeAdminAuthKeyFile_def r)
qed

theorem replaced_key_opens_console_witness:
  "\<exists>ans d'. RotateAdminAuthKey_handler False sample_libs 10 (replicate 16 CHR ''x'') Written [] (Some sample_owner) [] (owner_db, None)
       = (Inr ans, (d', Some (key_file_content (ka_key ans))))
     \<and> (\<exists>cx. fst (AdminAuth False (ka_key ans) d') = Next cx \<and> acc_id (cx_account cx) = 1)"
proof -
  obtain cx where cx: "fst (AdminAuth False console_key owner_db) = Next cx" "cx_account cx = sample_owner" using owner_enters by blast
  obtain ans d' content where r: "RotateAdminAuthKey_handler False sample_libs 10 (replicate 16 CHR ''x'') Written [] (Some sample_owner) [] (owner_db, None)
     = (Inr ans, (d', content))" "ka_written ans" using owner_rotates by blast
  have len: "length (replicate 16 CHR ''x'') = 16" by simp
  have "acc_id sample_owner = 1" by (simp add: sample_owner_def)
  then show ?thesis
    using replaced_key_opens_console [OF cx(1) owner_db_ok len] cx(2) r by fastforce
qed

definition sample_form :: token_form where
  "sample_form = \<lparr>tf_name = ''bot'', tf_scope = ''read'', tf_rpm = 5, tf_daily = 6, tf_total = 7, tf_days = 0, tf_permanent = True, tf_keep_expiry = False\<rparr>"

lemma sample_form_facts:
  "check_form sample_form = None" "new_expiry now sample_form = (None, False)"
  "with_defaults lo m now False (form_request sample_form None)
     = \<lparr>tq_name = ''bot'', tq_scope = normalizeScope lo ''read'', tq_rpm = 5, tq_daily = 6, tq_total = 7, tq_expires = None\<rparr>"
  by (simp_all add: sample_form_def check_form_def validateTokenInput_def runes_ascii is_ascii_def token_scopes_def maxTokenLimit_def
      new_expiry_def with_defaults_def form_request_def plain_trim ascii_space_def normal_limits_def)

lemma sample_issued:
  assumes "1 \<in> acc_id ` set (db_accounts (ts_db s))" "db_tokens (ts_db s) = []"
  shows "\<exists>t plain s'. create_token_handler (\<lambda>_. False) sample_libs 10 9 (replicate 16 CHR ''x'') 1 (Some sample_form) s = (Issued t plain, s')
    \<and> t \<in> set (db_tokens (ts_db s')) \<and> is_standard t"
  using assms
  by (simp add: create_token_handler_def sample_form_facts CreateToken_def Let_def run_tx_def request_fits_def runes_ascii is_ascii_def
      int4_def int8_def hash_taken_def) (simp add: is_standard_def standard_token_def)

theorem console_tokens_within_limits_witness:
  "\<exists>r. r \<in> set (db_tokens (ts_db (run console_step [On_Create (\<lambda>_. False) sample_libs 10 9 (replicate 16 CHR ''x'') 1 (Some sample_form)]
          (console_start (\<lambda>n. n) (\<lambda>_. []) 0 [sample_owner]))))
     \<and> tok_total_request_limit r \<le> maxTokenLimit"
proof -
  let ?s = "console_start (\<lambda>n. n) (\<lambda>_. []) 0 [sample_owner]"
  have "db_accounts (ts_db ?s) = [renew_owner_key (\<lambda>_. []) 0 sample_owner]"
    by (simp add: console_start_def ensureAuxSchema_def Let_def drop_retired_def retitle_def seed_settings_def SetSetting_def split: option.split)
  then have "1 \<in> acc_id ` set (db_accounts (ts_db ?s))" by (simp add: renew_owner_key_def sample_owner_def)
  moreover have "db_tokens (ts_db ?s) = []" by (simp add: console_start_def ensure_tokens) (simp add: empty_db_def)
  ultimately obtain t plain s' where t: "create_token_handler (\<lambda>_. False) sample_libs 10 9 (replicate 16 CHR ''x'') 1 (Some sample_form) ?s = (Issued t plain, s')"
    "t \<in> set (db_tokens (ts_db s'))" "is_standard t" using sample_issued by blast
  have mem: "t \<in> set (db_tokens (ts_db (run console_step [On_Create (\<lambda>_. False) sample_libs 10 9 (replicate 16 CHR ''x'') 1 (Some sample_form)] ?s)))"
    using t(1,2) by simp
  show ?thesis using console_tokens_within_limits [OF mem t(3)] mem by blast
qed


end
