(* ===== verification/Reports.thy ===== *)
theory Reports
  imports Mailbox_Tools Domains
begin

text \<open>
  The health snapshots of the domains (\<open>src/api/store/health.go\<close>), the figures of the statistics page
  (\<open>analytics.go\<close>), the totals of the overview (\<open>settings.go\<close>) and the visibility of a domain (\<open>features.go\<close>).
  A day is the number of a date in Asia/Shanghai; the text of a date is not modelled.  The host names a resolver
  returns are taken to be texts that survive JSON.
\<close>

section \<open>Health snapshots\<close>

record health_row =
  hr_domain :: string
  hr_root_ok :: bool
  hr_wild_ok :: bool
  hr_root_status :: string
  hr_wild_status :: string
  hr_root_hosts :: "string list"
  hr_wild_hosts :: "string list"
  hr_checked_at :: time

record domain_health =
  dh_domain :: string
  dh_is_active :: bool
  dh_status :: string
  dh_mx_checked_at :: "time option"
  dh_root_ok :: bool
  dh_wild_ok :: bool
  dh_root_status :: string
  dh_wild_status :: string
  dh_root_hosts :: "string list"
  dh_wild_hosts :: "string list"
  dh_checked_at :: "time option"

definition health_fits :: "domain_health \<Rightarrow> bool" where
  "health_fits i =
     (varchar 255 (dh_domain i) \<and> column_text (dh_root_status i) \<and> column_text (dh_wild_status i)
      \<and> list_all column_text (dh_root_hosts i) \<and> list_all column_text (dh_wild_hosts i))"

definition snapshot_row :: "time \<Rightarrow> domain_health \<Rightarrow> health_row" where
  "snapshot_row now i =
     \<lparr>hr_domain = dh_domain i, hr_root_ok = dh_root_ok i, hr_wild_ok = dh_wild_ok i, hr_root_status = dh_root_status i,
      hr_wild_status = dh_wild_status i, hr_root_hosts = dh_root_hosts i, hr_wild_hosts = dh_wild_hosts i, hr_checked_at = now\<rparr>"

definition UpsertDomainHealthSnapshot :: "bool \<Rightarrow> time \<Rightarrow> domain_health \<Rightarrow> health_row list \<Rightarrow> (db_error, unit) result \<times> health_row list" where
  "UpsertDomainHealthSnapshot fault now i rows =
     (let r = snapshot_row now i in
      if fault then (Inl Fault, rows)
      else if \<not> health_fits i then (Inl OutOfRange, rows)
      else (Inr (), if dh_domain i \<in> hr_domain ` set rows then map (\<lambda>q. if hr_domain q = dh_domain i then r else q) rows else rows @ [r]))"

text \<open>A domain without a snapshot has empty fields.\<close>

definition health_of :: "health_row list \<Rightarrow> mail_domain \<Rightarrow> domain_health" where
  "health_of rows m =
     (case List.find (\<lambda>h. hr_domain h = dom_domain m) rows of
        None \<Rightarrow> \<lparr>dh_domain = dom_domain m, dh_is_active = dom_is_active m, dh_status = dom_status m, dh_mx_checked_at = dom_mx_checked_at m,
                 dh_root_ok = False, dh_wild_ok = False, dh_root_status = [], dh_wild_status = [], dh_root_hosts = [], dh_wild_hosts = [],
                 dh_checked_at = None\<rparr>
      | Some h \<Rightarrow> \<lparr>dh_domain = dom_domain m, dh_is_active = dom_is_active m, dh_status = dom_status m, dh_mx_checked_at = dom_mx_checked_at m,
                 dh_root_ok = hr_root_ok h, dh_wild_ok = hr_wild_ok h, dh_root_status = hr_root_status h, dh_wild_status = hr_wild_status h,
                 dh_root_hosts = hr_root_hosts h, dh_wild_hosts = hr_wild_hosts h, dh_checked_at = Some (hr_checked_at h)\<rparr>)"

definition ListDomainHealthSnapshots :: "bool \<Rightarrow> db \<Rightarrow> health_row list \<Rightarrow> (db_error, domain_health list) result" where
  "ListDomainHealthSnapshots fault d rows =
     (if fault then Inl Fault else Inr (map (health_of rows) (sort_key dom_created_at (db_domains d))))"

fun newest :: "time list \<Rightarrow> time option" where
  "newest [] = None"
| "newest (t # ts) = (case newest ts of None \<Rightarrow> Some t | Some u \<Rightarrow> Some (max t u))"

definition GetDomainHealthSummary :: "bool \<Rightarrow> db \<Rightarrow> health_row list \<Rightarrow> (db_error, nat \<times> nat \<times> nat \<times> time option) result" where
  "GetDomainHealthSummary fault d rows =
     (let shown = filter (\<lambda>h. list_ex (\<lambda>m. dom_domain m = hr_domain h \<and> dom_is_active m) (db_domains d)) rows in
      if fault then Inl Fault
      else Inr (length (filter hr_root_ok shown), length (filter hr_wild_ok shown),
                length (filter (\<lambda>h. \<not> hr_root_ok h \<or> \<not> hr_wild_ok h) shown), newest (map hr_checked_at shown)))"

section \<open>Visibility of a domain\<close>

definition set_meta :: "time \<Rightarrow> string \<Rightarrow> string \<Rightarrow> mail_domain \<Rightarrow> mail_domain" where
  "set_meta now visibility source m =
     m\<lparr>dom_visibility := visibility, dom_source_type := source,
       dom_verified_at := (if dom_is_active m then (case dom_verified_at m of None \<Rightarrow> Some now | Some t \<Rightarrow> Some t) else dom_verified_at m)\<rparr>"

definition UpdateDomainMeta :: "bool \<Rightarrow> (nat \<Rightarrow> nat) \<Rightarrow> time \<Rightarrow> int \<Rightarrow> string \<Rightarrow> string \<Rightarrow> domain_store \<Rightarrow> (db_error, unit) result \<times> domain_store" where
  "UpdateDomainMeta fault lo now i visibility source s =
     (let v0 = to_lower lo (trim_space visibility); t0 = to_lower lo (trim_space source);
          v = (if v0 = [] then ''public'' else v0); t = (if t0 = [] then ''manual'' else t0) in
      exec_domains fault
        (\<lambda>d. if \<not> varchar 16 v \<or> \<not> varchar 16 t then Inl OutOfRange else update_statement i (set_meta now v t) d) s)"

section \<open>Totals and figures\<close>

definition GetMailboxEmailTotals :: "bool \<Rightarrow> mail_store \<Rightarrow> (db_error, nat \<times> nat) result" where
  "GetMailboxEmailTotals fault s = (if fault then Inl Fault else Inr (length (ml_mailboxes s), length (ml_emails s)))"

record analytics_summary =
  as_mailboxes :: nat
  as_permanent :: nat
  as_emails :: nat
  as_last_day :: nat
  as_last_week :: nat
  as_codes :: nat
  as_links :: nat
  as_bytes :: int
  as_raw_files :: nat
  as_domains :: nat
  as_active_domains :: nat
  as_pending_domains :: nat
  as_active_tokens :: nat
  as_calls_today :: int

record analytics_day =
  ad_day :: int
  ad_mailboxes :: nat
  ad_emails :: nat
  ad_codes :: nat

definition day_length :: duration where
  "day_length = 86400 * second"

definition local_day :: "time \<Rightarrow> int" where
  "local_day t = (t + 8 * 3600 * second) div day_length"

definition start_of_day :: "int \<Rightarrow> time" where
  "start_of_day k = k * day_length - 8 * 3600 * second"

definition analytics_window :: "int \<Rightarrow> int" where
  "analytics_window n = (if n \<noteq> 14 \<and> n \<noteq> 30 then 7 else n)"

definition counted :: "('a \<Rightarrow> bool) \<Rightarrow> 'a list \<Rightarrow> nat" where
  "counted P xs = length (filter P xs)"

definition analytics_totals :: "time \<Rightarrow> mail_store \<Rightarrow> db \<Rightarrow> analytics_summary" where
  "analytics_totals now s d =
     \<lparr>as_mailboxes = length (ml_mailboxes s), as_permanent = counted mb_keep_forever (ml_mailboxes s),
      as_emails = length (ml_emails s),
      as_last_day = counted (\<lambda>e. em_received_at e \<ge> now - day_length) (ml_emails s),
      as_last_week = counted (\<lambda>e. em_received_at e \<ge> now - 7 * day_length) (ml_emails s),
      as_codes = counted (\<lambda>e. em_parsed_code e \<noteq> []) (ml_emails s), as_links = counted (\<lambda>e. em_parsed_link e \<noteq> []) (ml_emails s),
      as_bytes = sum_rows em_size_bytes (ml_emails s), as_raw_files = counted (\<lambda>e. em_raw_path e \<noteq> []) (ml_emails s),
      as_domains = length (db_domains d), as_active_domains = counted dom_is_active (db_domains d),
      as_pending_domains = counted (\<lambda>m. dom_status m = ''pending'') (db_domains d),
      as_active_tokens = counted (\<lambda>t. tok_revoked_at t = None \<and> (case tok_expires_at t of None \<Rightarrow> True | Some e \<Rightarrow> e > now)) (db_tokens d),
      as_calls_today = sum_rows us_count (filter (\<lambda>u. us_day u = local_day now) (db_usage d))\<rparr>"

definition analytics_day_of :: "time \<Rightarrow> mail_store \<Rightarrow> int \<Rightarrow> analytics_day" where
  "analytics_day_of start s k =
     (let mail = filter (\<lambda>e. em_received_at e \<ge> start \<and> local_day (em_received_at e) = k) (ml_emails s) in
      \<lparr>ad_day = k, ad_mailboxes = counted (\<lambda>b. mb_created_at b \<ge> start \<and> local_day (mb_created_at b) = k) (ml_mailboxes s),
       ad_emails = length mail, ad_codes = counted (\<lambda>e. em_parsed_code e \<noteq> []) mail\<rparr>)"

text \<open>Two statements, each with its own time and failure.\<close>

definition GetAnalyticsSummary ::
    "bool \<times> bool \<Rightarrow> time \<Rightarrow> time \<Rightarrow> int \<Rightarrow> mail_store \<Rightarrow> db \<Rightarrow> (db_error, analytics_summary \<times> analytics_day list) result" where
  "GetAnalyticsSummary faults now later n0 s d =
     (let n = analytics_window n0; today = local_day later in
      if fst faults \<or> snd faults then Inl Fault
      else Inr (analytics_totals now s d,
                map (analytics_day_of (start_of_day (today - (n - 1))) s) [today - (n - 1) .. today]))"

definition Analytics_Handler ::
    "bool \<times> bool \<Rightarrow> time \<Rightarrow> time \<Rightarrow> int \<Rightarrow> mail_store \<Rightarrow> db \<Rightarrow> (int, (analytics_summary \<times> analytics_day list) \<times> int) result" where
  "Analytics_Handler faults now later days s d =
     (let n = analytics_window days in
      case GetAnalyticsSummary faults now later n s d of Inl _ \<Rightarrow> Inl 500 | Inr r \<Rightarrow> Inr (r, n))"

section \<open>The days add up\<close>

lemma counted_split:
  "finite K \<Longrightarrow> (\<Sum>k \<in> K. counted (\<lambda>x. P x \<and> f x = k) xs) = counted (\<lambda>x. P x \<and> f x \<in> K) xs"
proof (induction xs)
  case (Cons x xs)
  have "(\<Sum>k \<in> K. counted (\<lambda>x. P x \<and> f x = k) (x # xs))
      = (\<Sum>k \<in> K. (if P x \<and> f x = k then 1 else 0) + counted (\<lambda>x. P x \<and> f x = k) xs)"
    by (rule sum.cong) (simp_all add: counted_def)
  also have "\<dots> = (\<Sum>k \<in> K. if P x \<and> f x = k then 1 else 0) + (\<Sum>k \<in> K. counted (\<lambda>x. P x \<and> f x = k) xs)"
    by (rule sum.distrib)
  also have "(\<Sum>k \<in> K. if P x \<and> f x = k then 1 else 0) = (if P x \<and> f x \<in> K then 1 else (0 :: nat))"
    using Cons.prems by (cases "P x") (simp_all add: sum.delta)
  finally show ?case using Cons by (simp add: counted_def)
qed (simp add: counted_def)

lemma start_of_day_le: "start_of_day k \<le> t \<longleftrightarrow> k \<le> local_day t"
proof -
  have pos: "0 < day_length" by (simp add: day_length_def second_def)
  let ?u = "t + 8 * 3600 * second"
  have "k * day_length \<le> ?u \<longleftrightarrow> k \<le> ?u div day_length"
  proof
    assume "k * day_length \<le> ?u"
    then show "k \<le> ?u div day_length" using zdiv_mono1 [of "k * day_length" ?u day_length] pos by simp
  next
    assume "k \<le> ?u div day_length"
    then have "k * day_length \<le> (?u div day_length) * day_length" using pos by (simp add: mult_right_mono)
    also have "\<dots> \<le> ?u" using pos div_mult_mod_eq [of ?u day_length] pos_mod_sign [of day_length ?u] by linarith
    finally show "k * day_length \<le> ?u" .
  qed
  then show ?thesis by (simp add: start_of_day_def local_day_def diff_le_eq)
qed

lemma counted_mono: "(\<And>x. P x \<Longrightarrow> Q x) \<Longrightarrow> counted P xs \<le> counted Q xs"
  unfolding counted_def by (induction xs) auto

lemma sum_list_days: "sum_list (map f [a .. b]) = (\<Sum>k \<in> {a .. b}. f k)" for f :: "int \<Rightarrow> nat"
  by (simp add: sum_list_distinct_conv_sum_set)

text \<open>The figures of the statistics page add up: the window has as many days as asked for, in order, the last one today;
  every mail and every mailbox of these days is counted on exactly one of them; the mail of the last 24 hours is part of
  that of the last seven days, and this of all mail; and no day shows more codes than mails.\<close>

theorem analytics_days_add_up:
  assumes "Analytics_Handler faults now later asked s d = Inr ((totals, days), n)"
  shows "n \<in> {7, 14, 30} \<and> map ad_day days = [local_day later - (n - 1) .. local_day later]
    \<and> sum_list (map ad_emails days) = counted (\<lambda>e. local_day (em_received_at e) \<in> {local_day later - (n - 1) .. local_day later}) (ml_emails s)
    \<and> sum_list (map ad_mailboxes days) = counted (\<lambda>b. local_day (mb_created_at b) \<in> {local_day later - (n - 1) .. local_day later}) (ml_mailboxes s)
    \<and> as_last_day totals \<le> as_last_week totals \<and> as_last_week totals \<le> as_emails totals
    \<and> as_permanent totals \<le> as_mailboxes totals \<and> list_all (\<lambda>x. ad_codes x \<le> ad_emails x) days"
proof -
  let ?w = "{local_day later - (n - 1) .. local_day later}" and ?a = "start_of_day (local_day later - (n - 1))"
  have n: "n \<in> {7, 14, 30}" "analytics_window n = n" and tot: "totals = analytics_totals now s d"
    and days: "days = map (analytics_day_of ?a s) [local_day later - (n - 1) .. local_day later]"
    using assms by (auto simp: Analytics_Handler_def GetAnalyticsSummary_def analytics_window_def Let_def split: if_splits)
  have sp: "counted (\<lambda>x. ?a \<le> g x \<and> local_day (g x) \<in> ?w) xs = counted (\<lambda>x. local_day (g x) \<in> ?w) xs" for g :: "'b \<Rightarrow> time" and xs
    unfolding counted_def start_of_day_le by (rule arg_cong [where f = length], rule filter_cong) auto
  have mails: "sum_list (map ad_emails days) = counted (\<lambda>e. local_day (em_received_at e) \<in> ?w) (ml_emails s)"
    unfolding days map_map sum_list_days sp [symmetric] by (subst counted_split [symmetric])
      (simp_all add: analytics_day_of_def Let_def counted_def)
  have boxes: "sum_list (map ad_mailboxes days) = counted (\<lambda>b. local_day (mb_created_at b) \<in> ?w) (ml_mailboxes s)"
    unfolding days map_map sum_list_days sp [symmetric] by (subst counted_split [symmetric])
      (simp_all add: analytics_day_of_def Let_def)
  have week: "as_last_day totals \<le> as_last_week totals" unfolding tot analytics_totals_def
    by (simp, rule counted_mono) (simp add: day_length_def second_def)
  have order: "map ad_day days = [local_day later - (n - 1) .. local_day later]"
    unfolding days by (simp add: analytics_day_of_def Let_def comp_def)
  have codes: "list_all (\<lambda>x. ad_codes x \<le> ad_emails x) days"
    unfolding days list_all_iff analytics_day_of_def Let_def
    by (auto simp: counted_def simp del: filter_filter intro: length_filter_le)
  have all: "as_last_week totals \<le> as_emails totals" "as_permanent totals \<le> as_mailboxes totals"
    by (simp_all add: tot analytics_totals_def counted_def)
  show ?thesis using n(1) order mails boxes week all codes by blast
qed

definition one_mail :: mail_store where
  "one_mail =
     \<lparr>ml_accounts = [], ml_domains = [], ml_mailboxes = [],
      ml_emails = [\<lparr>em_id = 1, em_mailbox_id = 2, em_sender = [], em_subject = ''s'', em_body_text = [], em_body_html = [], em_raw_message = [],
        em_has_attachments = False, em_raw_path = [], em_raw_retention_until = None, em_parsed_code = ''4711'', em_parsed_code_source = ''c'',
        em_parsed_link = [], em_parsed_link_source = [], em_size_bytes = 3, em_received_at = 100\<rparr>],
      ml_states = []\<rparr>"

theorem analytics_days_add_up_witness:
  "\<exists>totals days. Analytics_Handler (False, False) 100 100 14 one_mail empty_db = Inr ((totals, days), 14)
     \<and> sum_list (map ad_emails days) = 1 \<and> as_last_day totals = 1"
proof -
  have r: "Analytics_Handler (False, False) 100 100 14 one_mail empty_db
      = Inr ((analytics_totals 100 one_mail empty_db,
          map (analytics_day_of (start_of_day (local_day 100 - 13)) one_mail) [local_day 100 - 13 .. local_day 100]), 14)"
    by (simp add: Analytics_Handler_def GetAnalyticsSummary_def analytics_window_def Let_def)
  have "counted (\<lambda>e. local_day (em_received_at e) \<in> {local_day 100 - (14 - 1) .. local_day 100}) (ml_emails one_mail) = 1"
    by (simp add: counted_def one_mail_def)
  moreover have "as_last_day (analytics_totals 100 one_mail empty_db) = 1"
    by (simp add: analytics_totals_def counted_def one_mail_def day_length_def second_def)
  ultimately show ?thesis using analytics_days_add_up [OF r] r by simp
qed

end
