(* ===== verification/Tooling_Admin.thy ===== *)
theory Tooling_Admin
  imports Reports Mailbox_Admin Usage_Store Integrations
begin

text \<open>
  The tools of the console and of the API (\<open>src/api/handler/tooling.go\<close>): clean-up with its preview, lookups of
  the latest mail, code and link, the reports, the health of the domains, and the overview of the system with its
  two caches.  Of a body a handler takes the decoded fields; a body that cannot be decoded leaves them empty.  The network
  is a parameter: the resolver, and \<open>dial\<close>, which says whether a connection to an address is accepted.  The mutexes
  make each of their sections one step.
\<close>

section \<open>State\<close>

record system_summary =
  ss_db_ok :: bool
  ss_redis_ok :: bool
  ss_smtp_hostname :: string
  ss_smtp_ip :: string
  ss_smtp_configured :: bool
  ss_smtp_reachable :: bool
  ss_smtp_source :: string
  ss_lmtp_running :: bool
  ss_lmtp_addr :: string
  ss_mailboxes :: nat
  ss_emails :: nat
  ss_active_domains :: nat
  ss_healthy_roots :: nat
  ss_healthy_wild :: nat
  ss_unhealthy :: nat
  ss_last_check :: "time option"

record tooling =
  tl_config :: site_config
  tl_lmtp_running :: bool
  tl_lmtp_addr :: string
  tl_probe_at :: time
  tl_probe_key :: string
  tl_probe_ok :: bool
  tl_summary :: "(time \<times> system_summary) option"

definition NewToolingHandler :: "string \<Rightarrow> string \<Rightarrow> tooling" where
  "NewToolingHandler ip hostname =
     \<lparr>tl_config = \<lparr>sc_ip = trim_space ip, sc_hostname = trim_space hostname\<rparr>, tl_lmtp_running = False, tl_lmtp_addr = [],
      tl_probe_at = 0, tl_probe_key = [], tl_probe_ok = False, tl_summary = None\<rparr>"

definition SetLMTPStatus :: "bool \<Rightarrow> string \<Rightarrow> tooling \<Rightarrow> tooling" where
  "SetLMTPStatus running addr t = t\<lparr>tl_lmtp_running := running, tl_lmtp_addr := trim_space addr\<rparr>"

section \<open>Clean-up\<close>

text \<open>The scope of a request: an owner's credential of an administrator reaches every account.\<close>

definition admin_owner :: "request_context \<Rightarrow> bool" where
  "admin_owner cx = (acc_is_admin (cx_account cx) \<and> tok_scope (cx_token cx) = ''owner'')"

record cleanup_form =
  cf_kind :: string
  cf_query :: string
  cf_domain :: string
  cf_only_expired :: bool
  cf_only_empty :: bool
  cf_older :: int

definition no_form :: cleanup_form where
  "no_form = \<lparr>cf_kind = [], cf_query = [], cf_domain = [], cf_only_expired = False, cf_only_empty = False, cf_older = 0\<rparr>"

definition decoded :: "cleanup_form option \<Rightarrow> cleanup_form" where
  "decoded body = (case body of None \<Rightarrow> no_form | Some f \<Rightarrow> f)"

definition CleanupMailboxes ::
    "bool \<Rightarrow> (nat \<Rightarrow> nat) \<Rightarrow> time \<Rightarrow> request_context \<Rightarrow> cleanup_form option \<Rightarrow> mail_store \<Rightarrow> (int, nat \<times> cleanup_form) result \<times> mail_store" where
  "CleanupMailboxes fault lo now cx body s =
     (let f = decoded body; c = caller_of cx in
      case PurgeMailboxes fault lo now (cl_account c) (admin_owner cx) (cl_token c) (cf_query f) (cf_domain f) (cf_only_empty f)
             (cf_only_expired f) s of
        (Inl _, s') \<Rightarrow> (Inl 500, s')
      | (Inr n, s') \<Rightarrow> (Inr (n, f\<lparr>cf_query := trim_space (cf_query f), cf_domain := trim_space (cf_domain f)\<rparr>), s'))"

definition CleanupEmails ::
    "bool \<Rightarrow> (nat \<Rightarrow> nat) \<Rightarrow> time \<Rightarrow> request_context \<Rightarrow> cleanup_form option \<Rightarrow> mail_store \<Rightarrow> (int, nat \<times> cleanup_form) result \<times> mail_store" where
  "CleanupEmails fault lo now cx body s =
     (let f = decoded body; c = caller_of cx in
      case PurgeEmails fault lo now (cl_account c) (admin_owner cx) (cl_token c) (cf_query f) (cf_domain f) (cf_older f) s of
        (Inl _, s') \<Rightarrow> (Inl 500, s')
      | (Inr n, s') \<Rightarrow> (Inr (n, f\<lparr>cf_query := trim_space (cf_query f), cf_domain := trim_space (cf_domain f)\<rparr>), s'))"

text \<open>The answer of a preview: mailboxes, mails and bytes.\<close>

definition CleanupPreview ::
    "bool \<Rightarrow> (nat \<Rightarrow> nat) \<Rightarrow> time \<Rightarrow> request_context \<Rightarrow> cleanup_form option \<Rightarrow> mail_store \<Rightarrow> (int \<times> string, nat \<times> nat \<times> int) result" where
  "CleanupPreview fault lo now cx body s =
     (case body of
        None \<Rightarrow> Inl (400, ''invalid cleanup preview'')
      | Some f \<Rightarrow>
          (let c = caller_of cx; kind = to_lower lo (trim_space (cf_kind f)) in
           if kind = ''mailboxes'' then
             (case PreviewPurgeMailboxes fault lo now (cl_account c) (admin_owner cx) (cl_token c) (cf_query f) (cf_domain f)
                     (cf_only_empty f) (cf_only_expired f) s of
                Inl _ \<Rightarrow> Inl (500, ''unable to preview mailbox cleanup'') | Inr n \<Rightarrow> Inr (n, 0, 0))
           else if kind = ''emails'' then
             (case PreviewPurgeEmails fault lo now (cl_account c) (admin_owner cx) (cl_token c) (cf_query f) (cf_domain f) (cf_older f) s of
                Inl _ \<Rightarrow> Inl (500, ''unable to preview email cleanup'') | Inr (n, bytes) \<Rightarrow> Inr (0, n, bytes))
           else Inl (400, ''cleanup preview kind must be mailboxes or emails'')))"

section \<open>Reports\<close>

definition MaintenancePreview_handler :: "bool \<Rightarrow> time \<Rightarrow> string \<Rightarrow> mail_store \<Rightarrow> (int, maintenance_preview) result" where
  "MaintenancePreview_handler fault now minutes s =
     (case PreviewMaintenance fault now (atoi_or (trim_space minutes)) s of Inl _ \<Rightarrow> Inl 500 | Inr p \<Rightarrow> Inr p)"

definition APIUsage_handler ::
    "bool \<Rightarrow> ((string \<times> string) list \<Rightarrow> (string \<times> string) list) \<Rightarrow> (api_row list \<Rightarrow> api_row list) \<Rightarrow> time \<Rightarrow> string \<Rightarrow> api_store
     \<Rightarrow> (int, usage_report) result" where
  "APIUsage_handler fault tie recent now hours s =
     (case GetAPIUsageReport fault tie recent now (atoi_or (trim_space hours)) s of Inl _ \<Rightarrow> Inl 500 | Inr r \<Rightarrow> Inr r)"

definition IntegrationAudit :: "bool \<Rightarrow> string \<Rightarrow> audit_event list \<Rightarrow> (int \<times> string, audit_event list) result" where
  "IntegrationAudit fault limit rows =
     (case ListIntegrationAudit fault (atoi_or (trim_space limit)) rows of
        Inl _ \<Rightarrow> Inl (500, ''unable to load integration audit'') | Inr es \<Rightarrow> Inr es)"

section \<open>Lookups\<close>

definition asked_address :: "(nat \<Rightarrow> nat) \<Rightarrow> string \<Rightarrow> string option" where
  "asked_address lo query =
     (let a = to_lower lo (trim_space query) in if a = [] \<or> \<not> contains_sub a ''@'' then None else Some a)"

definition not_found_or_failed :: "string \<Rightarrow> db_error \<Rightarrow> int \<times> string" where
  "not_found_or_failed text e = (if e = NoRows then (404, text) else (500, []))"

definition LookupMailbox :: "bool \<Rightarrow> (nat \<Rightarrow> nat) \<Rightarrow> request_context \<Rightarrow> string \<Rightarrow> mail_store \<Rightarrow> (int \<times> string, mailbox) result" where
  "LookupMailbox fault lo cx query s =
     (case asked_address lo query of
        None \<Rightarrow> Inl (400, ''address query is required'')
      | Some a \<Rightarrow>
          (let c = caller_of cx in
           case LookupMailboxScoped fault lo (cl_account c) (admin_owner cx) (cl_token c) a s of
             Inl e \<Rightarrow> Inl (not_found_or_failed ''mailbox not found'' e) | Inr m \<Rightarrow> Inr m))"

definition resolveLatest :: "bool \<Rightarrow> (nat \<Rightarrow> nat) \<Rightarrow> request_context \<Rightarrow> string \<Rightarrow> mail_store \<Rightarrow> (int \<times> string, mailbox \<times> email) result" where
  "resolveLatest fault lo cx query s =
     (case asked_address lo query of
        None \<Rightarrow> Inl (400, ''address query is required'')
      | Some a \<Rightarrow>
          (let c = caller_of cx in
           case LookupLatestEmailScoped fault lo (cl_account c) (admin_owner cx) (cl_token c) a s of
             Inl e \<Rightarrow> Inl (not_found_or_failed ''mailbox not found'' e)
           | Inr (m, None) \<Rightarrow> Inl (404, ''no emails found'')
           | Inr (m, Some e) \<Rightarrow> Inr (m, e)))"

definition resolveLatestProjection ::
    "fault_at \<Rightarrow> (nat \<Rightarrow> nat) \<Rightarrow> (email \<Rightarrow> nat) \<Rightarrow> request_context \<Rightarrow> string \<Rightarrow> mail_store
     \<Rightarrow> (int \<times> string, mailbox \<times> mailbox_state option \<times> email option) result" where
  "resolveLatestProjection faults lo tie cx query s =
     (case asked_address lo query of
        None \<Rightarrow> Inl (400, ''address query is required'')
      | Some a \<Rightarrow>
          (let c = caller_of cx in
           case LookupMailboxProjectionScoped (faults 0) lo (cl_account c) (admin_owner cx) (cl_token c) a s of
             Inl e \<Rightarrow> Inl (not_found_or_failed ''mailbox not found'' e)
           | Inr (m, Some st) \<Rightarrow> Inr (m, Some st, None)
           | Inr (m, None) \<Rightarrow>
               (case GetLatestEmailForMailbox (faults 1) tie (mb_id m) s of
                  Inl e \<Rightarrow> Inl (not_found_or_failed ''no emails found'' e)
                | Inr e \<Rightarrow> Inr (m, None, Some e))))"

text \<open>What a lookup of a code or a link shows: which mail, and what was found in it.\<close>

record found_text =
  ft_mailbox :: mailbox
  ft_email_id :: "uuid option"
  ft_sender :: string
  ft_subject :: string
  ft_received_at :: "time option"
  ft_text :: string
  ft_matched_by :: string

definition mail_text :: "email \<Rightarrow> string" where
  "mail_text e = trim_space (em_subject e @ [CHR 0x0A] @ em_body_text e @ [CHR 0x0A] @ em_body_html e)"

definition extractCode :: "extract_libs \<Rightarrow> email \<Rightarrow> string \<times> string" where
  "extractCode x e = ExtractCode (ex_unescape x) (ex_upper x) (mail_text e)"

definition found_in :: "mailbox \<Rightarrow> email \<Rightarrow> string \<times> string \<Rightarrow> found_text" where
  "found_in m e found =
     \<lparr>ft_mailbox = m, ft_email_id = Some (em_id e), ft_sender = em_sender e, ft_subject = em_subject e,
      ft_received_at = Some (em_received_at e), ft_text = fst found, ft_matched_by = snd found\<rparr>"

definition found_in_state :: "mailbox \<Rightarrow> mailbox_state \<Rightarrow> string \<times> string \<Rightarrow> found_text" where
  "found_in_state m st found =
     \<lparr>ft_mailbox = m, ft_email_id = ms_latest_email_id st, ft_sender = ms_latest_sender st, ft_subject = ms_latest_subject st,
      ft_received_at = ms_latest_received_at st, ft_text = fst found, ft_matched_by = snd found\<rparr>"

definition nothing_found :: "mailbox \<Rightarrow> found_text" where
  "nothing_found m =
     \<lparr>ft_mailbox = m, ft_email_id = None, ft_sender = [], ft_subject = [], ft_received_at = None, ft_text = [], ft_matched_by = []\<rparr>"

text \<open>The projection counts when it names a mail; otherwise the mail that was looked up, if any.\<close>

definition named_state :: "mailbox_state option \<Rightarrow> mailbox_state option" where
  "named_state st = (case st of None \<Rightarrow> None | Some t \<Rightarrow> if ms_latest_email_id t = None then None else Some t)"

definition LookupLatestCode ::
    "fault_at \<Rightarrow> extract_libs \<Rightarrow> (email \<Rightarrow> nat) \<Rightarrow> request_context \<Rightarrow> string \<Rightarrow> mail_store \<Rightarrow> (int \<times> string, found_text) result" where
  "LookupLatestCode faults x tie cx query s =
     rbind (resolveLatestProjection faults (ex_lower x) tie cx query s) (\<lambda>(m, st, mail).
       Inr (case named_state st of
          Some t \<Rightarrow>
            if ms_latest_code t \<noteq> [] \<and> \<not> IsLikelyVerificationCode (ex_upper x) (ms_latest_code t) then
              (case GetLatestEmailForMailbox (faults 2) tie (mb_id m) s of
                 Inl _ \<Rightarrow> found_in_state m t ([], [])
               | Inr e \<Rightarrow> found_in m e (extractCode x e))
            else found_in_state m t (ms_latest_code t, ms_latest_code_source t)
        | None \<Rightarrow>
            (case mail of
               None \<Rightarrow> nothing_found m
             | Some e \<Rightarrow>
                 found_in m e (if em_parsed_code e = [] \<or> \<not> IsLikelyVerificationCode (ex_upper x) (em_parsed_code e)
                               then extractCode x e else (em_parsed_code e, em_parsed_code_source e)))))"

definition LookupLatestLink ::
    "fault_at \<Rightarrow> extract_libs \<Rightarrow> (email \<Rightarrow> nat) \<Rightarrow> request_context \<Rightarrow> string \<Rightarrow> mail_store \<Rightarrow> (int \<times> string, found_text) result" where
  "LookupLatestLink faults x tie cx query s =
     rbind (resolveLatestProjection faults (ex_lower x) tie cx query s) (\<lambda>(m, st, mail).
       Inr (case named_state st of
          Some t \<Rightarrow> found_in_state m t (ms_latest_link t, ms_latest_link_source t)
        | None \<Rightarrow>
            (case mail of
               None \<Rightarrow> nothing_found m
             | Some e \<Rightarrow>
                 found_in m e (if em_parsed_link e = [] then ExtractLink (ex_lower x) (mail_text e) else (em_parsed_link e, em_parsed_link_source e)))))"

definition recent_limit :: "string \<Rightarrow> int" where
  "recent_limit query = (let v = trim_space query in if v = [] then 12 else case scan_int v of None \<Rightarrow> 12 | Some n \<Rightarrow> n)"

definition RecentCodes ::
    "bool \<Rightarrow> extract_libs \<Rightarrow> (email \<Rightarrow> nat) \<Rightarrow> request_context \<Rightarrow> string \<Rightarrow> mail_store
     \<Rightarrow> (int, (email \<times> string \<times> (string \<times> string)) list) result" where
  "RecentCodes fault x tie cx limit s =
     (case ListRecentCodeActivity fault tie (acc_id (cx_account cx)) (recent_limit limit) s of
        Inl _ \<Rightarrow> Inl 500
      | Inr items \<Rightarrow> Inr (map (\<lambda>(e, address). (e, address, extractCode x e)) items))"

section \<open>The health of the domains\<close>

definition effectiveSMTPServerIP :: "bool \<Rightarrow> tooling \<Rightarrow> db \<Rightarrow> string" where
  "effectiveSMTPServerIP fault t d =
     (case (if fault then Inl Fault else GetSetting d ''smtp_server_ip'') of
        Inl _ \<Rightarrow> sc_ip (tl_config t) | Inr v \<Rightarrow> if trim_space v = [] then sc_ip (tl_config t) else trim_space v)"

definition effectiveSMTPHostname :: "bool \<Rightarrow> tooling \<Rightarrow> db \<Rightarrow> string" where
  "effectiveSMTPHostname fault t d =
     (case (if fault then Inl Fault else GetSetting d ''smtp_hostname'') of
        Inl _ \<Rightarrow> sc_hostname (tl_config t) | Inr v \<Rightarrow> if trim_space v = [] then sc_hostname (tl_config t) else trim_space v)"

definition firstNonEmpty :: "string list \<Rightarrow> string" where
  "firstNonEmpty vs = (case List.find (\<lambda>v. v \<noteq> []) (map trim_space vs) of None \<Rightarrow> [] | Some v \<Rightarrow> v)"

text \<open>A wildcard record is probed by a name nobody uses, made of the clock.\<close>

definition probe_name :: "time \<Rightarrow> string \<Rightarrow> string" where
  "probe_name now domain = ''__mxprobe'' @ itoa now @ ''.'' @ domain"

definition probed_health :: "mx_resolver \<Rightarrow> string \<Rightarrow> time \<Rightarrow> mail_domain \<Rightarrow> domain_health" where
  "probed_health dns ip now m =
     (let (root_ok, root_hosts, root_status) = CheckDomainMX dns (dom_domain m) ip;
          (wild_ok, wild_hosts, wild_status) = CheckDomainMX dns (probe_name now (dom_domain m)) ip in
      \<lparr>dh_domain = dom_domain m, dh_is_active = dom_is_active m, dh_status = dom_status m, dh_mx_checked_at = dom_mx_checked_at m,
       dh_root_ok = root_ok, dh_wild_ok = wild_ok, dh_root_status = root_status, dh_wild_status = wild_status,
       dh_root_hosts = root_hosts, dh_wild_hosts = wild_hosts, dh_checked_at = None\<rparr>)"

text \<open>The loop stops at the first write that fails; \<open>n\<close> numbers the writes.\<close>

fun refresh_each ::
    "fault_at \<Rightarrow> nat \<Rightarrow> (nat \<Rightarrow> time) \<Rightarrow> mx_resolver \<Rightarrow> string \<Rightarrow> mail_domain list \<Rightarrow> health_row list \<Rightarrow> (db_error, unit) result \<times> health_row list" where
  "refresh_each faults n clock dns ip [] rows = (Inr (), rows)"
| "refresh_each faults n clock dns ip (m # ms) rows =
     (case UpsertDomainHealthSnapshot (faults n) (clock (Suc n)) (probed_health dns ip (clock n) m) rows of
        (Inl e, rows') \<Rightarrow> (Inl e, rows')
      | (Inr _, rows') \<Rightarrow> refresh_each faults (Suc n) clock dns ip ms rows')"

definition RefreshDomainHealthCache ::
    "fault_at \<Rightarrow> (nat \<Rightarrow> time) \<Rightarrow> mx_resolver \<Rightarrow> tooling \<Rightarrow> db \<Rightarrow> health_row list \<Rightarrow> (db_error, unit) result \<times> health_row list" where
  "RefreshDomainHealthCache faults clock dns t d rows =
     (case ListDomains (faults 0) d of
        Inl e \<Rightarrow> (Inl e, rows)
      | Inr ms \<Rightarrow> refresh_each faults 2 clock dns (effectiveSMTPServerIP (faults 1) t d) ms rows)"

definition DomainHealth :: "fault_at \<Rightarrow> tooling \<Rightarrow> db \<Rightarrow> health_row list \<Rightarrow> (int, domain_health list \<times> string) result" where
  "DomainHealth faults t d rows =
     (case ListDomainHealthSnapshots (faults 0) d rows of
        Inl _ \<Rightarrow> Inl 500 | Inr items \<Rightarrow> Inr (items, effectiveSMTPServerIP (faults 1) t d))"

definition RefreshDomainHealth ::
    "fault_at \<Rightarrow> bool \<Rightarrow> (nat \<Rightarrow> time) \<Rightarrow> mx_resolver \<Rightarrow> tooling \<Rightarrow> db \<Rightarrow> health_row list \<Rightarrow> (int, domain_health list) result \<times> health_row list" where
  "RefreshDomainHealth faults listing_fails clock dns t d rows =
     (case RefreshDomainHealthCache faults clock dns t d rows of
        (Inl _, rows') \<Rightarrow> (Inl 500, rows')
      | (Inr _, rows') \<Rightarrow>
          (case ListDomainHealthSnapshots listing_fails d rows' of Inl _ \<Rightarrow> (Inl 500, rows') | Inr items \<Rightarrow> (Inr items, rows')))"

section \<open>The overview\<close>

definition settingValue :: "bool \<Rightarrow> string \<Rightarrow> db \<Rightarrow> string option" where
  "settingValue fault key d =
     (case (if fault then Inl Fault else GetSetting d key) of
        Inl _ \<Rightarrow> None | Inr v \<Rightarrow> if trim_space v = [] then None else Some (trim_space v))"

definition effectiveSMTPConfig :: "fault_at \<Rightarrow> tooling \<Rightarrow> db \<Rightarrow> string \<times> string \<times> string" where
  "effectiveSMTPConfig faults t d =
     (let h = settingValue (faults 0) ''smtp_hostname'' d; i = settingValue (faults 1) ''smtp_server_ip'' d;
          hostname = (case h of None \<Rightarrow> sc_hostname (tl_config t) | Some v \<Rightarrow> v);
          ip = (case i of None \<Rightarrow> sc_ip (tl_config t) | Some v \<Rightarrow> v);
          source = (if h \<noteq> None \<and> i \<noteq> None then ''settings'' else if h \<noteq> None \<or> i \<noteq> None then ''mixed'' else ''environment'') in
      (hostname, ip, if hostname = [] \<and> ip = [] then ''not_configured'' else source))"

definition join_host_port :: "string \<Rightarrow> string \<Rightarrow> string" where
  "join_host_port host port =
     (if CHR '':'' \<in> set host \<or> CHR ''%'' \<in> set host then ''['' @ host @ '']:'' @ port else host @ '':'' @ port)"

definition probeTCP :: "(string \<Rightarrow> bool) \<Rightarrow> string \<Rightarrow> int \<Rightarrow> bool" where
  "probeTCP dial host port = dial (join_host_port (trim_space host) (itoa port))"

definition probe_key :: "string \<Rightarrow> string \<Rightarrow> string" where
  "probe_key hostname ip = trim_space ip @ ''|'' @ trim_space hostname"

definition probe_lifetime :: duration where
  "probe_lifetime = 10 * second"

definition probe_both :: "(string \<Rightarrow> bool) \<Rightarrow> string \<Rightarrow> string \<Rightarrow> bool" where
  "probe_both dial hostname ip = ((ip \<noteq> [] \<and> probeTCP dial ip 25) \<or> (hostname \<noteq> [] \<and> probeTCP dial hostname 25))"

definition smtpReachable :: "time \<Rightarrow> time \<Rightarrow> (string \<Rightarrow> bool) \<Rightarrow> string \<Rightarrow> string \<Rightarrow> tooling \<Rightarrow> bool \<times> tooling" where
  "smtpReachable now later dial hostname ip t =
     (let key = probe_key hostname ip in
      if key = tl_probe_key t \<and> now - tl_probe_at t < probe_lifetime then (tl_probe_ok t, t)
      else (let ok = probe_both dial hostname ip in (ok, t\<lparr>tl_probe_key := key, tl_probe_at := later, tl_probe_ok := ok\<rparr>)))"

definition summary_lifetime :: duration where
  "summary_lifetime = 2 * second"

text \<open>What the overview is made of; a query that fails leaves its figures at zero.\<close>

record overview_input =
  oi_db_ok :: bool
  oi_redis_ok :: bool
  oi_dial :: "string \<Rightarrow> bool"
  oi_faults :: fault_at

definition fresh_summary :: "overview_input \<Rightarrow> string \<times> string \<times> string \<Rightarrow> bool \<Rightarrow> tooling \<Rightarrow> mail_domain list \<Rightarrow> mail_store \<Rightarrow> db \<Rightarrow> health_row list \<Rightarrow> system_summary" where
  "fresh_summary inp smtp reachable t active s d rows =
     (case smtp of (hostname, ip, source) \<Rightarrow>
        let (boxes, mails) = (case GetMailboxEmailTotals (oi_faults inp 3) s of Inl _ \<Rightarrow> (0, 0) | Inr x \<Rightarrow> x);
            (roots, wild, bad, checked) = (case GetDomainHealthSummary (oi_faults inp 4) d rows of Inl _ \<Rightarrow> (0, 0, 0, None) | Inr x \<Rightarrow> x) in
        \<lparr>ss_db_ok = oi_db_ok inp, ss_redis_ok = oi_redis_ok inp, ss_smtp_hostname = hostname, ss_smtp_ip = ip,
         ss_smtp_configured = (hostname \<noteq> [] \<or> ip \<noteq> []), ss_smtp_reachable = reachable, ss_smtp_source = source,
         ss_lmtp_running = tl_lmtp_running t, ss_lmtp_addr = tl_lmtp_addr t, ss_mailboxes = boxes, ss_emails = mails,
         ss_active_domains = length active, ss_healthy_roots = roots, ss_healthy_wild = wild, ss_unhealthy = bad, ss_last_check = checked\<rparr>)"

text \<open>\<open>clock\<close> gives the times the code reads, in order.\<close>

definition buildSystemSummary ::
    "overview_input \<Rightarrow> (nat \<Rightarrow> time) \<Rightarrow> mail_store \<Rightarrow> health_row list \<Rightarrow> tooling \<times> domain_store \<Rightarrow> system_summary \<times> tooling \<times> domain_store" where
  "buildSystemSummary inp clock s rows st =
     (let (t, ds) = st in
      case (case tl_summary t of None \<Rightarrow> None | Some (stored, x) \<Rightarrow> if clock 0 - stored < summary_lifetime then Some x else None) of
        Some x \<Rightarrow> (x, t, ds)
      | None \<Rightarrow>
          (let smtp = effectiveSMTPConfig (oi_faults inp) t (ds_db ds);
               (reachable, t1) = smtpReachable (clock 1) (clock 2) (oi_dial inp) (fst smtp) (fst (snd smtp)) t;
               (found, ds1) = GetActiveDomains (oi_faults inp 2) (clock 3) (clock 4) ds;
               active = (case found of Inl _ \<Rightarrow> [] | Inr ms \<Rightarrow> ms);
               x = fresh_summary inp smtp reachable t1 active s (ds_db ds1) rows in
           (x, t1\<lparr>tl_summary := Some (clock 5, x)\<rparr>, ds1)))"

end
