(* ===== verification/Tooling_Promises.thy ===== *)
theory Tooling_Promises
  imports Tooling_Admin Mail_Promises
begin

text \<open>
  What holds of the tools: the code and the link that a lookup shows, the reach of a clean-up whose body cannot be
  decoded, the refreshed health of the domains, and the age of the two cached figures of the overview.
\<close>

section \<open>Lookups\<close>

definition newest_of :: "email list \<Rightarrow> email \<Rightarrow> bool" where
  "newest_of own e = (e \<in> set own \<and> (\<forall>f \<in> set own. em_received_at f \<le> em_received_at e))"

lemma latest_newest: "latest own = Some e \<Longrightarrow> newest_of own e"
  using latest_Some [of own e] by (fastforce simp: newest_of_def mail_key_def less_eq_prod_def)

lemma sorted_hd_newest:
  assumes "rev (sort_key (\<lambda>e. (em_received_at e, tie e)) own) = e # es"
  shows "newest_of own e"
proof -
  have s: "sorted (map (\<lambda>e. (em_received_at e, tie e)) (sort_key (\<lambda>e. (em_received_at e, tie e)) own))" by simp
  have r: "sort_key (\<lambda>e. (em_received_at e, tie e)) own = rev es @ [e]" using assms by (metis rev.simps(2) rev_rev_ident)
  then have "\<forall>f \<in> set (rev es @ [e]). em_received_at f \<le> em_received_at e"
    using s by (auto simp: sorted_append less_eq_prod_def)
  moreover have "set (rev es @ [e]) = set own" using r by (metis set_sort)
  ultimately show ?thesis unfolding newest_of_def by (metis in_set_conv_decomp)
qed

lemma newest_looked_up:
  assumes "mail_of i (ml_emails s) \<noteq> []"
  shows "\<exists>e. GetLatestEmailForMailbox False tie i s = Inr e \<and> newest_of (mail_of i (ml_emails s)) e"
proof -
  obtain e es where e: "rev (sort_key (\<lambda>e. (em_received_at e, tie e)) (mail_of i (ml_emails s))) = e # es"
    using assms by (metis list.exhaust length_0_conv length_rev length_sort)
  then show ?thesis using sorted_hd_newest [OF e] by (simp add: GetLatestEmailForMailbox_def)
qed

text \<open>With the projection in step, a lookup reads the projection exactly when the mailbox has mail.\<close>

lemma projection_read:
  assumes ok: "mail_ok s" and m: "LookupMailboxScoped False lo account is_admin token full s = Inr m"
  shows "LookupMailboxProjectionScoped False lo account is_admin token full s =
      (if mail_of (mb_id m) (ml_emails s) = [] then Inr (m, None)
       else Inr (m, map_option (shown_state m) (find_row ms_mailbox_id (mb_id m) (ml_states s))))
    \<and> (mail_of (mb_id m) (ml_emails s) \<noteq> [] \<longrightarrow>
        (\<exists>st. find_row ms_mailbox_id (mb_id m) (ml_states s) = Some st \<and> shows_mail (latest (mail_of (mb_id m) (ml_emails s))) st))"
proof -
  let ?own = "mail_of (mb_id m) (ml_emails s)"
  have linked: "tables_linked (mb_id ` set (ml_mailboxes s)) (ml_emails s) (ml_states s)" using ok by (simp add: mail_ok_def)
  have st: "shows_mail (latest ?own) st" if "find_row ms_mailbox_id (mb_id m) (ml_states s) = Some st" for st
  proof -
    have "st \<in> set (ml_states s)" "ms_mailbox_id st = mb_id m" using find_row_Some [OF that] by auto
    then show ?thesis using linked by (auto simp: tables_linked_def projects_def)
  qed
  show ?thesis
  proof (cases "latest ?own")
    case None
    then have "\<not> valid_projection m st (ml_emails s)" if "find_row ms_mailbox_id (mb_id m) (ml_states s) = Some st" for st
      using st [OF that] by (auto simp: valid_projection_def shows_mail_def list_ex_iff)
    then show ?thesis using None m by (auto simp: LookupMailboxProjectionScoped_def split: option.splits)
  next
    case (Some e)
    then have e: "e \<in> set (ml_emails s)" "em_mailbox_id e = mb_id m" using latest_Some [OF Some] by (auto simp: mail_of_def)
    then have "mb_id m \<in> ms_mailbox_id ` set (ml_states s)" using linked unfolding tables_linked_def by metis
    then obtain t where t: "find_row ms_mailbox_id (mb_id m) (ml_states s) = Some t"
      using find_row_None [of ms_mailbox_id "mb_id m" "ml_states s"] by (cases "find_row ms_mailbox_id (mb_id m) (ml_states s)") auto
    have "valid_projection m t (ml_emails s)" using e st [OF t] Some by (auto simp: valid_projection_def shows_mail_def list_ex_iff)
    then show ?thesis using t st [OF t] Some m by (auto simp: LookupMailboxProjectionScoped_def)
  qed
qed

lemma scoped_not_found: "LookupMailboxScoped False lo account is_admin token a s = Inl e \<Longrightarrow> e = NoRows"
  by (auto simp: LookupMailboxScoped_def of_option_def split: option.splits)

lemma resolve_cases:
  assumes ok: "mail_ok s" and a: "asked_address lo query = Some a"
    and scoped: "scoped = LookupMailboxScoped False lo (acc_id (cx_account cx)) (admin_owner cx) (cl_token (caller_of cx)) a s"
  shows "resolveLatestProjection (\<lambda>_. False) lo tie cx query s = (case scoped of
      Inl _ \<Rightarrow> Inl (404, ''mailbox not found'')
    | Inr m \<Rightarrow> if mail_of (mb_id m) (ml_emails s) = [] then Inl (404, ''no emails found'')
               else Inr (m, map_option (shown_state m) (find_row ms_mailbox_id (mb_id m) (ml_states s)), None))"
proof (cases scoped)
  case (Inl e)
  then show ?thesis using a scoped scoped_not_found
    by (auto simp: resolveLatestProjection_def caller_of_def not_found_or_failed_def LookupMailboxProjectionScoped_def)
next
  case (Inr m)
  have p: "LookupMailboxScoped False lo (acc_id (cx_account cx)) (admin_owner cx) (cl_token (caller_of cx)) a s = Inr m"
    using Inr scoped by simp
  show ?thesis
  proof (cases "mail_of (mb_id m) (ml_emails s) = []")
    case True
    then show ?thesis using a Inr projection_read [OF ok p]
      by (simp add: resolveLatestProjection_def caller_of_def GetLatestEmailForMailbox_def not_found_or_failed_def)
  next
    case False
    then show ?thesis using a Inr projection_read [OF ok p]
      by (auto simp: resolveLatestProjection_def caller_of_def)
  qed
qed

lemma shown_state_fields [simp]:
  "ms_latest_email_id (shown_state m st) = ms_latest_email_id st" "ms_latest_code (shown_state m st) = ms_latest_code st"
  "ms_latest_code_source (shown_state m st) = ms_latest_code_source st" "ms_latest_link (shown_state m st) = ms_latest_link st"
  "ms_latest_link_source (shown_state m st) = ms_latest_link_source st" "ms_latest_sender (shown_state m st) = ms_latest_sender st"
  "ms_latest_subject (shown_state m st) = ms_latest_subject st" "ms_latest_received_at (shown_state m st) = ms_latest_received_at st"
  by (simp_all add: shown_state_def)

lemma state_of_latest:
  assumes "latest own = Some e" "shows_mail (latest own) st"
  shows "named_state (Some (shown_state m st)) = Some (shown_state m st)"
    and "found_in_state m (shown_state m st) found = found_in m e found"
    and "ms_latest_code st = em_parsed_code e" "ms_latest_code_source st = em_parsed_code_source e"
    and "ms_latest_link st = em_parsed_link e" "ms_latest_link_source st = em_parsed_link_source e"
  using assms by (auto simp: named_state_def found_in_state_def found_in_def shows_mail_def)

text \<open>C28. A lookup shows the code of the caller's newest mail: with the mail tables in step, it answers 404 when no mailbox of
  the caller's scope has the address or the mailbox has no mail.  Otherwise let the latest mail be the one of the greatest time of receipt
  and, among those, of the greatest identifier: if its stored code passes the plausibility test (or it has none), exactly that code is
  shown, with the mail's id, time, sender and subject; only if it does not, the code is extracted anew, from a mail of the greatest time of
  receipt, and shown with that mail's.\<close>

theorem shown_code_is_of_latest_mail:
  assumes ok: "mail_ok s" and a: "asked_address (ex_lower x) query = Some a"
  shows "case LookupMailboxScoped False (ex_lower x) (acc_id (cx_account cx)) (admin_owner cx) (cl_token (caller_of cx)) a s of
      Inl _ \<Rightarrow> LookupLatestCode (\<lambda>_. False) x tie cx query s = Inl (404, ''mailbox not found'')
    | Inr m \<Rightarrow>
        if mail_of (mb_id m) (ml_emails s) = [] then LookupLatestCode (\<lambda>_. False) x tie cx query s = Inl (404, ''no emails found'')
        else \<exists>e \<in> set (mail_of (mb_id m) (ml_emails s)).
               (\<forall>g \<in> set (mail_of (mb_id m) (ml_emails s)).
                  em_received_at g < em_received_at e \<or> (em_received_at g = em_received_at e \<and> em_id g \<le> em_id e))
               \<and> (if em_parsed_code e = [] \<or> IsLikelyVerificationCode (ex_upper x) (em_parsed_code e)
                  then LookupLatestCode (\<lambda>_. False) x tie cx query s = Inr (found_in m e (em_parsed_code e, em_parsed_code_source e))
                  else \<exists>f. newest_of (mail_of (mb_id m) (ml_emails s)) f
                         \<and> LookupLatestCode (\<lambda>_. False) x tie cx query s = Inr (found_in m f (extractCode x f)))"
proof (cases "LookupMailboxScoped False (ex_lower x) (acc_id (cx_account cx)) (admin_owner cx) (cl_token (caller_of cx)) a s")
  case (Inl e)
  then show ?thesis using resolve_cases [OF ok a refl, of tie cx] by (simp add: LookupLatestCode_def)
next
  case (Inr m)
  let ?own = "mail_of (mb_id m) (ml_emails s)"
  show ?thesis
  proof (cases "?own = []")
    case True
    then show ?thesis using Inr resolve_cases [OF ok a refl, of tie cx] by (simp add: LookupLatestCode_def)
  next
    case False
    then obtain e where e: "latest ?own = Some e" using latest_None [of ?own] by (cases "latest ?own") auto
    obtain st where st: "find_row ms_mailbox_id (mb_id m) (ml_states s) = Some st" "shows_mail (latest ?own) st"
      using projection_read [OF ok Inr] False by blast
    obtain f where f: "GetLatestEmailForMailbox False tie (mb_id m) s = Inr f" "newest_of ?own f" using newest_looked_up [OF False] by blast
    have r: "resolveLatestProjection (\<lambda>_. False) (ex_lower x) tie cx query s = Inr (m, Some (shown_state m st), None)"
      using resolve_cases [OF ok a refl, of tie cx] Inr False st(1) by simp
    note shown = state_of_latest [OF e st(2)]
    have greatest: "e \<in> set ?own" "\<forall>g \<in> set ?own. em_received_at g < em_received_at e \<or> (em_received_at g = em_received_at e \<and> em_id g \<le> em_id e)"
      using latest_Some [OF e] by (auto simp: mail_key_def)
    have anew: "LookupLatestCode (\<lambda>_. False) x tie cx query s = Inr (found_in m f (extractCode x f))"
      if "\<not> (em_parsed_code e = [] \<or> IsLikelyVerificationCode (ex_upper x) (em_parsed_code e))"
      using that r f(1) shown by (simp add: LookupLatestCode_def)
    have stored: "LookupLatestCode (\<lambda>_. False) x tie cx query s = Inr (found_in m e (em_parsed_code e, em_parsed_code_source e))"
      if "em_parsed_code e = [] \<or> IsLikelyVerificationCode (ex_upper x) (em_parsed_code e)"
      using that r shown by (auto simp: LookupLatestCode_def)
    have "if em_parsed_code e = [] \<or> IsLikelyVerificationCode (ex_upper x) (em_parsed_code e)
        then LookupLatestCode (\<lambda>_. False) x tie cx query s = Inr (found_in m e (em_parsed_code e, em_parsed_code_source e))
        else \<exists>f. newest_of ?own f \<and> LookupLatestCode (\<lambda>_. False) x tie cx query s = Inr (found_in m f (extractCode x f))"
      using anew stored f(2) by metis
    then show ?thesis unfolding Inr sum.case if_not_P [OF False] using greatest by (intro bexI [of _ e]) simp_all
  qed
qed

text \<open>The same for the link, which is never extracted anew.\<close>

lemma shown_link_is_of_latest_mail:
  assumes ok: "mail_ok s" and a: "asked_address (ex_lower x) query = Some a"
    and m: "LookupMailboxScoped False (ex_lower x) (acc_id (cx_account cx)) (admin_owner cx) (cl_token (caller_of cx)) a s = Inr m"
    and e: "latest (mail_of (mb_id m) (ml_emails s)) = Some e"
  shows "LookupLatestLink (\<lambda>_. False) x tie cx query s = Inr (found_in m e (em_parsed_link e, em_parsed_link_source e))"
proof -
  have ne: "mail_of (mb_id m) (ml_emails s) \<noteq> []" using e by auto
  obtain st where st: "find_row ms_mailbox_id (mb_id m) (ml_states s) = Some st" "shows_mail (latest (mail_of (mb_id m) (ml_emails s))) st"
    using projection_read [OF ok m] ne by blast
  have "resolveLatestProjection (\<lambda>_. False) (ex_lower x) tie cx query s = Inr (m, Some (shown_state m st), None)"
    using resolve_cases [OF ok a refl, of tie cx] m ne st(1) by simp
  then show ?thesis using state_of_latest [OF e st(2)] by (simp add: LookupLatestLink_def)
qed

section \<open>Clean-up\<close>

text \<open>A body that cannot be decoded counts as an empty one: the clean-up then has no filter, and takes every mailbox of its scope
  that is not kept forever.\<close>

lemma malformed_body_purges_all:
  "CleanupMailboxes False lo now cx None s =
     (let P = (\<lambda>m. (admin_owner cx \<or> mb_account_id m = acc_id (cx_account cx)) \<and> token_scope (cl_token (caller_of cx)) m \<and> \<not> mb_keep_forever m) in
      (Inr (length (filter P (ml_mailboxes s)), no_form), snd (delete_mailboxes P s)))"
proof -
  have trims: "trim_space [] = []" "to_lower lo [] = []" by (simp_all add: trim_space_def to_lower_def map_runes_def unrunes_def trim_chunks_def)
  have "purge_filter lo now (acc_id (cx_account cx)) (admin_owner cx) (cl_token (caller_of cx)) [] [] False False s =
      (\<lambda>m. (admin_owner cx \<or> mb_account_id m = acc_id (cx_account cx)) \<and> token_scope (cl_token (caller_of cx)) m \<and> \<not> mb_keep_forever m)"
    by (auto simp: fun_eq_iff purge_filter_def buildMailboxCleanupWhere_def text_scope_def trims)
  then show ?thesis
    by (simp add: CleanupMailboxes_def decoded_def no_form_def PurgeMailboxes_def caller_of_def delete_mailboxes_def trims Let_def)
qed

section \<open>The health of the domains\<close>

text \<open>A domain has at most one snapshot as far as a reader is concerned: the row that is found first.\<close>

lemma replaced_found:
  assumes "hr_domain r = d"
  shows "find_row hr_domain k (map (\<lambda>q. if hr_domain q = d then r else q) rows)
    = (if k = d \<and> d \<in> hr_domain ` set rows then Some r else find_row hr_domain k rows)"
  using assms by (induction rows) (auto simp: find_row_def)

lemma appended_row: "d \<notin> hr_domain ` set rows \<Longrightarrow> hr_domain r = d \<Longrightarrow>
    find_row hr_domain k (rows @ [r]) = (if k = d then Some r else find_row hr_domain k rows)"
  by (induction rows) (auto simp: find_row_def)

lemma upsert_found:
  assumes "UpsertDomainHealthSnapshot fault now i rows = (Inr (), rows')"
  shows "find_row hr_domain k rows' = (if k = dh_domain i then Some (snapshot_row now i) else find_row hr_domain k rows)"
proof -
  have r: "hr_domain (snapshot_row now i) = dh_domain i" by (simp add: snapshot_row_def)
  show ?thesis
    using assms replaced_found [OF r, of k rows] appended_row [OF _ r, of rows k]
    by (auto simp: UpsertDomainHealthSnapshot_def Let_def split: if_splits)
qed

lemma probed_domain [simp]: "dh_domain (probed_health dns ip t m) = dom_domain m"
  by (simp add: probed_health_def split: prod.split)

lemma refresh_each_found:
  assumes "refresh_each faults n clock dns ip ms rows = (Inr (), rows')" "distinct (map dom_domain ms)"
  shows "(\<forall>m \<in> set ms. \<exists>k. find_row hr_domain (dom_domain m) rows' = Some (snapshot_row (clock (Suc k)) (probed_health dns ip (clock k) m)))
    \<and> (\<forall>d. d \<notin> dom_domain ` set ms \<longrightarrow> find_row hr_domain d rows' = find_row hr_domain d rows)"
  using assms
proof (induction ms arbitrary: n rows)
  case Nil
  then show ?case by simp
next
  case (Cons m ms)
  obtain mid where mid: "UpsertDomainHealthSnapshot (faults n) (clock (Suc n)) (probed_health dns ip (clock n) m) rows = (Inr (), mid)"
    and rest: "refresh_each faults (Suc n) clock dns ip ms mid = (Inr (), rows')"
    using Cons.prems(1) by (auto split: prod.splits sum.splits)
  have "distinct (map dom_domain ms)" and new: "dom_domain m \<notin> dom_domain ` set ms" using Cons.prems(2) by auto
  note ih = Cons.IH [OF rest this(1)]
  have "find_row hr_domain (dom_domain m) rows' = Some (snapshot_row (clock (Suc n)) (probed_health dns ip (clock n) m))"
    using ih new upsert_found [OF mid] by simp
  moreover have "find_row hr_domain d rows' = find_row hr_domain d rows" if "d \<notin> dom_domain ` set (m # ms)" for d
    using ih that upsert_found [OF mid, of d] by auto
  ultimately show ?case using ih by auto
qed

text \<open>The health page shows what was measured: when a refresh of the snapshots ends without an error, then for every domain of
  the pool the list shows exactly the outcome of checking this domain's mail exchangers, and those of a name below it that nobody
  uses, against the address of the server that is in force (the setting, or the configured one when the setting is blank).\<close>

theorem shown_health_is_measured:
  assumes refresh: "RefreshDomainHealthCache faults clock dns t d rows = (Inr (), rows')"
    and names: "keys_distinct dom_domain (db_domains d)"
    and items: "ListDomainHealthSnapshots False d rows' = Inr items"
    and i: "i \<in> set items"
  shows "let ip = effectiveSMTPServerIP (faults 1) t d in
    \<exists>now. (dh_root_ok i, dh_root_hosts i, dh_root_status i) = CheckDomainMX dns (dh_domain i) ip
      \<and> (dh_wild_ok i, dh_wild_hosts i, dh_wild_status i) = CheckDomainMX dns (probe_name now (dh_domain i)) ip
      \<and> dh_checked_at i \<noteq> None"
proof -
  let ?ip = "effectiveSMTPServerIP (faults 1) t d"
  obtain m where m: "m \<in> set (db_domains d)" "i = health_of rows' m" using items i by (auto simp: ListDomainHealthSnapshots_def)
  have run: "refresh_each faults 2 clock dns ?ip (sort_key dom_created_at (db_domains d)) rows = (Inr (), rows')"
    using refresh by (auto simp: RefreshDomainHealthCache_def ListDomains_def split: if_splits)
  have "distinct (map dom_domain (sort_key dom_created_at (db_domains d)))"
    using names by (simp add: keys_distinct_def distinct_map)
  then obtain k where "find_row hr_domain (dom_domain m) rows' = Some (snapshot_row (clock (Suc k)) (probed_health dns ?ip (clock k) m))"
    using refresh_each_found [OF run] m(1) by auto
  then show ?thesis unfolding m(2) Let_def
    by (intro exI [of _ "clock k"]) (auto simp: health_of_def find_row_def snapshot_row_def probed_health_def split: prod.splits)
qed

section \<open>The overview\<close>

text \<open>The cached overview: an answer younger than two seconds is repeated, an older one is made anew and takes its place.\<close>

lemma overview_repeated:
  assumes "tl_summary t = Some (stored, x)" "clock 0 - stored < summary_lifetime"
  shows "buildSystemSummary inp clock s rows (t, ds) = (x, t, ds)"
  using assms by (simp add: buildSystemSummary_def)

lemma probe_kept_fields: "smtpReachable now later dial hostname ip t = (ok, t') \<Longrightarrow> tl_summary t' = tl_summary t \<and> tl_config t' = tl_config t"
  by (auto simp: smtpReachable_def Let_def split: if_splits)

lemma overview_remade:
  assumes "case tl_summary t of None \<Rightarrow> True | Some (stored, _) \<Rightarrow> summary_lifetime \<le> clock 0 - stored"
    and "buildSystemSummary inp clock s rows (t, ds) = (x, t', ds')"
  shows "tl_summary t' = Some (clock 5, x)"
  using assms by (auto simp: buildSystemSummary_def Let_def split: prod.splits option.splits)

text \<open>A probe is answered from memory only for the same pair of names, and only for ten seconds; otherwise it asks the network and
  remembers the outcome.\<close>

lemma probe_answer:
  "fst (smtpReachable now later dial hostname ip t) =
     (if probe_key hostname ip = tl_probe_key t \<and> now - tl_probe_at t < probe_lifetime then tl_probe_ok t else probe_both dial hostname ip)"
  by (simp add: smtpReachable_def Let_def)

lemma probe_remembered:
  assumes "smtpReachable now later dial hostname ip t = (ok, t')" "now' - later < probe_lifetime"
    and "\<not> (probe_key hostname ip = tl_probe_key t \<and> now - tl_probe_at t < probe_lifetime)"
  shows "smtpReachable now' later' dial' hostname ip t' = (ok, t')"
  using assms by (auto simp: smtpReachable_def Let_def split: if_splits)

section \<open>Concrete courses\<close>

definition holder_token :: account_token where
  "holder_token = \<lparr>tok_id = 2, tok_account_id = 3, tok_name = ''h'', tok_prefix = [], tok_scope = ''owner'', tok_is_primary = True,
     tok_kind = ''standard'', tok_rate_limit_per_minute = 0, tok_daily_request_limit = 0, tok_total_request_limit = 0,
     tok_request_count_total = 0, tok_last_used_at = None, tok_expires_at = None, tok_revoked_at = None, tok_created_at = 0, tok_updated_at = 0\<rparr>"

definition holder :: request_context where
  "holder =
     \<lparr>cx_account = \<lparr>acc_id = 3, acc_username = ''h'', acc_api_key = [], acc_is_admin = False, acc_is_active = True, acc_created_at = 0,
                    acc_updated_at = 0\<rparr>,
      cx_token = holder_token, cx_mode = ''token'', cx_deferred = False\<rparr>"

definition code_mail :: email where
  "code_mail =
     \<lparr>em_id = 7, em_mailbox_id = 6, em_sender = ''s'', em_subject = ''t'', em_body_text = [], em_body_html = [], em_raw_message = [],
      em_has_attachments = False, em_raw_path = [], em_raw_retention_until = None, em_parsed_code = ''482913'', em_parsed_code_source = ''digits'',
      em_parsed_link = [], em_parsed_link_source = [], em_size_bytes = 3, em_received_at = 100\<rparr>"

definition code_store :: mail_store where
  "code_store = kept_store\<lparr>ml_emails := [code_mail], ml_states := [first_state 100 kept_box ''b.de'' code_mail]\<rparr>"

lemma kept_box_id: "mb_id kept_box = 6" "mb_account_id kept_box = 3" "mb_full_address kept_box = ''a@b.de''" "ml_mailboxes kept_store = [kept_box]"
  by (simp_all add: kept_box_def retention_def new_mailbox_def kept_store_def)

lemma code_store_ok: "mail_ok code_store"
  using first_projects [of code_mail 100 kept_box "''b.de''"]
  by (simp add: mail_ok_def tables_linked_def keys_distinct_def code_store_def kept_box_id first_state_def mail_of_def code_mail_def)

lemma code_store_lookup:
  "asked_address (ex_lower plain_libs) ''a@b.de'' = Some ''a@b.de''"
  "LookupMailboxScoped False (ex_lower plain_libs) 3 (admin_owner holder) (cl_token (caller_of holder)) ''a@b.de'' code_store = Inr kept_box"
proof -
  have n: "to_lower id (trim_space ''a@b.de'') = ''a@b.de''" by (rule sample_names) simp
  have "contains_sub ''a@b.de'' ''@''" by code_simp
  then show "asked_address (ex_lower plain_libs) ''a@b.de'' = Some ''a@b.de''" using n by (simp add: asked_address_def plain_libs_def)
  show "LookupMailboxScoped False (ex_lower plain_libs) 3 (admin_owner holder) (cl_token (caller_of holder)) ''a@b.de'' code_store = Inr kept_box"
    using n kept_box_id
    by (simp add: LookupMailboxScoped_def plain_libs_def code_store_def of_option_def token_scope_def caller_of_def holder_def
        donationCreatorToken_def holder_token_def)
qed

theorem shown_code_is_of_latest_mail_witness:
  "LookupLatestCode (\<lambda>_. False) plain_libs (\<lambda>_. 0) holder ''a@b.de'' code_store = Inr (found_in kept_box code_mail (''482913'', ''digits''))"
proof -
  have own: "mail_of (mb_id kept_box) (ml_emails code_store) = [code_mail]"
    by (simp add: code_store_def mail_of_def kept_box_id code_mail_def)
  have acc: "acc_id (cx_account holder) = 3" by (simp add: holder_def)
  have f: "em_parsed_code code_mail = ''482913''" "em_parsed_code_source code_mail = ''digits''" by (simp_all add: code_mail_def)
  have "IsLikelyVerificationCode (ex_upper plain_libs) ''482913''" by code_simp
  then show ?thesis
    using shown_code_is_of_latest_mail [OF code_store_ok code_store_lookup(1), where cx = holder and tie = "\<lambda>_. 0"]
    unfolding acc code_store_lookup(2) sum.case own by (simp add: f)
qed

definition silent_dns :: mx_resolver where
  "silent_dns = \<lparr>mr_mx = (\<lambda>_. Inr []), mr_host = (\<lambda>_. Inr [])\<rparr>"

definition one_domain :: mail_domain where
  "one_domain = \<lparr>dom_id = 1, dom_domain = ''b.de'', dom_is_active = True, dom_status = ''active'', dom_visibility = ''public'',
     dom_source_type = ''manual'', dom_verified_at = None, dom_created_at = 0, dom_mx_checked_at = None\<rparr>"

theorem shown_health_is_measured_witness:
  "\<exists>rows i. RefreshDomainHealthCache (\<lambda>_. False) int silent_dns (NewToolingHandler [] []) (empty_db\<lparr>db_domains := [one_domain]\<rparr>) [] = (Inr (), rows)
     \<and> ListDomainHealthSnapshots False (empty_db\<lparr>db_domains := [one_domain]\<rparr>) rows = Inr [i]
     \<and> dh_root_status i = ''no MX record found'' \<and> dh_checked_at i \<noteq> None"
proof -
  let ?d = "empty_db\<lparr>db_domains := [one_domain]\<rparr>"
  have c: "column_text ''no MX record found''" "varchar 255 ''b.de''"
    using ascii_column [of "''no MX record found''" 0] ascii_column [of "''b.de''" 255] by (simp_all add: is_ascii_def)
  have "\<exists>rows. RefreshDomainHealthCache (\<lambda>_. False) int silent_dns (NewToolingHandler [] []) ?d [] = (Inr (), rows)"
    using c by (simp add: RefreshDomainHealthCache_def ListDomains_def UpsertDomainHealthSnapshot_def health_fits_def probed_health_def
        CheckDomainMX_def silent_dns_def one_domain_def Let_def)
  then obtain rows where r: "RefreshDomainHealthCache (\<lambda>_. False) int silent_dns (NewToolingHandler [] []) ?d [] = (Inr (), rows)" by blast
  have l: "ListDomainHealthSnapshots False ?d rows = Inr [health_of rows one_domain]" by (simp add: ListDomainHealthSnapshots_def)
  show ?thesis
    using shown_health_is_measured [OF r _ l, of "health_of rows one_domain"] r l
    by (auto simp: keys_distinct_def CheckDomainMX_def silent_dns_def Let_def)
qed

end
