(* ===== verification/Envelope.thy ===== *)
theory Envelope
  imports Access
begin

text \<open>
  The envelope of error answers and the request identifier (\<open>src/api/middleware/error_envelope.go\<close> and
  \<open>requestid.go\<close>).  A handler is the sequence of calls it makes on its writer; what reaches the writer of the server
  is the list \<open>cap_sent\<close>.  JSON values are a parameter type \<open>'j\<close> with what \<open>encoding/json\<close> does as the record \<open>json\<close>.
\<close>

section \<open>The writer that captures errors\<close>

datatype sent = Sent_Header int | Sent_Body string

record capture =
  cap_body :: string
  cap_status :: int
  cap_wrote :: bool
  cap_passthrough :: bool
  cap_sent :: "sent list"

definition newResponseCaptureWriter :: capture where
  "newResponseCaptureWriter = \<lparr>cap_body = [], cap_status = 200, cap_wrote = False, cap_passthrough = False, cap_sent = []\<rparr>"

definition WriteHeader :: "int \<Rightarrow> capture \<Rightarrow> capture" where
  "WriteHeader code w =
     (if cap_wrote w then w
      else (let w1 = w\<lparr>cap_status := code, cap_wrote := True\<rparr> in
            if code < 400 then w1\<lparr>cap_passthrough := True, cap_sent := cap_sent w1 @ [Sent_Header code]\<rparr> else w1))"

definition WriteHeaderNow :: "capture \<Rightarrow> capture" where
  "WriteHeaderNow w = (if \<not> cap_wrote w then WriteHeader (cap_status w) w else w)"

text \<open>\<open>Write\<close> and \<open>WriteString\<close> differ in the type of their argument only.\<close>

definition WriteString :: "string \<Rightarrow> capture \<Rightarrow> capture" where
  "WriteString bytes w =
     (let w1 = WriteHeaderNow w in
      if cap_passthrough w1 then w1\<lparr>cap_sent := cap_sent w1 @ [Sent_Body bytes]\<rparr> else w1\<lparr>cap_body := cap_body w1 @ bytes\<rparr>)"

datatype writer_call = Header_Call int | Now_Call | Write_Call string

fun call_writer :: "writer_call \<Rightarrow> capture \<Rightarrow> capture" where
  "call_writer (Header_Call code) w = WriteHeader code w"
| "call_writer Now_Call w = WriteHeaderNow w"
| "call_writer (Write_Call bytes) w = WriteString bytes w"

section \<open>Error bodies\<close>

record 'j json =
  js_decode :: "string \<Rightarrow> (string \<rightharpoonup> 'j) option"
  js_encode :: "(string \<rightharpoonup> 'j) \<Rightarrow> string option"
  js_text :: "'j \<Rightarrow> string option"
  js_of_text :: "string \<Rightarrow> 'j"
  js_of_int :: "int \<Rightarrow> 'j"
  js_of_bool :: "bool \<Rightarrow> 'j"

text \<open>The reason phrases of \<open>net/http\<close> for the error statuses.\<close>

definition status_texts :: "(int \<times> string) list" where
  "status_texts =
     [(400, ''Bad Request''), (401, ''Unauthorized''), (402, ''Payment Required''), (403, ''Forbidden''),
      (404, ''Not Found''), (405, ''Method Not Allowed''), (406, ''Not Acceptable''),
      (407, ''Proxy Authentication Required''), (408, ''Request Timeout''), (409, ''Conflict''), (410, ''Gone''),
      (411, ''Length Required''), (412, ''Precondition Failed''), (413, ''Request Entity Too Large''),
      (414, ''Request URI Too Long''), (415, ''Unsupported Media Type''), (416, ''Requested Range Not Satisfiable''),
      (417, ''Expectation Failed''), (418, ''I'' @ [CHR 0x27] @ ''m a teapot''), (421, ''Misdirected Request''),
      (422, ''Unprocessable Entity''), (423, ''Locked''), (424, ''Failed Dependency''), (425, ''Too Early''),
      (426, ''Upgrade Required''), (428, ''Precondition Required''), (429, ''Too Many Requests''),
      (431, ''Request Header Fields Too Large''), (451, ''Unavailable For Legal Reasons''),
      (500, ''Internal Server Error''), (501, ''Not Implemented''), (502, ''Bad Gateway''), (503, ''Service Unavailable''),
      (504, ''Gateway Timeout''), (505, ''HTTP Version Not Supported''), (506, ''Variant Also Negotiates''),
      (507, ''Insufficient Storage''), (508, ''Loop Detected''), (510, ''Not Extended''),
      (511, ''Network Authentication Required'')]"

definition status_text :: "int \<Rightarrow> string" where
  "status_text status = (case map_of status_texts status of None \<Rightarrow> [] | Some t \<Rightarrow> t)"

definition filled :: "'j json \<Rightarrow> (string \<rightharpoonup> 'j) \<Rightarrow> string \<Rightarrow> string" where
  "filled js payload key = (case Option.bind (payload key) (js_text js) of None \<Rightarrow> [] | Some t \<Rightarrow> trim_space t)"

definition pickErrorMessage :: "'j json \<Rightarrow> (string \<rightharpoonup> 'j) \<Rightarrow> string" where
  "pickErrorMessage js payload = (if filled js payload ''message'' \<noteq> [] then filled js payload ''message'' else filled js payload ''error'')"

definition inferErrorCode :: "int \<Rightarrow> string" where
  "inferErrorCode status =
     (if status = 400 then ''bad_request'' else if status = 401 then ''unauthorized'' else if status = 403 then ''forbidden''
      else if status = 404 then ''not_found'' else if status = 409 then ''conflict'' else if status = 429 then ''rate_limited''
      else if status = 503 then ''service_unavailable'' else if status \<ge> 500 then ''internal_error'' else ''request_failed'')"

definition public_message :: "'j json \<Rightarrow> int \<Rightarrow> (string \<rightharpoonup> 'j) \<Rightarrow> string" where
  "public_message js status payload =
     (let m = pickErrorMessage js payload in if status \<ge> 500 then ''internal server error'' else if m = [] then status_text status else m)"

definition envelope :: "'j json \<Rightarrow> int \<Rightarrow> string \<Rightarrow> (string \<rightharpoonup> 'j) \<Rightarrow> (string \<rightharpoonup> 'j)" where
  "envelope js status rid payload =
     (let message = public_message js status payload;
          p1 = (if status \<ge> 500 then payload(''error_code'' \<mapsto> js_of_text js ''internal_error'') else payload);
          p2 = p1(''success'' \<mapsto> js_of_bool js False, ''status'' \<mapsto> js_of_int js status, ''request_id'' \<mapsto> js_of_text js rid,
                  ''message'' \<mapsto> js_of_text js message, ''error'' \<mapsto> js_of_text js message) in
      if p2 ''error_code'' = None then p2(''error_code'' \<mapsto> js_of_text js (inferErrorCode status)) else p2)"

definition normalizeErrorBody :: "'j json \<Rightarrow> string \<Rightarrow> int \<Rightarrow> string \<Rightarrow> string option" where
  "normalizeErrorBody js body status rid =
     (case trim_space body of
        [] \<Rightarrow> None
      | c # cs \<Rightarrow>
          if c \<noteq> CHR 0x7B then None
          else (case js_decode js (c # cs) of None \<Rightarrow> None | Some payload \<Rightarrow> js_encode js (envelope js status rid payload)))"

text \<open>\<open>hs\<close> holds the header fields when the handler ends; a panic of the handler skips the rest.\<close>

definition ErrorEnvelope :: "'j json \<Rightarrow> string \<Rightarrow> writer_call list \<Rightarrow> bool \<Rightarrow> headers \<Rightarrow> sent list \<times> headers" where
  "ErrorEnvelope js rid calls panics hs =
     (let w = fold call_writer calls newResponseCaptureWriter in
      if panics \<or> cap_passthrough w then (cap_sent w, hs)
      else (let status = (if cap_status w = 0 then 200 else cap_status w);
                normal = (if status \<ge> 400 \<and> cap_body w \<noteq> [] then normalizeErrorBody js (cap_body w) status rid else None);
                body = (case normal of None \<Rightarrow> cap_body w | Some b \<Rightarrow> b);
                hs1 = (if normal = None then hs else set_header ''Content-Type'' ''application/json; charset=utf-8'' hs) in
            (cap_sent w @ [Sent_Header status] @ (if body = [] then [] else [Sent_Body body]), AList.delete ''Content-Length'' hs1)))"

section \<open>The request identifier\<close>

definition validRequestID :: "string \<Rightarrow> bool" where
  "validRequestID value =
     (value \<noteq> [] \<and> length value \<le> 64
      \<and> list_all (\<lambda>(c, _). (97 \<le> c \<and> c \<le> 122) \<or> (65 \<le> c \<and> c \<le> 90) \<or> (48 \<le> c \<and> c \<le> 57) \<or> c \<in> {46, 95, 58, 45}) (runes value))"

definition RequestID :: "string \<Rightarrow> string \<Rightarrow> string" where
  "RequestID fresh header = (let v = trim_space header in if validRequestID v then v else fresh)"

section \<open>What reaches the client\<close>

definition written :: "writer_call list \<Rightarrow> string list" where
  "written calls = List.map_filter (\<lambda>c. case c of Write_Call b \<Rightarrow> Some b | _ \<Rightarrow> None) calls"

lemma written_simps [simp]:
  "written [] = []" "written (Header_Call k # cs) = written cs" "written (Now_Call # cs) = written cs"
  "written (Write_Call b # cs) = b # written cs"
  by (simp_all add: written_def List.map_filter_def)

lemma captured:
  "cap_wrote w \<Longrightarrow> fold call_writer calls w =
     (if cap_passthrough w then w\<lparr>cap_sent := cap_sent w @ map Sent_Body (written calls)\<rparr>
      else w\<lparr>cap_body := cap_body w @ concat (written calls)\<rparr>)"
proof (induction calls arbitrary: w)
  case Nil
  then show ?case by simp
next
  case (Cons c cs)
  then show ?case by (cases c) (simp_all add: WriteHeader_def WriteHeaderNow_def WriteString_def)
qed

text \<open>An answer that is not an error reaches the client as the handler wrote it.\<close>

lemma success_passes_through:
  "code < 400 \<Longrightarrow> ErrorEnvelope js rid (Header_Call code # calls) panics hs = (Sent_Header code # map Sent_Body (written calls), hs)"
  by (simp add: ErrorEnvelope_def WriteHeader_def newResponseCaptureWriter_def captured)

lemma error_captured:
  assumes "code \<ge> 400"
  shows "fold call_writer (Header_Call code # calls) newResponseCaptureWriter =
    \<lparr>cap_body = concat (written calls), cap_status = code, cap_wrote = True, cap_passthrough = False, cap_sent = []\<rparr>"
  using assms by (simp add: WriteHeader_def newResponseCaptureWriter_def captured)

lemma error_enveloped:
  assumes "code \<ge> 400" "normalizeErrorBody js (concat (written calls)) code rid = Some out"
  shows "fst (ErrorEnvelope js rid (Header_Call code # calls) False hs) = Sent_Header code # (if out = [] then [] else [Sent_Body out])"
proof -
  have "normalizeErrorBody js [] code rid = None" by (simp add: normalizeErrorBody_def trim_space_def trim_chunks_def unrunes_def)
  then have "concat (written calls) \<noteq> []" using assms(2) by (metis option.distinct(1))
  then show ?thesis using assms(1,2) unfolding ErrorEnvelope_def error_captured [OF assms(1)] by (simp add: Let_def)
qed

text \<open>When the handler panics before it has written, the recovery that runs outside the envelope writes its status into the
  capturing writer, and nothing reaches the writer of the server.\<close>

lemma recovered_panic_is_not_answered:
  "ErrorEnvelope js rid [] True hs = ([], hs)"
  "cap_sent (fold call_writer [Header_Call 500, Now_Call] (fold call_writer [] newResponseCaptureWriter)) = []"
  by (simp_all add: ErrorEnvelope_def newResponseCaptureWriter_def WriteHeader_def WriteHeaderNow_def)

definition envelope_fields :: "string set" where
  "envelope_fields = {''message'', ''error'', ''error_code'', ''success'', ''status'', ''request_id''}"

lemma server_envelope_hides:
  assumes "code \<ge> 500" "\<And>k. k \<notin> envelope_fields \<Longrightarrow> p k = q k"
  shows "envelope js code rid p = envelope js code rid q"
  using assms by (auto simp: envelope_def public_message_def Let_def fun_eq_iff envelope_fields_def)

text \<open>C36. A server error does not tell its cause: if two handlers fail with the same status of 500 or more and JSON bodies that
  differ at most in the message, the error text and the other fields the envelope fills in, then the client gets the same bytes from
  both, under the same status, and no other write reaches it.  The hypothesis is that the JSON library can encode what it has decoded.\<close>

theorem server_errors_hide_cause:
  assumes code: "code \<ge> 500"
    and encodes: "\<And>payload. js_encode js payload \<noteq> None"
    and p: "js_decode js (trim_space (concat (written calls))) = Some p" "take 1 (trim_space (concat (written calls))) = [CHR 0x7B]"
    and q: "js_decode js (trim_space (concat (written calls'))) = Some q" "take 1 (trim_space (concat (written calls'))) = [CHR 0x7B]"
    and same: "\<And>k. k \<notin> envelope_fields \<Longrightarrow> p k = q k"
  shows "\<exists>out. js_encode js (envelope js code rid p) = Some out
    \<and> fst (ErrorEnvelope js rid (Header_Call code # calls) False hs) = Sent_Header code # (if out = [] then [] else [Sent_Body out])
    \<and> fst (ErrorEnvelope js rid (Header_Call code # calls') False hs) = Sent_Header code # (if out = [] then [] else [Sent_Body out])
    \<and> envelope js code rid p ''error'' = Some (js_of_text js ''internal server error'')
    \<and> envelope js code rid p ''message'' = Some (js_of_text js ''internal server error'')
    \<and> envelope js code rid p ''request_id'' = Some (js_of_text js rid)"
proof -
  obtain out where out: "js_encode js (envelope js code rid p) = Some out" using encodes by blast
  have n: "normalizeErrorBody js b code rid = Some out"
    if "js_decode js (trim_space b) = Some r" "take 1 (trim_space b) = [CHR 0x7B]" "envelope js code rid r = envelope js code rid p" for b r
    using that out by (cases "trim_space b") (auto simp: normalizeErrorBody_def)
  have one: "normalizeErrorBody js (concat (written calls)) code rid = Some out" by (rule n [OF p refl])
  have "envelope js code rid q = envelope js code rid p" by (rule server_envelope_hides [OF code]) (simp add: same)
  then have two: "normalizeErrorBody js (concat (written calls')) code rid = Some out" by (rule n [OF q])
  have c: "code \<ge> 400" using code by simp
  have "envelope js code rid p ''error'' = Some (js_of_text js ''internal server error'')"
    "envelope js code rid p ''message'' = Some (js_of_text js ''internal server error'')"
    "envelope js code rid p ''request_id'' = Some (js_of_text js rid)"
    using code by (auto simp: envelope_def public_message_def Let_def)
  then show ?thesis using out error_enveloped [OF c one] error_enveloped [OF c two] by blast
qed

text \<open>Below 500 the message of the handler is kept, under both names, and an error code it chose stays.\<close>

lemma client_errors_keep_message:
  assumes "code \<ge> 400" "code < 500" "filled js p ''error'' = m" "filled js p ''message'' = []" "m \<noteq> []"
  shows "envelope js code rid p ''error'' = Some (js_of_text js m)" "envelope js code rid p ''message'' = Some (js_of_text js m)"
    and "envelope js code rid p ''error_code'' = Some (case p ''error_code'' of None \<Rightarrow> js_of_text js (inferErrorCode code) | Some c \<Rightarrow> c)"
  using assms by (auto simp: envelope_def public_message_def pickErrorMessage_def Let_def split: option.split)

lemma request_id_valid: "validRequestID fresh \<Longrightarrow> validRequestID (RequestID fresh header)"
  by (simp add: RequestID_def Let_def)

text \<open>A small JSON library: the texts of three bodies.\<close>

definition small_json :: "string json" where
  "small_json =
     \<lparr>js_decode = (\<lambda>b. if b = ''{A}'' then Some [''error'' \<mapsto> ''secret''] else if b = ''{B}'' then Some [''error'' \<mapsto> ''other''] else None),
      js_encode = (\<lambda>p. Some (''{'' @ (case p ''error'' of None \<Rightarrow> [] | Some t \<Rightarrow> t) @ ''}'')), js_text = Some, js_of_text = id,
      js_of_int = itoa, js_of_bool = (\<lambda>b. if b then ''true'' else ''false'')\<rparr>"

theorem server_errors_hide_cause_witness:
  "fst (ErrorEnvelope small_json ''r1'' [Header_Call 500, Write_Call ''{A}''] False []) = [Sent_Header 500, Sent_Body ''{internal server error}'']
   \<and> fst (ErrorEnvelope small_json ''r1'' [Header_Call 500, Write_Call ''{B}''] False []) = [Sent_Header 500, Sent_Body ''{internal server error}'']"
proof -
  have t: "trim_space ''{A}'' = ''{A}''" "trim_space ''{B}'' = ''{B}''"
    by (rule trim_space_id_ascii; simp add: is_ascii_def ascii_space_def)+
  show ?thesis
    using server_errors_hide_cause [of 500 small_json "[Write_Call ''{A}'']" "[''error'' \<mapsto> ''secret'']" "[Write_Call ''{B}'']" "[''error'' \<mapsto> ''other'']" "''r1''" "[]"] t
    by (auto simp: small_json_def envelope_fields_def)
qed

end
