(* ===== verification/Service.thy ===== *)
theory Service
  imports Envelope Tooling_Admin Domain_Admin
begin

text \<open>
  The service as \<open>src/api/main.go\<close> puts it together: the configuration read from the environment (with
  \<open>config/config.go\<close>), the routes with the middleware in front of each, the list for Postfix, the refresher of the
  domain health, and the shutdown.  The environment is a function from names to texts, where an
  unset name has the empty text.  The router of gin is described by what it documents: \<open>Use\<close> takes effect for the
  routes of the group that are registered after it.  The cleaner, the verifier and the key file are in the theories
  of their components.
\<close>

section \<open>Configuration\<close>

type_synonym environment = "string \<Rightarrow> string"

record config =
  co_port :: string
  co_dsn :: string
  co_redis_addr :: string
  co_redis_password :: string
  co_rate_limit :: int
  co_rate_window :: int
  co_smtp_ip :: string
  co_smtp_hostname :: string

definition getEnv :: "environment \<Rightarrow> string \<Rightarrow> string \<Rightarrow> string" where
  "getEnv env key fallback = (if env key \<noteq> [] then env key else fallback)"

definition Load :: "environment \<Rightarrow> config" where
  "Load env =
     \<lparr>co_port = getEnv env ''PORT'' ''8080'', co_dsn = getEnv env ''DB_DSN'' [], co_redis_addr = getEnv env ''REDIS_ADDR'' ''redis:6379'',
      co_redis_password = getEnv env ''REDIS_PASSWORD'' [], co_rate_limit = atoi_or (getEnv env ''RATE_LIMIT'' ''500''),
      co_rate_window = atoi_or (getEnv env ''RATE_WINDOW'' ''60''), co_smtp_ip = env ''SMTP_SERVER_IP'', co_smtp_hostname = env ''SMTP_HOSTNAME''\<rparr>"

definition positive_env :: "environment \<Rightarrow> string \<Rightarrow> int \<Rightarrow> int" where
  "positive_env env key fallback = (let n = atoi_or (trim_space (env key)) in if n \<le> 0 then fallback else n)"

definition disabled :: "environment \<Rightarrow> string \<Rightarrow> bool" where
  "disabled env key = equal_fold_ascii (trim_space (env key)) ''true''"

record loops =
  lo_clean_seconds :: int
  lo_cleaner :: cleaner_config
  lo_no_cleaner :: bool
  lo_no_health :: bool
  lo_no_verifier :: bool

definition loop_settings :: "environment \<Rightarrow> loops" where
  "loop_settings env =
     \<lparr>lo_clean_seconds = positive_env env ''AUTO_CLEAN_INTERVAL_SECONDS'' 60,
      lo_cleaner = \<lparr>cc_max_age_minutes = positive_env env ''AUTO_CLEAN_EMAIL_MAX_AGE_MINUTES'' 1440,
                    cc_max_count = positive_env env ''AUTO_CLEAN_EMAIL_MAX_COUNT'' 30000\<rparr>,
      lo_no_cleaner = disabled env ''DISABLE_CLEANUP_LOOP'', lo_no_health = disabled env ''DISABLE_DOMAIN_HEALTH_LOOP'',
      lo_no_verifier = disabled env ''DISABLE_MX_VERIFIER_LOOP''\<rparr>"

text \<open>\<open>strings.FieldsFunc\<close>: the parts between separators that are not empty.\<close>

fun fields_func :: "(char \<Rightarrow> bool) \<Rightarrow> string \<Rightarrow> string \<Rightarrow> string list" where
  "fields_func sep part [] = (if part = [] then [] else [part])"
| "fields_func sep part (c # cs) =
     (if sep c then (if part = [] then [] else [part]) @ fields_func sep [] cs else fields_func sep (part @ [c]) cs)"

definition trusted_proxies :: "environment \<Rightarrow> string list" where
  "trusted_proxies env =
     (let parts = fields_func (\<lambda>c. c \<in> {CHR '','', CHR '' '', CHR 0x09, CHR 0x0D, CHR 0x0A}) [] (env ''TRUSTED_PROXY_CIDRS'') in
      if parts = [] then [''172.16.0.0/12''] else parts)"

definition allowed_origins :: "environment \<Rightarrow> string list" where
  "allowed_origins env =
     (let given = trim_space (env ''CONSOLE_ORIGIN''); o1 = (if given = [] then ''http://localhost:8889'' else given) in
      if has_prefix o1 ''http://localhost:'' then
        (let port = trim_prefix o1 ''http://localhost:'' in [o1, ''http://127.0.0.1:'' @ port, ''http://[::1]:'' @ port])
      else if has_prefix o1 ''http://127.0.0.1:'' then
        (let port = trim_prefix o1 ''http://127.0.0.1:'' in [o1, ''http://localhost:'' @ port, ''http://[::1]:'' @ port])
      else [o1])"

text \<open>The key of the internal interface; without one of its own the service does not start.\<close>

definition internal_sync_key :: "environment \<Rightarrow> string option" where
  "internal_sync_key env =
     (let key = trim_space (env ''INTERNAL_SYNC_KEY'') in
      if key \<in> {[], ''change_me_internal_sync_key'', ''replace_with_64_hex_characters''} then None else Some key)"

section \<open>Routes\<close>

datatype guard = Rate_Limit int int | Admin_Auth | Admin_Only | Donation_Auth | Api_Auth | Usage_Recorder | Any_Scope "string list"

datatype registration = Use "guard list" | Route string string "guard list" string

record route =
  rt_method :: string
  rt_group :: string
  rt_path :: string
  rt_guards :: "guard list"
  rt_handler :: string

fun register :: "string \<Rightarrow> guard list \<Rightarrow> registration list \<Rightarrow> route list" where
  "register base used [] = []"
| "register base used (Use gs # rest) = register base (used @ gs) rest"
| "register base used (Route meth path gs handler # rest) =
     \<lparr>rt_method = meth, rt_group = base, rt_path = path, rt_guards = used @ gs, rt_handler = handler\<rparr> # register base used rest"

definition registerPublicRoutes :: "registration list" where
  "registerPublicRoutes =
     [Route ''GET'' ''/settings'' [] ''settingH.GetPublic'',
      Route ''GET'' ''/logo'' [] ''settingH.GetLogo'',
      Route ''POST'' ''/domains/submit'' [Rate_Limit 5 60] ''domainH.PublicSubmit'',
      Route ''POST'' ''/domains/status'' [Rate_Limit 120 60] ''domainH.PublicStatus'']"

definition registerConsoleRoutes :: "registration list" where
  "registerConsoleRoutes =
     [Use [Admin_Auth, Admin_Only],
      Route ''GET'' ''/session'' [] ''accountH.Session'',
      Route ''GET'' ''/domains'' [] ''domainH.List'',
      Route ''GET'' ''/domains/health'' [] ''toolingH.DomainHealth'',
      Route ''GET'' ''/system/summary'' [] ''toolingH.SystemSummary'',
      Route ''GET'' ''/activity/codes'' [] ''toolingH.RecentCodes'',
      Route ''GET'' ''/analytics/summary'' [] ''analyticsH.Summary'',
      Route ''GET'' ''/operations/ingress'' [] ''ingress'',
      Route ''GET'' ''/operations/runtime'' [] ''runtime'',
      Route ''GET'' ''/operations/api-usage'' [] ''toolingH.APIUsage'',
      Route ''GET'' ''/operations/audit'' [] ''toolingH.IntegrationAudit'',
      Route ''GET'' ''/operations/maintenance/preview'' [] ''toolingH.MaintenancePreview'',
      Route ''POST'' ''/operations/cleanup/preview'' [] ''toolingH.CleanupPreview'',
      Route ''POST'' ''/mailboxes'' [] ''mailboxH.Create'',
      Route ''GET'' ''/mailboxes'' [] ''mailboxH.List'',
      Route ''POST'' ''/mailboxes/retention/batch'' [] ''mailboxH.BatchUpdateRetention'',
      Route ''GET'' ''/mailboxes/:id'' [] ''mailboxH.Get'',
      Route ''PUT'' ''/mailboxes/:id/retention'' [] ''mailboxH.UpdateRetention'',
      Route ''DELETE'' ''/mailboxes/:id'' [] ''mailboxH.Delete'',
      Route ''POST'' ''/mailboxes/cleanup'' [] ''toolingH.CleanupMailboxes'',
      Route ''GET'' ''/mailboxes/:id/emails'' [] ''emailH.List'',
      Route ''GET'' ''/mailboxes/:id/events'' [] ''emailH.Events'',
      Route ''GET'' ''/mailboxes/:id/emails/:email_id'' [] ''emailH.Get'',
      Route ''DELETE'' ''/mailboxes/:id/emails/:email_id'' [] ''emailH.Delete'',
      Route ''POST'' ''/emails/cleanup'' [] ''toolingH.CleanupEmails'',
      Route ''GET'' ''/lookup/mailbox'' [] ''toolingH.LookupMailbox'',
      Route ''GET'' ''/lookup/latest'' [] ''toolingH.LookupLatest'',
      Route ''GET'' ''/lookup/latest-code'' [] ''toolingH.LookupLatestCode'',
      Route ''GET'' ''/lookup/latest-link'' [] ''toolingH.LookupLatestLink'',
      Route ''GET'' ''/tokens'' [] ''tokenH.List'',
      Route ''POST'' ''/tokens'' [] ''tokenH.Create'',
      Route ''PATCH'' ''/tokens/:id'' [] ''tokenH.Update'',
      Route ''POST'' ''/tokens/:id/rotate'' [] ''tokenH.Rotate'',
      Route ''POST'' ''/tokens/:id/disable'' [] ''tokenH.Disable'',
      Route ''POST'' ''/tokens/:id/enable'' [] ''tokenH.Enable'',
      Route ''DELETE'' ''/tokens/:id'' [] ''tokenH.Delete'',
      Route ''POST'' ''/auth-key/rotate'' [] ''accountH.RotateAdminAuthKey'',
      Route ''DELETE'' ''/domains/:id'' [] ''domainH.Delete'',
      Route ''PUT'' ''/domains/:id/toggle'' [] ''domainH.Toggle'',
      Route ''POST'' ''/domains/mx-register'' [] ''domainH.MXRegister'',
      Route ''POST'' ''/domains/health/refresh'' [] ''toolingH.RefreshDomainHealth'',
      Route ''GET'' ''/donations'' [] ''domainH.ListDonations'',
      Route ''POST'' ''/donations/tokens/:id/adjust'' [] ''domainH.AdjustDonationToken'',
      Route ''POST'' ''/donations/:id/recheck'' [] ''domainH.RecheckDonation'',
      Route ''POST'' ''/donations/:id/revoke'' [] ''domainH.RevokeDonation'',
      Route ''POST'' ''/donations/:id/adjust'' [] ''domainH.AdjustDonation'',
      Route ''POST'' ''/donations/policy/apply'' [] ''domainH.ApplyDonationPolicy'',
      Route ''GET'' ''/settings'' [] ''settingH.AdminGetAll'',
      Route ''PUT'' ''/settings'' [] ''settingH.AdminUpdate'',
      Route ''GET'' ''/integrations/notifications'' [] ''integrationH.NotificationConfig'',
      Route ''PUT'' ''/integrations/notifications'' [] ''integrationH.UpdateNotifications'',
      Route ''POST'' ''/integrations/notifications/test'' [] ''integrationH.TestNotification'',
      Route ''GET'' ''/integrations/cloudflare'' [] ''integrationH.CloudflareConfig'',
      Route ''PUT'' ''/integrations/cloudflare'' [] ''integrationH.UpdateCloudflare'',
      Route ''POST'' ''/integrations/cloudflare/test'' [] ''integrationH.TestCloudflare'',
      Route ''POST'' ''/integrations/cloudflare/preview'' [] ''integrationH.CloudflarePreview'',
      Route ''POST'' ''/integrations/cloudflare/apply'' [] ''integrationH.CloudflareApply'',
      Route ''POST'' ''/dns/preview'' [] ''integrationH.DNSPreview'']"

definition registerAPIRoutes :: "registration list" where
  "registerAPIRoutes =
     [Route ''POST'' ''/donations'' [Donation_Auth] ''domainH.AuthenticatedDonationSubmit'',
      Use [Api_Auth, Usage_Recorder],
      Route ''POST'' ''/mailboxes'' [Any_Scope [''cleanup'', ''owner'']] ''mailboxH.Create'',
      Route ''GET'' ''/domains'' [] ''domainH.ListActive'',
      Route ''GET'' ''/mailboxes'' [] ''mailboxH.List'',
      Route ''POST'' ''/mailboxes/retention/batch'' [Any_Scope [''cleanup'', ''owner'']] ''mailboxH.BatchUpdateRetention'',
      Route ''GET'' ''/mailboxes/:id'' [] ''mailboxH.Get'',
      Route ''PUT'' ''/mailboxes/:id/retention'' [Any_Scope [''cleanup'', ''owner'']] ''mailboxH.UpdateRetention'',
      Route ''DELETE'' ''/mailboxes/:id'' [Any_Scope [''cleanup'', ''owner'']] ''mailboxH.Delete'',
      Route ''POST'' ''/mailboxes/cleanup'' [Any_Scope [''cleanup'', ''owner'']] ''toolingH.CleanupMailboxes'',
      Route ''GET'' ''/mailboxes/:id/emails'' [] ''emailH.List'',
      Route ''GET'' ''/mailboxes/:id/events'' [] ''emailH.Events'',
      Route ''GET'' ''/mailboxes/:id/emails/:email_id'' [] ''emailH.Get'',
      Route ''DELETE'' ''/mailboxes/:id/emails/:email_id'' [Any_Scope [''cleanup'', ''owner'']] ''emailH.Delete'',
      Route ''POST'' ''/emails/cleanup'' [Any_Scope [''cleanup'', ''owner'']] ''toolingH.CleanupEmails'',
      Route ''GET'' ''/lookup/mailbox'' [] ''toolingH.LookupMailbox'',
      Route ''GET'' ''/lookup/latest'' [] ''toolingH.LookupLatest'',
      Route ''GET'' ''/lookup/latest-code'' [] ''toolingH.LookupLatestCode'',
      Route ''GET'' ''/lookup/latest-link'' [] ''toolingH.LookupLatestLink'']"

definition service_routes :: "route list" where
  "service_routes =
     register [] [] [Route ''GET'' ''/health'' [] ''health'']
     @ register ''/public/v1'' [] registerPublicRoutes
     @ register ''/console/v1'' [] registerConsoleRoutes
     @ register ''/api/v1'' [] registerAPIRoutes
     @ register ''/internal'' [] [Route ''GET'' ''/domains.txt'' [] ''domains.txt'']"

section \<open>Admission\<close>

record request =
  rq_authorization :: string
  rq_admin_key :: string
  rq_ip :: string
  rq_path :: string

record gate_faults =
  gf_key :: bool
  gf_auth :: faults
  gf_limit :: bool

type_synonym gate = "request_context option \<times> world"

definition of_verdict :: "verdict \<Rightarrow> world \<Rightarrow> (int \<times> string, gate) result" where
  "of_verdict v w = (case v of Abort status text \<Rightarrow> Inl (status, text) | Next cx \<Rightarrow> Inr (Some cx, w))"

definition of_refusal :: "verdict option \<Rightarrow> gate \<Rightarrow> (int \<times> string, gate) result" where
  "of_refusal v g = (case v of Some (Abort status text) \<Rightarrow> Inl (status, text) | _ \<Rightarrow> Inr g)"

text \<open>The recorder lets every request pass; what it records is in \<open>Usage_Recorder\<close>.\<close>

fun run_guard :: "access_libs \<Rightarrow> (nat \<Rightarrow> nat) \<Rightarrow> gate_faults \<Rightarrow> time \<Rightarrow> request \<Rightarrow> guard \<Rightarrow> gate \<Rightarrow> (int \<times> string, gate) result" where
  "run_guard l lo f now q (Rate_Limit limit window) (cx, w) =
     (case RateLimit l (gf_limit f) limit window now (rq_path q) (rq_authorization q) (rq_ip q) (w_redis w) of
        (Some refused, _, r) \<Rightarrow> Inl refused | (None, _, r) \<Rightarrow> Inr (cx, w\<lparr>w_redis := r\<rparr>))"
| "run_guard l lo f now q Admin_Auth (cx, w) = of_verdict (fst (AdminAuth (gf_key f) (rq_admin_key q) (w_db w))) w"
| "run_guard l lo f now q Admin_Only (cx, w) = of_refusal (AdminOnly cx) (cx, w)"
| "run_guard l lo f now q Donation_Auth (cx, w) =
     (case DonationAuth l (gf_auth f) now (rq_authorization q) w of (v, w') \<Rightarrow> of_verdict v w')"
| "run_guard l lo f now q Api_Auth (cx, w) =
     (case APIAuth l (gf_auth f) now (rq_authorization q) w of (v, _, w') \<Rightarrow> of_verdict v w')"
| "run_guard l lo f now q Usage_Recorder (cx, w) = Inr (cx, w)"
| "run_guard l lo f now q (Any_Scope scopes) (cx, w) = of_refusal (RequireAnyScope lo scopes cx) (cx, w)"

fun run_guards :: "access_libs \<Rightarrow> (nat \<Rightarrow> nat) \<Rightarrow> gate_faults \<Rightarrow> time \<Rightarrow> request \<Rightarrow> guard list \<Rightarrow> gate \<Rightarrow> (int \<times> string, gate) result" where
  "run_guards l lo f now q [] g = Inr g"
| "run_guards l lo f now q (gd # gds) g = rbind (run_guard l lo f now q gd g) (run_guards l lo f now q gds)"

section \<open>The list for Postfix and the health of the domains\<close>

definition domains_txt :: "string \<Rightarrow> bool \<Rightarrow> time \<Rightarrow> time \<Rightarrow> string \<Rightarrow> domain_store \<Rightarrow> (int \<times> string) \<times> domain_store" where
  "domains_txt key fault now later header s =
     (let provided = trim_space header in
      if provided = [] \<or> provided \<noteq> key then ((401, []), s)
      else case GetActiveDomains fault now later s of
        (Inl _, s') \<Rightarrow> ((500, []), s')
      | (Inr ms, s') \<Rightarrow> ((200, join_with [CHR 0x0A] (map (\<lambda>m. dom_domain m @ ''     OK'') ms)), s'))"

text \<open>The refresher of the health snapshots: at the start and every two minutes; an error is logged.\<close>

definition health_refresh :: "fault_at \<Rightarrow> (nat \<Rightarrow> time) \<Rightarrow> mx_resolver \<Rightarrow> tooling \<Rightarrow> db \<Rightarrow> health_row list \<Rightarrow> health_row list" where
  "health_refresh faults clock dns t d rows = snd (RefreshDomainHealthCache faults clock dns t d rows)"

section \<open>Shutdown\<close>

datatype shutdown_step = Stop_Notifications | Shutdown_LMTP | Clear_LMTP_Status | Shutdown_HTTP | Exit int
  | Close_Recorder | Close_Redis | Close_Database

text \<open>The deferred calls run in reverse order when \<open>main\<close> returns, and not at all when it ends through \<open>log.Fatalf\<close>.\<close>

definition shutdown :: "bool \<Rightarrow> shutdown_step list" where
  "shutdown http_fails =
     [Stop_Notifications, Shutdown_LMTP, Clear_LMTP_Status, Shutdown_HTTP]
     @ (if http_fails then [Exit 1] else [Close_Recorder, Close_Redis, Close_Database, Exit 0])"

end
