(* ===== verification/Service_Promises.thy ===== *)
theory Service_Promises
  imports Service Access_Promises
begin

text \<open>
  What holds of the service as a whole: who gets past the middleware of which route, and what the list for Postfix holds.
\<close>

section \<open>The kinds of routes\<close>

definition open_routes :: "(string \<times> string \<times> string) list" where
  "open_routes =
     [(''GET'', [], ''/health''), (''GET'', ''/public/v1'', ''/settings''), (''GET'', ''/public/v1'', ''/logo''),
      (''POST'', ''/public/v1'', ''/domains/submit''), (''POST'', ''/public/v1'', ''/domains/status''), (''GET'', ''/internal'', ''/domains.txt'')]"

definition public_route :: "route \<Rightarrow> bool" where
  "public_route r = ((rt_method r, rt_group r, rt_path r) \<in> set open_routes)"

definition console_route :: "route \<Rightarrow> bool" where
  "console_route r = (rt_group r = ''/console/v1'' \<and> rt_guards r = [Admin_Auth, Admin_Only])"

definition donation_route :: "route \<Rightarrow> bool" where
  "donation_route r = (rt_group r = ''/api/v1'' \<and> rt_path r = ''/donations'' \<and> rt_guards r = [Donation_Auth])"

definition api_route :: "route \<Rightarrow> bool" where
  "api_route r =
     (rt_group r = ''/api/v1'' \<and> rt_path r \<noteq> ''/donations''
      \<and> rt_guards r = [Api_Auth, Usage_Recorder] @ (if rt_method r = ''GET'' then [] else [Any_Scope [''cleanup'', ''owner'']]))"

lemma console_kinds: "list_all console_route (register ''/console/v1'' [] registerConsoleRoutes)"
  by (simp add: registerConsoleRoutes_def console_route_def)

lemma public_kinds: "list_all public_route (register ''/public/v1'' [] registerPublicRoutes)"
  by (simp add: registerPublicRoutes_def public_route_def open_routes_def)

lemma api_kinds: "list_all (\<lambda>r. donation_route r \<or> api_route r) (register ''/api/v1'' [] registerAPIRoutes)"
  by (simp add: registerAPIRoutes_def donation_route_def api_route_def)

definition any_kind :: "route \<Rightarrow> bool" where
  "any_kind r = (public_route r \<or> console_route r \<or> donation_route r \<or> api_route r)"

lemma all_kinds: "list_all any_kind service_routes"
proof -
  have "list_all any_kind (register ''/console/v1'' [] registerConsoleRoutes)"
    by (rule list.pred_mono_strong [OF console_kinds]) (simp add: any_kind_def)
  moreover have "list_all any_kind (register ''/public/v1'' [] registerPublicRoutes)"
    by (rule list.pred_mono_strong [OF public_kinds]) (simp add: any_kind_def)
  moreover have "list_all any_kind (register ''/api/v1'' [] registerAPIRoutes)"
    by (rule list.pred_mono_strong [OF api_kinds]) (auto simp: any_kind_def)
  ultimately show ?thesis by (simp add: service_routes_def any_kind_def public_route_def open_routes_def)
qed

lemma route_kinds: "r \<in> set service_routes \<Longrightarrow> public_route r \<or> console_route r \<or> donation_route r \<or> api_route r"
  using all_kinds by (auto simp: list_all_iff any_kind_def)

section \<open>Who is admitted\<close>

lemma auth_part_scope: "auth_part t = auth_part u \<Longrightarrow> tok_scope t = tok_scope u"
  unfolding auth_part_def
  by (metis (no_types, lifting) account_token.select_convs(5) account_token.surjective account_token.update_convs(11,12,16))

lemma charged_scope: "charge_total f now a tok s hs w = (Next cx, hs', w') \<Longrightarrow> tok_scope (cx_token cx) = tok_scope tok"
  by (auto simp: charge_total_def Let_def split: if_splits prod.splits sum.splits db_error.splits)

text \<open>The token a bearer secret stands for.\<close>

definition bearer_token :: "access_libs \<Rightarrow> time \<Rightarrow> string \<Rightarrow> db \<Rightarrow> token_row \<Rightarrow> bool" where
  "bearer_token l now header d t =
     (\<exists>raw. bearer header = Some raw \<and> t \<in> set (db_tokens d) \<and> tr_hash t = hashToken (al_sha l) raw
        \<and> tok_revoked_at t = None \<and> (case tok_expires_at t of None \<Rightarrow> True | Some e \<Rightarrow> now \<le> e))"

lemma looked_up_row:
  assumes "store_ok d" "coherent c d" "GetAccountByToken fault sha now now raw d c = (Inr (a, tok), c')"
  shows "\<exists>q \<in> set (db_tokens d). tr_hash q = hashToken sha raw \<and> tok_scope tok = tok_scope q \<and> tok_kind tok = tok_kind q
    \<and> tok_revoked_at tok = tok_revoked_at q \<and> tok_expires_at tok = tok_expires_at q"
proof -
  have ho: "hashes_ok d" using assms(1) by (simp add: store_ok_def)
  obtain b t where load: "loadAccountByTokenHash (hashToken sha raw) d = Inr (b, t)" and s: "same_auth (a, tok) (b, t)"
    using lookup_agrees [OF assms(2), of fault sha now now raw "(a, tok)"] assms(3) by auto
  obtain q where q: "q \<in> set (db_tokens d)" "tr_hash q = hashToken sha raw" "t = account_token.truncate q"
    using load unfolding loadAccount_iff [OF ho] by blast
  have e: "auth_part tok = auth_part t" using s by (simp add: same_auth_def)
  have "tok_scope t = tok_scope q" using q(3) by (simp add: account_token.truncate_def)
  then show ?thesis using q auth_part_fields [OF e] auth_part_scope [OF e] by auto
qed

lemma api_admits:
  assumes "store_ok (w_db w)" "coherent (w_cache w) (w_db w)" "APIAuth l f now header w = (Next cx, hs, w')"
  shows "\<exists>t. bearer_token l now header (w_db w) t \<and> tok_scope (cx_token cx) = tok_scope t"
proof -
  obtain raw a tok c where raw: "bearer header = Some raw"
    and lk: "GetAccountByToken (ft_load f) (al_sha l) now now raw (w_db w) (w_cache w) = (Inr (a, tok), c)"
    and nr: "token_refused now tok = None" and cq: "check_quota l f now a tok (w\<lparr>w_cache := c\<rparr>) = (Next cx, hs, w')"
    using APIAuth_next [OF assms(3)] by blast
  have "tok_scope (cx_token cx) = tok_scope tok" using check_quota_next [OF cq] charged_scope by blast
  then show ?thesis using looked_up_row [OF assms(1,2) lk] raw nr
    by (fastforce simp: bearer_token_def token_refused_def split: if_splits option.splits)
qed

lemma donation_admits:
  assumes "store_ok (w_db w)" "coherent (w_cache w) (w_db w)" "DonationAuth l f now header w = (Next cx, w')"
  shows "\<exists>t. bearer_token l now header (w_db w) t \<and> tok_kind t = ''donation''"
proof -
  obtain raw a tok c where raw: "bearer header = Some raw"
    and lk: "GetAccountByToken (ft_load f) (al_sha l) now now raw (w_db w) (w_cache w) = (Inr (a, tok), c)"
    and t: "tok_kind tok = ''donation''" "tok_revoked_at tok = None" "case tok_expires_at tok of None \<Rightarrow> True | Some e \<Rightarrow> now < e"
    using assms(3) by (auto simp: DonationAuth_def split: option.splits sum.splits prod.splits if_splits)
  then show ?thesis using looked_up_row [OF assms(1,2) lk]
    by (fastforce simp: bearer_token_def split: option.splits)
qed

lemma console_admits:
  assumes "AdminAuth fault header d = (Next cx, hs)"
  shows "\<exists>a. owner_account d = Some a \<and> cx_account cx = a \<and> acc_api_key a = trim_space header \<and> isAdminAuthKeyFormat (trim_space header)"
  using assms by (auto simp: AdminAuth_def GetAccountByAdminAuthKey_def Let_def split: if_splits sum.splits option.splits)

lemma scopes_plain: "to_lower lo (trim_space ''cleanup'') = ''cleanup''" "to_lower lo (trim_space ''owner'') = ''owner''"
proof -
  have a: "is_ascii ''cleanup''" "is_ascii ''owner''" by (simp_all add: is_ascii_def)
  have "trim_space ''cleanup'' = ''cleanup''" "trim_space ''owner'' = ''owner''"
    using trim_space_id_ascii [OF a(1)] trim_space_id_ascii [OF a(2)] by (simp_all add: ascii_space_def)
  then show "to_lower lo (trim_space ''cleanup'') = ''cleanup''" "to_lower lo (trim_space ''owner'') = ''owner''"
    using to_lower_id [OF a(1)] to_lower_id [OF a(2)] by (simp_all add: is_upper_def)
qed

lemma scope_admits:
  "of_refusal (RequireAnyScope lo [''cleanup'', ''owner''] (Some cx)) g = Inr g' \<Longrightarrow> tok_scope (cx_token cx) \<in> {''cleanup'', ''owner''}"
  by (auto simp: RequireAnyScope_def of_refusal_def scopes_plain split: if_splits)

text \<open>C37. No way in without credentials: a request that gets past the middleware of any route of the service is for one of six
  open routes (health, the public settings and logo, the two public donation routes and the list for Postfix, whose handler checks a
  key of its own), or it goes to the console and carries the console key stored for the active owner account, or it goes to the API
  with the secret of a stored token that is neither revoked nor expired; that token is a donation token on the route for donations,
  and on every other API route that is not a GET its scope is cleanup or owner.\<close>

theorem entry_requires_credentials:
  assumes ok: "store_ok (w_db w)" "coherent (w_cache w) (w_db w)" and r: "r \<in> set service_routes"
    and run: "run_guards l lo f now q (rt_guards r) (None, w) = Inr (cx, w')"
  shows "(rt_method r, rt_group r, rt_path r) \<in> set open_routes
    \<or> (rt_group r = ''/console/v1'' \<and> (\<exists>a. owner_account (w_db w) = Some a \<and> acc_is_admin a
         \<and> acc_api_key a = trim_space (rq_admin_key q) \<and> isAdminAuthKeyFormat (acc_api_key a)))
    \<or> (rt_group r = ''/api/v1'' \<and> (\<exists>t. bearer_token l now (rq_authorization q) (w_db w) t
         \<and> (if rt_path r = ''/donations'' then tok_kind t = ''donation'' else rt_method r = ''GET'' \<or> tok_scope t \<in> {''cleanup'', ''owner''})))"
  using route_kinds [OF r]
proof (elim disjE)
  assume "public_route r"
  then show ?thesis by (simp add: public_route_def)
next
  assume c: "console_route r"
  obtain x hs where x: "AdminAuth (gf_key f) (rq_admin_key q) (w_db w) = (Next x, hs)" and only: "of_refusal (AdminOnly (Some x)) (Some x, w) = Inr (cx, w')"
    using run c by (cases "AdminAuth (gf_key f) (rq_admin_key q) (w_db w)") (auto simp: console_route_def of_verdict_def rbind_def split: verdict.splits sum.splits)
  have "acc_is_admin (cx_account x)" using only by (auto simp: AdminOnly_def of_refusal_def split: if_splits)
  then show ?thesis using console_admits [OF x] c by (auto simp: console_route_def)
next
  assume c: "donation_route r"
  obtain x w1 where "DonationAuth l (gf_auth f) now (rq_authorization q) w = (Next x, w1)"
    using run c by (cases "DonationAuth l (gf_auth f) now (rq_authorization q) w") (auto simp: donation_route_def of_verdict_def rbind_def split: verdict.splits sum.splits)
  then show ?thesis using donation_admits [OF ok] c by (auto simp: donation_route_def)
next
  assume c: "api_route r"
  obtain x hs w1 where x: "APIAuth l (gf_auth f) now (rq_authorization q) w = (Next x, hs, w1)"
    using run c by (cases "APIAuth l (gf_auth f) now (rq_authorization q) w") (auto simp: api_route_def of_verdict_def rbind_def split: verdict.splits sum.splits)
  obtain t where t: "bearer_token l now (rq_authorization q) (w_db w) t" "tok_scope (cx_token x) = tok_scope t"
    using api_admits [OF ok x] by blast
  have "tok_scope t \<in> {''cleanup'', ''owner''}" if "rt_method r \<noteq> ''GET''"
  proof -
    have "of_refusal (RequireAnyScope lo [''cleanup'', ''owner''] (Some x)) (Some x, w1) = Inr (cx, w')"
      using run c x that by (auto simp: api_route_def of_verdict_def rbind_Inr_iff)
    from scope_admits [OF this] show ?thesis by (simp add: t(2))
  qed
  then show ?thesis using t(1) c by (auto simp: api_route_def)
qed

section \<open>The list for Postfix\<close>

text \<open>Without the key the list is refused; with it, the list names the active domains of the answer the pool gives.\<close>

lemma domains_txt_needs_key:
  "internal_sync_key env = Some key \<Longrightarrow> fst (fst (domains_txt key fault now later header s)) \<noteq> 401 \<Longrightarrow> trim_space header = key"
  by (auto simp: domains_txt_def Let_def split: if_splits)

lemma sync_key_is_set: "internal_sync_key env = Some key \<Longrightarrow> key \<noteq> [] \<and> key \<noteq> ''change_me_internal_sync_key''"
  by (auto simp: internal_sync_key_def Let_def split: if_splits)

lemma domains_txt_lines:
  assumes "trim_space header = key" "key \<noteq> []" "GetActiveDomains fault now later s = (Inr ms, s')"
  shows "domains_txt key fault now later header s = ((200, join_with [CHR 0x0A] (map (\<lambda>m. dom_domain m @ ''     OK'') ms)), s')"
  using assms by (simp add: domains_txt_def Let_def)

section \<open>Shutdown\<close>

text \<open>When the HTTP server does not stop in time the process ends without closing the recorder of the API usage, so what it
  still holds is not written.\<close>

lemma forced_exit_skips_recorder: "Close_Recorder \<notin> set (shutdown True)"
  by (simp add: shutdown_def)

lemma orderly_exit_closes_recorder:
  "\<exists>before after. shutdown False = before @ Close_Recorder # after \<and> Shutdown_HTTP \<in> set before \<and> Close_Database \<in> set after"
  by (rule exI [of _ "[Stop_Notifications, Shutdown_LMTP, Clear_LMTP_Status, Shutdown_HTTP]"])
    (simp add: shutdown_def)

lemma cleanup_interval_positive: "0 < lo_clean_seconds (loop_settings env)" "0 < cc_max_count (lo_cleaner (loop_settings env))"
  by (simp_all add: loop_settings_def positive_env_def Let_def)

section \<open>A concrete entry\<close>

definition console_request :: request where
  "console_request = \<lparr>rq_authorization = [], rq_admin_key = console_key, rq_ip = [], rq_path = ''/console/v1/session''\<rparr>"

lemma console_admitted: "\<exists>cx. run_guards sample_access id \<lparr>gf_key = False, gf_auth = no_faults, gf_limit = False\<rparr> 10 console_request
    [Admin_Auth, Admin_Only] (None, console_world) = Inr (cx, console_world)"
proof -
  obtain x hs where x: "AdminAuth False console_key (w_db console_world) = (Next x, hs)" using console_key_opens by blast
  have d: "db_accounts (w_db console_world) = [\<lparr>acc_id = 1, acc_username = ''o'', acc_api_key = console_key,
     acc_is_admin = True, acc_is_active = True, acc_created_at = 0, acc_updated_at = 0\<rparr>]" by (simp add: console_world_def)
  have "cx_mode x = ''admin_console'' \<and> tok_scope (cx_token x) = ''owner'' \<and> acc_is_admin (cx_account x)"
    using x by (auto simp: AdminAuth_def GetAccountByAdminAuthKey_def Let_def owner_account_def d admin_token_def split: if_splits sum.splits option.splits)
  then show ?thesis using x by (simp add: console_request_def of_verdict_def of_refusal_def AdminOnly_def)
qed

definition session_route :: route where
  "session_route =
     \<lparr>rt_method = ''GET'', rt_group = ''/console/v1'', rt_path = ''/session'', rt_guards = [Admin_Auth, Admin_Only], rt_handler = ''accountH.Session''\<rparr>"

lemma session_route_in: "session_route \<in> set service_routes"
proof -
  have "session_route \<in> set (register ''/console/v1'' [] registerConsoleRoutes)" by (simp add: session_route_def registerConsoleRoutes_def)
  then show ?thesis by (simp add: service_routes_def)
qed

theorem entry_requires_credentials_witness:
  "session_route \<in> set service_routes
   \<and> (\<exists>a. owner_account (w_db console_world) = Some a \<and> acc_is_admin a \<and> acc_api_key a = trim_space console_key)"
proof -
  obtain cx where run: "run_guards sample_access id \<lparr>gf_key = False, gf_auth = no_faults, gf_limit = False\<rparr> 10 console_request
      (rt_guards session_route) (None, console_world) = Inr (cx, console_world)"
    using console_admitted by (auto simp: session_route_def)
  have ok: "store_ok (w_db console_world)" "coherent (w_cache console_world) (w_db console_world)"
    by (simp_all add: console_world_def empty_db_def coherent_def store_ok_def donations_ok_def tables_ok_def hashes_ok_def keys_distinct_def
        ledger_ok_def limits_ok_def usage_ok_def)
  show ?thesis
    using entry_requires_credentials [OF ok session_route_in run] session_route_in
    by (auto simp: session_route_def open_routes_def console_request_def)
qed

end
