(* ===== verification/Static_Server.thy ===== *)
theory Static_Server
  imports Envelope
begin

text \<open>
  The server of the web console (\<open>src/frontend/server/main.go\<close>): which file a request gets, or which other answer.  The
  file system is the parameter \<open>stat\<close>, from path names to what is there; \<open>url.Parse\<close>, the table of MIME types and the
  JSON text of a string are parameters too.  \<open>http.ServeFile\<close> and the file server of \<open>net/http\<close> transfer the file they
  are given: the answer here is that file, with the header fields set before.  \<open>path.Clean\<close> follows its documentation.
\<close>

section \<open>Paths\<close>

text \<open>The elements of a cleaned path: an inner \<open>..\<close> goes with the element before it; at the front it stays, save under a root.\<close>

fun clean_step :: "bool \<Rightarrow> string list \<Rightarrow> string \<Rightarrow> string list" where
  "clean_step rooted done_rev e =
     (if e = [] \<or> e = ''.'' then done_rev
      else if e = ''..'' then
        (case done_rev of
           [] \<Rightarrow> if rooted then [] else [''..'']
         | d # ds \<Rightarrow> if d = ''..'' then ''..'' # d # ds else ds)
      else e # done_rev)"

definition clean_elements :: "bool \<Rightarrow> string \<Rightarrow> string list" where
  "clean_elements rooted p = rev (fold (\<lambda>e ds. clean_step rooted ds e) (split_byte p (CHR ''/'')) [])"

definition path_clean :: "string \<Rightarrow> string" where
  "path_clean p =
     (if has_prefix p ''/'' then CHR ''/'' # join_with ''/'' (clean_elements True p)
      else let es = clean_elements False p in if es = [] then ''.'' else join_with ''/'' es)"

text \<open>\<open>path.Ext\<close>: from the last dot of the last element.\<close>

definition path_ext :: "string \<Rightarrow> string" where
  "path_ext p =
     (let l = last (split_byte p (CHR ''/'')) in
      case last_index_byte l (CHR ''.'') of None \<Rightarrow> [] | Some i \<Rightarrow> drop i l)"

text \<open>\<open>filepath.Join\<close> of two names that are not empty.\<close>

definition path_join :: "string \<Rightarrow> string \<Rightarrow> string" where
  "path_join a b = path_clean (a @ ''/'' @ b)"

section \<open>Configuration\<close>

datatype file_kind = Regular | Directory

type_synonym file_system = "string \<Rightarrow> file_kind option"

record parsed_url =
  pu_scheme :: string
  pu_host :: string
  pu_user :: bool
  pu_path :: string
  pu_query :: string
  pu_fragment :: string

record static_libs =
  sl_lower :: "nat \<Rightarrow> nat"
  sl_parse :: "string \<Rightarrow> parsed_url option"
  sl_json :: "string \<Rightarrow> string"
  sl_mime :: "string \<Rightarrow> string"

record static_handler =
  sh_root :: string
  sh_origin :: string

definition normalizePublicAPIOrigin :: "static_libs \<Rightarrow> string \<Rightarrow> (string, string) result" where
  "normalizePublicAPIOrigin l value =
     (let trimmed = trim_right ''/'' (trim_space value) in
      if trimmed = [] then Inr []
      else case sl_parse l trimmed of
        None \<Rightarrow> Inl ''PUBLIC_API_ORIGIN must be an absolute HTTP(S) origin or empty''
      | Some u \<Rightarrow>
          if (pu_scheme u \<noteq> ''http'' \<and> pu_scheme u \<noteq> ''https'') \<or> pu_host u = []
          then Inl ''PUBLIC_API_ORIGIN must be an absolute HTTP(S) origin or empty''
          else if pu_user u \<or> (pu_path u \<noteq> [] \<and> pu_path u \<noteq> ''/'') \<or> pu_query u \<noteq> [] \<or> pu_fragment u \<noteq> []
          then Inl ''PUBLIC_API_ORIGIN must not contain credentials, a path, query, or fragment''
          else Inr trimmed)"

definition newStaticHandler :: "static_libs \<Rightarrow> file_system \<Rightarrow> string \<Rightarrow> string \<Rightarrow> (string, static_handler) result" where
  "newStaticHandler l stat root origin =
     (let clean = path_clean (trim_space root) in
      if clean = ''.'' \<or> clean = [] then Inl ''web root is required''
      else case stat (path_join clean ''index.html'') of
        None \<Rightarrow> Inl ''frontend index''
      | Some Directory \<Rightarrow> Inl ''frontend index must be a file''
      | Some Regular \<Rightarrow>
          (case normalizePublicAPIOrigin l origin of
             Inl e \<Rightarrow> Inl e | Inr o1 \<Rightarrow> Inr \<lparr>sh_root = clean, sh_origin = o1\<rparr>))"

definition web_root :: "string \<Rightarrow> string" where
  "web_root env = (if trim_space env = [] then ''/srv'' else trim_space env)"

definition web_port :: "string \<Rightarrow> string" where
  "web_port env = (if trim_space env = [] then ''8080'' else trim_space env)"

section \<open>Requests\<close>

record web_request =
  wr_method :: string
  wr_path :: string
  wr_accept :: string
  wr_encoding :: string

datatype web_answer = Not_Allowed | Not_Found | Script string | File string

definition setSecurityHeaders :: "headers \<Rightarrow> headers" where
  "setSecurityHeaders hs =
     set_header ''Referrer-Policy'' ''strict-origin-when-cross-origin''
       (set_header ''X-Frame-Options'' ''SAMEORIGIN'' (set_header ''X-Content-Type-Options'' ''nosniff'' hs))"

definition reserved_prefixes :: "string list" where
  "reserved_prefixes =
     [''/console'', ''/api'', ''/public'', ''/health'', ''/internal'', ''/v1'', ''/auth'', ''/register'', ''/accounts'']"

definition isReservedPath :: "string \<Rightarrow> bool" where
  "isReservedPath value = list_ex (\<lambda>p. value = p \<or> has_prefix value (p @ ''/'')) reserved_prefixes"

definition acceptsHTML :: "static_libs \<Rightarrow> string \<Rightarrow> bool" where
  "acceptsHTML l value = contains_sub (to_lower (sl_lower l) value) ''text/html''"

definition acceptsGzip :: "static_libs \<Rightarrow> string \<Rightarrow> bool" where
  "acceptsGzip l value =
     list_ex (\<lambda>item. let encoding = trim_space (hd (split_byte item (CHR '';''))) in encoding = ''gzip'' \<or> encoding = ''*'')
       (split_byte (to_lower (sl_lower l) value) (CHR '',''))"

definition serveRuntimeConfig :: "static_libs \<Rightarrow> static_handler \<Rightarrow> headers \<Rightarrow> web_answer \<times> headers" where
  "serveRuntimeConfig l h hs =
     (Script (''window.__FAR_MAIL_RUNTIME_CONFIG__={'' @ [CHR 0x22] @ ''apiOrigin'' @ [CHR 0x22] @ '':'' @ sl_json l (sh_origin h) @ ''};'' @ [CHR 0x0A]),
      set_header ''Cache-Control'' ''no-cache, no-store, must-revalidate''
        (set_header ''Content-Type'' ''application/javascript; charset=utf-8'' hs))"

definition serveIndex :: "static_handler \<Rightarrow> headers \<Rightarrow> web_answer \<times> headers" where
  "serveIndex h hs =
     (File (path_join (sh_root h) ''index.html''),
      set_header ''Expires'' ''0'' (set_header ''Pragma'' ''no-cache''
        (set_header ''Cache-Control'' ''no-cache, no-store, must-revalidate'' hs)))"

text \<open>The file server opens the cleaned path of the request below the root: the same file.\<close>

definition serveStatic :: "static_libs \<Rightarrow> file_system \<Rightarrow> static_handler \<Rightarrow> web_request \<Rightarrow> string \<Rightarrow> headers \<Rightarrow> web_answer \<times> headers" where
  "serveStatic l stat h r requestPath hs =
     (let hs1 = set_header ''Cache-Control''
                  (if has_prefix requestPath ''/assets/'' then ''public, max-age=31536000, immutable'' else ''public, max-age=604800'') hs;
          filePath = path_join (sh_root h) (trim_prefix requestPath ''/'') in
      if acceptsGzip l (wr_encoding r) \<and> stat (filePath @ ''.gz'') = Some Regular then
        (let ct = sl_mime l (path_ext requestPath); hs2 = (if ct = [] then hs1 else set_header ''Content-Type'' ct hs1) in
         (File (filePath @ ''.gz''), set_header ''Vary'' ''Accept-Encoding'' (set_header ''Content-Encoding'' ''gzip'' hs2)))
      else (File filePath, hs1))"

text \<open>A name the file system of the root takes: valid UTF-8 without empty or dotted elements and without the NUL byte.\<close>

definition dir_stat :: "file_system \<Rightarrow> string \<Rightarrow> string \<Rightarrow> file_kind option" where
  "dir_stat stat root name =
     (if valid_utf8 name \<and> CHR 0x00 \<notin> set name \<and> list_all (\<lambda>e. e \<noteq> [] \<and> e \<noteq> ''.'' \<and> e \<noteq> ''..'') (split_byte name (CHR ''/''))
      then stat (root @ ''/'' @ name) else None)"

definition ServeHTTP :: "static_libs \<Rightarrow> file_system \<Rightarrow> static_handler \<Rightarrow> web_request \<Rightarrow> web_answer \<times> headers" where
  "ServeHTTP l stat h r =
     (let hs = setSecurityHeaders [] in
      if wr_method r \<noteq> ''GET'' \<and> wr_method r \<noteq> ''HEAD'' then (Not_Allowed, set_header ''Allow'' ''GET, HEAD'' hs)
      else (let requestPath = path_clean (CHR ''/'' # trim_prefix (wr_path r) ''/'') in
            if requestPath = ''/runtime-config.js'' then serveRuntimeConfig l h hs
            else if isReservedPath requestPath then (Not_Found, hs)
            else if requestPath = ''/'' then serveIndex h hs
            else if dir_stat stat (sh_root h) (trim_prefix requestPath ''/'') = Some Regular then serveStatic l stat h r requestPath hs
            else if acceptsHTML l (wr_accept r) \<and> path_ext requestPath = [] then serveIndex h hs
            else (Not_Found, hs)))"

end
