(* ===== verification/Static_Promises.thy ===== *)
theory Static_Promises
  imports Static_Server
begin

text \<open>
  What the server of the console promises: cleaning a path is stable, and a file it hands out lies below the web root.
\<close>

section \<open>Splitting and joining\<close>

lemma split_byte_free: "c \<notin> set x \<Longrightarrow> split_byte x c = [x]"
  by (induction x) auto

lemma split_byte_append: "c \<notin> set x \<Longrightarrow> split_byte (x @ c # s) c = x # split_byte s c"
  by (induction x) auto

lemma split_byte_middle: "split_byte (s @ c # t) c = split_byte s c @ split_byte t c"
  by (induction s) (auto split: list.splits)

lemma split_join: "es \<noteq> [] \<Longrightarrow> list_all (\<lambda>e. c \<notin> set e) es \<Longrightarrow> split_byte (join_with [c] es) c = es"
  by (induction "[c]" es rule: join_with.induct) (simp_all add: split_byte_free split_byte_append)

section \<open>Cleaned paths\<close>

definition plain :: "string \<Rightarrow> bool" where
  "plain e = (e \<noteq> [] \<and> e \<noteq> ''.'' \<and> e \<noteq> ''..'' \<and> CHR ''/'' \<notin> set e)"

definition stack_ok :: "bool \<Rightarrow> string list \<Rightarrow> bool" where
  "stack_ok rooted ds = (\<exists>ps n. ds = ps @ replicate n ''..'' \<and> list_all plain ps \<and> (rooted \<longrightarrow> n = 0))"

lemma stack_okI: "list_all plain ps \<Longrightarrow> (rooted \<Longrightarrow> n = 0) \<Longrightarrow> stack_ok rooted (ps @ replicate n ''..'')"
  unfolding stack_ok_def by blast

lemma clean_step_ok:
  assumes ok: "stack_ok rooted ds" and e: "CHR ''/'' \<notin> set e"
  shows "stack_ok rooted (clean_step rooted ds e)"
proof -
  obtain ps n where ds: "ds = ps @ replicate n ''..''" and ps: "list_all plain ps" and n: "rooted \<longrightarrow> n = 0"
    using ok unfolding stack_ok_def by blast
  consider "e = [] \<or> e = ''.''" | "e = ''..''" "ps = []" | p ps' where "e = ''..''" "ps = p # ps'" | "plain e"
    using e by (cases ps) (auto simp: plain_def)
  then show ?thesis
  proof cases
    case 1
    then show ?thesis using ok by auto
  next
    case 2
    show ?thesis
    proof (cases n)
      case 0
      then show ?thesis using 2 ds stack_okI [of "[]" rooted 0] stack_okI [of "[]" False 1] by (cases rooted) simp_all
    next
      case (Suc k)
      then show ?thesis using 2 ds n stack_okI [of "[]" rooted "Suc n"] by simp
    qed
  next
    case 3
    then show ?thesis using ds ps n stack_okI [of ps' rooted n] by (simp add: plain_def)
  next
    case 4
    then have "clean_step rooted ds e = (e # ps) @ replicate n ''..''" using ds by (simp add: plain_def)
    then show ?thesis using stack_okI [of "e # ps" rooted n] 4 ps n by simp
  qed
qed

lemma clean_fold_ok:
  "stack_ok rooted ds \<Longrightarrow> list_all (\<lambda>e. CHR ''/'' \<notin> set e) es \<Longrightarrow> stack_ok rooted (fold (\<lambda>e ds. clean_step rooted ds e) es ds)"
  by (induction es arbitrary: ds) (auto intro: clean_step_ok simp del: clean_step.simps)

lemma split_free: "list_all (\<lambda>e. c \<notin> set e) (split_byte s c)"
  using split_byte_no_sep by (auto simp: list_all_iff)

lemma clean_elements_ok: "stack_ok rooted (rev (clean_elements rooted p))"
  unfolding clean_elements_def rev_rev_ident
  by (rule clean_fold_ok [OF _ split_free]) (use stack_okI [of "[]" rooted 0] in simp)

lemma rooted_elements_plain: "list_all plain (clean_elements True p)"
proof -
  have "stack_ok True (rev (clean_elements True p))" by (rule clean_elements_ok)
  then show ?thesis by (auto simp: stack_ok_def list_all_iff)
qed

lemma clean_plain_fold: "list_all plain es \<Longrightarrow> fold (\<lambda>e ds. clean_step rooted ds e) es ds = rev es @ ds"
  by (induction es arbitrary: ds) (simp_all add: plain_def)

lemma clean_dots_fold: "fold (\<lambda>e ds. clean_step False ds e) (replicate n ''..'') (replicate k ''..'') = replicate (n + k) ''..''"
proof (induction n arbitrary: k)
  case (Suc n)
  have "clean_step False (replicate k ''..'') ''..'' = replicate (Suc k) ''..''" by (cases k) simp_all
  then show ?case using Suc [of "Suc k"] by (simp del: clean_step.simps add: replicate_app_Cons_same)
qed simp

lemma clean_again: "stack_ok rooted (rev es) \<Longrightarrow> fold (\<lambda>e ds. clean_step rooted ds e) es [] = rev es"
proof -
  assume "stack_ok rooted (rev es)"
  then obtain ps n where r: "rev es = ps @ replicate n ''..''" and ps: "list_all plain ps" and n: "rooted \<longrightarrow> n = 0"
    unfolding stack_ok_def by blast
  have es: "es = replicate n ''..'' @ rev ps" using r by (metis rev_append rev_replicate rev_rev_ident)
  have dots: "fold (\<lambda>e ds. clean_step rooted ds e) (replicate n ''..'') [] = replicate n ''..''"
    using n clean_dots_fold [of n 0] by (cases rooted) simp_all
  have "list_all plain (rev ps)" using ps by (simp add: list_all_iff)
  then show ?thesis unfolding r es fold_append o_apply dots by (simp add: clean_plain_fold del: clean_step.simps)
qed

lemma element_free: "stack_ok rooted (rev es) \<Longrightarrow> list_all (\<lambda>e. CHR ''/'' \<notin> set e \<and> e \<noteq> []) es"
  by (auto simp: stack_ok_def list_all_iff plain_def dest!: arg_cong [of _ _ set])

lemma join_not_rooted:
  assumes "list_all (\<lambda>e. CHR ''/'' \<notin> set e \<and> e \<noteq> []) es"
  shows "\<not> has_prefix (join_with ''/'' es) ''/''"
proof (cases es)
  case (Cons e es')
  then obtain c cs where "e = c # cs" "c \<noteq> CHR ''/''" using assms by (cases e) auto
  then show ?thesis using Cons by (cases es') (auto simp: has_prefix_def)
qed (simp add: has_prefix_def)

lemma clean_elements_join:
  assumes "stack_ok rooted (rev es)" "es \<noteq> []"
  shows "clean_elements rooted (join_with ''/'' es) = es"
proof -
  have "list_all (\<lambda>e. CHR ''/'' \<notin> set e) es" using element_free [OF assms(1)] by (simp add: list_all_iff)
  then have "split_byte (join_with ''/'' es) (CHR ''/'') = es" using split_join [OF assms(2)] by simp
  then show ?thesis unfolding clean_elements_def using clean_again [OF assms(1)] by simp
qed

lemma clean_elements_slash: "clean_elements rooted (CHR ''/'' # s) = clean_elements rooted s"
  by (simp add: clean_elements_def)

lemma clean_elements_append:
  assumes "list_all plain es" "es \<noteq> []"
  shows "clean_elements rooted (s @ ''/'' @ join_with ''/'' es) = clean_elements rooted s @ es"
proof -
  have "list_all (\<lambda>e. CHR ''/'' \<notin> set e) es" using assms(1) by (auto simp: list_all_iff plain_def)
  then have "split_byte (s @ ''/'' @ join_with ''/'' es) (CHR ''/'') = split_byte s (CHR ''/'') @ es"
    using split_byte_middle [of s "CHR ''/''" "join_with ''/'' es"] split_join [OF assms(2)] by simp
  then show ?thesis unfolding clean_elements_def by (simp add: clean_plain_fold [OF assms(1)] del: clean_step.simps)
qed

lemma clean_cases:
  "(has_prefix p ''/'' \<and> path_clean p = CHR ''/'' # join_with ''/'' (clean_elements True p))
   \<or> (\<not> has_prefix p ''/'' \<and> clean_elements False p = [] \<and> path_clean p = ''.'')
   \<or> (\<not> has_prefix p ''/'' \<and> clean_elements False p \<noteq> [] \<and> path_clean p = join_with ''/'' (clean_elements False p))"
  by (auto simp: path_clean_def Let_def)

text \<open>A cleaned path extended by plain elements is what joining gives.\<close>

lemma join_below:
  assumes root: "root = path_clean p" "root \<noteq> ''.''" and es: "list_all plain es" "es \<noteq> []"
  shows "path_join root (join_with ''/'' es) = (if root = ''/'' then '''' else root) @ ''/'' @ join_with ''/'' es"
  using clean_cases [of p]
proof (elim disjE conjE)
  let ?cs = "clean_elements True p"
  assume p: "has_prefix p ''/''" "path_clean p = CHR ''/'' # join_with ''/'' ?cs"
  have e: "clean_elements True root = ?cs"
    unfolding root(1) p(2) clean_elements_slash using clean_elements_join [OF clean_elements_ok [of True p]]
    by (cases "?cs = []") (simp_all add: clean_elements_def)
  have pre: "has_prefix (root @ ''/'' @ join_with ''/'' es) ''/''" unfolding root(1) p(2) by (simp add: has_prefix_def)
  have j: "path_join root (join_with ''/'' es) = CHR ''/'' # join_with ''/'' (?cs @ es)"
    unfolding path_join_def path_clean_def using pre by (simp add: clean_elements_append [OF es, simplified] e)
  show ?thesis
  proof (cases "?cs = []")
    case True
    then show ?thesis using j root(1) p(2) by simp
  next
    case False
    have c: "list_all (\<lambda>e. CHR ''/'' \<notin> set e \<and> e \<noteq> []) ?cs" by (rule element_free [OF clean_elements_ok])
    have "join_with ''/'' ?cs \<noteq> []" using c False by (cases ?cs; cases "tl ?cs") auto
    then show ?thesis using j root(1) p(2) join_with_append [OF False es(2), of "''/''"] by simp
  qed
next
  assume "path_clean p = ''.''"
  then show ?thesis using root by simp
next
  let ?cs = "clean_elements False p"
  assume p: "\<not> has_prefix p ''/''" "?cs \<noteq> []" "path_clean p = join_with ''/'' ?cs"
  have free: "list_all (\<lambda>e. CHR ''/'' \<notin> set e \<and> e \<noteq> []) ?cs" by (rule element_free [OF clean_elements_ok])
  have e: "clean_elements False root = ?cs" unfolding root(1) p(3) by (rule clean_elements_join [OF clean_elements_ok p(2)])
  have "root @ ''/'' @ join_with ''/'' es = join_with ''/'' (?cs @ es)" unfolding root(1) p(3) by (rule join_with_append [OF p(2) es(2), symmetric])
  moreover have "list_all (\<lambda>e. CHR ''/'' \<notin> set e \<and> e \<noteq> []) (?cs @ es)" using free es(1) by (auto simp: list_all_iff plain_def)
  ultimately have pre: "\<not> has_prefix (root @ ''/'' @ join_with ''/'' es) ''/''" using join_not_rooted by simp
  have "root \<noteq> ''/''" using join_not_rooted [OF free] p(3) root(1) by (auto simp: has_prefix_def)
  moreover have "clean_elements False (root @ ''/'' @ join_with ''/'' es) = ?cs @ es" unfolding clean_elements_append [OF es] e ..
  ultimately have "path_join root (join_with ''/'' es) = join_with ''/'' (?cs @ es)"
    unfolding path_join_def path_clean_def using pre p(2) by (simp only: Let_def if_False append_is_Nil_conv simp_thms)
  then show ?thesis using \<open>root \<noteq> ''/''\<close> \<open>root @ ''/'' @ join_with ''/'' es = join_with ''/'' (?cs @ es)\<close> by simp
qed

text \<open>Cleaning is stable.\<close>

lemma path_clean_idem: "path_clean (path_clean p) = path_clean p"
  using clean_cases [of p]
proof (elim disjE conjE)
  let ?cs = "clean_elements True p"
  assume p: "path_clean p = CHR ''/'' # join_with ''/'' ?cs"
  have "clean_elements True (CHR ''/'' # join_with ''/'' ?cs) = ?cs"
    unfolding clean_elements_slash using clean_elements_join [OF clean_elements_ok [of True p]]
    by (cases "?cs = []") (simp_all add: clean_elements_def)
  then show ?thesis unfolding p by (simp add: path_clean_def has_prefix_def)
next
  assume "path_clean p = ''.''"
  then show ?thesis by (simp add: path_clean_def clean_elements_def has_prefix_def)
next
  let ?cs = "clean_elements False p"
  assume p: "?cs \<noteq> []" "path_clean p = join_with ''/'' ?cs"
  have "\<not> has_prefix (join_with ''/'' ?cs) ''/''" by (rule join_not_rooted [OF element_free [OF clean_elements_ok]])
  then show ?thesis unfolding p(2) using clean_elements_join [OF clean_elements_ok p(1)] p(1) by (simp add: path_clean_def Let_def)
qed

section \<open>Files below the root\<close>

definition below :: "string \<Rightarrow> string list \<Rightarrow> string" where
  "below root es = (if root = ''/'' then [] else root) @ ''/'' @ join_with ''/'' es"

lemma static_file:
  assumes "serveStatic l stat h r requestPath hs = (File f, hs')"
  shows "let g = path_join (sh_root h) (trim_prefix requestPath ''/'') in f = g \<or> (f = g @ ''.gz'' \<and> stat f = Some Regular \<and> acceptsGzip l (wr_encoding r))"
  using assms by (auto simp: serveStatic_def Let_def split: if_splits)

lemma handler_root: "newStaticHandler l stat root origin = Inr h \<Longrightarrow> sh_root h = path_clean (trim_space root) \<and> sh_root h \<noteq> ''.''"
  by (auto simp: newStaticHandler_def Let_def split: if_splits option.splits file_kind.splits sum.splits)

text \<open>C38. The server hands out nothing outside its web root: whatever the method, the path and the header fields of a request are, a
  file it is answered with is the index page of the root, or lies below the root under one or more names none of which is empty,
  dotted or contains a slash, where a regular file was found under just these names and their path is not reserved for the API;
  or it is the compressed form next to such a file, found as a regular file and only for a client that accepts it.\<close>

theorem served_files_stay_below_root:
  assumes made: "newStaticHandler l stat root origin = Inr h" and ans: "ServeHTTP l stat h r = (File f, hs)"
  shows "f = below (sh_root h) [''index.html'']
    \<or> (\<exists>es. es \<noteq> [] \<and> list_all plain es \<and> stat (sh_root h @ ''/'' @ join_with ''/'' es) = Some Regular
        \<and> \<not> isReservedPath (''/'' @ join_with ''/'' es)
        \<and> (f = below (sh_root h) es \<or> (f = below (sh_root h) es @ ''.gz'' \<and> stat f = Some Regular \<and> acceptsGzip l (wr_encoding r))))"
proof -
  have root: "sh_root h = path_clean (trim_space root)" "sh_root h \<noteq> ''.''" using handler_root [OF made] by auto
  have index: "path_join (sh_root h) ''index.html'' = below (sh_root h) [''index.html'']"
    using join_below [OF root, of "[''index.html'']"] by (simp add: plain_def below_def)
  define q where "q = path_clean (CHR ''/'' # trim_prefix (wr_path r) ''/'')"
  define es where "es = clean_elements True (CHR ''/'' # trim_prefix (wr_path r) ''/'')"
  have q: "q = CHR ''/'' # join_with ''/'' es" by (simp add: q_def es_def path_clean_def has_prefix_def)
  have es: "list_all plain es" unfolding es_def by (rule rooted_elements_plain)
  have rel: "trim_prefix q ''/'' = join_with ''/'' es" using trim_prefix_append [of "''/''" "join_with ''/'' es"] q by simp
  consider hs0 where "serveIndex h hs0 = (File f, hs)" | hs0 where "\<not> isReservedPath q" "q \<noteq> ''/''"
      "dir_stat stat (sh_root h) (join_with ''/'' es) = Some Regular" "serveStatic l stat h r q hs0 = (File f, hs)"
    using ans unfolding ServeHTTP_def q_def [symmetric] rel Let_def serveRuntimeConfig_def
    by (auto split: if_splits)
  then show ?thesis
  proof cases
    case 1
    then show ?thesis by (simp add: serveIndex_def index)
  next
    case 2
    have ne: "es \<noteq> []" using 2(2) q by auto
    have "stat (sh_root h @ ''/'' @ join_with ''/'' es) = Some Regular" using 2(3) by (auto simp: dir_stat_def split: if_splits)
    moreover have "path_join (sh_root h) (join_with ''/'' es) = below (sh_root h) es" using join_below [OF root es ne] by (simp add: below_def)
    ultimately show ?thesis using static_file [OF 2(4)] 2(1) es ne q rel by (auto simp: Let_def)
  qed
qed

section \<open>A concrete site\<close>

text \<open>The accepted encodings are read without their weights: a client that refuses gzip by a weight of zero gets it.\<close>

lemma refused_gzip_is_sent: "acceptsGzip \<lparr>sl_lower = id, sl_parse = \<lambda>_. None, sl_json = id, sl_mime = \<lambda>_. []\<rparr> ''gzip;q=0''"
proof -
  have a: "is_ascii ''gzip;q=0''" "is_ascii ''gzip''" by (simp_all add: is_ascii_def)
  have "to_lower id ''gzip;q=0'' = ''gzip;q=0''" by (rule to_lower_id [OF a(1)]) (simp add: is_upper_def)
  moreover have "trim_space ''gzip'' = ''gzip''" by (rule trim_space_id_ascii [OF a(2)]) (simp add: ascii_space_def)
  ultimately show ?thesis by (simp add: acceptsGzip_def Let_def)
qed

definition site_libs :: static_libs where
  "site_libs = \<lparr>sl_lower = id, sl_parse = \<lambda>_. None, sl_json = id, sl_mime = \<lambda>_. []\<rparr>"

definition site_files :: file_system where
  "site_files = [''/srv/index.html'' \<mapsto> Regular, ''/srv/a.js'' \<mapsto> Regular, ''/etc/passwd'' \<mapsto> Regular]"

definition climbing :: web_request where
  "climbing = \<lparr>wr_method = ''GET'', wr_path = ''/x/../../a.js'', wr_accept = [], wr_encoding = []\<rparr>"

lemma site_made: "newStaticHandler site_libs site_files ''/srv'' [] = Inr \<lparr>sh_root = ''/srv'', sh_origin = []\<rparr>"
proof -
  have "trim_space ''/srv'' = ''/srv''" by (rule trim_space_id_ascii) (simp_all add: is_ascii_def ascii_space_def)
  moreover have "path_clean ''/srv'' = ''/srv''" "path_join ''/srv'' ''index.html'' = ''/srv/index.html''" by code_simp+
  moreover have "trim_space [] = []" by (rule trim_space_id_ascii) (simp_all add: is_ascii_def)
  ultimately show ?thesis by (simp add: newStaticHandler_def normalizePublicAPIOrigin_def site_files_def trim_right_def Let_def)
qed

lemma climbing_served: "\<exists>hs. ServeHTTP site_libs site_files \<lparr>sh_root = ''/srv'', sh_origin = []\<rparr> climbing = (File ''/srv/a.js'', hs)"
proof -
  have c: "path_clean (CHR ''/'' # trim_prefix (wr_path climbing) ''/'') = ''/a.js''" unfolding climbing_def by code_simp
  have r: "\<not> isReservedPath ''/a.js''" by code_simp
  have t: "trim_prefix ''/a.js'' ''/'' = ''a.js''" "path_join ''/srv'' ''a.js'' = ''/srv/a.js''" by code_simp+
  have v: "valid_utf8 ''a.js''" by (simp add: valid_ascii_Cons)
  have d: "dir_stat site_files ''/srv'' ''a.js'' = Some Regular" using v by (simp add: dir_stat_def site_files_def)
  have g: "\<not> acceptsGzip site_libs (wr_encoding climbing)"
    using trim_space_id_ascii [of "[]"] by (simp add: acceptsGzip_def climbing_def is_ascii_def)
  show ?thesis unfolding ServeHTTP_def c using r d g t by (simp add: climbing_def serveStatic_def Let_def)
qed

theorem served_files_stay_below_root_witness:
  "\<exists>h f hs. newStaticHandler site_libs site_files ''/srv'' [] = Inr h \<and> ServeHTTP site_libs site_files h climbing = (File f, hs)
     \<and> (\<exists>es. list_all plain es \<and> es \<noteq> [] \<and> f = below ''/srv'' es)"
proof -
  obtain hs where a: "ServeHTTP site_libs site_files \<lparr>sh_root = ''/srv'', sh_origin = []\<rparr> climbing = (File ''/srv/a.js'', hs)"
    using climbing_served by blast
  have "''/srv/a.js'' \<noteq> below ''/srv'' [''index.html'']" by (simp add: below_def)
  then show ?thesis using served_files_stay_below_root [OF site_made a] site_made a by (auto simp: site_files_def split: if_splits)
qed

end
