(* ===== verification/Shared_Load.thy ===== *)
theory Shared_Load
  imports Cache_Refinement
begin

text \<open>
  Concurrent lookups of the active domains (\<open>src/api/store/postgres.go\<close>, \<open>GetActiveDomains\<close>, with \<open>domains_cache.go\<close>) and of
  an account by the hash of a token (\<open>src/api/store/tokens.go\<close>, \<open>GetAccountByToken\<close>): goroutines that read the cache, share one
  load through a singleflight group, and guard the cache with an epoch, against changes that commit, raise the epoch, clear
  the cache and forget the shared load.  Each access to the shared state is a step; the answer of the query is of type \<open>'v\<close>
  (for a token: what the query has for one hash), an entry of the cache may expire or be evicted at any time.  \<open>forgets\<close> is true
  for the domains, where a change always forgets the shared load; for a token it does so only when it finds an entry to
  remove.  For a token some statements commit and clear nothing: the counters of requests, the key of the console, a
  new row.  \<open>view\<close> is the part of the answer they leave alone (everything, for the domains; for a token the
  account's id and all but the counters and times, see \<open>row_view\<close>), and \<open>found\<close> says of which views the query has
  an answer: every list of domains is one, a missing row is an error.
  \<open>singleflight\<close> is described by what it documents: the first caller runs the load, callers that arrive before it ends get
  its result, and after \<open>Forget\<close> the next caller starts a load of its own.  The ghost fields record which answers are
  right (\<open>pl_since\<close>: the contents the query had since a call began, or that an unfinished change was then replacing), and
  \<open>pl_raced\<close>, whether an epoch was raised between another goroutine's check of it and its write to the cache, or a change ended
  without forgetting a shared load that had read the cache but not yet the epoch.
\<close>

section \<open>The state\<close>

datatype 'v turn =
  Idle | Entered | Missing | Waiting nat | Looking nat | Hit nat 'v | Missed nat | Loading nat nat
| Loaded nat nat 'v | Checked nat nat 'v | Inserted nat nat 'v | Forgetting | Answer 'v

datatype change = No_Change | Committed | Bumped | Cleared

record 'v pool =
  pl_db :: 'v
  pl_epoch :: nat
  pl_cache :: "'v option"
  pl_group :: "nat option"
  pl_calls :: nat
  pl_result :: "nat \<Rightarrow> (nat \<times> 'v) option option"
  pl_run :: "nat \<Rightarrow> 'v turn"
  pl_change :: "nat \<Rightarrow> change"
  pl_old :: "'v set"
  pl_since :: "nat \<Rightarrow> 'v set"
  pl_raced :: bool

definition start_pool :: "'v \<Rightarrow> 'v pool" where
  "start_pool v =
     \<lparr>pl_db = v, pl_epoch = 0, pl_cache = None, pl_group = None, pl_calls = 0, pl_result = (\<lambda>_. None), pl_run = (\<lambda>_. Idle),
      pl_change = (\<lambda>_. No_Change), pl_old = {}, pl_since = (\<lambda>_. {}), pl_raced = False\<rparr>"

definition turn :: "nat \<Rightarrow> 'v turn \<Rightarrow> 'v pool \<Rightarrow> 'v pool" where
  "turn i t s = s\<lparr>pl_run := (pl_run s)(i := t)\<rparr>"

text \<open>The end of a shared load: its result is there for all who wait, its leader included, and the group forgets the call.\<close>

definition finish_call :: "nat \<Rightarrow> nat \<Rightarrow> (nat \<times> 'v) option \<Rightarrow> 'v pool \<Rightarrow> 'v pool" where
  "finish_call i k r s =
     turn i (Waiting k) (s\<lparr>pl_result := (pl_result s)(k := Some r), pl_group := (if pl_group s = Some k then None else pl_group s)\<rparr>)"

section \<open>Lookups and changes\<close>

text \<open>The end of a change: when it is the last one, no replaced contents are left.\<close>

definition finish_change :: "nat \<Rightarrow> 'v pool \<Rightarrow> 'v pool" where
  "finish_change w s =
     s\<lparr>pl_change := (pl_change s)(w := No_Change),
       pl_old := (if \<exists>x. x \<noteq> w \<and> pl_change s x \<noteq> No_Change then pl_old s else {})\<rparr>"

inductive load_step :: "bool \<Rightarrow> ('u \<Rightarrow> bool) \<Rightarrow> ('v \<Rightarrow> 'u) \<Rightarrow> 'v pool \<Rightarrow> 'v pool \<Rightarrow> bool" for forgets found view where
  Begin: "pl_run s i = Idle \<Longrightarrow> load_step forgets found view s (turn i Entered (s\<lparr>pl_since := (pl_since s)(i := insert (pl_db s) (pl_old s))\<rparr>))"
| Outer_Hit: "pl_run s i = Entered \<Longrightarrow> pl_cache s = Some v \<Longrightarrow> load_step forgets found view s (turn i (Answer v) s)"
| Outer_Miss: "pl_run s i = Entered \<Longrightarrow> pl_cache s = None \<Longrightarrow> load_step forgets found view s (turn i Missing s)"
| Join: "pl_run s i = Missing \<Longrightarrow> pl_group s = Some k \<Longrightarrow> load_step forgets found view s (turn i (Waiting k) s)"
| Lead: "pl_run s i = Missing \<Longrightarrow> pl_group s = None \<Longrightarrow>
    load_step forgets found view s (turn i (Looking (pl_calls s)) (s\<lparr>pl_group := Some (pl_calls s), pl_calls := Suc (pl_calls s)\<rparr>))"
| Inner_Hit: "pl_run s i = Looking k \<Longrightarrow> pl_cache s = Some v \<Longrightarrow> load_step forgets found view s (turn i (Hit k v) s)"
| Hit_Epoch: "pl_run s i = Hit k v \<Longrightarrow> load_step forgets found view s (finish_call i k (Some (pl_epoch s, v)) s)"
| Inner_Miss: "pl_run s i = Looking k \<Longrightarrow> pl_cache s = None \<Longrightarrow> load_step forgets found view s (turn i (Missed k) s)"
| Read_Epoch: "pl_run s i = Missed k \<Longrightarrow> load_step forgets found view s (turn i (Loading k (pl_epoch s)) s)"
| Load: "pl_run s i = Loading k e \<Longrightarrow> found (view (pl_db s)) \<Longrightarrow> load_step forgets found view s (turn i (Loaded k e (pl_db s)) s)"
| Load_Fails: "pl_run s i = Loading k e \<Longrightarrow> load_step forgets found view s (finish_call i k None s)"
| Check_Passes: "pl_run s i = Loaded k e v \<Longrightarrow> pl_epoch s = e \<Longrightarrow> load_step forgets found view s (turn i (Checked k e v) s)"
| Check_Fails: "pl_run s i = Loaded k e v \<Longrightarrow> pl_epoch s \<noteq> e \<Longrightarrow> load_step forgets found view s (finish_call i k (Some (e, v)) s)"
| Insert: "pl_run s i = Checked k e v \<Longrightarrow> load_step forgets found view s (turn i (Inserted k e v) (s\<lparr>pl_cache := Some v\<rparr>))"
| Deliver: "pl_run s i = Inserted k e v \<Longrightarrow> load_step forgets found view s (finish_call i k (Some (e, v)) s)"
| Receive: "pl_run s i = Waiting k \<Longrightarrow> pl_result s k = Some (Some (e, v)) \<Longrightarrow> pl_epoch s = e \<Longrightarrow> load_step forgets found view s (turn i (Answer v) s)"
| Outdated: "pl_run s i = Waiting k \<Longrightarrow> pl_result s k = Some (Some (e, v)) \<Longrightarrow> pl_epoch s \<noteq> e \<Longrightarrow> load_step forgets found view s (turn i Forgetting s)"
| Retry: "pl_run s i = Forgetting \<Longrightarrow> load_step forgets found view s (turn i Missing (s\<lparr>pl_group := None\<rparr>))"
| Give_Up: "pl_run s i = Forgetting \<Longrightarrow> load_step forgets found view s (turn i Idle (s\<lparr>pl_group := None\<rparr>))"
| Receive_Failure: "pl_run s i = Waiting k \<Longrightarrow> pl_result s k = Some None \<Longrightarrow> load_step forgets found view s (turn i Idle s)"
| Return: "pl_run s i = Answer v \<Longrightarrow> load_step forgets found view s (turn i Idle s)"
| Expire: "load_step forgets found view s (s\<lparr>pl_cache := None\<rparr>)"
| Commit: "pl_change s w = No_Change \<Longrightarrow>
    load_step forgets found view s (s\<lparr>pl_db := v, pl_change := (pl_change s)(w := Committed), pl_old := insert (pl_db s) (pl_old s),
                   pl_since := (\<lambda>i. insert v (pl_since s i))\<rparr>)"
| Quiet: "\<not> forgets \<Longrightarrow> view v = view (pl_db s) \<or> \<not> found (view (pl_db s)) \<Longrightarrow>
    load_step forgets found view s (s\<lparr>pl_db := v, pl_since := (\<lambda>i. insert v (pl_since s i))\<rparr>)"
| Bump: "pl_change s w = Committed \<Longrightarrow>
    load_step forgets found view s (s\<lparr>pl_epoch := Suc (pl_epoch s), pl_change := (pl_change s)(w := Bumped),
                   pl_raced := (pl_raced s \<or> (\<exists>i k e v. pl_run s i = Checked k e v))\<rparr>)"
| Clear: "pl_change s w = Bumped \<Longrightarrow> forgets \<or> pl_cache s \<noteq> None \<Longrightarrow>
    load_step forgets found view s (s\<lparr>pl_cache := None, pl_change := (pl_change s)(w := Cleared)\<rparr>)"
| Clear_Absent: "pl_change s w = Bumped \<Longrightarrow> \<not> forgets \<Longrightarrow> pl_cache s = None \<Longrightarrow>
    load_step forgets found view s (finish_change w (s\<lparr>pl_raced := (pl_raced s \<or> (\<exists>i k v. pl_group s = Some k \<and> pl_run s i = Hit k v))\<rparr>))"
| Forget: "pl_change s w = Cleared \<Longrightarrow> load_step forgets found view s (finish_change w (s\<lparr>pl_group := None\<rparr>))"
| Other_Change: "\<not> forgets \<Longrightarrow> load_step forgets found view s (s\<lparr>pl_epoch := Suc (pl_epoch s)\<rparr>)"

inductive load_reachable :: "bool \<Rightarrow> ('u \<Rightarrow> bool) \<Rightarrow> ('v \<Rightarrow> 'u) \<Rightarrow> 'v \<Rightarrow> 'v pool \<Rightarrow> bool" for forgets found view v0 where
  Start_Pool: "load_reachable forgets found view v0 (start_pool v0)"
| Next_Pool: "load_reachable forgets found view v0 s \<Longrightarrow> load_step forgets found view s t \<Longrightarrow> load_reachable forgets found view v0 t"

section \<open>The invariant\<close>

text \<open>\<open>carries n t k v\<close>: the leader of call \<open>k\<close> has the value \<open>v\<close>, which counts in the epoch \<open>n\<close>.\<close>

fun carries :: "nat \<Rightarrow> 'v turn \<Rightarrow> nat \<Rightarrow> 'v \<Rightarrow> bool" where
  "carries n (Hit k' v') k v = (k' = k \<and> v' = v)"
| "carries n (Loaded k' e v') k v = (k' = k \<and> v' = v \<and> e = n)"
| "carries n (Checked k' e v') k v = (k' = k \<and> v' = v \<and> e = n)"
| "carries n (Inserted k' e v') k v = (k' = k \<and> v' = v \<and> e = n)"
| "carries n _ k v = False"

text \<open>The call a goroutine leads or waits for.\<close>

fun call_of :: "'v turn \<Rightarrow> nat option" where
  "call_of (Waiting k) = Some k"
| "call_of (Looking k) = Some k"
| "call_of (Hit k v) = Some k"
| "call_of (Missed k) = Some k"
| "call_of (Loading k e) = Some k"
| "call_of (Loaded k e v) = Some k"
| "call_of (Checked k e v) = Some k"
| "call_of (Inserted k e v) = Some k"
| "call_of _ = None"

text \<open>The epoch it has read.\<close>

fun epoch_of :: "'v turn \<Rightarrow> nat option" where
  "epoch_of (Loading k e) = Some e"
| "epoch_of (Loaded k e v) = Some e"
| "epoch_of (Checked k e v) = Some e"
| "epoch_of (Inserted k e v) = Some e"
| "epoch_of _ = None"

definition committing :: "(nat \<Rightarrow> change) \<Rightarrow> bool" where
  "committing c = (\<exists>w. c w = Committed)"

definition uncleared :: "(nat \<Rightarrow> change) \<Rightarrow> bool" where
  "uncleared c = (\<exists>w. c w = Committed \<or> c w = Bumped)"

definition current :: "'v pool \<Rightarrow> 'v set" where
  "current s = insert (pl_db s) (pl_old s)"

definition calls_ok :: "'v pool \<Rightarrow> bool" where
  "calls_ok s =
     ((\<forall>k. pl_group s = Some k \<longrightarrow> k < pl_calls s \<and> pl_result s k = None)
      \<and> (\<forall>k. pl_calls s \<le> k \<longrightarrow> pl_result s k = None)
      \<and> (\<forall>i k. call_of (pl_run s i) = Some k \<longrightarrow> k < pl_calls s))"

definition epochs_ok :: "'v pool \<Rightarrow> bool" where
  "epochs_ok s =
     ((\<forall>i e. epoch_of (pl_run s i) = Some e \<longrightarrow> e \<le> pl_epoch s) \<and> (\<forall>k e v. pl_result s k = Some (Some (e, v)) \<longrightarrow> e \<le> pl_epoch s))"

definition cache_right :: "'v pool \<Rightarrow> bool" where
  "cache_right s = (\<forall>v. pl_cache s = Some v \<longrightarrow> v = pl_db s \<or> (v \<in> pl_old s \<and> uncleared (pl_change s)))"

definition loads_right :: "'v pool \<Rightarrow> bool" where
  "loads_right s =
     (\<forall>i k e v. ((pl_run s i = Loaded k e v \<or> pl_run s i = Inserted k e v) \<and> e = pl_epoch s) \<or> pl_run s i = Checked k e v \<longrightarrow> v = pl_db s \<or> (v \<in> pl_old s \<and> committing (pl_change s)))"

definition group_right :: "'v pool \<Rightarrow> bool" where
  "group_right s = (\<forall>i k v. pl_group s = Some k \<longrightarrow> carries (pl_epoch s) (pl_run s i) k v \<longrightarrow> v \<in> current s)"

definition carried_right :: "'v pool \<Rightarrow> bool" where
  "carried_right s = (\<forall>i j k v. carries (pl_epoch s) (pl_run s i) k v \<longrightarrow> call_of (pl_run s j) = Some k \<longrightarrow> v \<in> pl_since s j)"

definition waiting_right :: "'v pool \<Rightarrow> bool" where
  "waiting_right s = (\<forall>j k v. pl_run s j = Waiting k \<longrightarrow> pl_result s k = Some (Some (pl_epoch s, v)) \<longrightarrow> v \<in> pl_since s j)"

definition answers_right :: "'v pool \<Rightarrow> bool" where
  "answers_right s = (\<forall>j v. pl_run s j = Answer v \<longrightarrow> v \<in> pl_since s j)"

definition since_ok :: "'v pool \<Rightarrow> bool" where
  "since_ok s = (\<forall>i. pl_run s i \<noteq> Idle \<longrightarrow> current s \<subseteq> pl_since s i)"

text \<open>What the query has no answer for is nowhere.\<close>

definition finds_ok :: "('v \<Rightarrow> bool) \<Rightarrow> 'v pool \<Rightarrow> bool" where
  "finds_ok found s =
     ((\<forall>v. pl_cache s = Some v \<longrightarrow> found v)
      \<and> (\<forall>i k e v. pl_run s i = Hit k v \<or> pl_run s i = Loaded k e v \<or> pl_run s i = Checked k e v \<or> pl_run s i = Inserted k e v \<longrightarrow> found v))"

definition load_inv :: "('v \<Rightarrow> bool) \<Rightarrow> 'v pool \<Rightarrow> bool" where
  "load_inv found s = (finds_ok found s \<and> calls_ok s \<and> epochs_ok s \<and> since_ok s \<and> (\<not> pl_raced s \<longrightarrow> cache_right s \<and> loads_right s \<and> group_right s \<and> carried_right s
      \<and> waiting_right s \<and> answers_right s))"

lemma start_inv: "load_inv found (start_pool v)"
  by (simp add: load_inv_def start_pool_def finds_ok_def calls_ok_def epochs_ok_def since_ok_def cache_right_def loads_right_def group_right_def
      carried_right_def waiting_right_def answers_right_def)

lemmas step_state = turn_def finish_call_def finish_change_def current_def

lemma change_facts [simp]:
  "committing (c(w := Committed))" "uncleared (c(w := Committed))" "uncleared (c(w := Bumped))"
  by (auto simp: committing_def uncleared_def)

lemma cleared_facts:
  "c w = Bumped \<Longrightarrow> committing (c(w := Cleared)) = committing c"
  "c w = Bumped \<or> c w = Cleared \<Longrightarrow> committing (c(w := No_Change)) = committing c"
  "c w = Cleared \<Longrightarrow> uncleared (c(w := No_Change)) = uncleared c"
  unfolding committing_def uncleared_def by (metis change.distinct fun_upd_apply)+

lemma last_change:
  "c w = Bumped \<or> c w = Cleared \<Longrightarrow> \<forall>x. x = w \<or> c x = No_Change \<Longrightarrow> \<not> committing c"
  "c w = Cleared \<Longrightarrow> \<forall>x. x = w \<or> c x = No_Change \<Longrightarrow> \<not> uncleared c"
  unfolding committing_def uncleared_def by (metis change.distinct)+

lemma committing_uncleared: "committing c \<Longrightarrow> uncleared c"
  by (auto simp: committing_def uncleared_def)

lemma calls_okI:
  assumes "\<And>k. pl_group t = Some k \<Longrightarrow> k < pl_calls t" "\<And>k. pl_group t = Some k \<Longrightarrow> pl_result t k = None"
    and "\<And>k. pl_calls t \<le> k \<Longrightarrow> pl_result t k = None" "\<And>i k. call_of (pl_run t i) = Some k \<Longrightarrow> k < pl_calls t"
  shows "calls_ok t"
  using assms unfolding calls_ok_def by blast

lemma calls_okD:
  assumes "calls_ok s"
  shows "pl_group s = Some k \<Longrightarrow> k < pl_calls s" "pl_group s = Some k \<Longrightarrow> pl_result s k = None"
    and "pl_calls s \<le> k \<Longrightarrow> pl_result s k = None" "call_of (pl_run s i) = Some k \<Longrightarrow> k < pl_calls s"
  using assms unfolding calls_ok_def by blast+

lemma call_bound: "calls_ok s \<Longrightarrow> pl_run s i = t \<Longrightarrow> call_of t = Some k \<Longrightarrow> k < pl_calls s"
  using calls_okD(4) by metis

lemma calls_turn:
  assumes "calls_ok s" "call_of t = None \<or> (\<exists>k. call_of t = Some k \<and> k < pl_calls s)"
  shows "calls_ok (turn i t s)"
  by (rule calls_okI) (use assms calls_okD [OF assms(1)] in \<open>auto simp: turn_def split: if_splits\<close>)

lemma calls_finish:
  assumes "calls_ok s" "k < pl_calls s"
  shows "calls_ok (finish_call i k r s)"
  by (rule calls_okI) (use assms calls_okD [OF assms(1)] in \<open>auto simp: finish_call_def turn_def split: if_splits\<close>)

lemma calls_other [simp]:
  "calls_ok (s\<lparr>pl_cache := x0\<rparr>) = calls_ok s" "calls_ok (s\<lparr>pl_since := x1\<rparr>) = calls_ok s"
  "calls_ok (s\<lparr>pl_db := x2\<rparr>) = calls_ok s" "calls_ok (s\<lparr>pl_change := x3\<rparr>) = calls_ok s"
  "calls_ok (s\<lparr>pl_old := x4\<rparr>) = calls_ok s" "calls_ok (s\<lparr>pl_epoch := x5\<rparr>) = calls_ok s"
  "calls_ok (s\<lparr>pl_raced := x6\<rparr>) = calls_ok s" "calls_ok (finish_change w s) = calls_ok s"
  by (simp_all add: calls_ok_def finish_change_def)

lemma calls_forget [intro]: "calls_ok s \<Longrightarrow> calls_ok (s\<lparr>pl_group := None\<rparr>)"
  by (simp add: calls_ok_def)

lemma calls_step: "load_step forgets found (\<lambda>u. u) s t \<Longrightarrow> calls_ok s \<Longrightarrow> calls_ok t"
proof (induction rule: load_step.induct)
  case (Lead s i)
  show ?case by (rule calls_okI) (use calls_okD [OF Lead(3)] in \<open>auto simp: turn_def less_Suc_eq split: if_splits\<close>)
qed (auto intro!: calls_turn calls_finish dest: call_bound calls_okD(1))

lemma epochs_turn: "epochs_ok s \<Longrightarrow> (\<And>e. epoch_of t = Some e \<Longrightarrow> e \<le> pl_epoch s) \<Longrightarrow> epochs_ok (turn i t s)"
  by (auto simp: epochs_ok_def turn_def)

lemma epochs_finish: "epochs_ok s \<Longrightarrow> (\<And>e v. r = Some (e, v) \<Longrightarrow> e \<le> pl_epoch s) \<Longrightarrow> epochs_ok (finish_call i k r s)"
  by (auto simp: epochs_ok_def turn_def finish_call_def)

lemma epochs_okD: "epochs_ok s \<Longrightarrow> pl_run s i = t \<Longrightarrow> epoch_of t = Some e \<Longrightarrow> e \<le> pl_epoch s"
  "epochs_ok s \<Longrightarrow> pl_result s k = Some (Some (e, v)) \<Longrightarrow> e \<le> pl_epoch s"
  unfolding epochs_ok_def by metis+

lemma epochs_other [simp]:
  "epochs_ok (s\<lparr>pl_cache := x0\<rparr>) = epochs_ok s" "epochs_ok (s\<lparr>pl_since := x1\<rparr>) = epochs_ok s"
  "epochs_ok (s\<lparr>pl_group := x2\<rparr>) = epochs_ok s" "epochs_ok (s\<lparr>pl_calls := x3\<rparr>) = epochs_ok s"
  "epochs_ok (s\<lparr>pl_db := x4\<rparr>) = epochs_ok s" "epochs_ok (s\<lparr>pl_change := x5\<rparr>) = epochs_ok s"
  "epochs_ok (s\<lparr>pl_old := x6\<rparr>) = epochs_ok s" "epochs_ok (s\<lparr>pl_raced := x7\<rparr>) = epochs_ok s"
  "epochs_ok (finish_change w s) = epochs_ok s"
  by (simp_all add: epochs_ok_def finish_change_def)

lemma epochs_raise [intro]: "epochs_ok s \<Longrightarrow> epochs_ok (s\<lparr>pl_epoch := Suc (pl_epoch s)\<rparr>)"
  unfolding epochs_ok_def by (fastforce intro: le_SucI)

lemma epochs_step: "load_step forgets found (\<lambda>u. u) s t \<Longrightarrow> epochs_ok s \<Longrightarrow> epochs_ok t"
  by (induction rule: load_step.induct) (auto intro!: epochs_turn epochs_finish dest: epochs_okD(1))

lemma since_step: "load_step forgets found (\<lambda>u. u) s t \<Longrightarrow> since_ok s \<Longrightarrow> since_ok t"
  by (induction rule: load_step.induct) (auto simp: since_ok_def step_state)

lemma finds_step: "load_step forgets found (\<lambda>u. u) s t \<Longrightarrow> finds_ok found s \<Longrightarrow> finds_ok found t"
  by (induction rule: load_step.induct) (auto simp: finds_ok_def step_state)

lemma raced_step: "load_step forgets found (\<lambda>u. u) s t \<Longrightarrow> pl_raced s \<Longrightarrow> pl_raced t"
  by (induction rule: load_step.induct) (auto simp: step_state)

lemma cache_step: "load_step forgets found (\<lambda>u. u) s t \<Longrightarrow> finds_ok found s \<Longrightarrow> cache_right s \<Longrightarrow> loads_right s \<Longrightarrow> cache_right t"
proof (induction rule: load_step.induct)
  case (Quiet v s)
  then show ?case by (auto simp: cache_right_def finds_ok_def)
qed (fastforce simp: cache_right_def loads_right_def step_state cleared_facts last_change dest: committing_uncleared)+

lemma loads_turn:
  assumes "loads_right s" "\<And>k e v. (t = Loaded k e v \<or> t = Inserted k e v) \<and> e = pl_epoch s \<or> t = Checked k e v \<Longrightarrow>
      v = pl_db s \<or> (v \<in> pl_old s \<and> committing (pl_change s))"
  shows "loads_right (turn i t s)"
  using assms unfolding loads_right_def turn_def by simp

lemma loads_rightD: "loads_right s \<Longrightarrow> pl_run s i = t \<Longrightarrow> (t = Loaded k e v \<or> t = Inserted k e v) \<and> e = pl_epoch s \<or> t = Checked k e v \<Longrightarrow>
    v = pl_db s \<or> (v \<in> pl_old s \<and> committing (pl_change s))"
  unfolding loads_right_def by metis

lemma loads_other [simp]:
  "loads_right (s\<lparr>pl_cache := x0\<rparr>) = loads_right s" "loads_right (s\<lparr>pl_since := x1\<rparr>) = loads_right s"
  "loads_right (s\<lparr>pl_group := x2\<rparr>) = loads_right s" "loads_right (s\<lparr>pl_calls := x3\<rparr>) = loads_right s"
  "loads_right (s\<lparr>pl_result := x4\<rparr>) = loads_right s" "loads_right (s\<lparr>pl_raced := x5\<rparr>) = loads_right s"
  by (simp_all add: loads_right_def)

lemma loads_commit:
  "loads_right s \<Longrightarrow> loads_right (s\<lparr>pl_db := v, pl_change := (pl_change s)(w := Committed), pl_old := insert (pl_db s) (pl_old s)\<rparr>)"
  unfolding loads_right_def by auto

lemma stale_epoch: "epochs_ok s \<Longrightarrow> epoch_of (pl_run s i) \<noteq> Some (Suc (pl_epoch s))"
  unfolding epochs_ok_def by (metis Suc_n_not_le_n)

lemma loads_raise:
  assumes "loads_right s" "epochs_ok s" "(\<forall>i k e v. pl_run s i \<noteq> Checked k e v) \<or> h = pl_change s"
  shows "loads_right (s\<lparr>pl_epoch := Suc (pl_epoch s), pl_change := h\<rparr>)"
  unfolding loads_right_def
proof (intro allI impI)
  fix i k e v
  let ?t = "s\<lparr>pl_epoch := Suc (pl_epoch s), pl_change := h\<rparr>"
  assume "(pl_run ?t i = Loaded k e v \<or> pl_run ?t i = Inserted k e v) \<and> e = pl_epoch ?t \<or> pl_run ?t i = Checked k e v"
  then have "pl_run s i = Checked k e v" using stale_epoch [OF assms(2), of i] by auto
  then show "v = pl_db ?t \<or> (v \<in> pl_old ?t \<and> committing (pl_change ?t))" using assms(1,3) loads_rightD [of s i _ k e v] by auto
qed

lemma loads_finish_change:
  assumes "loads_right s" "pl_change s w = Bumped \<or> pl_change s w = Cleared"
  shows "loads_right (finish_change w s)"
proof (cases "\<exists>x. x \<noteq> w \<and> pl_change s x \<noteq> No_Change")
  case True
  then show ?thesis using assms cleared_facts(2) [of "pl_change s" w, OF assms(2)] by (simp add: loads_right_def finish_change_def)
next
  case False
  then show ?thesis using assms last_change(1) [of "pl_change s" w, OF assms(2)] by (auto simp: loads_right_def finish_change_def)
qed

lemma loads_step: "load_step forgets found (\<lambda>u. u) s t \<Longrightarrow> epochs_ok s \<Longrightarrow> loads_right s \<Longrightarrow> finds_ok found s \<Longrightarrow> \<not> pl_raced t \<Longrightarrow> loads_right t"
proof (induction rule: load_step.induct)
  case (Quiet v s)
  then show ?case unfolding loads_right_def finds_ok_def by fastforce
next
  case (Bump s w)
  then show ?case using loads_raise [of s "(pl_change s)(w := Bumped)"] by simp
next
  case (Clear s w)
  then show ?case by (auto simp: loads_right_def cleared_facts(1))
next
  case (Other_Change s)
  then show ?case using loads_raise [of s "pl_change s"] by simp
next
  case (Check_Passes s i k e v)
  then show ?case using loads_rightD [OF Check_Passes(4,1), of k e v] by (auto intro!: loads_turn)
next
  case (Insert s i k e v)
  then show ?case using loads_rightD [OF Insert(3,1), of k e v] by (auto intro!: loads_turn)
qed (auto simp: finish_call_def intro!: loads_turn loads_commit loads_finish_change)

lemma carries_call: "carries n t k v \<Longrightarrow> call_of t = Some k"
  by (cases t) auto

lemma fresh_call: "calls_ok s \<Longrightarrow> \<not> carries n (pl_run s i) (pl_calls s) v"
  by (metis carries_call calls_okD(4) less_irrefl)

lemma cached_current: "cache_right s \<Longrightarrow> pl_cache s = Some v \<Longrightarrow> v = pl_db s \<or> v \<in> pl_old s"
  by (auto simp: cache_right_def)

lemma since_okD: "since_ok s \<Longrightarrow> pl_run s i \<noteq> Idle \<Longrightarrow> v = pl_db s \<or> v \<in> pl_old s \<Longrightarrow> v \<in> pl_since s i"
  by (auto simp: since_ok_def current_def)

text \<open>In a new epoch only a value read from the cache counts, as it did before.\<close>

lemma carries_raise: "epochs_ok s \<Longrightarrow> carries (Suc (pl_epoch s)) (pl_run s i) k v \<Longrightarrow> carries (pl_epoch s) (pl_run s i) k v"
  using stale_epoch [of s i] by (cases "pl_run s i") auto

lemma carries_cases:
  "carries n t k v \<Longrightarrow> t = Hit k v \<or> t = Loaded k n v \<or> t = Checked k n v \<or> t = Inserted k n v"
  by (cases t) auto

lemma group_finish_change:
  assumes "group_right s" "loads_right s" "pl_change s w = Bumped \<or> pl_change s w = Cleared" "\<not> (\<exists>i k v. pl_group s = Some k \<and> pl_run s i = Hit k v)"
  shows "group_right (finish_change w s)"
proof (cases "\<exists>x. x \<noteq> w \<and> pl_change s x \<noteq> No_Change")
  case True
  then show ?thesis using assms(1) by (simp add: group_right_def finish_change_def current_def)
next
  case False
  then have n: "\<not> committing (pl_change s)" using last_change(1) [of "pl_change s" w, OF assms(3)] by blast
  have "v = pl_db s" if "pl_group s = Some k" "carries (pl_epoch s) (pl_run s i) k v" for i k v
    using carries_cases [OF that(2)] assms(4) that(1) loads_rightD [OF assms(2) refl, of i k "pl_epoch s" v] n by metis
  then show ?thesis by (simp add: group_right_def finish_change_def current_def)
qed

lemma group_other [simp]:
  "group_right (s\<lparr>pl_cache := x0\<rparr>) = group_right s" "group_right (s\<lparr>pl_raced := x1\<rparr>) = group_right s"
  "group_right (s\<lparr>pl_since := x2\<rparr>) = group_right s" "group_right (s\<lparr>pl_change := x3\<rparr>) = group_right s"
  "group_right (s\<lparr>pl_group := None\<rparr>)"
  by (simp_all add: group_right_def current_def)

lemma group_turn:
  "group_right s \<Longrightarrow> (\<And>k v. pl_group s = Some k \<Longrightarrow> carries (pl_epoch s) t k v \<Longrightarrow> v \<in> current s) \<Longrightarrow> group_right (turn i t s)"
  by (auto simp: group_right_def turn_def current_def)

lemma group_rightD: "group_right s \<Longrightarrow> pl_group s = Some k \<Longrightarrow> pl_run s i = t \<Longrightarrow> carries (pl_epoch s) t k v \<Longrightarrow> v \<in> current s"
  unfolding group_right_def by blast

lemma group_finish: "group_right s \<Longrightarrow> group_right (finish_call i k r s)"
  by (auto simp: group_right_def turn_def finish_call_def current_def)

lemma group_step:
  "load_step forgets found (\<lambda>u. u) s t \<Longrightarrow> cache_right s \<Longrightarrow> calls_ok s \<Longrightarrow> epochs_ok s \<Longrightarrow> loads_right s \<Longrightarrow> group_right s \<Longrightarrow> finds_ok found s \<Longrightarrow> \<not> pl_raced t \<Longrightarrow> group_right t"
proof (induction rule: load_step.induct)
  case (Quiet v s)
  have "w = v \<or> w \<in> pl_old s" if "pl_group s = Some k" "carries (pl_epoch s) (pl_run s i) k w" for i k w
  proof -
    have "found w" using Quiet(8) carries_cases [OF that(2)] unfolding finds_ok_def by metis
    moreover have "w = pl_db s \<or> w \<in> pl_old s" using Quiet(7) that unfolding group_right_def current_def by blast
    ultimately show ?thesis using Quiet(2) by auto
  qed
  then show ?case by (auto simp: group_right_def current_def)
next
  case (Lead s i)
  then show ?case by (auto simp: group_right_def step_state fresh_call)
next
  case (Inner_Hit s i k v)
  then show ?case using cached_current [OF Inner_Hit(3,2)] by (auto simp: current_def intro!: group_turn)
next
  case (Check_Passes s i k e v)
  then show ?case by (auto intro!: group_turn dest: group_rightD)
next
  case (Insert s i k e v)
  then show ?case by (auto simp: current_def intro!: group_turn dest: group_rightD)
next
  case (Commit s w v)
  then show ?case by (auto simp: group_right_def current_def)
next
  case (Bump s w)
  then show ?case using carries_raise [OF Bump(4)] by (fastforce simp: group_right_def current_def)
next
  case (Other_Change s)
  then show ?case using carries_raise [OF Other_Change(4)] by (fastforce simp: group_right_def current_def)
next
  case (Clear_Absent s w)
  then show ?case by (intro group_finish_change) (auto simp: finish_change_def)
next
  case (Forget s w)
  then show ?case by (intro group_finish_change) auto
qed (auto simp: current_def intro!: group_turn group_finish)

lemma answers_step:
  assumes "load_step forgets found (\<lambda>u. u) s t" "cache_right s" "since_ok s" "waiting_right s" "answers_right s"
  shows "answers_right t"
  using assms
proof (induction rule: load_step.induct)
  case (Outer_Hit s i v)
  then have "v \<in> pl_since s i" using cached_current since_okD by (metis turn.distinct(1))
  then show ?case using Outer_Hit by (auto simp: answers_right_def turn_def)
next
  case (Receive s i k e v)
  then have "v \<in> pl_since s i" unfolding waiting_right_def by blast
  then show ?case using Receive by (auto simp: answers_right_def turn_def)
qed (auto simp: answers_right_def step_state)

text \<open>A goroutine that takes a new turn: what it carries then, and what the others carry for its call.\<close>

lemma carried_turn:
  assumes "carried_right s" "\<And>k v j. carries (pl_epoch s) t k v \<Longrightarrow> j = i \<or> call_of (pl_run s j) = Some k \<Longrightarrow> v \<in> pl_since s j"
    and "\<And>k j v. call_of t = Some k \<Longrightarrow> call_of (pl_run s i) \<noteq> Some k \<Longrightarrow> carries (pl_epoch s) (pl_run s j) k v \<Longrightarrow> v \<in> pl_since s i"
  shows "carried_right (turn i t s)"
  unfolding carried_right_def
proof (intro allI impI)
  fix x j k v
  assume c: "carries (pl_epoch (turn i t s)) (pl_run (turn i t s) x) k v" and w: "call_of (pl_run (turn i t s) j) = Some k"
  have old: "v \<in> pl_since s j" if "carries (pl_epoch s) (pl_run s x) k v" "call_of (pl_run s j) = Some k" for j
    using assms(1) that unfolding carried_right_def by blast
  consider "x = i" | "x \<noteq> i" "j \<noteq> i" | "x \<noteq> i" "j = i" by blast
  then show "v \<in> pl_since (turn i t s) j"
  proof cases
    case 1
    then show ?thesis using c w assms(2) [of k v j] by (auto simp: turn_def split: if_splits)
  next
    case 2
    then show ?thesis using c w old by (simp add: turn_def)
  next
    case 3
    then show ?thesis using c w old [of i] assms(3) [of k x v] by (auto simp: turn_def)
  qed
qed

lemma carried_at: "carried_right s \<Longrightarrow> pl_run s i = t \<Longrightarrow> carries (pl_epoch s) t k v \<Longrightarrow> call_of (pl_run s j) = Some k \<Longrightarrow> v \<in> pl_since s j"
  unfolding carried_right_def by metis

lemma carried_other [simp]:
  "carried_right (s\<lparr>pl_cache := x0\<rparr>) = carried_right s" "carried_right (s\<lparr>pl_group := x1\<rparr>) = carried_right s"
  "carried_right (s\<lparr>pl_calls := x2\<rparr>) = carried_right s" "carried_right (s\<lparr>pl_result := x3\<rparr>) = carried_right s"
  "carried_right (s\<lparr>pl_raced := x4\<rparr>) = carried_right s" "carried_right (s\<lparr>pl_change := x5\<rparr>) = carried_right s"
  "carried_right (s\<lparr>pl_old := x6\<rparr>) = carried_right s" "carried_right (s\<lparr>pl_db := x7\<rparr>) = carried_right s"
  "carried_right (finish_change w s) = carried_right s"
  by (simp_all add: carried_right_def finish_change_def)

lemma carried_raise: "carried_right s \<Longrightarrow> epochs_ok s \<Longrightarrow> carried_right (s\<lparr>pl_epoch := Suc (pl_epoch s)\<rparr>)"
  using carries_raise [of s] unfolding carried_right_def by fastforce

lemma carried_begin: "carried_right s \<Longrightarrow> pl_run s i = Idle \<Longrightarrow> carried_right (s\<lparr>pl_since := (pl_since s)(i := x)\<rparr>)"
  unfolding carried_right_def by (auto split: if_splits)

lemma carried_commit: "carried_right s \<Longrightarrow> carried_right (s\<lparr>pl_since := (\<lambda>i. insert v (pl_since s i))\<rparr>)"
  unfolding carried_right_def by auto

lemma busy: "j = i \<or> call_of (pl_run s j) = Some k \<Longrightarrow> pl_run s i = t \<Longrightarrow> t \<noteq> Idle \<Longrightarrow> pl_run s j \<noteq> Idle"
  by auto

lemma carried_step:
  assumes "load_step forgets found (\<lambda>u. u) s t" "cache_right s" "since_ok s" "epochs_ok s" "group_right s" "calls_ok s" "carried_right s"
  shows "carried_right t"
  using assms
proof (induction rule: load_step.induct)
  case (Begin s i)
  then show ?case using carried_begin [OF Begin(7,1)] by (intro carried_turn) auto
next
  case (Join s i k)
  have "v \<in> pl_since s i" if "carries (pl_epoch s) (pl_run s j) k v" for j v
    using Join that since_okD [of s i v] unfolding group_right_def current_def by auto
  then show ?case using Join(8) by (intro carried_turn) auto
next
  case (Lead s i)
  then show ?case by (intro carried_turn) (auto simp: fresh_call)
next
  case (Inner_Hit s i k v)
  have "v \<in> pl_since s j" if "j = i \<or> call_of (pl_run s j) = Some k" for j
    using since_okD [OF Inner_Hit(4) busy [OF that Inner_Hit(1)]] cached_current [OF Inner_Hit(3,2)] by auto
  then show ?case using Inner_Hit by (intro carried_turn) auto
next
  case (Load s i k e)
  have "pl_db s \<in> pl_since s j" if "j = i \<or> call_of (pl_run s j) = Some k" for j
    using since_okD [OF Load(4) busy [OF that Load(1)]] by auto
  then show ?case using Load by (intro carried_turn) auto
next
  case (Check_Passes s i k e v)
  then show ?case using carried_at [OF Check_Passes(8,1), of k v] by (intro carried_turn) auto
next
  case (Insert s i k e v)
  then show ?case using carried_at [OF Insert(7,1), of k v] by (intro carried_turn) auto
next
  case (Commit s w v)
  then show ?case using carried_commit [of s v] by (simp add: carried_right_def)
next
  case (Quiet v s)
  then show ?case using carried_commit [of s v] by (simp add: carried_right_def)
qed (auto intro!: carried_turn carried_raise simp: finish_call_def)

lemma waiting_turn:
  assumes "waiting_right s" "\<And>k v. t = Waiting k \<Longrightarrow> pl_result s k = Some (Some (pl_epoch s, v)) \<Longrightarrow> v \<in> pl_since s i"
  shows "waiting_right (turn i t s)"
  using assms unfolding waiting_right_def turn_def by (simp split: if_splits)

lemma waiting_finish:
  assumes "waiting_right s" "\<And>v j. r = Some (pl_epoch s, v) \<Longrightarrow> j = i \<or> pl_run s j = Waiting k \<Longrightarrow> v \<in> pl_since s j"
  shows "waiting_right (finish_call i k r s)"
  using assms unfolding waiting_right_def turn_def finish_call_def by (simp split: if_splits)

lemma waiting_other [simp]:
  "waiting_right (s\<lparr>pl_cache := x0\<rparr>) = waiting_right s" "waiting_right (s\<lparr>pl_group := x1\<rparr>) = waiting_right s"
  "waiting_right (s\<lparr>pl_calls := x2\<rparr>) = waiting_right s" "waiting_right (s\<lparr>pl_raced := x3\<rparr>) = waiting_right s"
  "waiting_right (s\<lparr>pl_change := x4\<rparr>) = waiting_right s" "waiting_right (s\<lparr>pl_old := x5\<rparr>) = waiting_right s"
  "waiting_right (s\<lparr>pl_db := x6\<rparr>) = waiting_right s" "waiting_right (finish_change w s) = waiting_right s"
  by (simp_all add: waiting_right_def finish_change_def)

lemma waiting_raise: "epochs_ok s \<Longrightarrow> waiting_right (s\<lparr>pl_epoch := Suc (pl_epoch s)\<rparr>)"
  using epochs_okD(2) [of s _ "Suc (pl_epoch s)"] by (auto simp: waiting_right_def)

lemma waiting_step:
  assumes "load_step forgets found (\<lambda>u. u) s t" "calls_ok s" "epochs_ok s" "carried_right s" "waiting_right s"
  shows "waiting_right t"
  using assms
proof (induction rule: load_step.induct)
  case (Begin s i)
  have "waiting_right (s\<lparr>pl_since := (pl_since s)(i := x)\<rparr>)" for x using Begin(1,5) unfolding waiting_right_def by auto
  then show ?case by (intro waiting_turn) auto
next
  case (Join s i k)
  then show ?case using calls_okD(2) [OF Join(3,2)] by (intro waiting_turn) auto
next
  case (Hit_Epoch s i k v)
  show ?case by (rule waiting_finish) (use Hit_Epoch carried_at [OF Hit_Epoch(4,1), of k v] in auto)
next
  case (Check_Fails s i k e v)
  then show ?case by (intro waiting_finish) auto
next
  case (Deliver s i k e v)
  show ?case by (rule waiting_finish) (use Deliver carried_at [OF Deliver(4,1), of k v] in auto)
next
  case (Commit s w v)
  then show ?case unfolding waiting_right_def by auto
next
  case (Quiet v s)
  then show ?case unfolding waiting_right_def by auto
qed (auto intro!: waiting_turn waiting_finish waiting_raise)

section \<open>What a lookup answers\<close>

lemma load_inv_step:
  assumes step: "load_step forgets found (\<lambda>u. u) s t" and inv: "load_inv found s"
  shows "load_inv found t"
proof -
  note always = finds_step [OF step] calls_step [OF step] epochs_step [OF step] since_step [OF step]
  have "cache_right t \<and> loads_right t \<and> group_right t \<and> carried_right t \<and> waiting_right t \<and> answers_right t" if "\<not> pl_raced t"
    using that raced_step [OF step] inv cache_step [OF step] loads_step [OF step] group_step [OF step] carried_step [OF step]
      waiting_step [OF step] answers_step [OF step] unfolding load_inv_def by blast
  then show ?thesis using always inv unfolding load_inv_def by blast
qed

lemma load_reachable_inv: "load_reachable forgets found (\<lambda>u. u) v0 s \<Longrightarrow> load_inv found s"
  by (induction rule: load_reachable.induct) (auto intro: start_inv load_inv_step)

text \<open>What is seen of a pool through the view is a pool of its own, with the same steps.\<close>

definition seen :: "('v \<Rightarrow> 'u) \<Rightarrow> 'v pool \<Rightarrow> 'u pool" where
  "seen view s =
     \<lparr>pl_db = view (pl_db s), pl_epoch = pl_epoch s, pl_cache = map_option view (pl_cache s), pl_group = pl_group s, pl_calls = pl_calls s,
      pl_result = map_option (map_option (map_prod id view)) \<circ> pl_result s, pl_run = map_turn view \<circ> pl_run s, pl_change = pl_change s,
      pl_old = view ` pl_old s, pl_since = image view \<circ> pl_since s, pl_raced = pl_raced s\<rparr>"

lemma seen_fields [simp]:
  "pl_db (seen view s) = view (pl_db s)" "pl_epoch (seen view s) = pl_epoch s" "pl_cache (seen view s) = map_option view (pl_cache s)"
  "pl_group (seen view s) = pl_group s" "pl_calls (seen view s) = pl_calls s" "pl_run (seen view s) = map_turn view \<circ> pl_run s"
  "pl_result (seen view s) = map_option (map_option (map_prod id view)) \<circ> pl_result s" "pl_change (seen view s) = pl_change s"
  "pl_old (seen view s) = view ` pl_old s" "pl_since (seen view s) = image view \<circ> pl_since s" "pl_raced (seen view s) = pl_raced s"
  by (simp_all add: seen_def)

lemma seen_turn: "seen view (turn i t s) = turn i (map_turn view t) (seen view s)"
  by (simp add: seen_def turn_def fun_upd_comp)

lemma seen_finish: "seen view (finish_call i k r s) = finish_call i k (map_option (map_prod id view) r) (seen view s)"
  by (simp add: finish_call_def seen_turn) (simp add: seen_def fun_upd_comp)

lemma seen_change: "seen view (finish_change w s) = finish_change w (seen view s)"
  by (auto simp: seen_def finish_change_def)

lemma seen_at:
  "map_turn view t = Checked k e u \<longleftrightarrow> (\<exists>v. t = Checked k e v \<and> u = view v)"
  "map_turn view t = Hit k u \<longleftrightarrow> (\<exists>v. t = Hit k v \<and> u = view v)"
  by (cases t; auto)+

lemma seen_checked: "(\<exists>i k e u. map_turn view (pl_run s i) = Checked k e u) = (\<exists>i k e v. pl_run s i = Checked k e v)"
  by (auto simp: seen_at)

lemma seen_hit:
  "(\<exists>i k u. pl_group s = Some k \<and> map_turn view (pl_run s i) = Hit k u) = (\<exists>i k v. pl_group s = Some k \<and> pl_run s i = Hit k v)"
  by (auto simp: seen_at)

lemma seen_update:
  "seen view (s\<lparr>pl_since := f\<rparr>) = (seen view s)\<lparr>pl_since := image view \<circ> f\<rparr>"
  "seen view (s\<lparr>pl_group := g\<rparr>) = (seen view s)\<lparr>pl_group := g\<rparr>"
  "seen view (s\<lparr>pl_calls := n\<rparr>) = (seen view s)\<lparr>pl_calls := n\<rparr>"
  "seen view (s\<lparr>pl_cache := c\<rparr>) = (seen view s)\<lparr>pl_cache := map_option view c\<rparr>"
  "seen view (s\<lparr>pl_db := v\<rparr>) = (seen view s)\<lparr>pl_db := view v\<rparr>"
  "seen view (s\<lparr>pl_change := h\<rparr>) = (seen view s)\<lparr>pl_change := h\<rparr>"
  "seen view (s\<lparr>pl_old := us\<rparr>) = (seen view s)\<lparr>pl_old := view ` us\<rparr>"
  "seen view (s\<lparr>pl_epoch := e\<rparr>) = (seen view s)\<lparr>pl_epoch := e\<rparr>"
  "seen view (s\<lparr>pl_raced := b\<rparr>) = (seen view s)\<lparr>pl_raced := b\<rparr>"
  by (simp_all add: seen_def)

lemmas seen_state = seen_turn seen_finish seen_change seen_update fun_upd_comp

lemma seen_step: "load_step forgets found view s t \<Longrightarrow> load_step forgets found (\<lambda>u. u) (seen view s) (seen view t)"
proof (induction rule: load_step.induct)
  case (Begin s i)
  then show ?case using load_step.Begin [of "seen view s" i] by (simp add: seen_state)
next
  case (Outer_Hit s i v)
  then show ?case using load_step.Outer_Hit [of "seen view s" i "view v"] by (simp add: seen_state)
next
  case (Outer_Miss s i)
  then show ?case using load_step.Outer_Miss [of "seen view s" i] by (simp add: seen_state)
next
  case (Join s i k)
  then show ?case using load_step.Join [of "seen view s" i k] by (simp add: seen_state)
next
  case (Lead s i)
  then show ?case using load_step.Lead [of "seen view s" i] by (simp add: seen_state)
next
  case (Inner_Hit s i k v)
  then show ?case using load_step.Inner_Hit [of "seen view s" i k "view v"] by (simp add: seen_state)
next
  case (Hit_Epoch s i k v)
  then show ?case using load_step.Hit_Epoch [of "seen view s" i k "view v"] by (simp add: seen_state)
next
  case (Inner_Miss s i k)
  then show ?case using load_step.Inner_Miss [of "seen view s" i k] by (simp add: seen_state)
next
  case (Read_Epoch s i k)
  then show ?case using load_step.Read_Epoch [of "seen view s" i k] by (simp add: seen_state)
next
  case (Load s i k e)
  then show ?case using load_step.Load [of "seen view s" i k e found "\<lambda>u. u"] by (simp add: seen_state)
next
  case (Load_Fails s i k e)
  then show ?case using load_step.Load_Fails [of "seen view s" i k e] by (simp add: seen_state)
next
  case (Check_Passes s i k e v)
  then show ?case using load_step.Check_Passes [of "seen view s" i k e "view v"] by (simp add: seen_state)
next
  case (Check_Fails s i k e v)
  then show ?case using load_step.Check_Fails [of "seen view s" i k e "view v"] by (simp add: seen_state)
next
  case (Insert s i k e v)
  then show ?case using load_step.Insert [of "seen view s" i k e "view v"] by (simp add: seen_state)
next
  case (Deliver s i k e v)
  then show ?case using load_step.Deliver [of "seen view s" i k e "view v"] by (simp add: seen_state)
next
  case (Receive s i k e v)
  then show ?case using load_step.Receive [of "seen view s" i k e "view v"] by (simp add: seen_state)
next
  case (Outdated s i k e v)
  then show ?case using load_step.Outdated [of "seen view s" i k e "view v"] by (simp add: seen_state)
next
  case (Retry s i)
  then show ?case using load_step.Retry [of "seen view s" i] by (simp add: seen_state)
next
  case (Give_Up s i)
  then show ?case using load_step.Give_Up [of "seen view s" i] by (simp add: seen_state)
next
  case (Receive_Failure s i k)
  then show ?case using load_step.Receive_Failure [of "seen view s" i k] by (simp add: seen_state)
next
  case (Return s i v)
  then show ?case using load_step.Return [of "seen view s" i "view v"] by (simp add: seen_state)
next
  case (Expire s)
  then show ?case using load_step.Expire [of forgets found "\<lambda>u. u" "seen view s"] by (simp add: seen_state)
next
  case (Commit s w v)
  then show ?case using load_step.Commit [of "seen view s" w forgets found "\<lambda>u. u" "view v"] by (simp add: seen_state comp_def)
next
  case (Quiet v s)
  then show ?case using load_step.Quiet [of forgets "\<lambda>u. u" "view v" "seen view s" found] by (simp add: seen_state comp_def)
next
  case (Bump s w)
  then show ?case using load_step.Bump [of "seen view s" w] seen_checked [where view = view and s = s] by (simp add: seen_state)
next
  case (Clear s w)
  then show ?case using load_step.Clear [of "seen view s" w forgets] by (simp add: seen_state)
next
  case (Clear_Absent s w)
  then show ?case using load_step.Clear_Absent [of "seen view s" w forgets] seen_hit [where view = view and s = s] by (simp add: seen_state)
next
  case (Forget s w)
  then show ?case using load_step.Forget [of "seen view s" w] by (simp add: seen_state)
next
  case (Other_Change s)
  then show ?case using load_step.Other_Change [of forgets found "\<lambda>u. u" "seen view s"] by (simp add: seen_state)
qed

lemma seen_reachable: "load_reachable forgets found view v0 s \<Longrightarrow> load_reachable forgets found (\<lambda>u. u) (view v0) (seen view s)"
proof (induction rule: load_reachable.induct)
  case Start_Pool
  have "seen view (start_pool v0) = start_pool (view v0)" by (simp add: seen_def start_pool_def comp_def)
  then show ?case by (simp add: load_reachable.Start_Pool)
next
  case (Next_Pool s t)
  then show ?case by (blast intro: load_reachable.Next_Pool seen_step)
qed

text \<open>C39. Lookups of the active domains, and of the account of a token, are right for their call, and the cache is right once the
  changes are done: in every interleaving of lookups, shared loads, failures, expiries, evictions and changes without one of two races
  (an epoch raised between a goroutine's check of it and its write to the cache; a token's change that ends without forgetting a
  shared load which has read the cache but not yet the epoch), an answer is what the database had at some moment of the call, or what a
  change not yet finished when the call began was replacing; and when every change has cleared the cache, what is cached is what the
  database has.  For the domains that is the whole answer.  For a token it is the part that the store never changes without
  clearing the cache: the account's id and everything of the token but its counter and the times of its last use and
  change; these, and the rest of the account's row, its console key among it, may be older.\<close>

theorem lookups_answer_for_their_call:
  assumes "load_reachable forgets found view v0 s" "\<not> pl_raced s"
  shows "(pl_run s i = Answer v \<longrightarrow> view v \<in> view ` pl_since s i)
    \<and> (pl_cache s = Some v \<longrightarrow> view v = view (pl_db s) \<or> uncleared (pl_change s))"
  using load_reachable_inv [OF seen_reachable [OF assms(1)]] assms(2)
  unfolding load_inv_def answers_right_def cache_right_def by fastforce

section \<open>The changes of a token's row\<close>

text \<open>What the query has for one hash, and the part of it that only clearing changes touch.\<close>

definition row_of :: "string \<Rightarrow> db \<Rightarrow> (account \<times> account_token) option" where
  "row_of h d = (case loadAccountByTokenHash h d of Inl e \<Rightarrow> None | Inr r \<Rightarrow> Some r)"

definition row_view :: "(account \<times> account_token) option \<Rightarrow> (uuid \<times> account_token) option" where
  "row_view = map_option (map_prod acc_id auth_part)"

text \<open>Every operation of the store on tokens and donations that does not invalidate the row of a hash, whatever
  it does to other rows, is a quiet change for that hash: it keeps the view, or there was no row.\<close>

lemma uninvalidated_operation_is_quiet:
  assumes "store_ok d" "store_allowed op d"
    and "\<And>q. q \<in> set (db_tokens d) \<Longrightarrow> tr_hash q = h \<Longrightarrow> tok_id q \<notin> set (touched l fault now op d)"
  shows "row_view (row_of h (perform_store l fault now op d)) = row_view (row_of h d) \<or> row_view (row_of h d) = None"
proof (cases "loadAccountByTokenHash h d")
  case (Inr r)
  let ?d = "perform_store l fault now op d"
  obtain a t where r: "loadAccountByTokenHash h d = Inr (a, t)" using Inr by (cases r) simp
  have ho: "hashes_ok d" "hashes_ok ?d" using assms(1) perform_store_ok [OF assms(1,2)] by (simp_all add: store_ok_def)
  note ag = store_agree [of l fault now op d]
  obtain q where q: "q \<in> set (db_tokens d)" "tr_hash q = h" "tok_account_id q = acc_id a" "t = account_token.truncate q"
    and own: "owner_account d = Some a" using r unfolding loadAccount_iff [OF ho(1)] by blast
  obtain q' where q': "q' \<in> set (db_tokens ?d)" "row_agrees q q'" using ag q(1) assms(3) [OF q(1,2)] unfolding tokens_agree_def by blast
  have "map_option acc_id (owner_account ?d) = Some (acc_id a)" using ag own by (simp add: tokens_agree_def)
  then obtain a' where a': "owner_account ?d = Some a'" "acc_id a' = acc_id a" by auto
  have "loadAccountByTokenHash h ?d = Inr (a', account_token.truncate q')"
    unfolding loadAccount_iff [OF ho(2)] using q' q(2,3) a' row_agrees_id [OF q'(2)] by (auto simp: row_agrees_def)
  then show ?thesis using r a'(2) q'(2) q(4) by (simp add: row_of_def row_view_def row_agrees_def)
qed (simp add: row_of_def row_view_def)

section \<open>The races\<close>

text \<open>A first lookup up to its check of the epoch, run by goroutine 0 against the value 0.\<close>

definition checked_once :: "nat pool" where
  "checked_once =
     \<lparr>pl_db = 0, pl_epoch = 0, pl_cache = None, pl_group = Some 0, pl_calls = 1, pl_result = (\<lambda>_. None),
      pl_run = (\<lambda>_. Idle)(0 := Checked 0 0 0), pl_change = (\<lambda>_. No_Change), pl_old = {}, pl_since = (\<lambda>_. {})(0 := {0}), pl_raced = False\<rparr>"

lemma checked_once_reachable: "load_reachable forgets (\<lambda>_. True) view 0 checked_once"
proof -
  let ?s = "\<lambda>t. turn 0 t ((start_pool 0)\<lparr>pl_since := (\<lambda>_. {})(0 := {0})\<rparr>) :: nat pool"
  let ?c = "\<lambda>t. turn 0 t (checked_once)"
  let ?r = "load_reachable forgets (\<lambda>_. True) view 0"
  note [simp] = turn_def start_pool_def checked_once_def
  have "?r (?s Entered)" using Next_Pool [OF Start_Pool Begin [of "start_pool 0" 0]] by simp
  from Next_Pool [OF this Outer_Miss [of _ 0]] have "?r (?s Missing)" by simp
  from Next_Pool [OF this Lead [of _ 0]] have "?r (?c (Looking 0))" by simp
  from Next_Pool [OF this Inner_Miss [of _ 0]] have "?r (?c (Missed 0))" by simp
  from Next_Pool [OF this Read_Epoch [of _ 0]] have "?r (?c (Loading 0 0))" by simp
  from Next_Pool [OF this Load [of _ 0]] have "?r (?c (Loaded 0 0 0))" by simp
  from Next_Pool [OF this Check_Passes [of _ 0]] show ?thesis by simp
qed

text \<open>The window between the check and the write: a change that runs through in it is lost on the cache, and a lookup that begins
  after the change has finished is answered with the contents from before, for a token as for the domains.\<close>

lemma late_write_outlives_change:
  "\<exists>s. load_reachable forgets (\<lambda>_. True) (\<lambda>u. u) (0 :: nat) s \<and> (\<forall>w. pl_change s w = No_Change) \<and> pl_db s = 1 \<and> pl_cache s = Some 0
     \<and> pl_run s 1 = Answer 0 \<and> pl_since s 1 = {1}"
proof -
  let ?w = "\<lambda>c e. checked_once\<lparr>pl_db := 1, pl_epoch := e, pl_change := (\<lambda>_. No_Change)(0 := c), pl_old := {0},
     pl_since := (\<lambda>i. insert 1 (pl_since checked_once i)), pl_raced := (e = 1)\<rparr>"
  let ?r = "load_reachable forgets (\<lambda>_. True) (\<lambda>u. u) (0 :: nat)"
  note [simp] = turn_def checked_once_def finish_change_def
  have idle: "(\<lambda>_. No_Change)(0 := No_Change) = (\<lambda>_. No_Change)" by auto
  have alone: "\<not> (\<exists>x>0. (if x = (0 :: nat) then c else No_Change) \<noteq> No_Change)" for c by auto
  from Next_Pool [OF checked_once_reachable Commit [where w = 0 and v = 1]] have c: "?r (?w Committed 0)" by simp
  have "\<exists>i k e v. (if i = (0 :: nat) then Checked 0 0 (0 :: nat) else Idle) = Checked k e v" by (rule exI [of _ 0]) simp
  with Next_Pool [OF c Bump [of _ 0]] have b: "?r (?w Bumped 1)" by simp
  have "\<exists>g. ?r (checked_once\<lparr>pl_db := 1, pl_epoch := 1, pl_group := g, pl_since := (\<lambda>i. insert 1 (pl_since checked_once i)), pl_raced := True\<rparr>)"
  proof (cases forgets)
    case True
    from Next_Pool [OF b Clear [of _ 0]] True have "?r (?w Cleared 1)" by simp
    from Next_Pool [OF this Forget [of _ 0]] show ?thesis by (intro exI [of _ None]) (simp add: idle alone)
  next
    case False
    from Next_Pool [OF b Clear_Absent [of _ 0]] False show ?thesis by (intro exI [of _ "Some 0"]) (simp add: idle alone)
  qed
  then obtain g where "?r (checked_once\<lparr>pl_db := 1, pl_epoch := 1, pl_group := g, pl_since := (\<lambda>i. insert 1 (pl_since checked_once i)), pl_raced := True\<rparr>)" ..
  from Next_Pool [OF this Insert [of _ 0 0 0 0]]
  have "?r (turn 0 (Inserted 0 0 0) (checked_once\<lparr>pl_db := 1, pl_epoch := 1, pl_group := g, pl_cache := Some 0,
      pl_since := (\<lambda>i. insert 1 (pl_since checked_once i)), pl_raced := True\<rparr>))" by simp
  from Next_Pool [OF Next_Pool [OF this Begin [of _ 1]] Outer_Hit [of _ 1 0]] show ?thesis by fastforce
qed

text \<open>The other window, of a token: the leader of a shared load has found the row in the cache, where it expires; a change then finds
  nothing to remove and does not forget the load, and a lookup that begins after the change joins it and is answered with the row
  from before, since the leader reads the epoch only now.\<close>

lemma unforgotten_load_outlives_change:
  "\<exists>s. load_reachable False (\<lambda>_. True) (\<lambda>u. u) (0 :: nat) s \<and> (\<forall>w. pl_change s w = No_Change) \<and> pl_db s = 1 \<and> pl_cache s = None
     \<and> pl_run s 2 = Answer 0 \<and> pl_since s 2 = {1}"
proof -
  let ?r = "load_reachable False (\<lambda>_. True) (\<lambda>u. u) (0 :: nat)"
  let ?s = "\<lambda>g n t0 t1. turn 0 t0 (turn 1 t1 (checked_once\<lparr>pl_group := g, pl_calls := n, pl_since := (pl_since checked_once)(1 := {0})\<rparr>))"
  let ?d = "\<lambda>g n t1. (?s g n (Waiting 0) t1)\<lparr>pl_cache := Some 0, pl_result := (\<lambda>_. None)(0 := Some (Some (0, 0)))\<rparr>"
  let ?h = "(?d (Some 1) (Suc 1) (Hit 1 0))\<lparr>pl_cache := None\<rparr>"
  let ?w = "\<lambda>c e. ?h\<lparr>pl_db := 1, pl_epoch := e, pl_change := (\<lambda>_. No_Change)(0 := c), pl_old := {0}, pl_since := (\<lambda>i. insert 1 (pl_since ?h i))\<rparr>"
  let ?z = "?h\<lparr>pl_db := 1, pl_epoch := 1, pl_since := (\<lambda>i. insert 1 (pl_since ?h i)), pl_raced := True\<rparr>"
  let ?e = "?z\<lparr>pl_since := (pl_since ?z)(2 := {1})\<rparr>"
  let ?f = "turn 1 (Waiting 1) ((turn 2 (Waiting 1) ?e)\<lparr>pl_group := None, pl_result := (pl_result ?e)(1 := Some (Some (1, 0)))\<rparr>)"
  note [simp] = turn_def checked_once_def finish_call_def finish_change_def
  have idle: "(\<lambda>_. No_Change)(0 := No_Change) = (\<lambda>_. No_Change)" by auto
  have alone: "\<not> (\<exists>x>0. (if x = (0 :: nat) then Bumped else No_Change) \<noteq> No_Change)" by auto
  have twist: "f(Suc 0 := a, 0 := b) = f(0 := b, Suc 0 := a)" "f(0 := b, 2 := c) = f(2 := c, 0 := b)" for f :: "nat \<Rightarrow> 'x" and a b c by auto
  define runs :: "nat \<Rightarrow> nat turn" where "runs i = (if i = 0 then Waiting 0 else ((\<lambda>_. Idle)(Suc 0 := Hit (Suc 0) 0)) i)" for i
  have "\<not> (\<exists>i k e v. runs i = Checked k e v)" "\<exists>i v. runs i = Hit (Suc 0) v" by (auto simp: runs_def intro: exI [of _ "Suc 0"])
  then have none_checked: "(\<exists>i k e v. (if i = 0 then Waiting 0 else ((\<lambda>_. Idle)(Suc 0 := Hit (Suc 0) (0 :: nat))) i) = Checked k e v) = False"
    and reads: "\<exists>i v. (if i = 0 then Waiting 0 else ((\<lambda>_. Idle)(Suc 0 := Hit (Suc 0) (0 :: nat))) i) = Hit (Suc 0) v"
    unfolding runs_def by blast+
  from Next_Pool [OF checked_once_reachable Begin [of _ 1]] have "?r (?s (Some 0) 1 (Checked 0 0 0) Entered)" by (simp add: twist)
  from Next_Pool [OF this Outer_Miss [of _ 1]] have "?r (?s (Some 0) 1 (Checked 0 0 0) Missing)" by (simp add: twist)
  from Next_Pool [OF this Insert [of _ 0 0 0 0]] have "?r ((?s (Some 0) 1 (Inserted 0 0 0) Missing)\<lparr>pl_cache := Some 0\<rparr>)" by (simp add: twist)
  from Next_Pool [OF this Deliver [of _ 0 0 0 0]] have "?r (?d None 1 Missing)" by (simp add: twist)
  from Next_Pool [OF this Lead [of _ 1]] have "?r (?d (Some 1) (Suc 1) (Looking 1))" by (simp add: twist)
  from Next_Pool [OF this Inner_Hit [of _ 1 1 0]] have "?r (?d (Some 1) (Suc 1) (Hit 1 0))" by (simp add: twist)
  from Next_Pool [OF this Expire] have "?r ?h" by (simp add: twist)
  from Next_Pool [OF this Commit [where w = 0 and v = 1]] have "?r (?w Committed 0)" by simp
  from Next_Pool [OF this Bump [of _ 0]] have "?r (?w Bumped 1)" by (simp add: none_checked)
  from Next_Pool [OF this Clear_Absent [of _ 0]] have "?r ?z" by (simp add: idle alone reads)
  from Next_Pool [OF this Begin [of _ 2]] have "?r (turn 2 Entered ?e)" by simp
  from Next_Pool [OF this Outer_Miss [of _ 2]] have "?r (turn 2 Missing ?e)" by simp
  from Next_Pool [OF this Join [of _ 2 1]] have "?r (turn 2 (Waiting 1) ?e)" by simp
  from Next_Pool [OF this Hit_Epoch [of _ 1 1 0]] have "?r ?f" by simp
  from Next_Pool [OF this Receive [of _ 2 1 1 0]] show ?thesis by fastforce
qed

text \<open>A quiet change while the value is on its way: the contents are seen by their half, and the answer is the old ones.\<close>

theorem lookups_answer_for_their_call_witness:
  "\<exists>s. load_reachable False (\<lambda>_. True) (\<lambda>n. n div 2) (0 :: nat) s \<and> pl_db s = 1 \<and> pl_run s 0 = Answer 0
     \<and> (0 :: nat) div 2 \<in> (\<lambda>n. n div 2) ` pl_since s 0 \<and> pl_cache s = Some 0 \<and> (0 :: nat) div 2 = pl_db s div 2"
proof -
  let ?s = "turn 0 (Inserted 0 0 0) (checked_once\<lparr>pl_cache := Some 0\<rparr>)"
  let ?d = "(finish_call 0 0 (Some (0, 0)) ?s)\<lparr>pl_db := 1, pl_since := (\<lambda>i. insert 1 (pl_since ?s i))\<rparr>"
  let ?t = "turn 0 (Answer 0) ?d"
  let ?r = "load_reachable False (\<lambda>_. True) (\<lambda>n. n div 2) (0 :: nat)"
  note [simp] = turn_def checked_once_def finish_call_def
  from Next_Pool [OF checked_once_reachable Insert [of _ 0 0 0 0]] have "?r ?s" by simp
  from Next_Pool [OF this Deliver [of _ 0 0 0 0]] have "?r (finish_call 0 0 (Some (0, 0)) ?s)" by simp
  from Next_Pool [OF this Quiet [where v = 1]] have "?r ?d" by simp
  from Next_Pool [OF this Receive [of _ 0 0 0 0]] have r: "?r ?t" by simp
  have none: "\<not> uncleared (pl_change ?t)" by (simp add: uncleared_def)
  show ?thesis
    using lookups_answer_for_their_call [OF r, of 0 0] r none by (intro exI [of _ ?t]) simp
qed

end
