(* ===== verification/Spec2Isabelle.thy ===== *)
theory Spec2Isabelle
  imports Pipeline Lmtp_Session Donation_DNS Access_Promises Mail_Extract_Promises Domain_Promises Mailbox_Promises
    Recorder_Promises Integration_Promises Token_Promises
    Tooling_Promises Service_Promises Static_Promises Shared_Load Ingress_Load
begin

text \<open>
  A verification development for FAR Mail, a service that receives mail for short-lived mailboxes.  Postfix hands the mail
  to an LMTP server inside the API process; that server routes it by a snapshot of the active domains, parses it and stores it
  in PostgreSQL.  An HTTP API, protected by tokens with quotas, creates mailboxes and reads their mail; a console with a key
  of its own manages domains, donated domains and their rewards, tokens, settings and DNS.  A second program serves the
  web console.  The theories translate the Go code; the databases and services around it are values and parameters.

  \<^bold>\<open>Shared.\<close>
  \<open>Prelude\<close> (types, the result type, generic lemmas, three collections of facts), \<open>GoStrings\<close> and \<open>GoText\<close> (the functions of
  \<open>strings\<close>, \<open>strconv\<close> and \<open>utf8\<close> in use), \<open>GoChan\<close> (buffered channels; locale \<open>bounded_fifo\<close>), \<open>Histories\<close> (the locale
  \<open>guarded_steps\<close>: an invariant of steps is one of histories), \<open>Tables\<close> (rows by key; locale \<open>keyed_table\<close>), \<open>Models\<close>
  (\<open>src/api/model/models.go\<close>) and \<open>Database\<close> (the tables and settings of the store, with their transactions).

  \<^bold>\<open>Mail comes in\<close> (\<open>src/api/ingress\<close>).
  \<open>Lmtp\<close>: lines, addresses, \<open>readData\<close>; it inverts dot stuffing.  \<open>Lmtp_Session\<close>: each command, the command loop and
  \<open>handleDATA\<close>; one reply per command, one per recipient after the data.  \<open>Delivery\<close> and \<open>Pipeline\<close>: slots, queue, workers and
  shutdown, and their interleavings as the relation \<open>Pipeline.step\<close>; slots are conserved, no result is lost, no worker
  blocks, whoever subscribes to the events.
  \<open>Mime\<close>: \<open>mime.go\<close>; bounded and total.  \<open>Snapshot\<close>: \<open>refreshSnapshot\<close> and \<open>resolveRecipient\<close>, equal to the longest suffix.
  \<open>Ingress_Load\<close>: \<open>LoadIngressSnapshot\<close>; routing follows the database, by the names as they are normalised.  \<open>Events\<close>: \<open>events.go\<close>.

  \<^bold>\<open>Mailboxes\<close> (\<open>src/api/store/postgres.go\<close>, \<open>ingress.go\<close>, \<open>tooling.go\<close>, \<open>src/api/handler\<close>).
  \<open>Mailboxes\<close>: mailboxes, mail, the projection of the latest mail and the cleaner.  \<open>Mailbox_Tools\<close>: search, lookup, retention,
  purge.  \<open>Mail_Promises\<close>: the projection counts the mail of a mailbox and shows the latest, whatever is done.  \<open>Mail_Extract\<close>
  and \<open>Mail_Extract_Promises\<close>: verification codes and links.  \<open>Mailbox_Admin\<close> and \<open>Mailbox_Promises\<close>: \<open>mailbox.go\<close>, \<open>email.go\<close>
  with the event stream; a mailbox the API creates is the one the mail server finds, where the
  names of the domains have the form of a host.  \<open>Tooling_Admin\<close> and \<open>Tooling_Promises\<close>:
  \<open>handler/tooling.go\<close>.

  \<^bold>\<open>Domains and donations\<close> (\<open>src/api/store/postgres.go\<close>, \<open>donations.go\<close>, \<open>donation_dns.go\<close>, \<open>handler/domain.go\<close>).
  \<open>Donations\<close>, \<open>Donation_Ledger\<close> and \<open>Donation_Promises\<close>: requests, verification, revocation and rewards; the ledger of a donation
  sums up to its reward.  \<open>Donation_DNS\<close>: the proof by DNS.  \<open>Domains\<close>: the pool, its cache and the choice of a domain.
  \<open>Domain_Admin\<close> and \<open>Domain_Promises\<close>: the handlers and the verifier loop of \<open>main.go\<close>; a donated domain is open exactly while it
  is rewarded.

  \<^bold>\<open>Who may do what\<close> (\<open>src/api/store/tokens.go\<close>, \<open>src/api/middleware\<close>).
  \<open>Credentials\<close>: formats, generation and scopes.  \<open>Tokens\<close>, \<open>Token_Ledger\<close> and \<open>Store_History\<close>: tokens, their quotas and the
  invariant of the store.  \<open>Token_Cache\<close> and \<open>Cache_Refinement\<close>: the cache in front of it refines the query.  \<open>Shared_Load\<close>: the
  same lookups with many goroutines, for domains and tokens, against changes that clear the cache and those of a token
  that do not.  \<open>Access\<close> and \<open>Access_Promises\<close>: \<open>auth.go\<close>, \<open>redis_counter.go\<close> and
  \<open>ratelimit.go\<close>; an admitted request is entitled.  \<open>Token_Admin\<close> and \<open>Token_Promises\<close>: \<open>handler/token.go\<close>, \<open>account.go\<close>.
  \<open>Settings_Admin\<close> and \<open>Settings_Promises\<close>: \<open>handler/setting.go\<close> and the defaults of \<open>auxiliary_schema.go\<close>; what every
  reader of a setting gets is in its range.

  \<^bold>\<open>Figures and integrations.\<close>
  \<open>Usage_Store\<close> and \<open>Usage_Promises\<close>: \<open>store/observability.go\<close>; deferred counting equals the immediate one.  \<open>Usage_Recorder\<close> and
  \<open>Recorder_Promises\<close>: \<open>middleware/observability.go\<close> as a step relation; each request is counted once.  \<open>Reports\<close>: \<open>health.go\<close>,
  \<open>analytics.go\<close>, \<open>features.go\<close>.  \<open>Cloudflare\<close> and \<open>Cloudflare_Promises\<close>: \<open>integrations/cloudflare.go\<close>; a failed plan restores the
  zone, but for a write that got no answer.  \<open>Notifications\<close>, \<open>Integrations\<close> and \<open>Integration_Promises\<close>: \<open>secrets.go\<close>, \<open>notifications.go\<close>, \<open>handler/integration.go\<close>
  and \<open>store/audit.go\<close>.

  \<^bold>\<open>The programs.\<close>
  \<open>Envelope\<close>: \<open>error_envelope.go\<close>, \<open>requestid.go\<close>; no server error shows its cause.  \<open>Service\<close> and \<open>Service_Promises\<close>: \<open>main.go\<close>
  and \<open>config.go\<close>: configuration, the routes with the middleware in front of each, shutdown; a route past the public ones needs
  its credentials.  \<open>Static_Server\<close> and \<open>Static_Promises\<close>: \<open>src/frontend/server/main.go\<close>; no file above the web root is served.
\<close>

text \<open>
  \<^bold>\<open>Conventions.\<close>
  A Go string is the list of its bytes, a character below 256 each; integers that cannot leave their range are \<open>int\<close> or \<open>nat\<close>, and
  where they can, the limit of the type or of the column is written out.  Times and durations are integers in nanoseconds, a
  clock reading is an argument of the definition.  An error is \<open>Inl\<close> of a result; a statement that the database may refuse takes a
  \<open>fault\<close> argument (or the function \<open>faults\<close> from the number of the statement), so the theorems hold for every pattern of
  failures.  Random bytes and generated identifiers are arguments.  Maps of Go whose order of iteration is open are lists in some
  order.  Values are not shared, so the copies that the caches hand out (\<open>cloneDomains\<close>, \<open>cloneAccountToken\<close>) are the values themselves.  \<open>Access\<close> reads Redis as a map of counters that may fail.  Libraries are functions in a record (\<open>libs\<close> and the like): the
  DNS resolver, HTTP answers, JSON, HMAC and SHA, the MIME parser, URL and address parsing, the Unicode case tables; what a
  theorem needs of them is a named hypothesis, and its witness gives an instance.

  \<^bold>\<open>Loops, fuel and interleavings.\<close>
  Loops over data are structural recursion or folds.  \<open>Mime.parseMessage\<close> has fuel for the depth of nesting; \<open>parseMessage_total\<close> shows
  that more than the length of the message is enough, as each part is shorter than the whole.  \<open>GoChan\<close> receives with fuel
  at least the length of the buffer.  \<open>Pipeline.step\<close>, \<open>Usage_Recorder.step_recorder\<close> and \<open>Shared_Load.load_step\<close> have one step per access
  to shared state and any number of goroutines; the other components run one operation at a time, transactions as units.

  \<^bold>\<open>Not modelled.\<close>
  \<open>store/pool_stats.go\<close>, which copies counters; \<open>New\<close>, \<open>Close\<close> and \<open>Ping\<close> of the store, which call the driver; the DDL of
  \<open>auxiliary_schema.go\<close>, whose constraints are part of the modelled statements; \<open>GetEmail\<close>, whose statement the database rejects;
  the CORS headers, the matching of paths and the HTTP server, which are libraries; the transfer of files, and the texts of errors
  that come from the database or the runtime; \<open>src/scripts/performance.go\<close>, a load generator.  The fields of
  \<open>models.go\<close> that only answers of listings use are not in \<open>Models\<close>.  Races between the operations of one component on
  PostgreSQL, below the level of its transactions, and goroutines of the event stream other than subscriber and publisher are
  outside the model.
\<close>

end
